(* ===== verification/Prelude.thy ===== *)
theory Prelude
  imports Main "HOL-Library.Word"
begin

text \<open>
  Shared foundations of the development: the machine integers of the tool, the result type in
  which every \<open>Err\<close> return and every panic of the Rust code is a value, the sequencing
  combinators that stand for the \<open>?\<close> operator and for loops with early returns, and
  the generic lemmas on lists and words that the component theories share.
\<close>

section \<open>Machine integers\<close>

type_synonym u8 = "8 word"
type_synonym u16 = "16 word"
type_synonym u32 = "32 word"
type_synonym u64 = "64 word"

section \<open>Results, errors and panics\<close>

text \<open>
  A Rust function of type \<open>Result<T, E>\<close> can return \<open>Ok\<close>, return \<open>Err\<close>, or not
  return at all because a panic unwinds the tool.  The three outcomes are \<open>Inr x\<close>,
  \<open>Inl (Err e)\<close> and \<open>Inl (Panic p)\<close>.  A loop with no measure of its own runs on
  fuel; \<open>LoopFuelExhausted\<close> is the outcome of a loop that used all of it, which the theorems
  about these loops exclude.  A function that cannot return \<open>Err\<close> is
  polymorphic in the error type.
\<close>

datatype panic_kind =
    AssertFailed
  | IndexOutOfBounds
  | UnwrapFailed
  | DivideByZero
  | UnreachableReached
  | ExplicitPanic
  | LoopFuelExhausted

datatype 'e failure = Err 'e | Panic panic_kind

type_synonym ('e, 'a) res = "'e failure + 'a"

definition bindr :: "('e, 'a) res \<Rightarrow> ('a \<Rightarrow> ('e, 'b) res) \<Rightarrow> ('e, 'b) res" where
  "bindr m f = (case m of Inl e \<Rightarrow> Inl e | Inr x \<Rightarrow> f x)"

definition assertr :: "bool \<Rightarrow> ('e, unit) res" where
  "assertr b = (if b then Inr () else Inl (Panic AssertFailed))"

definition unwrapr :: "'a option \<Rightarrow> ('e, 'a) res" where
  "unwrapr v = (case v of Some x \<Rightarrow> Inr x | None \<Rightarrow> Inl (Panic UnwrapFailed))"

definition ok_or :: "'a option \<Rightarrow> 'e \<Rightarrow> ('e, 'a) res" where
  "ok_or v e = (case v of Some x \<Rightarrow> Inr x | None \<Rightarrow> Inl (Err e))"

definition nthr :: "'a list \<Rightarrow> nat \<Rightarrow> ('e, 'a) res" where
  "nthr xs i = (if i < length xs then Inr (xs ! i) else Inl (Panic IndexOutOfBounds))"

text \<open>A panic-free or error-free computation seen at another error type (\<open>.unwrap()\<close> on a
  \<open>Result\<close> turns an \<open>Err\<close> into a panic).\<close>

definition unwrap_res :: "('e, 'a) res \<Rightarrow> ('f, 'a) res" where
  "unwrap_res m = (case m of
      Inr x \<Rightarrow> Inr x
    | Inl (Panic p) \<Rightarrow> Inl (Panic p)
    | Inl (Err e) \<Rightarrow> Inl (Panic UnwrapFailed))"

definition lift_err :: "('e \<Rightarrow> 'f) \<Rightarrow> ('e, 'a) res \<Rightarrow> ('f, 'a) res" where
  "lift_err g m = (case m of
      Inr x \<Rightarrow> Inr x
    | Inl (Panic p) \<Rightarrow> Inl (Panic p)
    | Inl (Err e) \<Rightarrow> Inl (Err (g e)))"

definition is_ok :: "('e, 'a) res \<Rightarrow> bool" where
  "is_ok m = (case m of Inr _ \<Rightarrow> True | Inl _ \<Rightarrow> False)"

text \<open>A \<open>for\<close> loop with state, left at the first failure; and its two special cases.\<close>

fun foldM :: "('s \<Rightarrow> 'a \<Rightarrow> ('e, 's) res) \<Rightarrow> 's \<Rightarrow> 'a list \<Rightarrow> ('e, 's) res" where
  "foldM f s [] = Inr s"
| "foldM f s (x # xs) = bindr (f s x) (\<lambda>s'. foldM f s' xs)"

fun mapM :: "('a \<Rightarrow> ('e, 'b) res) \<Rightarrow> 'a list \<Rightarrow> ('e, 'b list) res" where
  "mapM f [] = Inr []"
| "mapM f (x # xs) = bindr (f x) (\<lambda>y. bindr (mapM f xs) (\<lambda>ys. Inr (y # ys)))"

fun forM :: "('a \<Rightarrow> ('e, unit) res) \<Rightarrow> 'a list \<Rightarrow> ('e, unit) res" where
  "forM f [] = Inr ()"
| "forM f (x # xs) = bindr (f x) (\<lambda>_. forM f xs)"

section \<open>Laws of the combinators\<close>

named_theorems res_simps \<open>unfolding of the result combinators against a known outcome\<close>

lemma bindr_Inr [simp]: "bindr (Inr x) f = f x"
  by (simp add: bindr_def)

lemma bindr_Inl [simp]: "bindr (Inl e) f = Inl e"
  by (simp add: bindr_def)

lemma bindr_eq_Inr [res_simps]: "bindr m f = Inr y \<longleftrightarrow> (\<exists>x. m = Inr x \<and> f x = Inr y)"
  by (cases m) auto

lemma bindr_InrE:
  assumes "bindr m f = Inr y"
  obtains x where "m = Inr x" "f x = Inr y"
  using assms by (cases m) auto

lemma bindr_eq_Inl [res_simps]:
  "bindr m f = Inl e \<longleftrightarrow> m = Inl e \<or> (\<exists>x. m = Inr x \<and> f x = Inl e)"
  by (cases m) auto

lemma bindr_assoc: "bindr (bindr m f) g = bindr m (\<lambda>x. bindr (f x) g)"
  by (cases m) auto

lemma bindr_cong [fundef_cong]:
  "m = m' \<Longrightarrow> (\<And>x. m' = Inr x \<Longrightarrow> f x = f' x) \<Longrightarrow> bindr m f = bindr m' f'"
  by (cases m') auto

lemma assertr_simps [simp]:
  "assertr True = Inr ()" "assertr False = Inl (Panic AssertFailed)"
  by (simp_all add: assertr_def)

lemma assertr_eq_Inr [res_simps]: "assertr b = Inr u \<longleftrightarrow> b"
  by (simp add: assertr_def)

lemma assertr_eq_Inl [res_simps]: "assertr b = Inl e \<longleftrightarrow> \<not> b \<and> e = Panic AssertFailed"
  by (auto simp: assertr_def)

lemma unwrapr_simps [simp]:
  "unwrapr (Some x) = Inr x" "unwrapr None = Inl (Panic UnwrapFailed)"
  by (simp_all add: unwrapr_def)

lemma unwrapr_eq_Inr [res_simps]: "unwrapr v = Inr x \<longleftrightarrow> v = Some x"
  by (cases v) auto

lemma ok_or_simps [simp]: "ok_or (Some x) e = Inr x" "ok_or None e = Inl (Err e)"
  by (simp_all add: ok_or_def)

lemma ok_or_eq_Inr [res_simps]: "ok_or v e = Inr x \<longleftrightarrow> v = Some x"
  by (cases v) auto

lemma nthr_in [simp]: "i < length xs \<Longrightarrow> nthr xs i = Inr (xs ! i)"
  by (simp add: nthr_def)

lemma nthr_eq_Inr [res_simps]: "nthr xs i = Inr x \<longleftrightarrow> i < length xs \<and> x = xs ! i"
  by (auto simp: nthr_def)

lemma unwrap_res_simps [simp]:
  "unwrap_res (Inr x) = Inr x" "unwrap_res (Inl (Panic p)) = Inl (Panic p)"
  "unwrap_res (Inl (Err e)) = Inl (Panic UnwrapFailed)"
  by (simp_all add: unwrap_res_def)

lemma unwrap_res_eq_Inr [res_simps]: "unwrap_res m = Inr x \<longleftrightarrow> m = Inr x"
  by (auto simp: unwrap_res_def split: sum.splits failure.splits)

lemma lift_err_eq_Inr [res_simps]: "lift_err g m = Inr x \<longleftrightarrow> m = Inr x"
  by (auto simp: lift_err_def split: sum.splits failure.splits)

lemma lift_err_simps [simp]:
  "lift_err g (Inr x) = Inr x" "lift_err g (Inl (Panic p)) = Inl (Panic p)"
  "lift_err g (Inl (Err e)) = Inl (Err (g e))"
  by (simp_all add: lift_err_def)

lemma is_ok_simps [simp]: "is_ok (Inr x)" "\<not> is_ok (Inl e)"
  by (simp_all add: is_ok_def)

lemma is_ok_iff: "is_ok m \<longleftrightarrow> (\<exists>x. m = Inr x)"
  by (cases m) auto

lemma if_res_eq_Inr [res_simps]:
  "(if b then Inl e else m) = Inr x \<longleftrightarrow> \<not> b \<and> m = Inr x"
  "(if b then m else Inl e) = Inr x \<longleftrightarrow> b \<and> m = Inr x"
  by auto

lemma foldM_append: "foldM f s (xs @ ys) = bindr (foldM f s xs) (\<lambda>s'. foldM f s' ys)"
  by (induction xs arbitrary: s) (simp_all add: bindr_assoc)

text \<open>The loop rule: an invariant kept by every iteration that returns holds at the end.\<close>

lemma foldM_inv:
  assumes "foldM f s xs = Inr s'"
    and "I s"
    and "\<And>s x t. I s \<Longrightarrow> x \<in> set xs \<Longrightarrow> f s x = Inr t \<Longrightarrow> I t"
  shows "I s'"
  using assms
proof (induction xs arbitrary: s)
  case Nil
  then show ?case by simp
next
  case (Cons x xs)
  from Cons.prems(1) obtain t where t: "f s x = Inr t" "foldM f t xs = Inr s'"
    by (auto simp: res_simps)
  from Cons.prems(2,3) t(1) have "I t" by auto
  with t(2) show ?case by (rule Cons.IH) (use Cons.prems(3) in auto)
qed

text \<open>The indexed loop rule: the invariant also sees the elements already processed.\<close>

lemma foldM_inv_prefix:
  assumes "foldM f s xs = Inr s'"
    and "I [] s"
    and "\<And>ys x s t. I ys s \<Longrightarrow> x \<in> set xs \<Longrightarrow> f s x = Inr t \<Longrightarrow> I (ys @ [x]) t"
  shows "I xs s'"
  using assms
proof (induction xs arbitrary: s' rule: rev_induct)
  case Nil
  then show ?case by simp
next
  case (snoc x xs)
  from snoc.prems(1) obtain t where t: "foldM f s xs = Inr t" "f t x = Inr s'"
    by (auto simp: foldM_append res_simps)
  from t(1) have "I xs t"
    by (rule snoc.IH) (use snoc.prems(2,3) in auto)
  with t(2) snoc.prems(3) show ?case by simp
qed

text \<open>The same rule when the step also needs to know where in the list it is.\<close>

lemma foldM_inv_split:
  assumes "foldM f s xs = Inr s'"
    and "I [] s"
    and step: "\<And>ys x zs s t. xs = ys @ x # zs \<Longrightarrow> I ys s \<Longrightarrow> f s x = Inr t \<Longrightarrow> I (ys @ [x]) t"
  shows "I xs s'"
proof -
  have "foldM f s zs = Inr s' \<Longrightarrow> I ys s \<Longrightarrow> xs = ys @ zs \<Longrightarrow> I xs s'" for s ys zs
  proof (induction zs arbitrary: s ys)
    case Nil
    then show ?case by simp
  next
    case (Cons z zs)
    from Cons.prems(1) obtain t where t: "f s z = Inr t" "foldM f t zs = Inr s'"
      by (auto simp: res_simps)
    from step [OF Cons.prems(3) Cons.prems(2) t(1)] have "I (ys @ [z]) t" .
    from Cons.IH [OF t(2) this] Cons.prems(3) show ?case by simp
  qed
  from this [OF assms(1,2)] show ?thesis by simp
qed

lemma foldM_total:
  assumes "\<And>s x. I s \<Longrightarrow> x \<in> set xs \<Longrightarrow> \<exists>t. f s x = Inr t \<and> I t" and "I s"
  shows "\<exists>t. foldM f s xs = Inr t \<and> I t"
  using assms
proof (induction xs arbitrary: s)
  case Nil
  then show ?case by simp
next
  case (Cons x xs)
  from Cons.prems obtain t where t: "f s x = Inr t" "I t" by (meson list.set_intros(1))
  have "\<exists>t'. foldM f t xs = Inr t' \<and> I t'"
    by (rule Cons.IH) (use Cons.prems(1) t(2) in auto)
  with t(1) show ?case by auto
qed

lemma mapM_eq_Inr: "mapM f xs = Inr ys \<longleftrightarrow> list_all2 (\<lambda>x y. f x = Inr y) xs ys"
proof (induction xs arbitrary: ys)
  case Nil
  then show ?case by auto
next
  case (Cons x xs)
  show ?case by (cases ys) (auto simp: res_simps Cons.IH)
qed

lemma mapM_length: "mapM f xs = Inr ys \<Longrightarrow> length ys = length xs"
  by (auto simp: mapM_eq_Inr dest: list_all2_lengthD)

lemma forM_eq_Inr [res_simps]: "forM f xs = Inr u \<longleftrightarrow> (\<forall>x \<in> set xs. f x = Inr ())"
  by (induction xs) (auto simp: res_simps)

section \<open>Lists\<close>

lemma takeWhile_eq_take_find:
  "length (takeWhile (\<lambda>x. \<not> P x) xs) < length xs
     \<longleftrightarrow> (\<exists>x \<in> set xs. P x)"
  by (induction xs) auto

lemma split_takeWhile:
  obtains "xs = takeWhile P xs @ dropWhile P xs"
  by simp

lemma sorted_wrt_update_mid:
  "sorted_wrt R (xs @ y # ys) \<Longrightarrow> (\<forall>x \<in> set xs. R x z) \<Longrightarrow> (\<forall>w \<in> set ys. R z w)
     \<Longrightarrow> sorted_wrt R (xs @ z # ys)"
  by (auto simp: sorted_wrt_append)

section \<open>Words\<close>

lemma word_atLeastLessThan_iff: "a \<in> {b..<c} \<longleftrightarrow> b \<le> a \<and> a < (c :: 'a::len word)"
  by simp

lemma unat_add_no_overflow:
  "unat a + unat b < 2 ^ LENGTH('a) \<Longrightarrow> unat (a + b) = unat a + unat (b :: 'a::len word)"
  by (simp add: unat_word_ariths)

lemma len64_eq: "LENGTH(64) = 64"
  by simp

lemma unat_of_nat_small:
  "n < 2 ^ LENGTH('a) \<Longrightarrow> unat (of_nat n :: 'a::len word) = n"
  by (simp add: take_bit_nat_eq_self unat_of_nat)

lemma u64_lt: "unat (x :: u64) < 18446744073709551616"
  using unsigned_less [of x] by simp

lemma u64_eq_iff: "(x :: u64) = y \<longleftrightarrow> unat x = unat y"
  by (simp add: word_unat_eq_iff)

end
