(* ===== verification/Rust_Std.thy ===== *)
theory Rust_Std
  imports Prelude
begin

unbundle bit_operations_syntax

text \<open>
  The parts of Rust's standard library that the tool calls: bit counting on \<open>u64\<close>,
  \<open>next_multiple_of\<close>, byte orders, integer parsing and printing, and string splitting.
  Strings are lists of bytes (HOL characters); whitespace is ASCII whitespace.  The tool is built
  with \<open>cargo build --release\<close>, so \<open>+\<close>, \<open>-\<close> and \<open>*\<close> on machine integers wrap.
\<close>

section \<open>Counting bits\<close>

definition leading_zeros :: "u64 \<Rightarrow> nat" where
  "leading_zeros x = length (takeWhile (\<lambda>i. \<not> bit x i) (rev [0..<64]))"

definition trailing_zeros :: "u64 \<Rightarrow> nat" where
  "trailing_zeros x = length (takeWhile (\<lambda>i. \<not> bit x i) [0..<64])"

definition checked_ilog2 :: "u64 \<Rightarrow> nat option" where
  "checked_ilog2 x = (if x = 0 then None else Some (63 - leading_zeros x))"

lemma bit_exists_u64: "x \<noteq> 0 \<Longrightarrow> \<exists>i < 64. bit (x :: u64) i"
proof -
  assume "x \<noteq> 0"
  then obtain i where i: "bit x i" using bit_word_eqI [of x 0] by auto
  with bit_imp_le_length [OF i] show ?thesis by auto
qed

lemma trailing_zeros_less: "x \<noteq> 0 \<Longrightarrow> trailing_zeros x < 64"
  using takeWhile_eq_take_find [of "\<lambda>i. bit x i" "[0..<64]"] bit_exists_u64 [of x]
  by (auto simp: trailing_zeros_def)

lemma trailing_zeros_bit: "x \<noteq> 0 \<Longrightarrow> bit x (trailing_zeros x)"
  using nth_length_takeWhile [of "\<lambda>i. \<not> bit x i" "[0..<64]"] trailing_zeros_less [of x]
  by (simp add: trailing_zeros_def)

lemma trailing_zeros_below: "i < trailing_zeros x \<Longrightarrow> \<not> bit x i"
proof -
  assume a: "i < trailing_zeros x"
  have le: "trailing_zeros x \<le> 64"
    using length_takeWhile_le [of "\<lambda>i. \<not> bit x i" "[0..<64]"] by (simp add: trailing_zeros_def)
  from a have "takeWhile (\<lambda>i. \<not> bit x i) [0..<64] ! i \<in> set (takeWhile (\<lambda>i. \<not> bit x i) [0..<64])"
    by (simp add: trailing_zeros_def)
  moreover from a le have "takeWhile (\<lambda>i. \<not> bit x i) [0..<64] ! i = i"
    by (subst takeWhile_nth) (simp_all add: trailing_zeros_def)
  ultimately show ?thesis by (auto dest: set_takeWhileD)
qed

lemma leading_zeros_less: "x \<noteq> 0 \<Longrightarrow> leading_zeros x < 64"
  using takeWhile_eq_take_find [of "\<lambda>i. bit x i" "rev [0..<64]"] bit_exists_u64 [of x]
  by (auto simp: leading_zeros_def)

lemma leading_zeros_bit: "x \<noteq> 0 \<Longrightarrow> bit x (63 - leading_zeros x)"
  using nth_length_takeWhile [of "\<lambda>i. \<not> bit x i" "rev [0..<64]"] leading_zeros_less [of x]
  by (simp add: leading_zeros_def rev_nth)

lemma leading_zeros_above: "63 - leading_zeros x < i \<Longrightarrow> \<not> bit x i"
proof (cases "i < 64")
  case False
  then show ?thesis using bit_imp_le_length [of x i] by auto
next
  case True
  let ?tw = "takeWhile (\<lambda>i. \<not> bit x i) (rev [0..<64])"
  assume "63 - leading_zeros x < i"
  with True have a: "63 - i < length ?tw" by (simp add: leading_zeros_def)
  then have "?tw ! (63 - i) = i"
    using True by (subst takeWhile_nth) (simp_all add: rev_nth)
  with nth_mem [OF a] show ?thesis by (auto dest: set_takeWhileD)
qed

lemma bit_imp_unat_ge: "bit (x :: 'a::len word) n \<Longrightarrow> 2 ^ n \<le> unat x"
proof -
  assume "bit x n"
  then have "bit (unat x) n" by (simp add: bit_unsigned_iff)
  then show ?thesis
    by (metis bit_nat_def div_less dvd_0_right not_le_imp_less bit_iff_odd)
qed

lemma no_high_bits_imp_unat_less:
  assumes "\<And>i. n \<le> i \<Longrightarrow> \<not> bit (x :: 'a::len word) i"
  shows "unat x < 2 ^ n"
proof -
  have "take_bit n (unat x) = unat x"
    by (rule bit_eqI) (use assms in \<open>auto simp: bit_take_bit_iff bit_unsigned_iff not_less [symmetric]\<close>)
  then show ?thesis by (simp add: take_bit_nat_eq_self_iff)
qed

lemma leading_zeros_bounds:
  assumes "x \<noteq> 0"
  shows "2 ^ (63 - leading_zeros x) \<le> unat x" and "unat x < 2 ^ Suc (63 - leading_zeros x)"
proof -
  show "2 ^ (63 - leading_zeros x) \<le> unat x"
    by (rule bit_imp_unat_ge) (rule leading_zeros_bit [OF assms])
  show "unat x < 2 ^ Suc (63 - leading_zeros x)"
    by (rule no_high_bits_imp_unat_less) (rule leading_zeros_above, simp)
qed

lemma trailing_zeros_dvd: "2 ^ trailing_zeros x dvd unat x"
proof -
  have "take_bit (trailing_zeros x) (unat x) = 0"
    by (rule bit_eqI)
      (auto simp: bit_take_bit_iff bit_unsigned_iff dest: trailing_zeros_below)
  then show ?thesis by (simp add: take_bit_eq_0_iff)
qed

lemma trailing_zeros_maximal:
  assumes "x \<noteq> 0" "2 ^ k dvd unat x" shows "k \<le> trailing_zeros x"
proof (rule ccontr)
  assume "\<not> k \<le> trailing_zeros x"
  then have "trailing_zeros x < k" by simp
  moreover from assms(2) have "take_bit k (unat x) = 0" by (simp add: take_bit_eq_0_iff)
  then have "\<not> (trailing_zeros x < k \<and> bit x (trailing_zeros x))"
    by (metis bit_take_bit_iff bit_unsigned_iff bit_0_eq bot_apply bot_bool_def possible_bit_nat
        bit_imp_le_length possible_bit_word)
  ultimately show False using trailing_zeros_bit [OF assms(1)] by simp
qed

section \<open>Shifts\<close>

text \<open>In a release build the shift amount is taken modulo the width.\<close>

definition shl :: "u64 \<Rightarrow> u64 \<Rightarrow> u64" where
  "shl x n = push_bit (unat (n AND 63)) x"

definition shr :: "u64 \<Rightarrow> u64 \<Rightarrow> u64" where
  "shr x n = drop_bit (unat (n AND 63)) x"

lemma and_63_small: "unat n < 64 \<Longrightarrow> unat (n AND (63 :: u64)) = unat n"
proof -
  assume "unat n < 64"
  then have "take_bit 6 (unat n) = unat n" by (simp add: take_bit_nat_eq_self_iff)
  moreover have "n AND 63 = take_bit 6 n" by (simp add: take_bit_eq_mask mask_eq_exp_minus_1)
  ultimately show ?thesis by (simp add: unsigned_take_bit_eq)
qed

lemma shl_small: "unat n < 64 \<Longrightarrow> shl x n = push_bit (unat n) x"
  by (simp add: shl_def and_63_small)

lemma shr_small: "unat n < 64 \<Longrightarrow> shr x n = drop_bit (unat n) x"
  by (simp add: shr_def and_63_small)

lemma unat_exp_2: "n < 64 \<Longrightarrow> unat ((2 :: u64) ^ n) = 2 ^ n"
proof -
  assume "n < 64"
  then have "(2 :: nat) ^ n < 2 ^ 64" by (rule power_strict_increasing) simp
  then have "unat (of_nat (2 ^ n) :: u64) = 2 ^ n"
    by (intro unat_of_nat_small) simp
  then show ?thesis by simp
qed

lemma unat_push_bit_1: "n < 64 \<Longrightarrow> unat (push_bit n (1 :: u64)) = 2 ^ n"
  by (simp add: push_bit_eq_mult unat_exp_2)

section \<open>Slices\<close>

text \<open>\<open>dst[off..off + src.len()].copy_from_slice(src)\<close>.\<close>

definition write_at :: "'a list \<Rightarrow> nat \<Rightarrow> 'a list \<Rightarrow> ('e, 'a list) res" where
  "write_at dst off src =
     (if off + length src \<le> length dst
      then Inr (take off dst @ src @ drop (off + length src) dst)
      else Inl (Panic IndexOutOfBounds))"

text \<open>\<open>src[from..to]\<close>.\<close>

definition slice_at :: "'a list \<Rightarrow> nat \<Rightarrow> nat \<Rightarrow> ('e, 'a list) res" where
  "slice_at src from to =
     (if from \<le> to \<and> to \<le> length src then Inr (take (to - from) (drop from src))
      else Inl (Panic IndexOutOfBounds))"

lemma write_at_eq_Inr [res_simps]:
  "write_at dst off src = Inr r \<longleftrightarrow>
     off + length src \<le> length dst \<and> r = take off dst @ src @ drop (off + length src) dst"
  by (auto simp: write_at_def)

lemma slice_at_eq_Inr [res_simps]:
  "slice_at src from to = Inr r \<longleftrightarrow> from \<le> to \<and> to \<le> length src \<and> r = take (to - from) (drop from src)"
  by (auto simp: slice_at_def)

lemma write_at_length: "write_at dst off src = Inr r \<Longrightarrow> length r = length dst"
  by (auto simp: res_simps)

lemma slice_write_same: "write_at dst off src = Inr r \<Longrightarrow> slice_at r off (off + length src) = Inr src"
  by (auto simp: res_simps)

lemma slice_write_disjoint:
  assumes "write_at dst off src = Inr r" and "to \<le> off \<or> off + length src \<le> from"
  shows "slice_at r from to = slice_at dst from to"
proof (cases "from \<le> to \<and> to \<le> length dst")
  case False
  with write_at_length [OF assms(1)] show ?thesis by (auto simp: slice_at_def)
next
  case True
  from assms(1) have r: "r = take off dst @ src @ drop (off + length src) dst"
    and len: "off + length src \<le> length dst" by (simp_all add: res_simps)
  have "take (to - from) (drop from r) = take (to - from) (drop from dst)"
  proof (cases "to \<le> off")
    case before: True
    with len have "take to r = take to dst" by (simp add: r min_def)
    with True show ?thesis by (simp add: take_drop)
  next
    case False
    with assms(2) have "off + length src \<le> from" by simp
    with len have "drop from r = drop from dst" by (simp add: r min_def)
    then show ?thesis by simp
  qed
  with True write_at_length [OF assms(1)] show ?thesis by (simp add: slice_at_def)
qed

section \<open>Multiples\<close>

definition is_multiple_of :: "u64 \<Rightarrow> u64 \<Rightarrow> bool" where
  "is_multiple_of x y \<longleftrightarrow> (if y = 0 then x = 0 else x mod y = 0)"

definition next_multiple_of :: "u64 \<Rightarrow> u64 \<Rightarrow> ('e, u64) res" where
  "next_multiple_of x y =
     (if y = 0 then Inl (Panic DivideByZero)
      else let r = x mod y in Inr (if r = 0 then x else x + (y - r)))"

lemma is_multiple_of_dvd: "is_multiple_of x y \<longleftrightarrow> unat y dvd unat x"
proof -
  have "x mod y = 0 \<longleftrightarrow> unat x mod unat y = 0"
    by (simp add: word_unat_eq_iff unat_mod)
  then show ?thesis
    by (auto simp: is_multiple_of_def mod_eq_0_iff_dvd word_unat_eq_iff)
qed

section \<open>Byte orders\<close>

text \<open>\<open>to_le_bytes\<close> of an \<open>n\<close>-byte integer, and \<open>from_le_bytes\<close>.\<close>

definition le_bytes :: "nat \<Rightarrow> 'a::len word \<Rightarrow> u8 list" where
  "le_bytes n w = map (\<lambda>i. ucast (drop_bit (8 * i) w)) [0..<n]"

fun of_le_bytes :: "u8 list \<Rightarrow> 'a::len word" where
  "of_le_bytes [] = 0"
| "of_le_bytes (b # bs) = ucast b OR push_bit 8 (of_le_bytes bs)"

lemma length_le_bytes [simp]: "length (le_bytes n w) = n"
  by (simp add: le_bytes_def)

lemma bit_of_le_bytes:
  "bit (of_le_bytes bs :: 'a::len word) i
     \<longleftrightarrow> i < LENGTH('a) \<and> i div 8 < length bs \<and> bit (bs ! (i div 8)) (i mod 8)"
proof (induction bs arbitrary: i)
  case Nil
  then show ?case by simp
next
  case (Cons b bs)
  show ?case
  proof (cases "i < 8")
    case True
    then show ?thesis
      by (auto simp: bit_or_iff bit_unsigned_iff bit_push_bit_iff possible_bit_def dest: bit_imp_le_length)
  next
    case False
    then have "i div 8 = Suc ((i - 8) div 8)" "i mod 8 = (i - 8) mod 8"
      by (simp_all add: le_div_geq le_mod_geq)
    with False show ?thesis
      by (auto simp: bit_or_iff bit_unsigned_iff bit_push_bit_iff Cons.IH possible_bit_def
          dest: bit_imp_le_length)
  qed
qed

lemma of_le_bytes_le_bytes:
  "LENGTH('a) = 8 * n \<Longrightarrow> of_le_bytes (le_bytes n w) = (w :: 'a::len word)"
proof (rule bit_word_eqI)
  fix i assume len: "LENGTH('a) = 8 * n" and i: "i < LENGTH('a)"
  then have "i div 8 < n" by auto
  then show "bit (of_le_bytes (le_bytes n w) :: 'a word) i \<longleftrightarrow> bit w i"
    using i by (simp add: bit_of_le_bytes le_bytes_def bit_ucast_iff bit_drop_bit_eq)
qed

lemma le_bytes_of_le_bytes:
  "length bs = n \<Longrightarrow> LENGTH('a) = 8 * n \<Longrightarrow> le_bytes n (of_le_bytes bs :: 'a::len word) = bs"
proof (rule nth_equalityI)
  fix i assume len: "length bs = n" "LENGTH('a) = 8 * n" and i: "i < length (le_bytes n (of_le_bytes bs :: 'a word))"
  show "le_bytes n (of_le_bytes bs :: 'a word) ! i = bs ! i"
  proof (rule bit_word_eqI)
    fix j assume j: "j < LENGTH(8)"
    then have "(8 * i + j) div 8 = i" "(8 * i + j) mod 8 = j" "8 * i + j < 8 * n"
      using i by auto
    then show "bit (le_bytes n (of_le_bytes bs :: 'a word) ! i) j \<longleftrightarrow> bit (bs ! i) j"
      using i j len by (simp add: le_bytes_def bit_ucast_iff bit_drop_bit_eq bit_of_le_bytes)
  qed
qed simp

text \<open>\<open>to_be\<close> on the little-endian machines the tool runs on: the bytes are reversed.\<close>

definition swap_bytes32 :: "u32 \<Rightarrow> u32" where
  "swap_bytes32 w = of_le_bytes (rev (le_bytes 4 w))"

section \<open>Printing integers\<close>

definition digit_char :: "nat \<Rightarrow> char" where
  "digit_char d = char_of (if d < 10 then 48 + d else 87 + d)"

fun digits_string :: "nat \<Rightarrow> nat \<Rightarrow> string" where
  "digits_string base n =
     (if base \<le> 1 \<or> n < base then [digit_char n]
      else digits_string base (n div base) @ [digit_char (n mod base)])"

declare digits_string.simps [simp del]

definition dec_string :: "nat \<Rightarrow> string" where
  "dec_string n = digits_string 10 n"

definition hex_string :: "nat \<Rightarrow> string" where
  "hex_string n = digits_string 16 n"

definition pad0 :: "nat \<Rightarrow> string \<Rightarrow> string" where
  "pad0 w s = replicate (w - length s) (CHR ''0'') @ s"

section \<open>Parsing integers\<close>

definition digit_val :: "nat \<Rightarrow> char \<Rightarrow> nat option" where
  "digit_val radix c =
     (let n = of_char c :: nat;
          d = (if 48 \<le> n \<and> n \<le> 57 then n - 48
               else if 97 \<le> n \<and> n \<le> 122 then n - 87
               else if 65 \<le> n \<and> n \<le> 90 then n - 55
               else 256)
      in if d < radix then Some d else None)"

fun digits_val :: "nat \<Rightarrow> nat \<Rightarrow> string \<Rightarrow> nat option" where
  "digits_val radix acc [] = Some acc"
| "digits_val radix acc (c # cs) =
     (case digit_val radix c of
        None \<Rightarrow> None
      | Some d \<Rightarrow> digits_val radix (acc * radix + d) cs)"

text \<open>\<open>u64::from_str_radix\<close> and \<open>i64::from_str_radix\<close>: an optional sign, at least one
  digit, and a value in range.\<close>

definition u64_from_str_radix :: "nat \<Rightarrow> string \<Rightarrow> u64 option" where
  "u64_from_str_radix radix s =
     (if s = [] \<or> s = ''+'' \<or> s = ''-'' then None
      else let ds = (if hd s = CHR ''+'' then tl s else s)
           in case digits_val radix 0 ds of
                None \<Rightarrow> None
              | Some n \<Rightarrow> if n < 2 ^ 64 then Some (of_nat n) else None)"

definition i64_from_str_radix :: "nat \<Rightarrow> string \<Rightarrow> int option" where
  "i64_from_str_radix radix s =
     (if s = [] \<or> s = ''+'' \<or> s = ''-'' then None
      else if hd s = CHR ''-''
      then (case digits_val radix 0 (tl s) of
              None \<Rightarrow> None
            | Some n \<Rightarrow> if n \<le> 2 ^ 63 then Some (- int n) else None)
      else let ds = (if hd s = CHR ''+'' then tl s else s)
           in case digits_val radix 0 ds of
                None \<Rightarrow> None
              | Some n \<Rightarrow> if n < 2 ^ 63 then Some (int n) else None)"

lemma digit_val_digit_char: "d < radix \<Longrightarrow> radix \<le> 16 \<Longrightarrow> digit_val radix (digit_char d) = Some d"
  by (simp add: digit_val_def digit_char_def Let_def)

lemma digits_val_append:
  "digits_val radix acc (xs @ ys) =
     (case digits_val radix acc xs of None \<Rightarrow> None | Some a \<Rightarrow> digits_val radix a ys)"
  by (induction xs arbitrary: acc) (auto split: option.splits)

lemma digits_val_string:
  assumes "2 \<le> radix" "radix \<le> 16"
  shows "digits_val radix 0 (digits_string radix n) = Some n"
  using assms
proof (induction radix n rule: digits_string.induct)
  case (1 base n)
  show ?case
  proof (cases "n < base")
    case True
    with "1.prems" show ?thesis
      by (simp add: digits_string.simps [of base n] digit_val_digit_char)
  next
    case False
    with 1 show ?thesis
      by (simp add: digits_string.simps [of base n] digits_val_append digit_val_digit_char)
  qed
qed

lemma digits_string_not_Nil [simp]: "digits_string b n \<noteq> []"
  by (subst digits_string.simps) simp

lemma digits_string_inj:
  "2 \<le> radix \<Longrightarrow> radix \<le> 16 \<Longrightarrow> digits_string radix m = digits_string radix n \<Longrightarrow> m = n"
  by (metis digits_val_string option.inject)

section \<open>Strings and paths\<close>

definition is_ascii_whitespace :: "char \<Rightarrow> bool" where
  "is_ascii_whitespace c \<longleftrightarrow> (let n = of_char c :: nat in (9 \<le> n \<and> n \<le> 13) \<or> n = 32)"

definition trim :: "string \<Rightarrow> string" where
  "trim s = rev (dropWhile is_ascii_whitespace (rev (dropWhile is_ascii_whitespace s)))"

fun split_on :: "char \<Rightarrow> string \<Rightarrow> string list" where
  "split_on c [] = [[]]"
| "split_on c (x # xs) =
     (if x = c then [] # split_on c xs
      else case split_on c xs of [] \<Rightarrow> [[x]] | w # ws \<Rightarrow> (x # w) # ws)"

definition strip_prefix :: "string \<Rightarrow> string \<Rightarrow> string option" where
  "strip_prefix p s = (if take (length p) s = p then Some (drop (length p) s) else None)"

definition starts_with :: "string \<Rightarrow> string \<Rightarrow> bool" where
  "starts_with s p \<longleftrightarrow> take (length p) s = p"

text \<open>\<open>Path::join\<close> on Unix: an absolute path replaces the base.\<close>

definition path_join :: "string \<Rightarrow> string \<Rightarrow> string" where
  "path_join base p =
     (if p \<noteq> [] \<and> hd p = CHR ''/'' then p
      else if base = [] \<or> last base = CHR ''/'' then base @ p
      else base @ ''/'' @ p)"

definition string_bytes :: "string \<Rightarrow> u8 list" where
  "string_bytes s = map (\<lambda>c. of_nat (of_char c :: nat)) s"

fun join_with :: "string \<Rightarrow> string list \<Rightarrow> string" where
  "join_with sep [] = []"
| "join_with sep [s] = s"
| "join_with sep (s # t # ss) = s @ sep @ join_with sep (t # ss)"

end
