(* ===== verification/Util.thy ===== *)
theory Util
  imports Rust_Std
begin

unbundle bit_operations_syntax

text \<open>
  \<open>tool/microkit/src/util.rs\<close>: bit positions, rounding, masks, range overlap, the comma
  separated printing of sizes, the search path lookup, and the two serialisers that lay out the
  tables patched into the monitor.  The JSON accessors are not modelled (they only unwrap values of
  the \<open>serde_json\<close> crate), nor is the two-digit floating point quotient that
  \<open>human_size_strict\<close> prints, which is a parameter.
\<close>

section \<open>Bit positions, rounding and masks\<close>

definition msb :: "u64 \<Rightarrow> u64" where
  "msb x = 64 - of_nat (leading_zeros x) - 1"

definition lsb :: "u64 \<Rightarrow> u64" where
  "lsb x = of_nat (trailing_zeros x)"

definition str_to_bool :: "string \<Rightarrow> bool option" where
  "str_to_bool s = (if s = ''true'' then Some True else if s = ''false'' then Some False else None)"

definition kb :: "u64 \<Rightarrow> u64" where
  "kb n = n * 1024"

definition mb :: "u64 \<Rightarrow> u64" where
  "mb n = n * 1024 * 1024"

definition divmod :: "u64 \<Rightarrow> u64 \<Rightarrow> ('e, u64 \<times> u64) res" where
  "divmod x y = (if y = 0 then Inl (Panic DivideByZero) else Inr (x div y, x mod y))"

definition round_up :: "u64 \<Rightarrow> u64 \<Rightarrow> ('e, u64) res" where
  "round_up n x = bindr (divmod n x) (\<lambda>(_, m). Inr (if m = 0 then n else n + x - m))"

definition round_down :: "u64 \<Rightarrow> u64 \<Rightarrow> ('e, u64) res" where
  "round_down n x = bindr (divmod n x) (\<lambda>(_, m). Inr (if m = 0 then n else n - m))"

definition is_power_of_two :: "u64 \<Rightarrow> ('e, bool) res" where
  "is_power_of_two n = bindr (assertr (n > 0)) (\<lambda>_. Inr (n AND (n - 1) = 0))"

definition mask_bits :: "u64 \<Rightarrow> u64 \<Rightarrow> u64" where
  "mask_bits n bits = shl (shr n bits) bits"

definition mask_u64 :: "u64 \<Rightarrow> u64" where
  "mask_u64 n = shl 1 n - 1"

text \<open>A half-open range is a pair of its bounds.\<close>

definition ranges_overlap :: "'a::linorder \<times> 'a \<Rightarrow> 'a \<times> 'a \<Rightarrow> bool" where
  "ranges_overlap left right = (\<not> (snd left \<le> fst right \<or> snd right \<le> fst left))"

section \<open>Printing sizes\<close>

fun comma_loop :: "nat \<Rightarrow> string \<Rightarrow> string \<Rightarrow> string" where
  "comma_loop i [] s = s"
| "comma_loop i (val # vals) s =
     comma_loop (Suc i) vals (val # (if i \<noteq> 0 \<and> i mod 3 = 0 then CHR '','' # s else s))"

definition comma_sep_u64 :: "u64 \<Rightarrow> string" where
  "comma_sep_u64 n = comma_loop 0 (rev (dec_string (unat n))) []"

fun human_size_loop :: "(u64 \<Rightarrow> u64 \<Rightarrow> string) \<Rightarrow> u64 \<Rightarrow> (u64 \<times> string) list \<Rightarrow> ('e, string) res" where
  "human_size_loop fmt_quotient sz [] = Inl (Panic ExplicitPanic)"
| "human_size_loop fmt_quotient sz ((bits, label) # rest) =
     (let base = shl 1 bits
      in if sz > base
         then (if base > 0
               then bindr (divmod sz base) (\<lambda>(d_count, extra).
                      if extra \<noteq> 0 then Inr (fmt_quotient sz base @ '' '' @ label)
                      else Inr (comma_sep_u64 d_count @ '' '' @ label))
               else Inr (comma_sep_u64 sz @ '' '' @ label))
         else human_size_loop fmt_quotient sz rest)"

definition human_size_strict :: "(u64 \<Rightarrow> u64 \<Rightarrow> string) \<Rightarrow> u64 \<Rightarrow> ('e, string) res" where
  "human_size_strict fmt_quotient sz =
     human_size_loop fmt_quotient sz
       [(60, ''EiB''), (50, ''PiB''), (40, ''TiB''), (30, ''GiB''), (20, ''MiB''), (10, ''KiB''),
        (0, ''bytes'')]"

section \<open>Tables for the monitor\<close>

definition monitor_serialise_u64_vec :: "u64 list \<Rightarrow> ('e, u8 list) res" where
  "monitor_serialise_u64_vec vec =
     foldM (\<lambda>bytes (i, value). write_at bytes (i * 8) (le_bytes 8 value))
       (replicate ((1 + length vec) * 8) 0) (enumerate 0 vec)"

definition serialise_name :: "nat \<Rightarrow> u8 list \<Rightarrow> nat \<times> u8 list \<Rightarrow> ('e, u8 list) res" where
  "serialise_name max_name_len names_bytes i_name =
     (let (i, name_bytes) = i_name;
          start = i * max_name_len;
          name_length = min (length name_bytes) (max_name_len - 1);
          end = start + name_length
      in bindr (write_at names_bytes start (take name_length name_bytes)) (\<lambda>bs.
           if end < length bs then Inr (bs[end := 0]) else Inl (Panic IndexOutOfBounds)))"

definition monitor_serialise_names ::
    "u8 list list \<Rightarrow> nat \<Rightarrow> nat \<Rightarrow> ('e, u8 list) res" where
  "monitor_serialise_names names max_len max_name_len =
     foldM (serialise_name max_name_len)
       (replicate ((max_len + 1) * max_name_len) 0) (enumerate 0 names)"

fun get_full_path :: "(string \<Rightarrow> bool) \<Rightarrow> string \<Rightarrow> string list \<Rightarrow> string option" where
  "get_full_path path_exists path [] = None"
| "get_full_path path_exists path (search_path # rest) =
     (let full_path = path_join search_path path
      in if path_exists full_path then Some full_path else get_full_path path_exists path rest)"

section \<open>Properties\<close>

lemma msb_nat:
  assumes "x \<noteq> 0"
  shows "unat (msb x) = 63 - leading_zeros x"
proof -
  have "leading_zeros x < 64" by (rule leading_zeros_less [OF assms])
  then have "msb x = of_nat (63 - leading_zeros x)" by (simp add: msb_def of_nat_diff)
  then show ?thesis by (simp add: unat_of_nat_small)
qed

lemma lsb_nat: "unat (lsb x) = trailing_zeros x"
proof -
  have "trailing_zeros x \<le> 64"
    using length_takeWhile_le [of "\<lambda>i. \<not> bit x i" "[0..<64]"] by (simp add: trailing_zeros_def)
  then show ?thesis by (simp add: lsb_def unat_of_nat_small)
qed

lemma msb_bounds:
  assumes "x \<noteq> 0"
  shows "unat (msb x) < 64" and "2 ^ unat (msb x) \<le> unat x" and "unat x < 2 ^ Suc (unat (msb x))"
  using leading_zeros_bounds [OF assms] by (simp_all add: msb_nat [OF assms])

lemma lsb_dvd: "2 ^ unat (lsb x) dvd unat x"
  by (simp add: lsb_nat trailing_zeros_dvd)

lemma lsb_less: "x \<noteq> 0 \<Longrightarrow> unat (lsb x) < 64"
  by (simp add: lsb_nat trailing_zeros_less)

lemma round_down_nonzero:
  "x \<noteq> 0 \<Longrightarrow> \<exists>r. round_down n x = Inr r \<and> unat r = unat n - unat n mod unat x"
proof -
  assume "x \<noteq> 0"
  then have r: "round_down n x = Inr (n - n mod x)"
    by (simp add: round_down_def divmod_def)
  have "n mod x \<le> n" by (simp add: word_le_nat_alt unat_mod)
  then have "unat (n - n mod x) = unat n - unat n mod unat x"
    by (simp add: unat_sub unat_mod)
  with r show ?thesis by blast
qed

lemma round_up_nonzero:
  assumes "x \<noteq> 0" "unat n + unat x \<le> 2 ^ 64"
  shows "\<exists>r. round_up n x = Inr r \<and> unat r = (unat n + unat x - 1) div unat x * unat x"
proof (cases "n mod x = 0")
  case True
  then have "unat n mod unat x = 0" by (simp flip: unat_mod)
  then obtain k where k: "unat n = unat x * k" by (auto simp: mod_eq_0_iff_dvd dvd_def)
  from assms(1) have "0 < unat x" by (simp add: unat_gt_0)
  then have "(unat n + unat x - 1) div unat x = k"
  proof -
    assume pos: "0 < unat x"
    have "unat x * k + unat x - 1 = (unat x - 1) + k * unat x" using pos by (simp add: mult.commute)
    then show ?thesis using pos unfolding k by (simp only: div_mult_self1) simp
  qed
  with k True assms(1) show ?thesis
    by (simp add: round_up_def divmod_def)
next
  case False
  let ?m = "unat n mod unat x"
  from assms(1) have pos: "0 < unat x" by (simp add: unat_gt_0)
  have m: "unat (n mod x) = ?m" by (simp add: unat_mod)
  from False m have m0: "0 < ?m" by (metis neq0_conv unat_eq_0)
  have mlt: "?m < unat x" using pos by simp
  have mle: "?m \<le> unat n" by simp
  have "n + x - n mod x = (n - n mod x) + x" by simp
  moreover have "unat (n - n mod x) = unat n - ?m"
    by (simp add: unat_sub word_le_nat_alt m)
  moreover have "unat n - ?m + unat x < 2 ^ 64" using assms(2) m0 mle by linarith
  ultimately have u: "unat (n + x - n mod x) = unat n - ?m + unat x"
    by (simp only: unat_add_no_overflow len64_eq)
  have dm: "unat n = unat n div unat x * unat x + ?m" by simp
  have "unat n + unat x - 1 = (unat n div unat x * unat x + ?m) + unat x - 1"
    using dm by simp
  also have "\<dots> = (unat n div unat x + 1) * unat x + (?m - 1)"
    using m0 by (simp add: distrib_right)
  finally have "unat n + unat x - 1 = (unat n div unat x + 1) * unat x + (?m - 1)" .
  then have "(unat n + unat x - 1) div unat x
      = ((?m - 1) + (unat n div unat x + 1) * unat x) div unat x"
    by (simp only: add.commute)
  also have "\<dots> = unat n div unat x + 1 + (?m - 1) div unat x"
    using pos by (subst div_mult_self1) simp_all
  also have "(?m - 1) div unat x = 0" using mlt by simp
  finally have "(unat n + unat x - 1) div unat x = unat n div unat x + 1" by simp
  moreover have "unat n - ?m = unat n div unat x * unat x" by (rule minus_mod_eq_div_mult)
  then have "unat n - ?m + unat x = (unat n div unat x + 1) * unat x" by simp
  ultimately show ?thesis using False assms(1) u
    by (simp add: round_up_def divmod_def)
qed

text \<open>The table of a list of names: one zero-padded cell per name.\<close>

definition name_cell :: "nat \<Rightarrow> u8 list \<Rightarrow> u8 list" where
  "name_cell w name =
     (let k = min (length name) (w - 1) in take k name @ replicate (w - k) 0)"

lemma length_name_cell [simp]: "0 < w \<Longrightarrow> length (name_cell w name) = w"
  by (auto simp: name_cell_def Let_def)

lemma serialise_name_step:
  assumes "0 < w" "length pre = i * w"
  shows "serialise_name w (pre @ replicate (w + r) 0) (i, name)
           = (Inr (pre @ name_cell w name @ replicate r 0) :: ('e, u8 list) res)"
proof -
  let ?k = "min (length name) (w - 1)"
  have k: "?k < w" using assms(1) by linarith
  have w: "write_at (pre @ replicate (w + r) 0) (i * w) (take ?k name)
      = (Inr (pre @ take ?k name @ replicate (w + r - ?k) 0) :: ('e, u8 list) res)"
    using k assms(2) by (simp add: write_at_def)
  have "(pre @ take ?k name @ replicate (w + r - ?k) 0)[i * w + ?k := 0]
      = pre @ take ?k name @ replicate (w + r - ?k) (0 :: u8)"
    using k assms(2) by (simp add: list_update_append list_update_same_conv nth_append)
  moreover have "replicate (w + r - ?k) (0 :: u8) = replicate (w - ?k) 0 @ replicate r 0"
    using k by (simp flip: replicate_add)
  ultimately show ?thesis
    using w k assms(2) by (simp add: serialise_name_def Let_def name_cell_def)
qed

lemma serialise_names_loop:
  assumes "0 < w" "length pre = i * w" "length names \<le> m"
  shows "foldM (serialise_name w) (pre @ replicate (m * w) 0) (enumerate i names)
           = (Inr (pre @ concat (map (name_cell w) names) @ replicate ((m - length names) * w) 0)
              :: ('e, u8 list) res)"
  using assms(2,3)
proof (induction names arbitrary: pre i m)
  case Nil
  then show ?case by simp
next
  case (Cons name names)
  from Cons.prems obtain m' where m: "m = Suc m'" by (cases m) auto
  have "serialise_name w (pre @ replicate (m * w) 0) (i, name)
      = (Inr (pre @ name_cell w name @ replicate (m' * w) 0) :: ('e, u8 list) res)"
    using serialise_name_step [OF assms(1) Cons.prems(1), of "m' * w" name] by (simp add: m)
  moreover have "foldM (serialise_name w) ((pre @ name_cell w name) @ replicate (m' * w) 0)
        (enumerate (Suc i) names)
      = (Inr ((pre @ name_cell w name) @ concat (map (name_cell w) names)
          @ replicate ((m' - length names) * w) 0) :: ('e, u8 list) res)"
    using Cons.IH [of "pre @ name_cell w name" "Suc i" m'] Cons.prems assms(1) m by simp
  ultimately show ?case by (simp add: m)
qed

text \<open>The name table patched into the monitor consists of one cell of \<open>max_name_len\<close>
  bytes per name, in order, each the name truncated to \<open>max_name_len - 1\<close> bytes and padded with
  zeros (so it is always terminated), followed by zero cells up to \<open>max_len + 1\<close> cells; the
  serialiser does not panic when there is room for every name.\<close>

theorem monitor_serialise_names_layout:
  assumes "0 < max_name_len" "length names \<le> max_len + 1"
  shows "monitor_serialise_names names max_len max_name_len
           = Inr (concat (map (name_cell max_name_len) names)
                  @ replicate ((max_len + 1 - length names) * max_name_len) 0)"
  using serialise_names_loop [OF assms(1), of "[]" 0 names "max_len + 1"] assms(2)
  by (simp add: monitor_serialise_names_def)

theorem monitor_serialise_names_layout_witness:
  "monitor_serialise_names [[104, 105], [97, 98, 99, 100, 101]] 2 4
     = Inr [104, 105, 0, 0, 97, 98, 99, 0, 0, 0, 0, 0]"
  using monitor_serialise_names_layout [of 4 "[[104, 105], [97, 98, 99, 100, 101]]" 2]
  by (simp add: name_cell_def numeral_nat)

text \<open>The table of 64-bit values: the little-endian values, then one zero value.\<close>

lemma serialise_u64_loop:
  assumes "length pre = i * 8"
  shows "foldM (\<lambda>bytes (i, value). write_at bytes (i * 8) (le_bytes 8 value))
           (pre @ replicate ((r + length vec) * 8) 0) (enumerate i vec)
         = (Inr (pre @ concat (map (le_bytes 8) vec) @ replicate (r * 8) 0) :: ('e, u8 list) res)"
  using assms
proof (induction vec arbitrary: pre i)
  case Nil
  then show ?case by simp
next
  case (Cons v vec)
  have "write_at (pre @ replicate ((r + length (v # vec)) * 8) 0) (i * 8) (le_bytes 8 v)
      = (Inr ((pre @ le_bytes 8 v) @ replicate ((r + length vec) * 8) 0) :: ('e, u8 list) res)"
    using Cons.prems by (simp add: write_at_def)
  then show ?case using Cons.IH [of "pre @ le_bytes 8 v" "Suc i"] Cons.prems
    by (simp del: length_Cons)
qed

theorem monitor_serialise_u64_vec_layout:
  "monitor_serialise_u64_vec vec = Inr (concat (map (le_bytes 8) vec) @ replicate 8 0)"
  using serialise_u64_loop [of "[]" 0 1 vec] by (simp add: monitor_serialise_u64_vec_def)

text \<open>Removing the separators from a printed size gives the plain decimal number.\<close>

lemma digit_char_not_comma: "d < 16 \<Longrightarrow> digit_char d \<noteq> CHR '',''"
proof
  assume "d < 16" "digit_char d = CHR '',''"
  then have "(of_char (digit_char d) :: nat) = 44" by simp
  with \<open>d < 16\<close> show False by (simp add: digit_char_def split: if_splits)
qed

lemma digits_string_no_comma: "2 \<le> b \<Longrightarrow> b \<le> 16 \<Longrightarrow> CHR '','' \<notin> set (digits_string b n)"
proof (induction b n rule: digits_string.induct)
  case (1 base n)
  then have "n mod base < base" by simp
  with "1.prems" have "n mod base < 16" by linarith
  with 1 show ?case
    using digit_char_not_comma [of n] digit_char_not_comma [of "n mod base"]
    by (subst digits_string.simps) (auto simp: eq_commute)
qed

lemma comma_loop_filter:
  "filter (\<lambda>c. c \<noteq> CHR '','') (comma_loop i vals s)
     = rev (filter (\<lambda>c. c \<noteq> CHR '','') vals) @ filter (\<lambda>c. c \<noteq> CHR '','') s"
  by (induction i vals s rule: comma_loop.induct) auto

lemma comma_sep_u64_digits: "filter (\<lambda>c. c \<noteq> CHR '','') (comma_sep_u64 n) = dec_string (unat n)"
  using digits_string_no_comma [of 10 "unat n"]
  by (auto simp: comma_sep_u64_def comma_loop_filter dec_string_def rev_filter intro!: filter_True)

end
