(* ===== verification/Sel4_Config.thy ===== *)
theory Sel4_Config
  imports Util
begin

unbundle bit_operations_syntax

text \<open>
  The configuration half of \<open>tool/microkit/src/sel4.rs\<close>: the architecture and paging enumerations,
  the kernel configuration with its derived addresses, the object size table and the interrupt
  trigger encodings.  The field \<open>invocations_labels\<close> (a JSON value no modelled code reads) is left
  out of the record.
\<close>

section \<open>Enumerations\<close>

datatype arch = Aarch64 | Riscv64 | X86_64

datatype riscv_virtual_memory = Sv39

definition levels :: "riscv_virtual_memory \<Rightarrow> nat" where
  "levels m = (case m of Sv39 \<Rightarrow> 3)"

datatype object_type =
    OtUntyped | OtTcb | OtEndpoint | OtNotification | OtCNode | OtSchedContext | OtReply
  | OtHugePage | OtVSpace | OtSmallPage | OtLargePage | OtPageTable | OtVcpu | OtAsidPool

datatype page_size = SmallPg | LargePg

fun page_size_u64 :: "page_size \<Rightarrow> u64" where
  "page_size_u64 SmallPg = 0x1000"
| "page_size_u64 LargePg = 0x200000"

definition page_size_from_u64 :: "u64 \<Rightarrow> ('e, page_size) res" where
  "page_size_from_u64 item =
     (if item = 0x1000 then Inr SmallPg
      else if item = 0x200000 then Inr LargePg
      else Inl (Panic ExplicitPanic))"

datatype arm_riscv_irq_trigger = ArLevel | ArEdge

fun arm_riscv_irq_trigger_u8 :: "arm_riscv_irq_trigger \<Rightarrow> u8" where
  "arm_riscv_irq_trigger_u8 ArLevel = 0"
| "arm_riscv_irq_trigger_u8 ArEdge = 1"

definition arm_riscv_irq_trigger_from :: "u8 \<Rightarrow> ('e, arm_riscv_irq_trigger) res" where
  "arm_riscv_irq_trigger_from item =
     (if item = 0 then Inr ArLevel else if item = 1 then Inr ArEdge else Inl (Panic ExplicitPanic))"

fun arm_riscv_irq_trigger_name :: "arm_riscv_irq_trigger \<Rightarrow> string" where
  "arm_riscv_irq_trigger_name ArLevel = ''level''"
| "arm_riscv_irq_trigger_name ArEdge = ''edge''"

datatype x86_ioapic_irq_trigger = IoLevel | IoEdge

fun x86_ioapic_irq_trigger_u64 :: "x86_ioapic_irq_trigger \<Rightarrow> u64" where
  "x86_ioapic_irq_trigger_u64 IoLevel = 1"
| "x86_ioapic_irq_trigger_u64 IoEdge = 0"

definition x86_ioapic_irq_trigger_from :: "u64 \<Rightarrow> ('e, x86_ioapic_irq_trigger) res" where
  "x86_ioapic_irq_trigger_from item =
     (if item = 0 then Inr IoEdge else if item = 1 then Inr IoLevel else Inl (Panic ExplicitPanic))"

fun x86_ioapic_irq_trigger_name :: "x86_ioapic_irq_trigger \<Rightarrow> string" where
  "x86_ioapic_irq_trigger_name IoLevel = ''level''"
| "x86_ioapic_irq_trigger_name IoEdge = ''edge''"

datatype x86_ioapic_irq_polarity = HighTriggered | LowTriggered

fun x86_ioapic_irq_polarity_u64 :: "x86_ioapic_irq_polarity \<Rightarrow> u64" where
  "x86_ioapic_irq_polarity_u64 HighTriggered = 0"
| "x86_ioapic_irq_polarity_u64 LowTriggered = 1"

definition x86_ioapic_irq_polarity_from :: "u64 \<Rightarrow> ('e, x86_ioapic_irq_polarity) res" where
  "x86_ioapic_irq_polarity_from item =
     (if item = 0 then Inr HighTriggered
      else if item = 1 then Inr LowTriggered
      else Inl (Panic ExplicitPanic))"

fun x86_ioapic_irq_polarity_name :: "x86_ioapic_irq_polarity \<Rightarrow> string" where
  "x86_ioapic_irq_polarity_name LowTriggered = ''low-triggered''"
| "x86_ioapic_irq_polarity_name HighTriggered = ''high-triggered''"

section \<open>Configuration\<close>

record platform_config_region =
  pr_start :: u64
  pr_end :: u64

record object_sizes =
  os_tcb :: u64
  os_endpoint :: u64
  os_notification :: u64
  os_reply :: u64
  os_vspace :: u64
  os_page_table :: u64
  os_huge_page :: u64
  os_large_page :: u64
  os_small_page :: u64
  os_asid_pool :: u64
  os_vcpu :: "u64 option"

record config =
  arch :: arch
  word_size :: u64
  minimum_page_size :: u64
  paddr_user_device_top :: u64
  kernel_frame_size :: u64
  init_cnode_bits :: u64
  cap_address_bits :: u64
  fan_out_limit :: u64
  max_num_bootinfo_untypeds :: u64
  hypervisor :: bool
  benchmark :: bool
  num_cores :: u8
  fpu :: bool
  arm_pa_size_bits :: "nat option"
  arm_smc :: "bool option"
  riscv_pt_levels :: "riscv_virtual_memory option"
  object_sizes :: "object_sizes option"
  device_regions :: "platform_config_region list option"
  normal_regions :: "platform_config_region list option"

definition user_vspace_top :: "config \<Rightarrow> ('e, u64) res" where
  "user_vspace_top cfg = (case arch cfg of
      Aarch64 \<Rightarrow>
        if hypervisor cfg
        then bindr (unwrapr (arm_pa_size_bits cfg)) (\<lambda>bits.
               if bits = 40 then Inr 0x00ffffffffff
               else if bits = 44 then Inr 0x0fffffffffff
               else Inl (Panic ExplicitPanic))
        else Inr 0x7fffffffffff
    | Riscv64 \<Rightarrow> Inr 0x0000003fffffefff
    | X86_64 \<Rightarrow> Inr 0x7fffffffefff)"

definition virtual_base :: "config \<Rightarrow> ('e, u64) res" where
  "virtual_base cfg = (case arch cfg of
      Aarch64 \<Rightarrow> Inr (if hypervisor cfg then 0x0000008000000000 else 0xffffff8000000000)
    | Riscv64 \<Rightarrow> bindr (unwrapr (riscv_pt_levels cfg)) (\<lambda>m. case m of Sv39 \<Rightarrow> Inr 0xffffffc000000000)
    | X86_64 \<Rightarrow> Inr 0xffffff8000000000)"

definition page_sizes :: "config \<Rightarrow> u64 \<times> u64" where
  "page_sizes cfg = (0x1000, 0x200000)"

definition pd_ipc_buffer :: "config \<Rightarrow> ('e, u64) res" where
  "pd_ipc_buffer cfg = bindr (user_vspace_top cfg) (\<lambda>utop. Inr (utop AND NOT (page_size_u64 SmallPg - 1)))"

definition pd_stack_top :: "config \<Rightarrow> ('e, u64) res" where
  "pd_stack_top cfg = bindr (pd_ipc_buffer cfg) (\<lambda>b. Inr (b - page_size_u64 SmallPg))"

definition pd_stack_bottom :: "config \<Rightarrow> u64 \<Rightarrow> ('e, u64) res" where
  "pd_stack_bottom cfg stack_size = bindr (pd_stack_top cfg) (\<lambda>t. Inr (t - stack_size))"

definition pd_map_max_vaddr :: "config \<Rightarrow> u64 \<Rightarrow> ('e, u64) res" where
  "pd_map_max_vaddr cfg stack_size = pd_stack_bottom cfg stack_size"

definition vm_map_max_vaddr :: "config \<Rightarrow> ('e, u64) res" where
  "vm_map_max_vaddr cfg = bindr (user_vspace_top cfg) (\<lambda>utop. Inr (utop + 1))"

definition paddr_to_kernel_vaddr :: "config \<Rightarrow> u64 \<Rightarrow> ('e, u64) res" where
  "paddr_to_kernel_vaddr cfg paddr = bindr (virtual_base cfg) (\<lambda>b. Inr (paddr + b))"

definition kernel_vaddr_to_paddr :: "config \<Rightarrow> u64 \<Rightarrow> ('e, u64) res" where
  "kernel_vaddr_to_paddr cfg vaddr = bindr (virtual_base cfg) (\<lambda>b. Inr (vaddr - b))"

definition aarch64_vspace_s2_start_l1 :: "config \<Rightarrow> ('e, bool) res" where
  "aarch64_vspace_s2_start_l1 cfg = (case arch cfg of
      Aarch64 \<Rightarrow>
        if hypervisor cfg then bindr (unwrapr (arm_pa_size_bits cfg)) (\<lambda>bits. Inr (bits = 40))
        else Inr False
    | _ \<Rightarrow> Inl (Panic ExplicitPanic))"

definition num_page_table_levels :: "config \<Rightarrow> ('e, nat) res" where
  "num_page_table_levels cfg = (case arch cfg of
      Aarch64 \<Rightarrow> Inr 4
    | Riscv64 \<Rightarrow> bindr (unwrapr (riscv_pt_levels cfg)) (\<lambda>m. Inr (levels m))
    | X86_64 \<Rightarrow> Inr 4)"

section \<open>Object sizes\<close>

definition fixed_size_bits :: "object_type \<Rightarrow> config \<Rightarrow> ('e, u64 option) res" where
  "fixed_size_bits ty cfg =
     bindr (assertr (object_sizes cfg \<noteq> None)) (\<lambda>_.
     bindr (unwrapr (object_sizes cfg)) (\<lambda>sizes.
       case ty of
         OtTcb \<Rightarrow> Inr (Some (os_tcb sizes))
       | OtEndpoint \<Rightarrow> Inr (Some (os_endpoint sizes))
       | OtNotification \<Rightarrow> Inr (Some (os_notification sizes))
       | OtReply \<Rightarrow> Inr (Some (os_reply sizes))
       | OtVSpace \<Rightarrow> Inr (Some (os_vspace sizes))
       | OtPageTable \<Rightarrow> Inr (Some (os_page_table sizes))
       | OtHugePage \<Rightarrow> Inr (Some (os_huge_page sizes))
       | OtLargePage \<Rightarrow> Inr (Some (os_large_page sizes))
       | OtSmallPage \<Rightarrow> Inr (Some (os_small_page sizes))
       | OtVcpu \<Rightarrow>
           (case arch cfg of
              Riscv64 \<Rightarrow> Inl (Panic ExplicitPanic)
            | _ \<Rightarrow> bindr (unwrapr (os_vcpu sizes)) (\<lambda>v. Inr (Some v)))
       | OtAsidPool \<Rightarrow> Inr (Some (os_asid_pool sizes))
       | _ \<Rightarrow> Inr None))"

definition fixed_size :: "object_type \<Rightarrow> config \<Rightarrow> ('e, u64 option) res" where
  "fixed_size ty cfg = bindr (fixed_size_bits ty cfg) (\<lambda>r. Inr (map_option (\<lambda>bits. shl 1 bits) r))"

definition page_fixed_size_bits :: "page_size \<Rightarrow> config \<Rightarrow> ('e, u64) res" where
  "page_fixed_size_bits p cfg = (case p of
      SmallPg \<Rightarrow> bindr (fixed_size_bits OtSmallPage cfg) unwrapr
    | LargePg \<Rightarrow> bindr (fixed_size_bits OtLargePage cfg) unwrapr)"

section \<open>Properties\<close>

lemma page_size_u64_pos [simp]: "page_size_u64 p \<noteq> 0"
  by (cases p) simp_all

lemma page_size_from_to [simp]: "page_size_from_u64 (page_size_u64 p) = Inr p"
  by (cases p) (simp_all add: page_size_from_u64_def)

lemma arm_riscv_irq_trigger_roundtrip [simp]:
  "arm_riscv_irq_trigger_from (arm_riscv_irq_trigger_u8 t) = Inr t"
  by (cases t) (simp_all add: arm_riscv_irq_trigger_from_def)

lemma x86_ioapic_irq_trigger_roundtrip [simp]:
  "x86_ioapic_irq_trigger_from (x86_ioapic_irq_trigger_u64 t) = Inr t"
  by (cases t) (simp_all add: x86_ioapic_irq_trigger_from_def)

lemma x86_ioapic_irq_polarity_roundtrip [simp]:
  "x86_ioapic_irq_polarity_from (x86_ioapic_irq_polarity_u64 t) = Inr t"
  by (cases t) (simp_all add: x86_ioapic_irq_polarity_from_def)

lemma kernel_vaddr_paddr_inverse:
  "bindr (paddr_to_kernel_vaddr cfg p) (kernel_vaddr_to_paddr cfg)
     = (bindr (virtual_base cfg) (\<lambda>_. Inr p) :: ('e, u64) res)"
  by (cases "virtual_base cfg :: ('e, u64) res") (simp_all add: paddr_to_kernel_vaddr_def kernel_vaddr_to_paddr_def)

lemma user_vspace_top_cases:
  "user_vspace_top cfg = Inr utop \<Longrightarrow>
     (utop :: u64) \<in> {0xffffffffff, 0xfffffffffff, 0x7fffffffffff, 0x3fffffefff, 0x7fffffffefff}"
  by (auto simp: user_vspace_top_def res_simps split: arch.splits if_splits)

text \<open>Whatever the architecture, the stack of a protection domain, one guard page and its IPC
  buffer page are laid out downwards from the top of the user address space: for any stack size the
  system description accepts (at most 16 MiB), the buffer is the page that ends at the last user
  address, and the bound on mappings lies one guard page plus the stack size below it.\<close>

theorem pd_stack_layout:
  assumes "user_vspace_top cfg = (Inr utop :: ('e, u64) res)" and "stack_size \<le> 0x1000000"
  shows "\<exists>buf bottom. pd_ipc_buffer cfg = (Inr buf :: ('e, u64) res)
           \<and> pd_map_max_vaddr cfg stack_size = (Inr bottom :: ('e, u64) res)
           \<and> unat bottom + unat stack_size + 0x1000 = unat buf
           \<and> buf AND 0xFFF = 0 \<and> unat buf + 0xFFF = unat utop"
proof -
  have sz: "unat stack_size \<le> 0x1000000" using assms(2) by (simp add: word_le_nat_alt)
  let ?buf = "utop AND NOT 0xFFF :: u64"
  have buf: "pd_ipc_buffer cfg = (Inr ?buf :: ('e, u64) res)"
    by (simp add: pd_ipc_buffer_def assms(1))
  have max: "pd_map_max_vaddr cfg stack_size = (Inr (?buf - 0x1000 - stack_size) :: ('e, u64) res)"
    by (simp add: pd_map_max_vaddr_def pd_stack_bottom_def pd_stack_top_def buf)
  have sub: "unat (w - stack_size) + unat stack_size = unat w" if "0x1000000 \<le> unat w" for w
  proof -
    from that sz have "stack_size \<le> w" by (simp add: word_le_nat_alt)
    then show ?thesis by (simp add: unat_sub word_le_nat_alt)
  qed
  from user_vspace_top_cases [OF assms(1)]
  have c: "0x1000000 \<le> unat (?buf - 0x1000) \<and> unat (?buf - 0x1000) + 0x1000 = unat ?buf
      \<and> ?buf AND 0xFFF = 0 \<and> unat ?buf + 0xFFF = unat utop"
    by auto
  with sub [of "?buf - 0x1000"] buf max show ?thesis by auto
qed

text \<open>A RISC-V configuration used in the witnesses.\<close>

definition example_riscv_config :: config where
  "example_riscv_config =
     \<lparr>arch = Riscv64, word_size = 64, minimum_page_size = 0x1000,
      paddr_user_device_top = 0x100000000000000, kernel_frame_size = 0x1000,
      init_cnode_bits = 13, cap_address_bits = 64, fan_out_limit = 256,
      max_num_bootinfo_untypeds = 230, hypervisor = False, benchmark = False, num_cores = 1,
      fpu = True, arm_pa_size_bits = None, arm_smc = None, riscv_pt_levels = Some Sv39,
      object_sizes = Some \<lparr>os_tcb = 10, os_endpoint = 4, os_notification = 6, os_reply = 5,
         os_vspace = 12, os_page_table = 12, os_huge_page = 30, os_large_page = 21,
         os_small_page = 12, os_asid_pool = 12, os_vcpu = None\<rparr>,
      device_regions = Some [], normal_regions = Some []\<rparr>"

theorem pd_stack_layout_witness:
  "\<exists>buf bottom. pd_ipc_buffer example_riscv_config = (Inr buf :: (string, u64) res)
     \<and> pd_map_max_vaddr example_riscv_config 0x2000 = (Inr bottom :: (string, u64) res)
     \<and> unat bottom + unat (0x2000 :: u64) + 0x1000 = unat buf
     \<and> buf AND 0xFFF = 0 \<and> unat buf + 0xFFF = unat (0x3fffffefff :: u64)"
  using pd_stack_layout [of example_riscv_config "0x3fffffefff" "0x2000", where ?'e = string]
  by (simp add: user_vspace_top_def example_riscv_config_def)

end
