(* ===== verification/Elf.thy ===== *)
theory Elf
  imports Sel4_Config
begin

unbundle bit_operations_syntax

text \<open>
  The in-memory ELF file of \<open>tool/microkit/src/elf.rs\<close> and its reader: segments, program headers,
  the symbol table, the parsing of an ELF image, reading and patching of symbols, and the addition
  of segments.  The file contents read from disk are a parameter.  The symbol hash map is a map
  from names (byte strings) to a symbol and a flag that records a duplicate name.  Writing an ELF
  image is in \<open>Elf_Write\<close>.
\<close>

section \<open>Data\<close>

datatype elf_error =
    ElfReadFailed string
  | MagicCheckFailed
  | InvalidClass u8
  | UnsupportedWordSize nat
  | IncorrectEndianness
  | NoProgramHeaders
  | NoSymbolTable
  | MultipleSymbols string
  | NoSymbol string
  | SymbolNotInSegments string
  | StrtabNotUtf8
  | StrtabNoNull nat
  | CannotCreate string

record elf_symbol64 =
  st_name :: u32
  st_info :: u8
  st_other :: u8
  st_shndx :: u16
  st_value :: u64
  st_size :: u64

record elf_section_header64 =
  sh_name :: u32
  sh_type :: u32
  sh_flags :: u64
  sh_addr :: u64
  sh_offset :: u64
  sh_size :: u64
  sh_link :: u32
  sh_info :: u32
  sh_addralign :: u64
  sh_entsize :: u64

record elf_program_header64 =
  ph_type :: u32
  ph_flags :: u32
  ph_offset :: u64
  ph_vaddr :: u64
  ph_paddr :: u64
  ph_filesz :: u64
  ph_memsz :: u64
  ph_align :: u64

record elf_header64 =
  ident_magic :: u32
  ident_class :: u8
  ident_data :: u8
  ident_version :: u8
  ident_osabi :: u8
  ident_abiversion :: u8
  eh_padding :: "u8 list"
  eh_type :: u16
  eh_machine :: u16
  eh_version :: u32
  eh_entry :: u64
  eh_phoff :: u64
  eh_shoff :: u64
  eh_flags :: u32
  eh_ehsize :: u16
  eh_phentsize :: u16
  eh_phnum :: u16
  eh_shentsize :: u16
  eh_shnum :: u16
  eh_shstrndx :: u16

definition PHENT_TYPE_LOADABLE :: u32 where "PHENT_TYPE_LOADABLE = 1"
definition PHENT_TYPE_PHDR :: u32 where "PHENT_TYPE_PHDR = 6"
definition PF_X :: u32 where "PF_X = 1"
definition PF_W :: u32 where "PF_W = 2"
definition PF_R :: u32 where "PF_R = 4"
definition SHT_PROGBITS :: u32 where "SHT_PROGBITS = 1"
definition SHT_STRTAB :: u32 where "SHT_STRTAB = 3"
definition SHF_WRITE :: u64 where "SHF_WRITE = 1"
definition SHF_ALLOC :: u64 where "SHF_ALLOC = 2"
definition SHF_EXECINSTR :: u64 where "SHF_EXECINSTR = 3"

datatype elf_segment_data = RealData "u8 list" | UninitialisedData u64

record elf_segment =
  seg_data :: elf_segment_data
  phys_addr :: u64
  virt_addr :: u64
  loadable :: bool
  attrs :: u32

record program_header =
  segment_idx :: nat
  phdr_type :: u32

record elf_file =
  elf_path :: string
  elf_word_size :: nat
  elf_entry :: u64
  elf_machine :: u16
  segments :: "elf_segment list"
  program_headers :: "program_header list"
  symbols :: "string \<Rightarrow> (elf_symbol64 \<times> bool) option"

section \<open>Segments\<close>

definition mem_size :: "elf_segment \<Rightarrow> u64" where
  "mem_size seg = (case seg_data seg of
      RealData bytes \<Rightarrow> of_nat (length bytes) | UninitialisedData sz \<Rightarrow> sz)"

definition file_size :: "elf_segment \<Rightarrow> u64" where
  "file_size seg = (case seg_data seg of
      RealData bytes \<Rightarrow> of_nat (length bytes) | UninitialisedData _ \<Rightarrow> 0)"

definition segment_data :: "elf_segment \<Rightarrow> ('e, u8 list) res" where
  "segment_data seg = (case seg_data seg of
      RealData bytes \<Rightarrow> Inr bytes | UninitialisedData _ \<Rightarrow> Inl (Panic UnreachableReached))"

definition is_uninitialised :: "elf_segment \<Rightarrow> bool" where
  "is_uninitialised seg = (case seg_data seg of RealData _ \<Rightarrow> False | UninitialisedData _ \<Rightarrow> True)"

definition is_writable :: "elf_segment \<Rightarrow> bool" where
  "is_writable seg \<longleftrightarrow> attrs seg AND PF_W = PF_W"

definition is_readable :: "elf_segment \<Rightarrow> bool" where
  "is_readable seg \<longleftrightarrow> attrs seg AND PF_R = PF_R"

definition is_executable :: "elf_segment \<Rightarrow> bool" where
  "is_executable seg \<longleftrightarrow> attrs seg AND PF_X = PF_X"

definition section_flags :: "elf_segment \<Rightarrow> u64" where
  "section_flags seg =
     (let flags = SHF_ALLOC;
          flags = (if is_writable seg then flags OR SHF_WRITE else flags)
      in if is_executable seg then flags OR SHF_EXECINSTR else flags)"

section \<open>Reading the fixed-size structures\<close>

definition u16_at :: "nat \<Rightarrow> u8 list \<Rightarrow> u16" where
  "u16_at off bs = of_le_bytes (take 2 (drop off bs))"

definition u32_at :: "nat \<Rightarrow> u8 list \<Rightarrow> u32" where
  "u32_at off bs = of_le_bytes (take 4 (drop off bs))"

definition u64_at :: "nat \<Rightarrow> u8 list \<Rightarrow> u64" where
  "u64_at off bs = of_le_bytes (take 8 (drop off bs))"

text \<open>\<open>bytes_to_struct\<close> asserts that the slice has exactly the size of the structure; all four
  structures are packed, so alignment never matters.\<close>

definition bytes_to_header :: "u8 list \<Rightarrow> ('e, elf_header64) res" where
  "bytes_to_header bs = bindr (assertr (length bs = 64)) (\<lambda>_. Inr
     \<lparr>ident_magic = u32_at 0 bs, ident_class = bs ! 4, ident_data = bs ! 5, ident_version = bs ! 6,
      ident_osabi = bs ! 7, ident_abiversion = bs ! 8, eh_padding = take 7 (drop 9 bs),
      eh_type = u16_at 16 bs, eh_machine = u16_at 18 bs, eh_version = u32_at 20 bs,
      eh_entry = u64_at 24 bs, eh_phoff = u64_at 32 bs, eh_shoff = u64_at 40 bs,
      eh_flags = u32_at 48 bs, eh_ehsize = u16_at 52 bs, eh_phentsize = u16_at 54 bs,
      eh_phnum = u16_at 56 bs, eh_shentsize = u16_at 58 bs, eh_shnum = u16_at 60 bs,
      eh_shstrndx = u16_at 62 bs\<rparr>)"

definition bytes_to_phdr :: "u8 list \<Rightarrow> ('e, elf_program_header64) res" where
  "bytes_to_phdr bs = bindr (assertr (length bs = 56)) (\<lambda>_. Inr
     \<lparr>ph_type = u32_at 0 bs, ph_flags = u32_at 4 bs, ph_offset = u64_at 8 bs,
      ph_vaddr = u64_at 16 bs, ph_paddr = u64_at 24 bs, ph_filesz = u64_at 32 bs,
      ph_memsz = u64_at 40 bs, ph_align = u64_at 48 bs\<rparr>)"

definition bytes_to_shdr :: "u8 list \<Rightarrow> ('e, elf_section_header64) res" where
  "bytes_to_shdr bs = bindr (assertr (length bs = 64)) (\<lambda>_. Inr
     \<lparr>sh_name = u32_at 0 bs, sh_type = u32_at 4 bs, sh_flags = u64_at 8 bs, sh_addr = u64_at 16 bs,
      sh_offset = u64_at 24 bs, sh_size = u64_at 32 bs, sh_link = u32_at 40 bs,
      sh_info = u32_at 44 bs, sh_addralign = u64_at 48 bs, sh_entsize = u64_at 56 bs\<rparr>)"

definition bytes_to_symbol :: "u8 list \<Rightarrow> ('e, elf_symbol64) res" where
  "bytes_to_symbol bs = bindr (assertr (length bs = 24)) (\<lambda>_. Inr
     \<lparr>st_name = u32_at 0 bs, st_info = bs ! 4, st_other = bs ! 5, st_shndx = u16_at 6 bs,
      st_value = u64_at 8 bs, st_size = u64_at 16 bs\<rparr>)"

section \<open>The reader\<close>

record elf_file_reader =
  rd_bytes :: "u8 list"
  rd_word_size :: nat
  rd_hdr :: elf_header64

definition ELF_MAGIC :: "u8 list" where
  "ELF_MAGIC = [0x7F, 0x45, 0x4C, 0x46]"

text \<open>\<open>ElfFileReader::from_path\<close>; \<open>contents\<close> is what reading the path returned.\<close>

definition reader_from_path :: "string + u8 list \<Rightarrow> (elf_error, elf_file_reader) res" where
  "reader_from_path contents =
     (case contents of
        Inl err \<Rightarrow> Inl (Err (ElfReadFailed err))
      | Inr bytes \<Rightarrow>
          bindr (slice_at bytes 0 4) (\<lambda>magic.
          if magic \<noteq> ELF_MAGIC then Inl (Err MagicCheckFailed)
          else bindr (slice_at bytes 4 5) (\<lambda>cls.
          let class_byte = hd cls in
          bindr (if class_byte = 1 then Inr (52, 32)
                 else if class_byte = 2 then Inr (64, 64)
                 else Inl (Err (InvalidClass class_byte))) (\<lambda>(hdr_size, word_size).
          if word_size \<noteq> (64 :: nat) then Inl (Err (UnsupportedWordSize word_size))
          else bindr (slice_at bytes 0 hdr_size) (\<lambda>hdr_bytes.
          bindr (bytes_to_header hdr_bytes) (\<lambda>hdr.
          bindr (assertr (le_bytes 4 (ident_magic hdr) = magic)) (\<lambda>_.
          bindr (assertr (ident_class hdr = class_byte)) (\<lambda>_.
          if ident_data hdr \<noteq> 1 then Inl (Err IncorrectEndianness)
          else Inr \<lparr>rd_bytes = bytes, rd_word_size = word_size, rd_hdr = hdr\<rparr>))))))))"

text \<open>One iteration of the loop over the program headers: the entry's bytes, and the segment made
  of a loadable entry.\<close>

definition read_phent :: "elf_file_reader \<Rightarrow> u16 \<Rightarrow> ('e, elf_program_header64) res" where
  "read_phent rd i =
     (let hdr = rd_hdr rd;
          phent_start = eh_phoff hdr + ucast (i * eh_phentsize hdr);
          phent_end = phent_start + ucast (eh_phentsize hdr)
      in bindr (slice_at (rd_bytes rd) (unat phent_start) (unat phent_end)) bytes_to_phdr)"

definition read_segment_bytes :: "u8 list \<Rightarrow> elf_program_header64 \<Rightarrow> ('e, u8 list) res" where
  "read_segment_bytes bytes phent =
     (let segment_start = ph_offset phent;
          segment_end = ph_offset phent + ph_filesz phent;
          segment_data_bytes = replicate (unat (ph_memsz phent)) 0
      in bindr (slice_at segment_data_bytes 0 (unat (ph_filesz phent))) (\<lambda>dst.
         bindr (slice_at bytes (unat segment_start) (unat segment_end)) (\<lambda>src.
         if length src \<noteq> length dst then Inl (Panic AssertFailed)
         else write_at segment_data_bytes 0 src)))"

definition reader_segments :: "elf_file_reader \<Rightarrow> (elf_error, elf_segment list) res" where
  "reader_segments rd =
     (let hdr = rd_hdr rd
      in if eh_phnum hdr = 0 then Inl (Err NoProgramHeaders)
         else foldM (\<lambda>segs i.
                bindr (read_phent rd (of_nat i)) (\<lambda>phent.
                if ph_type phent \<noteq> PHENT_TYPE_LOADABLE then Inr segs
                else bindr (read_segment_bytes (rd_bytes rd) phent) (\<lambda>data_bytes.
                  Inr (segs @ [\<lparr>seg_data = RealData data_bytes, phys_addr = ph_paddr phent,
                                virt_addr = ph_vaddr phent,
                                loadable = (ph_type phent = PHENT_TYPE_LOADABLE),
                                attrs = ph_flags phent\<rparr>]))))
              [] [0..<unat (eh_phnum hdr)])"

text \<open>\<open>std::str::from_utf8\<close>: the well-formed byte sequences of UTF-8.\<close>

fun is_utf8 :: "u8 list \<Rightarrow> bool" where
  "is_utf8 [] = True"
| "is_utf8 (b # bs) =
     (if b < 0x80 then is_utf8 bs
      else if 0xC2 \<le> b \<and> b \<le> 0xDF
      then (case bs of c # cs \<Rightarrow> 0x80 \<le> c \<and> c \<le> 0xBF \<and> is_utf8 cs | _ \<Rightarrow> False)
      else if 0xE0 \<le> b \<and> b \<le> 0xEF
      then (case bs of
              c # d # ds \<Rightarrow>
                (if b = 0xE0 then 0xA0 \<le> c \<and> c \<le> 0xBF
                 else if b = 0xED then 0x80 \<le> c \<and> c \<le> 0x9F
                 else 0x80 \<le> c \<and> c \<le> 0xBF)
                \<and> 0x80 \<le> d \<and> d \<le> 0xBF \<and> is_utf8 ds
            | _ \<Rightarrow> False)
      else if 0xF0 \<le> b \<and> b \<le> 0xF4
      then (case bs of
              c # d # e # es \<Rightarrow>
                (if b = 0xF0 then 0x90 \<le> c \<and> c \<le> 0xBF
                 else if b = 0xF4 then 0x80 \<le> c \<and> c \<le> 0x8F
                 else 0x80 \<le> c \<and> c \<le> 0xBF)
                \<and> 0x80 \<le> d \<and> d \<le> 0xBF \<and> 0x80 \<le> e \<and> e \<le> 0xBF \<and> is_utf8 es
            | _ \<Rightarrow> False)
      else False)"

definition bytes_string :: "u8 list \<Rightarrow> string" where
  "bytes_string bs = map (\<lambda>b. char_of (unat b)) bs"

definition elf_get_string :: "u8 list \<Rightarrow> nat \<Rightarrow> (elf_error, string) res" where
  "elf_get_string strtab idx =
     bindr (slice_at strtab idx (length strtab)) (\<lambda>tail.
       let null_byte_pos = length (takeWhile (\<lambda>b. b \<noteq> 0) tail)
       in if null_byte_pos < length tail
          then bindr (slice_at strtab idx (idx + null_byte_pos)) (\<lambda>bytes.
                 if is_utf8 bytes then Inr (bytes_string bytes) else Inl (Err StrtabNotUtf8))
          else Inl (Err (StrtabNoNull idx)))"

definition read_shent :: "elf_file_reader \<Rightarrow> u64 \<Rightarrow> ('e, elf_section_header64) res" where
  "read_shent rd i =
     (let hdr = rd_hdr rd;
          shent_start = eh_shoff hdr + i * ucast (eh_shentsize hdr);
          shent_end = shent_start + ucast (eh_shentsize hdr)
      in bindr (slice_at (rd_bytes rd) (unat shent_start) (unat shent_end)) bytes_to_shdr)"

text \<open>The loop over the symbol table; its argument is the part of the table not yet read.\<close>

function read_symbols :: "u8 list \<Rightarrow> u8 list \<Rightarrow> (string \<Rightarrow> (elf_symbol64 \<times> bool) option)
    \<Rightarrow> (elf_error, string \<Rightarrow> (elf_symbol64 \<times> bool) option) res" where
  "read_symbols symtab_str symtab syms =
     (if symtab = [] then Inr syms
      else bindr (slice_at symtab 0 24) (\<lambda>sym_bytes.
           bindr (bytes_to_symbol sym_bytes) (\<lambda>sym.
           bindr (elf_get_string symtab_str (unat (st_name sym))) (\<lambda>name.
             read_symbols symtab_str (drop 24 symtab)
               (case syms name of
                  Some (s, dup) \<Rightarrow> syms(name \<mapsto> (s, True))
                | None \<Rightarrow> syms(name \<mapsto> (sym, False)))))))"
  by auto

termination
  by (relation "measure (\<lambda>(_, symtab, _). length symtab)") auto

declare read_symbols.simps [simp del]

definition symtab_section :: "elf_section_header64 list \<Rightarrow> elf_section_header64 option" where
  "symtab_section shents = (case filter (\<lambda>s. sh_type s = 2) shents of [] \<Rightarrow> None | ss \<Rightarrow> Some (last ss))"

definition section_bytes :: "u8 list \<Rightarrow> elf_section_header64 \<Rightarrow> ('e, u8 list) res" where
  "section_bytes bytes sh =
     slice_at bytes (unat (sh_offset sh)) (unat (sh_offset sh + sh_size sh))"

definition reader_symbols ::
    "elf_file_reader \<Rightarrow> (elf_error, string \<Rightarrow> (elf_symbol64 \<times> bool) option) res" where
  "reader_symbols rd =
     bindr (mapM (\<lambda>i. read_shent rd (of_nat i)) [0..<unat (eh_shnum (rd_hdr rd))]) (\<lambda>shents.
     bindr (ok_or (symtab_section shents) NoSymbolTable) (\<lambda>symtab_shent.
     bindr (section_bytes (rd_bytes rd) symtab_shent) (\<lambda>symtab.
     bindr (nthr shents (unat (sh_link symtab_shent))) (\<lambda>symtab_str_shent.
     bindr (section_bytes (rd_bytes rd) symtab_str_shent) (\<lambda>symtab_str.
       read_symbols symtab_str symtab Map.empty)))))"

text \<open>\<open>ElfFile::from_split_paths\<close>: segments from one image, symbols from another when given.\<close>

definition elf_from_split_paths ::
    "string \<Rightarrow> string + u8 list \<Rightarrow> (string + u8 list) option \<Rightarrow> (elf_error, elf_file) res" where
  "elf_from_split_paths path contents contents_for_symbols =
     bindr (reader_from_path contents) (\<lambda>reader.
     bindr (reader_segments reader) (\<lambda>segs.
     bindr (case contents_for_symbols of
              Some c \<Rightarrow> bindr (reader_from_path c) reader_symbols
            | None \<Rightarrow> reader_symbols reader) (\<lambda>syms.
     Inr \<lparr>elf_path = path, elf_word_size = rd_word_size reader, elf_entry = eh_entry (rd_hdr reader),
          elf_machine = eh_machine (rd_hdr reader), segments = segs,
          program_headers =
            map (\<lambda>i. \<lparr>segment_idx = i, phdr_type = PHENT_TYPE_LOADABLE\<rparr>) [0..<length segs],
          symbols = syms\<rparr>)))"

definition elf_from_path :: "string \<Rightarrow> string + u8 list \<Rightarrow> (elf_error, elf_file) res" where
  "elf_from_path path contents = elf_from_split_paths path contents None"

definition elf_new :: "string \<Rightarrow> nat \<Rightarrow> u64 \<Rightarrow> u16 \<Rightarrow> elf_file" where
  "elf_new path word_sz entry machine =
     \<lparr>elf_path = path, elf_word_size = word_sz, elf_entry = entry, elf_machine = machine,
      segments = [], program_headers = [], symbols = Map.empty\<rparr>"

section \<open>Symbols and data\<close>

definition find_symbol :: "elf_file \<Rightarrow> string \<Rightarrow> (elf_error, u64 \<times> u64) res" where
  "find_symbol elf name = (case symbols elf name of
      Some (s, duplicate) \<Rightarrow>
        if duplicate then Inl (Err (MultipleSymbols name)) else Inr (st_value s, st_size s)
    | None \<Rightarrow> Inl (Err (NoSymbol name)))"

definition seg_holds :: "u64 \<Rightarrow> u64 \<Rightarrow> elf_segment \<Rightarrow> bool" where
  "seg_holds vaddr sz seg \<longleftrightarrow> vaddr \<ge> virt_addr seg \<and> vaddr + sz \<le> virt_addr seg + mem_size seg"

fun write_in_segments :: "string \<Rightarrow> u64 \<Rightarrow> u64 \<Rightarrow> u8 list \<Rightarrow> elf_segment list
    \<Rightarrow> (elf_error, elf_segment list) res" where
  "write_in_segments name vaddr sz bytes [] = Inl (Err (SymbolNotInSegments name))"
| "write_in_segments name vaddr sz bytes (seg # segs) =
     (if seg_holds vaddr sz seg
      then bindr (assertr ((of_nat (length bytes) :: u64) \<le> sz)) (\<lambda>_.
           bindr (segment_data seg) (\<lambda>old.
           bindr (write_at old (unat (vaddr - virt_addr seg)) bytes) (\<lambda>new.
             Inr (seg\<lparr>seg_data := RealData new\<rparr> # segs))))
      else bindr (write_in_segments name vaddr sz bytes segs) (\<lambda>segs'. Inr (seg # segs')))"

definition write_symbol :: "string \<Rightarrow> u8 list \<Rightarrow> elf_file \<Rightarrow> (elf_error, elf_file) res" where
  "write_symbol name bytes elf =
     bindr (find_symbol elf name) (\<lambda>(vaddr, sz).
     bindr (write_in_segments name vaddr sz bytes (segments elf)) (\<lambda>segs.
       Inr (elf\<lparr>segments := segs\<rparr>)))"

fun get_data_in :: "u64 \<Rightarrow> u64 \<Rightarrow> elf_segment list \<Rightarrow> ('e, u8 list option) res" where
  "get_data_in vaddr sz [] = Inr None"
| "get_data_in vaddr sz (seg # segs) =
     (if seg_holds vaddr sz seg
      then bindr (segment_data seg) (\<lambda>bytes.
           let off = unat (vaddr - virt_addr seg)
           in bindr (slice_at bytes off (off + unat sz)) (\<lambda>d. Inr (Some d)))
      else get_data_in vaddr sz segs)"

definition get_data :: "elf_file \<Rightarrow> u64 \<Rightarrow> u64 \<Rightarrow> ('e, u8 list option) res" where
  "get_data elf vaddr sz = get_data_in vaddr sz (segments elf)"

section \<open>Segments of a file\<close>

definition loadable_segments :: "elf_file \<Rightarrow> elf_segment list" where
  "loadable_segments elf = filter loadable (segments elf)"

definition lowest_vaddr :: "elf_file \<Rightarrow> ('e, u64) res" where
  "lowest_vaddr elf = (case map virt_addr (loadable_segments elf) of
      [] \<Rightarrow> Inl (Panic UnwrapFailed) | v # vs \<Rightarrow> Inr (fold min vs v))"

definition highest_vaddr :: "elf_file \<Rightarrow> ('e, u64) res" where
  "highest_vaddr elf = (case map (\<lambda>s. virt_addr s + mem_size s) (loadable_segments elf) of
      [] \<Rightarrow> Inl (Panic UnwrapFailed) | v # vs \<Rightarrow> Inr (fold max vs v))"

definition next_vaddr :: "elf_file \<Rightarrow> page_size \<Rightarrow> ('e, u64) res" where
  "next_vaddr elf pg =
     bindr (highest_vaddr elf) (\<lambda>h. round_down (h + page_size_u64 pg) (page_size_u64 pg))"

definition add_segment ::
    "bool \<Rightarrow> bool \<Rightarrow> bool \<Rightarrow> u64 \<Rightarrow> elf_segment_data \<Rightarrow> u32 option \<Rightarrow> elf_file \<Rightarrow> elf_file" where
  "add_segment rd wr ex vaddr segdata meta_phdr_type_maybe elf =
     (let r = (if rd then PF_R else 0);
          w = (if wr then PF_W else 0);
          x = (if ex then PF_X else 0);
          seg = \<lparr>seg_data = segdata, phys_addr = vaddr, virt_addr = vaddr, loadable = True,
                 attrs = r OR w OR x\<rparr>;
          segs = segments elf @ [seg];
          phdrs = program_headers elf
                    @ [\<lparr>segment_idx = length segs - 1, phdr_type = PHENT_TYPE_LOADABLE\<rparr>]
      in elf\<lparr>segments := segs,
             program_headers := (case meta_phdr_type_maybe of
                None \<Rightarrow> phdrs
              | Some t \<Rightarrow> phdrs @ [\<lparr>segment_idx = length segs - 1, phdr_type = t\<rparr>])\<rparr>)"

section \<open>Patching a symbol\<close>

lemma mem_size_write: "write_at old off bytes = Inr new \<Longrightarrow> length new = length old"
  by (rule write_at_length)

lemma write_in_segments_shape:
  "write_in_segments name vaddr sz bytes segs = Inr segs' \<Longrightarrow>
     \<exists>pre seg post old new. segs = pre @ seg # post
       \<and> segs' = pre @ seg\<lparr>seg_data := RealData new\<rparr> # post
       \<and> (\<forall>s \<in> set pre. \<not> seg_holds vaddr sz s) \<and> seg_holds vaddr sz seg
       \<and> (of_nat (length bytes) :: u64) \<le> sz
       \<and> seg_data seg = RealData old
       \<and> write_at old (unat (vaddr - virt_addr seg)) bytes = (Inr new :: (elf_error, u8 list) res)"
proof (induction segs arbitrary: segs')
  case (Cons s segs)
  show ?case
  proof (cases "seg_holds vaddr sz s")
    case True
    with Cons.prems obtain old new where "seg_data s = RealData old"
      "write_at old (unat (vaddr - virt_addr s)) bytes = (Inr new :: (elf_error, u8 list) res)"
      "segs' = s\<lparr>seg_data := RealData new\<rparr> # segs" "(of_nat (length bytes) :: u64) \<le> sz"
      by (auto simp: bindr_eq_Inr assertr_eq_Inr segment_data_def split: elf_segment_data.splits)
    with True show ?thesis
      by (intro exI [of _ "[]"] exI [of _ s] exI [of _ segs] exI [of _ old] exI [of _ new]) simp
  next
    case False
    with Cons.prems obtain rest where rest: "write_in_segments name vaddr sz bytes segs = Inr rest"
      "segs' = s # rest" by (auto simp: bindr_eq_Inr)
    from Cons.IH [OF rest(1)] obtain pre seg post old new where
      "segs = pre @ seg # post" "rest = pre @ seg\<lparr>seg_data := RealData new\<rparr> # post"
      "\<forall>s \<in> set pre. \<not> seg_holds vaddr sz s" "seg_holds vaddr sz seg"
      "(of_nat (length bytes) :: u64) \<le> sz" "seg_data seg = RealData old"
      "write_at old (unat (vaddr - virt_addr seg)) bytes = (Inr new :: (elf_error, u8 list) res)"
      by blast
    with False rest(2) show ?thesis
      by (intro exI [of _ "s # pre"] exI [of _ seg] exI [of _ post] exI [of _ old] exI [of _ new]) simp
  qed
qed simp

lemma seg_holds_rewrite:
  assumes "seg_data seg = RealData old" "length new = length old"
  shows "seg_holds v s (seg\<lparr>seg_data := RealData new\<rparr>) \<longleftrightarrow> seg_holds v s seg"
  using assms by (simp add: seg_holds_def mem_size_def)

lemma get_data_in_append:
  "\<forall>s \<in> set pre. \<not> seg_holds v n s \<Longrightarrow> get_data_in v n (pre @ segs) = get_data_in v n segs"
  by (induction pre) auto

lemma write_in_segments_get:
  assumes "write_in_segments name vaddr sz bytes segs = Inr segs'" "length bytes = unat sz"
  shows "get_data_in vaddr sz segs' = (Inr (Some bytes) :: (elf_error, u8 list option) res)"
proof -
  from write_in_segments_shape [OF assms(1)] obtain pre seg post old new where
    w: "segs' = pre @ seg\<lparr>seg_data := RealData new\<rparr> # post"
      "\<forall>s \<in> set pre. \<not> seg_holds vaddr sz s" "seg_holds vaddr sz seg" "seg_data seg = RealData old"
      "write_at old (unat (vaddr - virt_addr seg)) bytes = (Inr new :: (elf_error, u8 list) res)"
    by blast
  have "seg_holds vaddr sz (seg\<lparr>seg_data := RealData new\<rparr>)"
    using seg_holds_rewrite [OF w(4) mem_size_write [OF w(5)]] w(3) by simp
  then show ?thesis
    by (simp add: w(1) get_data_in_append [OF w(2)] segment_data_def Let_def
        slice_write_same [OF w(5)] assms(2) [symmetric])
qed

lemma write_in_segments_frame:
  assumes "write_in_segments name vaddr sz bytes segs = Inr segs'"
    and disj: "unat v + unat n \<le> unat vaddr \<or> unat vaddr + length bytes \<le> unat v"
  shows "get_data_in v n segs' = (get_data_in v n segs :: (elf_error, u8 list option) res)"
proof -
  from write_in_segments_shape [OF assms(1)] obtain pre seg post old new where
    w: "segs = pre @ seg # post" "segs' = pre @ seg\<lparr>seg_data := RealData new\<rparr> # post"
      "seg_holds vaddr sz seg" "seg_data seg = RealData old"
      "write_at old (unat (vaddr - virt_addr seg)) bytes = (Inr new :: (elf_error, u8 list) res)"
    by blast
  note same = seg_holds_rewrite [OF w(4) mem_size_write [OF w(5)]]
  have "get_data_in v n (seg\<lparr>seg_data := RealData new\<rparr> # post)
      = (get_data_in v n (seg # post) :: (elf_error, u8 list option) res)"
  proof (cases "seg_holds v n seg")
    case True
    have off: "unat (a - virt_addr seg) = unat a - unat (virt_addr seg)" "virt_addr seg \<le> a"
      if "seg_holds a m seg" for a m
      using that by (auto simp: seg_holds_def intro: unat_sub)
    let ?o = "unat (v - virt_addr seg)"
    have "?o + unat n \<le> unat (vaddr - virt_addr seg) \<or> unat (vaddr - virt_addr seg) + length bytes \<le> ?o"
      using disj off [OF True] off [OF w(3)] by (auto simp: word_le_nat_alt)
    note slice = slice_write_disjoint [OF w(5) this]
    show ?thesis using True same by (simp add: segment_data_def w(4) Let_def slice)
  next
    case False
    then show ?thesis using same by simp
  qed
  then show ?thesis unfolding w(1,2) by (induction pre) auto
qed

lemma write_symbol_symbols: "write_symbol name bytes elf = Inr elf' \<Longrightarrow> symbols elf' = symbols elf"
  by (auto simp: write_symbol_def res_simps)

lemma write_symbol_get:
  assumes "write_symbol name bytes elf = Inr elf'" "find_symbol elf name = Inr (v, s)"
    "length bytes = unat s"
  shows "get_data elf' v s = (Inr (Some bytes) :: (elf_error, u8 list option) res)"
  using assms write_in_segments_get by (fastforce simp: write_symbol_def get_data_def bindr_eq_Inr)

lemma write_symbol_frame:
  assumes "write_symbol name bytes elf = Inr elf'" "find_symbol elf name = Inr (v, s)"
    "unat w + unat n \<le> unat v \<or> unat v + length bytes \<le> unat w"
  shows "get_data elf' w n = (get_data elf w n :: (elf_error, u8 list option) res)"
  using assms write_in_segments_frame by (fastforce simp: write_symbol_def get_data_def bindr_eq_Inr)

text \<open>C29: after a symbol was patched with exactly as many bytes as it occupies, reading the symbol's
  range returns those bytes; every range that does not touch the patched bytes reads as before, and
  the symbol table is unchanged.\<close>

theorem write_symbol_roundtrip:
  assumes "write_symbol name bytes elf = Inr elf'" "find_symbol elf name = Inr (v, s)"
    "length bytes = unat s"
  shows "get_data elf' v s = (Inr (Some bytes) :: (elf_error, u8 list option) res)
    \<and> find_symbol elf' = find_symbol elf
    \<and> (\<forall>w n. unat w + unat n \<le> unat v \<or> unat v + unat s \<le> unat w
         \<longrightarrow> get_data elf' w n = (get_data elf w n :: (elf_error, u8 list option) res))"
  using write_symbol_get [OF assms] write_symbol_frame [OF assms(1,2)] assms(3)
    write_symbol_symbols [OF assms(1)]
  by (auto simp: find_symbol_def fun_eq_iff)

text \<open>A small file for the witnesses: one segment of eight bytes at 0x1000 and the symbol \<open>x\<close>
  in its bytes 2 and 3.\<close>

definition example_elf :: elf_file where
  "example_elf = \<lparr>elf_path = ''a.elf'', elf_word_size = 64, elf_entry = 0x1000, elf_machine = 243,
     segments = [\<lparr>seg_data = RealData [1, 2, 3, 4, 5, 6, 7, 8], phys_addr = 0x1000, virt_addr = 0x1000,
                   loadable = True, attrs = 5\<rparr>],
     program_headers = [\<lparr>segment_idx = 0, phdr_type = 1\<rparr>],
     symbols = [''x'' \<mapsto> (\<lparr>st_name = 0, st_info = 0, st_other = 0, st_shndx = 0,
                             st_value = 0x1002, st_size = 2\<rparr>, False)]\<rparr>"

definition example_elf_patched :: elf_file where
  "example_elf_patched = example_elf\<lparr>segments :=
     [\<lparr>seg_data = RealData [1, 2, 9, 9, 5, 6, 7, 8], phys_addr = 0x1000, virt_addr = 0x1000,
        loadable = True, attrs = 5\<rparr>]\<rparr>"

lemma example_elf_write: "write_symbol ''x'' [9, 9] example_elf = Inr example_elf_patched"
  by (simp add: write_symbol_def find_symbol_def example_elf_def example_elf_patched_def seg_holds_def
      mem_size_def segment_data_def write_at_def)

theorem write_symbol_roundtrip_witness:
  "get_data example_elf_patched 0x1002 2 = (Inr (Some [9, 9]) :: (elf_error, u8 list option) res)"
  using write_symbol_roundtrip [OF example_elf_write, of "0x1002" 2]
  by (simp add: find_symbol_def example_elf_def)

section \<open>Adding segments\<close>

definition elf_wf :: "elf_file \<Rightarrow> bool" where
  "elf_wf elf \<longleftrightarrow> (\<forall>ph \<in> set (program_headers elf). segment_idx ph < length (segments elf))"

lemma elf_wf_new: "elf_wf (elf_new path word_sz entry machine)"
  by (simp add: elf_wf_def elf_new_def)

lemma elf_wf_add_segment: "elf_wf elf \<Longrightarrow> elf_wf (add_segment rd wr ex vaddr d t elf)"
  by (auto simp: elf_wf_def add_segment_def Let_def split: option.splits)

lemma elf_wf_from_split_paths: "elf_from_split_paths path c cs = Inr elf \<Longrightarrow> elf_wf elf"
  by (auto simp: elf_from_split_paths_def elf_wf_def bindr_eq_Inr)

lemma fold_max_ge: "(x :: 'a::linorder) \<in> set (v # vs) \<Longrightarrow> x \<le> fold max vs v"
  by (metis Max.set_eq_fold Max_ge List.finite_set)

lemma highest_vaddr_ge:
  "highest_vaddr elf = Inr h \<Longrightarrow> seg \<in> set (loadable_segments elf) \<Longrightarrow> virt_addr seg + mem_size seg \<le> h"
proof -
  assume a: "highest_vaddr elf = Inr h" "seg \<in> set (loadable_segments elf)"
  let ?vs = "map (\<lambda>s. virt_addr s + mem_size s) (loadable_segments elf)"
  from a(2) have m: "virt_addr seg + mem_size seg \<in> set ?vs" by auto
  then obtain v vs where v: "?vs = v # vs" by (cases ?vs) auto
  with a(1) have "h = fold max vs v" by (simp add: highest_vaddr_def)
  with m v show ?thesis by (simp only: fold_max_ge)
qed

text \<open>The address chosen for a new segment is page aligned and lies strictly above the end of
  every loadable segment already in the file, when the highest end is not in the last page of the
  address space.\<close>

theorem next_vaddr_above:
  assumes "highest_vaddr elf = (Inr h :: ('e, u64) res)" "unat h + unat (page_size_u64 pg) < 2 ^ 64"
  shows "\<exists>v. next_vaddr elf pg = (Inr v :: ('e, u64) res) \<and> unat (page_size_u64 pg) dvd unat v
           \<and> (\<forall>seg \<in> set (loadable_segments elf). virt_addr seg + mem_size seg < v)"
proof -
  let ?p = "page_size_u64 pg"
  have p: "0 < unat ?p" by (cases pg) simp_all
  have u: "unat (h + ?p) = unat h + unat ?p" using assms(2) by (simp only: unat_add_no_overflow len64_eq)
  from round_down_nonzero [OF page_size_u64_pos, of "h + ?p" pg, where ?'a = 'e] obtain v where
    v: "round_down (h + ?p) ?p = (Inr v :: ('e, u64) res)"
      "unat v = unat (h + ?p) - unat (h + ?p) mod unat ?p" by blast
  have "unat ?p dvd unat v" unfolding v(2) by (rule dvd_minus_mod)
  moreover have "unat h < unat v"
    using v(2) u mod_less_divisor [OF p, of "unat (h + ?p)"] by linarith
  then have "h < v" by (simp add: word_less_nat_alt)
  ultimately show ?thesis
    using v(1) highest_vaddr_ge [OF assms(1)] assms(1)
    by (auto simp: next_vaddr_def intro: le_less_trans)
qed

theorem next_vaddr_above_witness:
  "\<exists>v. next_vaddr example_elf SmallPg = (Inr v :: (string, u64) res)
     \<and> unat (page_size_u64 SmallPg) dvd unat v
     \<and> (\<forall>seg \<in> set (loadable_segments example_elf). virt_addr seg + mem_size seg < v)"
  by (rule next_vaddr_above [where h = "0x1008"])
    (simp_all add: highest_vaddr_def loadable_segments_def example_elf_def mem_size_def)

end
