(* ===== verification/Byte_Table.thy ===== *)
theory Byte_Table
  imports Rust_Std
begin

text \<open>
  The interface between the code that writes tables of records to bytes and the code that reads them: a record is
  written as a fixed number of bytes from which it is read back.  That every row of a table is read back at its place
  is proved once here; the laws are discharged for the headers of ELF files in \<open>Elf_Write\<close>.
\<close>

locale fixed_codec =
  fixes enc :: "'a \<Rightarrow> u8 list"
    and dec :: "u8 list \<Rightarrow> ('e, 'a) res"
    and width :: nat
  assumes enc_length: "length (enc x) = width"
    and dec_enc: "dec (enc x) = Inr x"
begin

lemma table_length: "length (concat (map enc xs)) = length xs * width"
  by (induction xs) (simp_all add: enc_length)

lemma row_bytes:
  assumes "i < length xs" "from = length pre + i * width" "to = from + width"
  shows "slice_at (pre @ concat (map enc xs) @ post) from to = (Inr (enc (xs ! i)) :: ('f, u8 list) res)"
proof -
  have "concat (map enc xs) = concat (map enc (take i xs)) @ enc (xs ! i) @ concat (map enc (drop (Suc i) xs))"
    using arg_cong [OF id_take_nth_drop [OF assms(1)], of "\<lambda>xs. concat (map enc xs)"] by simp
  moreover have "length (concat (map enc (take i xs))) = i * width" using assms(1) by (simp add: table_length)
  ultimately show ?thesis using assms(2,3) by (simp add: slice_at_def enc_length)
qed

lemma read_row:
  assumes "i < length xs" "from = length pre + i * width" "to = from + width"
  shows "bindr (slice_at (pre @ concat (map enc xs) @ post) from to) dec = Inr (xs ! i)"
  unfolding row_bytes [OF assms] by (simp add: dec_enc)

lemma enc_eq: "enc x = enc y \<longleftrightarrow> x = y"
  by (metis dec_enc sum.inject(2))

text \<open>Different tables of one length have different bytes.\<close>

lemma table_eq:
  assumes "length xs = length ys" "concat (map enc xs) = concat (map enc ys)"
  shows "xs = ys"
  using assms by (induction xs ys rule: list_induct2) (simp_all add: append_eq_append_conv enc_length enc_eq)

end

end
