(* ===== verification/Elf_Write.thy ===== *)
theory Elf_Write
  imports Elf Byte_Table
begin

unbundle bit_operations_syntax

text \<open>
  The writing half of \<open>tool/microkit/src/elf.rs\<close>: the byte layout of the packed structures, the
  program header table and \<open>reserialise\<close>, whose result here is the contents of the file written
  (failures of the file system after its creation panic and are not modelled).  The main result is
  that the reader of \<open>Elf\<close> recovers the segments from what was written.
\<close>

section \<open>Byte layout\<close>

definition header_bytes :: "elf_header64 \<Rightarrow> u8 list" where
  "header_bytes h =
     le_bytes 4 (ident_magic h) @ [ident_class h, ident_data h, ident_version h, ident_osabi h,
       ident_abiversion h] @ eh_padding h
     @ le_bytes 2 (eh_type h) @ le_bytes 2 (eh_machine h) @ le_bytes 4 (eh_version h)
     @ le_bytes 8 (eh_entry h) @ le_bytes 8 (eh_phoff h) @ le_bytes 8 (eh_shoff h)
     @ le_bytes 4 (eh_flags h) @ le_bytes 2 (eh_ehsize h) @ le_bytes 2 (eh_phentsize h)
     @ le_bytes 2 (eh_phnum h) @ le_bytes 2 (eh_shentsize h) @ le_bytes 2 (eh_shnum h)
     @ le_bytes 2 (eh_shstrndx h)"

definition phdr_bytes :: "elf_program_header64 \<Rightarrow> u8 list" where
  "phdr_bytes p =
     le_bytes 4 (ph_type p) @ le_bytes 4 (ph_flags p) @ le_bytes 8 (ph_offset p)
     @ le_bytes 8 (ph_vaddr p) @ le_bytes 8 (ph_paddr p) @ le_bytes 8 (ph_filesz p)
     @ le_bytes 8 (ph_memsz p) @ le_bytes 8 (ph_align p)"

definition shdr_bytes :: "elf_section_header64 \<Rightarrow> u8 list" where
  "shdr_bytes s =
     le_bytes 4 (sh_name s) @ le_bytes 4 (sh_type s) @ le_bytes 8 (sh_flags s)
     @ le_bytes 8 (sh_addr s) @ le_bytes 8 (sh_offset s) @ le_bytes 8 (sh_size s)
     @ le_bytes 4 (sh_link s) @ le_bytes 4 (sh_info s) @ le_bytes 8 (sh_addralign s)
     @ le_bytes 8 (sh_entsize s)"

section \<open>Tables\<close>

definition phdrs_table_serialised :: "elf_file \<Rightarrow> ('e, (elf_program_header64 \<times> nat) list) res" where
  "phdrs_table_serialised elf =
     mapM (\<lambda>program_header.
       bindr (nthr (segments elf) (segment_idx program_header)) (\<lambda>linked_segment.
         Inr (\<lparr>ph_type = phdr_type program_header, ph_flags = attrs linked_segment, ph_offset = 0,
               ph_vaddr = virt_addr linked_segment, ph_paddr = phys_addr linked_segment,
               ph_filesz = file_size linked_segment, ph_memsz = mem_size linked_segment,
               ph_align = 0\<rparr>, segment_idx program_header)))
       (program_headers elf)"

fun data_offsets :: "u64 \<Rightarrow> elf_segment list \<Rightarrow> u64 list" where
  "data_offsets watermark [] = []"
| "data_offsets watermark (seg # segs) = watermark # data_offsets (watermark + file_size seg) segs"

definition data_watermark :: "u64 \<Rightarrow> elf_segment list \<Rightarrow> u64" where
  "data_watermark watermark segs = foldl (\<lambda>w seg. w + file_size seg) watermark segs"

definition reserialise_header :: "elf_file \<Rightarrow> elf_header64" where
  "reserialise_header elf =
     (let phnum = length (program_headers elf);
          shnum = length (loadable_segments elf) + 2
      in \<lparr>ident_magic = of_le_bytes ELF_MAGIC, ident_class = 2, ident_data = 1, ident_version = 1,
          ident_osabi = 0, ident_abiversion = 0, eh_padding = replicate 7 0, eh_type = 2,
          eh_machine = elf_machine elf, eh_version = 1, eh_entry = elf_entry elf, eh_phoff = 64,
          eh_shoff = of_nat (64 + phnum * 56), eh_flags = 0, eh_ehsize = 64, eh_phentsize = 56,
          eh_phnum = of_nat phnum, eh_shentsize = 64, eh_shnum = of_nat shnum,
          eh_shstrndx = of_nat (shnum - 1)\<rparr>)"

definition segment_shdr :: "u64 list \<Rightarrow> nat \<times> elf_segment \<Rightarrow> ('e, u8 list) res" where
  "segment_shdr offsets i_seg = (case i_seg of (i, seg) \<Rightarrow>
     bindr (nthr offsets i) (\<lambda>off. Inr (shdr_bytes
       \<lparr>sh_name = 0, sh_type = SHT_PROGBITS, sh_flags = section_flags seg, sh_addr = phys_addr seg,
        sh_offset = off, sh_size = file_size seg, sh_link = 0, sh_info = 0, sh_addralign = 0,
        sh_entsize = 0\<rparr>)))"

definition reserialise :: "string option \<Rightarrow> elf_file \<Rightarrow> (elf_error, u8 list) res" where
  "reserialise create_error elf =
     (case create_error of
        Some e \<Rightarrow> Inl (Err (CannotCreate e))
      | None \<Rightarrow>
          (let ehsize = 64;
               phnum = length (program_headers elf);
               phentsize = 56;
               shnum = length (loadable_segments elf) + 2;
               shentsize = 64;
               watermark = of_nat ehsize + of_nat phnum * of_nat phentsize + of_nat shnum * of_nat shentsize;
               offsets = data_offsets watermark (loadable_segments elf);
               data_off_watermark = data_watermark watermark (loadable_segments elf)
           in bindr (phdrs_table_serialised elf) (\<lambda>table.
              bindr (mapM (\<lambda>(phdr, seg_idx).
                       bindr (nthr offsets seg_idx) (\<lambda>off. Inr (phdr_bytes (phdr\<lparr>ph_offset := off\<rparr>))))
                     table) (\<lambda>phdrs.
              bindr (mapM (segment_shdr offsets) (enumerate 0 (loadable_segments elf))) (\<lambda>shdrs.
              bindr (mapM segment_data (filter (\<lambda>s. \<not> is_uninitialised s) (loadable_segments elf))) (\<lambda>datas.
                Inr (header_bytes (reserialise_header elf)
                     @ concat phdrs
                     @ replicate shentsize 0
                     @ concat shdrs
                     @ shdr_bytes \<lparr>sh_name = 0, sh_type = SHT_STRTAB, sh_flags = 0, sh_addr = 0,
                         sh_offset = data_off_watermark, sh_size = 1, sh_link = 0, sh_info = 0,
                         sh_addralign = 0, sh_entsize = 0\<rparr>
                     @ concat datas
                     @ [0])))))))"

section \<open>Reading back the structures\<close>

lemma header_bytes_length: "length (eh_padding h) = 7 \<Longrightarrow> length (header_bytes h) = 64"
  by (simp add: header_bytes_def)

lemma phdr_bytes_length [simp]: "length (phdr_bytes p) = 56"
  by (simp add: phdr_bytes_def)

lemma shdr_bytes_length [simp]: "length (shdr_bytes s) = 64"
  by (simp add: shdr_bytes_def)

lemma bytes_to_header_header_bytes:
  "length (eh_padding h) = 7 \<Longrightarrow> bytes_to_header (header_bytes h) = Inr h"
  by (simp add: bytes_to_header_def header_bytes_length)
    (simp add: header_bytes_def u16_at_def u32_at_def u64_at_def of_le_bytes_le_bytes nth_append)

lemma bytes_to_phdr_phdr_bytes: "bytes_to_phdr (phdr_bytes p) = Inr p"
  by (simp add: bytes_to_phdr_def)
    (simp add: phdr_bytes_def u32_at_def u64_at_def of_le_bytes_le_bytes)

lemma bytes_to_shdr_shdr_bytes: "bytes_to_shdr (shdr_bytes s) = Inr s"
  by (simp add: bytes_to_shdr_def)
    (simp add: shdr_bytes_def u32_at_def u64_at_def of_le_bytes_le_bytes)

interpretation phdr: fixed_codec phdr_bytes bytes_to_phdr 56
  by unfold_locales (simp_all add: bytes_to_phdr_phdr_bytes)

interpretation shdr: fixed_codec shdr_bytes bytes_to_shdr 64
  by unfold_locales (simp_all add: bytes_to_shdr_shdr_bytes)

section \<open>Reading back a whole file\<close>

lemma slice_concat:
  assumes "i < length xss" "from = length pre + sum_list (map length (take i xss))"
    "to = from + length (xss ! i)"
  shows "slice_at (pre @ concat xss @ post) from to = Inr (xss ! i)"
proof -
  have sp: "concat xss = concat (take i xss) @ xss ! i @ concat (drop (Suc i) xss)"
    using arg_cong [OF id_take_nth_drop [OF assms(1)], of concat] by simp
  have "length (concat (take i xss)) = sum_list (map length (take i xss))"
    by (simp add: length_concat)
  then show ?thesis using assms(2,3) unfolding sp by (simp add: slice_at_def)
qed

text \<open>The data of an initialised segment.\<close>

definition raw :: "elf_segment \<Rightarrow> u8 list" where
  "raw seg = (case seg_data seg of RealData bytes \<Rightarrow> bytes | UninitialisedData _ \<Rightarrow> [])"

lemma raw_real:
  "\<not> is_uninitialised seg \<Longrightarrow> seg_data seg = RealData (raw seg)"
  "\<not> is_uninitialised seg \<Longrightarrow> segment_data seg = Inr (raw seg)"
  "\<not> is_uninitialised seg \<Longrightarrow> file_size seg = of_nat (length (raw seg))"
  "\<not> is_uninitialised seg \<Longrightarrow> mem_size seg = of_nat (length (raw seg))"
  by (auto simp: raw_def is_uninitialised_def segment_data_def file_size_def mem_size_def
      split: elf_segment_data.splits)

lemma data_offsets_length [simp]: "length (data_offsets w segs) = length segs"
  by (induction segs arbitrary: w) simp_all

lemma data_offsets_nth:
  assumes "i < length segs" "\<forall>s \<in> set segs. \<not> is_uninitialised s"
  shows "data_offsets w segs ! i = w + of_nat (sum_list (map (\<lambda>s. length (raw s)) (take i segs)))"
  using assms
proof (induction segs arbitrary: w i)
  case (Cons s segs)
  then show ?case by (cases i) (simp_all add: raw_real)
qed simp

text \<open>A file as the reader makes them: one loadable program header per segment, every segment
  with its data.\<close>

definition plain_elf :: "elf_file \<Rightarrow> bool" where
  "plain_elf elf \<longleftrightarrow>
     program_headers elf
       = map (\<lambda>i. \<lparr>segment_idx = i, phdr_type = PHENT_TYPE_LOADABLE\<rparr>) [0..<length (segments elf)]
     \<and> (\<forall>s \<in> set (segments elf). loadable s \<and> \<not> is_uninitialised s)"

definition written_size :: "elf_file \<Rightarrow> nat" where
  "written_size elf = (let n = length (segments elf)
     in 64 + n * 56 + (n + 2) * 64 + sum_list (map (\<lambda>s. length (raw s)) (segments elf)) + 1)"

definition written_phdr :: "elf_file \<Rightarrow> nat \<Rightarrow> elf_program_header64" where
  "written_phdr elf i =
     (let seg = segments elf ! i; n = length (segments elf)
      in \<lparr>ph_type = PHENT_TYPE_LOADABLE, ph_flags = attrs seg,
          ph_offset = data_offsets (of_nat (64 + n * 56 + (n + 2) * 64)) (segments elf) ! i,
          ph_vaddr = virt_addr seg, ph_paddr = phys_addr seg, ph_filesz = file_size seg,
          ph_memsz = mem_size seg, ph_align = 0\<rparr>)"

lemma mapM_map_Inr:
  assumes "\<And>x. x \<in> set xs \<Longrightarrow> f x = Inr (g x)"
  shows "mapM f xs = Inr (map g xs)"
  using assms by (auto simp: mapM_eq_Inr list_all2_conv_all_nth)

lemma reserialise_shape:
  assumes "plain_elf elf"
  obtains shdrs where
    "length (concat shdrs) = length (segments elf) * 64"
    "\<And>b. reserialise None elf = Inr b \<longleftrightarrow>
       b = header_bytes (reserialise_header elf)
         @ concat (map (\<lambda>i. phdr_bytes (written_phdr elf i)) [0..<length (segments elf)])
         @ (replicate 64 0 @ concat shdrs
         @ shdr_bytes \<lparr>sh_name = 0, sh_type = SHT_STRTAB, sh_flags = 0, sh_addr = 0,
             sh_offset = data_watermark (of_nat (64 + length (segments elf) * 56
               + (length (segments elf) + 2) * 64)) (segments elf), sh_size = 1, sh_link = 0,
             sh_info = 0, sh_addralign = 0, sh_entsize = 0\<rparr>)
         @ concat (map raw (segments elf)) @ [0]"
proof -
  let ?n = "length (segments elf)"
  let ?w = "of_nat (64 + ?n * 56 + (?n + 2) * 64) :: u64"
  let ?offs = "data_offsets ?w (segments elf)"
  from assms have ph: "program_headers elf
      = map (\<lambda>i. \<lparr>segment_idx = i, phdr_type = PHENT_TYPE_LOADABLE\<rparr>) [0..<?n]"
    and ini: "\<forall>s \<in> set (segments elf). \<not> is_uninitialised s"
    and ld: "loadable_segments elf = segments elf"
    by (auto simp: plain_elf_def loadable_segments_def filter_id_conv)
  have nphdrs: "length (program_headers elf) = ?n" by (simp add: ph)
  have tab: "phdrs_table_serialised elf
      = (Inr (map (\<lambda>i. ((written_phdr elf i)\<lparr>ph_offset := 0\<rparr>, i)) [0..<?n])
         :: (elf_error, (elf_program_header64 \<times> nat) list) res)"
    unfolding phdrs_table_serialised_def ph
    by (subst mapM_map_Inr [where g = "\<lambda>h. ((written_phdr elf (segment_idx h))\<lparr>ph_offset := 0\<rparr>, segment_idx h)"])
      (auto simp: written_phdr_def Let_def)
  have phd: "mapM (\<lambda>(phdr, seg_idx). bindr (nthr ?offs seg_idx) (\<lambda>off. Inr (phdr_bytes (phdr\<lparr>ph_offset := off\<rparr>))))
        (map (\<lambda>i. ((written_phdr elf i)\<lparr>ph_offset := 0\<rparr>, i)) [0..<?n])
      = (Inr (map (\<lambda>i. phdr_bytes (written_phdr elf i)) [0..<?n]) :: (elf_error, u8 list list) res)"
    by (subst mapM_map_Inr [where g = "\<lambda>h. phdr_bytes (written_phdr elf (snd h))"])
      (auto simp: written_phdr_def Let_def)
  let ?sh = "\<lambda>(i, seg). shdr_bytes
       \<lparr>sh_name = 0, sh_type = SHT_PROGBITS, sh_flags = section_flags seg, sh_addr = phys_addr seg,
        sh_offset = ?offs ! i, sh_size = file_size seg, sh_link = 0, sh_info = 0, sh_addralign = 0,
        sh_entsize = 0\<rparr>"
  have sh: "mapM (segment_shdr ?offs) (enumerate 0 (segments elf))
      = (Inr (map ?sh (enumerate 0 (segments elf))) :: (elf_error, u8 list list) res)"
    by (rule mapM_map_Inr) (auto simp: segment_shdr_def in_set_enumerate_eq)
  have shl: "length (concat (map ?sh xs)) = length xs * 64" for xs
    by (induction xs) (auto split: prod.splits)
  have dat: "mapM segment_data (filter (\<lambda>s. \<not> is_uninitialised s) (segments elf))
      = (Inr (map raw (segments elf)) :: (elf_error, u8 list list) res)"
    using ini by (simp add: filter_id_conv [THEN iffD2] mapM_map_Inr raw_real)
  have w: "of_nat 64 + of_nat ?n * of_nat 56 + of_nat (?n + 2) * of_nat 64 = ?w" by simp
  show thesis
    by (rule that [of "map ?sh (enumerate 0 (segments elf))"])
      (simp_all only: reserialise_def option.case Let_def ld nphdrs w tab phd sh dat bindr_Inr
        shl length_enumerate append_assoc sum.inject, auto)
qed

lemma sum_take_le: "i \<le> length xs \<Longrightarrow> sum_list (map f (take i xs)) \<le> sum_list (map (f :: 'a \<Rightarrow> nat) xs)"
  by (metis append_take_drop_id le_add1 map_append sum_list_append)

lemma sum_take_Suc_le:
  "i < length xs \<Longrightarrow> sum_list (map f (take i xs)) + f (xs ! i) \<le> sum_list (map (f :: 'a \<Rightarrow> nat) xs)"
  using sum_take_le [of "Suc i" xs f] by (simp add: take_Suc_conv_app_nth)

lemma slice_full: "length xs = n \<Longrightarrow> slice_at (xs @ ys) 0 n = Inr xs"
  by (simp add: slice_at_def)

lemma read_segment_bytes_ok:
  assumes "slice_at bytes from to = (Inr d :: ('e, u8 list) res)" "unat (ph_offset p) = from"
    "unat (ph_filesz p) = length d" "unat (ph_offset p + ph_filesz p) = to"
    "ph_memsz p = ph_filesz p" "to = from + length d"
  shows "read_segment_bytes bytes p = (Inr d :: ('e, u8 list) res)"
  using assms by (simp add: read_segment_bytes_def Let_def) (simp add: slice_at_def write_at_def)

lemma magic_le: "le_bytes 4 (of_le_bytes ELF_MAGIC :: u32) = ELF_MAGIC" "length ELF_MAGIC = 4"
proof -
  show "length ELF_MAGIC = 4" by (simp add: ELF_MAGIC_def)
  then show "le_bytes 4 (of_le_bytes ELF_MAGIC :: u32) = ELF_MAGIC"
    by (rule le_bytes_of_le_bytes) simp
qed

lemma read_back:
  assumes plain: "plain_elf elf" and n: "0 < length (segments elf)" "length (segments elf) \<le> 1170"
    and sz: "written_size elf < 2 ^ 64"
  obtains bytes rd where "reserialise None elf = Inr bytes" "reader_from_path (Inr bytes) = Inr rd"
    "reader_segments rd = Inr (segments elf)"
    "eh_entry (rd_hdr rd) = elf_entry elf" "eh_machine (rd_hdr rd) = elf_machine elf"
proof -
  let ?n = "length (segments elf)" and ?segs = "segments elf"
  let ?h = "reserialise_header elf"
  let ?P = "map (\<lambda>i. phdr_bytes (written_phdr elf i)) [0..<?n]"
  let ?B = "64 + ?n * 56 + (?n + 2) * 64"
  obtain mid where mid: "length mid = (?n + 2) * 64"
    and ser: "reserialise None elf
      = Inr (header_bytes ?h @ concat ?P @ mid @ concat (map raw ?segs) @ [0])"
  proof -
    obtain shdrs where s: "length (concat shdrs) = ?n * 64"
      "\<And>b. reserialise None elf = Inr b \<longleftrightarrow> b = header_bytes ?h @ concat ?P
         @ (replicate 64 0 @ concat shdrs @ shdr_bytes \<lparr>sh_name = 0, sh_type = SHT_STRTAB, sh_flags = 0,
             sh_addr = 0, sh_offset = data_watermark (of_nat ?B) ?segs, sh_size = 1, sh_link = 0,
             sh_info = 0, sh_addralign = 0, sh_entsize = 0\<rparr>) @ concat (map raw ?segs) @ [0]"
      using reserialise_shape [OF plain] by blast
    show thesis by (rule that [OF _ s(2) [THEN iffD2, OF refl]]) (simp add: s(1))
  qed
  let ?bytes = "header_bytes ?h @ concat ?P @ mid @ concat (map raw ?segs) @ [0]"
  have ph: "length (program_headers elf) = ?n"
    and ini: "\<forall>s \<in> set ?segs. loadable s \<and> \<not> is_uninitialised s"
    using plain by (simp_all add: plain_elf_def)
  have h: "length (header_bytes ?h) = 64" "bytes_to_header (header_bytes ?h) = (Inr ?h :: (elf_error, _) res)"
    by (simp_all add: header_bytes_length bytes_to_header_header_bytes reserialise_header_def Let_def)
  have magic: "header_bytes ?h = ELF_MAGIC @ [2, 1] @ drop 6 (header_bytes ?h)"
    by (simp add: header_bytes_def reserialise_header_def Let_def magic_le)
  define rd where "rd = \<lparr>rd_bytes = ?bytes, rd_word_size = 64, rd_hdr = ?h\<rparr>"
  have "slice_at ?bytes 0 4 = (Inr ELF_MAGIC :: (elf_error, _) res)"
    "slice_at ?bytes 4 5 = (Inr [2] :: (elf_error, _) res)"
    by (subst magic, simp add: slice_at_def ELF_MAGIC_def)+
  moreover have "slice_at ?bytes 0 64 = (Inr (header_bytes ?h) :: (elf_error, _) res)"
    by (rule slice_full) (rule h)
  moreover have "le_bytes 4 (ident_magic ?h) = ELF_MAGIC" "ident_class ?h = 2" "ident_data ?h = 1"
    by (simp_all add: reserialise_header_def Let_def magic_le)
  ultimately have reader: "reader_from_path (Inr ?bytes) = Inr rd"
    by (simp add: reader_from_path_def h(2) rd_def)
  have phent: "read_phent rd (of_nat i) = (Inr (written_phdr elf i) :: (elf_error, _) res)" if i: "i < ?n" for i
  proof -
    have "i * 56 < 2 ^ 16" using i n(2) by simp
    then have "unat (of_nat (i * 56) :: u16) = i * 56" by (intro unat_of_nat_small) simp
    then have c: "ucast (of_nat i * 56 :: u16) = (of_nat (i * 56) :: u64)"
      by (metis of_nat_mult of_nat_numeral of_nat_unat)
    have st: "unat (64 + of_nat (i * 56) :: u64) = 64 + i * 56"
      "unat (64 + of_nat (i * 56) + 56 :: u64) = 64 + i * 56 + 56"
      using unat_of_nat_small [of "64 + i * 56", where ?'a = 64]
        unat_of_nat_small [of "64 + i * 56 + 56", where ?'a = 64] \<open>i * 56 < 2 ^ 16\<close> by simp_all
    have "bindr (slice_at (header_bytes ?h @ concat (map phdr_bytes (map (written_phdr elf) [0..<?n])) @ mid
        @ concat (map raw ?segs) @ [0]) (64 + i * 56) (64 + i * 56 + 56)) bytes_to_phdr
        = (Inr (map (written_phdr elf) [0..<?n] ! i) :: (elf_error, _) res)"
      by (rule phdr.read_row) (use i h(1) in simp_all)
    then show ?thesis
      using i c st by (simp add: read_phent_def rd_def Let_def reserialise_header_def comp_def)
  qed
  have dat: "read_segment_bytes ?bytes (written_phdr elf i) = (Inr (raw (?segs ! i)) :: (elf_error, _) res)"
    if i: "i < ?n" for i
  proof -
    let ?S = "sum_list (map (\<lambda>s. length (raw s)) (take i ?segs))" and ?l = "length (raw (?segs ! i))"
    have u: "\<not> is_uninitialised (?segs ! i)" using ini i by simp
    have le: "?S + ?l \<le> sum_list (map (\<lambda>s. length (raw s)) ?segs)" by (rule sum_take_Suc_le [OF i])
    then have lt: "?B + ?S + ?l < 2 ^ 64" using sz by (simp add: written_size_def Let_def)
    have off: "data_offsets (of_nat ?B) ?segs ! i = of_nat (?B + ?S)"
      using data_offsets_nth [OF i] ini by simp
    have st: "unat (of_nat (?B + ?S) :: u64) = ?B + ?S" "unat (of_nat ?l :: u64) = ?l"
      "unat (of_nat (?B + ?S) + of_nat ?l :: u64) = ?B + ?S + ?l"
      using lt unat_of_nat_small [of "?B + ?S + ?l", where ?'a = 64]
      by (simp_all add: unat_of_nat_small del: of_nat_add add: of_nat_add [symmetric])
    have "slice_at ((header_bytes ?h @ concat ?P @ mid) @ concat (map raw ?segs) @ [0])
        (?B + ?S) (?B + ?S + ?l) = (Inr (map raw ?segs ! i) :: (elf_error, _) res)"
    proof (rule slice_concat)
      have "length (concat ?P) = ?n * 56" using phdr.table_length [of "map (written_phdr elf) [0..<?n]"] by (simp add: comp_def)
      then show "?B + ?S = length (header_bytes ?h @ concat ?P @ mid) + sum_list (map length (take i (map raw ?segs)))"
        using h(1) mid by (simp add: take_map comp_def)
    qed (use i in simp_all)
    then have "slice_at ?bytes (?B + ?S) (?B + ?S + ?l) = (Inr (raw (?segs ! i)) :: (elf_error, _) res)"
      using i by simp
    then show ?thesis
    proof (rule read_segment_bytes_ok)
      show "unat (ph_offset (written_phdr elf i)) = ?B + ?S"
        unfolding written_phdr_def Let_def elf_program_header64.select_convs off by (rule st(1))
      show "unat (ph_filesz (written_phdr elf i)) = ?l"
        unfolding written_phdr_def Let_def elf_program_header64.select_convs raw_real(3) [OF u] by (rule st(2))
      show "unat (ph_offset (written_phdr elf i) + ph_filesz (written_phdr elf i)) = ?B + ?S + ?l"
        unfolding written_phdr_def Let_def elf_program_header64.select_convs off raw_real(3) [OF u]
        by (rule st(3))
      show "ph_memsz (written_phdr elf i) = ph_filesz (written_phdr elf i)"
        unfolding written_phdr_def Let_def elf_program_header64.select_convs raw_real(3,4) [OF u] by (rule refl)
    qed (rule refl)
  qed
  let ?f = "\<lambda>segs i. bindr (read_phent rd (of_nat i)) (\<lambda>phent.
                if ph_type phent \<noteq> PHENT_TYPE_LOADABLE then Inr segs
                else bindr (read_segment_bytes (rd_bytes rd) phent) (\<lambda>data_bytes.
                  Inr (segs @ [\<lparr>seg_data = RealData data_bytes, phys_addr = ph_paddr phent,
                                virt_addr = ph_vaddr phent,
                                loadable = (ph_type phent = PHENT_TYPE_LOADABLE),
                                attrs = ph_flags phent\<rparr>])) :: (elf_error, elf_segment list) res)"
  have seg: "?f segs i = Inr (segs @ [?segs ! i])" if i: "i < ?n" for segs i
  proof -
    have "loadable (?segs ! i)" "\<not> is_uninitialised (?segs ! i)" using ini i by simp_all
    then have "\<lparr>seg_data = RealData (raw (?segs ! i)), phys_addr = phys_addr (?segs ! i),
        virt_addr = virt_addr (?segs ! i), loadable = True, attrs = attrs (?segs ! i)\<rparr> = ?segs ! i"
      by (simp add: raw_real)
    then show ?thesis using phent [OF i] dat [OF i]
      by (simp add: rd_def written_phdr_def Let_def)
  qed
  have loop: "foldM ?f [] [0..<k] = Inr (take k ?segs)" if "k \<le> ?n" for k
    using that
  proof (induction k)
    case (Suc k)
    then show ?case by (simp add: foldM_append seg take_Suc_conv_app_nth)
  qed simp
  have num: "unat (eh_phnum (rd_hdr rd)) = ?n"
    using unat_of_nat_small [of ?n, where ?'a = 16] n ph
    by (simp add: rd_def reserialise_header_def Let_def)
  then have "eh_phnum (rd_hdr rd) \<noteq> 0" using n(1) by auto
  then have "reader_segments rd = Inr ?segs"
    using loop [of ?n] num by (simp add: reader_segments_def)
  then show thesis using that [OF ser reader] by (simp add: rd_def reserialise_header_def Let_def)
qed

text \<open>C16: for a file with one loadable program header per segment and no uninitialised segment, the
  reader recovers from the written image exactly the segments (contents, addresses, and permission
  flags), the entry point and the machine, provided that there are at most 1170 segments (the 16-bit
  product that locates a program header) and that the image is smaller than the address space.\<close>

theorem reserialise_read_back:
  assumes "plain_elf elf" "0 < length (segments elf)" "length (segments elf) \<le> 1170"
    "written_size elf < 2 ^ 64"
  shows "\<exists>bytes rd. reserialise None elf = Inr bytes \<and> reader_from_path (Inr bytes) = Inr rd
           \<and> reader_segments rd = Inr (segments elf)
           \<and> eh_entry (rd_hdr rd) = elf_entry elf \<and> eh_machine (rd_hdr rd) = elf_machine elf"
  using read_back [OF assms] by metis

theorem reserialise_read_back_witness:
  "\<exists>bytes rd. reserialise None example_elf = Inr bytes \<and> reader_from_path (Inr bytes) = Inr rd
     \<and> reader_segments rd = Inr (segments example_elf)
     \<and> eh_entry (rd_hdr rd) = 0x1000 \<and> eh_machine (rd_hdr rd) = 243"
  using reserialise_read_back [of example_elf]
  by (simp add: example_elf_def plain_elf_def is_uninitialised_def written_size_def raw_def
      PHENT_TYPE_LOADABLE_def)

section \<open>Section flags\<close>

text \<open>The constant for executable sections is 3, where the ELF format has 4 for
  \<open>SHF_EXECINSTR\<close>.\<close>

text \<open>The section header of a read-only executable segment claims a writable section and does not
  claim an executable one: it carries \<open>SHF_WRITE\<close> (1) and not the bit 4 that the ELF format
  assigns to \<open>SHF_EXECINSTR\<close>, because the constant used for the latter is 3.\<close>

theorem section_flags_executable_is_writable:
  assumes "is_executable seg" "\<not> is_writable seg"
  shows "section_flags seg AND SHF_WRITE = SHF_WRITE \<and> section_flags seg AND 4 = 0"
  using assms by (simp add: section_flags_def Let_def SHF_ALLOC_def SHF_EXECINSTR_def SHF_WRITE_def)

theorem section_flags_executable_is_writable_witness:
  "section_flags (hd (segments example_elf)) AND SHF_WRITE = SHF_WRITE"
  using section_flags_executable_is_writable [of "hd (segments example_elf)"]
  by (simp add: example_elf_def is_executable_def is_writable_def PF_X_def PF_W_def)

end
