(* ===== verification/Region_Store.thy ===== *)
theory Region_Store
  imports Prelude
begin

text \<open>
  The interface between the kernel boot emulation and the set of free memory: a store of 64-bit
  addresses with an invariant and an abstract view (the addresses it covers), an insertion and a
  removal.  What the emulation relies on is proved once here from the laws of the interface; the
  laws are discharged for the regions of \<open>lib.rs\<close> in \<open>Mem_Regions\<close>.
\<close>

locale region_store =
  fixes inv :: "'s \<Rightarrow> bool"
    and covers :: "'s \<Rightarrow> u64 set"
    and ins :: "u64 \<Rightarrow> u64 \<Rightarrow> 's \<Rightarrow> ('e, 's) res"
    and rem :: "u64 \<Rightarrow> u64 \<Rightarrow> 's \<Rightarrow> ('e, 's) res"
  assumes ins_inv: "inv s \<Longrightarrow> ins b e s = Inr s' \<Longrightarrow> inv s'"
    and ins_covers: "inv s \<Longrightarrow> ins b e s = Inr s' \<Longrightarrow> covers s' = covers s \<union> {b..<e}"
    and ins_fresh: "inv s \<Longrightarrow> ins b e s = Inr s' \<Longrightarrow> b < e \<and> covers s \<inter> {b..<e} = {}"
    and ins_returns: "inv s \<Longrightarrow> b < e \<Longrightarrow> covers s \<inter> {b..<e} = {} \<Longrightarrow> \<exists>s'. ins b e s = Inr s'"
    and rem_inv: "inv s \<Longrightarrow> b \<le> e \<Longrightarrow> rem b e s = Inr s' \<Longrightarrow> inv s'"
    and rem_covers: "inv s \<Longrightarrow> b \<le> e \<Longrightarrow> rem b e s = Inr s' \<Longrightarrow> covers s' = covers s - {b..<e}"
    and rem_within: "inv s \<Longrightarrow> b \<le> e \<Longrightarrow> rem b e s = Inr s' \<Longrightarrow> {b..<e} \<subseteq> covers s"
begin

definition ins_all :: "(u64 \<times> u64) list \<Rightarrow> 's \<Rightarrow> ('e, 's) res" where
  "ins_all rs s = foldM (\<lambda>s (b, e). ins b e s) s rs"

definition span :: "(u64 \<times> u64) list \<Rightarrow> u64 set" where
  "span rs = (\<Union>(b, e) \<in> set rs. {b..<e})"

fun fresh_all :: "u64 set \<Rightarrow> (u64 \<times> u64) list \<Rightarrow> bool" where
  "fresh_all A [] = True"
| "fresh_all A ((b, e) # rs) \<longleftrightarrow> b < e \<and> A \<inter> {b..<e} = {} \<and> fresh_all (A \<union> {b..<e}) rs"

lemma span_simps [simp]: "span [] = {}" "span ((b, e) # rs) = {b..<e} \<union> span rs"
  by (auto simp: span_def)

lemma ins_all_ok:
  "inv s \<Longrightarrow> ins_all rs s = Inr s' \<Longrightarrow> inv s' \<and> covers s' = covers s \<union> span rs \<and> fresh_all (covers s) rs"
proof (induction rs arbitrary: s)
  case Nil
  then show ?case by (simp add: ins_all_def)
next
  case (Cons r rs)
  obtain b e where r: "r = (b, e)" by (cases r)
  from Cons.prems(2) obtain t where t: "ins b e s = Inr t" "ins_all rs t = Inr s'"
    by (auto simp: ins_all_def r res_simps)
  note step = ins_inv [OF Cons.prems(1) t(1)] ins_covers [OF Cons.prems(1) t(1)]
    ins_fresh [OF Cons.prems(1) t(1)]
  from Cons.IH [OF step(1) t(2)] step(2,3) r show ?case by auto
qed

lemma ins_all_returns:
  "inv s \<Longrightarrow> fresh_all (covers s) rs \<Longrightarrow> \<exists>s'. ins_all rs s = Inr s'"
proof (induction rs arbitrary: s)
  case Nil
  then show ?case by (simp add: ins_all_def)
next
  case (Cons r rs)
  obtain b e where r: "r = (b, e)" by (cases r)
  with Cons.prems have "b < e" "covers s \<inter> {b..<e} = {}" by simp_all
  from ins_returns [OF Cons.prems(1) this] obtain t where t: "ins b e s = Inr t" ..
  from Cons.prems(2) r ins_covers [OF Cons.prems(1) t] have "fresh_all (covers t) rs" by simp
  from Cons.IH [OF ins_inv [OF Cons.prems(1) t] this] t r show ?case by (auto simp: ins_all_def)
qed

lemma ins_all_rem_ok:
  assumes "inv s" "ins_all rs s = Inr t" "b \<le> e" "rem b e t = Inr u"
  shows "inv u" "covers u = (covers s \<union> span rs) - {b..<e}" "{b..<e} \<subseteq> covers s \<union> span rs"
  using ins_all_ok [OF assms(1,2)] rem_inv [OF _ assms(3,4)] rem_covers [OF _ assms(3,4)]
    rem_within [OF _ assms(3,4)]
  by auto

end

end
