(* ===== verification/Mem_Regions.thy ===== *)
theory Mem_Regions
  imports Sel4_Config Region_Store
begin

unbundle bit_operations_syntax

text \<open>
  The memory regions of \<open>tool/microkit/src/lib.rs\<close>: half-open regions, the untyped objects made of
  them and their layout in the initialiser's table, the split of a region into aligned powers of
  two that emulates the kernel, and the set of disjoint regions from which the tool allocates
  physical memory.  The abstract view of such a set is the set of addresses it covers.
\<close>

section \<open>Regions and untyped objects\<close>

record memory_region =
  mr_base :: u64
  mr_end :: u64

definition mr_size :: "memory_region \<Rightarrow> u64" where
  "mr_size r = mr_end r - mr_base r"

abbreviation mk_region :: "u64 \<Rightarrow> u64 \<Rightarrow> memory_region" where
  "mk_region b e \<equiv> \<lparr>mr_base = b, mr_end = e\<rparr>"

record untyped_object =
  ut_cap :: u64
  ut_region :: memory_region
  ut_is_device :: bool

definition ut_base :: "untyped_object \<Rightarrow> u64" where
  "ut_base ut = mr_base (ut_region ut)"

definition ut_end :: "untyped_object \<Rightarrow> u64" where
  "ut_end ut = mr_end (ut_region ut)"

definition ut_size_bits :: "untyped_object \<Rightarrow> u64" where
  "ut_size_bits ut = lsb (mr_size (ut_region ut))"

definition serialise_ut :: "untyped_object \<Rightarrow> u8 list" where
  "serialise_ut ut =
     le_bytes 8 (ut_base ut) @ [ucast (ut_size_bits ut), if ut_is_device ut then 1 else 0]
       @ replicate 6 0"

section \<open>Aligned powers of two\<close>

definition apot_bits :: "u64 \<Rightarrow> u64 \<Rightarrow> u64 \<Rightarrow> u64" where
  "apot_bits max_bits base end =
     (let size_bits = msb (end - base);
          bits = (if base = 0 then size_bits else min size_bits (lsb base))
      in if bits > max_bits then max_bits else bits)"

lemma apot_bits_bounds:
  assumes "base \<noteq> end"
  shows "unat (apot_bits max_bits base end) < 64"
    and "unat (apot_bits max_bits base end) \<le> unat max_bits"
    and "2 ^ unat (apot_bits max_bits base end) \<le> unat (end - base)"
    and "2 ^ unat (apot_bits max_bits base end) dvd unat base"
proof -
  let ?b = "apot_bits max_bits base end"
  from assms have nz: "end - base \<noteq> 0" by simp
  have le: "unat ?b \<le> unat (msb (end - base))"
    by (auto simp: apot_bits_def Let_def min_def word_le_nat_alt word_less_nat_alt)
  with msb_bounds(1) [OF nz] show "unat ?b < 64" by simp
  show "unat ?b \<le> unat max_bits"
    by (auto simp: apot_bits_def Let_def word_le_nat_alt word_less_nat_alt)
  have "(2::nat) ^ unat ?b \<le> 2 ^ unat (msb (end - base))" by (rule power_increasing) (use le in auto)
  with msb_bounds(2) [OF nz] show "2 ^ unat ?b \<le> unat (end - base)" by linarith
  show "2 ^ unat ?b dvd unat base"
  proof (cases "base = 0")
    case False
    then have "unat ?b \<le> unat (lsb base)"
      by (auto simp: apot_bits_def Let_def min_def word_le_nat_alt word_less_nat_alt)
    then have "(2::nat) ^ unat ?b dvd 2 ^ unat (lsb base)" by (rule le_imp_power_dvd)
    then show ?thesis using lsb_dvd by (rule dvd_trans)
  qed simp
qed

lemma apot_step:
  assumes "base \<noteq> end"
  shows "unat (shl 1 (apot_bits max_bits base end)) = 2 ^ unat (apot_bits max_bits base end)"
    and "unat (end - (base + shl 1 (apot_bits max_bits base end)))
           = unat (end - base) - 2 ^ unat (apot_bits max_bits base end)"
proof -
  let ?b = "apot_bits max_bits base end"
  show s: "unat (shl 1 ?b) = 2 ^ unat ?b"
    using apot_bits_bounds(1) [OF assms, of max_bits] by (simp add: shl_small unat_exp_2)
  have "shl 1 ?b \<le> end - base"
    using apot_bits_bounds(3) [OF assms, of max_bits] by (simp add: word_le_nat_alt s)
  then have "unat ((end - base) - shl 1 ?b) = unat (end - base) - 2 ^ unat ?b"
    by (simp add: unat_sub s)
  then show "unat (end - (base + shl 1 ?b)) = unat (end - base) - 2 ^ unat ?b"
    by (simp add: diff_diff_eq)
qed

lemma nat_sub_power_less: "2 ^ k \<le> n \<Longrightarrow> n - 2 ^ k < (n :: nat)"
  using zero_less_power [of "2 :: nat" k] by linarith

function apot_loop :: "config \<Rightarrow> u64 \<Rightarrow> u64 \<Rightarrow> u64 \<Rightarrow> ('e, memory_region list) res" where
  "apot_loop cfg max_bits base end =
     (if base = end then Inr []
      else let sz = shl 1 (apot_bits max_bits base end)
           in bindr (kernel_vaddr_to_paddr cfg base) (\<lambda>base_paddr.
              bindr (kernel_vaddr_to_paddr cfg (base + sz)) (\<lambda>end_paddr.
              bindr (apot_loop cfg max_bits (base + sz) end) (\<lambda>regions.
                Inr (\<lparr>mr_base = base_paddr, mr_end = end_paddr\<rparr> # regions)))))"
  by auto

termination
proof (relation "measure (\<lambda>(cfg, max_bits, base, end). unat (end - base))", goal_cases)
  case 1
  show ?case by simp
next
  case (2 cfg max_bits base "end" sz)
  then show ?case
    using apot_step(2) [of base "end" max_bits] apot_bits_bounds(3) [of base "end" max_bits]
    by (simp add: nat_sub_power_less)
qed

declare apot_loop.simps [simp del]

definition aligned_power_of_two_regions ::
    "config \<Rightarrow> u64 \<Rightarrow> memory_region \<Rightarrow> ('e, memory_region list) res" where
  "aligned_power_of_two_regions cfg max_bits r =
     bindr (paddr_to_kernel_vaddr cfg (mr_base r)) (\<lambda>base.
     bindr (paddr_to_kernel_vaddr cfg (mr_end r)) (\<lambda>end.
       apot_loop cfg max_bits base end))"

section \<open>Disjoint regions\<close>

record disjoint_memory_region =
  regions :: "memory_region list"

definition dmr_default :: disjoint_memory_region where
  "dmr_default = \<lparr>regions = []\<rparr>"

fun check_from :: "u64 \<Rightarrow> memory_region list \<Rightarrow> ('e, unit) res" where
  "check_from last_end [] = Inr ()"
| "check_from last_end (r # rs) =
     bindr (assertr (mr_base r \<ge> last_end)) (\<lambda>_. check_from (mr_end r) rs)"

definition dmr_check :: "disjoint_memory_region \<Rightarrow> ('e, unit) res" where
  "dmr_check d = check_from 0 (regions d)"

definition insert_index :: "u64 \<Rightarrow> memory_region list \<Rightarrow> nat" where
  "insert_index end rs = length (takeWhile (\<lambda>r. \<not> end \<le> mr_base r) rs)"

definition insert_raw :: "u64 \<Rightarrow> u64 \<Rightarrow> memory_region list \<Rightarrow> memory_region list" where
  "insert_raw base end rs =
     (let i = insert_index end rs
      in if i = 0 \<and> mr_base (hd rs) = end then (hd rs)\<lparr>mr_base := base\<rparr> # tl rs
         else if i = length rs \<and> mr_end (last rs) = base
         then butlast rs @ [(last rs)\<lparr>mr_end := end\<rparr>]
         else if i < length rs \<and> end = mr_base (rs ! i) then rs[i := (rs ! i)\<lparr>mr_base := base\<rparr>]
         else if i < length rs \<and> base = mr_end (rs ! i) then rs[i := (rs ! i)\<lparr>mr_end := end\<rparr>]
         else take i rs @ \<lparr>mr_base = base, mr_end = end\<rparr> # drop i rs)"

definition insert_region ::
    "u64 \<Rightarrow> u64 \<Rightarrow> disjoint_memory_region \<Rightarrow> ('e, disjoint_memory_region) res" where
  "insert_region base end d =
     bindr (assertr (base < end)) (\<lambda>_.
       if regions d = [] then Inr (d\<lparr>regions := [\<lparr>mr_base = base, mr_end = end\<rparr>]\<rparr>)
       else let d' = d\<lparr>regions := insert_raw base end (regions d)\<rparr>
            in bindr (dmr_check d') (\<lambda>_. Inr d'))"

definition region_contains :: "u64 \<Rightarrow> u64 \<Rightarrow> memory_region \<Rightarrow> bool" where
  "region_contains base end r \<longleftrightarrow> base \<ge> mr_base r \<and> end \<le> mr_end r"

definition remove_raw :: "u64 \<Rightarrow> u64 \<Rightarrow> nat \<Rightarrow> memory_region list \<Rightarrow> memory_region list" where
  "remove_raw base end i rs =
     (let r = rs ! i
      in if mr_base r = base \<and> mr_end r = end then take i rs @ drop (Suc i) rs
         else if mr_base r = base then rs[i := \<lparr>mr_base = end, mr_end = mr_end r\<rparr>]
         else if mr_end r = end then rs[i := \<lparr>mr_base = mr_base r, mr_end = base\<rparr>]
         else take i rs @ \<lparr>mr_base = mr_base r, mr_end = base\<rparr>
                # \<lparr>mr_base = end, mr_end = mr_end r\<rparr> # drop (Suc i) rs)"

definition remove_region ::
    "u64 \<Rightarrow> u64 \<Rightarrow> disjoint_memory_region \<Rightarrow> ('e, disjoint_memory_region) res" where
  "remove_region base end d =
     (let i = length (takeWhile (\<lambda>r. \<not> region_contains base end r) (regions d))
      in if i = length (regions d) then Inl (Panic ExplicitPanic)
         else let d' = d\<lparr>regions := remove_raw base end i (regions d)\<rparr>
              in bindr (dmr_check d') (\<lambda>_. Inr d'))"

definition dmr_aligned_power_of_two_regions ::
    "config \<Rightarrow> u64 \<Rightarrow> disjoint_memory_region \<Rightarrow> ('e, memory_region list) res" where
  "dmr_aligned_power_of_two_regions cfg max_bits d =
     bindr (mapM (aligned_power_of_two_regions cfg max_bits) (regions d)) (\<lambda>rss. Inr (concat rss))"

fun find_alloc :: "u64 \<Rightarrow> u64 \<Rightarrow> memory_region list \<Rightarrow> ('e, memory_region option) res" where
  "find_alloc sz align [] = Inr None"
| "find_alloc sz align (r # rs) =
     (if sz \<le> mr_size r
      then bindr (next_multiple_of (mr_base r) align) (\<lambda>b.
             if b + sz \<le> mr_end r then Inr (Some r) else find_alloc sz align rs)
      else find_alloc sz align rs)"

definition dmr_allocate ::
    "u64 \<Rightarrow> page_size \<Rightarrow> disjoint_memory_region \<Rightarrow> ('e, u64 option \<times> disjoint_memory_region) res" where
  "dmr_allocate sz align_page_sz d =
     bindr (find_alloc sz (page_size_u64 align_page_sz) (regions d)) (\<lambda>found.
       case found of
         None \<Rightarrow> Inr (None, d)
       | Some r \<Rightarrow>
           bindr (next_multiple_of (mr_base r) (page_size_u64 align_page_sz)) (\<lambda>base.
           bindr (remove_region base (base + sz) d) (\<lambda>d'.
             Inr (Some base, d'))))"

definition dmr_allocate_from ::
    "u64 \<Rightarrow> u64 \<Rightarrow> disjoint_memory_region \<Rightarrow> ('e, u64 option \<times> disjoint_memory_region) res" where
  "dmr_allocate_from sz lower_bound d =
     (case find (\<lambda>r. sz \<le> mr_size r \<and> mr_base r \<ge> lower_bound) (regions d) of
        None \<Rightarrow> Inr (None, d)
      | Some r \<Rightarrow>
          bindr (remove_region (mr_base r) (mr_base r + sz) d) (\<lambda>d'.
            Inr (Some (mr_base r), d')))"

section \<open>Splitting into aligned powers of two\<close>

text \<open>A list of regions that lie end to end from \<open>b\<close> to \<open>e\<close>.\<close>

fun region_chain :: "u64 \<Rightarrow> u64 \<Rightarrow> memory_region list \<Rightarrow> bool" where
  "region_chain b e [] \<longleftrightarrow> b = e"
| "region_chain b e (r # rs) \<longleftrightarrow> mr_base r = b \<and> mr_base r < mr_end r \<and> region_chain (mr_end r) e rs"

definition covered :: "memory_region list \<Rightarrow> u64 set" where
  "covered rs = (\<Union>r \<in> set rs. {mr_base r..<mr_end r})"

lemma covered_simps [simp]:
  "covered [] = {}" "covered (r # rs) = {mr_base r..<mr_end r} \<union> covered rs"
  "covered (xs @ ys) = covered xs \<union> covered ys"
  by (auto simp: covered_def)

lemma region_chain_le: "region_chain b e rs \<Longrightarrow> b \<le> e"
  by (induction rs arbitrary: b) (auto intro: order.trans less_imp_le)

lemma region_chain_covered: "region_chain b e rs \<Longrightarrow> covered rs = {b..<e}"
proof (induction rs arbitrary: b)
  case (Cons r rs)
  then show ?case using region_chain_le [of "mr_end r" e rs]
    by (auto simp: ivl_disj_un_two(3) less_imp_le)
qed simp

lemma region_chain_bounds:
  "region_chain b e rs \<Longrightarrow> r \<in> set rs \<Longrightarrow> b \<le> mr_base r \<and> mr_base r < mr_end r \<and> mr_end r \<le> e"
proof (induction rs arbitrary: b)
  case (Cons x xs)
  show ?case
  proof (cases "r = x")
    case True
    then show ?thesis using Cons.prems region_chain_le by auto
  next
    case False
    with Cons.prems have "mr_end x \<le> mr_base r \<and> mr_base r < mr_end r \<and> mr_end r \<le> e"
      by (intro Cons.IH) auto
    with Cons.prems(1) show ?thesis by (auto intro: order.trans less_imp_le)
  qed
qed simp

abbreviation region_before :: "memory_region \<Rightarrow> memory_region \<Rightarrow> bool" where
  "region_before \<equiv> \<lambda>a b. mr_end a \<le> mr_base b"

lemma region_chain_sorted: "region_chain b e rs \<Longrightarrow> sorted_wrt region_before rs"
  by (induction rs arbitrary: b) (auto dest: region_chain_bounds)

text \<open>A region the kernel would make into one untyped: a power of two in size, and a kernel
  virtual address aligned to it.\<close>

definition untyped_region :: "u64 \<Rightarrow> u64 \<Rightarrow> memory_region \<Rightarrow> bool" where
  "untyped_region vb max_bits r \<longleftrightarrow>
     (let bits = unat (ut_size_bits \<lparr>ut_cap = 0, ut_region = r, ut_is_device = False\<rparr>)
      in bits \<le> unat max_bits \<and> unat (mr_size r) = 2 ^ bits \<and> 2 ^ bits dvd unat (mr_base r + vb))"

lemma trailing_zeros_exp: "n < 64 \<Longrightarrow> unat x = 2 ^ n \<Longrightarrow> trailing_zeros x = n"
proof -
  assume n: "n < 64" "unat x = 2 ^ n"
  then have x: "x \<noteq> 0" by (metis power_not_zero unat_0 zero_neq_numeral)
  have "n \<le> trailing_zeros x" by (rule trailing_zeros_maximal [OF x]) (simp add: n)
  moreover have "(2::nat) ^ trailing_zeros x dvd 2 ^ n" using trailing_zeros_dvd [of x] n by simp
  then have "trailing_zeros x \<le> n" by (simp add: dvd_power_iff_le)
  ultimately show ?thesis by simp
qed

lemma untyped_regionI:
  assumes "n < 64" "unat (mr_size r) = 2 ^ n" "n \<le> unat max_bits" "2 ^ n dvd unat (mr_base r + vb)"
  shows "untyped_region vb max_bits r"
  using assms trailing_zeros_exp [OF assms(1,2)]
  by (simp add: untyped_region_def ut_size_bits_def lsb_nat)

lemma apot_loop_partition:
  assumes vb: "virtual_base cfg = (Inr vb :: ('e, u64) res)" and le: "base - vb \<le> end - vb"
  shows "\<exists>rs. apot_loop cfg max_bits base end = (Inr rs :: ('e, memory_region list) res)
           \<and> region_chain (base - vb) (end - vb) rs \<and> (\<forall>r \<in> set rs. untyped_region vb max_bits r)"
  using le
proof (induction "unat (end - base)" arbitrary: base rule: less_induct)
  case less
  show ?case
  proof (cases "base = end")
    case True
    then show ?thesis by (auto simp: apot_loop.simps)
  next
    case False
    let ?b = "apot_bits max_bits base end" and ?sz = "shl 1 (apot_bits max_bits base end)"
    note bits = apot_bits_bounds [OF False, of max_bits]
    note sz = apot_step [OF False, of max_bits]
    have dist: "unat (end - base) = unat (end - vb) - unat (base - vb)"
    proof -
      have "end - base = (end - vb) - (base - vb)" by simp
      with less.prems show ?thesis by (simp only: unat_sub)
    qed
    have up: "unat (base + ?sz - vb) = unat (base - vb) + 2 ^ unat ?b"
    proof -
      have "base + ?sz - vb = (base - vb) + ?sz" by simp
      moreover have "unat (base - vb) + unat ?sz < 2 ^ 64"
        using bits(3) dist sz(1) u64_lt [of "end - vb"] less.prems by (simp add: word_le_nat_alt)
      ultimately show ?thesis using sz(1) by (simp only: unat_add_no_overflow len64_eq)
    qed
    have le': "base + ?sz - vb \<le> end - vb"
      using up bits(3) dist less.prems by (simp add: word_le_nat_alt)
    have "unat (end - (base + ?sz)) < unat (end - base)"
      using sz(2) bits(3) by (simp add: nat_sub_power_less)
    from less.hyps [OF this le'] obtain rs where rs:
      "apot_loop cfg max_bits (base + ?sz) end = (Inr rs :: ('e, memory_region list) res)"
      "region_chain (base + ?sz - vb) (end - vb) rs" "\<forall>r \<in> set rs. untyped_region vb max_bits r"
      by blast
    let ?r = "\<lparr>mr_base = base - vb, mr_end = base + ?sz - vb\<rparr>"
    have "untyped_region vb max_bits ?r"
      by (rule untyped_regionI [where n = "unat ?b"]) (use bits sz in \<open>simp_all add: mr_size_def\<close>)
    moreover have "base - vb < base + ?sz - vb" using up by (simp add: word_less_nat_alt)
    ultimately show ?thesis
      using rs False by (simp add: apot_loop.simps [of cfg max_bits base] Let_def
          kernel_vaddr_to_paddr_def vb)
  qed
qed

lemma aligned_power_of_two_regions_partition':
  assumes "virtual_base cfg = (Inr vb :: ('e, u64) res)" "mr_base r \<le> mr_end r"
  shows "\<exists>rs. aligned_power_of_two_regions cfg max_bits r = (Inr rs :: ('e, memory_region list) res)
           \<and> region_chain (mr_base r) (mr_end r) rs
           \<and> (\<forall>p \<in> set rs. untyped_region vb max_bits p)"
  using apot_loop_partition [OF assms(1), of "mr_base r + vb" "mr_end r + vb" max_bits] assms
  by (simp add: aligned_power_of_two_regions_def paddr_to_kernel_vaddr_def)

text \<open>C13: the split of a region into untyped-sized pieces terminates without a panic, and the pieces
  lie end to end from the base of the region to its end, each a power of two of at most
  \<open>max_bits\<close> bits whose kernel virtual address is aligned to its size.\<close>

theorem aligned_power_of_two_regions_partition:
  assumes "virtual_base cfg = (Inr vb :: ('e, u64) res)" "mr_base r \<le> mr_end r"
  shows "\<exists>rs. aligned_power_of_two_regions cfg max_bits r = (Inr rs :: ('e, memory_region list) res)
           \<and> region_chain (mr_base r) (mr_end r) rs
           \<and> (\<forall>p \<in> set rs. untyped_region vb max_bits p)"
  using assms by (rule aligned_power_of_two_regions_partition')

theorem aligned_power_of_two_regions_partition_witness:
  "\<exists>rs. aligned_power_of_two_regions example_riscv_config 38 \<lparr>mr_base = 0x80001000, mr_end = 0x80004000\<rparr>
        = (Inr rs :: (string, memory_region list) res)
     \<and> region_chain 0x80001000 0x80004000 rs
     \<and> (\<forall>p \<in> set rs. untyped_region 0xffffffc000000000 38 p)"
  using aligned_power_of_two_regions_partition [of example_riscv_config "0xffffffc000000000"
      "\<lparr>mr_base = 0x80001000, mr_end = 0x80004000\<rparr>" 38, where ?'e = string]
  by (simp add: virtual_base_def example_riscv_config_def)

section \<open>The invariant of a disjoint set\<close>

text \<open>Sorted, non-empty, non-overlapping regions.  The check at the end of every update is
  exactly this, for non-empty regions.\<close>

definition dmr_inv :: "disjoint_memory_region \<Rightarrow> bool" where
  "dmr_inv d \<longleftrightarrow> (\<forall>r \<in> set (regions d). mr_base r < mr_end r) \<and> sorted_wrt region_before (regions d)"

abbreviation dmr_covered :: "disjoint_memory_region \<Rightarrow> u64 set" where
  "dmr_covered d \<equiv> covered (regions d)"

lemma check_from_iff:
  "\<forall>r \<in> set rs. mr_base r < mr_end r \<Longrightarrow>
     check_from l rs = (Inr u :: ('e, unit) res)
       \<longleftrightarrow> (\<forall>r \<in> set rs. l \<le> mr_base r) \<and> sorted_wrt region_before rs"
proof (induction rs arbitrary: l)
  case (Cons r rs)
  then show ?case by (auto simp: res_simps intro: order.trans less_imp_le)
qed simp

lemma dmr_check_iff:
  "\<forall>r \<in> set (regions d). mr_base r < mr_end r \<Longrightarrow>
     dmr_check d = (Inr u :: ('e, unit) res) \<longleftrightarrow> sorted_wrt region_before (regions d)"
  by (simp add: dmr_check_def check_from_iff)

section \<open>Inserting\<close>

text \<open>Around the insertion point: the regions before it begin below the new end, those after it do
  not.\<close>

lemma insert_split:
  fixes rs "end"
  defines "xs \<equiv> take (insert_index end rs) rs" and "ys \<equiv> drop (insert_index end rs) rs"
  assumes "sorted_wrt region_before rs" "\<forall>r \<in> set rs. mr_base r < mr_end r"
  shows "rs = xs @ ys" "length xs = insert_index end rs"
    "\<forall>x \<in> set xs. mr_base x < end" "\<forall>y \<in> set ys. end \<le> mr_base y"
proof -
  have le: "insert_index end rs \<le> length rs" by (simp add: insert_index_def length_takeWhile_le)
  show sp: "rs = xs @ ys" and "length xs = insert_index end rs" using le by (simp_all add: xs_def ys_def)
  have xs: "xs = takeWhile (\<lambda>r. \<not> end \<le> mr_base r) rs"
    by (simp add: xs_def insert_index_def takeWhile_eq_take [symmetric])
  then show "\<forall>x \<in> set xs. mr_base x < end" by (auto dest: set_takeWhileD)
  have ys: "ys = dropWhile (\<lambda>r. \<not> end \<le> mr_base r) rs"
    by (simp add: ys_def insert_index_def dropWhile_eq_drop)
  show "\<forall>y \<in> set ys. end \<le> mr_base y"
  proof (cases ys)
    case (Cons z zs)
    then have "end \<le> mr_base z" using ys by (metis dropWhile_eq_Cons_conv)
    moreover have "sorted_wrt region_before (z # zs)"
      using assms(3) sp Cons by (simp add: sorted_wrt_append)
    moreover have "mr_base z < mr_end z" using assms(4) sp Cons by simp
    ultimately show ?thesis using Cons by (auto intro: order.trans less_imp_le)
  qed simp
qed

text \<open>What each branch of the insertion does to the list, relative to the insertion point.\<close>

lemma insert_raw_cases:
  assumes inv: "sorted_wrt region_before rs" "\<forall>r \<in> set rs. mr_base r < mr_end r"
    and ne: "rs \<noteq> []" and lt: "base < end"
  obtains (merge_next) xs y ys where "rs = xs @ y # ys" "mr_base y = end"
      "insert_raw base end rs = xs @ y\<lparr>mr_base := base\<rparr> # ys" "\<forall>x \<in> set xs. mr_base x < end"
  | (merge_last) xs x where "rs = xs @ [x]" "mr_end x = base"
      "insert_raw base end rs = xs @ [x\<lparr>mr_end := end\<rparr>]" "\<forall>z \<in> set rs. mr_base z < end"
  | (insert_new) xs ys where "rs = xs @ ys" "insert_raw base end rs = xs @ mk_region base end # ys"
      "\<forall>y \<in> set ys. end \<le> mr_base y" "\<forall>x \<in> set xs. mr_base x < end"
proof -
  let ?i = "insert_index end rs"
  let ?xs = "take ?i rs" and ?ys = "drop ?i rs"
  note sp = insert_split [OF inv, of "end"]
  have i_le: "?i \<le> length rs" by (simp add: insert_index_def length_takeWhile_le)
  consider (a) y ys where "?ys = y # ys" "mr_base y = end"
    | (b) "?ys = []" "mr_end (last rs) = base"
    | (c) "?ys \<noteq> [] \<longrightarrow> mr_base (hd ?ys) \<noteq> end" "?ys = [] \<longrightarrow> mr_end (last rs) \<noteq> base"
    by (cases ?ys) auto
  then show thesis
  proof cases
    case a
    then have i: "?i < length rs" by (metis drop_eq_Nil list.distinct(1) not_le)
    with a have nth: "rs ! ?i = y" by (metis hd_drop_conv_nth list.sel(1))
    have upd: "rs[?i := z] = ?xs @ z # ys" for z
      using a i by (simp add: upd_conv_take_nth_drop) (metis drop_Suc list.sel(3) tl_drop)
    have "insert_raw base end rs = ?xs @ y\<lparr>mr_base := base\<rparr> # ys"
    proof (cases "?i = 0")
      case True
      with a(1) have "rs = y # ys" by simp
      with True a(2) show ?thesis by (simp add: insert_raw_def)
    next
      case False
      with i nth a(2) upd show ?thesis by (simp add: insert_raw_def Let_def)
    qed
    with a sp show thesis by (metis merge_next)
  next
    case b
    then have i: "?i = length rs" using i_le by simp
    with ne have i0: "?i \<noteq> 0" by simp
    have "rs = butlast rs @ [last rs]" using ne by simp
    moreover have "insert_raw base end rs = butlast rs @ [(last rs)\<lparr>mr_end := end\<rparr>]"
      using b i i0 by (simp add: insert_raw_def)
    ultimately show thesis using sp(3) b(2) i merge_last by simp
  next
    case c
    have "insert_raw base end rs = ?xs @ mk_region base end # ?ys"
    proof (cases "?i < length rs")
      case True
      then have d: "?ys \<noteq> []" "rs ! ?i = hd ?ys" by (simp_all add: hd_drop_conv_nth)
      with sp(4) have "end \<le> mr_base (rs ! ?i)" by (metis hd_in_set)
      moreover have "mr_base (rs ! ?i) < mr_end (rs ! ?i)" using True inv(2) by simp
      ultimately have "base \<noteq> mr_end (rs ! ?i)" using lt by auto
      moreover have "?i = 0 \<Longrightarrow> hd rs = rs ! ?i" using ne by (simp add: hd_conv_nth)
      moreover have "mr_base (rs ! ?i) \<noteq> end" using c(1) d by simp
      ultimately show ?thesis using True by (auto simp: insert_raw_def Let_def)
    next
      case False
      with i_le have i: "?i = length rs" by simp
      with c(2) ne show ?thesis by (simp add: insert_raw_def Let_def)
    qed
    with sp show thesis by (metis insert_new)
  qed
qed

lemma sorted_wrt_mid:
  "sorted_wrt R (xs @ y # ys) \<longleftrightarrow>
     sorted_wrt R xs \<and> sorted_wrt R ys \<and> (\<forall>x \<in> set xs. \<forall>z \<in> set ys. R x z)
       \<and> (\<forall>x \<in> set xs. R x y) \<and> (\<forall>z \<in> set ys. R y z)"
  by (auto simp: sorted_wrt_append)

lemma region_disjoint_iff:
  assumes "mr_base x < mr_end x" "base < end" "mr_base x < end"
  shows "{mr_base x..<mr_end x} \<inter> {base..<end} = {} \<longleftrightarrow> mr_end x \<le> base"
proof
  assume "{mr_base x..<mr_end x} \<inter> {base..<end} = {}"
  moreover have "\<not> mr_end x \<le> base \<Longrightarrow> max (mr_base x) base \<in> {mr_base x..<mr_end x} \<inter> {base..<end}"
    using assms by (auto simp: max_def)
  ultimately show "mr_end x \<le> base" by blast
qed (use assms in auto)

lemma covered_disjoint_iff: "covered rs \<inter> A = {} \<longleftrightarrow> (\<forall>r \<in> set rs. {mr_base r..<mr_end r} \<inter> A = {})"
  by (auto simp: covered_def)

lemma insert_raw_wf:
  assumes "sorted_wrt region_before rs" "\<forall>r \<in> set rs. mr_base r < mr_end r" "rs \<noteq> []" "base < end"
  shows "\<forall>r \<in> set (insert_raw base end rs). mr_base r < mr_end r"
  using assms
proof (cases rule: insert_raw_cases)
  case (merge_next xs y ys)
  then show ?thesis using assms(2,4) by (auto intro: less_trans)
next
  case (merge_last xs x)
  then show ?thesis using assms(2,4) by (auto intro: less_trans)
next
  case (insert_new xs ys)
  then show ?thesis using assms(2,4) by auto
qed

lemma insert_raw_sorted_iff:
  assumes "sorted_wrt region_before rs" "\<forall>r \<in> set rs. mr_base r < mr_end r" "rs \<noteq> []" "base < end"
  shows "sorted_wrt region_before (insert_raw base end rs) \<longleftrightarrow> covered rs \<inter> {base..<end} = {}"
  using assms
proof (cases rule: insert_raw_cases)
  case (merge_next xs y ys)
  have "covered (y # ys) \<inter> {base..<end} = {}"
  proof -
    have "\<forall>r \<in> set (y # ys). end \<le> mr_base r"
      using assms(1,2) merge_next by (auto simp: sorted_wrt_mid intro: order.trans less_imp_le)
    then show ?thesis by (fastforce simp: covered_def)
  qed
  then have "covered rs \<inter> {base..<end} = {} \<longleftrightarrow> (\<forall>x \<in> set xs. mr_end x \<le> base)"
    using merge_next assms(2,4) region_disjoint_iff
    by (simp add: Int_Un_distrib2 covered_disjoint_iff not_less)
  moreover have "sorted_wrt region_before (insert_raw base end rs) \<longleftrightarrow> (\<forall>x \<in> set xs. mr_end x \<le> base)"
    using assms(1) merge_next by (auto simp: sorted_wrt_mid)
  ultimately show ?thesis by simp
next
  case (merge_last xs x)
  then have "\<forall>r \<in> set rs. mr_end r \<le> base"
    using assms(1,2) by (auto simp: sorted_wrt_append intro: order.trans less_imp_le)
  then have "covered rs \<inter> {base..<end} = {}" by (fastforce simp: covered_def)
  moreover have "sorted_wrt region_before (insert_raw base end rs)"
    using assms(1) merge_last by (simp add: sorted_wrt_append)
  ultimately show ?thesis by simp
next
  case (insert_new xs ys)
  have "covered ys \<inter> {base..<end} = {}"
    using insert_new(3) by (fastforce simp: covered_def)
  then have "covered rs \<inter> {base..<end} = {} \<longleftrightarrow> (\<forall>x \<in> set xs. mr_end x \<le> base)"
    using insert_new assms(2,4) region_disjoint_iff
    by (simp add: Int_Un_distrib2 covered_disjoint_iff not_less)
  moreover have "sorted_wrt region_before (insert_raw base end rs) \<longleftrightarrow> (\<forall>x \<in> set xs. mr_end x \<le> base)"
    using assms(1) insert_new by (auto simp: sorted_wrt_mid sorted_wrt_append)
  ultimately show ?thesis by simp
qed

lemma insert_raw_covered:
  assumes "sorted_wrt region_before rs" "\<forall>r \<in> set rs. mr_base r < mr_end r" "rs \<noteq> []" "base < end"
  shows "covered (insert_raw base end rs) = covered rs \<union> {base..<end}"
  using assms
proof (cases rule: insert_raw_cases)
  case (merge_next xs y ys)
  then have "{base..<mr_end y} = {base..<end} \<union> {mr_base y..<mr_end y}"
    using assms(2,4) by (auto simp: less_imp_le ivl_disj_un_two(3))
  with merge_next show ?thesis by auto
next
  case (merge_last xs x)
  then have "{mr_base x..<end} = {mr_base x..<mr_end x} \<union> {base..<end}"
    using assms(2,4) by (auto simp: less_imp_le ivl_disj_un_two(3))
  with merge_last show ?thesis by auto
next
  case (insert_new xs ys)
  then show ?thesis by auto
qed

lemma insert_region_raw:
  assumes "dmr_inv d"
  shows "insert_region base end d = (Inr d' :: ('e, disjoint_memory_region) res) \<longleftrightarrow>
     base < end \<and> dmr_covered d \<inter> {base..<end} = {}
       \<and> d' = (if regions d = [] then d\<lparr>regions := [mk_region base end]\<rparr>
               else d\<lparr>regions := insert_raw base end (regions d)\<rparr>)"
proof (cases "base < end \<and> regions d \<noteq> []")
  case True
  let ?d = "d\<lparr>regions := insert_raw base end (regions d)\<rparr>"
  from assms True have inv: "sorted_wrt region_before (regions d)"
    "\<forall>r \<in> set (regions d). mr_base r < mr_end r" "regions d \<noteq> []" "base < end"
    by (simp_all add: dmr_inv_def)
  have "dmr_check ?d = (Inr () :: ('e, unit) res) \<longleftrightarrow> dmr_covered d \<inter> {base..<end} = {}"
    using insert_raw_wf [OF inv] insert_raw_sorted_iff [OF inv] by (simp add: dmr_check_iff)
  with True show ?thesis by (auto simp: insert_region_def Let_def res_simps)
next
  case False
  then show ?thesis by (auto simp: insert_region_def res_simps)
qed

lemma insert_region_ok:
  assumes "dmr_inv d" "insert_region base end d = (Inr d' :: ('e, disjoint_memory_region) res)"
  shows "dmr_inv d'" "dmr_covered d' = dmr_covered d \<union> {base..<end}"
    "base < end" "dmr_covered d \<inter> {base..<end} = {}"
proof -
  from assms(2) have r: "base < end" "dmr_covered d \<inter> {base..<end} = {}"
    "d' = (if regions d = [] then d\<lparr>regions := [mk_region base end]\<rparr>
           else d\<lparr>regions := insert_raw base end (regions d)\<rparr>)"
    by (simp_all add: insert_region_raw [OF assms(1)])
  show "base < end" "dmr_covered d \<inter> {base..<end} = {}" by fact+
  have "dmr_inv d' \<and> dmr_covered d' = dmr_covered d \<union> {base..<end}"
  proof (cases "regions d = []")
    case True
    with r show ?thesis by (simp add: dmr_inv_def)
  next
    case False
    from assms(1) have inv: "sorted_wrt region_before (regions d)"
      "\<forall>r \<in> set (regions d). mr_base r < mr_end r" by (simp_all add: dmr_inv_def)
    note inv' = inv False r(1)
    show ?thesis
      using False r insert_raw_wf [OF inv'] insert_raw_sorted_iff [OF inv'] insert_raw_covered [OF inv']
      by (simp add: dmr_inv_def)
  qed
  then show "dmr_inv d'" "dmr_covered d' = dmr_covered d \<union> {base..<end}" by simp_all
qed

lemma dmr_check_cases:
  "dmr_check d = (Inr () :: ('e, unit) res) \<or> dmr_check d = (Inl (Panic AssertFailed) :: ('e, unit) res)"
proof -
  have "check_from l rs = (Inr () :: ('e, unit) res) \<or> check_from l rs = (Inl (Panic AssertFailed) :: ('e, unit) res)" for l rs
    by (induction l rs rule: check_from.induct) (auto simp: assertr_def)
  then show ?thesis by (simp add: dmr_check_def)
qed

lemma insert_region_cases:
  "(\<exists>d'. insert_region base end d = (Inr d' :: ('e, disjoint_memory_region) res))
     \<or> insert_region base end d = (Inl (Panic AssertFailed) :: ('e, disjoint_memory_region) res)"
  using dmr_check_cases [of "d\<lparr>regions := insert_raw base end (regions d)\<rparr>", where ?'e = 'e]
  by (auto simp: insert_region_def Let_def assertr_def)

text \<open>C4: inserting a region into a well-formed set.  When the region is not empty and overlaps nothing already
  covered, a set is returned that is again sorted and disjoint and covers the old addresses and the new ones,
  whichever neighbours were merged; in every other case the assertion fails, so that no set that overlaps itself
  ever comes back.\<close>

theorem insert_region_spec:
  assumes "dmr_inv d"
  shows "if base < end \<and> dmr_covered d \<inter> {base..<end} = {}
         then \<exists>d'. insert_region base end d = (Inr d' :: ('e, disjoint_memory_region) res)
              \<and> dmr_inv d' \<and> dmr_covered d' = dmr_covered d \<union> {base..<end}
         else insert_region base end d = (Inl (Panic AssertFailed) :: ('e, disjoint_memory_region) res)"
proof (cases "base < end \<and> dmr_covered d \<inter> {base..<end} = {}")
  case True
  then obtain d' where "insert_region base end d = (Inr d' :: ('e, disjoint_memory_region) res)"
    using insert_region_raw [OF assms] by blast
  with True insert_region_ok(1,2) [OF assms this] show ?thesis by simp
next
  case False
  with insert_region_raw [OF assms] insert_region_cases [of base "end" d, where ?'e = 'e] show ?thesis by auto
qed

theorem insert_region_spec_witness:
  "(\<exists>d'. insert_region 10 20 \<lparr>regions = [mk_region 0 5, mk_region 20 30]\<rparr>
       = (Inr d' :: (string, disjoint_memory_region) res)
     \<and> dmr_inv d' \<and> dmr_covered d' = dmr_covered \<lparr>regions = [mk_region 0 5, mk_region 20 30]\<rparr> \<union> {10..<20})
   \<and> insert_region 3 8 \<lparr>regions = [mk_region 0 5, mk_region 20 30]\<rparr>
       = (Inl (Panic AssertFailed) :: (string, disjoint_memory_region) res)"
proof -
  let ?d = "\<lparr>regions = [mk_region 0 5, mk_region 20 30]\<rparr>"
  have inv: "dmr_inv ?d" by (simp add: dmr_inv_def)
  have "dmr_covered ?d \<inter> {10..<20} = {}" by (auto simp: word_less_nat_alt word_le_nat_alt)
  moreover have "3 \<in> dmr_covered ?d \<inter> {3..<8}" by simp
  then have "dmr_covered ?d \<inter> {3..<8} \<noteq> {}" by blast
  ultimately show ?thesis
    using insert_region_spec [OF inv, of 10 20, where ?'e = string] insert_region_spec [OF inv, of 3 8, where ?'e = string]
    by simp
qed

section \<open>Removing\<close>

lemma takeWhile_first:
  assumes "\<exists>r \<in> set rs. P r"
  defines "i \<equiv> length (takeWhile (\<lambda>r. \<not> P r) rs)"
  shows "i < length rs" "P (rs ! i)" "rs = take i rs @ rs ! i # drop (Suc i) rs"
proof -
  show i: "i < length rs" using assms takeWhile_eq_take_find by blast
  then show "P (rs ! i)" using nth_length_takeWhile unfolding i_def by blast
  from i show "rs = take i rs @ rs ! i # drop (Suc i) rs" by (rule id_take_nth_drop)
qed

lemma remove_raw_split:
  assumes "rs = xs @ r # ys" "i = length xs"
  shows "remove_raw base end i rs =
     xs @ (if mr_base r = base \<and> mr_end r = end then []
           else if mr_base r = base then [mk_region end (mr_end r)]
           else if mr_end r = end then [mk_region (mr_base r) base]
           else [mk_region (mr_base r) base, mk_region end (mr_end r)]) @ ys"
  using assms by (simp add: remove_raw_def Let_def)

lemma covered_outside:
  assumes "sorted_wrt region_before (xs @ r # ys)" "\<forall>z \<in> set (xs @ ys). mr_base z < mr_end z"
    "mr_base r \<le> base" "end \<le> mr_end r"
  shows "(covered xs \<union> covered ys) \<inter> {base..<end} = {}"
proof -
  have "x \<notin> {base..<end}" if z: "z \<in> set xs \<union> set ys" "x \<in> {mr_base z..<mr_end z}" for z x
  proof -
    from assms(1) z(1) have "mr_end z \<le> mr_base r \<or> mr_end r \<le> mr_base z"
      by (auto simp: sorted_wrt_mid)
    with z(2) assms(3,4) show ?thesis by auto
  qed
  then show ?thesis by (fastforce simp: covered_def)
qed

lemma sorted_replace:
  assumes "sorted_wrt region_before (xs @ r # ys)" "sorted_wrt region_before m"
    "\<And>z. z \<in> set m \<Longrightarrow> mr_base r \<le> mr_base z \<and> mr_end z \<le> mr_end r"
  shows "sorted_wrt region_before (xs @ m @ ys)"
  using assms by (auto simp: sorted_wrt_append intro: order.trans)

lemma remove_region_eq:
  assumes inv: "dmr_inv d" and le: "base \<le> end" and ex: "\<exists>r \<in> set (regions d). region_contains base end r"
  shows "\<exists>d'. remove_region base end d = (Inr d' :: ('e, disjoint_memory_region) res)
           \<and> dmr_inv d' \<and> dmr_covered d' = dmr_covered d - {base..<end}"
proof -
  let ?rs = "regions d"
  let ?i = "length (takeWhile (\<lambda>r. \<not> region_contains base end r) ?rs)"
  let ?xs = "take ?i ?rs" and ?r = "?rs ! ?i" and ?ys = "drop (Suc ?i) ?rs"
  note f = takeWhile_first [OF ex]
  let ?m = "if mr_base ?r = base \<and> mr_end ?r = end then []
           else if mr_base ?r = base then [mk_region end (mr_end ?r)]
           else if mr_end ?r = end then [mk_region (mr_base ?r) base]
           else [mk_region (mr_base ?r) base, mk_region end (mr_end ?r)]"
  let ?d = "d\<lparr>regions := remove_raw base end ?i ?rs\<rparr>"
  have new: "regions ?d = ?xs @ ?m @ ?ys"
    using remove_raw_split [OF f(3), of ?i base "end"] f(1) by simp
  from inv f(3) have srt: "sorted_wrt region_before (?xs @ ?r # ?ys)"
    and wf: "\<forall>z \<in> set (?xs @ ?r # ?ys). mr_base z < mr_end z"
    unfolding dmr_inv_def by metis+
  from f(2) have c: "mr_base ?r \<le> base" "end \<le> mr_end ?r" by (simp_all add: region_contains_def)
  have m_wf: "\<forall>z \<in> set ?m. mr_base ?r \<le> mr_base z \<and> mr_base z < mr_end z \<and> mr_end z \<le> mr_end ?r"
    using c le wf by auto
  have m_srt: "sorted_wrt region_before ?m" using le by simp
  have m_cov: "covered ?m = {mr_base ?r..<mr_end ?r} - {base..<end}"
    using c le by auto
  have inv': "dmr_inv ?d"
  proof -
    have "\<forall>z \<in> set (regions ?d). mr_base z < mr_end z" using m_wf wf unfolding new by auto
    moreover have "sorted_wrt region_before (regions ?d)"
      unfolding new by (rule sorted_replace [OF srt m_srt]) (use m_wf in blast)
    ultimately show ?thesis by (simp add: dmr_inv_def)
  qed
  have "covered (regions ?d) = covered ?rs - {base..<end}"
  proof -
    have "(covered ?xs \<union> covered ?ys) \<inter> {base..<end} = {}"
      by (rule covered_outside [OF srt]) (use wf c in auto)
    moreover have "covered ?rs = covered (?xs @ ?r # ?ys)" using f(3) by simp
    ultimately show ?thesis using m_cov unfolding new by auto
  qed
  moreover have "remove_region base end d = (Inr ?d :: ('e, disjoint_memory_region) res)"
    using f(1) inv' by (simp add: remove_region_def Let_def dmr_check_iff dmr_inv_def res_simps)
  ultimately show ?thesis using inv' by blast
qed

lemma remove_region_contained:
  "remove_region base end d = (Inr d' :: ('e, disjoint_memory_region) res)
     \<Longrightarrow> \<exists>r \<in> set (regions d). region_contains base end r"
  using takeWhile_eq_take_find [of "region_contains base end" "regions d"]
    length_takeWhile_le [of "\<lambda>r. \<not> region_contains base end r" "regions d"]
  by (auto simp: remove_region_def Let_def split: if_splits)

lemma remove_region_ok:
  assumes "dmr_inv d" "base \<le> end" "remove_region base end d = (Inr d' :: ('e, disjoint_memory_region) res)"
  shows "dmr_inv d'" "dmr_covered d' = dmr_covered d - {base..<end}"
    "{base..<end} \<subseteq> dmr_covered d"
proof -
  from assms(3) have c: "\<exists>r \<in> set (regions d). region_contains base end r"
    by (rule remove_region_contained)
  from remove_region_eq [OF assms(1,2) c, where ?'e = 'e] assms(3)
  show "dmr_inv d'" "dmr_covered d' = dmr_covered d - {base..<end}" by auto
  from c show "{base..<end} \<subseteq> dmr_covered d" by (force simp: covered_def region_contains_def)
qed

text \<open>C5: removing a region from a well-formed set.  When one region of the set contains it, a set is returned that is
  well formed and covers the old addresses less the removed ones, whether the region was dropped, trimmed at either
  side, or split in two; in every other case the tool panics with its internal error.\<close>

theorem remove_region_spec:
  assumes "dmr_inv d" "base \<le> end"
  shows "if \<exists>r \<in> set (regions d). mr_base r \<le> base \<and> end \<le> mr_end r
         then \<exists>d'. remove_region base end d = (Inr d' :: ('e, disjoint_memory_region) res)
              \<and> dmr_inv d' \<and> dmr_covered d' = dmr_covered d - {base..<end}
         else remove_region base end d = (Inl (Panic ExplicitPanic) :: ('e, disjoint_memory_region) res)"
proof (cases "\<exists>r \<in> set (regions d). region_contains base end r")
  case True
  from remove_region_eq [OF assms this, where ?'e = 'e] True show ?thesis by (simp add: region_contains_def)
next
  case False
  then have all: "takeWhile (\<lambda>r. \<not> region_contains base end r) (regions d) = regions d"
    by (simp add: takeWhile_eq_all_conv)
  have "remove_region base end d = (Inl (Panic ExplicitPanic) :: ('e, disjoint_memory_region) res)"
    unfolding remove_region_def all by (simp add: Let_def)
  with False show ?thesis by (auto simp: region_contains_def)
qed

theorem remove_region_spec_witness:
  "(\<exists>d'. remove_region 12 15 \<lparr>regions = [mk_region 0 5, mk_region 10 20]\<rparr>
       = (Inr d' :: (string, disjoint_memory_region) res)
     \<and> dmr_inv d' \<and> dmr_covered d' = dmr_covered \<lparr>regions = [mk_region 0 5, mk_region 10 20]\<rparr> - {12..<15})
   \<and> remove_region 8 15 \<lparr>regions = [mk_region 0 5, mk_region 10 20]\<rparr>
       = (Inl (Panic ExplicitPanic) :: (string, disjoint_memory_region) res)"
proof -
  let ?d = "\<lparr>regions = [mk_region 0 5, mk_region 10 20]\<rparr>"
  have inv: "dmr_inv ?d" by (simp add: dmr_inv_def)
  have "(12 :: u64) \<le> 15" "(8 :: u64) \<le> 15" by simp_all
  from remove_region_spec [OF inv this(1), where ?'e = string] remove_region_spec [OF inv this(2), where ?'e = string]
  show ?thesis by simp
qed

section \<open>Allocating\<close>

lemma next_multiple_of_least:
  assumes "y \<noteq> 0" "unat x + unat y \<le> 2 ^ 64"
  shows "\<exists>b. next_multiple_of x y = (Inr b :: ('e, u64) res) \<and> x \<le> b \<and> unat y dvd unat b
           \<and> unat b < unat x + unat y
           \<and> (\<forall>c. x \<le> c \<longrightarrow> unat y dvd unat c \<longrightarrow> b \<le> c)"
proof (cases "x mod y = 0")
  case True
  then have "unat y dvd unat x" using is_multiple_of_dvd [of x y] assms(1) by (simp add: is_multiple_of_def)
  with True assms(1) show ?thesis by (simp add: next_multiple_of_def unat_gt_0)
next
  case False
  let ?m = "unat x mod unat y"
  have pos: "0 < unat y" using assms(1) by (simp add: unat_gt_0)
  have m: "unat (x mod y) = ?m" by (simp add: unat_mod)
  from False m have m0: "0 < ?m" by (metis neq0_conv unat_eq_0)
  have mlt: "?m < unat y" using pos by simp
  have "x mod y \<le> y" using mlt m by (simp add: word_le_nat_alt)
  then have "unat (y - x mod y) = unat y - ?m" by (simp add: unat_sub m)
  moreover have "unat x + (unat y - ?m) < 2 ^ 64" using assms(2) m0 mlt by linarith
  ultimately have u: "unat (x + (y - x mod y)) = unat x + (unat y - ?m)"
    by (simp only: unat_add_no_overflow len64_eq)
  have xm: "unat x - ?m = unat x div unat y * unat y" by (rule minus_mod_eq_div_mult)
  have "unat x + (unat y - ?m) = (unat x - ?m) + unat y"
    using mlt by simp
  also have "\<dots> = (unat x div unat y + 1) * unat y" unfolding xm by simp
  finally have k: "unat x + (unat y - ?m) = (unat x div unat y + 1) * unat y" .
  have least: "unat (x + (y - x mod y)) \<le> unat c" if "x \<le> c" "unat y dvd unat c" for c
  proof -
    from that(2) obtain j where j: "unat c = unat y * j" by (auto simp: dvd_def)
    with that(1) have "unat x \<le> unat y * j" by (simp add: word_le_nat_alt)
    have "unat x div unat y * unat y < unat x"
      using xm m0 mod_less_eq_dividend [of "unat x" "unat y"] by linarith
    moreover from \<open>unat x \<le> unat y * j\<close> have "unat x \<le> j * unat y" by (simp only: mult.commute)
    ultimately have "unat x div unat y * unat y < j * unat y" by (rule less_le_trans)
    then have "unat x div unat y < j" by simp
    then have "unat x div unat y + 1 \<le> j" by simp
    then have "(unat x div unat y + 1) * unat y \<le> j * unat y" by (rule mult_le_mono1)
    then show ?thesis using u k j by (simp add: mult.commute)
  qed
  show ?thesis
    using False assms(1) u k mlt m0 least
    by (auto simp: next_multiple_of_def Let_def word_le_nat_alt)
qed

text \<open>A block of \<open>sz\<close> bytes at an aligned address \<open>b\<close> that lies inside a region.\<close>

definition block_fits :: "u64 \<Rightarrow> u64 \<Rightarrow> memory_region \<Rightarrow> u64 \<Rightarrow> bool" where
  "block_fits sz align r b \<longleftrightarrow>
     mr_base r \<le> b \<and> unat align dvd unat b \<and> unat b + unat sz \<le> unat (mr_end r)"

lemma fit_test:
  assumes "mr_base r < mr_end r" "align \<noteq> 0" "unat (mr_end r) + unat align \<le> 2 ^ 64"
  obtains b where "next_multiple_of (mr_base r) align = (Inr b :: ('e, u64) res)"
    "sz \<le> mr_size r \<and> b + sz \<le> mr_end r \<longleftrightarrow> block_fits sz align r b"
    "\<And>c. block_fits sz align r c \<Longrightarrow> block_fits sz align r b \<and> b \<le> c"
proof -
  from assms(1) have lt: "unat (mr_base r) < unat (mr_end r)" by (simp add: word_less_nat_alt)
  then have "unat (mr_base r) + unat align \<le> 2 ^ 64" using assms(3) by linarith
  from next_multiple_of_least [OF assms(2) this, where ?'e = 'e] obtain b where
    b: "next_multiple_of (mr_base r) align = (Inr b :: ('e, u64) res)" "mr_base r \<le> b"
      "unat align dvd unat b" "unat b < unat (mr_base r) + unat align"
      and least: "\<And>c. mr_base r \<le> c \<Longrightarrow> unat align dvd unat c \<Longrightarrow> b \<le> c"
    by blast
  have sz: "unat (mr_size r) = unat (mr_end r) - unat (mr_base r)"
    unfolding mr_size_def by (rule unat_sub) (use assms(1) in simp)
  have eq: "sz \<le> mr_size r \<and> b + sz \<le> mr_end r \<longleftrightarrow> block_fits sz align r b"
  proof
    assume a: "sz \<le> mr_size r \<and> b + sz \<le> mr_end r"
    then have "unat sz \<le> unat (mr_end r) - unat (mr_base r)" using sz by (simp add: word_le_nat_alt)
    then have "unat b + unat sz < 2 ^ 64" using lt b(4) assms(3) by linarith
    then have "unat (b + sz) = unat b + unat sz" by (simp only: unat_add_no_overflow len64_eq)
    with a b show "block_fits sz align r b" by (simp add: block_fits_def word_le_nat_alt)
  next
    assume a: "block_fits sz align r b"
    then have "unat b + unat sz < 2 ^ 64" using u64_lt [of "mr_end r"] by (simp add: block_fits_def)
    then have "unat (b + sz) = unat b + unat sz" by (simp only: unat_add_no_overflow len64_eq)
    with a b(2) sz show "sz \<le> mr_size r \<and> b + sz \<le> mr_end r"
      by (auto simp: block_fits_def word_le_nat_alt)
  qed
  have "block_fits sz align r b \<and> b \<le> c" if "block_fits sz align r c" for c
    using that least [of c] b(2,3) by (auto simp: block_fits_def word_le_nat_alt)
  with b(1) eq show thesis by (rule that)
qed

lemma find_alloc_eq:
  assumes "\<forall>r \<in> set rs. mr_base r < mr_end r \<and> unat (mr_end r) + unat align \<le> 2 ^ 64" "align \<noteq> 0"
  shows "find_alloc sz align rs
    = (Inr (find (\<lambda>r. \<exists>b. block_fits sz align r b) rs) :: ('e, memory_region option) res)"
  using assms(1)
proof (induction rs)
  case (Cons r rs)
  from Cons.prems have r: "mr_base r < mr_end r" "unat (mr_end r) + unat align \<le> 2 ^ 64" by simp_all
  obtain b where b: "next_multiple_of (mr_base r) align = (Inr b :: ('e, u64) res)"
    "sz \<le> mr_size r \<and> b + sz \<le> mr_end r \<longleftrightarrow> block_fits sz align r b"
    "\<And>c. block_fits sz align r c \<Longrightarrow> block_fits sz align r b \<and> b \<le> c"
    using fit_test [OF r(1) assms(2) r(2), of sz thesis, where ?'e = 'e] by blast
  then have "(\<exists>c. block_fits sz align r c) \<longleftrightarrow> sz \<le> mr_size r \<and> b + sz \<le> mr_end r" by blast
  with b(1) Cons show ?case by simp
qed simp

lemma find_first:
  "find P rs = Some r \<Longrightarrow> \<exists>xs ys. rs = xs @ r # ys \<and> P r \<and> (\<forall>x \<in> set xs. \<not> P x)"
proof (induction rs)
  case (Cons x rs)
  show ?case
  proof (cases "P x")
    case True
    with Cons.prems show ?thesis by (intro exI [of _ "[]"] exI [of _ rs]) auto
  next
    case False
    with Cons obtain xs ys where "rs = xs @ r # ys" "P r" "\<forall>x \<in> set xs. \<not> P x" by auto
    with False show ?thesis by (intro exI [of _ "x # xs"] exI [of _ ys]) auto
  qed
qed simp

lemma dmr_allocate_some:
  assumes inv: "dmr_inv d"
    and top: "\<forall>r \<in> set (regions d). unat (mr_end r) + unat (page_size_u64 pg) \<le> 2 ^ 64"
    and found: "find (\<lambda>r. \<exists>b. block_fits sz (page_size_u64 pg) r b) (regions d) = Some r"
  shows "\<exists>b d'. dmr_allocate sz pg d = (Inr (Some b, d') :: ('e, u64 option \<times> disjoint_memory_region) res)
     \<and> dmr_inv d' \<and> dmr_covered d' = dmr_covered d - {b..<b + sz}
     \<and> block_fits sz (page_size_u64 pg) r b
     \<and> (\<forall>s c. s \<in> set (regions d) \<and> block_fits sz (page_size_u64 pg) s c \<longrightarrow> b \<le> c)"
proof -
  let ?al = "page_size_u64 pg"
  from find_first [OF found] obtain xs ys where sp: "regions d = xs @ r # ys"
    "\<exists>b. block_fits sz ?al r b" "\<forall>x \<in> set xs. \<not> (\<exists>b. block_fits sz ?al x b)" by blast
  have wf: "\<forall>r \<in> set (regions d). mr_base r < mr_end r" using inv by (simp add: dmr_inv_def)
  have r: "r \<in> set (regions d)" "mr_base r < mr_end r" "unat (mr_end r) + unat ?al \<le> 2 ^ 64"
    using sp wf top by auto
  obtain b where b: "next_multiple_of (mr_base r) ?al = (Inr b :: ('e, u64) res)"
    "\<And>c. block_fits sz ?al r c \<Longrightarrow> block_fits sz ?al r b \<and> b \<le> c"
    using fit_test [OF r(2) page_size_u64_pos r(3), of sz thesis, where ?'e = 'e] by blast
  with sp(2) have fit: "block_fits sz ?al r b" by blast
  have "unat b + unat sz < 2 ^ 64" using fit u64_lt [of "mr_end r"] by (simp add: block_fits_def)
  then have u: "unat (b + sz) = unat b + unat sz" by (simp only: unat_add_no_overflow len64_eq)
  have "region_contains b (b + sz) r" "b \<le> b + sz"
    using fit u by (simp_all add: region_contains_def block_fits_def word_le_nat_alt)
  with remove_region_eq [OF inv, of b "b + sz", where ?'e = 'e] r(1) obtain d' where
    d': "remove_region b (b + sz) d = (Inr d' :: ('e, disjoint_memory_region) res)"
      "dmr_inv d'" "dmr_covered d' = dmr_covered d - {b..<b + sz}" by blast
  have "b \<le> c" if s: "s \<in> set (regions d)" "block_fits sz ?al s c" for s c
  proof -
    from s sp(1,3) consider "s = r" | "s \<in> set ys" by auto
    then show ?thesis
    proof cases
      case 2
      then have "mr_end r \<le> mr_base s" using inv sp(1) by (auto simp: dmr_inv_def sorted_wrt_mid)
      then show ?thesis using s(2) fit by (auto simp: block_fits_def word_le_nat_alt)
    qed (use b(2) s(2) in auto)
  qed
  moreover have "dmr_allocate sz pg d = (Inr (Some b, d') :: ('e, u64 option \<times> disjoint_memory_region) res)"
    using find_alloc_eq [of "regions d" ?al sz, where ?'e = 'e] wf top found b(1) d'(1)
    by (simp add: dmr_allocate_def)
  ultimately show ?thesis using d' fit by blast
qed

text \<open>C6: allocation is first fit: when no region reaches into the last page of the address space,
  the allocator returns the lowest aligned address at which the block fits inside one region, and
  takes exactly that block out of the set, keeping it well formed; it returns \<open>None\<close>, leaving the
  set alone, only when no aligned block of that size fits in any region.\<close>

theorem dmr_allocate_first_fit:
  assumes "dmr_inv d"
    and "\<forall>r \<in> set (regions d). unat (mr_end r) + unat (page_size_u64 pg) \<le> 2 ^ 64"
  shows "(\<exists>b d' r. dmr_allocate sz pg d
              = (Inr (Some b, d') :: ('e, u64 option \<times> disjoint_memory_region) res)
            \<and> dmr_inv d' \<and> dmr_covered d' = dmr_covered d - {b..<b + sz}
            \<and> r \<in> set (regions d) \<and> block_fits sz (page_size_u64 pg) r b
            \<and> (\<forall>s c. s \<in> set (regions d) \<and> block_fits sz (page_size_u64 pg) s c \<longrightarrow> b \<le> c))
         \<or> (dmr_allocate sz pg d = (Inr (None, d) :: ('e, u64 option \<times> disjoint_memory_region) res)
            \<and> (\<forall>s c. s \<in> set (regions d) \<longrightarrow> \<not> block_fits sz (page_size_u64 pg) s c))"
proof (cases "find (\<lambda>r. \<exists>b. block_fits sz (page_size_u64 pg) r b) (regions d)")
  case None
  then have "dmr_allocate sz pg d = (Inr (None, d) :: ('e, u64 option \<times> disjoint_memory_region) res)"
    using find_alloc_eq [of "regions d" "page_size_u64 pg" sz, where ?'e = 'e] assms
    by (simp add: dmr_allocate_def dmr_inv_def)
  with None show ?thesis by (auto simp: find_None_iff)
next
  case (Some r)
  then have "r \<in> set (regions d)" by (auto dest: find_first)
  with dmr_allocate_some [OF assms Some, where ?'e = 'e] show ?thesis by blast
qed

theorem dmr_allocate_first_fit_witness:
  "\<exists>b d' r. dmr_allocate 0x1000 SmallPg \<lparr>regions = [mk_region 0x1800 0x3000]\<rparr>
        = (Inr (Some b, d') :: (string, u64 option \<times> disjoint_memory_region) res)
      \<and> dmr_inv d' \<and> dmr_covered d' = dmr_covered \<lparr>regions = [mk_region 0x1800 0x3000]\<rparr> - {b..<b + 0x1000}
      \<and> r \<in> set (regions \<lparr>regions = [mk_region 0x1800 0x3000]\<rparr>)
      \<and> block_fits 0x1000 (page_size_u64 SmallPg) r b"
proof -
  let ?d = "\<lparr>regions = [mk_region 0x1800 0x3000]\<rparr>"
  have "block_fits 0x1000 (page_size_u64 SmallPg) (mk_region 0x1800 0x3000) 0x2000"
    by (simp add: block_fits_def)
  moreover have "dmr_inv ?d" by (simp add: dmr_inv_def)
  moreover have "\<forall>r \<in> set (regions ?d). unat (mr_end r) + unat (page_size_u64 SmallPg) \<le> 2 ^ 64"
    by simp
  ultimately show ?thesis
    using dmr_allocate_first_fit [of ?d SmallPg "0x1000", where ?'e = string]
    by (metis list.set_intros(1) disjoint_memory_region.select_convs(1))
qed

lemma find_from_split:
  assumes "dmr_inv d" "find (\<lambda>r. sz \<le> mr_size r \<and> mr_base r \<ge> lower_bound) (regions d) = Some r"
  shows "r \<in> set (regions d)" "mr_base r \<le> mr_base r + sz" "region_contains (mr_base r) (mr_base r + sz) r"
    "lower_bound \<le> mr_base r"
proof -
  from find_first [OF assms(2)] obtain xs ys where sp: "regions d = xs @ r # ys"
    "sz \<le> mr_size r" "lower_bound \<le> mr_base r" by blast
  then show "r \<in> set (regions d)" "lower_bound \<le> mr_base r" by simp_all
  with assms(1) have lt: "mr_base r < mr_end r" by (simp add: dmr_inv_def)
  then have "unat (mr_size r) = unat (mr_end r) - unat (mr_base r)"
    unfolding mr_size_def by (intro unat_sub) simp
  with sp(2) lt have "unat (mr_base r) + unat sz \<le> unat (mr_end r)"
    by (simp add: word_le_nat_alt word_less_nat_alt)
  moreover from this have "unat (mr_base r + sz) = unat (mr_base r) + unat sz"
    using u64_lt [of "mr_end r"] by (intro unat_add_no_overflow) simp
  ultimately show "mr_base r \<le> mr_base r + sz" "region_contains (mr_base r) (mr_base r + sz) r"
    by (simp_all add: region_contains_def word_le_nat_alt)
qed

text \<open>Allocation above a bound never panics on a well-formed set; a block it returns starts a
  region at or above the bound and is taken out of the set exactly, and \<open>None\<close> means that no
  region above the bound is large enough.\<close>

theorem dmr_allocate_from_spec:
  assumes "dmr_inv d"
  shows "(\<exists>b d'. dmr_allocate_from sz lower_bound d
              = (Inr (Some b, d') :: ('e, u64 option \<times> disjoint_memory_region) res)
            \<and> dmr_inv d' \<and> dmr_covered d' = dmr_covered d - {b..<b + sz}
            \<and> {b..<b + sz} \<subseteq> dmr_covered d \<and> lower_bound \<le> b \<and> (\<exists>r \<in> set (regions d). mr_base r = b))
         \<or> (dmr_allocate_from sz lower_bound d
              = (Inr (None, d) :: ('e, u64 option \<times> disjoint_memory_region) res)
            \<and> \<not> (\<exists>r \<in> set (regions d). lower_bound \<le> mr_base r \<and> sz \<le> mr_size r))"
proof (cases "find (\<lambda>r. sz \<le> mr_size r \<and> mr_base r \<ge> lower_bound) (regions d)")
  case None
  then have "dmr_allocate_from sz lower_bound d
      = (Inr (None, d) :: ('e, u64 option \<times> disjoint_memory_region) res)"
    by (simp add: dmr_allocate_from_def)
  with None show ?thesis by (auto simp: find_None_iff)
next
  case (Some r)
  note f = find_from_split [OF assms Some]
  from remove_region_eq [OF assms f(2), where ?'e = 'e] f(1,3) obtain d' where
    d': "remove_region (mr_base r) (mr_base r + sz) d = (Inr d' :: ('e, disjoint_memory_region) res)"
    by blast
  then have "dmr_allocate_from sz lower_bound d
      = (Inr (Some (mr_base r), d') :: ('e, u64 option \<times> disjoint_memory_region) res)"
    using Some by (simp add: dmr_allocate_from_def)
  then show ?thesis using remove_region_ok [OF assms f(2) d'] f(1,4) by blast
qed

theorem dmr_allocate_from_spec_witness:
  "(\<exists>b d'. dmr_allocate_from 8 100 \<lparr>regions = [mk_region 0 50, mk_region 100 120]\<rparr>
        = (Inr (Some b, d') :: (string, u64 option \<times> disjoint_memory_region) res) \<and> 100 \<le> b)"
  using dmr_allocate_from_spec [of "\<lparr>regions = [mk_region 0 50, mk_region 100 120]\<rparr>" 8 100,
      where ?'e = string]
  by (simp add: dmr_inv_def mr_size_def) blast

section \<open>Splitting a whole set\<close>

lemma concat_chain_sorted:
  assumes "list_all2 (\<lambda>r ps. region_chain (mr_base r) (mr_end r) ps) rs pss"
    "sorted_wrt region_before rs" "\<forall>r \<in> set rs. mr_base r < mr_end r"
  shows "sorted_wrt region_before (concat pss) \<and> covered (concat pss) = covered rs
    \<and> (\<forall>p \<in> set (concat pss). mr_base p < mr_end p \<and> (\<exists>r \<in> set rs. mr_base r \<le> mr_base p \<and> mr_end p \<le> mr_end r))"
  using assms
proof (induction rule: list_all2_induct)
  case (Cons r rs ps pss)
  then have IH: "sorted_wrt region_before (concat pss)" "covered (concat pss) = covered rs"
    "\<forall>p \<in> set (concat pss). mr_base p < mr_end p \<and> (\<exists>r \<in> set rs. mr_base r \<le> mr_base p \<and> mr_end p \<le> mr_end r)"
    by simp_all
  note ch = region_chain_bounds [OF Cons.hyps(1)]
  have "mr_end p \<le> mr_base q" if "p \<in> set ps" "q \<in> set (concat pss)" for p q
  proof -
    from IH(3) that(2) obtain r' where r': "r' \<in> set rs" "mr_base r' \<le> mr_base q" by blast
    with Cons.prems(1) have "mr_end r \<le> mr_base r'" by simp
    with ch [OF that(1)] r'(2) show ?thesis by (auto intro: order.trans)
  qed
  then have "sorted_wrt region_before (concat (ps # pss))"
    using IH(1) region_chain_sorted [OF Cons.hyps(1)] by (auto simp: sorted_wrt_append)
  moreover have "covered (concat (ps # pss)) = covered (r # rs)"
    using IH(2) region_chain_covered [OF Cons.hyps(1)] by simp
  moreover have "\<forall>p \<in> set (concat (ps # pss)). mr_base p < mr_end p
      \<and> (\<exists>x \<in> set (r # rs). mr_base x \<le> mr_base p \<and> mr_end p \<le> mr_end x)"
    using ch IH(3) by auto
  ultimately show ?case by blast
qed simp

lemma dmr_aligned_partition:
  assumes vb: "virtual_base cfg = (Inr vb :: ('e, u64) res)" and inv: "dmr_inv d"
  obtains ps where "dmr_aligned_power_of_two_regions cfg max_bits d = (Inr ps :: ('e, memory_region list) res)"
    "dmr_inv \<lparr>regions = ps\<rparr>" "covered ps = dmr_covered d" "\<forall>p \<in> set ps. untyped_region vb max_bits p"
proof -
  let ?f = "aligned_power_of_two_regions cfg max_bits :: memory_region \<Rightarrow> ('e, memory_region list) res"
  from inv have wf: "\<forall>r \<in> set (regions d). mr_base r < mr_end r" by (simp add: dmr_inv_def)
  let ?g = "\<lambda>r. projr (?f r)"
  have g: "?f r = Inr (?g r)" "region_chain (mr_base r) (mr_end r) (?g r)"
    "\<forall>p \<in> set (?g r). untyped_region vb max_bits p" if "r \<in> set (regions d)" for r
  proof -
    from that wf have "mr_base r \<le> mr_end r" by (simp add: less_imp_le)
    from aligned_power_of_two_regions_partition' [OF vb this, of max_bits]
    show "?f r = Inr (?g r)" "region_chain (mr_base r) (mr_end r) (?g r)"
      "\<forall>p \<in> set (?g r). untyped_region vb max_bits p" by auto
  qed
  have "mapM ?f (regions d) = Inr (map ?g (regions d))"
    using g(1) by (simp add: mapM_eq_Inr list_all2_conv_all_nth)
  moreover have "list_all2 (\<lambda>r ps. region_chain (mr_base r) (mr_end r) ps) (regions d) (map ?g (regions d))"
    using g(2) by (simp add: list_all2_conv_all_nth)
  note concat_chain_sorted [OF this _ wf]
  ultimately show thesis
    using that [of "concat (map ?g (regions d))"] inv g(3)
    by (auto simp: dmr_aligned_power_of_two_regions_def dmr_inv_def)
qed

section \<open>The regions as a store of free memory\<close>

interpretation dmr: region_store dmr_inv dmr_covered
  "insert_region :: u64 \<Rightarrow> u64 \<Rightarrow> disjoint_memory_region \<Rightarrow> ('e, disjoint_memory_region) res"
  "remove_region :: u64 \<Rightarrow> u64 \<Rightarrow> disjoint_memory_region \<Rightarrow> ('e, disjoint_memory_region) res"
proof (unfold_locales, goal_cases)
  case (4 s b e)
  then show ?case using insert_region_raw [of s b e, where ?'e = 'e] by blast
qed (auto dest: insert_region_ok remove_region_ok)

end
