(* ===== verification/Initialiser.thy ===== *)
theory Initialiser
  imports Elf_Write Mem_Regions
begin

unbundle bit_operations_syntax

text \<open>
  The initial task that creates the objects of a specification at boot, as the tool edits it:
  \<open>tool/microkit/src/capdl/initialiser.rs\<close>.  The specification, the data of its frames and a copy of the
  program headers are added to its ELF file as segments, and symbols that tell it where they are.
\<close>

section \<open>Definitions\<close>

definition INITIALISER_GRANULE_SIZE :: page_size where "INITIALISER_GRANULE_SIZE = SmallPg"
definition PT_SEL4_CAPDL_SPEC :: u32 where "PT_SEL4_CAPDL_SPEC = 0x64c34003"
definition PT_SEL4_CAPDL_FRAME_DATA :: u32 where "PT_SEL4_CAPDL_FRAME_DATA = 0x64c34004"

record initialiser_spec_metadata =
  spec_bytes_size :: u64

datatype log_level = LogError | LogWarn | LogInfo | LogDebug | LogTrace

fun log_level_u8 :: "log_level \<Rightarrow> u8" where
  "log_level_u8 LogError = 1"
| "log_level_u8 LogWarn = 2"
| "log_level_u8 LogInfo = 3"
| "log_level_u8 LogDebug = 4"
| "log_level_u8 LogTrace = 5"

record capdl_initialiser =
  ci_elf :: elf_file
  ci_phys_base :: "u64 option"
  ci_spec_metadata :: "initialiser_spec_metadata option"
  ci_log_level :: log_level

definition initialiser_new :: "elf_file \<Rightarrow> capdl_initialiser" where
  "initialiser_new elf =
     \<lparr>ci_elf = elf, ci_phys_base = None, ci_spec_metadata = None, ci_log_level = LogInfo\<rparr>"

text \<open>The range of the image, as a pair of its bounds.\<close>

definition image_bound :: "capdl_initialiser \<Rightarrow> ('e, u64 \<times> u64) res" where
  "image_bound ci =
     bindr (lowest_vaddr (ci_elf ci)) (\<lambda>lo.
     bindr (highest_vaddr (ci_elf ci)) (\<lambda>hi.
     bindr (round_up hi (page_size_u64 INITIALISER_GRANULE_SIZE)) (\<lambda>hi.
       Inr (lo, hi))))"

text \<open>\<open>Vec::pop\<close> twice.\<close>

definition drop_old_spec :: "capdl_initialiser \<Rightarrow> capdl_initialiser" where
  "drop_old_spec ci =
     (if ci_spec_metadata ci \<noteq> None
      then ci\<lparr>ci_elf := (ci_elf ci)\<lparr>segments := butlast (butlast (segments (ci_elf ci)))\<rparr>, ci_spec_metadata := None\<rparr>
      else ci)"

text \<open>The header of the table of program headers itself.\<close>

definition table_phdr :: "u32 \<Rightarrow> u64 \<Rightarrow> nat \<Rightarrow> elf_program_header64" where
  "table_phdr t phdrs_table_vaddr table_size =
     \<lparr>ph_type = t, ph_flags = PF_R, ph_offset = 0, ph_vaddr = phdrs_table_vaddr, ph_paddr = phdrs_table_vaddr,
      ph_filesz = of_nat table_size, ph_memsz = of_nat table_size, ph_align = 0\<rparr>"

definition phdrs_table_bytes :: "(elf_program_header64 \<times> nat) list \<Rightarrow> u64 \<Rightarrow> u8 list" where
  "phdrs_table_bytes phdrs_table phdrs_table_vaddr =
     (let expected_phnum = length phdrs_table + 2;
          expected_phdrs_table_size_bytes = 56 * expected_phnum
      in concat (map (\<lambda>(phdr, _). phdr_bytes phdr) phdrs_table)
         @ phdr_bytes (table_phdr PHENT_TYPE_PHDR phdrs_table_vaddr expected_phdrs_table_size_bytes)
         @ phdr_bytes (table_phdr PHENT_TYPE_LOADABLE phdrs_table_vaddr expected_phdrs_table_size_bytes))"

definition add_spec :: "u8 list \<Rightarrow> u8 list \<Rightarrow> capdl_initialiser \<Rightarrow> ('e, capdl_initialiser) res" where
  "add_spec spec_payload embedded_frame_data ci0 =
     (let ci = drop_old_spec ci0; elf = ci_elf ci; spec_sz = of_nat (length spec_payload)
      in bindr (next_vaddr elf INITIALISER_GRANULE_SIZE) (\<lambda>spec_vaddr.
         let elf = add_segment True False False spec_vaddr (RealData spec_payload) (Some PT_SEL4_CAPDL_SPEC) elf
         in bindr (next_vaddr elf INITIALISER_GRANULE_SIZE) (\<lambda>embedded_frame_data_vaddr.
         let elf = add_segment True False False embedded_frame_data_vaddr (RealData embedded_frame_data)
                     (Some PT_SEL4_CAPDL_FRAME_DATA) elf
         in bindr (next_vaddr elf INITIALISER_GRANULE_SIZE) (\<lambda>phdrs_table_vaddr.
            bindr (phdrs_table_serialised elf) (\<lambda>phdrs_table.
         let expected_phnum = length phdrs_table + 2;
             elf = add_segment True False False phdrs_table_vaddr
                     (RealData (phdrs_table_bytes phdrs_table phdrs_table_vaddr)) (Some PHENT_TYPE_PHDR) elf
         in bindr (unwrap_res (write_symbol ''sel4_phdrs_patched__vaddr'' (le_bytes 8 phdrs_table_vaddr) elf)) (\<lambda>elf.
            bindr (unwrap_res (write_symbol ''sel4_phdrs_patched__phnum''
                     (le_bytes 2 (of_nat expected_phnum :: u16)) elf)) (\<lambda>elf.
              Inr (ci\<lparr>ci_elf := elf, ci_spec_metadata := Some \<lparr>spec_bytes_size = spec_sz\<rparr>\<rparr>))))))))"

definition add_expected_untypeds :: "untyped_object list \<Rightarrow> capdl_initialiser \<Rightarrow> ('e, capdl_initialiser) res" where
  "add_expected_untypeds untypeds ci =
     (let uts_desc = concat (map serialise_ut untypeds); elf = ci_elf ci
      in case find_symbol elf ''sel4_capdl_initializer_expected_untypeds_list_num_entries'' of
           Inl _ \<Rightarrow> Inr ci
         | Inr _ \<Rightarrow>
             bindr (unwrap_res (write_symbol ''sel4_capdl_initializer_expected_untypeds_list_num_entries''
                      (le_bytes 8 (of_nat (length untypeds) :: u64)) elf)) (\<lambda>elf.
             bindr (unwrap_res (write_symbol ''sel4_capdl_initializer_expected_untypeds_list'' uts_desc elf)) (\<lambda>elf.
               Inr (ci\<lparr>ci_elf := elf\<rparr>))))"

definition set_phys_base :: "u64 \<Rightarrow> capdl_initialiser \<Rightarrow> capdl_initialiser" where
  "set_phys_base phys_base ci = ci\<lparr>ci_phys_base := Some phys_base\<rparr>"

section \<open>Patching a file that has grown\<close>

text \<open>Two segments that differ in their bytes only.\<close>

definition same_extent :: "elf_segment \<Rightarrow> elf_segment \<Rightarrow> bool" where
  "same_extent s s' \<longleftrightarrow> (\<exists>d. s' = s\<lparr>seg_data := d\<rparr>) \<and> mem_size s' = mem_size s \<and> file_size s' = file_size s
     \<and> (\<forall>d. seg_data s = RealData d \<longrightarrow> (\<exists>d'. seg_data s' = RealData d' \<and> length d' = length d))"

lemma same_extent_refl [simp]: "same_extent s s"
  by (auto simp: same_extent_def intro: exI [of _ "seg_data s"])

lemma same_extent_trans: "same_extent s s' \<Longrightarrow> same_extent s' s'' \<Longrightarrow> same_extent s s''"
  by (auto simp: same_extent_def)

lemma write_in_segments_prefix:
  assumes "get_data_in v n segs = (Inr (Some old) :: (elf_error, u8 list option) res)" "length bytes = unat n"
  shows "\<exists>segs'. (\<forall>rest. write_in_segments name v n bytes (segs @ rest) = Inr (segs' @ rest))
     \<and> list_all2 same_extent segs segs'"
  using assms(1)
proof (induction segs)
  case (Cons seg segs)
  show ?case
  proof (cases "seg_holds v n seg")
    case True
    let ?o = "unat (v - virt_addr seg)"
    from True Cons.prems obtain d where d: "seg_data seg = RealData d" "?o + unat n \<le> length d"
      by (auto simp: segment_data_def res_simps Let_def split: elf_segment_data.splits)
    obtain new where new: "write_at d ?o bytes = (Inr new :: (elf_error, u8 list) res)"
      using d(2) assms(2) by (simp add: write_at_def)
    let ?seg = "seg\<lparr>seg_data := RealData new\<rparr>"
    have "same_extent seg ?seg"
      using d(1) write_at_length [OF new] by (auto simp: same_extent_def mem_size_def file_size_def)
    moreover have "write_in_segments name v n bytes ((seg # segs) @ rest) = Inr ((?seg # segs) @ rest)" for rest
      using True d(1) new by (simp add: segment_data_def assms(2))
    ultimately show ?thesis by (intro exI [of _ "?seg # segs"]) (simp add: list_all2_refl)
  next
    case False
    with Cons.prems have "get_data_in v n segs = (Inr (Some old) :: (elf_error, u8 list option) res)" by simp
    from Cons.IH [OF this] obtain segs' where
      "\<forall>rest. write_in_segments name v n bytes (segs @ rest) = Inr (segs' @ rest)"
      "list_all2 same_extent segs segs'" by blast
    with False show ?thesis by (intro exI [of _ "seg # segs'"]) simp
  qed
qed simp

text \<open>A symbol that has bytes in the file.\<close>

definition symbol_at :: "elf_file \<Rightarrow> string \<Rightarrow> u64 \<Rightarrow> u64 \<Rightarrow> bool" where
  "symbol_at elf name v n \<longleftrightarrow>
     find_symbol elf name = Inr (v, n)
     \<and> (\<exists>bytes. get_data elf v n = (Inr (Some bytes) :: (elf_error, u8 list option) res))"

lemma same_extent_get:
  assumes "list_all2 same_extent segs segs'"
    and "get_data_in v n segs = (Inr (Some d) :: (elf_error, u8 list option) res)"
  shows "\<exists>d'. get_data_in v n segs' = (Inr (Some d') :: (elf_error, u8 list option) res)"
  using assms
proof (induction segs segs' rule: list_all2_induct)
  case (Cons s segs s' segs')
  have "seg_holds v n s' \<longleftrightarrow> seg_holds v n s"
    using Cons.hyps(1) by (auto simp: same_extent_def seg_holds_def)
  moreover have "virt_addr s' = virt_addr s" using Cons.hyps(1) by (auto simp: same_extent_def)
  ultimately show ?case
    using Cons by (auto simp: same_extent_def segment_data_def slice_at_def Let_def
        split: if_splits elf_segment_data.splits)
qed simp

lemma get_data_in_prefix:
  "get_data_in v n segs = (Inr (Some bytes) :: ('e, u8 list option) res) \<Longrightarrow> get_data_in v n (segs @ rest) = (Inr (Some bytes) :: ('e, u8 list option) res)"
  by (induction segs) (auto split: if_splits)

lemma mapM_cong: "(\<And>x. x \<in> set xs \<Longrightarrow> f x = g x) \<Longrightarrow> mapM f xs = mapM g xs"
  by (induction xs) auto

lemma mapM_append: "mapM f (xs @ ys) = bindr (mapM f xs) (\<lambda>as. bindr (mapM f ys) (\<lambda>bs. Inr (as @ bs)))"
proof (induction xs)
  case Nil
  then show ?case by (cases "mapM f ys") simp_all
qed (simp add: bindr_assoc)

text \<open>A row of the table of program headers.\<close>

definition phdr_row :: "elf_segment list \<Rightarrow> program_header \<Rightarrow> ('e, elf_program_header64 \<times> nat) res" where
  "phdr_row segs h = bindr (nthr segs (segment_idx h)) (\<lambda>seg.
     Inr (\<lparr>ph_type = phdr_type h, ph_flags = attrs seg, ph_offset = 0, ph_vaddr = virt_addr seg, ph_paddr = phys_addr seg,
           ph_filesz = file_size seg, ph_memsz = mem_size seg, ph_align = 0\<rparr>, segment_idx h))"

lemma phdrs_table_rows: "phdrs_table_serialised elf = mapM (phdr_row (segments elf)) (program_headers elf)"
  by (simp add: phdrs_table_serialised_def phdr_row_def [abs_def])

lemma phdrs_table_same_extent:
  assumes "list_all2 same_extent (segments elf) (segments elf')" "program_headers elf' = program_headers elf"
  shows "phdrs_table_serialised elf' = (phdrs_table_serialised elf :: ('e, (elf_program_header64 \<times> nat) list) res)"
proof -
  have "phdr_row (segments elf') h = (phdr_row (segments elf) h :: ('e, elf_program_header64 \<times> nat) res)" for h
  proof (cases "segment_idx h < length (segments elf)")
    case True
    then have "same_extent (segments elf ! segment_idx h) (segments elf' ! segment_idx h)"
      by (rule list_all2_nthD [OF assms(1)])
    with True list_all2_lengthD [OF assms(1)] show ?thesis
      by (auto simp: phdr_row_def nthr_def same_extent_def)
  next
    case False
    with list_all2_lengthD [OF assms(1)] show ?thesis by (simp add: phdr_row_def nthr_def)
  qed
  then show ?thesis unfolding phdrs_table_rows assms(2) by (intro mapM_cong)
qed

lemma add_segment_simps:
  "segments (add_segment rd wr ex v d t elf) = segments elf @
     [\<lparr>seg_data = d, phys_addr = v, virt_addr = v, loadable = True,
       attrs = (if rd then PF_R else 0) OR (if wr then PF_W else 0) OR (if ex then PF_X else 0)\<rparr>]"
  "symbols (add_segment rd wr ex v d t elf) = symbols elf"
  "program_headers (add_segment rd wr ex v d (Some ty) elf) = program_headers elf
     @ [\<lparr>segment_idx = length (segments elf), phdr_type = PHENT_TYPE_LOADABLE\<rparr>,
        \<lparr>segment_idx = length (segments elf), phdr_type = ty\<rparr>]"
  by (simp_all add: add_segment_def Let_def)

lemma loadable_add_segment: "loadable_segments (add_segment rd wr ex v d t elf) \<noteq> []"
  by (simp add: loadable_segments_def add_segment_simps)

lemma next_vaddr_total: "loadable_segments elf \<noteq> [] \<Longrightarrow> \<exists>v. next_vaddr elf pg = (Inr v :: ('e, u64) res)"
  using round_down_nonzero [OF page_size_u64_pos, of _ pg, where ?'a = 'e]
  by (fastforce simp: next_vaddr_def highest_vaddr_def split: list.splits)

lemma phdrs_table_total:
  assumes "elf_wf elf"
  shows "\<exists>tbl. phdrs_table_serialised elf = (Inr tbl :: ('e, (elf_program_header64 \<times> nat) list) res)"
proof -
  have "\<exists>r. phdr_row (segments elf) h = (Inr r :: ('e, elf_program_header64 \<times> nat) res)"
    if "h \<in> set (program_headers elf)" for h
    using assms that by (auto simp: elf_wf_def phdr_row_def nthr_def)
  then have "\<exists>rows. mapM (phdr_row (segments elf)) hs = (Inr rows :: ('e, (elf_program_header64 \<times> nat) list) res)"
    if "set hs \<subseteq> set (program_headers elf)" for hs
    using that by (induction hs) (fastforce, fastforce)
  then show ?thesis by (simp add: phdrs_table_rows)
qed

lemma phdrs_table_add_segment:
  assumes "elf_wf elf" "phdrs_table_serialised elf = (Inr tbl :: ('e, (elf_program_header64 \<times> nat) list) res)"
  shows "phdrs_table_serialised (add_segment True False False v (RealData bytes) (Some t) elf) =
     (Inr (tbl @ [(table_phdr PHENT_TYPE_LOADABLE v (length bytes), length (segments elf)),
                  (table_phdr t v (length bytes), length (segments elf))])
        :: ('e, (elf_program_header64 \<times> nat) list) res)"
proof -
  let ?elf = "add_segment True False False v (RealData bytes) (Some t) elf"
  have "mapM (phdr_row (segments ?elf)) (program_headers elf)
      = (mapM (phdr_row (segments elf)) (program_headers elf) :: ('e, (elf_program_header64 \<times> nat) list) res)"
    using assms(1) by (intro mapM_cong) (auto simp: elf_wf_def phdr_row_def nthr_def add_segment_simps nth_append)
  then show ?thesis
    using assms(2) unfolding phdrs_table_rows add_segment_simps(3) mapM_append
    by (simp add: phdr_row_def nthr_def add_segment_simps table_phdr_def mem_size_def file_size_def)
qed

lemma write_symbol_prefix:
  assumes "symbol_at elf name v n" "length bytes = unat n"
  shows "\<exists>segs'. list_all2 same_extent (segments elf) segs'
     \<and> (\<forall>e rest. symbols e = symbols elf \<longrightarrow> segments e = segments elf @ rest \<longrightarrow>
          write_symbol name bytes e = Inr (e\<lparr>segments := segs' @ rest\<rparr>))"
proof -
  from assms(1) obtain old where s: "find_symbol elf name = Inr (v, n)"
    "get_data_in v n (segments elf) = (Inr (Some old) :: (elf_error, u8 list option) res)"
    by (auto simp: symbol_at_def get_data_def)
  from write_in_segments_prefix [OF s(2) assms(2)] obtain segs' where w:
    "\<forall>rest. write_in_segments name v n bytes (segments elf @ rest) = Inr (segs' @ rest)"
    "list_all2 same_extent (segments elf) segs'" by blast
  have "write_symbol name bytes e = Inr (e\<lparr>segments := segs' @ rest\<rparr>)"
    if "symbols e = symbols elf" "segments e = segments elf @ rest" for e rest
    using that s(1) w(1) by (simp add: write_symbol_def find_symbol_def)
  with w(2) show ?thesis by blast
qed

text \<open>A write that misses another symbol leaves it with bytes.\<close>

lemma symbol_at_write:
  assumes "symbol_at elf name v n" "write_symbol other bytes elf = Inr elf'" "find_symbol elf other = Inr (w, m)"
    "unat v + unat n \<le> unat w \<or> unat w + length bytes \<le> unat v"
  shows "symbol_at elf' name v n"
  using assms write_symbol_frame [OF assms(2,3,4)] write_symbol_symbols [OF assms(2)]
  by (simp add: symbol_at_def find_symbol_def)

lemma patch_two:
  assumes "symbol_at elf a v n" "symbol_at elf b w m" "length x = unat n" "length y = unat m"
    and disj: "unat v + unat n \<le> unat w \<or> unat w + unat m \<le> unat v"
  shows "\<exists>segs'. list_all2 same_extent (segments elf) segs'
     \<and> (\<forall>e rest. symbols e = symbols elf \<longrightarrow> segments e = segments elf @ rest \<longrightarrow>
          (\<exists>e1. write_symbol a x e = Inr e1 \<and> write_symbol b y e1 = Inr (e\<lparr>segments := segs' @ rest\<rparr>))
          \<and> get_data (e\<lparr>segments := segs' @ rest\<rparr>) v n = (Inr (Some x) :: (elf_error, u8 list option) res)
          \<and> get_data (e\<lparr>segments := segs' @ rest\<rparr>) w m = (Inr (Some y) :: (elf_error, u8 list option) res))"
proof -
  from write_symbol_prefix [OF assms(1,3)] obtain segs1 where w1: "list_all2 same_extent (segments elf) segs1"
    "\<And>e rest. symbols e = symbols elf \<Longrightarrow> segments e = segments elf @ rest \<Longrightarrow>
       write_symbol a x e = Inr (e\<lparr>segments := segs1 @ rest\<rparr>)"
    by blast
  let ?elf1 = "elf\<lparr>segments := segs1\<rparr>"
  have a: "find_symbol elf a = Inr (v, n)" using assms(1) by (simp add: symbol_at_def)
  have "symbol_at ?elf1 b w m"
    using symbol_at_write [OF assms(2) _ a, of x ?elf1] w1(2) [of elf "[]"] disj assms(3) by auto
  from write_symbol_prefix [OF this assms(4)] obtain segs2 where w2: "list_all2 same_extent segs1 segs2"
    "\<And>e rest. symbols e = symbols elf \<Longrightarrow> segments e = segs1 @ rest \<Longrightarrow>
       write_symbol b y e = Inr (e\<lparr>segments := segs2 @ rest\<rparr>)"
    by auto
  have "list_all2 same_extent (segments elf) segs2"
    by (rule list_all2_trans [OF same_extent_trans w1(1) w2(1)])
  moreover have "(\<exists>e1. write_symbol a x e = Inr e1 \<and> write_symbol b y e1 = Inr (e\<lparr>segments := segs2 @ rest\<rparr>))
       \<and> get_data (e\<lparr>segments := segs2 @ rest\<rparr>) v n = (Inr (Some x) :: (elf_error, u8 list option) res)
       \<and> get_data (e\<lparr>segments := segs2 @ rest\<rparr>) w m = (Inr (Some y) :: (elf_error, u8 list option) res)"
    if e: "symbols e = symbols elf" "segments e = segments elf @ rest" for e rest
  proof -
    let ?e1 = "e\<lparr>segments := segs1 @ rest\<rparr>" and ?e2 = "e\<lparr>segments := segs2 @ rest\<rparr>"
    note r1 = w1(2) [OF e]
    have r2: "write_symbol b y ?e1 = Inr ?e2" using w2(2) [of ?e1 rest] e(1) by simp
    have f: "find_symbol e a = Inr (v, n)" "find_symbol ?e1 b = Inr (w, m)"
      using assms(1,2) e(1) by (simp_all add: symbol_at_def find_symbol_def)
    have "get_data ?e1 v n = (Inr (Some x) :: (elf_error, u8 list option) res)"
      by (rule write_symbol_get [OF r1 f(1) assms(3)])
    then have "get_data ?e2 v n = (Inr (Some x) :: (elf_error, u8 list option) res)"
      using write_symbol_frame [OF r2 f(2)] disj assms(4) by simp
    moreover have "get_data ?e2 w m = (Inr (Some y) :: (elf_error, u8 list option) res)"
      by (rule write_symbol_get [OF r2 f(2) assms(4)])
    ultimately show ?thesis using r1 r2 by blast
  qed
  ultimately show ?thesis by blast
qed

text \<open>The file with the three segments.\<close>

definition with_spec :: "u8 list \<Rightarrow> u64 \<Rightarrow> elf_file \<Rightarrow> elf_file" where
  "with_spec spec v = add_segment True False False v (RealData spec) (Some PT_SEL4_CAPDL_SPEC)"

definition with_frames :: "u8 list \<Rightarrow> u64 \<Rightarrow> elf_file \<Rightarrow> elf_file" where
  "with_frames frames v = add_segment True False False v (RealData frames) (Some PT_SEL4_CAPDL_FRAME_DATA)"

definition with_table :: "u8 list \<Rightarrow> u64 \<Rightarrow> elf_file \<Rightarrow> elf_file" where
  "with_table bytes v = add_segment True False False v (RealData bytes) (Some PHENT_TYPE_PHDR)"

lemmas with_defs = with_spec_def with_frames_def with_table_def

text \<open>The file before has headers that may point at the first two of the new segments.\<close>

definition headers_within :: "nat \<Rightarrow> elf_file \<Rightarrow> bool" where
  "headers_within k elf \<longleftrightarrow> (\<forall>h \<in> set (program_headers elf). segment_idx h < length (segments elf) + k)"

lemma headers_within_wf: "headers_within 2 elf \<Longrightarrow> elf_wf (with_frames frames v2 (with_spec spec v1 elf))"
  by (auto simp: headers_within_def elf_wf_def with_defs add_segment_simps)

lemma grown_table:
  assumes "headers_within 2 elf" "loadable_segments elf \<noteq> []"
  shows "\<exists>v1 v2 v3 tbl. next_vaddr elf INITIALISER_GRANULE_SIZE = (Inr v1 :: ('e, u64) res)
     \<and> next_vaddr (with_spec spec v1 elf) INITIALISER_GRANULE_SIZE = (Inr v2 :: ('e, u64) res)
     \<and> next_vaddr (with_frames frames v2 (with_spec spec v1 elf)) INITIALISER_GRANULE_SIZE = (Inr v3 :: ('e, u64) res)
     \<and> phdrs_table_serialised (with_frames frames v2 (with_spec spec v1 elf))
         = (Inr tbl :: ('e, (elf_program_header64 \<times> nat) list) res)"
proof -
  have "loadable_segments (with_spec spec v1 elf) \<noteq> []" "loadable_segments (with_frames frames v2 e) \<noteq> []"
    for v1 v2 e by (simp_all only: with_defs loadable_add_segment not_False_eq_True)
  then show ?thesis
    using next_vaddr_total assms(2) phdrs_table_total headers_within_wf [OF assms(1)] by metis
qed

lemma grown_table_rows:
  fixes v3 :: u64
  assumes "headers_within 2 elf" "phdrs_table_serialised (with_frames frames v2 (with_spec spec v1 elf))
    = (Inr tbl :: ('e, (elf_program_header64 \<times> nat) list) res)"
  defines "n \<equiv> length (segments (with_frames frames v2 (with_spec spec v1 elf)))"
  defines "bytes \<equiv> phdrs_table_bytes tbl v3"
  shows "phdrs_table_serialised (with_table bytes v3 (with_frames frames v2 (with_spec spec v1 elf)))
     = (Inr (tbl @ [(table_phdr PHENT_TYPE_LOADABLE v3 (length bytes), n), (table_phdr PHENT_TYPE_PHDR v3 (length bytes), n)])
         :: ('e, (elf_program_header64 \<times> nat) list) res)"
  unfolding with_table_def n_def
  by (rule phdrs_table_add_segment [OF headers_within_wf [OF assms(1)] assms(2)])

text \<open>What the file gains: a segment of bytes at an address, and its two headers.\<close>

definition spec_segment :: "u8 list \<Rightarrow> u64 \<Rightarrow> elf_segment" where
  "spec_segment d v = \<lparr>seg_data = RealData d, phys_addr = v, virt_addr = v, loadable = True, attrs = PF_R\<rparr>"

definition spec_headers :: "nat \<Rightarrow> program_header list" where
  "spec_headers n = concat (map (\<lambda>(i, t). [\<lparr>segment_idx = i, phdr_type = PHENT_TYPE_LOADABLE\<rparr>, \<lparr>segment_idx = i, phdr_type = t\<rparr>])
     [(n, PT_SEL4_CAPDL_SPEC), (n + 1, PT_SEL4_CAPDL_FRAME_DATA), (n + 2, PHENT_TYPE_PHDR)])"

lemma grown_file:
  "symbols (with_table bytes v3 (with_frames frames v2 (with_spec spec v1 elf))) = symbols elf"
  "segments (with_table bytes v3 (with_frames frames v2 (with_spec spec v1 elf)))
     = segments elf @ [spec_segment spec v1, spec_segment frames v2, spec_segment bytes v3]"
  "program_headers (with_table bytes v3 (with_frames frames v2 (with_spec spec v1 elf)))
     = program_headers elf @ spec_headers (length (segments elf))"
  by (simp_all add: with_defs add_segment_simps spec_segment_def spec_headers_def)

lemma phdrs_table_bytes_eq:
  "phdrs_table_bytes tbl v = concat (map (\<lambda>(phdr, _). phdr_bytes phdr)
     (tbl @ [(table_phdr PHENT_TYPE_PHDR v (length (phdrs_table_bytes tbl v)), n),
             (table_phdr PHENT_TYPE_LOADABLE v (length (phdrs_table_bytes tbl v)), n)]))"
proof -
  have "length (concat (map (\<lambda>(phdr, _). phdr_bytes phdr) tbl)) = 56 * length tbl"
    by (induction tbl) auto
  then have len: "length (phdrs_table_bytes tbl v) = 56 * (length tbl + 2)"
    by (simp add: phdrs_table_bytes_def Let_def)
  show ?thesis
    unfolding len by (simp add: phdrs_table_bytes_def Let_def del: mult_Suc_right distrib_left_numeral)
qed

text \<open>A run of \<open>add_spec\<close> on a file with room for its symbols.\<close>

definition patchable :: "elf_file \<Rightarrow> u64 \<Rightarrow> u64 \<Rightarrow> bool" where
  "patchable elf va na \<longleftrightarrow> loadable_segments elf \<noteq> []
     \<and> symbol_at elf ''sel4_phdrs_patched__vaddr'' va 8 \<and> symbol_at elf ''sel4_phdrs_patched__phnum'' na 2
     \<and> (unat va + 8 \<le> unat na \<or> unat na + 2 \<le> unat va)"

definition table_ok :: "elf_file \<Rightarrow> elf_segment \<Rightarrow> u64 \<Rightarrow> u64 \<Rightarrow> bool" where
  "table_ok elf s_table va na \<longleftrightarrow> (\<exists>tbl row_load row_phdr.
     phdrs_table_serialised elf = (Inr (tbl @ [row_load, row_phdr]) :: (string, (elf_program_header64 \<times> nat) list) res)
     \<and> seg_data s_table = RealData (concat (map (\<lambda>(phdr, _). phdr_bytes phdr) (tbl @ [row_phdr, row_load])))
     \<and> get_data elf va 8 = (Inr (Some (le_bytes 8 (virt_addr s_table))) :: (elf_error, u8 list option) res)
     \<and> get_data elf na 2
         = (Inr (Some (le_bytes 2 (of_nat (length tbl + 2) :: u16))) :: (elf_error, u8 list option) res))"

lemma patchable_same_extent:
  assumes "patchable elf va na" "list_all2 same_extent (segments elf) segs"
  shows "patchable (elf\<lparr>segments := segs\<rparr>) va na"
proof -
  have "(\<exists>s \<in> set (segments elf). loadable s) \<longrightarrow> (\<exists>s \<in> set segs. loadable s)"
    using assms(2) by (induction rule: list_all2_induct) (auto simp: same_extent_def)
  then have "loadable_segments elf \<noteq> [] \<Longrightarrow> loadable_segments (elf\<lparr>segments := segs\<rparr>) \<noteq> []"
    by (auto simp: loadable_segments_def filter_empty_conv)
  moreover have "symbol_at (elf\<lparr>segments := segs\<rparr>) nm v n" if "symbol_at elf nm v n" for nm v n
    using that same_extent_get [OF assms(2)] by (fastforce simp: symbol_at_def find_symbol_def get_data_def)
  ultimately show ?thesis using assms(1) by (simp add: patchable_def)
qed

lemma table_okI:
  assumes "phdrs_table_serialised elf = (Inr (tbl @ [row_load, row_phdr]) :: (string, (elf_program_header64 \<times> nat) list) res)"
    "seg_data s_table = RealData bytes"
    "bytes = concat (map (\<lambda>(phdr, _). phdr_bytes phdr) (tbl @ [row_phdr, row_load]))"
    "get_data elf va 8 = (Inr (Some (le_bytes 8 (virt_addr s_table))) :: (elf_error, u8 list option) res)"
    "get_data elf na 2 = (Inr (Some (le_bytes 2 (of_nat (length tbl + 2) :: u16))) :: (elf_error, u8 list option) res)"
  shows "table_ok elf s_table va na"
  unfolding table_ok_def using assms by blast

lemma add_spec_run:
  assumes "ci_elf (drop_old_spec ci) = elf" "headers_within 2 elf" "segments elf = base @ extra"
    "patchable (elf\<lparr>segments := base\<rparr>) va na"
  shows "\<exists>ci' segs v1 v2 v3 bytes. add_spec spec frames ci = (Inr ci' :: (string, capdl_initialiser) res)
     \<and> ci_spec_metadata ci' = Some \<lparr>spec_bytes_size = of_nat (length spec)\<rparr>
     \<and> ci_elf ci' = elf\<lparr>
          segments := segs @ extra @ [spec_segment spec v1, spec_segment frames v2, spec_segment bytes v3],
          program_headers := program_headers elf @ spec_headers (length (segs @ extra))\<rparr>
     \<and> list_all2 same_extent base segs
     \<and> table_ok (ci_elf ci') (spec_segment bytes v3) va na"
proof -
  let ?base = "elf\<lparr>segments := base\<rparr>"
  from assms(3,4) have p: "loadable_segments elf \<noteq> []" "symbol_at ?base ''sel4_phdrs_patched__vaddr'' va 8"
    "symbol_at ?base ''sel4_phdrs_patched__phnum'' na 2"
    "unat va + unat (8 :: u64) \<le> unat na \<or> unat na + unat (2 :: u64) \<le> unat va"
    by (simp_all add: patchable_def loadable_segments_def)
  from grown_table [OF assms(2) p(1), of spec frames] obtain v1 v2 v3 tbl where
    v: "next_vaddr elf INITIALISER_GRANULE_SIZE = (Inr v1 :: (string, u64) res)"
      "next_vaddr (with_spec spec v1 elf) INITIALISER_GRANULE_SIZE = (Inr v2 :: (string, u64) res)"
      "next_vaddr (with_frames frames v2 (with_spec spec v1 elf)) INITIALISER_GRANULE_SIZE = (Inr v3 :: (string, u64) res)"
    and tbl: "phdrs_table_serialised (with_frames frames v2 (with_spec spec v1 elf))
        = (Inr tbl :: (string, (elf_program_header64 \<times> nat) list) res)"
    by blast
  define bytes where "bytes = phdrs_table_bytes tbl v3"
  define elf3 where "elf3 = with_table bytes v3 (with_frames frames v2 (with_spec spec v1 elf))"
  note table3 = grown_table_rows [OF assms(2) tbl, of v3, folded bytes_def, folded elf3_def]
  note file3 = grown_file [of bytes v3 frames v2 spec v1 elf, folded elf3_def]
  let ?rest = "extra @ [spec_segment spec v1, spec_segment frames v2, spec_segment bytes v3]"
  define pn where "pn = le_bytes 2 (of_nat (length tbl + 2) :: u16)"
  have l: "length (le_bytes 8 v3) = unat (8 :: u64)" "length pn = unat (2 :: u64)" by (simp_all add: pn_def)
  have "symbols elf3 = symbols ?base" "segments elf3 = segments ?base @ ?rest" using file3(1,2) assms(3) by simp_all
  with patch_two [OF p(2,3) l p(4)] obtain segs e1 where
    segs: "list_all2 same_extent (segments ?base) segs"
    and e1: "write_symbol ''sel4_phdrs_patched__vaddr'' (le_bytes 8 v3) elf3 = Inr e1"
      "write_symbol ''sel4_phdrs_patched__phnum'' pn e1 = Inr (elf3\<lparr>segments := segs @ ?rest\<rparr>)"
    and get: "get_data (elf3\<lparr>segments := segs @ ?rest\<rparr>) va 8
        = (Inr (Some (le_bytes 8 v3)) :: (elf_error, u8 list option) res)"
      "get_data (elf3\<lparr>segments := segs @ ?rest\<rparr>) na 2 = (Inr (Some pn) :: (elf_error, u8 list option) res)"
    by blast
  let ?elf' = "elf3\<lparr>segments := segs @ ?rest\<rparr>"
  have run: "add_spec spec frames ci = (Inr ((drop_old_spec ci)\<lparr>ci_elf := ?elf',
      ci_spec_metadata := Some \<lparr>spec_bytes_size = of_nat (length spec)\<rparr>\<rparr>) :: (string, capdl_initialiser) res)"
    by (simp only: add_spec_def Let_def assms(1) v bindr_Inr with_defs [symmetric] tbl
        bytes_def [symmetric] elf3_def [symmetric] e1 pn_def [symmetric] unwrap_res_simps)
  have "list_all2 same_extent (segments elf3) (segs @ ?rest)"
    using segs unfolding file3(2) assms(3) append_assoc by (intro list_all2_appendI) (simp_all add: list_all2_refl)
  then have "phdrs_table_serialised ?elf' = (phdrs_table_serialised elf3 :: (string, (elf_program_header64 \<times> nat) list) res)"
    by (intro phdrs_table_same_extent) simp_all
  then have "table_ok ?elf' (spec_segment bytes v3) va na"
    unfolding table3
    by (rule table_okI [OF _ _ phdrs_table_bytes_eq [of tbl v3, folded bytes_def]])
      (use get in \<open>simp_all add: spec_segment_def pn_def\<close>)
  moreover have "?elf' = elf\<lparr>segments := segs @ ?rest,
      program_headers := program_headers elf @ spec_headers (length (segs @ extra))\<rparr>"
    using file3(3) list_all2_lengthD [OF segs] assms(3)
    by (simp add: elf3_def with_defs add_segment_def Let_def spec_headers_def)
  ultimately show ?thesis
    using run segs by (intro exI [of _ "_ \<lparr>ci_elf := ?elf', ci_spec_metadata := _\<rparr>"] exI [of _ segs] exI [of _ v1] exI [of _ v2]
        exI [of _ v3] exI [of _ bytes]) simp
qed

section \<open>Properties\<close>

text \<open>C32: Adding a specification to a fresh initialiser succeeds when its file has the two symbols, with bytes
  of their own.  The segments there before keep their place and extent; the file gains the specification,
  the data of the frames, and the table of program headers that the file has in the end, its last two
  rows swapped; and the symbols hold the address and the length of that table.\<close>

theorem add_spec_table:
  assumes "ci_spec_metadata ci = None" "elf_wf (ci_elf ci)" "patchable (ci_elf ci) va na"
  shows "\<exists>ci' segs v1 v2 v3 bytes. add_spec spec frames ci = (Inr ci' :: (string, capdl_initialiser) res)
     \<and> ci_spec_metadata ci' = Some \<lparr>spec_bytes_size = of_nat (length spec)\<rparr>
     \<and> ci_elf ci' = (ci_elf ci)\<lparr>
          segments := segs @ [spec_segment spec v1, spec_segment frames v2, spec_segment bytes v3],
          program_headers := program_headers (ci_elf ci) @ spec_headers (length segs)\<rparr>
     \<and> list_all2 same_extent (segments (ci_elf ci)) segs
     \<and> table_ok (ci_elf ci') (spec_segment bytes v3) va na"
proof (rule add_spec_run [of ci "ci_elf ci" _ "[]", simplified append_Nil append_Nil2])
  show "ci_elf (drop_old_spec ci) = ci_elf ci" using assms(1) by (simp add: drop_old_spec_def)
  show "headers_within 2 (ci_elf ci)" using assms(2) by (auto simp: elf_wf_def headers_within_def)
  show "patchable (ci_elf ci\<lparr>segments := segments (ci_elf ci)\<rparr>) va na" using assms(3) by simp
qed (rule refl)

text \<open>An initialiser with one segment, at its start the two symbols.\<close>

definition example_initialiser :: capdl_initialiser where
  "example_initialiser = initialiser_new
     \<lparr>elf_path = ''initialiser.elf'', elf_word_size = 64, elf_entry = 0x1000, elf_machine = 183,
      segments = [\<lparr>seg_data = RealData (replicate 16 0), phys_addr = 0x1000, virt_addr = 0x1000,
                   loadable = True, attrs = 6\<rparr>],
      program_headers = [\<lparr>segment_idx = 0, phdr_type = 1\<rparr>],
      symbols = [''sel4_phdrs_patched__vaddr'' \<mapsto> (\<lparr>st_name = 0, st_info = 0, st_other = 0, st_shndx = 0,
                    st_value = 0x1000, st_size = 8\<rparr>, False),
                 ''sel4_phdrs_patched__phnum'' \<mapsto> (\<lparr>st_name = 0, st_info = 0, st_other = 0, st_shndx = 0,
                    st_value = 0x1008, st_size = 2\<rparr>, False)]\<rparr>"

lemma example_initialiser_ok:
  "ci_spec_metadata example_initialiser = None" "elf_wf (ci_elf example_initialiser)"
  "patchable (ci_elf example_initialiser) 0x1000 0x1008"
  by (simp_all add: example_initialiser_def initialiser_new_def elf_wf_def patchable_def symbol_at_def find_symbol_def
      loadable_segments_def get_data_def seg_holds_def mem_size_def segment_data_def slice_at_def)

theorem add_spec_table_witness:
  "\<exists>ci' bytes v. add_spec [1, 2, 3] [4] example_initialiser = (Inr ci' :: (string, capdl_initialiser) res)
     \<and> table_ok (ci_elf ci') (spec_segment bytes v) 0x1000 0x1008"
  using add_spec_table [OF example_initialiser_ok, of "[1, 2, 3]" "[4]"] by blast

text \<open>C35: Adding a specification a second time, as the tool does when it has picked addresses, does not replace
  the first: two of its three segments and none of its six headers are taken back.  The first
  specification stays in the file, the first header for a specification still points at it, and the first
  header for frame data points at the new specification.\<close>

theorem add_spec_again_stale:
  assumes "ci_spec_metadata ci = None" "elf_wf (ci_elf ci)" "patchable (ci_elf ci) va na"
  shows "\<exists>ci1 ci2 segs v1 v2 v3 v4 bytes.
     add_spec spec1 frames1 ci = (Inr ci1 :: (string, capdl_initialiser) res)
     \<and> add_spec spec2 frames2 ci1 = (Inr ci2 :: (string, capdl_initialiser) res)
     \<and> segments (ci_elf ci2) = segs @ [spec_segment spec1 v1, spec_segment spec2 v2, spec_segment frames2 v3,
          spec_segment bytes v4]
     \<and> program_headers (ci_elf ci2) = program_headers (ci_elf ci) @ spec_headers (length segs)
          @ spec_headers (length segs + 1)"
proof -
  from add_spec_table [OF assms, of spec1 frames1] obtain ci1 segs1 v1 w x bytes1 where
    one: "add_spec spec1 frames1 ci = (Inr ci1 :: (string, capdl_initialiser) res)" "ci_spec_metadata ci1 \<noteq> None"
      "ci_elf ci1 = (ci_elf ci)\<lparr>
          segments := segs1 @ [spec_segment spec1 v1, spec_segment frames1 w, spec_segment bytes1 x],
          program_headers := program_headers (ci_elf ci) @ spec_headers (length segs1)\<rparr>"
    and ext: "list_all2 same_extent (segments (ci_elf ci)) segs1" by auto
  let ?elf = "(ci_elf ci1)\<lparr>segments := segs1 @ [spec_segment spec1 v1]\<rparr>"
  have "ci_elf (drop_old_spec ci1) = ?elf" using one(2,3) by (simp add: drop_old_spec_def butlast_append)
  moreover have "headers_within 2 ?elf"
    using assms(2) list_all2_lengthD [OF ext]
    by (auto simp: headers_within_def elf_wf_def one(3) spec_headers_def)
  moreover have "segments ?elf = segs1 @ [spec_segment spec1 v1]" by simp
  moreover have "patchable (?elf\<lparr>segments := segs1\<rparr>) va na"
    using patchable_same_extent [OF assms(3) ext] by (simp add: one(3) patchable_def symbol_at_def find_symbol_def
        get_data_def loadable_segments_def)
  ultimately obtain ci2 segs2 v2 v3 v4 bytes where
    two: "add_spec spec2 frames2 ci1 = (Inr ci2 :: (string, capdl_initialiser) res)"
      "ci_elf ci2 = ?elf\<lparr>segments := segs2 @ [spec_segment spec1 v1] @
           [spec_segment spec2 v2, spec_segment frames2 v3, spec_segment bytes v4],
         program_headers := program_headers ?elf @ spec_headers (length (segs2 @ [spec_segment spec1 v1]))\<rparr>"
      "list_all2 same_extent segs1 segs2"
    using add_spec_run [of ci1 ?elf segs1 "[spec_segment spec1 v1]" va na spec2 frames2] by blast
  then show ?thesis
    using one(1,3) list_all2_lengthD [OF two(3)]
    by (intro exI [of _ ci1] exI [of _ ci2] exI [of _ segs2] exI [of _ v1] exI [of _ v2] exI [of _ v3] exI [of _ v4]
        exI [of _ bytes]) simp
qed

theorem add_spec_again_stale_witness:
  "\<exists>ci1 ci2. add_spec [1, 2, 3] [4] example_initialiser = (Inr ci1 :: (string, capdl_initialiser) res)
     \<and> add_spec [1, 2, 3, 4] [4] ci1 = (Inr ci2 :: (string, capdl_initialiser) res)
     \<and> length (program_headers (ci_elf ci2)) = 13 \<and> segments (ci_elf ci2) \<noteq> []"
proof -
  have "length (spec_headers n) = 6" for n by (simp add: spec_headers_def)
  then show ?thesis
    using add_spec_again_stale [OF example_initialiser_ok, of "[1, 2, 3]" "[4]" "[1, 2, 3, 4]" "[4]"]
    by (fastforce simp: example_initialiser_def initialiser_new_def)
qed

end
