(* ===== verification/Sdf_Data.thy ===== *)
theory Sdf_Data
  imports Sel4_Config
begin

unbundle bit_operations_syntax

text \<open>
  The data of the System Description Format, \<open>tool/microkit/src/sdf.rs\<close>: memory regions, mappings,
  interrupts, I/O ports, channels, virtual machines and protection domains; the XML elements as the
  parser sees them; and the errors it reports.

  The XML library is a parameter: an element is given by what the library answers about it (its
  kind, tag name, attributes, children, text, tail and position).  An error carries the data of its
  message (names, numbers, positions) but not the formatted text.
\<close>

section \<open>XML elements\<close>

type_synonym text_pos = "nat \<times> nat"

datatype xml_kind = ElementNode | CommentNode | PiNode | TextNode

datatype xml_node = XmlNode
  (node_kind: xml_kind)
  (tag_name: string)
  (attributes: "(string \<times> string) list")
  (children: "xml_node list")
  (node_text: "string option")
  (node_tail: "string option")
  (node_pos: text_pos)

definition is_element :: "xml_node \<Rightarrow> bool" where
  "is_element node \<longleftrightarrow> node_kind node = ElementNode"

definition is_comment :: "xml_node \<Rightarrow> bool" where
  "is_comment node \<longleftrightarrow> node_kind node = CommentNode"

definition attribute :: "xml_node \<Rightarrow> string \<Rightarrow> string option" where
  "attribute node name = map_of (attributes node) name"

lemma size_child: "child \<in> set (children node) \<Longrightarrow> size child < size node"
  by (cases node) (auto simp: less_Suc_eq_le dest!: size_list_estimation' [where f = size, OF _ order_refl])

section \<open>Constants\<close>

definition PD_MAX_ID :: u64 where "PD_MAX_ID = 61"
definition VCPU_MAX_ID :: u64 where "VCPU_MAX_ID = PD_MAX_ID"
definition CAP_MAP_MAX_SLOT :: u64 where "CAP_MAP_MAX_SLOT = 128"
definition MONITOR_PRIORITY :: u8 where "MONITOR_PRIORITY = 255"
definition PD_MAX_PRIORITY :: u8 where "PD_MAX_PRIORITY = 254"
definition BUDGET_DEFAULT :: u64 where "BUDGET_DEFAULT = 1000"
definition MONITOR_PD_NAME :: string where "MONITOR_PD_NAME = ''monitor''"
definition PD_DEFAULT_STACK_SIZE :: u64 where "PD_DEFAULT_STACK_SIZE = 0x2000"
definition PD_MIN_STACK_SIZE :: u64 where "PD_MIN_STACK_SIZE = 0x1000"
definition PD_MAX_STACK_SIZE :: u64 where "PD_MAX_STACK_SIZE = 1024 * 1024 * 16"
definition PCI_BUS_MAX :: int where "PCI_BUS_MAX = 2 ^ 8 - 1"
definition PCI_DEV_MAX :: int where "PCI_DEV_MAX = 2 ^ 5 - 1"
definition PCI_FUNC_MAX :: int where "PCI_FUNC_MAX = 2 ^ 3 - 1"
definition X86_IRQ_VECTOR_MAX :: int where "X86_IRQ_VECTOR_MAX = 107"
definition MAX_PDS :: nat where "MAX_PDS = 63"

section \<open>Memory regions and mappings\<close>

datatype sys_map_perms = PermRead | PermWrite | PermExecute

fun sys_map_perms_u8 :: "sys_map_perms \<Rightarrow> u8" where
  "sys_map_perms_u8 PermRead = 1"
| "sys_map_perms_u8 PermWrite = 2"
| "sys_map_perms_u8 PermExecute = 4"

record sys_map =
  sm_mr :: string
  sm_vaddr :: u64
  sm_perms :: u8
  sm_cached :: bool
  sm_text_pos :: "text_pos option"

datatype sys_memory_region_kind = MrUser | MrElf | MrStack

datatype sys_memory_region_paddr = Unspecified | ToolAllocated "u64 option" | Specified u64

record sys_memory_region =
  smr_name :: string
  smr_size :: u64
  smr_page_size_specified :: bool
  smr_page_size :: page_size
  smr_page_count :: u64
  smr_phys_addr :: sys_memory_region_paddr
  smr_text_pos :: "text_pos option"
  smr_kind :: sys_memory_region_kind
  smr_prefill_bytes :: "u8 list option"

definition optimal_page_size :: "config \<Rightarrow> sys_memory_region \<Rightarrow> ('e, u64) res" where
  "optimal_page_size cfg mr =
     (if is_multiple_of (smr_size mr) (snd (page_sizes cfg)) then Inr (snd (page_sizes cfg))
      else if is_multiple_of (smr_size mr) (fst (page_sizes cfg)) then Inr (fst (page_sizes cfg))
      else Inl (Panic ExplicitPanic))"

definition page_size_bytes :: "sys_memory_region \<Rightarrow> u64" where
  "page_size_bytes mr = page_size_u64 (smr_page_size mr)"

definition smr_paddr :: "sys_memory_region \<Rightarrow> u64 option" where
  "smr_paddr mr = (case smr_phys_addr mr of
      Unspecified \<Rightarrow> None
    | ToolAllocated paddr_maybe \<Rightarrow> paddr_maybe
    | Specified sdf_paddr \<Rightarrow> Some sdf_paddr)"

section \<open>Interrupts, I/O ports and patched symbols\<close>

datatype sys_irq_kind =
    Conventional (ci_irq: u64) (ci_trigger: arm_riscv_irq_trigger)
  | IOAPIC (io_ioapic: u64) (io_pin: u64) (io_trigger: x86_ioapic_irq_trigger)
           (io_polarity: x86_ioapic_irq_polarity) (io_vector: u64)
  | MSI (msi_pci_bus: u64) (msi_pci_dev: u64) (msi_pci_func: u64) (msi_handle: u64) (msi_vector: u64)

record sys_irq =
  irq_id :: u64
  irq_kind :: sys_irq_kind

definition irq_num :: "sys_irq \<Rightarrow> u64" where
  "irq_num s = (case irq_kind s of
      Conventional irq _ \<Rightarrow> irq
    | IOAPIC _ _ _ _ vector \<Rightarrow> vector
    | MSI _ _ _ _ vector \<Rightarrow> vector)"

record ioport =
  iop_id :: u64
  iop_addr :: u64
  iop_size :: u64
  iop_text_pos :: text_pos

datatype sys_set_var_kind =
    SvSize string
  | SvVaddr u64
  | SvPaddr string
  | SvId u64
  | SvX86IoPortAddr u64
  | SvPrefillSize string

record sys_set_var =
  sv_symbol :: string
  sv_kind :: sys_set_var_kind

section \<open>Channels, virtual machines and protection domains\<close>

record channel_end =
  ce_pd :: nat
  ce_id :: u64
  ce_notify :: bool
  ce_pp :: bool
  ce_setvar_id :: "string option"

record channel =
  end_a :: channel_end
  end_b :: channel_end

type_synonym cpu_core = u8

datatype cap_map_type = CmTcb | CmSc | CmVSpace | CmCSpace

record cap_map =
  cm_cap_type :: cap_map_type
  cm_pd_name :: string
  cm_pd :: "nat option"
  cm_slot :: u64
  cm_text_pos :: text_pos

record virtual_cpu =
  vc_id :: u64
  vc_setvar_id :: "string option"
  vc_cpu :: "cpu_core option"

record virtual_machine =
  vm_vcpus :: "virtual_cpu list"
  vm_name :: string
  vm_maps :: "sys_map list"
  vm_priority :: u8
  vm_budget :: u64
  vm_period :: u64

text \<open>A protection domain without its children; the tree of a domain and its children is
  \<open>pd_tree\<close>, and the tool flattens it right after parsing.\<close>

record protection_domain =
  pd_id :: "u64 option"
  pd_name :: string
  pd_priority :: u8
  pd_budget :: u64
  pd_period :: u64
  pd_passive :: bool
  pd_stack_size :: u64
  pd_smc :: bool
  pd_cpu :: cpu_core
  pd_program_image :: string
  pd_program_image_for_symbols :: "string option"
  pd_fpu :: bool
  pd_maps :: "sys_map list"
  pd_irqs :: "sys_irq list"
  pd_ioports :: "ioport list"
  pd_setvars :: "sys_set_var list"
  pd_cap_maps :: "cap_map list"
  pd_virtual_machine :: "virtual_machine option"
  pd_has_children :: bool
  pd_parent :: "nat option"
  pd_setvar_id :: "string option"
  pd_text_pos :: "text_pos option"

datatype pd_tree = PdTree (tree_pd: protection_domain) (tree_children: "pd_tree list")

definition needs_ep :: "protection_domain \<Rightarrow> nat \<Rightarrow> channel list \<Rightarrow> bool" where
  "needs_ep pd self_id channels \<longleftrightarrow>
     pd_has_children pd \<or> pd_virtual_machine pd \<noteq> None
     \<or> list_ex (\<lambda>ch. (ce_pp (end_a ch) \<and> ce_pd (end_b ch) = self_id)
                   \<or> (ce_pp (end_b ch) \<and> ce_pd (end_a ch) = self_id)) channels"

definition irq_bits :: "protection_domain \<Rightarrow> u64" where
  "irq_bits pd = foldl (\<lambda>irqs irq. irqs OR shl 1 (irq_id irq)) 0 (pd_irqs pd)"

definition ioport_bits :: "protection_domain \<Rightarrow> u64" where
  "ioport_bits pd = foldl (\<lambda>ioports ioport. ioports OR shl 1 (iop_id ioport)) 0 (pd_ioports pd)"

record system_description =
  sd_protection_domains :: "protection_domain list"
  sd_memory_regions :: "sys_memory_region list"
  sd_channels :: "channel list"

section \<open>Errors\<close>

datatype (plugins only: size code) value_error =
    VInvalidAttribute string
  | VVaddrTooHigh u64 u64
  | VPermsSyntax
  | VWriteOnly
  | VNotBool string
  | VBudgetExceedsPeriod u64 u64
  | VSmcDisabled
  | VCpuCore u8 u8
  | VStackSizeRange
  | VStackSizeAlign u64
  | VPriorityRange
  | VOnlyOnce string
  | VIdTooHigh
  | VIdNegative
  | VIrqOnX86
  | VIoapicNotOnX86
  | VMsiNotOnX86
  | VTrigger
  | VPolarity
  | VIoapicNegative
  | VPinNegative
  | VVectorRange
  | VPciBusRange
  | VPciDevRange
  | VPciFuncRange
  | VHandleNegative
  | VIoPortSize
  | VIoPortNotOnX86
  | VNoHypervisor
  | VSlotZero
  | VSlotTooHigh
  | VSizeNotMultiple
  | VPrefillTooLarge nat u64
  | VSizeMissing
  | VPageSizeUnsupported u64
  | VPrefillNotFound string
  | VPrefillUnreadable string
  | VPrefillEmpty string
  | VPaddrUnaligned
  | VInvalidPdName string
  | VNotTwoEnds
  | VBidirectionalPpc
  | VSetvarExists string

datatype (plugins only: size code) sdf_error =
    ValueError value_error string text_pos
  | MissingAttribute string string text_pos
  | BadInteger string string
  | BadPciAddress string string
  | BadPciBus string string
  | BadPciDev string string
  | BadPciFunc string string
  | SmcUnavailable
  | InvalidElement string text_pos
  | MissingProgramImage string
  | MissingVcpu string
  | DuplicateVcpuId u64 string text_pos
  | UnsupportedCapType string text_pos
  | UnsupportedCspaceElement string text_pos
  | MapMisaligned text_pos
  | MapOverlap string u64 u64 string u64 u64 string string text_pos
  | UnknownMapRegion string text_pos
  | UnexpectedText string text_pos
  | UnexpectedTail string text_pos
  | DuplicateChildId u64 string text_pos
  | ChildIdClashesVcpu u64 string text_pos
  | XmlParseFailed string
  | VmOutsidePd text_pos
  | UnknownCapPd string text_pos
  | NoPds
  | TooManyPds nat
  | DuplicatePdName string
  | ReservedPdName
  | DuplicateMrName string
  | DuplicateVmName string
  | VmWithChildrenX86 string text_pos
  | DuplicateIrq u64 string text_pos
  | DuplicateChannelId u64 string text_pos
  | PpcPriority string u8 string u8
  | PpcToVmX86 string string text_pos
  | DuplicateIoPortId u64 string text_pos
  | IoPortOverlap u64 string u64 string
  | OverlappingCapSlots string
  | MrPaddrOverlap string u64 u64 string u64 u64 text_pos
  | PrefillSizeWithoutPrefill string text_pos
  | SetvarPaddrX86 string text_pos

type_synonym 'a sdf_res = "(sdf_error, 'a) res"

definition value_err :: "xml_node \<Rightarrow> value_error \<Rightarrow> 'a sdf_res" where
  "value_err node e = Inl (Err (ValueError e (tag_name node) (node_pos node)))"

lemma value_err_not_Inr [simp]: "value_err node e \<noteq> Inr x" "Inr x \<noteq> value_err node e"
  by (simp_all add: value_err_def)

end
