(* ===== verification/Capdl_Spec.thy ===== *)
theory Capdl_Spec
  imports Sdf_Data
begin

unbundle bit_operations_syntax

text \<open>
  The specification the tool hands to the CapDL initialiser: objects, capabilities and the container of
  \<open>tool/microkit/src/capdl/builder.rs\<close>, the size function of \<open>capdl/spec.rs\<close> and the object and
  capability constructors of \<open>capdl/util.rs\<close>.

  The data types of capabilities and objects come from a crate outside the repository; they are given
  here with the constructors and fields that the code fills in, and the accessors of the crate the code
  calls (the object a capability names, the capability table and physical address of an object) are the
  selectors of these fields.
\<close>

section \<open>Capabilities and objects\<close>

record cap_rights =
  r_read :: bool
  r_write :: bool
  r_grant :: bool
  r_grant_reply :: bool

datatype (plugins only: size code) cap =
    CapFrame (cap_obj: nat) (frame_rights: cap_rights) (frame_cached: bool) (frame_executable: bool)
  | CapTcb (cap_obj: nat)
  | CapPageTable (cap_obj: nat)
  | CapEndpoint (cap_obj: nat) (ep_badge: u64) (ep_rights: cap_rights)
  | CapNotification (cap_obj: nat) (ntfn_badge: u64) (ntfn_rights: cap_rights)
  | CapReply (cap_obj: nat)
  | CapSchedContext (cap_obj: nat)
  | CapCNode (cap_obj: nat) (cnode_guard: u64) (cnode_guard_size: u8)
  | CapIOPorts (cap_obj: nat)
  | CapVCpu (cap_obj: nat)
  | CapArmSmc (cap_obj: nat)
  | CapArmIrqHandler (cap_obj: nat)
  | CapRiscvIrqHandler (cap_obj: nat)
  | CapIrqIOApicHandler (cap_obj: nat)
  | CapIrqMsiHandler (cap_obj: nat)

fun cap_set_obj :: "nat \<Rightarrow> cap \<Rightarrow> cap" where
  "cap_set_obj n (CapFrame _ r c e) = CapFrame n r c e"
| "cap_set_obj n (CapTcb _) = CapTcb n"
| "cap_set_obj n (CapPageTable _) = CapPageTable n"
| "cap_set_obj n (CapEndpoint _ b r) = CapEndpoint n b r"
| "cap_set_obj n (CapNotification _ b r) = CapNotification n b r"
| "cap_set_obj n (CapReply _) = CapReply n"
| "cap_set_obj n (CapSchedContext _) = CapSchedContext n"
| "cap_set_obj n (CapCNode _ g s) = CapCNode n g s"
| "cap_set_obj n (CapIOPorts _) = CapIOPorts n"
| "cap_set_obj n (CapVCpu _) = CapVCpu n"
| "cap_set_obj n (CapArmSmc _) = CapArmSmc n"
| "cap_set_obj n (CapArmIrqHandler _) = CapArmIrqHandler n"
| "cap_set_obj n (CapRiscvIrqHandler _) = CapRiscvIrqHandler n"
| "cap_set_obj n (CapIrqIOApicHandler _) = CapIrqIOApicHandler n"
| "cap_set_obj n (CapIrqMsiHandler _) = CapIrqMsiHandler n"

lemma cap_obj_set [simp]: "cap_obj (cap_set_obj n c) = n"
  by (cases c) simp_all

text \<open>A capability table entry: a slot and what is in it.\<close>

type_synonym cte = "u32 \<times> cap"

datatype (plugins only: size code) fill_content =
    ElfContent (elf_id: nat) (elf_seg_idx: nat) (data_start: nat) (data_end: nat)
  | BytesContent (fill_bytes: "u8 list")

record fill_entry =
  fe_start :: u64
  fe_end :: u64
  fe_content :: fill_content

type_synonym frame_fill = "fill_entry list"

record tcb_extra =
  te_ipc_buffer_addr :: u64
  te_affinity :: u64
  te_prio :: u8
  te_max_prio :: u8
  te_resume :: bool
  te_fpu_disabled :: bool
  te_ip :: u64
  te_sp :: u64

datatype (plugins only: size code) capdl_object =
    ObjEndpoint
  | ObjNotification
  | ObjCNode (cnode_size_bits: u8) (obj_slots: "cte list")
  | ObjTcb (obj_slots: "cte list") (tcb_info: tcb_extra)
  | ObjVCpu
  | ObjFrame (frame_size_bits: u8) (frame_paddr: "u64 option") (frame_init: frame_fill)
  | ObjPageTable (pt_x86_ept: bool) (pt_is_root: bool) (pt_level: "u8 option") (obj_slots: "cte list")
  | ObjAsidPool
  | ObjSchedContext (sc_size_bits: u8) (sc_period: u64) (sc_budget: u64) (sc_badge: u64)
  | ObjReply
  | ObjIOPorts (start_port: u64) (end_port: u64)
  | ObjArmIrq (obj_slots: "cte list") (arm_irq_trigger: u8) (arm_irq_target: u64)
  | ObjRiscvIrq (obj_slots: "cte list") (riscv_irq_trigger: u8)
  | ObjIrqIOApic (obj_slots: "cte list") (io_apic: u64) (io_apic_pin: u64) (io_apic_level: u64)
      (io_apic_polarity: u64)
  | ObjIrqMsi (obj_slots: "cte list") (irq_msi_handle: u64) (irq_msi_bus: u64) (irq_msi_dev: u64)
      (irq_msi_func: u64)
  | ObjArmSmc
  | ObjUntyped
  | ObjIrq
  | ObjDomainSet

fun obj_paddr :: "capdl_object \<Rightarrow> u64 option" where
  "obj_paddr (ObjFrame _ p _) = p"
| "obj_paddr _ = None"

text \<open>The objects with a capability table, and an update of the table.\<close>

fun has_slots :: "capdl_object \<Rightarrow> bool" where
  "has_slots (ObjCNode _ _) = True"
| "has_slots (ObjTcb _ _) = True"
| "has_slots (ObjPageTable _ _ _ _) = True"
| "has_slots (ObjArmIrq _ _ _) = True"
| "has_slots (ObjRiscvIrq _ _) = True"
| "has_slots (ObjIrqIOApic _ _ _ _ _) = True"
| "has_slots (ObjIrqMsi _ _ _ _ _) = True"
| "has_slots _ = False"

fun set_slots :: "cte list \<Rightarrow> capdl_object \<Rightarrow> capdl_object" where
  "set_slots s (ObjCNode b _) = ObjCNode b s"
| "set_slots s (ObjTcb _ e) = ObjTcb s e"
| "set_slots s (ObjPageTable x r l _) = ObjPageTable x r l s"
| "set_slots s (ObjArmIrq _ t c) = ObjArmIrq s t c"
| "set_slots s (ObjRiscvIrq _ t) = ObjRiscvIrq s t"
| "set_slots s (ObjIrqIOApic _ a p l q) = ObjIrqIOApic s a p l q"
| "set_slots s (ObjIrqMsi _ h b d f) = ObjIrqMsi s h b d f"
| "set_slots s ob = ob"

definition the_slots :: "capdl_object \<Rightarrow> cte list" where
  "the_slots ob = (if has_slots ob then obj_slots ob else [])"

lemma has_slots_set [simp]: "has_slots (set_slots s ob) = has_slots ob"
  by (cases ob) simp_all

lemma the_slots_set [simp]: "the_slots (set_slots s ob) = (if has_slots ob then s else [])"
  by (cases ob) (simp_all add: the_slots_def)

lemma obj_paddr_set [simp]: "obj_paddr (set_slots s ob) = obj_paddr ob"
  by (cases ob) simp_all

record named_object =
  no_name :: string
  no_object :: capdl_object

section \<open>Sizes\<close>

definition SLOT_BITS :: u64 where "SLOT_BITS = 5"

definition capdl_obj_physical_size_bits :: "capdl_object \<Rightarrow> config \<Rightarrow> ('e, u64) res" where
  "capdl_obj_physical_size_bits ob cfg = (case ob of
      ObjEndpoint \<Rightarrow> bindr (fixed_size_bits OtEndpoint cfg) unwrapr
    | ObjNotification \<Rightarrow> bindr (fixed_size_bits OtNotification cfg) unwrapr
    | ObjCNode bits _ \<Rightarrow> Inr (ucast bits + SLOT_BITS)
    | ObjTcb _ _ \<Rightarrow> bindr (fixed_size_bits OtTcb cfg) unwrapr
    | ObjVCpu \<Rightarrow> bindr (fixed_size_bits OtVcpu cfg) unwrapr
    | ObjFrame bits _ _ \<Rightarrow> Inr (ucast bits)
    | ObjPageTable _ is_root _ _ \<Rightarrow>
        if is_root then bindr (fixed_size_bits OtVSpace cfg) unwrapr
        else bindr (fixed_size_bits OtPageTable cfg) unwrapr
    | ObjAsidPool \<Rightarrow> bindr (fixed_size_bits OtAsidPool cfg) unwrapr
    | ObjSchedContext bits _ _ _ \<Rightarrow> Inr (ucast bits)
    | ObjReply \<Rightarrow> bindr (fixed_size_bits OtReply cfg) unwrapr
    | _ \<Rightarrow> Inr 0)"

section \<open>Names, badges and rights for the report\<close>

definition capdl_obj_human_name :: "capdl_object \<Rightarrow> config \<Rightarrow> ('e, string) res" where
  "capdl_obj_human_name ob cfg = (case ob of
      ObjEndpoint \<Rightarrow> Inr ''Endpoint''
    | ObjNotification \<Rightarrow> Inr ''Notification''
    | ObjCNode _ _ \<Rightarrow> Inr ''CNode''
    | ObjTcb _ _ \<Rightarrow> Inr ''TCB''
    | ObjVCpu \<Rightarrow> Inr ''VCPU''
    | ObjFrame bits _ _ \<Rightarrow>
        bindr (page_fixed_size_bits SmallPg cfg) (\<lambda>small.
        if bits = ucast small then Inr ''Page(4 KiB)''
        else bindr (page_fixed_size_bits LargePg cfg) (\<lambda>large.
             if bits = ucast large then Inr ''Page(2 MiB)'' else Inl (Panic UnreachableReached)))
    | ObjPageTable _ _ _ _ \<Rightarrow> Inr ''PageTable''
    | ObjAsidPool \<Rightarrow> Inr ''AsidPool''
    | ObjArmIrq _ _ _ \<Rightarrow> Inr ''ARM IRQ''
    | ObjIrqMsi _ _ _ _ _ \<Rightarrow> Inr ''x86 MSI IRQ''
    | ObjIrqIOApic _ _ _ _ _ \<Rightarrow> Inr ''x86 IOAPIC IRQ''
    | ObjRiscvIrq _ _ \<Rightarrow> Inr ''RISC-V IRQ''
    | ObjIOPorts _ _ \<Rightarrow> Inr ''x86 I/O Ports''
    | ObjSchedContext _ _ _ _ \<Rightarrow> Inr ''SchedContext''
    | ObjReply \<Rightarrow> Inr ''Reply''
    | ObjArmSmc \<Rightarrow> Inr ''ARM SMC''
    | ObjUntyped \<Rightarrow> Inr ''Untyped''
    | ObjIrq \<Rightarrow> Inr ''IRQ''
    | ObjDomainSet \<Rightarrow> Inr ''DomainSet'')"

definition capdl_cap_badge :: "cap \<Rightarrow> u64 option" where
  "capdl_cap_badge c = (case c of
      CapEndpoint _ b _ \<Rightarrow> Some b | CapNotification _ b _ \<Rightarrow> Some b | _ \<Rightarrow> None)"

definition capdl_cap_rights :: "cap \<Rightarrow> cap_rights option" where
  "capdl_cap_rights c = (case c of
      CapEndpoint _ _ r \<Rightarrow> Some r | CapNotification _ _ r \<Rightarrow> Some r | CapFrame _ r _ _ \<Rightarrow> Some r | _ \<Rightarrow> None)"

definition pop_char :: "string \<Rightarrow> string" where
  "pop_char s = butlast s"

definition capdl_rights_to_human_repr :: "cap_rights \<Rightarrow> string" where
  "capdl_rights_to_human_repr r =
     pop_char (pop_char ((if r_read r then ''Read, '' else []) @ (if r_write r then ''Write, '' else [])
       @ (if r_grant r then ''Grant, '' else []) @ (if r_grant_reply r then ''Grant Reply, '' else [])))"

section \<open>The container\<close>

record expected_allocation =
  ea_ut_idx :: nat
  ea_paddr :: u64

record spec_container =
  sc_objects :: "named_object list"
  sc_irqs :: "(u64 \<times> nat) list"
  sc_root_end :: nat
  sc_expected :: "nat \<Rightarrow> expected_allocation option"

datatype capdl_error =
    SlotAlreadyFilled nat nat
  | NotAPageTable nat nat
  | AddElfMapFailed capdl_error
  | MrOverlapsElf string string u64 u64 u64 u64

text \<open>A step that reads and updates the container, and may fail.\<close>

type_synonym 'a bld = "spec_container \<Rightarrow> (capdl_error, 'a \<times> spec_container) res"

definition returnB :: "'a \<Rightarrow> 'a bld" where
  "returnB x = (\<lambda>s. Inr (x, s))"

definition bindB :: "'a bld \<Rightarrow> ('a \<Rightarrow> 'b bld) \<Rightarrow> 'b bld" where
  "bindB m f = (\<lambda>s. bindr (m s) (\<lambda>(x, s'). f x s'))"

definition liftB :: "(capdl_error, 'a) res \<Rightarrow> 'a bld" where
  "liftB r = (\<lambda>s. bindr r (\<lambda>x. Inr (x, s)))"

definition getB :: "spec_container bld" where
  "getB = (\<lambda>s. Inr (s, s))"

fun foldB :: "('s \<Rightarrow> 'a \<Rightarrow> 's bld) \<Rightarrow> 's \<Rightarrow> 'a list \<Rightarrow> 's bld" where
  "foldB f acc [] = returnB acc"
| "foldB f acc (x # xs) = bindB (f acc x) (\<lambda>acc'. foldB f acc' xs)"

text \<open>\<open>.unwrap()\<close> on the result of a step.\<close>

definition unwrapB :: "'a bld \<Rightarrow> 'a bld" where
  "unwrapB m = (\<lambda>s. unwrap_res (m s))"

definition spec_new :: spec_container where
  "spec_new = \<lparr>sc_objects = [], sc_irqs = [], sc_root_end = 0, sc_expected = (\<lambda>_. None)\<rparr>"

definition add_root_object :: "named_object \<Rightarrow> nat bld" where
  "add_root_object ob = (\<lambda>s.
     let s = s\<lparr>sc_objects := sc_objects s @ [ob], sc_root_end := sc_root_end s + 1\<rparr>
     in bindr (assertr (length (sc_objects s) = sc_root_end s)) (\<lambda>_. Inr (sc_root_end s - 1, s)))"

definition get_root_object :: "nat \<Rightarrow> spec_container \<Rightarrow> (capdl_error, named_object option) res" where
  "get_root_object i s =
     (if i < sc_root_end s then bindr (nthr (sc_objects s) i) (\<lambda>ob. Inr (Some ob)) else Inr None)"

text \<open>\<open>get_root_object(id).unwrap()\<close>, and its mutable form with an update of the object.\<close>

definition root_object :: "nat \<Rightarrow> named_object bld" where
  "root_object i = (\<lambda>s. bindr (bindr (get_root_object i s) unwrapr) (\<lambda>ob. Inr (ob, s)))"

definition update_root_object :: "nat \<Rightarrow> (capdl_object \<Rightarrow> (capdl_error, capdl_object) res) \<Rightarrow> unit bld" where
  "update_root_object i f = (\<lambda>s.
     bindr (bindr (get_root_object i s) unwrapr) (\<lambda>ob.
     bindr (f (no_object ob)) (\<lambda>ob'.
       Inr ((), s\<lparr>sc_objects := (sc_objects s)[i := ob\<lparr>no_object := ob'\<rparr>]\<rparr>))))"

end
