(* ===== verification/Capdl_Util.thy ===== *)
theory Capdl_Util
  imports Capdl_Spec
begin

unbundle bit_operations_syntax

text \<open>
  The constructors of \<open>tool/microkit/src/capdl/util.rs\<close>, the laws of the container operations, and the
  invariant every step of the builder keeps: the object range covers exactly the objects, and every
  capability names an object that exists.
\<close>

section \<open>Laws of the steps\<close>

named_theorems bld_simps \<open>unfolding of a builder step against a known outcome\<close>

lemma bindB_Inr [bld_simps]:
  "bindB m f s = Inr r \<longleftrightarrow> (\<exists>x s'. m s = Inr (x, s') \<and> f x s' = Inr r)"
  by (auto simp: bindB_def bindr_eq_Inr)

lemma returnB_Inr [bld_simps]: "returnB x s = Inr r \<longleftrightarrow> r = (x, s)"
  by (auto simp: returnB_def)

lemma liftB_Inr [bld_simps]: "liftB v s = Inr r \<longleftrightarrow> snd r = s \<and> v = Inr (fst r)"
  by (cases r) (auto simp: liftB_def bindr_eq_Inr)

lemma getB_Inr [bld_simps]: "getB s = Inr r \<longleftrightarrow> r = (s, s)"
  by (auto simp: getB_def)

lemma unwrapB_Inr [bld_simps]: "unwrapB m s = Inr r \<longleftrightarrow> m s = Inr r"
  by (simp add: unwrapB_def unwrap_res_eq_Inr)

lemma foldB_append: "foldB f acc (xs @ ys) = bindB (foldB f acc xs) (\<lambda>a. foldB f a ys)"
  by (induction xs arbitrary: acc)
    (simp_all add: fun_eq_iff bindB_def returnB_def bindr_assoc split_def)

text \<open>The loop rule of \<open>foldB\<close>.\<close>

lemma foldB_inv:
  assumes "foldB f acc xs s = Inr (acc', s')" and "I [] acc s"
    and step: "\<And>ys x a t b u. I ys a t \<Longrightarrow> x \<in> set xs \<Longrightarrow> f a x t = Inr (b, u) \<Longrightarrow> I (ys @ [x]) b u"
  shows "I xs acc' s'"
  using assms
proof (induction xs arbitrary: acc' s' rule: rev_induct)
  case Nil
  then show ?case by (simp add: bld_simps)
next
  case (snoc x xs)
  from snoc.prems(1) obtain a t where t: "foldB f acc xs s = Inr (a, t)" "f a x t = Inr (acc', s')"
    by (auto simp: foldB_append bld_simps)
  have "I xs a t" by (rule snoc.IH [OF t(1) snoc.prems(2)]) (use snoc.prems(3) in auto)
  with t(2) snoc.prems(3) show ?case by simp
qed

section \<open>Constructors\<close>

definition capdl_util_make_cte :: "u32 \<Rightarrow> cap \<Rightarrow> cte" where
  "capdl_util_make_cte slot c = (slot, c)"

definition capdl_util_make_frame_obj :: "frame_fill \<Rightarrow> string \<Rightarrow> u64 option \<Rightarrow> u8 \<Rightarrow> nat bld" where
  "capdl_util_make_frame_obj frame_fill name paddr size_bits =
     add_root_object \<lparr>no_name = ''frame_'' @ name, no_object = ObjFrame size_bits paddr frame_fill\<rparr>"

definition capdl_util_make_frame_cap :: "nat \<Rightarrow> bool \<Rightarrow> bool \<Rightarrow> bool \<Rightarrow> bool \<Rightarrow> cap" where
  "capdl_util_make_frame_cap i read write executable cached =
     CapFrame i \<lparr>r_read = read, r_write = write, r_grant = False, r_grant_reply = False\<rparr> cached executable"

definition capdl_util_make_tcb_cap :: "nat \<Rightarrow> cap" where
  "capdl_util_make_tcb_cap i = CapTcb i"

definition capdl_util_make_page_table_cap :: "nat \<Rightarrow> cap" where
  "capdl_util_make_page_table_cap i = CapPageTable i"

definition capdl_util_get_vspace_id_from_tcb_id :: "nat \<Rightarrow> nat bld" where
  "capdl_util_get_vspace_id_from_tcb_id i = (\<lambda>s.
     bindr (get_root_object i s) (\<lambda>ob_maybe. case ob_maybe of
       None \<Rightarrow> Inl (Panic UnreachableReached)
     | Some ob \<Rightarrow> (case no_object ob of
           ObjTcb slots _ \<Rightarrow>
             bindr (unwrapr (find (\<lambda>(_, c). case c of CapPageTable _ \<Rightarrow> True | _ \<Rightarrow> False) slots)) (\<lambda>(_, c).
               Inr (cap_obj c, s))
         | _ \<Rightarrow> Inl (Panic UnreachableReached))))"

definition capdl_util_get_frame_size_bits :: "nat \<Rightarrow> u8 bld" where
  "capdl_util_get_frame_size_bits i =
     bindB (root_object i) (\<lambda>ob. case no_object ob of
         ObjFrame bits _ _ \<Rightarrow> returnB bits
       | _ \<Rightarrow> liftB (Inl (Panic UnreachableReached)))"

definition capdl_util_make_endpoint_obj :: "string \<Rightarrow> bool \<Rightarrow> nat bld" where
  "capdl_util_make_endpoint_obj owner is_fault =
     add_root_object \<lparr>no_name = ''ep_'' @ (if is_fault then ''fault_'' else []) @ owner,
                      no_object = ObjEndpoint\<rparr>"

definition capdl_util_make_endpoint_cap :: "nat \<Rightarrow> bool \<Rightarrow> bool \<Rightarrow> bool \<Rightarrow> u64 \<Rightarrow> cap" where
  "capdl_util_make_endpoint_cap i read write grant badge =
     CapEndpoint i badge \<lparr>r_read = read, r_write = write, r_grant = grant, r_grant_reply = False\<rparr>"

definition capdl_util_make_ntfn_obj :: "string \<Rightarrow> nat bld" where
  "capdl_util_make_ntfn_obj owner =
     add_root_object \<lparr>no_name = ''ntfn_'' @ owner, no_object = ObjNotification\<rparr>"

definition capdl_util_make_ntfn_cap :: "nat \<Rightarrow> bool \<Rightarrow> bool \<Rightarrow> u64 \<Rightarrow> cap" where
  "capdl_util_make_ntfn_cap i read write badge =
     CapNotification i badge \<lparr>r_read = read, r_write = write, r_grant = False, r_grant_reply = False\<rparr>"

definition capdl_util_make_reply_obj :: "string \<Rightarrow> nat bld" where
  "capdl_util_make_reply_obj owner =
     add_root_object \<lparr>no_name = ''reply_'' @ owner, no_object = ObjReply\<rparr>"

definition capdl_util_make_reply_cap :: "nat \<Rightarrow> cap" where
  "capdl_util_make_reply_cap i = CapReply i"

definition capdl_util_make_sc_obj :: "string \<Rightarrow> u8 \<Rightarrow> u64 \<Rightarrow> u64 \<Rightarrow> u64 \<Rightarrow> nat bld" where
  "capdl_util_make_sc_obj owner size_bits period budget badge =
     add_root_object \<lparr>no_name = ''sched_context_'' @ owner,
                      no_object = ObjSchedContext size_bits period budget badge\<rparr>"

definition capdl_util_make_sc_cap :: "nat \<Rightarrow> cap" where
  "capdl_util_make_sc_cap i = CapSchedContext i"

definition capdl_util_make_cnode_obj :: "string \<Rightarrow> u8 \<Rightarrow> cte list \<Rightarrow> nat bld" where
  "capdl_util_make_cnode_obj owner size_bits slots =
     add_root_object \<lparr>no_name = ''cnode_'' @ owner, no_object = ObjCNode size_bits slots\<rparr>"

definition capdl_util_make_cnode_cap :: "nat \<Rightarrow> u64 \<Rightarrow> u8 \<Rightarrow> cap" where
  "capdl_util_make_cnode_cap i guard guard_size = CapCNode i guard guard_size"

definition capdl_util_make_ioport_obj :: "string \<Rightarrow> u64 \<Rightarrow> u64 \<Rightarrow> nat bld" where
  "capdl_util_make_ioport_obj owner start_addr sz =
     add_root_object \<lparr>no_name = ''ioports_0x'' @ hex_string (unat start_addr) @ ''_'' @ owner,
                      no_object = ObjIOPorts start_addr (start_addr + sz - 1)\<rparr>"

definition capdl_util_make_ioport_cap :: "nat \<Rightarrow> cap" where
  "capdl_util_make_ioport_cap i = CapIOPorts i"

definition PD_CAP_SIZE :: u32 where "PD_CAP_SIZE = 512"

definition capdl_util_insert_cap_into_cspace :: "nat \<Rightarrow> u32 \<Rightarrow> cap \<Rightarrow> unit bld" where
  "capdl_util_insert_cap_into_cspace i idx c =
     bindB (liftB (assertr (idx < PD_CAP_SIZE))) (\<lambda>_.
       update_root_object i (\<lambda>ob. case ob of
           ObjCNode bits slots \<Rightarrow> Inr (ObjCNode bits (slots @ [capdl_util_make_cte idx c]))
         | _ \<Rightarrow> Inl (Panic UnreachableReached)))"

definition capdl_util_make_vcpu_obj :: "string \<Rightarrow> nat bld" where
  "capdl_util_make_vcpu_obj name = add_root_object \<lparr>no_name = ''vcpu_'' @ name, no_object = ObjVCpu\<rparr>"

definition capdl_util_make_vcpu_cap :: "nat \<Rightarrow> cap" where
  "capdl_util_make_vcpu_cap i = CapVCpu i"

definition capdl_util_make_arm_smc_cap :: "nat \<Rightarrow> cap" where
  "capdl_util_make_arm_smc_cap i = CapArmSmc i"

lemmas util_obj_defs =
  capdl_util_make_frame_obj_def capdl_util_make_endpoint_obj_def capdl_util_make_ntfn_obj_def
  capdl_util_make_reply_obj_def capdl_util_make_sc_obj_def capdl_util_make_cnode_obj_def
  capdl_util_make_ioport_obj_def capdl_util_make_vcpu_obj_def

lemmas util_cap_defs =
  capdl_util_make_frame_cap_def capdl_util_make_tcb_cap_def capdl_util_make_page_table_cap_def
  capdl_util_make_endpoint_cap_def capdl_util_make_ntfn_cap_def capdl_util_make_reply_cap_def
  capdl_util_make_sc_cap_def capdl_util_make_cnode_cap_def capdl_util_make_ioport_cap_def
  capdl_util_make_vcpu_cap_def capdl_util_make_arm_smc_cap_def

section \<open>The invariant of the container\<close>

definition range_ok :: "spec_container \<Rightarrow> bool" where
  "range_ok s \<longleftrightarrow> sc_root_end s = length (sc_objects s)"

definition caps_below :: "nat \<Rightarrow> capdl_object \<Rightarrow> bool" where
  "caps_below n ob \<longleftrightarrow> (\<forall>(_, c) \<in> set (the_slots ob). cap_obj c < n)"

definition spec_wf :: "spec_container \<Rightarrow> bool" where
  "spec_wf s \<longleftrightarrow> range_ok s \<and> (\<forall>ob \<in> set (sc_objects s). caps_below (length (sc_objects s)) (no_object ob))
     \<and> (\<forall>(_, handler) \<in> set (sc_irqs s). handler < length (sc_objects s))"

lemma caps_below_mono: "caps_below m ob \<Longrightarrow> m \<le> n \<Longrightarrow> caps_below n ob"
  by (fastforce simp: caps_below_def)

lemma spec_new_wf [simp]: "spec_wf spec_new"
  by (simp add: spec_wf_def range_ok_def spec_new_def)

lemma add_root_object_run:
  "range_ok s \<Longrightarrow> add_root_object ob s =
     Inr (length (sc_objects s), s\<lparr>sc_objects := sc_objects s @ [ob], sc_root_end := sc_root_end s + 1\<rparr>)"
  by (simp add: add_root_object_def range_ok_def Let_def)

lemma add_root_object_Inr [bld_simps]:
  "range_ok s \<Longrightarrow> add_root_object ob s = Inr (i, s') \<longleftrightarrow>
     i = length (sc_objects s) \<and> s' = s\<lparr>sc_objects := sc_objects s @ [ob], sc_root_end := sc_root_end s + 1\<rparr>"
  by (auto simp: add_root_object_run)

lemma get_root_object_run:
  "range_ok s \<Longrightarrow> get_root_object i s =
     Inr (if i < length (sc_objects s) then Some (sc_objects s ! i) else None)"
  by (simp add: get_root_object_def range_ok_def)

lemma root_object_Inr [bld_simps]:
  "range_ok s \<Longrightarrow> root_object i s = Inr (ob, s') \<longleftrightarrow>
     s' = s \<and> i < length (sc_objects s) \<and> ob = sc_objects s ! i"
  by (auto simp: root_object_def get_root_object_run bindr_eq_Inr unwrapr_eq_Inr split: if_splits)

lemma update_root_object_Inr [bld_simps]:
  "range_ok s \<Longrightarrow> update_root_object i f s = Inr (u, s') \<longleftrightarrow>
     i < length (sc_objects s) \<and> (\<exists>ob'. f (no_object (sc_objects s ! i)) = Inr ob'
       \<and> s' = s\<lparr>sc_objects := (sc_objects s)[i := (sc_objects s ! i)\<lparr>no_object := ob'\<rparr>]\<rparr>)"
  by (auto simp: update_root_object_def get_root_object_run bindr_eq_Inr unwrapr_eq_Inr split: if_splits)

lemma add_root_object_wf:
  assumes "add_root_object ob s = Inr (i, s')" "spec_wf s" "caps_below (Suc (length (sc_objects s))) (no_object ob)"
  shows "spec_wf s' \<and> i < length (sc_objects s') \<and> length (sc_objects s') = Suc (length (sc_objects s))"
proof -
  have "range_ok s" using assms(2) by (simp add: spec_wf_def)
  with assms(1) have "i = length (sc_objects s)"
    "s' = s\<lparr>sc_objects := sc_objects s @ [ob], sc_root_end := sc_root_end s + 1\<rparr>"
    by (simp_all add: bld_simps)
  with assms(2,3) show ?thesis
    by (fastforce simp: spec_wf_def range_ok_def intro: caps_below_mono)
qed

lemma update_root_object_wf:
  assumes "update_root_object i f s = Inr (u, s')" "spec_wf s"
    and "\<And>ob ob'. f ob = Inr ob' \<Longrightarrow> caps_below (length (sc_objects s)) ob
           \<Longrightarrow> caps_below (length (sc_objects s)) ob'"
  shows "spec_wf s' \<and> length (sc_objects s') = length (sc_objects s)"
proof -
  have "range_ok s" using assms(2) by (simp add: spec_wf_def)
  with assms(1) obtain ob' where ob': "i < length (sc_objects s)" "f (no_object (sc_objects s ! i)) = Inr ob'"
    "s' = s\<lparr>sc_objects := (sc_objects s)[i := (sc_objects s ! i)\<lparr>no_object := ob'\<rparr>]\<rparr>"
    by (auto simp: bld_simps)
  have "caps_below (length (sc_objects s)) (no_object (sc_objects s ! i))"
    using assms(2) ob'(1) by (simp add: spec_wf_def)
  from assms(3) [OF ob'(2) this] ob' assms(2) show ?thesis
    by (auto simp: spec_wf_def range_ok_def dest!: set_update_subset_insert [THEN subsetD])
qed

end
