(* ===== verification/Page_Tables.thy ===== *)
theory Page_Tables
  imports Capdl_Util
begin

unbundle bit_operations_syntax

text \<open>
  The page tables of \<open>tool/microkit/src/capdl/memory.rs\<close>: the index of an address at a level, the
  creation of intermediate tables on demand, and the mapping of a frame.  A page table is an object of
  the container; its entries are capabilities to tables of the next level or to frames.
\<close>

section \<open>Levels and indices\<close>

definition get_pt_level_name :: "config \<Rightarrow> nat \<Rightarrow> ('e, string) res" where
  "get_pt_level_name cfg level =
     (let names = (case arch cfg of
            Aarch64 \<Rightarrow> [''pgd'', ''pud'', ''pd'', ''pt'']
          | Riscv64 \<Rightarrow> [''pgd'', ''pmd'', ''pte'']
          | X86_64 \<Rightarrow> [''pml4'', ''pdpt'', ''pd'', ''pt''])
      in if level < length names then Inr (names ! level) else Inl (Panic UnreachableReached))"

definition top_pt_level_number :: "config \<Rightarrow> ('e, nat) res" where
  "top_pt_level_number cfg =
     (if arch cfg = Aarch64
      then bindr (aarch64_vspace_s2_start_l1 cfg) (\<lambda>b. Inr (if b then 1 else 0))
      else Inr 0)"

definition index_bits :: "config \<Rightarrow> nat \<Rightarrow> ('e, u64) res" where
  "index_bits cfg level =
     bindr (top_pt_level_number cfg) (\<lambda>topmost.
     if level = topmost \<and> arch cfg = Aarch64
     then bindr (aarch64_vspace_s2_start_l1 cfg) (\<lambda>b. Inr (if b then 10 else 9))
     else Inr 9)"

definition get_pt_level_index :: "config \<Rightarrow> nat \<Rightarrow> u64 \<Rightarrow> ('e, nat) res" where
  "get_pt_level_index cfg level vaddr =
     bindr (num_page_table_levels cfg) (\<lambda>lvls.
     bindr (assertr (level < lvls)) (\<lambda>_.
     bindr (mapM (index_bits cfg) [level + 1..<lvls]) (\<lambda>higher.
     bindr (index_bits cfg level) (\<lambda>width.
     let page_bits = 12;
         shift = page_bits + sum_list higher;
         m = shl 1 width - 1
     in Inr (unat (shr vaddr shift AND m))))))"

definition get_pt_level_coverage :: "config \<Rightarrow> nat \<Rightarrow> u64 \<Rightarrow> ('e, u64 \<times> u64) res" where
  "get_pt_level_coverage cfg level vaddr =
     bindr (num_page_table_levels cfg) (\<lambda>lvls.
     let page_bits = 12;
         bits_from_higher_lvls = (of_nat lvls - of_nat level) * 9;
         coverage_bits = page_bits + bits_from_higher_lvls;
         low = shl (shr vaddr coverage_bits) coverage_bits;
         high = vaddr OR (shl 1 coverage_bits - 1)
     in Inr (low, high))"

definition get_pt_level_to_insert :: "config \<Rightarrow> u64 \<Rightarrow> ('e, nat) res" where
  "get_pt_level_to_insert cfg page_bytes =
     bindr (num_page_table_levels cfg) (\<lambda>lvls.
     if page_bytes = page_size_u64 SmallPg then Inr (lvls - 1)
     else if page_bytes = page_size_u64 LargePg then Inr (lvls - 2)
     else Inl (Panic UnreachableReached))"

section \<open>Insertion\<close>

definition find_slot :: "nat \<Rightarrow> cte list \<Rightarrow> cap option" where
  "find_slot idx slots = map_option snd (find (\<lambda>(slot, _). unat slot = idx) slots)"

definition insert_cap_into_page_table_level :: "nat \<Rightarrow> nat \<Rightarrow> nat \<Rightarrow> cap \<Rightarrow> unit bld" where
  "insert_cap_into_page_table_level cur_id cur_level cur_slot c =
     update_root_object cur_id (\<lambda>ob. case ob of
         ObjPageTable ept is_root level slots \<Rightarrow>
           (case find_slot cur_slot slots of
              Some _ \<Rightarrow> Inl (Err (SlotAlreadyFilled cur_slot cur_level))
            | None \<Rightarrow> Inr (ObjPageTable ept is_root level (slots @ [capdl_util_make_cte (of_nat cur_slot) c])))
       | _ \<Rightarrow> Inl (Err (NotAPageTable cur_id cur_level)))"

definition map_intermediary_level_helper ::
    "config \<Rightarrow> string \<Rightarrow> string \<Rightarrow> nat \<Rightarrow> nat \<Rightarrow> nat \<Rightarrow> nat \<Rightarrow> u64 \<Rightarrow> nat bld" where
  "map_intermediary_level_helper cfg owner prefix vspace_id cur_id cur_level cur_slot vaddr =
     bindB (root_object cur_id) (\<lambda>cur. case no_object cur of
         ObjPageTable _ _ _ slots \<Rightarrow>
           (case find_slot cur_slot slots of
              Some c \<Rightarrow> returnB (cap_obj c)
            | None \<Rightarrow>
                bindB (root_object vspace_id) (\<lambda>vspace. case no_object vspace of
                    ObjPageTable ept _ _ _ \<Rightarrow>
                      bindB (liftB (get_pt_level_coverage cfg (cur_level + 1) vaddr)) (\<lambda>(low, high).
                      bindB (add_root_object
                               \<lparr>no_name = prefix @ ''_'' @ owner @ ''_vaddr_0x'' @ hex_string (unat low),
                                no_object = ObjPageTable ept False (Some (of_nat cur_level + 1)) []\<rparr>) (\<lambda>next_id.
                      bindB (insert_cap_into_page_table_level cur_id cur_level cur_slot
                               (CapPageTable next_id)) (\<lambda>_.
                        returnB next_id)))
                  | _ \<Rightarrow> liftB (Inl (Panic UnreachableReached))))
       | _ \<Rightarrow> liftB (Inl (Err (NotAPageTable cur_id cur_level))))"

definition create_vspace :: "config \<Rightarrow> string \<Rightarrow> nat bld" where
  "create_vspace cfg owner =
     bindB (liftB (top_pt_level_number cfg)) (\<lambda>topmost.
     bindB (liftB (get_pt_level_name cfg topmost)) (\<lambda>level_name.
       add_root_object \<lparr>no_name = level_name @ ''_'' @ owner,
                        no_object = ObjPageTable False True (Some (of_nat topmost)) []\<rparr>))"

definition create_vspace_ept :: "config \<Rightarrow> string \<Rightarrow> nat bld" where
  "create_vspace_ept cfg owner =
     bindB (liftB (assertr (arch cfg = X86_64))) (\<lambda>_.
     bindB (liftB (get_pt_level_name cfg 0)) (\<lambda>level_name.
     bindB (liftB (top_pt_level_number cfg)) (\<lambda>topmost.
       add_root_object \<lparr>no_name = level_name @ ''_'' @ owner,
                        no_object = ObjPageTable True True (Some (of_nat topmost)) []\<rparr>)))"

lemma levels_eq [simp]: "levels m = 3"
  by (cases m) (simp add: levels_def)

lemma num_levels_le: "num_page_table_levels cfg = Inr n \<Longrightarrow> 3 \<le> n \<and> n \<le> 4"
  by (auto simp: num_page_table_levels_def bindr_eq_Inr split: arch.splits)

function map_recursive ::
    "config \<Rightarrow> string \<Rightarrow> nat \<Rightarrow> nat \<Rightarrow> nat \<Rightarrow> cap \<Rightarrow> u64 \<Rightarrow> u64 \<Rightarrow> unit bld" where
  "map_recursive cfg owner vspace_id pt_id cur_level frame_cap frame_bytes vaddr s =
     bindr (num_page_table_levels cfg) (\<lambda>lvls.
     if cur_level \<ge> lvls then Inl (Panic UnreachableReached)
     else
       bindr (get_pt_level_index cfg cur_level vaddr) (\<lambda>this_level_index.
       bindr (get_pt_level_to_insert cfg frame_bytes) (\<lambda>target.
       if cur_level = target
       then insert_cap_into_page_table_level pt_id cur_level this_level_index frame_cap s
       else
         bindr (get_pt_level_name cfg (cur_level + 1)) (\<lambda>prefix.
         bindr (map_intermediary_level_helper cfg owner prefix vspace_id pt_id cur_level
                  this_level_index vaddr s) (\<lambda>r. case r of (next_id, s') \<Rightarrow>
           map_recursive cfg owner vspace_id next_id (cur_level + 1) frame_cap frame_bytes vaddr s')))))"
  by pat_completeness auto

termination
  by (relation "measure (\<lambda>(cfg, owner, vspace_id, pt_id, cur_level, c, b, v, s). 5 - cur_level)")
    (auto dest: num_levels_le)

declare map_recursive.simps [simp del]

definition map_page :: "config \<Rightarrow> string \<Rightarrow> nat \<Rightarrow> cap \<Rightarrow> u64 \<Rightarrow> u64 \<Rightarrow> unit bld" where
  "map_page cfg owner vspace_id frame_cap frame_bytes vaddr =
     bindB (liftB (top_pt_level_number cfg)) (\<lambda>topmost.
       map_recursive cfg owner vspace_id vspace_id topmost frame_cap frame_bytes vaddr)"

section \<open>Indices as bit fields\<close>

text \<open>What the configuration contributes: the number of levels and the level of the root.\<close>

definition paging :: "config \<Rightarrow> nat \<Rightarrow> nat \<Rightarrow> bool" where
  "paging cfg lvls topmost \<longleftrightarrow> num_page_table_levels cfg = (Inr lvls :: (capdl_error, nat) res)
     \<and> top_pt_level_number cfg = (Inr topmost :: (capdl_error, nat) res)"

lemma paging_cases:
  assumes "paging cfg lvls topmost"
  shows "topmost = 0 \<and> (lvls = 3 \<or> lvls = 4) \<or> topmost = 1 \<and> lvls = 4 \<and> arch cfg = Aarch64"
  using assms
  by (auto simp: paging_def num_page_table_levels_def top_pt_level_number_def bindr_eq_Inr
      split: arch.splits if_splits)

definition level_bits :: "nat \<Rightarrow> nat \<Rightarrow> nat" where
  "level_bits topmost level = (if topmost = 1 \<and> level = 1 then 10 else 9)"

definition level_shift :: "nat \<Rightarrow> nat \<Rightarrow> nat" where
  "level_shift lvls level = 12 + 9 * (lvls - 1 - level)"

definition pt_index :: "nat \<Rightarrow> nat \<Rightarrow> nat \<Rightarrow> u64 \<Rightarrow> nat" where
  "pt_index lvls topmost level vaddr =
     unat (take_bit (level_bits topmost level) (drop_bit (level_shift lvls level) vaddr))"

lemma index_bits_run:
  assumes "paging cfg lvls topmost"
  shows "index_bits cfg level = (Inr (of_nat (level_bits topmost level)) :: (capdl_error, u64) res)"
proof (cases "arch cfg = Aarch64")
  case False
  with assms have "topmost = 0" by (simp add: paging_def top_pt_level_number_def)
  with False show ?thesis by (simp add: index_bits_def top_pt_level_number_def level_bits_def)
next
  case True
  with assms obtain b where b: "aarch64_vspace_s2_start_l1 cfg = (Inr b :: (capdl_error, bool) res)"
    "topmost = (if b then 1 else 0)"
    by (auto simp: paging_def top_pt_level_number_def bindr_eq_Inr)
  with True show ?thesis by (simp add: index_bits_def top_pt_level_number_def level_bits_def)
qed

lemma mapM_const: "(\<And>x. x \<in> set xs \<Longrightarrow> f x = Inr (g x)) \<Longrightarrow> mapM f xs = Inr (map g xs)"
  by (induction xs) auto

lemma higher_levels_bits:
  assumes "paging cfg lvls topmost" "topmost \<le> level"
  shows "mapM (index_bits cfg) [Suc level..<lvls] = (Inr (replicate (lvls - 1 - level) 9) :: (capdl_error, u64 list) res)"
proof -
  have "mapM (index_bits cfg) [Suc level..<lvls]
      = (Inr (map (\<lambda>l. of_nat (level_bits topmost l)) [Suc level..<lvls]) :: (capdl_error, u64 list) res)"
    by (rule mapM_const) (rule index_bits_run [OF assms(1)])
  also have "map (\<lambda>l. of_nat (level_bits topmost l) :: u64) [Suc level..<lvls] = map (\<lambda>_. 9) [Suc level..<lvls]"
    by (rule map_cong) (use assms(2) in \<open>auto simp: level_bits_def\<close>)
  finally show ?thesis by (simp add: map_replicate_const)
qed

lemma mask_take_bit: "(w :: u64) AND (2 ^ n - 1) = take_bit n w"
  by (simp add: take_bit_eq_mask mask_eq_exp_minus_1)

lemma get_pt_level_index_run:
  assumes "paging cfg lvls topmost" "topmost \<le> level" "level < lvls"
  shows "get_pt_level_index cfg level vaddr = (Inr (pt_index lvls topmost level vaddr) :: (capdl_error, nat) res)"
proof -
  have n: "num_page_table_levels cfg = (Inr lvls :: (capdl_error, nat) res)" using assms(1) by (simp add: paging_def)
  have lv: "lvls \<le> 4" using num_levels_le [OF n] by simp
  have "12 + sum_list (replicate (lvls - 1 - level) (9 :: u64)) = of_nat (level_shift lvls level)"
    by (simp add: sum_list_replicate level_shift_def)
  moreover have sh: "level_shift lvls level < 64" using lv by (simp add: level_shift_def)
  then have "unat (of_nat (level_shift lvls level) :: u64) = level_shift lvls level"
    by (intro unat_of_nat_small) simp
  with sh have "shr vaddr (of_nat (level_shift lvls level)) = drop_bit (level_shift lvls level) vaddr"
    by (simp add: shr_small)
  moreover have "shl 1 (of_nat (level_bits topmost level)) = push_bit (level_bits topmost level) (1 :: u64)"
    by (simp add: shl_small level_bits_def)
  ultimately show ?thesis
    using assms(3) by (simp add: get_pt_level_index_def n higher_levels_bits [OF assms(1,2)]
        index_bits_run [OF assms(1)] Let_def mask_take_bit pt_index_def)
qed

lemma pt_index_less: "pt_index lvls topmost level vaddr < 1024"
proof -
  have "pt_index lvls topmost level vaddr < 2 ^ level_bits topmost level"
    by (simp add: pt_index_def unsigned_take_bit_eq)
  also have "\<dots> \<le> 2 ^ 10" by (rule power_increasing) (simp_all add: level_bits_def)
  finally show ?thesis by simp
qed

text \<open>The level at which a frame of a page size is entered.\<close>

definition target_level :: "nat \<Rightarrow> page_size \<Rightarrow> nat" where
  "target_level lvls pg = (case pg of SmallPg \<Rightarrow> lvls - 1 | LargePg \<Rightarrow> lvls - 2)"

lemma get_pt_level_to_insert_run:
  "paging cfg lvls topmost \<Longrightarrow>
     get_pt_level_to_insert cfg (page_size_u64 pg) = (Inr (target_level lvls pg) :: (capdl_error, nat) res)"
  by (cases pg) (simp_all add: paging_def get_pt_level_to_insert_def target_level_def)

lemma target_level_bounds:
  "paging cfg lvls topmost \<Longrightarrow> topmost \<le> target_level lvls pg \<and> target_level lvls pg < lvls"
  using paging_cases [of cfg lvls topmost] by (cases pg) (auto simp: target_level_def)

section \<open>Walks\<close>

definition pt_entry :: "spec_container \<Rightarrow> nat \<Rightarrow> nat \<Rightarrow> cap option" where
  "pt_entry s i idx =
     (if i < length (sc_objects s)
      then (case no_object (sc_objects s ! i) of
              ObjPageTable _ _ _ slots \<Rightarrow> find_slot idx slots | _ \<Rightarrow> None)
      else None)"

definition is_pt :: "spec_container \<Rightarrow> nat \<Rightarrow> bool" where
  "is_pt s i \<longleftrightarrow> i < length (sc_objects s)
     \<and> (case no_object (sc_objects s ! i) of ObjPageTable _ _ _ _ \<Rightarrow> True | _ \<Rightarrow> False)"

text \<open>What a walk of \<open>n\<close> further levels from a table finds.\<close>

fun walk :: "nat \<Rightarrow> nat \<Rightarrow> spec_container \<Rightarrow> nat \<Rightarrow> nat \<Rightarrow> nat \<Rightarrow> u64 \<Rightarrow> cap option" where
  "walk lvls topmost s i level 0 vaddr = pt_entry s i (pt_index lvls topmost level vaddr)"
| "walk lvls topmost s i level (Suc n) vaddr =
     (case pt_entry s i (pt_index lvls topmost level vaddr) of
        None \<Rightarrow> None
      | Some c \<Rightarrow> walk lvls topmost s (cap_obj c) (Suc level) n vaddr)"

text \<open>The walk reaches a free slot through tables only: where a frame can be entered.\<close>

fun free_path :: "nat \<Rightarrow> nat \<Rightarrow> spec_container \<Rightarrow> nat \<Rightarrow> nat \<Rightarrow> nat \<Rightarrow> u64 \<Rightarrow> bool" where
  "free_path lvls topmost s i level 0 vaddr \<longleftrightarrow>
     is_pt s i \<and> pt_entry s i (pt_index lvls topmost level vaddr) = None"
| "free_path lvls topmost s i level (Suc n) vaddr \<longleftrightarrow>
     is_pt s i \<and> (case pt_entry s i (pt_index lvls topmost level vaddr) of
        None \<Rightarrow> True
      | Some c \<Rightarrow> free_path lvls topmost s (cap_obj c) (Suc level) n vaddr)"

text \<open>Every entry of one container is an entry of another.\<close>

definition entries_kept :: "spec_container \<Rightarrow> spec_container \<Rightarrow> bool" where
  "entries_kept s t \<longleftrightarrow> (\<forall>i idx c. pt_entry s i idx = Some c \<longrightarrow> pt_entry t i idx = Some c)"

lemma entries_kept_refl [simp]: "entries_kept s s"
  by (simp add: entries_kept_def)

lemma entries_kept_trans: "entries_kept s t \<Longrightarrow> entries_kept t u \<Longrightarrow> entries_kept s u"
  by (simp add: entries_kept_def)

lemma walk_kept:
  "entries_kept s t \<Longrightarrow> walk lvls topmost s i level n vaddr = Some c \<Longrightarrow> walk lvls topmost t i level n vaddr = Some c"
  by (induction n arbitrary: i level) (auto simp: entries_kept_def split: option.splits)

lemma find_slot_append:
  "find_slot idx (slots @ [(k, c)]) =
     (case find_slot idx slots of Some d \<Rightarrow> Some d | None \<Rightarrow> if unat k = idx then Some c else None)"
  by (induction slots) (auto simp: find_slot_def)

section \<open>One insertion\<close>

lemma find_slot_None_iff: "find_slot idx slots = None \<longleftrightarrow> (\<forall>(k, c) \<in> set slots. unat k \<noteq> idx)"
  by (auto simp: find_slot_def find_None_iff)

lemma is_pt_cases:
  assumes "is_pt s i"
  obtains ept r l slots where "no_object (sc_objects s ! i) = ObjPageTable ept r l slots" "i < length (sc_objects s)"
    "\<And>idx. pt_entry s i idx = find_slot idx slots"
  using assms by (auto simp: is_pt_def pt_entry_def split: capdl_object.splits)

lemma insert_cap_free:
  assumes "range_ok s" "is_pt s i" "pt_entry s i idx = None" "idx < 1024"
  obtains s' where "insert_cap_into_page_table_level i level idx c s = Inr ((), s')"
    "range_ok s'" "\<And>j k. pt_entry s' j k = (if j = i \<and> k = idx then Some c else pt_entry s j k)"
    "\<And>j. is_pt s' j = is_pt s j" "length (sc_objects s') = length (sc_objects s)"
    "spec_wf s \<Longrightarrow> cap_obj c < length (sc_objects s) \<Longrightarrow> spec_wf s'"
proof -
  from assms(2) obtain ept r l slots where
    ob: "no_object (sc_objects s ! i) = ObjPageTable ept r l slots" and i: "i < length (sc_objects s)"
    and ent: "\<And>idx. pt_entry s i idx = find_slot idx slots" by (rule is_pt_cases) blast
  have u: "unat (of_nat idx :: u32) = idx" using assms(4) by (intro unat_of_nat_small) simp
  let ?ob = "(sc_objects s ! i)\<lparr>no_object := ObjPageTable ept r l (slots @ [(of_nat idx, c)])\<rparr>"
  let ?s = "s\<lparr>sc_objects := (sc_objects s)[i := ?ob]\<rparr>"
  have "find_slot idx slots = None" using assms(3) ent by simp
  with assms(1) ob i have run: "insert_cap_into_page_table_level i level idx c s = Inr ((), ?s)"
    by (simp add: insert_cap_into_page_table_level_def bld_simps capdl_util_make_cte_def)
  show thesis
  proof (rule that [OF run])
    show "range_ok ?s" using assms(1) by (simp add: range_ok_def)
    show "pt_entry ?s j k = (if j = i \<and> k = idx then Some c else pt_entry s j k)" for j k
      using ob i assms(3) ent
      by (cases "j = i") (auto simp: pt_entry_def find_slot_append u split: option.splits)
    show "is_pt ?s j = is_pt s j" for j
      using ob i by (cases "j = i") (simp_all add: is_pt_def)
    show "length (sc_objects ?s) = length (sc_objects s)" by simp
    show "spec_wf ?s" if wf: "spec_wf s" "cap_obj c < length (sc_objects s)"
    proof -
      have "caps_below (length (sc_objects s)) (no_object (sc_objects s ! i))"
        using wf(1) i by (simp add: spec_wf_def)
      with ob wf(2) have "caps_below (length (sc_objects s)) (no_object ?ob)"
        by (auto simp: caps_below_def the_slots_def)
      with wf(1) show ?thesis
        by (auto simp: spec_wf_def range_ok_def dest!: set_update_subset_insert [THEN subsetD])
    qed
  qed
qed

lemma insert_cap_taken:
  assumes "range_ok s" "is_pt s i" "pt_entry s i idx = Some d"
  shows "insert_cap_into_page_table_level i level idx c s = Inl (Err (SlotAlreadyFilled idx level))"
proof -
  from assms(2) obtain ept r l slots where
    ob: "no_object (sc_objects s ! i) = ObjPageTable ept r l slots" and i: "i < length (sc_objects s)"
    and ent: "\<And>idx. pt_entry s i idx = find_slot idx slots" by (rule is_pt_cases) blast
  with assms show ?thesis
    by (simp add: insert_cap_into_page_table_level_def update_root_object_def get_root_object_run)
qed

lemma insert_cap_not_pt:
  assumes "range_ok s" "\<not> is_pt s i"
  shows "\<not> is_ok (insert_cap_into_page_table_level i level idx c s)"
  using assms
  by (auto simp: insert_cap_into_page_table_level_def update_root_object_def get_root_object_run is_pt_def
      bindr_eq_Inr unwrapr_eq_Inr is_ok_iff split: capdl_object.splits if_splits)

section \<open>Mapping a frame\<close>

lemma map_intermediary_taken:
  assumes "range_ok s" "is_pt s i" "pt_entry s i idx = Some c"
  shows "map_intermediary_level_helper cfg owner prefix vspace i level idx vaddr s = Inr (cap_obj c, s)"
proof -
  from assms(2) obtain ept r l slots where
    ob: "no_object (sc_objects s ! i) = ObjPageTable ept r l slots" and i: "i < length (sc_objects s)"
    and ent: "\<And>idx. pt_entry s i idx = find_slot idx slots" by (rule is_pt_cases) blast
  with assms show ?thesis
    by (simp add: map_intermediary_level_helper_def bindB_def root_object_def get_root_object_run returnB_def)
qed

lemma map_intermediary_not_pt:
  assumes "range_ok s" "\<not> is_pt s i"
  shows "\<not> is_ok (map_intermediary_level_helper cfg owner prefix vspace i level idx vaddr s)"
  using assms
  by (auto simp: map_intermediary_level_helper_def bld_simps is_pt_def is_ok_iff split: capdl_object.splits)

lemma map_intermediary_free:
  assumes "range_ok s" "is_pt s i" "pt_entry s i idx = None" "idx < 1024" "is_pt s vspace"
    and "paging cfg lvls topmost"
  obtains s' where
    "map_intermediary_level_helper cfg owner prefix vspace i level idx vaddr s = Inr (length (sc_objects s), s')"
    "range_ok s'" "length (sc_objects s') = Suc (length (sc_objects s))"
    "\<And>j k. pt_entry s' j k =
        (if j = i \<and> k = idx then Some (CapPageTable (length (sc_objects s))) else pt_entry s j k)"
    "\<And>j. is_pt s' j \<longleftrightarrow> j = length (sc_objects s) \<or> is_pt s j"
    "spec_wf s \<Longrightarrow> spec_wf s'"
proof -
  let ?n = "length (sc_objects s)"
  from assms(2) obtain ept r l slots where
    ob: "no_object (sc_objects s ! i) = ObjPageTable ept r l slots" and i: "i < ?n"
    and ent: "\<And>idx. pt_entry s i idx = find_slot idx slots" by (rule is_pt_cases) blast
  from assms(5) obtain ept' r' l' slots' where
    vob: "no_object (sc_objects s ! vspace) = ObjPageTable ept' r' l' slots'" and v: "vspace < ?n"
    by (rule is_pt_cases) blast
  have "num_page_table_levels cfg = (Inr lvls :: (capdl_error, nat) res)"
    using assms(6) by (simp add: paging_def)
  then obtain low high where
    cov: "get_pt_level_coverage cfg (level + 1) vaddr = (Inr (low, high) :: (capdl_error, u64 \<times> u64) res)"
    by (simp add: get_pt_level_coverage_def Let_def)
  let ?new = "\<lparr>no_name = prefix @ ''_'' @ owner @ ''_vaddr_0x'' @ hex_string (unat low),
               no_object = ObjPageTable ept' False (Some (of_nat level + 1)) []\<rparr>"
  let ?s1 = "s\<lparr>sc_objects := sc_objects s @ [?new], sc_root_end := sc_root_end s + 1\<rparr>"
  have s1: "range_ok ?s1" "is_pt ?s1 i" "pt_entry ?s1 i idx = None"
    using assms(1-3) i by (simp_all add: range_ok_def is_pt_def pt_entry_def nth_append)
  obtain s2 where s2: "insert_cap_into_page_table_level i level idx (CapPageTable ?n) ?s1 = Inr ((), s2)"
    "range_ok s2"
    "\<And>j k. pt_entry s2 j k = (if j = i \<and> k = idx then Some (CapPageTable ?n) else pt_entry ?s1 j k)"
    "\<And>j. is_pt s2 j = is_pt ?s1 j" "length (sc_objects s2) = length (sc_objects ?s1)"
    "spec_wf ?s1 \<Longrightarrow> cap_obj (CapPageTable ?n) < length (sc_objects ?s1) \<Longrightarrow> spec_wf s2"
    by (rule insert_cap_free [OF s1 assms(4), where c = "CapPageTable ?n" and level = level]) (rule that)
  have run: "map_intermediary_level_helper cfg owner prefix vspace i level idx vaddr s = Inr (?n, s2)"
  proof -
    have r1: "root_object i s = Inr (sc_objects s ! i, s)"
      and r2: "root_object vspace s = Inr (sc_objects s ! vspace, s)"
      using assms(1) i v by (simp_all add: root_object_Inr)
    have r3: "add_root_object ?new s = Inr (?n, ?s1)" using assms(1) by (rule add_root_object_run)
    have r4: "find_slot idx slots = None" using assms(3) ent by simp
    show ?thesis
      by (simp only: map_intermediary_level_helper_def bindB_def liftB_def returnB_def r1 r2 r3 r4 ob vob cov
          s2(1) bindr_Inr prod.case option.case capdl_object.case)
  qed
  have new: "pt_entry ?s1 j k = pt_entry s j k" for j k
    by (auto simp: pt_entry_def nth_append find_slot_def less_Suc_eq)
  have newpt: "is_pt ?s1 j \<longleftrightarrow> j = ?n \<or> is_pt s j" for j
    by (cases "j < ?n") (auto simp: is_pt_def nth_append)
  show thesis
  proof (rule that [OF run s2(2)])
    show "length (sc_objects s2) = Suc ?n" using s2(5) by simp
    show "pt_entry s2 j k = (if j = i \<and> k = idx then Some (CapPageTable ?n) else pt_entry s j k)" for j k
      using s2(3) new by simp
    show "is_pt s2 j \<longleftrightarrow> j = ?n \<or> is_pt s j" for j
      unfolding s2(4) by (rule newpt)
    show "spec_wf s2" if wf: "spec_wf s"
    proof -
      have "add_root_object ?new s = Inr (?n, ?s1)" using assms(1) by (simp add: add_root_object_run)
      from add_root_object_wf [OF this wf] have "spec_wf ?s1" by (simp add: caps_below_def the_slots_def)
      with s2(6) show ?thesis by simp
    qed
  qed
qed

text \<open>The outcome of entering a capability for an address, \<open>n\<close> levels below a table: the walk finds
  the capability, nothing that was found before is lost, and among the tables that existed exactly
  one entry is new.\<close>

definition one_new_entry :: "spec_container \<Rightarrow> spec_container \<Rightarrow> nat \<Rightarrow> nat \<Rightarrow> bool" where
  "one_new_entry s s' i k \<longleftrightarrow> pt_entry s i k = None
     \<and> (\<exists>d. \<forall>j l. j < length (sc_objects s) \<longrightarrow>
            pt_entry s' j l = (if j = i \<and> l = k then Some d else pt_entry s j l))"

definition entered ::
    "nat \<Rightarrow> nat \<Rightarrow> spec_container \<Rightarrow> nat \<Rightarrow> nat \<Rightarrow> nat \<Rightarrow> u64 \<Rightarrow> cap \<Rightarrow> spec_container \<Rightarrow> bool" where
  "entered lvls topmost s i level n vaddr c s' \<longleftrightarrow>
     range_ok s' \<and> walk lvls topmost s' i level n vaddr = Some c \<and> entries_kept s s'
     \<and> length (sc_objects s) \<le> length (sc_objects s') \<and> (\<forall>j. is_pt s j \<longrightarrow> is_pt s' j)
     \<and> (\<exists>i0 k0. one_new_entry s s' i0 k0
          \<and> (pt_entry s i (pt_index lvls topmost level vaddr) = None \<longrightarrow>
               i0 = i \<and> k0 = pt_index lvls topmost level vaddr))
     \<and> (spec_wf s \<and> cap_obj c < length (sc_objects s) \<longrightarrow> spec_wf s')"

lemma level_name_run:
  "paging cfg lvls topmost \<Longrightarrow> level < lvls \<Longrightarrow>
     \<exists>n. get_pt_level_name cfg level = (Inr n :: (capdl_error, string) res)"
  by (auto simp: paging_def num_page_table_levels_def get_pt_level_name_def bindr_eq_Inr Let_def
      split: arch.splits)

lemma map_recursive_step:
  assumes "paging cfg lvls topmost" "topmost \<le> level" "level < lvls"
  shows "map_recursive cfg owner vspace i level c (page_size_u64 pg) vaddr s =
    (if level = target_level lvls pg
     then insert_cap_into_page_table_level i level (pt_index lvls topmost level vaddr) c s
     else bindr (get_pt_level_name cfg (level + 1)) (\<lambda>prefix.
          bindr (map_intermediary_level_helper cfg owner prefix vspace i level
                   (pt_index lvls topmost level vaddr) vaddr s) (\<lambda>(next_id, s').
            map_recursive cfg owner vspace next_id (level + 1) c (page_size_u64 pg) vaddr s')))"
proof -
  have "num_page_table_levels cfg = (Inr lvls :: (capdl_error, nat) res)"
    using assms(1) by (simp add: paging_def)
  with assms(3) show ?thesis
    by (subst map_recursive.simps)
      (simp add: get_pt_level_index_run [OF assms] get_pt_level_to_insert_run [OF assms(1)])
qed

lemma map_recursive_entered:
  assumes "paging cfg lvls topmost" "topmost \<le> level" "level + n = target_level lvls pg"
    and "range_ok s" "is_pt s vspace" "free_path lvls topmost s i level n vaddr"
  shows "\<exists>s'. map_recursive cfg owner vspace i level c (page_size_u64 pg) vaddr s = Inr ((), s')
           \<and> entered lvls topmost s i level n vaddr c s'"
  using assms
proof (induction n arbitrary: level i s)
  case 0
  let ?k = "pt_index lvls topmost level vaddr"
  have lt: "level < lvls" using 0 target_level_bounds [OF "0.prems"(1)] by simp
  from "0.prems"(6) have f: "is_pt s i" "pt_entry s i ?k = None" by simp_all
  obtain s' where s': "insert_cap_into_page_table_level i level ?k c s = Inr ((), s')" "range_ok s'"
    "\<And>j k. pt_entry s' j k = (if j = i \<and> k = ?k then Some c else pt_entry s j k)"
    "\<And>j. is_pt s' j = is_pt s j" "length (sc_objects s') = length (sc_objects s)"
    "spec_wf s \<Longrightarrow> cap_obj c < length (sc_objects s) \<Longrightarrow> spec_wf s'"
    by (rule insert_cap_free [OF "0.prems"(4) f pt_index_less, where c = c and level = level]) (rule that)
  have "entered lvls topmost s i level 0 vaddr c s'"
    unfolding entered_def entries_kept_def one_new_entry_def using s' f by auto
  moreover have "map_recursive cfg owner vspace i level c (page_size_u64 pg) vaddr s = Inr ((), s')"
    unfolding map_recursive_step [OF "0.prems"(1,2) lt] using "0.prems"(3) s'(1) by simp
  ultimately show ?case by blast
next
  case (Suc n)
  let ?k = "pt_index lvls topmost level vaddr"
  from Suc.prems(3) target_level_bounds [OF Suc.prems(1), of pg] have
    lt: "level < lvls" and nt: "level \<noteq> target_level lvls pg" and lt': "level + 1 < lvls" by simp_all
  from level_name_run [OF Suc.prems(1) lt'] obtain prefix where
    nm: "get_pt_level_name cfg (level + 1) = (Inr prefix :: (capdl_error, string) res)" by blast
  from Suc.prems(6) have pt: "is_pt s i" by simp
  have IH: "\<exists>s'. map_recursive cfg owner vspace i' (level + 1) c (page_size_u64 pg) vaddr s1 = Inr ((), s')
           \<and> entered lvls topmost s1 i' (level + 1) n vaddr c s'"
    if "range_ok s1" "is_pt s1 vspace" "free_path lvls topmost s1 i' (level + 1) n vaddr" for i' s1
    using Suc.IH [of "level + 1" s1 i'] Suc.prems(1-3) that by simp
  show ?case
  proof (cases "pt_entry s i ?k")
    case (Some e)
    with Suc.prems(6) have "free_path lvls topmost s (cap_obj e) (level + 1) n vaddr" by simp
    from IH [OF Suc.prems(4,5) this] obtain s' where
      s': "map_recursive cfg owner vspace (cap_obj e) (level + 1) c (page_size_u64 pg) vaddr s = Inr ((), s')"
      "entered lvls topmost s (cap_obj e) (level + 1) n vaddr c s'" by blast
    from s'(2) Some have "pt_entry s' i ?k = Some e"
      unfolding entered_def entries_kept_def by blast
    with s'(2) Some have "entered lvls topmost s i level (Suc n) vaddr c s'"
      unfolding entered_def by auto
    with s'(1) nt nm Some show ?thesis
      by (simp add: map_recursive_step [OF Suc.prems(1,2) lt] map_intermediary_taken [OF Suc.prems(4) pt])
  next
    case None
    let ?n = "length (sc_objects s)"
    obtain s1 where s1:
      "map_intermediary_level_helper cfg owner prefix vspace i level ?k vaddr s = Inr (?n, s1)"
      "range_ok s1" "length (sc_objects s1) = Suc ?n"
      "\<And>j k. pt_entry s1 j k = (if j = i \<and> k = ?k then Some (CapPageTable ?n) else pt_entry s j k)"
      "\<And>j. is_pt s1 j \<longleftrightarrow> j = ?n \<or> is_pt s j" "spec_wf s \<Longrightarrow> spec_wf s1"
      by (rule map_intermediary_free [OF Suc.prems(4) pt None pt_index_less Suc.prems(5,1),
            where prefix = prefix and owner = owner and level = level and vaddr = vaddr]) (rule that)
    have ne: "i \<noteq> ?n" using pt by (simp add: is_pt_def)
    have empty: "pt_entry s1 ?n k = None" for k using s1(4) ne by (simp add: pt_entry_def)
    have "free_path lvls topmost s1 ?n (level + 1) n vaddr" using s1(5) empty by (cases n) simp_all
    from IH [OF s1(2) _ this] s1(5) Suc.prems(5) obtain s' where
      s': "map_recursive cfg owner vspace ?n (level + 1) c (page_size_u64 pg) vaddr s1 = Inr ((), s')"
      "entered lvls topmost s1 ?n (level + 1) n vaddr c s'" by blast
    from s'(2) have "one_new_entry s1 s' ?n (pt_index lvls topmost (level + 1) vaddr)"
      unfolding entered_def empty by blast
    then obtain d where d: "\<And>j k. j < Suc ?n \<Longrightarrow> pt_entry s' j k =
        (if j = ?n \<and> k = pt_index lvls topmost (level + 1) vaddr then Some d else pt_entry s1 j k)"
      unfolding one_new_entry_def s1(3) by blast
    have i: "i < ?n" using pt by (simp add: is_pt_def)
    have old: "pt_entry s' j k = (if j = i \<and> k = ?k then Some (CapPageTable ?n) else pt_entry s j k)"
      if "j < ?n" for j k
      using d [of j k] s1(4) that by simp
    have "entries_kept s s1" using s1(4) None by (auto simp: entries_kept_def)
    then have "entries_kept s s'" using s'(2) entries_kept_trans by (auto simp: entered_def)
    moreover have "walk lvls topmost s' i level (Suc n) vaddr = Some c"
      using s'(2) old [OF i] by (simp add: entered_def)
    moreover have "one_new_entry s s' i ?k"
      unfolding one_new_entry_def using old None by blast
    ultimately have "entered lvls topmost s i level (Suc n) vaddr c s'"
      using s'(2) s1(3,5,6) unfolding entered_def by auto
    with s'(1) s1(1) nt nm show ?thesis
      by (auto simp: map_recursive_step [OF Suc.prems(1,2) lt])
  qed
qed

lemma map_recursive_refused:
  assumes "paging cfg lvls topmost" "topmost \<le> level" "level + n = target_level lvls pg"
    and "range_ok s" "\<not> free_path lvls topmost s i level n vaddr"
  shows "\<not> is_ok (map_recursive cfg owner vspace i level c (page_size_u64 pg) vaddr s)"
  using assms
proof (induction n arbitrary: level i)
  case 0
  have lt: "level < lvls" using 0 target_level_bounds [OF "0.prems"(1)] by simp
  let ?k = "pt_index lvls topmost level vaddr"
  have "\<not> is_ok (insert_cap_into_page_table_level i level ?k c s)"
  proof (cases "is_pt s i")
    case False
    with "0.prems"(4) show ?thesis by (rule insert_cap_not_pt)
  next
    case True
    with "0.prems"(5) obtain d where "pt_entry s i ?k = Some d" by auto
    from insert_cap_taken [OF "0.prems"(4) True this] show ?thesis by simp
  qed
  with "0.prems"(3) show ?case unfolding map_recursive_step [OF "0.prems"(1,2) lt] by simp
next
  case (Suc n)
  let ?k = "pt_index lvls topmost level vaddr"
  from Suc.prems(3) target_level_bounds [OF Suc.prems(1), of pg] have
    lt: "level < lvls" and nt: "level \<noteq> target_level lvls pg" and lt': "level + 1 < lvls" by simp_all
  from level_name_run [OF Suc.prems(1) lt'] obtain prefix where
    nm: "get_pt_level_name cfg (level + 1) = (Inr prefix :: (capdl_error, string) res)" by blast
  show ?case
  proof (cases "is_pt s i")
    case False
    have "\<not> is_ok (map_intermediary_level_helper cfg owner prefix vspace i level ?k vaddr s)"
      by (rule map_intermediary_not_pt [OF Suc.prems(4) False])
    with nt nm show ?thesis
      unfolding map_recursive_step [OF Suc.prems(1,2) lt] by (auto simp: is_ok_iff bindr_eq_Inr)
  next
    case True
    with Suc.prems(5) obtain e where
      e: "pt_entry s i ?k = Some e" "\<not> free_path lvls topmost s (cap_obj e) (Suc level) n vaddr"
      by (auto split: option.splits)
    from Suc.IH [OF Suc.prems(1) _ _ Suc.prems(4) e(2)] Suc.prems(2,3)
    have "\<not> is_ok (map_recursive cfg owner vspace (cap_obj e) (Suc level) c (page_size_u64 pg) vaddr s)" by simp
    with nt nm map_intermediary_taken [OF Suc.prems(4) True e(1)] show ?thesis
      unfolding map_recursive_step [OF Suc.prems(1,2) lt] by simp
  qed
qed

text \<open>The frame a VSpace has at an address for a page size, and whether one can be entered there.\<close>

definition lookup_page :: "nat \<Rightarrow> nat \<Rightarrow> spec_container \<Rightarrow> nat \<Rightarrow> page_size \<Rightarrow> u64 \<Rightarrow> cap option" where
  "lookup_page lvls topmost s vspace pg vaddr =
     walk lvls topmost s vspace topmost (target_level lvls pg - topmost) vaddr"

definition page_free :: "nat \<Rightarrow> nat \<Rightarrow> spec_container \<Rightarrow> nat \<Rightarrow> page_size \<Rightarrow> u64 \<Rightarrow> bool" where
  "page_free lvls topmost s vspace pg vaddr \<longleftrightarrow>
     free_path lvls topmost s vspace topmost (target_level lvls pg - topmost) vaddr"

lemma map_page_entered:
  assumes "paging cfg lvls topmost" "range_ok s" "is_pt s vspace"
  shows "is_ok (map_page cfg owner vspace c (page_size_u64 pg) vaddr s)
            \<longleftrightarrow> page_free lvls topmost s vspace pg vaddr"
    and "map_page cfg owner vspace c (page_size_u64 pg) vaddr s = Inr (u, s') \<Longrightarrow>
       entered lvls topmost s vspace topmost (target_level lvls pg - topmost) vaddr c s'"
proof -
  let ?n = "target_level lvls pg - topmost"
  have n: "topmost + ?n = target_level lvls pg" using target_level_bounds [OF assms(1), of pg] by simp
  have run: "map_page cfg owner vspace c (page_size_u64 pg) vaddr s
      = map_recursive cfg owner vspace vspace topmost c (page_size_u64 pg) vaddr s"
    using assms(1) by (simp add: map_page_def bindB_def liftB_def paging_def)
  have ok: "\<exists>s'. map_page cfg owner vspace c (page_size_u64 pg) vaddr s = Inr ((), s')
      \<and> entered lvls topmost s vspace topmost ?n vaddr c s'"
    if "page_free lvls topmost s vspace pg vaddr"
    unfolding run
    by (rule map_recursive_entered [OF assms(1) order_refl n assms(2,3)])
      (use that in \<open>simp add: page_free_def\<close>)
  have no: "\<not> is_ok (map_page cfg owner vspace c (page_size_u64 pg) vaddr s)"
    if "\<not> page_free lvls topmost s vspace pg vaddr"
    unfolding run
    by (rule map_recursive_refused [OF assms(1) order_refl n assms(2)])
      (use that in \<open>simp add: page_free_def\<close>)
  from ok no show "is_ok (map_page cfg owner vspace c (page_size_u64 pg) vaddr s)
            \<longleftrightarrow> page_free lvls topmost s vspace pg vaddr"
    by (auto simp: is_ok_iff)
  assume r: "map_page cfg owner vspace c (page_size_u64 pg) vaddr s = Inr (u, s')"
  with no have "page_free lvls topmost s vspace pg vaddr" by (auto simp: is_ok_iff)
  from ok [OF this] r show "entered lvls topmost s vspace topmost ?n vaddr c s'" by simp
qed

text \<open>C14: mapping a frame succeeds exactly when a walk of the address from the VSpace reaches a free slot
  through page tables.  It then finds the frame at the address, every mapping that was there is still
  found at every address and for every page size, in this and every other VSpace, and of the entries of
  the tables that existed before exactly one is new.  Otherwise it fails: a mapping is never replaced.\<close>

theorem map_page_spec:
  assumes "paging cfg lvls topmost" and "range_ok s" and "is_pt s vspace"
  shows "(is_ok (map_page cfg owner vspace c (page_size_u64 pg) vaddr s)
            \<longleftrightarrow> page_free lvls topmost s vspace pg vaddr)
     \<and> (\<forall>u s'. map_page cfg owner vspace c (page_size_u64 pg) vaddr s = Inr (u, s') \<longrightarrow>
          lookup_page lvls topmost s' vspace pg vaddr = Some c
          \<and> (\<forall>v pg' a d. lookup_page lvls topmost s v pg' a = Some d
                 \<longrightarrow> lookup_page lvls topmost s' v pg' a = Some d)
          \<and> (\<exists>i k. one_new_entry s s' i k))"
proof -
  have "lookup_page lvls topmost s' vspace pg vaddr = Some c
          \<and> (\<forall>v pg' a d. lookup_page lvls topmost s v pg' a = Some d
                 \<longrightarrow> lookup_page lvls topmost s' v pg' a = Some d)
          \<and> (\<exists>i k. one_new_entry s s' i k)"
    if "map_page cfg owner vspace c (page_size_u64 pg) vaddr s = Inr (u, s')" for u s'
    using map_page_entered(2) [OF assms that] walk_kept unfolding entered_def lookup_page_def by blast
  with map_page_entered(1) [OF assms] show ?thesis by blast
qed

text \<open>A three-level table tree with one frame in it, for the witnesses.\<close>

definition example_vspace :: spec_container where
  "example_vspace = spec_new\<lparr>sc_objects :=
     [\<lparr>no_name = ''pgd_a'', no_object = ObjPageTable False True (Some 0) []\<rparr>,
      \<lparr>no_name = ''frame_a'', no_object = ObjFrame 12 None []\<rparr>], sc_root_end := 2\<rparr>"

lemma example_paging: "paging example_riscv_config 3 0"
  by (simp add: paging_def num_page_table_levels_def top_pt_level_number_def example_riscv_config_def)

theorem map_page_spec_witness:
  "\<exists>s'. map_page example_riscv_config ''a'' 0 (CapReply 1) (page_size_u64 SmallPg) 0x1000 example_vspace = Inr ((), s')
     \<and> lookup_page 3 0 s' 0 SmallPg 0x1000 = Some (CapReply 1)"
proof -
  have wf: "range_ok example_vspace" "is_pt example_vspace 0"
    by (simp_all add: range_ok_def is_pt_def example_vspace_def spec_new_def)
  have "pt_entry example_vspace 0 k = None" for k
    by (simp add: pt_entry_def example_vspace_def spec_new_def find_slot_def)
  then have "page_free 3 0 example_vspace 0 SmallPg 0x1000"
    using wf(2) by (simp add: page_free_def target_level_def eval_nat_numeral)
  with map_page_spec [OF example_paging wf, of "''a''" "CapReply 1" SmallPg "0x1000"] show ?thesis
    by (auto simp: is_ok_iff)
qed

end
