(* ===== verification/Capdl_Irq.thy ===== *)
theory Capdl_Irq
  imports Capdl_Util
begin

unbundle bit_operations_syntax

text \<open>
  Interrupts, \<open>tool/microkit/src/capdl/irq.rs\<close>: the pseudo object of an interrupt, its entry in the
  interrupt table, and its binding to the notification of the protection domain.
\<close>

definition create_irq_obj :: "config \<Rightarrow> string \<Rightarrow> cpu_core \<Rightarrow> sys_irq \<Rightarrow> nat bld" where
  "create_irq_obj cfg owner cpu irq_desc =
     bindB (liftB (case irq_kind irq_desc of
         Conventional _ trigger \<Rightarrow>
           (case arch cfg of
              Aarch64 \<Rightarrow> Inr (ObjArmIrq [] (arm_riscv_irq_trigger_u8 trigger) (ucast cpu))
            | Riscv64 \<Rightarrow> Inr (ObjRiscvIrq [] (arm_riscv_irq_trigger_u8 trigger))
            | X86_64 \<Rightarrow> Inl (Panic UnreachableReached))
       | IOAPIC ioapic pin trigger polarity _ \<Rightarrow>
           Inr (ObjIrqIOApic [] ioapic pin (x86_ioapic_irq_trigger_u64 trigger)
                  (x86_ioapic_irq_polarity_u64 polarity))
       | MSI bus dev func handle _ \<Rightarrow> Inr (ObjIrqMsi [] handle bus dev func))) (\<lambda>ob.
       add_root_object \<lparr>no_name = ''irq_'' @ dec_string (unat (irq_num irq_desc)) @ ''_'' @ owner,
                        no_object = ob\<rparr>)"

definition bind_irq_to_ntfn :: "nat \<Rightarrow> cap \<Rightarrow> unit bld" where
  "bind_irq_to_ntfn irq_obj_id ntfn_cap =
     update_root_object irq_obj_id (\<lambda>ob. case ob of
         ObjArmIrq slots t c \<Rightarrow> Inr (ObjArmIrq (slots @ [capdl_util_make_cte 0 ntfn_cap]) t c)
       | ObjIrqMsi slots h b d f \<Rightarrow> Inr (ObjIrqMsi (slots @ [capdl_util_make_cte 0 ntfn_cap]) h b d f)
       | ObjIrqIOApic slots a p l q \<Rightarrow> Inr (ObjIrqIOApic (slots @ [capdl_util_make_cte 0 ntfn_cap]) a p l q)
       | ObjRiscvIrq slots t \<Rightarrow> Inr (ObjRiscvIrq (slots @ [capdl_util_make_cte 0 ntfn_cap]) t)
       | _ \<Rightarrow> Inl (Panic UnreachableReached))"

definition make_irq_handler_cap :: "config \<Rightarrow> nat \<Rightarrow> sys_irq_kind \<Rightarrow> ('e, cap) res" where
  "make_irq_handler_cap cfg irq_obj_id kind = (case kind of
      Conventional _ _ \<Rightarrow>
        (case arch cfg of
           Aarch64 \<Rightarrow> Inr (CapArmIrqHandler irq_obj_id)
         | Riscv64 \<Rightarrow> Inr (CapRiscvIrqHandler irq_obj_id)
         | X86_64 \<Rightarrow> Inl (Panic UnreachableReached))
    | IOAPIC _ _ _ _ _ \<Rightarrow> Inr (CapIrqIOApicHandler irq_obj_id)
    | MSI _ _ _ _ _ \<Rightarrow> Inr (CapIrqMsiHandler irq_obj_id))"

text \<open>The entry of the separate interrupt table.\<close>

definition push_irq :: "u64 \<Rightarrow> nat \<Rightarrow> unit bld" where
  "push_irq irq handler = (\<lambda>s. Inr ((), s\<lparr>sc_irqs := sc_irqs s @ [(irq, handler)]\<rparr>))"

definition create_irq_handler_cap :: "config \<Rightarrow> string \<Rightarrow> cpu_core \<Rightarrow> nat \<Rightarrow> sys_irq \<Rightarrow> cap bld" where
  "create_irq_handler_cap cfg owner cpu ntfn_obj_id irq_desc =
     bindB (create_irq_obj cfg owner cpu irq_desc) (\<lambda>irq_obj_id.
     bindB (push_irq (irq_num irq_desc) irq_obj_id) (\<lambda>_.
     bindB (bind_irq_to_ntfn irq_obj_id
              (capdl_util_make_ntfn_cap ntfn_obj_id True True (shl 1 (irq_id irq_desc)))) (\<lambda>_.
       liftB (make_irq_handler_cap cfg irq_obj_id (irq_kind irq_desc)))))"

text \<open>The kinds of interrupt an architecture has, as the parser of the system description enforces.\<close>

definition irq_kind_ok :: "config \<Rightarrow> sys_irq_kind \<Rightarrow> bool" where
  "irq_kind_ok cfg k = (case k of Conventional _ _ \<Rightarrow> arch cfg \<noteq> X86_64 | _ \<Rightarrow> True)"

text \<open>The single binding of an interrupt: the table entry, and the badge with which the kernel signals
  the notification.\<close>

lemma create_irq_obj_run:
  assumes "range_ok s" "irq_kind_ok cfg (irq_kind d)"
  obtains ob where "create_irq_obj cfg owner cpu d s = Inr (length (sc_objects s),
      s\<lparr>sc_objects := sc_objects s @ [\<lparr>no_name = ''irq_'' @ dec_string (unat (irq_num d)) @ ''_'' @ owner,
          no_object = ob\<rparr>], sc_root_end := sc_root_end s + 1\<rparr>)"
    "has_slots ob" "the_slots ob = []"
    "case ob of ObjArmIrq _ _ _ \<Rightarrow> True | ObjIrqMsi _ _ _ _ _ \<Rightarrow> True | ObjIrqIOApic _ _ _ _ _ \<Rightarrow> True
      | ObjRiscvIrq _ _ \<Rightarrow> True | _ \<Rightarrow> False"
proof (cases "irq_kind d")
  case (Conventional irq trigger)
  with assms that show thesis
    by (cases "arch cfg")
      (auto simp: create_irq_obj_def bindB_def liftB_def add_root_object_run irq_kind_ok_def the_slots_def)
next
  case IOAPIC
  with assms that show thesis
    by (auto simp: create_irq_obj_def bindB_def liftB_def add_root_object_run the_slots_def)
next
  case MSI
  with assms that show thesis
    by (auto simp: create_irq_obj_def bindB_def liftB_def add_root_object_run the_slots_def)
qed

text \<open>For an interrupt of a kind the architecture has, the tool never fails: it adds one object and
  one entry of the interrupt table with the interrupt's number that names this object, the object's only
  capability signals the notification of the domain with the bit of the identifier as its badge, and the
  capability returned names the object.  Nothing else changes.\<close>

theorem create_irq_handler_cap_spec:
  assumes "range_ok s" and "irq_kind_ok cfg (irq_kind d)"
  shows "\<exists>c ob s'. create_irq_handler_cap cfg owner cpu ntfn d s = Inr (c, s')
     \<and> cap_obj c = length (sc_objects s)
     \<and> sc_objects s' = sc_objects s @ [ob]
     \<and> sc_irqs s' = sc_irqs s @ [(irq_num d, length (sc_objects s))]
     \<and> the_slots (no_object ob) = [(0, CapNotification ntfn (shl 1 (irq_id d))
          \<lparr>r_read = True, r_write = True, r_grant = False, r_grant_reply = False\<rparr>)]
     \<and> range_ok s'"
proof -
  obtain ob where ob: "create_irq_obj cfg owner cpu d s = Inr (length (sc_objects s),
      s\<lparr>sc_objects := sc_objects s @ [\<lparr>no_name = ''irq_'' @ dec_string (unat (irq_num d)) @ ''_'' @ owner,
          no_object = ob\<rparr>], sc_root_end := sc_root_end s + 1\<rparr>)" "has_slots ob" "the_slots ob = []"
    "case ob of ObjArmIrq _ _ _ \<Rightarrow> True | ObjIrqMsi _ _ _ _ _ \<Rightarrow> True | ObjIrqIOApic _ _ _ _ _ \<Rightarrow> True
      | ObjRiscvIrq _ _ \<Rightarrow> True | _ \<Rightarrow> False"
    by (rule create_irq_obj_run [OF assms, where owner = owner and cpu = cpu]) (rule that)
  let ?n = "length (sc_objects s)"
  let ?s1 = "s\<lparr>sc_objects := sc_objects s @ [\<lparr>no_name = ''irq_'' @ dec_string (unat (irq_num d)) @ ''_'' @ owner,
          no_object = ob\<rparr>], sc_root_end := sc_root_end s + 1, sc_irqs := sc_irqs s @ [(irq_num d, ?n)]\<rparr>"
  let ?c = "CapNotification ntfn (shl 1 (irq_id d))
          \<lparr>r_read = True, r_write = True, r_grant = False, r_grant_reply = False\<rparr>"
  have r: "range_ok ?s1" using assms(1) by (simp add: range_ok_def)
  have b: "bind_irq_to_ntfn ?n ?c ?s1 = Inr ((), ?s1\<lparr>sc_objects := sc_objects s @
      [\<lparr>no_name = ''irq_'' @ dec_string (unat (irq_num d)) @ ''_'' @ owner, no_object = set_slots [(0, ?c)] ob\<rparr>]\<rparr>)"
    using ob(3,4) r
    by (auto simp: bind_irq_to_ntfn_def update_root_object_Inr capdl_util_make_cte_def the_slots_def
        split: capdl_object.splits)
  obtain hc where hc: "make_irq_handler_cap cfg ?n (irq_kind d) = (Inr hc :: (capdl_error, cap) res)" "cap_obj hc = ?n"
    using assms(2) by (cases "irq_kind d"; cases "arch cfg") (auto simp: make_irq_handler_cap_def irq_kind_ok_def)
  have "create_irq_handler_cap cfg owner cpu ntfn d s = Inr (hc, ?s1\<lparr>sc_objects := sc_objects s @
      [\<lparr>no_name = ''irq_'' @ dec_string (unat (irq_num d)) @ ''_'' @ owner, no_object = set_slots [(0, ?c)] ob\<rparr>]\<rparr>)"
    using ob(1) b hc(1)
    by (simp add: create_irq_handler_cap_def bindB_def push_irq_def liftB_def capdl_util_make_ntfn_cap_def)
  with hc(2) ob(2) assms(1) show ?thesis by (auto simp: range_ok_def)
qed

theorem create_irq_handler_cap_spec_witness:
  "\<exists>c s'. create_irq_handler_cap example_riscv_config ''a'' 0 0 \<lparr>irq_id = 3, irq_kind = Conventional 33 ArLevel\<rparr>
            spec_new = Inr (c, s') \<and> sc_irqs s' = [(33, 0)]"
proof -
  have "range_ok spec_new" by (simp add: range_ok_def spec_new_def)
  moreover have "irq_kind_ok example_riscv_config (irq_kind \<lparr>irq_id = 3, irq_kind = Conventional 33 ArLevel\<rparr>)"
    by (simp add: irq_kind_ok_def example_riscv_config_def)
  ultimately show ?thesis
    using create_irq_handler_cap_spec [of spec_new example_riscv_config "\<lparr>irq_id = 3, irq_kind = Conventional 33 ArLevel\<rparr>" "''a''" 0 0]
    by (fastforce simp: spec_new_def irq_num_def)
qed

end
