(* ===== verification/Capdl_Frame.thy ===== *)
theory Capdl_Frame
  imports Page_Tables Capdl_Irq
begin

text \<open>
  What building steps do to the objects that exist already.  A step only adds objects and appends
  capabilities to capability nodes and page tables; it never renames, removes or otherwise changes an
  object.  \<open>builds n S m ids Q\<close> states this of a step \<open>m\<close> for the objects below \<open>n\<close>, together with
  the invariant that every capability names an object: \<open>S\<close> are the objects the step refers to, \<open>ids\<close>
  the objects its result refers to, \<open>Q\<close> a fact about the result.  Its rules follow the structure of a
  step, so that a proof for a composed step is an application of the rules of its parts.
\<close>

section \<open>Growing objects\<close>

definition growable :: "capdl_object \<Rightarrow> bool" where
  "growable ob = (case ob of ObjCNode _ _ \<Rightarrow> True | ObjPageTable _ _ _ _ \<Rightarrow> True | _ \<Rightarrow> False)"

definition grown_object :: "capdl_object \<Rightarrow> capdl_object \<Rightarrow> bool" where
  "grown_object ob ob' \<longleftrightarrow> ob' = ob \<or> growable ob \<and> (\<exists>more. ob' = set_slots (the_slots ob @ more) ob)"

lemma growable_has_slots: "growable ob \<Longrightarrow> has_slots ob"
  by (cases ob) (simp_all add: growable_def)

lemma growable_set [simp]: "growable (set_slots sl ob) = growable ob"
  by (cases ob) (simp_all add: growable_def)

lemma set_slots_set [simp]: "set_slots sl (set_slots sl' ob) = set_slots sl ob"
  by (cases ob) simp_all

lemma set_slots_same: "has_slots ob \<Longrightarrow> set_slots (the_slots ob) ob = ob"
  by (cases ob) (simp_all add: the_slots_def)

lemma grown_object_refl [simp]: "grown_object ob ob"
  by (simp add: grown_object_def)

lemma grown_object_trans: "grown_object a b \<Longrightarrow> grown_object b c \<Longrightarrow> grown_object a c"
  by (auto simp: grown_object_def growable_has_slots)

lemma grown_object_slots: "grown_object ob ob' \<Longrightarrow> set (the_slots ob) \<subseteq> set (the_slots ob')"
  by (auto simp: grown_object_def growable_has_slots)

lemma grown_object_fixed: "grown_object ob ob' \<Longrightarrow> \<not> growable ob \<Longrightarrow> ob' = ob"
  by (simp add: grown_object_def)

lemma grown_object_growable: "grown_object ob ob' \<Longrightarrow> growable ob' = growable ob"
  by (auto simp: grown_object_def)

section \<open>Growing containers\<close>

definition grows :: "nat \<Rightarrow> spec_container \<Rightarrow> spec_container \<Rightarrow> bool" where
  "grows n s s' \<longleftrightarrow> length (sc_objects s) \<le> length (sc_objects s')
     \<and> (\<forall>i. i < n \<longrightarrow> i < length (sc_objects s) \<longrightarrow> no_name (sc_objects s' ! i) = no_name (sc_objects s ! i)
          \<and> grown_object (no_object (sc_objects s ! i)) (no_object (sc_objects s' ! i)))"

lemma grows_refl [simp]: "grows n s s"
  by (simp add: grows_def)

lemma grows_trans: "grows n s t \<Longrightarrow> grows n t u \<Longrightarrow> grows n s u"
  by (auto simp: grows_def intro: grown_object_trans)

lemma grows_length: "grows n s t \<Longrightarrow> length (sc_objects s) \<le> length (sc_objects t)"
  by (simp add: grows_def)

lemma grows_mono: "grows n s t \<Longrightarrow> m \<le> n \<Longrightarrow> grows m s t"
  by (auto simp: grows_def)

lemma grows_append: "grows n s (s\<lparr>sc_objects := sc_objects s @ obs, sc_root_end := e\<rparr>)"
  by (auto simp: grows_def nth_append)

lemma spec_wf_range [simp]: "spec_wf s \<Longrightarrow> range_ok s"
  by (simp add: spec_wf_def)

section \<open>Steps that build\<close>

definition builds ::
    "nat \<Rightarrow> nat set \<Rightarrow> 'a bld \<Rightarrow> ('a \<Rightarrow> nat set) \<Rightarrow> ('a \<Rightarrow> bool) \<Rightarrow> bool" where
  "builds n S m ids Q \<longleftrightarrow> (\<forall>s x s'. spec_wf s \<longrightarrow> n \<le> length (sc_objects s) \<longrightarrow> S \<subseteq> {..<length (sc_objects s)}
     \<longrightarrow> m s = Inr (x, s') \<longrightarrow>
       spec_wf s' \<and> grows n s s' \<and> ids x \<subseteq> {..<length (sc_objects s')} \<and> Q x)"

named_theorems builds \<open>rules for steps that build\<close>

lemma buildsD:
  assumes "builds n S m ids Q" "m s = Inr (x, s')" "spec_wf s" "n \<le> length (sc_objects s)"
    "S \<subseteq> {..<length (sc_objects s)}"
  shows "spec_wf s'" "grows n s s'" "ids x \<subseteq> {..<length (sc_objects s')}" "Q x"
  using assms by (auto simp: builds_def)

lemma builds_weaken:
  "builds n S m ids Q \<Longrightarrow> S \<subseteq> S' \<Longrightarrow> (\<And>x. ids' x \<subseteq> ids x \<union> S') \<Longrightarrow> (\<And>x. Q x \<Longrightarrow> Q' x) \<Longrightarrow> builds n S' m ids' Q'"
  unfolding builds_def
proof (intro allI impI)
  fix s x s'
  assume *: "\<forall>s x s'. spec_wf s \<longrightarrow> n \<le> length (sc_objects s) \<longrightarrow> S \<subseteq> {..<length (sc_objects s)}
     \<longrightarrow> m s = Inr (x, s') \<longrightarrow>
       spec_wf s' \<and> grows n s s' \<and> ids x \<subseteq> {..<length (sc_objects s')} \<and> Q x"
    and sub: "S \<subseteq> S'" "\<And>x. ids' x \<subseteq> ids x \<union> S'" "\<And>x. Q x \<Longrightarrow> Q' x"
    and s: "spec_wf s" "n \<le> length (sc_objects s)" "S' \<subseteq> {..<length (sc_objects s)}" "m s = Inr (x, s')"
  from * s sub(1) have r: "spec_wf s'" "grows n s s'" "ids x \<subseteq> {..<length (sc_objects s')}" "Q x" by blast+
  from grows_length [OF r(2)] s(3) have "S' \<subseteq> {..<length (sc_objects s')}" by auto
  with r sub(2) [of x] sub(3) show
    "spec_wf s' \<and> grows n s s' \<and> ids' x \<subseteq> {..<length (sc_objects s')} \<and> Q' x" by blast
qed

lemma builds_return [builds]: "ids x \<subseteq> S \<Longrightarrow> Q x \<Longrightarrow> builds n S (returnB x) ids Q"
  by (auto simp: builds_def bld_simps)

lemma builds_lift [builds]:
  "(\<And>x. r = Inr x \<Longrightarrow> ids x \<subseteq> S \<and> Q x) \<Longrightarrow> builds n S (liftB r) ids Q"
  by (fastforce simp: builds_def bld_simps)

lemma builds_bind:
  assumes "builds n S m ids Q" and "\<And>x. Q x \<Longrightarrow> builds n (S \<union> ids x) (f x) ids' Q'"
  shows "builds n S (bindB m f) ids' Q'"
  unfolding builds_def
proof (intro allI impI)
  fix s y u
  assume s: "spec_wf s" "n \<le> length (sc_objects s)" "S \<subseteq> {..<length (sc_objects s)}" "bindB m f s = Inr (y, u)"
  from s(4) obtain x t where r: "m s = Inr (x, t)" "f x t = Inr (y, u)" by (auto simp: bld_simps)
  note t = buildsD [OF assms(1) r(1) s(1-3)]
  from grows_length [OF t(2)] s(2,3) t(3)
  have "n \<le> length (sc_objects t)" "S \<union> ids x \<subseteq> {..<length (sc_objects t)}" by auto
  note u = buildsD [OF assms(2) [OF t(4)] r(2) t(1) this]
  from u grows_trans [OF t(2) u(2)]
  show "spec_wf u \<and> grows n s u \<and> ids' y \<subseteq> {..<length (sc_objects u)} \<and> Q' y" by blast
qed

lemma builds_unwrap [builds]: "builds n S m ids Q \<Longrightarrow> builds n S (unwrapB m) ids Q"
  by (simp add: builds_def bld_simps)

lemma builds_fold:
  assumes "\<And>acc x. x \<in> set xs \<Longrightarrow> Q acc \<Longrightarrow> builds n (S \<union> ids acc) (f acc x) ids Q" "ids acc \<subseteq> S" "Q acc"
  shows "builds n S (foldB f acc xs) ids Q"
proof -
  have "builds n (S \<union> ids acc) (foldB f acc xs) ids Q"
    using assms(1,3)
  proof (induction xs arbitrary: acc)
    case Nil
    then show ?case by (auto intro: builds_return)
  next
    case (Cons x xs)
    have "builds n (S \<union> ids acc \<union> ids b) (foldB f b xs) ids Q" if "Q b" for b
      by (rule builds_weaken [OF Cons.IH [OF _ that]]) (use Cons.prems in auto)
    with Cons.prems show ?case by (auto intro!: builds_bind)
  qed
  moreover have "S \<union> ids acc = S" using assms(2) by auto
  ultimately show ?thesis by simp
qed

definition obj_ids :: "capdl_object \<Rightarrow> nat set" where
  "obj_ids ob = (\<lambda>(_, c). cap_obj c) ` set (the_slots ob)"

definition cte_ids :: "cte list \<Rightarrow> nat set" where
  "cte_ids sl = (\<lambda>(_, c). cap_obj c) ` set sl"

lemma cte_ids_simps [simp]:
  "cte_ids [] = {}" "cte_ids ((k, c) # sl) = insert (cap_obj c) (cte_ids sl)"
  "cte_ids (sl @ sl') = cte_ids sl \<union> cte_ids sl'"
  by (auto simp: cte_ids_def)

lemma obj_ids_alt: "obj_ids ob = cte_ids (the_slots ob)"
  by (simp add: obj_ids_def cte_ids_def)

lemma obj_ids_simps [simp]:
  "obj_ids (ObjCNode b sl) = cte_ids sl" "obj_ids (ObjTcb sl e) = cte_ids sl"
  "obj_ids (ObjPageTable x r l sl) = cte_ids sl" "obj_ids (ObjFrame z p fl) = {}"
  "obj_ids ObjEndpoint = {}" "obj_ids ObjNotification = {}" "obj_ids ObjReply = {}" "obj_ids ObjVCpu = {}"
  "obj_ids (ObjSchedContext b pe q a) = {}" "obj_ids (ObjIOPorts lo hi) = {}" "obj_ids ObjArmSmc = {}"
  by (simp_all add: obj_ids_alt the_slots_def)

lemma caps_below_iff: "caps_below n ob \<longleftrightarrow> obj_ids ob \<subseteq> {..<n}"
  by (auto simp: caps_below_def obj_ids_def)

lemma builds_add [builds]:
  assumes "obj_ids (no_object ob) \<subseteq> S"
  shows "builds n S (add_root_object ob) (\<lambda>i. {i}) (\<lambda>i. n \<le> i)"
  unfolding builds_def
proof (intro allI impI)
  fix s i s'
  assume s: "spec_wf s" "n \<le> length (sc_objects s)" "S \<subseteq> {..<length (sc_objects s)}"
    and run: "add_root_object ob s = Inr (i, s')"
  have "caps_below (Suc (length (sc_objects s))) (no_object ob)"
    using assms s(3) by (fastforce simp: caps_below_iff)
  from add_root_object_wf [OF run s(1) this]
  have "spec_wf s'" "i < length (sc_objects s')" by simp_all
  moreover from run s(1)
  have "i = length (sc_objects s)" "s' = s\<lparr>sc_objects := sc_objects s @ [ob], sc_root_end := sc_root_end s + 1\<rparr>"
    by (simp_all add: add_root_object_Inr)
  ultimately show "spec_wf s' \<and> grows n s s' \<and> {i} \<subseteq> {..<length (sc_objects s')} \<and> n \<le> i"
    using s(2) by (simp add: grows_append)
qed

lemma builds_root_object:
  "builds n S (root_object i) (\<lambda>ob. obj_ids (no_object ob)) (\<lambda>_. True)"
  unfolding builds_def
  by (auto simp: bld_simps spec_wf_def caps_below_iff dest!: nth_mem)

lemma builds_update:
  assumes "\<And>ob ob'. f ob = Inr ob' \<Longrightarrow> obj_ids ob' \<subseteq> obj_ids ob \<union> S"
    and "n \<le> i \<or> (\<forall>ob ob'. f ob = Inr ob' \<longrightarrow> grown_object ob ob')"
  shows "builds n S (update_root_object i f) (\<lambda>_. {}) (\<lambda>_. True)"
  unfolding builds_def
proof (intro allI impI)
  fix s u s'
  assume s: "spec_wf s" "n \<le> length (sc_objects s)" "S \<subseteq> {..<length (sc_objects s)}"
    and run: "update_root_object i f s = Inr (u, s')"
  have "spec_wf s' \<and> length (sc_objects s') = length (sc_objects s)"
    using run s(1)
    by (rule update_root_object_wf) (use assms(1) s(3) in \<open>auto simp: caps_below_iff dest!: assms(1)\<close>)
  moreover have "grows n s s'"
    using run s(1,2) assms(2)
    by (auto simp: update_root_object_Inr grows_def nth_list_update)
  ultimately show "spec_wf s' \<and> grows n s s' \<and> {} \<subseteq> {..<length (sc_objects s')} \<and> True" by simp
qed

lemma builds_fail [builds]: "builds n S (liftB (Inl e)) ids Q"
  by (simp add: builds_def bld_simps)

section \<open>The constructors and the page tables\<close>

lemma builds_make_obj [builds]:
  "builds n S (capdl_util_make_frame_obj fl name p b) (\<lambda>i. {i}) (\<lambda>i. n \<le> i)"
  "builds n S (capdl_util_make_endpoint_obj owner is_fault) (\<lambda>i. {i}) (\<lambda>i. n \<le> i)"
  "builds n S (capdl_util_make_ntfn_obj owner) (\<lambda>i. {i}) (\<lambda>i. n \<le> i)"
  "builds n S (capdl_util_make_reply_obj owner) (\<lambda>i. {i}) (\<lambda>i. n \<le> i)"
  "builds n S (capdl_util_make_sc_obj owner z pe bu ba) (\<lambda>i. {i}) (\<lambda>i. n \<le> i)"
  "builds n S (capdl_util_make_ioport_obj owner a sz) (\<lambda>i. {i}) (\<lambda>i. n \<le> i)"
  "builds n S (capdl_util_make_vcpu_obj name) (\<lambda>i. {i}) (\<lambda>i. n \<le> i)"
  by (simp_all add: util_obj_defs builds_add)

lemma builds_make_cnode [builds]:
  "cte_ids sl \<subseteq> S \<Longrightarrow> builds n S (capdl_util_make_cnode_obj owner z sl) (\<lambda>i. {i}) (\<lambda>i. n \<le> i)"
  by (simp add: util_obj_defs builds_add)

lemma builds_insert_cap [builds]:
  assumes "cap_obj c \<in> S"
  shows "builds n S (capdl_util_insert_cap_into_cspace i k c) (\<lambda>_. {}) (\<lambda>_. True)"
  unfolding capdl_util_insert_cap_into_cspace_def
proof (rule builds_bind [where ids = "\<lambda>_. {}" and Q = "\<lambda>_. True"])
  show "builds n (S \<union> {}) (update_root_object i (\<lambda>ob. case ob of
           ObjCNode bits slots \<Rightarrow> Inr (ObjCNode bits (slots @ [capdl_util_make_cte k c]))
         | _ \<Rightarrow> Inl (Panic UnreachableReached))) (\<lambda>_. {}) (\<lambda>_. True)"
    by (rule builds_update)
      (use assms in \<open>auto simp: capdl_util_make_cte_def grown_object_def growable_def the_slots_def
         split: capdl_object.splits\<close>)
qed (auto intro: builds)

lemma find_slot_ids: "find_slot idx slots = Some c \<Longrightarrow> cap_obj c \<in> cte_ids slots"
  by (induction slots) (auto simp: find_slot_def split: if_splits)

lemma builds_insert_pt [builds]:
  assumes "cap_obj c \<in> S"
  shows "builds n S (insert_cap_into_page_table_level i level idx c) (\<lambda>_. {}) (\<lambda>_. True)"
  unfolding insert_cap_into_page_table_level_def
  by (rule builds_update)
    (use assms in \<open>auto simp: capdl_util_make_cte_def grown_object_def growable_def the_slots_def
       split: capdl_object.splits option.splits\<close>)

lemma builds_intermediary [builds]:
  "builds n S (map_intermediary_level_helper cfg owner prefix vspace i level idx vaddr) (\<lambda>i. {i}) (\<lambda>_. True)"
  unfolding map_intermediary_level_helper_def
proof (rule builds_bind [OF builds_root_object])
  fix cur
  show "builds n (S \<union> obj_ids (no_object cur)) (case no_object cur of
         ObjPageTable _ _ _ slots \<Rightarrow>
           (case find_slot idx slots of
              Some c \<Rightarrow> returnB (cap_obj c)
            | None \<Rightarrow>
                bindB (root_object vspace) (\<lambda>vspace. case no_object vspace of
                    ObjPageTable ept _ _ _ \<Rightarrow>
                      bindB (liftB (get_pt_level_coverage cfg (level + 1) vaddr)) (\<lambda>(low, high).
                      bindB (add_root_object
                               \<lparr>no_name = prefix @ ''_'' @ owner @ ''_vaddr_0x'' @ hex_string (unat low),
                                no_object = ObjPageTable ept False (Some (of_nat level + 1)) []\<rparr>) (\<lambda>next_id.
                      bindB (insert_cap_into_page_table_level i level idx (CapPageTable next_id)) (\<lambda>_.
                        returnB next_id)))
                  | _ \<Rightarrow> liftB (Inl (Panic UnreachableReached))))
       | _ \<Rightarrow> liftB (Inl (Err (NotAPageTable i level)))) (\<lambda>i. {i}) (\<lambda>_. True)"
    by (auto split: capdl_object.split option.split dest: find_slot_ids
        intro!: builds builds_bind [OF builds_root_object]
          builds_bind [OF builds_lift [where ids = "\<lambda>_. {}" and Q = "\<lambda>_. True"]]
          builds_bind [OF builds_add] builds_bind [OF builds_insert_pt])
qed

lemma map_recursive_bld:
  "map_recursive cfg owner vspace_id pt_id cur_level frame_cap frame_bytes vaddr =
     bindB (liftB (num_page_table_levels cfg)) (\<lambda>lvls.
     if cur_level \<ge> lvls then liftB (Inl (Panic UnreachableReached))
     else
       bindB (liftB (get_pt_level_index cfg cur_level vaddr)) (\<lambda>this_level_index.
       bindB (liftB (get_pt_level_to_insert cfg frame_bytes)) (\<lambda>target.
       if cur_level = target
       then insert_cap_into_page_table_level pt_id cur_level this_level_index frame_cap
       else
         bindB (liftB (get_pt_level_name cfg (cur_level + 1))) (\<lambda>prefix.
         bindB (map_intermediary_level_helper cfg owner prefix vspace_id pt_id cur_level
                  this_level_index vaddr) (\<lambda>next_id.
           map_recursive cfg owner vspace_id next_id (cur_level + 1) frame_cap frame_bytes vaddr)))))"
  by (rule ext, subst map_recursive.simps)
    (auto simp: bindB_def liftB_def bindr_assoc intro!: arg_cong2 [where f = bindr] ext)

lemmas builds_lift0 = builds_lift [where ids = "\<lambda>_. {}" and Q = "\<lambda>_. True", simplified]

lemma builds_map_recursive [builds]:
  "cap_obj c \<in> S \<Longrightarrow>
     builds n S (map_recursive cfg owner vspace_id pt_id cur_level c frame_bytes vaddr) (\<lambda>_. {}) (\<lambda>_. True)"
proof (induction "5 - cur_level" arbitrary: cur_level pt_id S rule: less_induct)
  case less
  have IH: "builds n S' (map_recursive cfg owner vspace_id pt' (Suc cur_level) c frame_bytes vaddr) (\<lambda>_. {}) (\<lambda>_. True)"
    if "num_page_table_levels cfg = (Inr lvls :: (capdl_error, nat) res)" "cur_level < lvls" "cap_obj c \<in> S'"
    for lvls pt' S'
    by (rule less.hyps) (use that num_levels_le [OF that(1)] in auto)
  show ?case
    apply (subst map_recursive_bld)
    apply (rule builds_bind [OF builds_lift [where ids = "\<lambda>_. {}"
            and Q = "\<lambda>lvls. num_page_table_levels cfg = (Inr lvls :: (capdl_error, nat) res)"]])
     apply simp
    using less.prems
    by (auto intro!: builds builds_bind [OF builds_lift0] builds_bind [OF builds_intermediary]) (auto intro: IH)
qed

lemma builds_map_page [builds]:
  "cap_obj c \<in> S \<Longrightarrow> builds n S (map_page cfg owner vspace c frame_bytes vaddr) (\<lambda>_. {}) (\<lambda>_. True)"
  unfolding map_page_def by (auto intro!: builds_bind [OF builds_lift0] builds)

lemma builds_create_vspace [builds]:
  "builds n S (create_vspace cfg owner) (\<lambda>i. {i}) (\<lambda>i. n \<le> i)"
  "builds n S (create_vspace_ept cfg owner) (\<lambda>i. {i}) (\<lambda>i. n \<le> i)"
  unfolding create_vspace_def create_vspace_ept_def
  by (auto intro!: builds_bind [OF builds_lift0] builds)

section \<open>Interrupts\<close>

lemma builds_push_irq: "i \<in> S \<Longrightarrow> builds n S (push_irq irq i) (\<lambda>_. {}) (\<lambda>_. True)"
  by (auto simp: builds_def push_irq_def spec_wf_def range_ok_def grows_def)

lemma builds_create_irq [builds]:
  assumes "ntfn \<in> S"
  shows "builds n S (create_irq_handler_cap cfg owner cpu ntfn d) (\<lambda>c. {cap_obj c}) (\<lambda>_. True)"
proof -
  have new: "builds n S (create_irq_obj cfg owner cpu d) (\<lambda>i. {i}) (\<lambda>i. n \<le> i)"
    unfolding create_irq_obj_def
    by (rule builds_bind [OF builds_lift [where ids = "\<lambda>_. {}" and Q = "\<lambda>ob. obj_ids ob = {}"]])
      (auto simp: obj_ids_def the_slots_def split: sys_irq_kind.splits arch.splits intro!: builds)
  have bind: "builds n (S \<union> {i} \<union> {}) (bind_irq_to_ntfn i (capdl_util_make_ntfn_cap ntfn True True b))
      (\<lambda>_. {}) (\<lambda>_. True)" if "n \<le> i" for i b
    unfolding bind_irq_to_ntfn_def
    by (rule builds_update)
      (use assms that in \<open>auto simp: obj_ids_def the_slots_def capdl_util_make_cte_def capdl_util_make_ntfn_cap_def
         split: capdl_object.splits\<close>)
  show ?thesis
    unfolding create_irq_handler_cap_def
    by (auto intro!: builds_bind [OF new] builds_bind [OF builds_push_irq] builds_bind [OF bind] builds_lift
        simp: make_irq_handler_cap_def split: sys_irq_kind.splits arch.splits)
qed

end
