(* ===== verification/Address_Spaces.thy ===== *)
theory Address_Spaces
  imports Page_Tables
begin

unbundle bit_operations_syntax

text \<open>
  Address spaces as the builder fills them: the indices of the levels tell any two pages of the user
  address space apart, and \<open>map_memory_region\<close> of \<open>tool/microkit/src/capdl/builder.rs\<close> enters the
  frames of a region one after the other.
\<close>

section \<open>Indices tell pages apart\<close>

text \<open>The number of address bits the levels cover.\<close>

definition covered_bits :: "nat \<Rightarrow> nat \<Rightarrow> nat" where
  "covered_bits lvls topmost = level_shift lvls topmost + level_bits topmost topmost"

lemma pt_index_bits:
  assumes "pt_index lvls topmost level a = pt_index lvls topmost level b"
    and "level_shift lvls level \<le> k" and "k < level_shift lvls level + level_bits topmost level"
  shows "bit a k = bit (b :: u64) k"
proof -
  from assms(1) have "take_bit (level_bits topmost level) (drop_bit (level_shift lvls level) a)
      = take_bit (level_bits topmost level) (drop_bit (level_shift lvls level) b)"
    by (simp only: pt_index_def word_unat_eq_iff)
  then have "bit (take_bit (level_bits topmost level) (drop_bit (level_shift lvls level) a)) (k - level_shift lvls level)
      = bit (take_bit (level_bits topmost level) (drop_bit (level_shift lvls level) b)) (k - level_shift lvls level)"
    by simp
  moreover have "k - level_shift lvls level < level_bits topmost level" using assms(2,3) by linarith
  ultimately show ?thesis using assms(2) by (simp add: bit_take_bit_iff bit_drop_bit_eq)
qed

lemma low_bits_aligned: "2 ^ n dvd unat (a :: u64) \<Longrightarrow> k < n \<Longrightarrow> \<not> bit a k"
proof -
  assume "2 ^ n dvd unat a" "k < n"
  then have "take_bit n (unat a) = 0" by (simp add: take_bit_eq_0_iff)
  then have "\<not> bit (take_bit n (unat a)) k" by simp
  with \<open>k < n\<close> show ?thesis by (simp add: bit_take_bit_iff bit_unsigned_iff)
qed

lemma page_size_exp: "unat (page_size_u64 pg) = 2 ^ (case pg of SmallPg \<Rightarrow> 12 | LargePg \<Rightarrow> 21)"
  by (cases pg) simp_all

lemma level_of_bit:
  assumes "paging cfg lvls topmost"
    and "(case pg of SmallPg \<Rightarrow> 12 | LargePg \<Rightarrow> 21) \<le> k" and "k < covered_bits lvls topmost"
  obtains level where "topmost \<le> level" "level \<le> target_level lvls pg"
    "level_shift lvls level \<le> k" "k < level_shift lvls level + level_bits topmost level"
proof -
  have "\<exists>level \<ge> topmost. level \<le> target_level lvls pg
      \<and> level_shift lvls level \<le> k \<and> k < level_shift lvls level + level_bits topmost level"
  proof (rule ccontr)
    assume "\<not> ?thesis"
    then have q: "\<not> (topmost \<le> l \<and> l \<le> target_level lvls pg \<and> level_shift lvls l \<le> k
        \<and> k < level_shift lvls l + level_bits topmost l)" for l by blast
    from paging_cases [OF assms(1)] consider "topmost = 0" "lvls = 3" | "topmost = 0" "lvls = 4" | "topmost = 1" "lvls = 4"
      by auto
    then show False
      using q [of 0] q [of 1] q [of 2] q [of 3] assms(2,3)
      by cases (cases pg; simp add: covered_bits_def level_shift_def level_bits_def target_level_def)+
  qed
  with that show thesis by blast
qed

lemma user_top_covered:
  assumes "paging cfg lvls topmost" "user_vspace_top cfg = (Inr utop :: (capdl_error, u64) res)"
  shows "unat utop < 2 ^ covered_bits lvls topmost"
proof -
  have cov: "covered_bits lvls topmost = (if topmost = 1 then 40 else if lvls = 3 then 39 else 48)"
    using paging_cases [OF assms(1)] by (auto simp: covered_bits_def level_shift_def level_bits_def)
  show ?thesis
  proof (cases "arch cfg")
    case Aarch64
    with assms(1) have four: "lvls = 4" by (simp add: paging_def num_page_table_levels_def)
    from Aarch64 assms(1) obtain b where b: "aarch64_vspace_s2_start_l1 cfg = (Inr b :: (capdl_error, bool) res)"
      "topmost = (if b then 1 else 0)"
      by (auto simp: paging_def top_pt_level_number_def bindr_eq_Inr)
    show ?thesis
      using Aarch64 assms(2) b cov four
      by (auto simp: user_vspace_top_def aarch64_vspace_s2_start_l1_def bindr_eq_Inr unwrapr_eq_Inr
          split: if_splits)
  next
    case Riscv64
    with assms(1) have "lvls = 3" "topmost = 0"
      by (auto simp: paging_def num_page_table_levels_def top_pt_level_number_def bindr_eq_Inr)
    with Riscv64 assms(2) cov show ?thesis by (auto simp: user_vspace_top_def)
  next
    case X86_64
    with assms(1) have "lvls = 4" "topmost = 0"
      by (auto simp: paging_def num_page_table_levels_def top_pt_level_number_def)
    with X86_64 assms(2) cov show ?thesis by (auto simp: user_vspace_top_def)
  qed
qed

text \<open>The indices the tool computes tell any two pages of the user address space apart: two page
  aligned addresses up to the top of the user address space of the configuration that have the same
  index at every level from the root of the VSpace down to the level at which pages of that size are
  entered are the same address.\<close>

theorem pt_indices_injective:
  assumes "paging cfg lvls topmost" and "user_vspace_top cfg = (Inr utop :: (capdl_error, u64) res)"
    and "a \<le> utop" and "b \<le> utop"
    and "unat (page_size_u64 pg) dvd unat a" and "unat (page_size_u64 pg) dvd unat b"
    and "\<forall>level. topmost \<le> level \<and> level \<le> target_level lvls pg \<longrightarrow>
           get_pt_level_index cfg level a = (get_pt_level_index cfg level b :: (capdl_error, nat) res)"
  shows "a = b"
proof (rule bit_word_eqI)
  fix k
  let ?p = "(case pg of SmallPg \<Rightarrow> 12 | LargePg \<Rightarrow> 21) :: nat"
  assume "k < LENGTH(64)"
  have hi: "\<not> bit w k" if "w \<le> utop" "covered_bits lvls topmost \<le> k" for w :: u64
  proof
    assume "bit w k"
    then have "2 ^ k \<le> unat w" by (rule bit_imp_unat_ge)
    moreover have "(2 :: nat) ^ covered_bits lvls topmost \<le> 2 ^ k" using that(2) by (intro power_increasing) simp_all
    moreover have "unat w \<le> unat utop" using that(1) by (simp add: word_le_nat_alt)
    ultimately show False using user_top_covered [OF assms(1,2)] by simp
  qed
  consider "k < ?p" | "?p \<le> k" "k < covered_bits lvls topmost" | "covered_bits lvls topmost \<le> k" by linarith
  then show "bit a k = bit b k"
  proof cases
    case 1
    then show ?thesis using low_bits_aligned assms(5,6) unfolding page_size_exp by blast
  next
    case 2
    then obtain level where l: "topmost \<le> level" "level \<le> target_level lvls pg"
      "level_shift lvls level \<le> k" "k < level_shift lvls level + level_bits topmost level"
      by (rule level_of_bit [OF assms(1)]) (rule that)
    have "level < lvls" using l(2) target_level_bounds [OF assms(1), of pg] by simp
    from assms(7) l(1,2)
    have "get_pt_level_index cfg level a = (get_pt_level_index cfg level b :: (capdl_error, nat) res)" by blast
    then have "pt_index lvls topmost level a = pt_index lvls topmost level b"
      using get_pt_level_index_run [OF assms(1) l(1) \<open>level < lvls\<close>] by simp
    then show ?thesis using l(3,4) by (rule pt_index_bits)
  next
    case 3
    then show ?thesis using hi assms(3,4) by blast
  qed
qed

theorem pt_indices_injective_witness:
  "(0x1000 :: u64) = 0x1000 \<and> paging example_riscv_config 3 0"
  using pt_indices_injective [OF example_paging, of "0x3fffffefff" "0x1000" "0x1000" SmallPg] example_paging
  by (simp add: user_vspace_top_def example_riscv_config_def)

section \<open>Mapping a memory region\<close>

definition map_memory_region :: "config \<Rightarrow> string \<Rightarrow> sys_map \<Rightarrow> u64 \<Rightarrow> nat \<Rightarrow> nat list \<Rightarrow> unit bld" where
  "map_memory_region cfg owner mp page_sz target_vspace frames =
     (let read = sm_perms mp AND sys_map_perms_u8 PermRead \<noteq> 0;
          write = sm_perms mp AND sys_map_perms_u8 PermWrite \<noteq> 0;
          execute = sm_perms mp AND sys_map_perms_u8 PermExecute \<noteq> 0;
          cached = sm_cached mp
      in bindB (foldB (\<lambda>cur_vaddr frame_id.
           let frame_cap = capdl_util_make_frame_cap frame_id read write execute cached
           in bindB (unwrapB (map_page cfg owner target_vspace frame_cap page_sz cur_vaddr)) (\<lambda>_.
                returnB (cur_vaddr + page_sz))) (sm_vaddr mp) frames) (\<lambda>_. returnB ()))"

text \<open>The capability for a frame of a mapping.\<close>

definition map_cap :: "sys_map \<Rightarrow> nat \<Rightarrow> cap" where
  "map_cap mp i = CapFrame i
     \<lparr>r_read = (sm_perms mp AND 1 \<noteq> 0), r_write = (sm_perms mp AND 2 \<noteq> 0), r_grant = False, r_grant_reply = False\<rparr>
     (sm_cached mp) (sm_perms mp AND 4 \<noteq> 0)"

definition lookups_kept :: "nat \<Rightarrow> nat \<Rightarrow> spec_container \<Rightarrow> spec_container \<Rightarrow> bool" where
  "lookups_kept lvls topmost s s' \<longleftrightarrow>
     (\<forall>v pg a d. lookup_page lvls topmost s v pg a = Some d \<longrightarrow> lookup_page lvls topmost s' v pg a = Some d)"

lemma entered_lookups: "entered lvls topmost s i level n vaddr c s' \<Longrightarrow> lookups_kept lvls topmost s s'"
  unfolding entered_def lookups_kept_def lookup_page_def using walk_kept by blast

text \<open>C18: when a memory region is mapped, every frame of the region is found, with the rights of the
  mapping, at its place in a row from the address of the mapping on, and no mapping that existed before
  is lost, in this or any other VSpace.\<close>

theorem map_memory_region_spec:
  assumes "paging cfg lvls topmost" and "range_ok s" and "is_pt s vspace"
    and "map_memory_region cfg owner mp (page_size_u64 pg) vspace frames s = Inr (u, s')"
  shows "(\<forall>i < length frames. lookup_page lvls topmost s' vspace pg (sm_vaddr mp + of_nat i * page_size_u64 pg)
             = Some (map_cap mp (frames ! i)))
     \<and> lookups_kept lvls topmost s s' \<and> range_ok s' \<and> is_pt s' vspace"
proof -
  let ?sz = "page_size_u64 pg"
  let ?f = "\<lambda>cur_vaddr frame_id. bindB (unwrapB (map_page cfg owner vspace (map_cap mp frame_id) ?sz cur_vaddr)) (\<lambda>_.
                returnB (cur_vaddr + ?sz))"
  let ?I = "\<lambda>ys a t. a = sm_vaddr mp + of_nat (length ys) * ?sz
      \<and> (\<forall>i < length ys. lookup_page lvls topmost t vspace pg (sm_vaddr mp + of_nat i * ?sz) = Some (map_cap mp (ys ! i)))
      \<and> lookups_kept lvls topmost s t \<and> range_ok t \<and> is_pt t vspace"
  from assms(4) obtain a where run: "foldB ?f (sm_vaddr mp) frames s = Inr (a, s')"
    by (auto simp: map_memory_region_def bld_simps Let_def capdl_util_make_frame_cap_def map_cap_def)
  have "?I frames a s'"
    using run
  proof (rule foldB_inv [where I = ?I])
    show "?I [] (sm_vaddr mp) s" using assms(2,3) by (simp add: lookups_kept_def)
    fix ys x a t b w
    assume I: "?I ys a t" and "?f a x t = Inr (b, w)"
    then obtain u where m: "map_page cfg owner vspace (map_cap mp x) ?sz a t = Inr (u, w)" "b = a + ?sz"
      by (auto simp: bld_simps)
    from I have t: "range_ok t" "is_pt t vspace" by simp_all
    from map_page_entered(2) [OF assms(1) t m(1)]
    have e: "entered lvls topmost t vspace topmost (target_level lvls pg - topmost) a (map_cap mp x) w" .
    then have "lookup_page lvls topmost w vspace pg a = Some (map_cap mp x)"
      by (simp add: entered_def lookup_page_def)
    with I m(2) e entered_lookups [OF e] show "?I (ys @ [x]) b w"
      by (auto simp: lookups_kept_def entered_def nth_append less_Suc_eq algebra_simps)
  qed
  then show ?thesis by blast
qed

theorem map_memory_region_spec_witness:
  "\<exists>s'. map_memory_region example_riscv_config ''a''
          \<lparr>sm_mr = ''m'', sm_vaddr = 0x1000, sm_perms = 3, sm_cached = True, sm_text_pos = None\<rparr>
          (page_size_u64 SmallPg) 0 [1] example_vspace = Inr ((), s')
     \<and> lookup_page 3 0 s' 0 SmallPg 0x1000
         = Some (CapFrame 1 \<lparr>r_read = True, r_write = True, r_grant = False, r_grant_reply = False\<rparr> True False)"
proof -
  let ?m = "\<lparr>sm_mr = ''m'', sm_vaddr = 0x1000, sm_perms = 3, sm_cached = True, sm_text_pos = None\<rparr> :: sys_map"
  have wf: "range_ok example_vspace" "is_pt example_vspace 0"
    by (simp_all add: range_ok_def is_pt_def example_vspace_def spec_new_def)
  have "pt_entry example_vspace 0 k = None" for k
    by (simp add: pt_entry_def example_vspace_def spec_new_def find_slot_def)
  then have "page_free 3 0 example_vspace 0 SmallPg 0x1000"
    using wf(2) by (simp add: page_free_def target_level_def eval_nat_numeral)
  with map_page_entered(1) [OF example_paging wf, of "''a''" "map_cap ?m 1" SmallPg "0x1000"]
  obtain s' where "map_page example_riscv_config ''a'' 0 (map_cap ?m 1) (page_size_u64 SmallPg) 0x1000 example_vspace
      = Inr ((), s')" by (auto simp: is_ok_iff)
  then have r: "map_memory_region example_riscv_config ''a'' ?m (page_size_u64 SmallPg) 0 [1] example_vspace = Inr ((), s')"
    by (simp add: map_memory_region_def bindB_def unwrapB_def returnB_def Let_def capdl_util_make_frame_cap_def map_cap_def)
  from map_memory_region_spec [OF example_paging wf r] r show ?thesis by (auto simp: map_cap_def)
qed

end
