(* ===== verification/Capdl_Elf.thy ===== *)
theory Capdl_Elf
  imports Capdl_Frame Address_Spaces Elf
begin

unbundle bit_operations_syntax

text \<open>
  Loading an ELF file into a specification, \<open>add_elf_to_spec\<close> of
  \<open>tool/microkit/src/capdl/builder.rs\<close>: a VSpace, a frame for each page of each loadable segment with a
  reference to the part of the segment that goes there, and a thread control block.  The frames only
  refer to the file, because symbols are patched into it later.

  The loop over the pages of a segment compares 64-bit addresses that may wrap, so it runs on fuel: one
  unit for each page of a 64-bit address space.
\<close>

section \<open>Definitions\<close>

datatype tcb_bound_slot =
    TbCSpace | TbVSpace | TbIpcBuffer | TbFaultEp | TbSchedContext | TbBoundNotification | TbVCpu | TbX86Eptpml4

fun tcb_bound_slot_u32 :: "tcb_bound_slot \<Rightarrow> u32" where
  "tcb_bound_slot_u32 TbCSpace = 0"
| "tcb_bound_slot_u32 TbVSpace = 1"
| "tcb_bound_slot_u32 TbIpcBuffer = 4"
| "tcb_bound_slot_u32 TbFaultEp = 5"
| "tcb_bound_slot_u32 TbSchedContext = 6"
| "tcb_bound_slot_u32 TbBoundNotification = 8"
| "tcb_bound_slot_u32 TbVCpu = 9"
| "tcb_bound_slot_u32 TbX86Eptpml4 = 10"

text \<open>What a page at \<open>cur_vaddr\<close> is filled with.\<close>

definition elf_page_fill :: "nat \<Rightarrow> nat \<Rightarrow> u64 \<Rightarrow> u64 \<Rightarrow> u64 \<Rightarrow> frame_fill" where
  "elf_page_fill elf_idx seg_idx seg_base_vaddr seg_mem_size cur_vaddr =
     (let dest_offset = (if cur_vaddr < seg_base_vaddr then seg_base_vaddr - cur_vaddr else 0);
          target_vaddr_start = cur_vaddr + dest_offset;
          section_offset = target_vaddr_start - seg_base_vaddr
      in if section_offset < seg_mem_size
         then (let len_to_cpy = min (page_size_u64 SmallPg - dest_offset) (seg_mem_size - section_offset)
               in [\<lparr>fe_start = dest_offset, fe_end = dest_offset + len_to_cpy,
                    fe_content = ElfContent elf_idx seg_idx (unat section_offset)
                                   (unat (section_offset + len_to_cpy))\<rparr>])
         else [])"

definition map_errB :: "(capdl_error \<Rightarrow> capdl_error) \<Rightarrow> 'a bld \<Rightarrow> 'a bld" where
  "map_errB g m = (\<lambda>s. lift_err g (m s))"

definition small_frame_bits :: "config \<Rightarrow> u8 bld" where
  "small_frame_bits cfg = bindB (liftB (page_fixed_size_bits SmallPg cfg)) (\<lambda>bits. returnB (ucast bits))"

definition map_elf_page ::
    "config \<Rightarrow> string \<Rightarrow> nat \<Rightarrow> nat \<Rightarrow> nat \<Rightarrow> elf_segment \<Rightarrow> u64 \<Rightarrow> nat \<Rightarrow> unit bld" where
  "map_elf_page cfg owner vspace elf_idx seg_idx segment cur_vaddr frame_sequence =
     bindB (small_frame_bits cfg) (\<lambda>bits.
     bindB (capdl_util_make_frame_obj
              (elf_page_fill elf_idx seg_idx (virt_addr segment) (mem_size segment) cur_vaddr)
              (''elf_'' @ owner @ ''_'' @ pad0 9 (dec_string frame_sequence)) None bits) (\<lambda>frame_obj_id.
     map_errB AddElfMapFailed
       (map_page cfg owner vspace
          (capdl_util_make_frame_cap frame_obj_id (is_readable segment) (is_writable segment)
             (is_executable segment) True)
          (page_size_u64 SmallPg) cur_vaddr)))"

definition LOOP_FUEL :: nat where "LOOP_FUEL = 2 ^ 52"

lemma LOOP_FUEL_pos: "0 < LOOP_FUEL"
  by (simp add: LOOP_FUEL_def)

fun map_elf_pages ::
    "nat \<Rightarrow> config \<Rightarrow> string \<Rightarrow> nat \<Rightarrow> nat \<Rightarrow> nat \<Rightarrow> elf_segment \<Rightarrow> u64 \<Rightarrow> nat \<Rightarrow> nat bld" where
  "map_elf_pages fuel cfg owner vspace elf_idx seg_idx segment cur_vaddr frame_sequence =
     (if cur_vaddr < virt_addr segment + mem_size segment
      then if fuel = 0 then liftB (Inl (Panic LoopFuelExhausted))
           else bindB (map_elf_page cfg owner vspace elf_idx seg_idx segment cur_vaddr frame_sequence) (\<lambda>_.
                map_elf_pages (fuel - 1) cfg owner vspace elf_idx seg_idx segment
                  (cur_vaddr + page_size_u64 SmallPg) (frame_sequence + 1))
      else returnB frame_sequence)"

declare map_elf_pages.simps [simp del]

definition map_elf_segment ::
    "config \<Rightarrow> string \<Rightarrow> nat \<Rightarrow> nat \<Rightarrow> nat \<Rightarrow> nat \<times> elf_segment \<Rightarrow> nat bld" where
  "map_elf_segment cfg owner vspace elf_idx frame_sequence = (\<lambda>(seg_idx, segment).
     bindB (liftB (segment_data segment)) (\<lambda>bytes.
     if bytes = [] then returnB frame_sequence
     else bindB (liftB (round_down (virt_addr segment) (page_size_u64 SmallPg))) (\<lambda>cur_vaddr.
          map_elf_pages LOOP_FUEL cfg owner vspace elf_idx seg_idx segment cur_vaddr frame_sequence)))"

definition add_elf_to_spec :: "config \<Rightarrow> string \<Rightarrow> cpu_core \<Rightarrow> nat \<Rightarrow> elf_file \<Rightarrow> nat bld" where
  "add_elf_to_spec cfg owner cpu elf_idx elf =
     bindB (create_vspace cfg owner) (\<lambda>vspace_obj_id.
     bindB (foldB (map_elf_segment cfg owner vspace_obj_id elf_idx) 0 (enumerate 0 (loadable_segments elf))) (\<lambda>_.
     add_root_object
       \<lparr>no_name = ''tcb_'' @ owner,
        no_object = ObjTcb [capdl_util_make_cte (tcb_bound_slot_u32 TbVSpace)
                              (capdl_util_make_page_table_cap vspace_obj_id)]
          \<lparr>te_ipc_buffer_addr = 0, te_affinity = ucast cpu, te_prio = 0, te_max_prio = 0,
           te_resume = False, te_fpu_disabled = False, te_ip = elf_entry elf, te_sp = 0\<rparr>\<rparr>))"

section \<open>What later steps keep\<close>

abbreviation extends :: "spec_container \<Rightarrow> spec_container \<Rightarrow> bool" where
  "extends s s' \<equiv> grows (length (sc_objects s)) s s'"

lemma extends_trans: "extends s t \<Longrightarrow> extends t u \<Longrightarrow> extends s u"
  using grows_trans grows_mono grows_length by metis

lemma extends_object:
  assumes "extends s s'" "i < length (sc_objects s)" "\<not> growable (no_object (sc_objects s ! i))"
  shows "i < length (sc_objects s')" "no_object (sc_objects s' ! i) = no_object (sc_objects s ! i)"
  using assms by (auto simp: grows_def grown_object_fixed)

lemma extends_entries: "extends s s' \<Longrightarrow> entries_kept s s'"
proof -
  have slots: "pt_entry s' i idx = Some c" if e: "extends s s'" "pt_entry s i idx = Some c" for i idx c
  proof -
    from e(2) obtain ept r l slots where i: "i < length (sc_objects s)"
      and ob: "no_object (sc_objects s ! i) = ObjPageTable ept r l slots" and f: "find_slot idx slots = Some c"
      by (auto simp: pt_entry_def split: if_splits capdl_object.splits)
    from e(1) i have i': "i < length (sc_objects s')"
      and g: "grown_object (ObjPageTable ept r l slots) (no_object (sc_objects s' ! i))"
      by (auto simp: grows_def ob [symmetric])
    from g obtain more where "no_object (sc_objects s' ! i) = ObjPageTable ept r l (slots @ more)"
      by (auto simp: grown_object_def the_slots_def intro: that [of "[]"])
    moreover have "find_slot idx (slots @ more) = Some c"
      using f by (induction slots) (auto simp: find_slot_def split: if_splits)
    ultimately show ?thesis using i' by (simp add: pt_entry_def)
  qed
  assume "extends s s'"
  with slots show "entries_kept s s'" by (simp add: entries_kept_def)
qed

lemma extends_is_pt: "extends s s' \<Longrightarrow> is_pt s i \<Longrightarrow> is_pt s' i"
  by (auto simp: is_pt_def grows_def grown_object_def the_slots_def split: capdl_object.splits)

lemma extends_lookup:
  "extends s s' \<Longrightarrow> lookup_page lvls topmost s v pg a = Some c \<Longrightarrow> lookup_page lvls topmost s' v pg a = Some c"
  using walk_kept [OF extends_entries] by (simp add: lookup_page_def)

section \<open>The contents of an address space\<close>

text \<open>Where the byte at an offset of a frame comes from: a file, a segment of it and an offset in it.\<close>

definition frame_source :: "frame_fill \<Rightarrow> u64 \<Rightarrow> (nat \<times> nat \<times> nat) option" where
  "frame_source fill off =
     (case find (\<lambda>e. fe_start e \<le> off \<and> off < fe_end e) fill of
        Some e \<Rightarrow> (case fe_content e of
            ElfContent elf seg from to \<Rightarrow>
              (let i = from + unat (off - fe_start e) in if i < to then Some (elf, seg, i) else None)
          | BytesContent _ \<Rightarrow> None)
      | None \<Rightarrow> None)"

text \<open>What a load, a store or an instruction fetch at an address finds: the rights of the small page
  mapped there, and the source of the byte.\<close>

definition source_at :: "nat \<Rightarrow> nat \<Rightarrow> spec_container \<Rightarrow> nat \<Rightarrow> u64 \<Rightarrow> (cap_rights \<times> bool \<times> nat \<times> nat \<times> nat) option" where
  "source_at lvls topmost s vspace a =
     (case lookup_page lvls topmost s vspace SmallPg a of
        Some (CapFrame f rights cached executable) \<Rightarrow>
          (if f < length (sc_objects s) then
             (case no_object (sc_objects s ! f) of
                ObjFrame _ _ fill \<Rightarrow> map_option (\<lambda>src. (rights, executable, src)) (frame_source fill (a AND 0xFFF))
              | _ \<Rightarrow> None)
           else None)
      | _ \<Rightarrow> None)"

lemma extends_source:
  assumes "extends s s'" "source_at lvls topmost s v a = Some r"
  shows "source_at lvls topmost s' v a = Some r"
proof -
  from assms(2) obtain f rights cached ex b p fill where
    l: "lookup_page lvls topmost s v SmallPg a = Some (CapFrame f rights cached ex)"
    and f: "f < length (sc_objects s)" "no_object (sc_objects s ! f) = ObjFrame b p fill"
    and src: "map_option (\<lambda>src. (rights, ex, src)) (frame_source fill (a AND 0xFFF)) = Some r"
    by (auto simp: source_at_def split: option.splits cap.splits if_splits capdl_object.splits)
  from f have "\<not> growable (no_object (sc_objects s ! f))" by (simp add: growable_def)
  from extends_object [OF assms(1) f(1) this] f(2) src extends_lookup [OF assms(1) l]
  show ?thesis by (simp add: source_at_def)
qed

section \<open>One page\<close>

text \<open>The page frame of an address.\<close>

lemma unat_page_number: "unat (drop_bit 12 (w :: u64)) = unat w div 4096"
  by (subst unat_drop_bit_eq) (simp add: drop_bit_eq_div)

lemma unat_page_offset: "unat ((w :: u64) AND 0xFFF) = unat w mod 4096"
proof -
  have "w AND 0xFFF = take_bit 12 w" by (simp add: take_bit_eq_mask mask_eq_exp_minus_1)
  then show ?thesis by (simp only: unsigned_take_bit_eq) (simp add: take_bit_eq_mod)
qed

lemma unat_page_add:
  assumes "unat (w :: u64) mod 4096 = 0" "o1 < 4096"
  shows "unat (w + of_nat o1) = unat w + o1" "drop_bit 12 (w + of_nat o1) = drop_bit 12 w"
    "unat ((w + of_nat o1) AND 0xFFF) = o1"
proof -
  from assms(1) obtain m where m: "unat w = 4096 * m" by auto
  have k: "unat w \<le> 2 ^ 64 - 4096" using m u64_lt [of w] by simp
  have o1: "unat (of_nat o1 :: u64) = o1" using assms(2) by (intro unat_of_nat_small) simp
  show u: "unat (w + of_nat o1) = unat w + o1"
    by (subst unat_add_no_overflow) (use k o1 assms(2) in simp_all)
  show "drop_bit 12 (w + of_nat o1) = drop_bit 12 w"
    by (simp only: word_unat_eq_iff unat_page_number u) (simp add: m assms(2))
  show "unat ((w + of_nat o1) AND 0xFFF) = o1"
    by (simp only: unat_page_offset u) (simp add: m assms(2))
qed

lemma pt_index_same_page:
  "drop_bit 12 a = drop_bit 12 b \<Longrightarrow> pt_index lvls topmost level a = pt_index lvls topmost level b"
proof -
  assume *: "drop_bit 12 a = drop_bit 12 b"
  have "drop_bit (level_shift lvls level) w = drop_bit (9 * (lvls - 1 - level)) (drop_bit 12 w)" for w :: u64
    by (simp add: level_shift_def add.commute)
  then show ?thesis unfolding pt_index_def using * by (simp only:)
qed

lemma walk_same_page:
  assumes "drop_bit 12 a = drop_bit 12 b"
  shows "walk lvls topmost s i level n a = walk lvls topmost s i level n b"
  by (induction n arbitrary: i level) (simp_all add: pt_index_same_page [OF assms] split: option.split)

lemma lookup_same_page:
  "drop_bit 12 a = drop_bit 12 b \<Longrightarrow> lookup_page lvls topmost s v pg a = lookup_page lvls topmost s v pg b"
  unfolding lookup_page_def by (rule walk_same_page)

text \<open>The part of a page that a segment fills, in terms of the addresses as numbers.\<close>

lemma elf_page_fill_parts:
  assumes c: "unat base < unat cur + 4096" "unat cur < unat base + unat mem" "0 < unat mem"
    and b: "unat base + unat mem \<le> 2 ^ 64 - 4096"
  obtains dest len sect where
    "elf_page_fill elf_idx seg_idx base mem cur = [\<lparr>fe_start = dest, fe_end = dest + len,
       fe_content = ElfContent elf_idx seg_idx (unat sect) (unat (sect + len))\<rparr>]"
    "unat dest = unat base - unat cur" "unat sect = unat cur - unat base" "unat sect < unat mem"
    "unat len = min (4096 - unat dest) (unat mem - unat sect)"
    "unat (dest + len) = unat dest + unat len" "unat (sect + len) = unat sect + unat len"
proof -
  define dest where "dest = (if cur < base then base - cur else 0)"
  define sect where "sect = cur + dest - base"
  define len where "len = min (0x1000 - dest) (mem - sect)"
  have dest: "unat dest = unat base - unat cur"
    by (auto simp: dest_def word_less_nat_alt unat_sub word_le_nat_alt)
  have dlt: "unat dest < 4096" using dest c(1) by simp
  have tgt: "unat (cur + dest) = max (unat base) (unat cur)"
    by (subst unat_add_no_overflow) (use dest c b u64_lt [of base] u64_lt [of cur] in \<open>auto simp: max_def\<close>)
  have sect: "unat sect = unat cur - unat base"
    unfolding sect_def by (subst unat_sub) (auto simp: word_le_nat_alt tgt)
  have slt: "unat sect < unat mem" using sect c(2,3) by linarith
  then have lt: "sect < mem" by (simp add: word_less_nat_alt)
  have "unat (0x1000 - dest) = 4096 - unat dest"
    using dlt by (subst unat_sub) (simp_all add: word_le_nat_alt)
  moreover have "unat (mem - sect) = unat mem - unat sect"
    using slt by (subst unat_sub) (simp_all add: word_le_nat_alt)
  ultimately have len: "unat len = min (4096 - unat dest) (unat mem - unat sect)"
    by (auto simp: len_def min_def word_le_nat_alt)
  show thesis
  proof (rule that)
    show "elf_page_fill elf_idx seg_idx base mem cur = [\<lparr>fe_start = dest, fe_end = dest + len,
       fe_content = ElfContent elf_idx seg_idx (unat sect) (unat (sect + len))\<rparr>]"
      using lt by (simp add: elf_page_fill_def Let_def dest_def [symmetric] sect_def [symmetric] len_def [symmetric])
    show "unat (dest + len) = unat dest + unat len"
      by (subst unat_add_no_overflow) (use len dlt in auto)
    show "unat (sect + len) = unat sect + unat len"
      by (subst unat_add_no_overflow) (use len slt u64_lt [of mem] in \<open>auto simp: min_def\<close>)
  qed (fact dest sect slt len)+
qed

lemma frame_source_fill:
  assumes c: "unat cur mod 4096 = 0" "unat base < unat cur + 4096" "unat cur < unat base + unat mem"
    and b: "unat base + unat mem \<le> 2 ^ 64 - 4096"
    and p: "p < unat mem" "unat cur \<le> unat base + p" "unat base + p < unat cur + 4096"
  shows "frame_source (elf_page_fill elf_idx seg_idx base mem cur) ((base + of_nat p) AND 0xFFF)
           = Some (elf_idx, seg_idx, p)"
proof -
  obtain dest len sect where fill: "elf_page_fill elf_idx seg_idx base mem cur = [\<lparr>fe_start = dest, fe_end = dest + len,
       fe_content = ElfContent elf_idx seg_idx (unat sect) (unat (sect + len))\<rparr>]"
    and dest: "unat dest = unat base - unat cur" and sect: "unat sect = unat cur - unat base"
    and len: "unat len = min (4096 - unat dest) (unat mem - unat sect)"
    and fend: "unat (dest + len) = unat dest + unat len" and sadd: "unat (sect + len) = unat sect + unat len"
    by (rule elf_page_fill_parts [OF c(2,3) _ b, of elf_idx seg_idx]) (use p(1) in simp, rule that)
  define off where "off = (base + of_nat p) AND 0xFFF"
  have "unat (of_nat p :: u64) = p" using p(1) u64_lt [of mem] by (intro unat_of_nat_small) simp
  then have bp: "unat (base + of_nat p) = unat base + p"
    by (subst unat_add_no_overflow) (use b p(1) in simp_all)
  obtain q where q: "unat base + p = unat cur + q" "q < 4096"
    using p(2,3) by (metis add_less_cancel_left le_iff_add)
  have "unat off = (unat cur + q) mod 4096" by (simp add: off_def unat_page_offset bp q(1))
  also have "\<dots> = q" using c(1) q(2) by (simp add: mod_add_left_eq [symmetric])
  finally have off: "unat off = unat base + p - unat cur" using q(1) by simp
  have in_range: "dest \<le> off \<and> off < dest + len"
    unfolding word_le_nat_alt word_less_nat_alt fend off dest len sect using c p by (auto simp: min_def)
  have od: "unat (off - dest) = unat off - unat dest" using in_range by (subst unat_sub) simp_all
  have "unat sect + unat (off - dest) = p"
    unfolding od off dest sect using c p by auto
  moreover have "unat sect + unat (off - dest) < unat (sect + len)"
    unfolding sadd od using in_range fend unfolding word_le_nat_alt word_less_nat_alt by linarith
  ultimately show ?thesis using in_range by (simp add: fill frame_source_def off_def [symmetric])
qed

definition seg_rights :: "elf_segment \<Rightarrow> cap_rights" where
  "seg_rights seg = \<lparr>r_read = is_readable seg, r_write = is_writable seg, r_grant = False, r_grant_reply = False\<rparr>"

text \<open>What is right about a byte of a segment.\<close>

definition loaded :: "nat \<Rightarrow> nat \<Rightarrow> spec_container \<Rightarrow> nat \<Rightarrow> nat \<Rightarrow> nat \<Rightarrow> elf_segment \<Rightarrow> nat \<Rightarrow> bool" where
  "loaded lvls topmost s vspace elf_idx seg_idx seg p \<longleftrightarrow>
     source_at lvls topmost s vspace (virt_addr seg + of_nat p)
       = Some (seg_rights seg, is_executable seg, elf_idx, seg_idx, p)"

lemma loaded_extends:
  "extends s s' \<Longrightarrow> loaded lvls topmost s v elf_idx seg_idx seg p \<Longrightarrow> loaded lvls topmost s' v elf_idx seg_idx seg p"
  by (simp add: loaded_def extends_source)

lemma builds_small_frame_bits [builds]: "builds n S (small_frame_bits cfg) (\<lambda>_. {}) (\<lambda>_. True)"
  unfolding small_frame_bits_def by (auto intro!: builds_bind [OF builds_lift0] builds)

lemma builds_map_err [builds]: "builds n S m ids Q \<Longrightarrow> builds n S (map_errB g m) ids Q"
  by (simp add: builds_def map_errB_def lift_err_eq_Inr)

lemma builds_map_elf_page [builds]:
  "builds n S (map_elf_page cfg owner vspace elf_idx seg_idx seg cur sq) (\<lambda>_. {}) (\<lambda>_. True)"
  unfolding map_elf_page_def
  by (intro builds_bind [OF builds_small_frame_bits] builds_bind [OF builds_make_obj(1)] builds)
    (simp add: capdl_util_make_frame_cap_def)

lemma buildsD_extends:
  assumes "builds (length (sc_objects s)) S m ids Q" "m s = Inr (x, s')" "spec_wf s"
    "S \<subseteq> {..<length (sc_objects s)}"
  shows "spec_wf s' \<and> extends s s' \<and> ids x \<subseteq> {..<length (sc_objects s')} \<and> Q x"
  using buildsD [OF assms(1-3) _ assms(4)] by simp

lemma map_elf_page_loaded:
  assumes "paging cfg lvls topmost" "spec_wf s" "is_pt s vspace"
    and run: "map_elf_page cfg owner vspace elf_idx seg_idx seg cur sq s = Inr (u, s')"
    and c: "unat cur mod 4096 = 0" "unat (virt_addr seg) < unat cur + 4096"
      "unat cur < unat (virt_addr seg) + unat (mem_size seg)"
    and b: "unat (virt_addr seg) + unat (mem_size seg) \<le> 2 ^ 64 - 4096"
    and p: "p < unat (mem_size seg)" "unat cur \<le> unat (virt_addr seg) + p"
      "unat (virt_addr seg) + p < unat cur + 4096"
  shows "loaded lvls topmost s' vspace elf_idx seg_idx seg p"
proof -
  let ?fill = "elf_page_fill elf_idx seg_idx (virt_addr seg) (mem_size seg) cur"
  let ?f = "length (sc_objects s)"
  let ?cap = "CapFrame ?f (seg_rights seg) True (is_executable seg)"
  from run obtain bits s1 where
    s1: "capdl_util_make_frame_obj ?fill (''elf_'' @ owner @ ''_'' @ pad0 9 (dec_string sq)) None bits s
           = Inr (?f, s1)"
    and m: "map_page cfg owner vspace ?cap (page_size_u64 SmallPg) cur s1 = Inr (u, s')"
    using spec_wf_range [OF assms(2)]
    by (auto simp: map_elf_page_def bld_simps small_frame_bits_def map_errB_def lift_err_eq_Inr
        capdl_util_make_frame_cap_def seg_rights_def capdl_util_make_frame_obj_def)
  have e1: "spec_wf s1" "extends s s1"
    using buildsD_extends [OF builds_make_obj(1) s1 assms(2), of "{}"] by auto
  from s1 spec_wf_range [OF assms(2)] have f: "?f < length (sc_objects s1)" "no_object (sc_objects s1 ! ?f) = ObjFrame bits None ?fill"
    by (auto simp: capdl_util_make_frame_obj_def add_root_object_Inr)
  have pt1: "is_pt s1 vspace" by (rule extends_is_pt [OF e1(2) assms(3)])
  have e2: "extends s1 s'"
    using buildsD_extends [OF builds_map_page m e1(1), of "{?f}"] f(1) by simp
  have look: "lookup_page lvls topmost s' vspace SmallPg cur = Some ?cap"
    using map_page_entered(2) [OF assms(1) spec_wf_range [OF e1(1)] pt1 m]
    by (simp add: entered_def lookup_page_def)
  have ob: "?f < length (sc_objects s')" "no_object (sc_objects s' ! ?f) = ObjFrame bits None ?fill"
    using extends_object [OF e2 f(1)] f(2) by (simp_all add: growable_def)
  define q where "q = unat (virt_addr seg) + p - unat cur"
  have q: "q < 4096" using p(2,3) by (simp add: q_def)
  have "virt_addr seg + of_nat p = cur + of_nat q"
  proof -
    have "of_nat (unat (virt_addr seg) + p) = (of_nat (unat cur + q) :: u64)" using p(2) by (simp add: q_def)
    then show ?thesis by simp
  qed
  with unat_page_add(2) [OF c(1) q] have "drop_bit 12 (virt_addr seg + of_nat p) = drop_bit 12 cur" by simp
  from lookup_same_page [OF this] look have
    "lookup_page lvls topmost s' vspace SmallPg (virt_addr seg + of_nat p) = Some ?cap" by simp
  with ob frame_source_fill [OF c b p] show ?thesis
    by (simp add: loaded_def source_at_def)
qed

section \<open>One segment\<close>

lemma builds_map_elf_pages [builds]:
  "builds n S (map_elf_pages fuel cfg owner vspace elf_idx seg_idx seg cur sq) (\<lambda>_. {}) (\<lambda>_. True)"
proof (induction fuel arbitrary: cur sq S)
  case 0
  show ?case by (subst map_elf_pages.simps) (auto intro: builds)
next
  case (Suc fuel)
  show ?case
    by (subst map_elf_pages.simps) (auto intro!: builds builds_bind [OF builds_map_elf_page] Suc.IH)
qed

lemma seg_end:
  "unat (virt_addr seg) + unat (mem_size seg) \<le> 2 ^ 64 - 4096 \<Longrightarrow>
     unat (virt_addr seg + mem_size seg) = unat (virt_addr seg) + unat (mem_size seg)"
  by (subst unat_add_no_overflow) simp_all

lemma map_elf_pages_stop:
  assumes "map_elf_pages fuel cfg owner vspace elf_idx seg_idx seg cur sq s = Inr (r, s')"
    and "\<not> cur < virt_addr seg + mem_size seg"
    and "unat (virt_addr seg) + unat (mem_size seg) \<le> 2 ^ 64 - 4096"
    and "\<And>p. p < unat (mem_size seg) \<Longrightarrow> unat (virt_addr seg) + p < unat cur
           \<Longrightarrow> loaded lvls topmost s vspace elf_idx seg_idx seg p"
    and "p < unat (mem_size seg)"
  shows "loaded lvls topmost s' vspace elf_idx seg_idx seg p"
proof -
  from assms(1,2) have "s' = s" by (subst (asm) map_elf_pages.simps) (simp add: bld_simps)
  moreover have "unat (virt_addr seg) + p < unat cur"
    using assms(2,5) seg_end [OF assms(3)] by (simp add: word_less_nat_alt)
  ultimately show ?thesis using assms(4,5) by simp
qed

lemma map_elf_pages_loaded:
  assumes "paging cfg lvls topmost" "spec_wf s" "is_pt s vspace"
    and run: "map_elf_pages fuel cfg owner vspace elf_idx seg_idx seg cur sq s = Inr (r, s')"
    and c: "unat cur mod 4096 = 0" "unat (virt_addr seg) < unat cur + 4096"
    and b: "unat (virt_addr seg) + unat (mem_size seg) \<le> 2 ^ 64 - 4096"
    and before: "\<And>p. p < unat (mem_size seg) \<Longrightarrow> unat (virt_addr seg) + p < unat cur
                 \<Longrightarrow> loaded lvls topmost s vspace elf_idx seg_idx seg p"
    and p: "p < unat (mem_size seg)"
  shows "loaded lvls topmost s' vspace elf_idx seg_idx seg p"
  using assms(2-6) before
proof (induction fuel arbitrary: cur sq s)
  case 0
  have "\<not> cur < virt_addr seg + mem_size seg"
    using "0.prems"(3) by (subst (asm) map_elf_pages.simps) (auto simp: bld_simps split: if_splits)
  from map_elf_pages_stop [OF "0.prems"(3) this b "0.prems"(6) p] show ?case by blast
next
  case (Suc fuel)
  let ?B = "unat (virt_addr seg)" and ?M = "unat (mem_size seg)"
  show ?case
  proof (cases "cur < virt_addr seg + mem_size seg")
    case False
    from map_elf_pages_stop [OF Suc.prems(3) False b Suc.prems(6) p] show ?thesis by blast
  next
    case True
    from Suc.prems(3) True obtain u t where
      t: "map_elf_page cfg owner vspace elf_idx seg_idx seg cur sq s = Inr (u, t)"
      "map_elf_pages fuel cfg owner vspace elf_idx seg_idx seg (cur + page_size_u64 SmallPg) (sq + 1) t = Inr (r, s')"
      by (subst (asm) map_elf_pages.simps) (auto simp: bld_simps)
    have ct: "unat cur < ?B + ?M" using True seg_end [OF b] by (simp add: word_less_nat_alt)
    have e: "spec_wf t" "extends s t"
      using buildsD_extends [OF builds_map_elf_page t(1) Suc.prems(1), of "{}"] by simp_all
    have nxt: "unat (cur + page_size_u64 SmallPg) = unat cur + 4096"
      by (subst unat_add_no_overflow) (use ct b in simp_all)
    show ?thesis
    proof (rule Suc.IH [OF e(1) extends_is_pt [OF e(2) Suc.prems(2)] t(2)])
      show "unat (cur + page_size_u64 SmallPg) mod 4096 = 0" using nxt Suc.prems(4) by simp
      show "?B < unat (cur + page_size_u64 SmallPg) + 4096" using nxt Suc.prems(5) by simp
      fix q
      assume q: "q < ?M" "?B + q < unat (cur + page_size_u64 SmallPg)"
      show "loaded lvls topmost t vspace elf_idx seg_idx seg q"
      proof (cases "?B + q < unat cur")
        case True
        show ?thesis by (rule loaded_extends [OF e(2) Suc.prems(6) [OF q(1) True]])
      next
        case False
        show ?thesis
          by (rule map_elf_page_loaded [OF assms(1) Suc.prems(1,2) t(1) Suc.prems(4,5) ct b q(1)])
            (use False q(2) nxt in simp_all)
      qed
    qed
  qed
qed

lemma round_down_page:
  "round_down a (page_size_u64 SmallPg) = Inr c \<Longrightarrow> unat c mod 4096 = 0 \<and> unat c \<le> unat a \<and> unat a < unat c + 4096"
proof -
  assume "round_down a (page_size_u64 SmallPg) = Inr c"
  then have c: "c = a - a mod 4096" by (auto simp: round_down_def divmod_def split: if_splits)
  have m: "unat (a mod 4096) = unat a mod 4096" by (simp add: unat_mod)
  have "unat c = unat a - unat a mod 4096"
    unfolding c by (subst unat_sub) (simp_all add: word_le_nat_alt m)
  then show ?thesis
    using mod_less_divisor [of 4096 "unat a"] by (simp add: minus_mod_eq_mult_div)
qed

lemma builds_map_elf_segment [builds]:
  "builds n S (map_elf_segment cfg owner vspace elf_idx sq x) (\<lambda>_. {}) (\<lambda>_. True)"
  by (cases x) (auto simp: map_elf_segment_def intro!: builds_bind [OF builds_lift0] builds)

lemma map_elf_segment_loaded:
  assumes "paging cfg lvls topmost" "spec_wf s" "is_pt s vspace"
    and run: "map_elf_segment cfg owner vspace elf_idx sq (seg_idx, seg) s = Inr (r, s')"
    and b: "unat (virt_addr seg) + unat (mem_size seg) \<le> 2 ^ 64 - 4096" and p: "p < unat (mem_size seg)"
  shows "loaded lvls topmost s' vspace elf_idx seg_idx seg p"
proof -
  from run obtain bytes where bytes: "segment_data seg = (Inr bytes :: (capdl_error, u8 list) res)"
    by (auto simp: map_elf_segment_def bld_simps)
  with p have "bytes \<noteq> []" by (auto simp: segment_data_def mem_size_def split: elf_segment_data.splits)
  with run bytes obtain cur where
    cur: "round_down (virt_addr seg) (page_size_u64 SmallPg) = (Inr cur :: (capdl_error, u64) res)"
    "map_elf_pages LOOP_FUEL cfg owner vspace elf_idx seg_idx seg cur sq s = Inr (r, s')"
    by (auto simp: map_elf_segment_def bld_simps)
  from round_down_page [OF cur(1)] have c: "unat cur mod 4096 = 0" "unat cur \<le> unat (virt_addr seg)"
    "unat (virt_addr seg) < unat cur + 4096" by simp_all
  show ?thesis
    by (rule map_elf_pages_loaded [OF assms(1-3) cur(2) c(1,3) b _ p]) (use c(2) in simp)
qed

section \<open>The whole file\<close>

lemma builds_map_elf_segments [builds]:
  "builds n S (foldB (map_elf_segment cfg owner vspace elf_idx) acc xs) (\<lambda>_. {}) (\<lambda>_. True)"
  by (auto intro!: builds_fold builds)

lemma builds_add_elf [builds]:
  "builds n S (add_elf_to_spec cfg owner cpu elf_idx elf) (\<lambda>i. {i}) (\<lambda>i. n \<le> i)"
  unfolding add_elf_to_spec_def
  by (auto intro!: builds_bind [OF builds_create_vspace(1)] builds_bind [OF builds_map_elf_segments] builds
      simp: capdl_util_make_cte_def capdl_util_make_page_table_cap_def)

text \<open>The thread control block of an ELF file as it is first created.\<close>

definition elf_tcb :: "elf_file \<Rightarrow> cpu_core \<Rightarrow> nat \<Rightarrow> capdl_object" where
  "elf_tcb elf cpu vspace = ObjTcb [(1, CapPageTable vspace)]
     \<lparr>te_ipc_buffer_addr = 0, te_affinity = ucast cpu, te_prio = 0, te_max_prio = 0,
      te_resume = False, te_fpu_disabled = False, te_ip = elf_entry elf, te_sp = 0\<rparr>"

lemma create_vspace_run:
  assumes "create_vspace cfg owner s = Inr (v, s')" "spec_wf s"
  shows "v = length (sc_objects s) \<and> is_pt s' v \<and> spec_wf s' \<and> extends s s'"
  using assms(1) buildsD_extends [OF builds_create_vspace(1) assms, of "{}"] spec_wf_range [OF assms(2)]
  by (auto simp: create_vspace_def bld_simps is_pt_def)

text \<open>C10: loading an ELF file builds the address space the file describes: for every byte of every
  loadable segment, the page tables lead from the address of the byte to a frame with exactly the rights
  of the segment, and the byte of that frame comes from that byte of that segment of the file.  The
  thread starts at the entry point of the file on the requested core in this address space.  The
  hypothesis is that no segment ends in the last page of the 64-bit address space.\<close>

theorem add_elf_to_spec_image:
  assumes "paging cfg lvls topmost" and "spec_wf s"
    and "add_elf_to_spec cfg owner cpu elf_idx elf s = Inr (tcb, s')"
    and "\<forall>seg \<in> set (loadable_segments elf). unat (virt_addr seg) + unat (mem_size seg) \<le> 2 ^ 64 - 4096"
  shows "\<exists>vspace. is_pt s' vspace \<and> tcb < length (sc_objects s')
     \<and> no_object (sc_objects s' ! tcb) = elf_tcb elf cpu vspace
     \<and> (\<forall>i < length (loadable_segments elf). \<forall>p < unat (mem_size (loadable_segments elf ! i)).
          source_at lvls topmost s' vspace (virt_addr (loadable_segments elf ! i) + of_nat p)
            = Some (seg_rights (loadable_segments elf ! i), is_executable (loadable_segments elf ! i), elf_idx, i, p))"
proof -
  let ?segs = "loadable_segments elf"
  from assms(3) obtain v s1 r s2 where
    v: "create_vspace cfg owner s = Inr (v, s1)"
    and f: "foldB (map_elf_segment cfg owner v elf_idx) 0 (enumerate 0 ?segs) s1 = Inr (r, s2)"
    and a: "add_root_object \<lparr>no_name = ''tcb_'' @ owner, no_object = elf_tcb elf cpu v\<rparr> s2 = Inr (tcb, s')"
    by (auto simp: add_elf_to_spec_def bld_simps elf_tcb_def capdl_util_make_cte_def capdl_util_make_page_table_cap_def)
  from create_vspace_run [OF v assms(2)] have s1: "is_pt s1 v" "spec_wf s1" by blast+
  let ?I = "\<lambda>ys (sq :: nat) t. spec_wf t \<and> extends s1 t \<and> (\<forall>(i, seg) \<in> set ys. \<forall>p < unat (mem_size seg).
      loaded lvls topmost t v elf_idx i seg p)"
  have "?I (enumerate 0 ?segs) r s2"
    using f
  proof (rule foldB_inv [where I = ?I])
    show "?I [] 0 s1" using s1(2) by simp
    fix ys x sq t b u
    assume I: "?I ys sq t" and x: "x \<in> set (enumerate 0 ?segs)"
      and run: "map_elf_segment cfg owner v elf_idx sq x t = Inr (b, u)"
    obtain i seg where xp: "x = (i, seg)" by (cases x)
    from I have t: "spec_wf t" "extends s1 t" by simp_all
    have u: "spec_wf u" "extends t u"
      using buildsD_extends [OF builds_map_elf_segment run t(1), of "{}"] by simp_all
    have "unat (virt_addr seg) + unat (mem_size seg) \<le> 2 ^ 64 - 4096"
      using x assms(4) by (auto simp: xp in_set_enumerate_eq)
    then have new: "loaded lvls topmost u v elf_idx i seg p" if "p < unat (mem_size seg)" for p
      using map_elf_segment_loaded [OF assms(1) t(1) extends_is_pt [OF t(2) s1(1)] run [unfolded xp] _ that] by blast
    show "?I (ys @ [x]) b u"
      using u(1) extends_trans [OF t(2) u(2)] I new loaded_extends [OF u(2)] by (auto simp: xp)
  qed
  then have s2: "spec_wf s2" "extends s1 s2"
    "\<And>i p. i < length ?segs \<Longrightarrow> p < unat (mem_size (?segs ! i)) \<Longrightarrow> loaded lvls topmost s2 v elf_idx i (?segs ! i) p"
    by (force simp: in_set_enumerate_eq)+
  have r2: "range_ok s2" using s2(1) by simp
  from a have tcb: "tcb = length (sc_objects s2)" "no_object (sc_objects s' ! tcb) = elf_tcb elf cpu v"
    "length (sc_objects s') = Suc (length (sc_objects s2))"
    using add_root_object_Inr [OF r2] by auto
  have e3: "extends s2 s'" using a by (auto simp: add_root_object_Inr [OF r2] grows_append)
  have "is_pt s' v" by (rule extends_is_pt [OF e3 extends_is_pt [OF s2(2) s1(1)]])
  with tcb loaded_extends [OF e3 s2(3)] show ?thesis
    by (auto simp: loaded_def)
qed

lemma example_elf_segments:
  "loadable_segments example_elf = [\<lparr>seg_data = RealData [1, 2, 3, 4, 5, 6, 7, 8], phys_addr = 0x1000,
      virt_addr = 0x1000, loadable = True, attrs = 5\<rparr>]"
  by (simp add: loadable_segments_def example_elf_def)

lemma small_frame_bits_example: "small_frame_bits example_riscv_config s = Inr (12, s)"
  by (simp add: small_frame_bits_def bindB_def liftB_def returnB_def page_fixed_size_bits_def
      fixed_size_bits_def example_riscv_config_def)

lemma example_elf_added: "\<exists>r. add_elf_to_spec example_riscv_config ''a'' 0 0 example_elf spec_new = Inr r"
proof -
  let ?seg = "\<lparr>seg_data = RealData [1, 2, 3, 4, 5, 6, 7, 8], phys_addr = 0x1000,
      virt_addr = 0x1000, loadable = True, attrs = 5\<rparr> :: elf_segment"
  obtain s1 where s1: "create_vspace example_riscv_config ''a'' spec_new = Inr (0, s1)"
    "s1 = spec_new\<lparr>sc_objects := [\<lparr>no_name = ''pgd_a'', no_object = ObjPageTable False True (Some 0) []\<rparr>],
      sc_root_end := 1\<rparr>"
    by (simp add: create_vspace_def bindB_def liftB_def top_pt_level_number_def get_pt_level_name_def
        example_riscv_config_def add_root_object_def spec_new_def)
  obtain f s2 where s2: "capdl_util_make_frame_obj (elf_page_fill 0 0 (virt_addr ?seg) (mem_size ?seg) 0x1000)
      (''elf_'' @ ''a'' @ ''_'' @ pad0 9 (dec_string 0)) None 12 s1 = Inr (f, s2)"
    "range_ok s2" "is_pt s2 0" "\<And>k. pt_entry s2 0 k = None"
    by (simp add: capdl_util_make_frame_obj_def add_root_object_def s1(2) spec_new_def range_ok_def is_pt_def
        pt_entry_def find_slot_def)
  have "page_free 3 0 s2 0 SmallPg 0x1000"
    using s2(3,4) by (simp add: page_free_def target_level_def eval_nat_numeral)
  with map_page_entered(1) [OF example_paging s2(2,3)] obtain s3 where
    s3: "map_page example_riscv_config ''a'' 0 (capdl_util_make_frame_cap f (is_readable ?seg) (is_writable ?seg)
      (is_executable ?seg) True) (page_size_u64 SmallPg) 0x1000 s2 = Inr ((), s3)"
    unfolding is_ok_iff by fast
  have page: "map_elf_page example_riscv_config ''a'' 0 0 0 ?seg 0x1000 0 s1 = Inr ((), s3)"
    using s2(1) s3 by (simp add: map_elf_page_def bindB_def small_frame_bits_example map_errB_def)
  have "map_elf_segment example_riscv_config ''a'' 0 0 0 (0, ?seg) s1 = Inr (1, s3)"
    using page
    by (simp add: map_elf_segment_def bindB_def liftB_def segment_data_def round_down_def divmod_def
        map_elf_pages.simps [of LOOP_FUEL] map_elf_pages.simps [of "LOOP_FUEL - Suc 0"] LOOP_FUEL_pos mem_size_def
        returnB_def)
  moreover have "range_ok s3"
    using map_page_entered(2) [OF example_paging s2(2,3) s3] by (simp add: entered_def)
  ultimately show ?thesis
    using s1(1) by (simp add: add_elf_to_spec_def bindB_def example_elf_segments returnB_def add_root_object_run)
qed

theorem add_elf_to_spec_image_witness:
  "\<exists>tcb s' vspace. add_elf_to_spec example_riscv_config ''a'' 0 0 example_elf spec_new = Inr (tcb, s')
     \<and> source_at 3 0 s' vspace 0x1003
         = Some (\<lparr>r_read = True, r_write = False, r_grant = False, r_grant_reply = False\<rparr>, True, 0, 0, 3)"
proof -
  from example_elf_added obtain tcb s' where
    r: "add_elf_to_spec example_riscv_config ''a'' 0 0 example_elf spec_new = Inr (tcb, s')"
    by auto
  note seg = example_elf_segments
  have "\<forall>seg \<in> set (loadable_segments example_elf). unat (virt_addr seg) + unat (mem_size seg) \<le> 2 ^ 64 - 4096"
    by (simp add: seg mem_size_def)
  from add_elf_to_spec_image [OF example_paging spec_new_wf r this] obtain vspace where
    "\<forall>i < length (loadable_segments example_elf). \<forall>p < unat (mem_size (loadable_segments example_elf ! i)).
          source_at 3 0 s' vspace (virt_addr (loadable_segments example_elf ! i) + of_nat p)
            = Some (seg_rights (loadable_segments example_elf ! i), is_executable (loadable_segments example_elf ! i), 0, i, p)"
    by blast
  from this [rule_format, of 0 3] r show ?thesis
    by (auto simp: seg mem_size_def seg_rights_def is_readable_def is_writable_def is_executable_def
        PF_R_def PF_W_def PF_X_def)
qed

end
