(* ===== verification/Capdl_Monitor.thy ===== *)
theory Capdl_Monitor
  imports Capdl_Elf
begin

unbundle bit_operations_syntax

text \<open>
  The objects of the monitor and of the memory regions: the slot numbers and steps 1 and 2 of
  \<open>build_capdl_spec\<close> in \<open>tool/microkit/src/capdl/builder.rs\<close>.
\<close>

section \<open>Constants\<close>

definition FAULT_BADGE :: u64 where "FAULT_BADGE = 0x4000000000000000"
definition PPC_BADGE :: u64 where "PPC_BADGE = 0x8000000000000000"
definition MON_STACK_SIZE :: u64 where "MON_STACK_SIZE = 0x1000"
definition MON_FAULT_EP_CAP_IDX :: u64 where "MON_FAULT_EP_CAP_IDX = 1"
definition MON_REPLY_CAP_IDX :: u64 where "MON_REPLY_CAP_IDX = 2"
definition MON_BASE_PD_TCB_CAP :: u64 where "MON_BASE_PD_TCB_CAP = 10"
definition MON_BASE_VM_TCB_CAP :: u64 where "MON_BASE_VM_TCB_CAP = MON_BASE_PD_TCB_CAP + 64"
definition MON_BASE_SCHED_CONTEXT_CAP :: u64 where "MON_BASE_SCHED_CONTEXT_CAP = MON_BASE_VM_TCB_CAP + 64"
definition MON_BASE_NOTIFICATION_CAP :: u64 where "MON_BASE_NOTIFICATION_CAP = MON_BASE_SCHED_CONTEXT_CAP + 64"
definition PD_INPUT_CAP_IDX :: u64 where "PD_INPUT_CAP_IDX = 1"
definition PD_FAULT_EP_CAP_IDX :: u64 where "PD_FAULT_EP_CAP_IDX = 2"
definition PD_VSPACE_CAP_IDX :: u64 where "PD_VSPACE_CAP_IDX = 3"
definition PD_REPLY_CAP_IDX :: u64 where "PD_REPLY_CAP_IDX = 4"
definition PD_MONITOR_EP_CAP_IDX :: u64 where "PD_MONITOR_EP_CAP_IDX = 5"
definition PD_TCB_CAP_IDX :: u64 where "PD_TCB_CAP_IDX = 6"
definition PD_ARM_SMC_CAP_IDX :: u64 where "PD_ARM_SMC_CAP_IDX = 7"
definition PD_BASE_OUTPUT_NOTIFICATION_CAP :: u64 where "PD_BASE_OUTPUT_NOTIFICATION_CAP = 10"
definition PD_BASE_OUTPUT_ENDPOINT_CAP :: u64 where
  "PD_BASE_OUTPUT_ENDPOINT_CAP = PD_BASE_OUTPUT_NOTIFICATION_CAP + 64"
definition PD_BASE_IRQ_CAP :: u64 where "PD_BASE_IRQ_CAP = PD_BASE_OUTPUT_ENDPOINT_CAP + 64"
definition PD_BASE_PD_TCB_CAP :: u64 where "PD_BASE_PD_TCB_CAP = PD_BASE_IRQ_CAP + 64"
definition PD_BASE_VM_TCB_CAP :: u64 where "PD_BASE_VM_TCB_CAP = PD_BASE_PD_TCB_CAP + 64"
definition PD_BASE_VCPU_CAP :: u64 where "PD_BASE_VCPU_CAP = PD_BASE_VM_TCB_CAP + 64"
definition PD_BASE_IOPORT_CAP :: u64 where "PD_BASE_IOPORT_CAP = PD_BASE_VCPU_CAP + 64"
definition PD_ROOT_CAP_BITS :: u8 where "PD_ROOT_CAP_BITS = 6"
definition PD_CAP_BITS :: u8 where "PD_CAP_BITS = 9"
definition PD_SCHEDCONTEXT_EXTRA_SIZE_BITS :: u64 where "PD_SCHEDCONTEXT_EXTRA_SIZE_BITS = 8"

lemmas cap_idx_defs =
  MON_FAULT_EP_CAP_IDX_def MON_REPLY_CAP_IDX_def MON_BASE_PD_TCB_CAP_def MON_BASE_VM_TCB_CAP_def
  MON_BASE_SCHED_CONTEXT_CAP_def MON_BASE_NOTIFICATION_CAP_def PD_INPUT_CAP_IDX_def PD_FAULT_EP_CAP_IDX_def
  PD_VSPACE_CAP_IDX_def PD_REPLY_CAP_IDX_def PD_MONITOR_EP_CAP_IDX_def PD_TCB_CAP_IDX_def
  PD_ARM_SMC_CAP_IDX_def PD_BASE_OUTPUT_NOTIFICATION_CAP_def PD_BASE_OUTPUT_ENDPOINT_CAP_def
  PD_BASE_IRQ_CAP_def PD_BASE_PD_TCB_CAP_def PD_BASE_VM_TCB_CAP_def PD_BASE_VCPU_CAP_def
  PD_BASE_IOPORT_CAP_def

section \<open>Steps shared by the monitor and the domains\<close>

text \<open>A frame of its own for a thread, mapped readable and writable at an address.\<close>

definition map_own_frame :: "config \<Rightarrow> string \<Rightarrow> string \<Rightarrow> nat \<Rightarrow> u64 \<Rightarrow> cap bld" where
  "map_own_frame cfg owner name vspace vaddr =
     bindB (small_frame_bits cfg) (\<lambda>bits.
     bindB (capdl_util_make_frame_obj [] name None bits) (\<lambda>frame_obj_id.
     let frame_cap = capdl_util_make_frame_cap frame_obj_id True True False True
     in bindB (unwrapB (map_page cfg owner vspace frame_cap (page_size_u64 SmallPg) vaddr)) (\<lambda>_.
          returnB frame_cap)))"

definition map_ipc_buffer :: "config \<Rightarrow> string \<Rightarrow> nat \<Rightarrow> cap bld" where
  "map_ipc_buffer cfg owner vspace =
     bindB (liftB (pd_ipc_buffer cfg)) (\<lambda>vaddr.
       map_own_frame cfg owner (''ipcbuf_'' @ owner) vspace vaddr)"

text \<open>The parameters and capabilities of a thread, once everything it needs exists.\<close>

definition update_tcb :: "nat \<Rightarrow> (cte list \<Rightarrow> cte list) \<Rightarrow> (tcb_extra \<Rightarrow> tcb_extra) \<Rightarrow> unit bld" where
  "update_tcb tcb f g =
     update_root_object tcb (\<lambda>ob. case ob of
         ObjTcb slots info \<Rightarrow> Inr (ObjTcb (f slots) (g info))
       | _ \<Rightarrow> Inl (Panic UnreachableReached))"

section \<open>Step 1: the monitor\<close>

text \<open>The result is the object of the fault endpoint and that of the capability node.\<close>

definition build_monitor :: "config \<Rightarrow> nat \<Rightarrow> elf_file \<Rightarrow> (nat \<times> nat) bld" where
  "build_monitor cfg mon_elf_id monitor_elf =
     bindB (unwrapB (add_elf_to_spec cfg MONITOR_PD_NAME 0 mon_elf_id monitor_elf)) (\<lambda>monitor_tcb.
     bindB (capdl_util_make_endpoint_obj MONITOR_PD_NAME True) (\<lambda>fault_ep.
     bindB (capdl_util_make_reply_obj MONITOR_PD_NAME) (\<lambda>reply.
     bindB (capdl_util_make_sc_obj MONITOR_PD_NAME (ucast PD_SCHEDCONTEXT_EXTRA_SIZE_BITS)
              BUDGET_DEFAULT BUDGET_DEFAULT 0) (\<lambda>sc.
     bindB (capdl_util_make_cnode_obj MONITOR_PD_NAME PD_CAP_BITS
              [capdl_util_make_cte (ucast MON_FAULT_EP_CAP_IDX)
                 (capdl_util_make_endpoint_cap fault_ep True True True 0),
               capdl_util_make_cte (ucast MON_REPLY_CAP_IDX) (capdl_util_make_reply_cap reply)]) (\<lambda>cnode.
     let guard_size = cap_address_bits cfg - ucast PD_CAP_BITS;
         cnode_cap = capdl_util_make_cnode_cap cnode 0 (ucast guard_size)
     in bindB (capdl_util_get_vspace_id_from_tcb_id monitor_tcb) (\<lambda>vspace.
     bindB (liftB (pd_stack_bottom cfg MON_STACK_SIZE)) (\<lambda>stack_bottom.
     bindB (map_own_frame cfg MONITOR_PD_NAME (MONITOR_PD_NAME @ ''_stack'') vspace stack_bottom) (\<lambda>_.
     bindB (map_ipc_buffer cfg MONITOR_PD_NAME vspace) (\<lambda>ipcbuf_cap.
     bindB (liftB (pd_ipc_buffer cfg)) (\<lambda>ipc_buffer.
     bindB (liftB (pd_stack_top cfg)) (\<lambda>stack_top.
     bindB (update_tcb monitor_tcb
              (\<lambda>slots. slots @
                 [capdl_util_make_cte (tcb_bound_slot_u32 TbIpcBuffer) ipcbuf_cap,
                  capdl_util_make_cte (tcb_bound_slot_u32 TbCSpace) cnode_cap,
                  capdl_util_make_cte (tcb_bound_slot_u32 TbSchedContext) (capdl_util_make_sc_cap sc)])
              (\<lambda>info. info\<lparr>te_ipc_buffer_addr := ipc_buffer, te_sp := stack_top,
                 te_prio := MONITOR_PRIORITY, te_max_prio := MONITOR_PRIORITY, te_resume := True\<rparr>)) (\<lambda>_.
     returnB (fault_ep, cnode)))))))))))))"

section \<open>Step 2: memory regions\<close>

definition mr_frame_fill :: "sys_memory_region \<Rightarrow> u64 \<Rightarrow> (capdl_error, frame_fill) res" where
  "mr_frame_fill mr frame_sequence = (case smr_prefill_bytes mr of
      Some prefill_bytes \<Rightarrow>
        (let starting_byte_idx = frame_sequence * page_size_bytes mr;
             remaining_bytes_to_fill = of_nat (length prefill_bytes) - starting_byte_idx;
             num_bytes_to_fill = min (page_size_bytes mr) remaining_bytes_to_fill
         in bindr (slice_at prefill_bytes (unat starting_byte_idx)
                     (unat (starting_byte_idx + num_bytes_to_fill))) (\<lambda>frame_bytes.
            Inr [\<lparr>fe_start = 0, fe_end = num_bytes_to_fill, fe_content = BytesContent frame_bytes\<rparr>]))
    | None \<Rightarrow> Inr [])"

definition mr_frame_paddr :: "sys_memory_region \<Rightarrow> u64 \<Rightarrow> u64 option" where
  "mr_frame_paddr mr frame_sequence =
     map_option (\<lambda>base_paddr. base_paddr + frame_sequence * page_size_bytes mr) (smr_paddr mr)"

definition build_mr_frame :: "u8 \<Rightarrow> sys_memory_region \<Rightarrow> nat list \<Rightarrow> nat \<Rightarrow> nat list bld" where
  "build_mr_frame bits mr frame_ids i =
     bindB (liftB (mr_frame_fill mr (of_nat i))) (\<lambda>frame_fill.
     bindB (capdl_util_make_frame_obj frame_fill (''mr_'' @ smr_name mr @ ''_'' @ pad0 9 (dec_string i))
              (mr_frame_paddr mr (of_nat i)) bits) (\<lambda>frame_id.
       returnB (frame_ids @ [frame_id])))"

definition build_mr_frames :: "config \<Rightarrow> sys_memory_region \<Rightarrow> nat list bld" where
  "build_mr_frames cfg mr =
     bindB (liftB (page_fixed_size_bits (smr_page_size mr) cfg)) (\<lambda>bits.
       foldB (build_mr_frame (ucast bits) mr) [] [0..<unat (smr_page_count mr)])"

text \<open>The frames of each region, by the region's name.\<close>

type_synonym mr_frames = "string \<Rightarrow> nat list option"

definition build_memory_regions :: "config \<Rightarrow> sys_memory_region list \<Rightarrow> mr_frames bld" where
  "build_memory_regions cfg mrs =
     foldB (\<lambda>m mr. bindB (build_mr_frames cfg mr) (\<lambda>frame_ids. returnB (m(smr_name mr \<mapsto> frame_ids))))
       Map.empty mrs"

text \<open>\<open>map[key]\<close> of a hash map, which panics on a missing key.\<close>

definition map_index :: "('k \<Rightarrow> 'v option) \<Rightarrow> 'k \<Rightarrow> (capdl_error, 'v) res" where
  "map_index m k = (case m k of Some v \<Rightarrow> Inr v | None \<Rightarrow> Inl (Panic IndexOutOfBounds))"

lemma map_index_Inr [simp]: "map_index m k = Inr v \<longleftrightarrow> m k = Some v"
  by (simp add: map_index_def split: option.split)

section \<open>What the steps build\<close>

text \<open>The rules for a step whose result is known, to be combined with \<open>builds_bind\<close>, and those for the
  shapes a composed step ends in.\<close>

named_theorems built \<open>rules for a step in a sequence\<close>
named_theorems built_end \<open>rules for the end of a sequence\<close>

lemmas [built] =
  builds_add builds_make_obj builds_make_cnode builds_insert_cap builds_map_page builds_create_vspace
  builds_create_irq builds_small_frame_bits builds_add_elf

lemma built_lift [built]: "builds n S (liftB r) (\<lambda>_. {}) (\<lambda>x. r = Inr x)"
  by (auto simp: builds_def bld_simps)

lemma built_unwrap [built]:
  "builds n S (unwrapB (add_elf_to_spec cfg owner cpu elf_idx elf)) (\<lambda>i. {i}) (\<lambda>i. n \<le> i)"
  "cap_obj c \<in> S \<Longrightarrow> builds n S (unwrapB (map_page cfg owner vspace c z a)) (\<lambda>_. {}) (\<lambda>_. True)"
  by (auto intro: builds_unwrap builds)

lemmas [built_end] = builds_return builds_fail

lemma builds_if [built_end]:
  "(b \<Longrightarrow> builds n S m ids Q) \<Longrightarrow> (\<not> b \<Longrightarrow> builds n S m' ids Q) \<Longrightarrow> builds n S (if b then m else m') ids Q"
  by simp

lemma builds_prod [built_end]:
  "(\<And>a b. x = (a, b) \<Longrightarrow> builds n S (f a b) ids Q) \<Longrightarrow> builds n S (case x of (a, b) \<Rightarrow> f a b) ids Q"
  by (cases x) simp

lemma builds_option [built_end]:
  "(x = None \<Longrightarrow> builds n S m ids Q) \<Longrightarrow> (\<And>y. x = Some y \<Longrightarrow> builds n S (f y) ids Q)
     \<Longrightarrow> builds n S (case x of None \<Rightarrow> m | Some y \<Rightarrow> f y) ids Q"
  by (cases x) simp_all

lemma cap_obj_make [simp]:
  "cap_obj (capdl_util_make_frame_cap i r w e c) = i" "cap_obj (capdl_util_make_tcb_cap i) = i"
  "cap_obj (capdl_util_make_page_table_cap i) = i" "cap_obj (capdl_util_make_endpoint_cap i r w g b) = i"
  "cap_obj (capdl_util_make_ntfn_cap i r w b) = i" "cap_obj (capdl_util_make_reply_cap i) = i"
  "cap_obj (capdl_util_make_sc_cap i) = i" "cap_obj (capdl_util_make_cnode_cap i u z) = i"
  "cap_obj (capdl_util_make_ioport_cap i) = i" "cap_obj (capdl_util_make_vcpu_cap i) = i"
  "cap_obj (capdl_util_make_arm_smc_cap i) = i"
  by (simp_all add: util_cap_defs)

lemma cte_ids_make [simp]: "cte_ids (capdl_util_make_cte k c # sl) = insert (cap_obj c) (cte_ids sl)"
  by (simp add: capdl_util_make_cte_def)

lemma builds_map_own_frame [built]:
  "builds n S (map_own_frame cfg owner name vspace a) (\<lambda>c. {cap_obj c}) (\<lambda>_. True)"
  unfolding map_own_frame_def Let_def
  by (intro built [THEN builds_bind] built_end) auto

lemma builds_map_ipc_buffer [built]:
  "builds n S (map_ipc_buffer cfg owner vspace) (\<lambda>c. {cap_obj c}) (\<lambda>_. True)"
  unfolding map_ipc_buffer_def
  by (intro built [THEN builds_bind] built)

lemma builds_update_tcb [built]:
  assumes "n \<le> tcb" "\<And>sl. cte_ids (f sl) \<subseteq> cte_ids sl \<union> S"
  shows "builds n S (update_tcb tcb f g) (\<lambda>_. {}) (\<lambda>_. True)"
  unfolding update_tcb_def
proof (rule builds_update)
  show "obj_ids ob' \<subseteq> obj_ids ob \<union> S"
    if "(case ob of ObjTcb slots info \<Rightarrow> Inr (ObjTcb (f slots) (g info))
       | _ \<Rightarrow> Inl (Panic UnreachableReached)) = (Inr ob' :: (capdl_error, capdl_object) res)" for ob ob'
    using that by (cases ob) (auto dest: subsetD [OF assms(2)])
qed (use assms(1) in simp)

lemma find_in_set: "find P xs = Some x \<Longrightarrow> x \<in> set xs"
  by (induction xs) (auto split: if_splits)

lemma builds_get_vspace [built]:
  "builds n S (capdl_util_get_vspace_id_from_tcb_id tcb) (\<lambda>i. {i}) (\<lambda>_. True)"
proof -
  have "i < length (sc_objects s) \<and> s' = s"
    if wf: "spec_wf s" and run: "capdl_util_get_vspace_id_from_tcb_id tcb s = Inr (i, s')" for s i s'
  proof -
    from run spec_wf_range [OF wf] obtain slots info k c where
      tcb: "tcb < length (sc_objects s)" "no_object (sc_objects s ! tcb) = ObjTcb slots info"
      and f: "find (\<lambda>(_, c). case c of CapPageTable _ \<Rightarrow> True | _ \<Rightarrow> False) slots = Some (k, c)"
      and i: "i = cap_obj c" "s' = s"
      by (auto simp: capdl_util_get_vspace_id_from_tcb_id_def get_root_object_run bindr_eq_Inr unwrapr_eq_Inr
          split: if_splits capdl_object.splits)
    from f have "(k, c) \<in> set slots" by (rule find_in_set)
    moreover from tcb wf have "caps_below (length (sc_objects s)) (ObjTcb slots info)"
      by (auto simp: spec_wf_def dest!: nth_mem)
    ultimately show ?thesis using i by (auto simp: caps_below_def the_slots_def)
  qed
  then show ?thesis by (fastforce simp: builds_def)
qed

lemma builds_monitor [built]:
  "builds n S (build_monitor cfg elf_idx elf) (\<lambda>(ep, cnode). {ep, cnode}) (\<lambda>(ep, cnode). n \<le> ep \<and> n \<le> cnode)"
  unfolding build_monitor_def Let_def
  by (intro built [THEN builds_bind] built_end) auto

lemma builds_mr_frames [built]: "builds n S (build_mr_frames cfg mr) set (\<lambda>_. True)"
proof -
  have "builds n (S \<union> set acc) (build_mr_frame bits mr acc i) set (\<lambda>_. True)" for S bits acc i
    unfolding build_mr_frame_def by (intro built [THEN builds_bind] built_end) auto
  then show ?thesis
    unfolding build_mr_frames_def
    by (intro built [THEN builds_bind] builds_fold) auto
qed

definition mr_ids :: "mr_frames \<Rightarrow> nat set" where
  "mr_ids m = (\<Union>frames \<in> ran m. set frames)"

lemma mr_ids_upd: "mr_ids (m(k \<mapsto> frames)) \<subseteq> mr_ids m \<union> set frames"
  by (auto simp: mr_ids_def ran_def split: if_splits)

lemma builds_memory_regions [built]: "builds n S (build_memory_regions cfg mrs) mr_ids (\<lambda>_. True)"
proof -
  have "builds n (S \<union> mr_ids acc) (bindB (build_mr_frames cfg mr) (\<lambda>frame_ids. returnB (acc(smr_name mr \<mapsto> frame_ids))))
      mr_ids (\<lambda>_. True)" for S acc mr
    by (intro built [THEN builds_bind] built_end) (use mr_ids_upd in fastforce)+
  then show ?thesis
    unfolding build_memory_regions_def
    by (intro builds_fold) (auto simp: mr_ids_def)
qed

end
