(* ===== verification/Capdl_Pd.thy ===== *)
theory Capdl_Pd
  imports Capdl_Monitor
begin

unbundle bit_operations_syntax

text \<open>
  The objects of the protection domains and of their virtual machines: step 3 of \<open>build_capdl_spec\<close> in
  \<open>tool/microkit/src/capdl/builder.rs\<close>.  Each numbered part of the code is a definition; \<open>build_pd\<close>
  composes those of one protection domain in the order of the code.
\<close>

section \<open>Step 3-2: the mappings of a domain\<close>

definition frames_page_size :: "nat list \<Rightarrow> u64 bld" where
  "frames_page_size frames =
     bindB (liftB (unwrapr (case frames of [] \<Rightarrow> None | f # _ \<Rightarrow> Some f))) (\<lambda>first_frame.
     bindB (capdl_util_get_frame_size_bits first_frame) (\<lambda>bits.
       returnB (shl 1 (ucast bits))))"

text \<open>The check against the segments of the domain's ELF file.\<close>

definition check_elf_overlap :: "string \<Rightarrow> elf_file \<Rightarrow> sys_map \<Rightarrow> u64 \<Rightarrow> (capdl_error, unit) res" where
  "check_elf_overlap owner elf mp map_end =
     forM (\<lambda>seg.
       bindr (round_up (mem_size seg) (page_size_u64 SmallPg)) (\<lambda>seg_len.
       let seg_end = virt_addr seg + seg_len
       in if ranges_overlap (sm_vaddr mp, map_end) (virt_addr seg, seg_end)
          then Inl (Err (MrOverlapsElf (sm_mr mp) owner (sm_vaddr mp) map_end (virt_addr seg) seg_end))
          else Inr ())) (loadable_segments elf)"

definition map_pd_region :: "config \<Rightarrow> mr_frames \<Rightarrow> string \<Rightarrow> nat \<Rightarrow> elf_file \<Rightarrow> sys_map \<Rightarrow> unit bld" where
  "map_pd_region cfg mrs owner vspace elf mp =
     bindB (liftB (map_index mrs (sm_mr mp))) (\<lambda>frames.
     bindB (frames_page_size frames) (\<lambda>page_sz.
     bindB (liftB (check_elf_overlap owner elf mp (sm_vaddr mp + page_sz * of_nat (length frames)))) (\<lambda>_.
       map_memory_region cfg owner mp page_sz vspace frames)))"

section \<open>Step 3-3: the stack\<close>

definition map_pd_stack :: "config \<Rightarrow> string \<Rightarrow> nat \<Rightarrow> u64 \<Rightarrow> u64 bld" where
  "map_pd_stack cfg owner vspace stack_size =
     bindB (liftB (pd_stack_bottom cfg stack_size)) (\<lambda>stack_bottom.
     bindB (foldB (\<lambda>cur_stack_vaddr i.
              bindB (map_own_frame cfg owner (owner @ ''_stack_'' @ pad0 9 (dec_string i)) vspace cur_stack_vaddr)
                (\<lambda>_. returnB (cur_stack_vaddr + page_size_u64 SmallPg)))
              stack_bottom [0..<unat (stack_size div page_size_u64 SmallPg)]) (\<lambda>_.
       returnB stack_bottom))"

section \<open>Steps 3-5 and 3-7: endpoints\<close>

record pd_shadow =
  sh_cspace :: nat
  sh_microkit_cnode :: nat
  sh_notification :: nat
  sh_endpoint :: "nat option"
  sh_sched_context :: nat
  sh_tcb :: nat
  sh_vspace :: nat

type_synonym pd_shadows = "nat \<Rightarrow> pd_shadow option"

definition build_fault_ep_cap ::
    "nat \<Rightarrow> pd_shadows \<Rightarrow> nat \<Rightarrow> protection_domain \<Rightarrow> nat \<Rightarrow> cap bld" where
  "build_fault_ep_cap mon_fault_ep shadows pd_global_idx pd pd_tcb = (case pd_parent pd of
      Some parent \<Rightarrow>
        bindB (liftB (assertr (pd_global_idx > parent))) (\<lambda>_.
        bindB (liftB (unwrapr (pd_id pd))) (\<lambda>child_id.
        bindB (liftB (map_index shadows parent)) (\<lambda>parent_shadow.
        bindB (liftB (unwrapr (sh_endpoint parent_shadow))) (\<lambda>parent_ep.
        bindB (capdl_util_insert_cap_into_cspace (sh_cspace parent_shadow)
                 (ucast (PD_BASE_PD_TCB_CAP + child_id)) (capdl_util_make_tcb_cap pd_tcb)) (\<lambda>_.
          returnB (capdl_util_make_endpoint_cap parent_ep True True True (FAULT_BADGE OR child_id)))))))
    | None \<Rightarrow>
        returnB (capdl_util_make_endpoint_cap mon_fault_ep True True True (of_nat pd_global_idx + 1)))"

text \<open>The notification, the endpoint if the domain needs one, and the capability it waits on.\<close>

definition build_input :: "protection_domain \<Rightarrow> nat \<Rightarrow> channel list \<Rightarrow> (nat \<times> nat option \<times> cap) bld" where
  "build_input pd pd_global_idx channels =
     bindB (capdl_util_make_ntfn_obj (pd_name pd)) (\<lambda>ntfn.
     if needs_ep pd pd_global_idx channels
     then bindB (capdl_util_make_endpoint_obj (pd_name pd) False) (\<lambda>ep.
            returnB (ntfn, Some ep, capdl_util_make_endpoint_cap ep True True True 0))
     else returnB (ntfn, None, capdl_util_make_ntfn_cap ntfn True True 0))"

section \<open>Steps 3-9 and 3-10: interrupts and I/O ports\<close>

definition build_pd_irqs :: "config \<Rightarrow> protection_domain \<Rightarrow> nat \<Rightarrow> cte list bld" where
  "build_pd_irqs cfg pd ntfn =
     foldB (\<lambda>ctes irq.
       bindB (create_irq_handler_cap cfg (pd_name pd) (pd_cpu pd) ntfn irq) (\<lambda>irq_handle_cap.
         returnB (ctes @ [capdl_util_make_cte (ucast (PD_BASE_IRQ_CAP + irq_id irq)) irq_handle_cap])))
       [] (pd_irqs pd)"

definition build_pd_ioports :: "protection_domain \<Rightarrow> cte list bld" where
  "build_pd_ioports pd =
     foldB (\<lambda>ctes ioport.
       bindB (capdl_util_make_ioport_obj (pd_name pd) (iop_addr ioport) (iop_size ioport)) (\<lambda>ioport_obj.
         returnB (ctes @ [capdl_util_make_cte (ucast (PD_BASE_IOPORT_CAP + iop_id ioport))
                            (capdl_util_make_ioport_cap ioport_obj)])))
       [] (pd_ioports pd)"

section \<open>Step 3-11: virtual machines\<close>

definition vcpu_name :: "virtual_machine \<Rightarrow> virtual_cpu \<Rightarrow> string" where
  "vcpu_name vm vcpu = vm_name vm @ ''_'' @ dec_string (unat (vc_id vcpu))"

definition map_vm_region :: "config \<Rightarrow> mr_frames \<Rightarrow> string \<Rightarrow> nat \<Rightarrow> sys_map \<Rightarrow> unit bld" where
  "map_vm_region cfg mrs owner vspace mp =
     bindB (liftB (map_index mrs (sm_mr mp))) (\<lambda>frames.
     bindB (frames_page_size frames) (\<lambda>page_sz.
       map_memory_region cfg owner mp page_sz vspace frames))"

text \<open>A virtual CPU of a virtual machine on ARM and RISC-V; the result is what its domain gets.\<close>

definition build_vcpu ::
    "config \<Rightarrow> protection_domain \<Rightarrow> virtual_machine \<Rightarrow> nat option \<Rightarrow> nat \<Rightarrow> cap
       \<Rightarrow> cte list \<times> nat \<Rightarrow> nat \<times> virtual_cpu \<Rightarrow> (cte list \<times> nat) bld" where
  "build_vcpu cfg pd vm pd_ep mon_cnode vm_vspace_cap = (\<lambda>(ctes, monitor_vcpu_idx) (vcpu_idx, vcpu).
     let name = vcpu_name vm vcpu
     in bindB (capdl_util_make_cnode_obj name PD_CAP_BITS []) (\<lambda>vm_cnode.
     let vm_guard_size = cap_address_bits cfg - ucast PD_CAP_BITS
     in bindB (small_frame_bits cfg) (\<lambda>bits.
     bindB (capdl_util_make_frame_obj [] (''ipcbuf_'' @ name) None bits) (\<lambda>ipcbuf_frame.
     bindB (liftB (unwrapr pd_ep)) (\<lambda>ep.
     bindB (capdl_util_make_sc_obj name (ucast PD_SCHEDCONTEXT_EXTRA_SIZE_BITS) (vm_period vm) (vm_budget vm)
              (0x100 + of_nat vcpu_idx)) (\<lambda>vcpu_sc.
     bindB (capdl_util_make_vcpu_obj name) (\<lambda>vcpu_obj.
     let vcpu_affinity = (case vc_cpu vcpu of Some cpu \<Rightarrow> cpu | None \<Rightarrow> pd_cpu pd)
     in bindB (add_root_object
         \<lparr>no_name = ''tcb_'' @ name,
          no_object = ObjTcb
            [capdl_util_make_cte (tcb_bound_slot_u32 TbVSpace) vm_vspace_cap,
             capdl_util_make_cte (tcb_bound_slot_u32 TbCSpace)
               (capdl_util_make_cnode_cap vm_cnode 0 (ucast vm_guard_size)),
             capdl_util_make_cte (tcb_bound_slot_u32 TbIpcBuffer)
               (capdl_util_make_frame_cap ipcbuf_frame True True False True),
             capdl_util_make_cte (tcb_bound_slot_u32 TbFaultEp)
               (capdl_util_make_endpoint_cap ep True True True (FAULT_BADGE OR vc_id vcpu)),
             capdl_util_make_cte (tcb_bound_slot_u32 TbSchedContext) (capdl_util_make_sc_cap vcpu_sc),
             capdl_util_make_cte (tcb_bound_slot_u32 TbVCpu) (capdl_util_make_vcpu_cap vcpu_obj)]
            \<lparr>te_ipc_buffer_addr = 0, te_affinity = ucast vcpu_affinity, te_prio = vm_priority vm,
             te_max_prio = vm_priority vm, te_resume = False, te_fpu_disabled = False, te_ip = 0, te_sp = 0\<rparr>\<rparr>)
         (\<lambda>vcpu_tcb.
     bindB (capdl_util_insert_cap_into_cspace mon_cnode
              (ucast (MON_BASE_VM_TCB_CAP + of_nat monitor_vcpu_idx)) (capdl_util_make_tcb_cap vcpu_tcb)) (\<lambda>_.
       returnB (ctes @
         [capdl_util_make_cte (ucast (PD_BASE_VCPU_CAP + vc_id vcpu)) (capdl_util_make_vcpu_cap vcpu_obj),
          capdl_util_make_cte (ucast (PD_BASE_VM_TCB_CAP + vc_id vcpu)) (capdl_util_make_tcb_cap vcpu_tcb)],
         monitor_vcpu_idx + 1))))))))))"

text \<open>The virtual CPU of a virtual machine on x86, bound to the thread of its domain.\<close>

definition build_x86_vcpu :: "virtual_machine \<Rightarrow> cap \<Rightarrow> (cte list \<times> cte list) bld" where
  "build_x86_vcpu vm vm_vspace_cap =
     bindB (liftB (assertr (length (vm_vcpus vm) = 1))) (\<lambda>_.
     let vcpu = hd (vm_vcpus vm)
     in bindB (capdl_util_make_vcpu_obj (vcpu_name vm vcpu)) (\<lambda>vcpu_obj.
     let vcpu_cap = capdl_util_make_vcpu_cap vcpu_obj
     in returnB
          ([capdl_util_make_cte (tcb_bound_slot_u32 TbVCpu) vcpu_cap,
            capdl_util_make_cte (tcb_bound_slot_u32 TbX86Eptpml4) vm_vspace_cap],
           [capdl_util_make_cte (ucast (PD_BASE_VCPU_CAP + vc_id vcpu)) vcpu_cap])))"

text \<open>The result: what to bind to the thread of the domain, what to put in its capability space, and the
  count of virtual CPUs.\<close>

definition build_vm ::
    "config \<Rightarrow> mr_frames \<Rightarrow> protection_domain \<Rightarrow> virtual_machine \<Rightarrow> nat option \<Rightarrow> nat \<Rightarrow> nat
       \<Rightarrow> (cte list \<times> cte list \<times> nat) bld" where
  "build_vm cfg mrs pd vm pd_ep mon_cnode monitor_vcpu_idx =
     bindB (if arch cfg = X86_64 then create_vspace_ept cfg (vm_name vm) else create_vspace cfg (vm_name vm)) (\<lambda>vm_vspace.
     let vm_vspace_cap = capdl_util_make_page_table_cap vm_vspace
     in bindB (foldB (\<lambda>_ mp. map_vm_region cfg mrs (vm_name vm) vm_vspace mp) () (vm_maps vm)) (\<lambda>_.
     if arch cfg = X86_64
     then bindB (build_x86_vcpu vm vm_vspace_cap) (\<lambda>(to_tcb, to_cspace). returnB (to_tcb, to_cspace, monitor_vcpu_idx))
     else bindB (foldB (build_vcpu cfg pd vm pd_ep mon_cnode vm_vspace_cap) ([], monitor_vcpu_idx)
                   (enumerate 0 (vm_vcpus vm))) (\<lambda>(to_cspace, idx). returnB ([], to_cspace, idx))))"

definition build_pd_vm ::
    "config \<Rightarrow> mr_frames \<Rightarrow> protection_domain \<Rightarrow> nat option \<Rightarrow> nat \<Rightarrow> nat \<Rightarrow> (cte list \<times> cte list \<times> nat) bld" where
  "build_pd_vm cfg mrs pd pd_ep mon_cnode monitor_vcpu_idx = (case pd_virtual_machine pd of
      Some vm \<Rightarrow> build_vm cfg mrs pd vm pd_ep mon_cnode monitor_vcpu_idx
    | None \<Rightarrow> returnB ([], [], monitor_vcpu_idx))"

section \<open>Steps 3-13 to 3-15\<close>

text \<open>The two levels of the capability space of a domain: the node the tool manages is in slot 0 of the
  root node.\<close>

definition build_cspace :: "config \<Rightarrow> string \<Rightarrow> cte list \<Rightarrow> (nat \<times> nat) bld" where
  "build_cspace cfg owner caps_to_insert =
     bindB (capdl_util_make_cnode_obj owner PD_CAP_BITS caps_to_insert) (\<lambda>pd_cnode.
     let pd_guard_size = cap_address_bits cfg - ucast PD_CAP_BITS - ucast PD_ROOT_CAP_BITS
     in bindB (capdl_util_make_cnode_obj (owner @ ''_root'') PD_ROOT_CAP_BITS []) (\<lambda>root_cnode.
        bindB (capdl_util_insert_cap_into_cspace root_cnode 0
                 (capdl_util_make_cnode_cap pd_cnode 0 (ucast pd_guard_size))) (\<lambda>_.
          returnB (root_cnode, pd_cnode))))"

definition bind_pd_tcb :: "config \<Rightarrow> protection_domain \<Rightarrow> nat \<Rightarrow> cte list \<Rightarrow> unit bld" where
  "bind_pd_tcb cfg pd pd_tcb caps_to_bind =
     bindB (liftB (pd_ipc_buffer cfg)) (\<lambda>ipc_buffer.
     bindB (liftB (pd_stack_top cfg)) (\<lambda>stack_top.
       update_tcb pd_tcb (\<lambda>slots. sort_key (\<lambda>cte. unat (fst cte)) (slots @ caps_to_bind))
         (\<lambda>info. info\<lparr>te_ipc_buffer_addr := ipc_buffer, te_sp := stack_top, te_prio := pd_priority pd,
            te_max_prio := pd_priority pd, te_fpu_disabled := \<not> pd_fpu pd, te_resume := True\<rparr>)))"

definition bind_to_monitor :: "nat \<Rightarrow> nat \<Rightarrow> protection_domain \<Rightarrow> nat \<Rightarrow> nat \<Rightarrow> nat \<Rightarrow> unit bld" where
  "bind_to_monitor mon_cnode pd_global_idx pd pd_tcb pd_sc pd_ntfn =
     bindB (capdl_util_insert_cap_into_cspace mon_cnode (ucast (MON_BASE_PD_TCB_CAP + of_nat pd_global_idx))
              (capdl_util_make_tcb_cap pd_tcb)) (\<lambda>_.
     if pd_passive pd
     then bindB (capdl_util_insert_cap_into_cspace mon_cnode
                   (ucast (MON_BASE_SCHED_CONTEXT_CAP + of_nat pd_global_idx)) (capdl_util_make_sc_cap pd_sc)) (\<lambda>_.
          capdl_util_insert_cap_into_cspace mon_cnode
            (ucast (MON_BASE_NOTIFICATION_CAP + of_nat pd_global_idx))
            (capdl_util_make_ntfn_cap pd_ntfn True True 0))
     else returnB ())"

section \<open>Step 3: a protection domain\<close>

text \<open>The capabilities of fixed slots that do not depend on other domains.\<close>

definition own_ctes :: "config \<Rightarrow> nat \<Rightarrow> nat \<Rightarrow> cte list" where
  "own_ctes cfg pd_tcb pd_vspace =
     (if benchmark cfg then [capdl_util_make_cte (ucast PD_TCB_CAP_IDX) (capdl_util_make_tcb_cap pd_tcb)] else [])
     @ [capdl_util_make_cte (ucast PD_VSPACE_CAP_IDX) (capdl_util_make_page_table_cap pd_vspace)]"

definition passive_ctes :: "protection_domain \<Rightarrow> nat \<Rightarrow> nat \<Rightarrow> cte list" where
  "passive_ctes pd mon_fault_ep pd_global_idx =
     (if pd_passive pd
      then [capdl_util_make_cte (ucast PD_MONITOR_EP_CAP_IDX)
              (capdl_util_make_endpoint_cap mon_fault_ep True True True (of_nat pd_global_idx + 1))]
      else [])"

definition smc_ctes :: "protection_domain \<Rightarrow> nat option \<Rightarrow> (capdl_error, cte list) res" where
  "smc_ctes pd arm_smc_obj =
     (if pd_smc pd
      then bindr (unwrapr arm_smc_obj) (\<lambda>smc.
             Inr [capdl_util_make_cte (ucast PD_ARM_SMC_CAP_IDX) (capdl_util_make_arm_smc_cap smc)])
      else Inr [])"

definition create_arm_smc :: "config \<Rightarrow> protection_domain list \<Rightarrow> nat option bld" where
  "create_arm_smc cfg pds =
     (if arch cfg = Aarch64 \<and> (case arm_smc cfg of Some b \<Rightarrow> b | None \<Rightarrow> False) \<and> list_ex pd_smc pds
      then bindB (add_root_object \<lparr>no_name = ''arm_smc'', no_object = ObjArmSmc\<rparr>) (\<lambda>i. returnB (Some i))
      else returnB None)"

text \<open>What the steps need from the steps before, and what they pass on from one domain to the next.\<close>

record pd_env =
  pe_mrs :: mr_frames
  pe_fault_ep :: nat
  pe_mon_cnode :: nat
  pe_arm_smc :: "nat option"
  pe_channels :: "channel list"

record pd_build =
  pb_shadows :: pd_shadows
  pb_vcpu_idx :: nat
  pb_stack_bottoms :: "u64 list"

text \<open>Everything of a domain but its capability space: steps 3-1 to 3-12.\<close>

record pd_parts =
  pp_tcb :: nat
  pp_vspace :: nat
  pp_sc :: nat
  pp_fault_cap :: cap
  pp_ntfn :: nat
  pp_ep :: "nat option"
  pp_to_cspace :: "cte list"
  pp_to_tcb :: "cte list"
  pp_stack_bottom :: u64
  pp_vcpu_idx :: nat

definition build_pd_parts ::
    "config \<Rightarrow> pd_env \<Rightarrow> elf_file list \<Rightarrow> pd_build \<Rightarrow> nat \<Rightarrow> protection_domain \<Rightarrow> pd_parts bld" where
  "build_pd_parts cfg env elfs pb pd_global_idx pd =
     bindB (liftB (nthr elfs pd_global_idx)) (\<lambda>elf_obj.
     bindB (unwrapB (add_elf_to_spec cfg (pd_name pd) (pd_cpu pd) pd_global_idx elf_obj)) (\<lambda>pd_tcb.
     bindB (capdl_util_get_vspace_id_from_tcb_id pd_tcb) (\<lambda>pd_vspace.
     bindB (foldB (\<lambda>_ mp. map_pd_region cfg (pe_mrs env) (pd_name pd) pd_vspace elf_obj mp) () (pd_maps pd)) (\<lambda>_.
     bindB (map_ipc_buffer cfg (pd_name pd) pd_vspace) (\<lambda>ipcbuf_cap.
     bindB (map_pd_stack cfg (pd_name pd) pd_vspace (pd_stack_size pd)) (\<lambda>stack_bottom.
     bindB (capdl_util_make_sc_obj (pd_name pd) (ucast PD_SCHEDCONTEXT_EXTRA_SIZE_BITS) (pd_period pd)
              (pd_budget pd) (0x100 + of_nat pd_global_idx)) (\<lambda>pd_sc.
     bindB (build_fault_ep_cap (pe_fault_ep env) (pb_shadows pb) pd_global_idx pd pd_tcb) (\<lambda>fault_cap.
     bindB (build_input pd pd_global_idx (pe_channels env)) (\<lambda>(pd_ntfn, pd_ep, input_cap).
     bindB (capdl_util_make_reply_obj (pd_name pd)) (\<lambda>pd_reply.
     bindB (build_pd_irqs cfg pd pd_ntfn) (\<lambda>irq_ctes.
     bindB (build_pd_ioports pd) (\<lambda>ioport_ctes.
     bindB (build_pd_vm cfg (pe_mrs env) pd pd_ep (pe_mon_cnode env) (pb_vcpu_idx pb)) (\<lambda>(vm_tcb_ctes, vm_ctes, vcpu_idx).
     bindB (liftB (smc_ctes pd (pe_arm_smc env))) (\<lambda>smc.
       returnB
         \<lparr>pp_tcb = pd_tcb, pp_vspace = pd_vspace, pp_sc = pd_sc, pp_fault_cap = fault_cap, pp_ntfn = pd_ntfn,
          pp_ep = pd_ep,
          pp_to_cspace =
            own_ctes cfg pd_tcb pd_vspace
            @ [capdl_util_make_cte (ucast PD_FAULT_EP_CAP_IDX) fault_cap]
            @ passive_ctes pd (pe_fault_ep env) pd_global_idx
            @ [capdl_util_make_cte (ucast PD_INPUT_CAP_IDX) input_cap,
               capdl_util_make_cte (ucast PD_REPLY_CAP_IDX) (capdl_util_make_reply_cap pd_reply)]
            @ irq_ctes @ ioport_ctes @ vm_ctes @ smc,
          pp_to_tcb =
            [capdl_util_make_cte (tcb_bound_slot_u32 TbIpcBuffer) ipcbuf_cap,
             capdl_util_make_cte (tcb_bound_slot_u32 TbSchedContext) (capdl_util_make_sc_cap pd_sc),
             capdl_util_make_cte (tcb_bound_slot_u32 TbFaultEp) fault_cap,
             capdl_util_make_cte (tcb_bound_slot_u32 TbBoundNotification)
               (capdl_util_make_ntfn_cap pd_ntfn True True 0)]
            @ vm_tcb_ctes,
          pp_stack_bottom = stack_bottom, pp_vcpu_idx = vcpu_idx\<rparr>))))))))))))))"

definition build_pd ::
    "config \<Rightarrow> pd_env \<Rightarrow> elf_file list \<Rightarrow> pd_build \<Rightarrow> nat \<times> protection_domain \<Rightarrow> pd_build bld" where
  "build_pd cfg env elfs pb = (\<lambda>(pd_global_idx, pd).
     bindB (build_pd_parts cfg env elfs pb pd_global_idx pd) (\<lambda>parts.
     bindB (build_cspace cfg (pd_name pd) (pp_to_cspace parts)) (\<lambda>(root_cnode, pd_cnode).
     bindB (bind_pd_tcb cfg pd (pp_tcb parts)
              (pp_to_tcb parts
               @ [capdl_util_make_cte (tcb_bound_slot_u32 TbCSpace) (capdl_util_make_cnode_cap root_cnode 0 0)])) (\<lambda>_.
     bindB (bind_to_monitor (pe_mon_cnode env) pd_global_idx pd (pp_tcb parts) (pp_sc parts) (pp_ntfn parts)) (\<lambda>_.
       returnB \<lparr>pb_shadows = (pb_shadows pb)(pd_global_idx \<mapsto>
                  \<lparr>sh_cspace = root_cnode, sh_microkit_cnode = pd_cnode, sh_notification = pp_ntfn parts,
                   sh_endpoint = pp_ep parts, sh_sched_context = pp_sc parts, sh_tcb = pp_tcb parts,
                   sh_vspace = pp_vspace parts\<rparr>),
                pb_vcpu_idx = pp_vcpu_idx parts,
                pb_stack_bottoms = pb_stack_bottoms pb @ [pp_stack_bottom parts]\<rparr>)))))"

section \<open>What the steps build\<close>

lemma builds_map_memory_region [built]:
  assumes "set frames \<subseteq> S"
  shows "builds n S (map_memory_region cfg owner mp z vspace frames) (\<lambda>_. {}) (\<lambda>_. True)"
proof -
  have loop: "builds n S (foldB (\<lambda>cur_vaddr frame_id.
           bindB (unwrapB (map_page cfg owner vspace (capdl_util_make_frame_cap frame_id r w x c) z cur_vaddr)) (\<lambda>_.
                returnB (cur_vaddr + z))) a frames) (\<lambda>_. {}) (\<lambda>_. True)" for r w x c a
    by (intro builds_fold built [THEN builds_bind] built_end) (use assms in auto)
  then show ?thesis
    unfolding map_memory_region_def Let_def
    by (intro loop [THEN builds_bind] built_end) auto
qed

lemma builds_frames_page_size [built]:
  "builds n S (frames_page_size frames) (\<lambda>_. {}) (\<lambda>_. True)"
proof -
  have bits: "builds n S (capdl_util_get_frame_size_bits i) (\<lambda>_. {}) (\<lambda>_. True)" for i S
    unfolding capdl_util_get_frame_size_bits_def
    by (auto intro!: builds_bind [OF builds_root_object] built_end split: capdl_object.split)
  show ?thesis
    unfolding frames_page_size_def
    by (intro built [THEN builds_bind] bits [THEN builds_bind] built_end) auto
qed

lemma mr_ids_frames: "m k = Some frames \<Longrightarrow> set frames \<subseteq> mr_ids m"
  by (auto simp: mr_ids_def ran_def)

lemma builds_map_pd_region [built]:
  "mr_ids mrs \<subseteq> S \<Longrightarrow> builds n S (map_pd_region cfg mrs owner vspace elf mp) (\<lambda>_. {}) (\<lambda>_. True)"
  unfolding map_pd_region_def
  by (intro built [THEN builds_bind] built) (auto dest!: mr_ids_frames)

lemma builds_map_vm_region [built]:
  "mr_ids mrs \<subseteq> S \<Longrightarrow> builds n S (map_vm_region cfg mrs owner vspace mp) (\<lambda>_. {}) (\<lambda>_. True)"
  unfolding map_vm_region_def
  by (intro built [THEN builds_bind] built) (auto dest!: mr_ids_frames)

lemma builds_each [built]:
  "(\<And>x. x \<in> set xs \<Longrightarrow> builds n S (f x) (\<lambda>_. {}) (\<lambda>_. True)) \<Longrightarrow>
     builds n S (foldB (\<lambda>_. f) () xs) (\<lambda>_. {}) (\<lambda>_. True)"
  by (intro builds_fold) auto

lemma builds_map_pd_stack [built]:
  "builds n S (map_pd_stack cfg owner vspace z) (\<lambda>_. {}) (\<lambda>_. True)"
proof -
  have "builds n S (foldB (\<lambda>cur_stack_vaddr i.
              bindB (map_own_frame cfg owner (owner @ ''_stack_'' @ pad0 9 (dec_string i)) vspace cur_stack_vaddr)
                (\<lambda>_. returnB (cur_stack_vaddr + page_size_u64 SmallPg))) a is) (\<lambda>_. {}) (\<lambda>_. True)" for S a "is"
    by (intro builds_fold built [THEN builds_bind] built_end) auto
  note stack = this [THEN builds_bind]
  show ?thesis
    unfolding map_pd_stack_def
    by (intro built [THEN builds_bind] stack built_end) auto
qed

definition shadow_ids :: "pd_shadow \<Rightarrow> nat set" where
  "shadow_ids sh = {sh_cspace sh, sh_microkit_cnode sh, sh_notification sh, sh_sched_context sh, sh_tcb sh, sh_vspace sh}
     \<union> set_option (sh_endpoint sh)"

definition shadows_ids :: "pd_shadows \<Rightarrow> nat set" where
  "shadows_ids m = (\<Union>sh \<in> ran m. shadow_ids sh)"

lemma shadows_ids_mem: "m k = Some sh \<Longrightarrow> shadow_ids sh \<subseteq> shadows_ids m"
  by (auto simp: shadows_ids_def ran_def)

lemma shadows_ids_upd: "shadows_ids (m(k \<mapsto> sh)) \<subseteq> shadows_ids m \<union> shadow_ids sh"
  by (auto simp: shadows_ids_def ran_def split: if_splits)

lemma builds_fault_ep_cap [built]:
  "shadows_ids shadows \<subseteq> S \<Longrightarrow> mon_ep \<in> S \<Longrightarrow> tcb \<in> S \<Longrightarrow>
     builds n S (build_fault_ep_cap mon_ep shadows i pd tcb) (\<lambda>c. {cap_obj c}) (\<lambda>_. True)"
  unfolding build_fault_ep_cap_def
  by (intro built [THEN builds_bind] built_end)
    (auto simp: unwrapr_eq_Inr shadow_ids_def dest!: shadows_ids_mem)

lemma builds_input [built]:
  "builds n S (build_input pd i channels) (\<lambda>(ntfn, ep, c). {ntfn, cap_obj c} \<union> set_option ep) (\<lambda>_. True)"
  unfolding build_input_def
  by (intro built [THEN builds_bind] built_end) auto

lemma builds_pd_irqs [built]:
  assumes "ntfn \<in> S"
  shows "builds n S (build_pd_irqs cfg pd ntfn) cte_ids (\<lambda>_. True)"
  unfolding build_pd_irqs_def
  by (intro builds_fold built [THEN builds_bind] built_end) (use assms in auto)

lemma builds_pd_ioports [built]: "builds n S (build_pd_ioports pd) cte_ids (\<lambda>_. True)"
  unfolding build_pd_ioports_def
  by (intro builds_fold built [THEN builds_bind] built_end) auto

lemma builds_vcpu:
  assumes "cap_obj vsc \<in> S" "set_option ep \<subseteq> S"
  shows "builds n (S \<union> cte_ids (fst acc)) (build_vcpu cfg pd vm ep mon_cnode vsc acc x) (\<lambda>acc. cte_ids (fst acc)) (\<lambda>_. True)"
proof -
  obtain ctes k i vcpu where p: "acc = (ctes, k)" "x = (i, vcpu)" by (cases acc, cases x)
  show ?thesis
    unfolding build_vcpu_def Let_def p prod.case
    by (intro built [THEN builds_bind] built_end) (use assms p in \<open>auto simp: unwrapr_eq_Inr\<close>)
qed

lemma builds_x86_vcpu [built]:
  "cap_obj vsc \<in> S \<Longrightarrow>
     builds n S (build_x86_vcpu vm vsc) (\<lambda>(a, b). cte_ids a \<union> cte_ids b) (\<lambda>_. True)"
  unfolding build_x86_vcpu_def Let_def
  by (intro built [THEN builds_bind] built_end) auto

lemma builds_vm [built]:
  assumes "mr_ids mrs \<subseteq> S" "set_option ep \<subseteq> S"
  shows "builds n S (build_vm cfg mrs pd vm ep mon_cnode k) (\<lambda>(a, b, _). cte_ids a \<union> cte_ids b) (\<lambda>_. True)"
proof -
  have vsp: "builds n S (if arch cfg = X86_64 then create_vspace_ept cfg (vm_name vm) else create_vspace cfg (vm_name vm))
      (\<lambda>i. {i}) (\<lambda>i. n \<le> i)"
    by (auto intro: built)
  have vcpus: "builds n T (foldB (build_vcpu cfg pd vm ep mon_cnode (capdl_util_make_page_table_cap v)) ([], k) xs)
      (\<lambda>acc. cte_ids (fst acc)) (\<lambda>_. True)" if "v \<in> T" "S \<subseteq> T" for v T xs
    by (intro builds_fold builds_vcpu) (use assms that in auto)
  show ?thesis
    unfolding build_vm_def Let_def
    by (intro built [THEN builds_bind] vsp [THEN builds_bind] vcpus [THEN builds_bind] built built_end)
      (use assms in auto)
qed

lemma builds_pd_vm [built]:
  "mr_ids mrs \<subseteq> S \<Longrightarrow> set_option ep \<subseteq> S \<Longrightarrow>
     builds n S (build_pd_vm cfg mrs pd ep mon_cnode k) (\<lambda>(a, b, _). cte_ids a \<union> cte_ids b) (\<lambda>_. True)"
  unfolding build_pd_vm_def
  by (intro built_end) (auto intro: builds_vm)

lemma builds_cspace [built]:
  "cte_ids ctes \<subseteq> S \<Longrightarrow> builds n S (build_cspace cfg owner ctes) (\<lambda>(a, b). {a, b}) (\<lambda>_. True)"
  unfolding build_cspace_def Let_def
  by (intro built [THEN builds_bind] built_end) auto

lemma cte_ids_sort [simp]: "cte_ids (sort_key f sl) = cte_ids sl"
  by (simp add: cte_ids_def)

lemma builds_bind_pd_tcb [built]:
  "cte_ids ctes \<subseteq> S \<Longrightarrow> n \<le> tcb \<Longrightarrow> builds n S (bind_pd_tcb cfg pd tcb ctes) (\<lambda>_. {}) (\<lambda>_. True)"
  unfolding bind_pd_tcb_def
  by (intro built [THEN builds_bind] built) auto

lemma builds_bind_to_monitor [built]:
  "{tcb, sc, ntfn} \<subseteq> S \<Longrightarrow> builds n S (bind_to_monitor mon_cnode i pd tcb sc ntfn) (\<lambda>_. {}) (\<lambda>_. True)"
  unfolding bind_to_monitor_def
  by (intro built [THEN builds_bind] built built_end) auto

lemma cte_ids_own [simp]:
  "cte_ids (own_ctes cfg tcb vspace) = {vspace} \<union> (if benchmark cfg then {tcb} else {})"
  "cte_ids (passive_ctes pd ep i) = (if pd_passive pd then {ep} else {})"
  by (auto simp: own_ctes_def passive_ctes_def)

lemma smc_ctes_ids: "smc_ctes pd smc = Inr ctes \<Longrightarrow> cte_ids ctes \<subseteq> set_option smc"
  by (auto simp: smc_ctes_def bindr_eq_Inr unwrapr_eq_Inr split: if_splits)

lemma builds_arm_smc [built]: "builds n S (create_arm_smc cfg pds) set_option (\<lambda>_. True)"
  unfolding create_arm_smc_def
  by (intro built [THEN builds_bind] built_end) auto

definition env_ids :: "pd_env \<Rightarrow> nat set" where
  "env_ids env = mr_ids (pe_mrs env) \<union> {pe_fault_ep env, pe_mon_cnode env} \<union> set_option (pe_arm_smc env)"

definition parts_ids :: "pd_parts \<Rightarrow> nat set" where
  "parts_ids parts = {pp_tcb parts, pp_vspace parts, pp_sc parts, cap_obj (pp_fault_cap parts), pp_ntfn parts}
     \<union> set_option (pp_ep parts) \<union> cte_ids (pp_to_cspace parts) \<union> cte_ids (pp_to_tcb parts)"

lemma builds_pd_parts [built]:
  "env_ids env \<subseteq> S \<Longrightarrow> shadows_ids (pb_shadows pb) \<subseteq> S \<Longrightarrow>
     builds n S (build_pd_parts cfg env elfs pb i pd) parts_ids (\<lambda>parts. n \<le> pp_tcb parts)"
  unfolding build_pd_parts_def
  by (intro built [THEN builds_bind] built_end)
    (auto simp: env_ids_def parts_ids_def dest!: smc_ctes_ids intro!: builds_map_pd_region)

text \<open>A domain leaves every object that existed as it was, but for additions to capability nodes and page
  tables, and every capability it makes names an object.\<close>

lemma builds_pd:
  assumes "env_ids env \<subseteq> S"
  shows "builds n (S \<union> shadows_ids (pb_shadows pb)) (build_pd cfg env elfs pb x)
           (\<lambda>pb. shadows_ids (pb_shadows pb)) (\<lambda>_. True)"
proof -
  obtain i pd where x: "x = (i, pd)" by (cases x)
  show ?thesis
    unfolding build_pd_def x prod.case
    by (intro built [THEN builds_bind] built_end)
      (use assms in \<open>auto simp: parts_ids_def env_ids_def shadow_ids_def intro!: order_trans [OF shadows_ids_upd]\<close>)
qed

end
