(* ===== verification/Capdl_Wiring.thy ===== *)
theory Capdl_Wiring
  imports Capdl_Pd
begin

unbundle bit_operations_syntax

text \<open>
  The capabilities that connect protection domains: channels and extra capability mappings, steps 4 and
  5 of \<open>build_capdl_spec\<close> in \<open>tool/microkit/src/capdl/builder.rs\<close>.
\<close>

section \<open>Definitions\<close>

text \<open>The capabilities that one end of a channel gets: to the notification of the other end, and to its
  endpoint.\<close>

definition connect_notify :: "channel_end \<Rightarrow> channel_end \<Rightarrow> pd_shadow \<Rightarrow> pd_shadow \<Rightarrow> unit bld" where
  "connect_notify this_end other_end this_pd other_pd =
     (if ce_notify this_end
      then capdl_util_insert_cap_into_cspace (sh_microkit_cnode this_pd)
             (ucast (PD_BASE_OUTPUT_NOTIFICATION_CAP + ce_id this_end))
             (capdl_util_make_ntfn_cap (sh_notification other_pd) True True (shl 1 (ce_id other_end)))
      else returnB ())"

definition connect_pp :: "channel_end \<Rightarrow> channel_end \<Rightarrow> pd_shadow \<Rightarrow> pd_shadow \<Rightarrow> unit bld" where
  "connect_pp this_end other_end this_pd other_pd =
     (if ce_pp this_end
      then bindB (liftB (unwrapr (sh_endpoint other_pd))) (\<lambda>other_ep.
             capdl_util_insert_cap_into_cspace (sh_microkit_cnode this_pd)
               (ucast (PD_BASE_OUTPUT_ENDPOINT_CAP + ce_id this_end))
               (capdl_util_make_endpoint_cap other_ep True True True (PPC_BADGE OR ce_id other_end)))
      else returnB ())"

definition build_channel :: "pd_shadows \<Rightarrow> channel \<Rightarrow> unit bld" where
  "build_channel shadows channel =
     bindB (liftB (map_index shadows (ce_pd (end_a channel)))) (\<lambda>pd_a.
     bindB (liftB (map_index shadows (ce_pd (end_b channel)))) (\<lambda>pd_b.
     bindB (connect_notify (end_a channel) (end_b channel) pd_a pd_b) (\<lambda>_.
     bindB (connect_notify (end_b channel) (end_a channel) pd_b pd_a) (\<lambda>_.
     bindB (connect_pp (end_a channel) (end_b channel) pd_a pd_b) (\<lambda>_.
       connect_pp (end_b channel) (end_a channel) pd_b pd_a)))))"

definition build_channels :: "pd_shadows \<Rightarrow> channel list \<Rightarrow> unit bld" where
  "build_channels shadows channels = foldB (\<lambda>_ channel. build_channel shadows channel) () channels"

definition cap_map_cap :: "config \<Rightarrow> pd_shadow \<Rightarrow> cap_map_type \<Rightarrow> cap bld" where
  "cap_map_cap cfg src cap_type = (case cap_type of
      CmTcb \<Rightarrow> returnB (capdl_util_make_tcb_cap (sh_tcb src))
    | CmSc \<Rightarrow> returnB (capdl_util_make_sc_cap (sh_sched_context src))
    | CmVSpace \<Rightarrow> returnB (capdl_util_make_page_table_cap (sh_vspace src))
    | CmCSpace \<Rightarrow>
        bindB (\<lambda>s. bindr (get_root_object (sh_cspace src) s) (\<lambda>ob. Inr (ob, s))) (\<lambda>named_object.
        case named_object of
          None \<Rightarrow> liftB (Inl (Panic UnreachableReached))
        | Some ob \<Rightarrow> (case no_object ob of
              ObjCNode cnode_bits _ \<Rightarrow>
                (let guard_size = ucast (cap_address_bits cfg) - PD_ROOT_CAP_BITS - cnode_bits
                 in returnB (capdl_util_make_cnode_cap (sh_cspace src) 0 guard_size))
            | _ \<Rightarrow> liftB (Inl (Panic UnreachableReached)))))"

definition build_cap_map :: "config \<Rightarrow> pd_shadows \<Rightarrow> pd_shadow \<Rightarrow> cap_map \<Rightarrow> unit bld" where
  "build_cap_map cfg shadows dest cm =
     bindB (liftB (unwrapr (cm_pd cm))) (\<lambda>src_pd.
     bindB (liftB (map_index shadows src_pd)) (\<lambda>src.
     bindB (cap_map_cap cfg src (cm_cap_type cm)) (\<lambda>cap_map_obj.
       capdl_util_insert_cap_into_cspace (sh_cspace dest) (ucast (cm_slot cm)) cap_map_obj)))"

definition build_cap_maps :: "config \<Rightarrow> pd_shadows \<Rightarrow> protection_domain list \<Rightarrow> unit bld" where
  "build_cap_maps cfg shadows pds =
     foldB (\<lambda>_ (pd_dest_idx, pd).
       bindB (liftB (map_index shadows pd_dest_idx)) (\<lambda>dest.
         foldB (\<lambda>_ cm. build_cap_map cfg shadows dest cm) () (pd_cap_maps pd))) () (enumerate 0 pds)"

section \<open>What the steps build\<close>

lemma builds_connect [built]:
  assumes "sh_notification other \<in> S" "set_option (sh_endpoint other) \<subseteq> S"
  shows "builds n S (connect_notify e1 e2 this other) (\<lambda>_. {}) (\<lambda>_. True)"
    and "builds n S (connect_pp e1 e2 this other) (\<lambda>_. {}) (\<lambda>_. True)"
  unfolding connect_notify_def connect_pp_def
  by (intro built [THEN builds_bind] built built_end; use assms in \<open>auto simp: unwrapr_eq_Inr\<close>)+

lemma shadow_ids_parts:
  assumes "m k = Some sh" "shadows_ids m \<subseteq> S"
  shows "sh_notification sh \<in> S" "set_option (sh_endpoint sh) \<subseteq> S" "sh_tcb sh \<in> S" "sh_cspace sh \<in> S"
    "sh_sched_context sh \<in> S" "sh_vspace sh \<in> S" "sh_microkit_cnode sh \<in> S"
  using shadows_ids_mem [of m k sh] assms by (auto simp: shadow_ids_def)

lemma builds_channel [built]:
  "shadows_ids shadows \<subseteq> S \<Longrightarrow> builds n S (build_channel shadows ch) (\<lambda>_. {}) (\<lambda>_. True)"
  unfolding build_channel_def
  by (intro built [THEN builds_bind] built) (auto simp: shadow_ids_parts dest: shadow_ids_parts(2))

lemma builds_channels [built]:
  "shadows_ids shadows \<subseteq> S \<Longrightarrow> builds n S (build_channels shadows channels) (\<lambda>_. {}) (\<lambda>_. True)"
  unfolding build_channels_def by (intro built)

lemma builds_get [built]:
  "builds n S (\<lambda>s. bindr (get_root_object i s) (\<lambda>ob. Inr (ob, s))) (\<lambda>_. {}) (\<lambda>_. True)"
  by (auto simp: builds_def bindr_eq_Inr)

lemma builds_cap_map_cap [built]:
  "shadow_ids sh \<subseteq> S \<Longrightarrow> builds n S (cap_map_cap cfg sh ty) (\<lambda>c. {cap_obj c}) (\<lambda>_. True)"
  unfolding cap_map_cap_def Let_def
  by (cases ty; simp; intro built [THEN builds_bind] built_end)
    (auto simp: shadow_ids_def split: capdl_object.split intro: built_end)

lemma builds_cap_map [built]:
  "shadows_ids shadows \<subseteq> S \<Longrightarrow> builds n S (build_cap_map cfg shadows dest cm) (\<lambda>_. {}) (\<lambda>_. True)"
  unfolding build_cap_map_def
  by (intro built [THEN builds_bind] built) (auto dest!: shadows_ids_mem)

lemma builds_cap_maps [built]:
  "shadows_ids shadows \<subseteq> S \<Longrightarrow> builds n S (build_cap_maps cfg shadows pds) (\<lambda>_. {}) (\<lambda>_. True)"
  unfolding build_cap_maps_def
  by (intro builds_fold built_end built [THEN builds_bind] built) auto

section \<open>What a channel connects\<close>

definition slots_of :: "spec_container \<Rightarrow> nat \<Rightarrow> cte list" where
  "slots_of s i = the_slots (no_object (sc_objects s ! i))"

text \<open>A step that adds the capabilities \<open>A i\<close> to object \<open>i\<close> and no others.\<close>

definition adds_caps :: "spec_container \<Rightarrow> spec_container \<Rightarrow> (nat \<Rightarrow> cte set) \<Rightarrow> bool" where
  "adds_caps s s' A \<longleftrightarrow> range_ok s' \<and> length (sc_objects s') = length (sc_objects s)
     \<and> (\<forall>i < length (sc_objects s). set (slots_of s' i) = set (slots_of s i) \<union> A i)"

lemma adds_caps_none: "range_ok s \<Longrightarrow> adds_caps s s (\<lambda>_. {})"
  by (simp add: adds_caps_def)

lemma adds_caps_trans: "adds_caps s t A \<Longrightarrow> adds_caps t u B \<Longrightarrow> adds_caps s u (\<lambda>i. A i \<union> B i)"
  by (auto simp: adds_caps_def)

lemma adds_caps_cong: "adds_caps s s' A \<Longrightarrow> (\<And>i. A i = B i) \<Longrightarrow> adds_caps s s' B"
  by (simp add: adds_caps_def)

lemma insert_cap_adds:
  assumes "capdl_util_insert_cap_into_cspace i k c s = Inr (u, s')" "range_ok s"
  shows "adds_caps s s' (\<lambda>j. if j = i then {(k, c)} else {})"
  using assms
  by (auto simp: capdl_util_insert_cap_into_cspace_def bld_simps adds_caps_def range_ok_def slots_of_def
      nth_list_update the_slots_def capdl_util_make_cte_def split: capdl_object.splits)

definition rw_rights :: cap_rights where
  "rw_rights = \<lparr>r_read = True, r_write = True, r_grant = False, r_grant_reply = False\<rparr>"

definition rwg_rights :: cap_rights where
  "rwg_rights = \<lparr>r_read = True, r_write = True, r_grant = True, r_grant_reply = False\<rparr>"

text \<open>The capabilities one end of a channel is entitled to in node \<open>i\<close>: at its identifier among the
  notifications, the notification of the other domain with the bit of the other end's identifier as
  badge; at its identifier among the endpoints, the endpoint of the other domain, with a badge that
  marks a protected call and carries the other end's identifier.\<close>

definition end_caps :: "pd_shadows \<Rightarrow> channel_end \<Rightarrow> channel_end \<Rightarrow> nat \<Rightarrow> cte set" where
  "end_caps shadows this_end other_end i =
     {cte. \<exists>this other. shadows (ce_pd this_end) = Some this \<and> shadows (ce_pd other_end) = Some other
        \<and> sh_microkit_cnode this = i
        \<and> (ce_notify this_end
             \<and> cte = (ucast (10 + ce_id this_end),
                      CapNotification (sh_notification other) (shl 1 (ce_id other_end)) rw_rights)
           \<or> ce_pp this_end \<and> (\<exists>ep. sh_endpoint other = Some ep
             \<and> cte = (ucast (74 + ce_id this_end),
                      CapEndpoint ep (0x8000000000000000 OR ce_id other_end) rwg_rights)))}"

lemma connect_notify_adds:
  assumes "connect_notify e1 e2 this other s = Inr (u, s')" "range_ok s"
  shows "adds_caps s s' (\<lambda>i. if i = sh_microkit_cnode this \<and> ce_notify e1
     then {(ucast (10 + ce_id e1), CapNotification (sh_notification other) (shl 1 (ce_id e2)) rw_rights)} else {})"
proof (cases "ce_notify e1")
  case True
  with assms insert_cap_adds [of "sh_microkit_cnode this"] show ?thesis
    by (fastforce simp: connect_notify_def capdl_util_make_ntfn_cap_def rw_rights_def
        PD_BASE_OUTPUT_NOTIFICATION_CAP_def elim: adds_caps_cong)
next
  case False
  with assms adds_caps_none show ?thesis by (simp add: connect_notify_def bld_simps)
qed

lemma connect_pp_adds:
  assumes "connect_pp e1 e2 this other s = Inr (u, s')" "range_ok s"
  shows "adds_caps s s' (\<lambda>i. {cte. i = sh_microkit_cnode this \<and> ce_pp e1 \<and> (\<exists>ep. sh_endpoint other = Some ep
     \<and> cte = (ucast (74 + ce_id e1), CapEndpoint ep (0x8000000000000000 OR ce_id e2) rwg_rights))})"
proof (cases "ce_pp e1")
  case True
  with assms obtain ep where ep: "sh_endpoint other = Some ep"
    and run: "capdl_util_insert_cap_into_cspace (sh_microkit_cnode this) (ucast (74 + ce_id e1))
       (CapEndpoint ep (0x8000000000000000 OR ce_id e2) rwg_rights) s = Inr (u, s')"
    by (auto simp: connect_pp_def bld_simps unwrapr_eq_Inr PD_BASE_OUTPUT_ENDPOINT_CAP_def
        PD_BASE_OUTPUT_NOTIFICATION_CAP_def PPC_BADGE_def capdl_util_make_endpoint_cap_def rwg_rights_def)
  show ?thesis
    by (rule adds_caps_cong [OF insert_cap_adds [OF run assms(2)]]) (use True ep in auto)
next
  case False
  with assms adds_caps_none show ?thesis by (simp add: connect_pp_def bld_simps)
qed

lemma build_channel_adds:
  assumes "build_channel shadows ch s = Inr (u, s')" "range_ok s"
  shows "adds_caps s s' (\<lambda>i. end_caps shadows (end_a ch) (end_b ch) i \<union> end_caps shadows (end_b ch) (end_a ch) i)"
proof -
  from assms(1) obtain a b s1 s2 s3 where
    sh: "shadows (ce_pd (end_a ch)) = Some a" "shadows (ce_pd (end_b ch)) = Some b"
    and r: "connect_notify (end_a ch) (end_b ch) a b s = Inr ((), s1)"
      "connect_notify (end_b ch) (end_a ch) b a s1 = Inr ((), s2)"
      "connect_pp (end_a ch) (end_b ch) a b s2 = Inr ((), s3)"
      "connect_pp (end_b ch) (end_a ch) b a s3 = Inr (u, s')"
    by (auto simp: build_channel_def bld_simps)
  note 1 = connect_notify_adds [OF r(1) assms(2)]
  then have "range_ok s1" by (simp add: adds_caps_def)
  note 2 = connect_notify_adds [OF r(2) this]
  then have "range_ok s2" by (simp add: adds_caps_def)
  note 3 = connect_pp_adds [OF r(3) this]
  then have "range_ok s3" by (simp add: adds_caps_def)
  note 4 = connect_pp_adds [OF r(4) this]
  show ?thesis
    by (rule adds_caps_cong [OF adds_caps_trans [OF 1 adds_caps_trans [OF 2 adds_caps_trans [OF 3 4]]]])
      (auto simp: end_caps_def sh)
qed

lemma build_channels_adds:
  assumes "build_channels shadows channels s = Inr (u, s')" and "range_ok s"
  shows "adds_caps s s' (\<lambda>i. \<Union>ch \<in> set channels.
     end_caps shadows (end_a ch) (end_b ch) i \<union> end_caps shadows (end_b ch) (end_a ch) i)"
proof -
  let ?A = "\<lambda>chs i. \<Union>ch :: channel \<in> set chs.
     end_caps shadows (end_a ch) (end_b ch) i \<union> end_caps shadows (end_b ch) (end_a ch) i"
  have "adds_caps s s' (?A channels)"
    using assms(1) unfolding build_channels_def
  proof (rule foldB_inv [where I = "\<lambda>chs _ t. adds_caps s t (?A chs)"])
    show "adds_caps s s (?A [])" using adds_caps_none [OF assms(2)] by simp
    fix chs ch a t b w
    assume t: "adds_caps s t (?A chs)" and run: "build_channel shadows ch t = Inr (b, w)"
    have "range_ok t" using t by (simp add: adds_caps_def)
    from adds_caps_trans [OF t build_channel_adds [OF run this]]
    show "adds_caps s w (?A (chs @ [ch]))" by (rule adds_caps_cong) auto
  qed

  then show ?thesis .
qed

text \<open>C11: the channels of a system connect exactly what they say: after they are built, a capability is in
  the capability node of a domain if it was there before or one end of a channel that belongs to the
  domain is entitled to it, at the slot of the identifier of that end, and every capability an end is
  entitled to is there.  No other object changes.\<close>

theorem build_channels_connect:
  assumes "build_channels shadows channels s = Inr (u, s')" and "range_ok s"
  shows "adds_caps s s' (\<lambda>i. \<Union>ch \<in> set channels.
     end_caps shadows (end_a ch) (end_b ch) i \<union> end_caps shadows (end_b ch) (end_a ch) i)"
  using assms by (rule build_channels_adds)

text \<open>Two domains and a channel from the first to the second, for the witness.\<close>

definition example_shadow :: "nat \<Rightarrow> pd_shadow" where
  "example_shadow n = \<lparr>sh_cspace = n, sh_microkit_cnode = n, sh_notification = 2, sh_endpoint = Some 3,
     sh_sched_context = n, sh_tcb = n, sh_vspace = n\<rparr>"

definition example_channel :: channel where
  "example_channel = \<lparr>end_a = \<lparr>ce_pd = 0, ce_id = 5, ce_notify = True, ce_pp = True, ce_setvar_id = None\<rparr>,
     end_b = \<lparr>ce_pd = 1, ce_id = 7, ce_notify = False, ce_pp = False, ce_setvar_id = None\<rparr>\<rparr>"

definition example_cnodes :: spec_container where
  "example_cnodes = spec_new\<lparr>sc_objects :=
     [\<lparr>no_name = ''cnode_a'', no_object = ObjCNode 9 []\<rparr>, \<lparr>no_name = ''cnode_b'', no_object = ObjCNode 9 []\<rparr>,
      \<lparr>no_name = ''ntfn_b'', no_object = ObjNotification\<rparr>, \<lparr>no_name = ''ep_b'', no_object = ObjEndpoint\<rparr>],
     sc_root_end := 4\<rparr>"

theorem build_channels_connect_witness:
  "\<exists>s'. build_channels [0 \<mapsto> example_shadow 0, 1 \<mapsto> example_shadow 1] [example_channel] example_cnodes = Inr ((), s')
     \<and> set (slots_of s' 0) = {(15, CapNotification 2 128 rw_rights), (79, CapEndpoint 3 0x8000000000000007 rwg_rights)}
     \<and> set (slots_of s' 1) = {}"
proof -
  obtain s' where r: "build_channels [0 \<mapsto> example_shadow 0, 1 \<mapsto> example_shadow 1] [example_channel] example_cnodes
      = Inr ((), s')"
    by (simp add: build_channels_def build_channel_def connect_notify_def connect_pp_def map_index_def bindB_def
        liftB_def returnB_def example_shadow_def example_channel_def example_cnodes_def spec_new_def
        capdl_util_insert_cap_into_cspace_def update_root_object_def get_root_object_def PD_CAP_SIZE_def
        cap_idx_defs)
  from build_channels_connect [OF this] r show ?thesis
    by (auto simp: adds_caps_def range_ok_def end_caps_def example_shadow_def example_channel_def example_cnodes_def
        spec_new_def slots_of_def the_slots_def less_Suc_eq shl_def push_bit_eq_mult all_conj_distrib)
qed

end
