(* ===== verification/Capdl_Sort.thy ===== *)
theory Capdl_Sort
  imports Capdl_Monitor "HOL-Library.Multiset" "HOL-Library.Char_ord" "HOL-Library.List_Lexorder"
begin

unbundle bit_operations_syntax

text \<open>
  Sorting the objects, step 6 of \<open>build_capdl_spec\<close> in \<open>tool/microkit/src/capdl/builder.rs\<close>: objects with a
  physical address first, then large before small, and every capability renamed to the new index of the
  object it names.

  The library's sort is stable, so its outcome is determined by the order; the comparison panics on two
  objects of the same rank, and any sort has to compare two such objects if there are any, since only
  their comparison tells which comes first.  The sort is therefore given as an insertion sort.
\<close>

section \<open>Definitions\<close>

datatype ordering = OrdLess | OrdEqual | OrdGreater

definition cmp :: "'a::linorder \<Rightarrow> 'a \<Rightarrow> ordering" where
  "cmp x y = (if x < y then OrdLess else if x = y then OrdEqual else OrdGreater)"

fun reverse_ordering :: "ordering \<Rightarrow> ordering" where
  "reverse_ordering OrdLess = OrdGreater"
| "reverse_ordering OrdEqual = OrdEqual"
| "reverse_ordering OrdGreater = OrdLess"

definition compare_objects :: "config \<Rightarrow> named_object \<Rightarrow> named_object \<Rightarrow> (capdl_error, ordering) res" where
  "compare_objects cfg a b =
     (let pa = obj_paddr (no_object a); pb = obj_paddr (no_object b)
      in if pa = None \<and> pb \<noteq> None then Inr OrdGreater
         else if pa \<noteq> None \<and> pb = None then Inr OrdLess
         else
           let phys_addr_order = (case (pa, pb) of (Some x, Some y) \<Rightarrow> cmp x y | _ \<Rightarrow> OrdEqual)
           in if phys_addr_order \<noteq> OrdEqual then Inr phys_addr_order
              else bindr (capdl_obj_physical_size_bits (no_object a) cfg) (\<lambda>a_size_bit.
                   bindr (capdl_obj_physical_size_bits (no_object b) cfg) (\<lambda>b_size_bit.
                   let size_cmp = reverse_ordering (cmp a_size_bit b_size_bit)
                   in if size_cmp = OrdEqual
                      then (let name_cmp = cmp (no_name a) (no_name b)
                            in if name_cmp = OrdEqual then Inl (Panic UnreachableReached) else Inr name_cmp)
                      else Inr size_cmp)))"

fun insert_by :: "('a \<Rightarrow> 'a \<Rightarrow> ('e, ordering) res) \<Rightarrow> 'a \<Rightarrow> 'a list \<Rightarrow> ('e, 'a list) res" where
  "insert_by c x [] = Inr [x]"
| "insert_by c x (y # ys) = bindr (c x y) (\<lambda>ord.
     if ord = OrdGreater then bindr (insert_by c x ys) (\<lambda>zs. Inr (y # zs)) else Inr (x # y # ys))"

fun sort_by :: "('a \<Rightarrow> 'a \<Rightarrow> ('e, ordering) res) \<Rightarrow> 'a list \<Rightarrow> ('e, 'a list) res" where
  "sort_by c [] = Inr []"
| "sort_by c (x # xs) = bindr (sort_by c xs) (insert_by c x)"

text \<open>Step 6-1 and 6-3: the indices of the objects by name, and the new index of each old one.\<close>

definition obj_name_to_old_id :: "named_object list \<Rightarrow> string \<Rightarrow> nat option" where
  "obj_name_to_old_id obs = foldl (\<lambda>m (i, ob). m(no_name ob \<mapsto> i)) Map.empty (enumerate 0 obs)"

definition obj_old_id_to_new_id ::
    "(string \<Rightarrow> nat option) \<Rightarrow> named_object list \<Rightarrow> (capdl_error, nat \<Rightarrow> nat option) res" where
  "obj_old_id_to_new_id old_ids sorted_obs =
     foldM (\<lambda>m (new_id, ob). bindr (map_index old_ids (no_name ob)) (\<lambda>old_id. Inr (m(old_id \<mapsto> new_id))))
       Map.empty (enumerate 0 sorted_obs)"

text \<open>Step 6-4.\<close>

definition rename_cte :: "(nat \<Rightarrow> nat option) \<Rightarrow> cte \<Rightarrow> (capdl_error, cte) res" where
  "rename_cte new_ids = (\<lambda>(slot, c). bindr (map_index new_ids (cap_obj c)) (\<lambda>new_id. Inr (slot, cap_set_obj new_id c)))"

definition rename_object :: "(nat \<Rightarrow> nat option) \<Rightarrow> named_object \<Rightarrow> (capdl_error, named_object) res" where
  "rename_object new_ids ob =
     (if has_slots (no_object ob)
      then bindr (mapM (rename_cte new_ids) (obj_slots (no_object ob))) (\<lambda>slots.
             Inr (ob\<lparr>no_object := set_slots slots (no_object ob)\<rparr>))
      else Inr ob)"

definition sort_cnode :: "named_object \<Rightarrow> named_object" where
  "sort_cnode ob = (case no_object ob of
      ObjCNode bits slots \<Rightarrow> ob\<lparr>no_object := ObjCNode bits (sort_key (\<lambda>cte. unat (fst cte)) slots)\<rparr>
    | _ \<Rightarrow> ob)"

definition sort_root_objects :: "config \<Rightarrow> unit bld" where
  "sort_root_objects cfg = (\<lambda>s.
     let old_ids = obj_name_to_old_id (sc_objects s)
     in bindr (sort_by (compare_objects cfg) (sc_objects s)) (\<lambda>sorted_obs.
        bindr (obj_old_id_to_new_id old_ids sorted_obs) (\<lambda>new_ids.
        bindr (mapM (rename_object new_ids) sorted_obs) (\<lambda>renamed.
        bindr (mapM (\<lambda>(irq, handler). bindr (map_index new_ids handler) (\<lambda>h. Inr (irq, h))) (sc_irqs s)) (\<lambda>irqs.
          Inr ((), s\<lparr>sc_objects := map sort_cnode renamed,
                     sc_irqs := sort_key (\<lambda>(irq, _). unat irq) irqs\<rparr>))))))"

section \<open>The sort\<close>

lemma insert_by_mset: "insert_by c x ys = Inr zs \<Longrightarrow> mset zs = add_mset x (mset ys)"
  by (induction ys arbitrary: zs) (auto simp: bindr_eq_Inr split: if_splits)

lemma sort_by_mset: "sort_by c xs = Inr ys \<Longrightarrow> mset ys = mset xs"
  by (induction xs arbitrary: ys) (auto simp: bindr_eq_Inr dest: insert_by_mset)

text \<open>A comparison that is the strict order \<open>R\<close> on a set.\<close>

definition compares :: "('a \<Rightarrow> 'a \<Rightarrow> ('e, ordering) res) \<Rightarrow> ('a \<Rightarrow> 'a \<Rightarrow> bool) \<Rightarrow> 'a set \<Rightarrow> bool" where
  "compares c R A \<longleftrightarrow> (\<forall>x \<in> A. \<forall>y \<in> A. x \<noteq> y \<longrightarrow>
      (R x y \<and> c x y = Inr OrdLess) \<or> (R y x \<and> c x y = Inr OrdGreater))"

lemma insert_by_sorted:
  assumes "compares c R A" "transp_on A R" "insert x (set ys) \<subseteq> A" "x \<notin> set ys" "sorted_wrt R ys"
  shows "\<exists>zs. insert_by c x ys = Inr zs \<and> sorted_wrt R zs"
  using assms(3-5)
proof (induction ys)
  case Nil
  then show ?case by simp
next
  case (Cons y ys)
  from Cons.prems have xy: "x \<in> A" "y \<in> A" "x \<noteq> y" by auto
  from assms(1) xy consider "R x y" "c x y = Inr OrdLess" | "R y x" "c x y = Inr OrdGreater"
    unfolding compares_def by blast
  then show ?case
  proof cases
    case 1
    have "R x z" if "z \<in> set ys" for z
      using transp_onD [OF assms(2) xy(1,2) _ 1(1)] that Cons.prems by auto
    with 1 Cons.prems(3) show ?thesis by simp
  next
    case 2
    from Cons.IH Cons.prems obtain zs where zs: "insert_by c x ys = Inr zs" "sorted_wrt R zs" by auto
    from insert_by_mset [OF zs(1)] have "set zs = insert x (set ys)"
      by (metis set_mset_add_mset_insert set_mset_mset)
    with 2 zs Cons.prems(3) show ?thesis by auto
  qed
qed

lemma sort_by_sorted:
  assumes "compares c R A" "transp_on A R" "set xs \<subseteq> A" "distinct xs"
  shows "\<exists>ys. sort_by c xs = Inr ys \<and> sorted_wrt R ys \<and> mset ys = mset xs"
  using assms(3,4)
proof (induction xs)
  case Nil
  then show ?case by simp
next
  case (Cons x xs)
  then obtain ys where ys: "sort_by c xs = Inr ys" "sorted_wrt R ys" "mset ys = mset xs" by auto
  then have "set ys = set xs" by (metis set_mset_mset)
  with insert_by_sorted [OF assms(1,2) _ _ ys(2), of x] Cons.prems obtain zs where
    "insert_by c x ys = Inr zs" "sorted_wrt R zs" by auto
  with ys insert_by_mset show ?case by fastforce
qed

section \<open>The order of the objects\<close>

definition obj_before :: "config \<Rightarrow> named_object \<Rightarrow> named_object \<Rightarrow> bool" where
  "obj_before cfg a b \<longleftrightarrow> compare_objects cfg a b = Inr OrdLess"

lemma cmp_simps [simp]:
  "cmp x y = OrdLess \<longleftrightarrow> x < y" "cmp x y = OrdGreater \<longleftrightarrow> y < x" "cmp x y = OrdEqual \<longleftrightarrow> x = y"
  by (auto simp: cmp_def)

lemma reverse_simps [simp]:
  "reverse_ordering r = OrdLess \<longleftrightarrow> r = OrdGreater" "reverse_ordering r = OrdGreater \<longleftrightarrow> r = OrdLess"
  "reverse_ordering r = OrdEqual \<longleftrightarrow> r = OrdEqual"
  by (cases r; simp)+

text \<open>What the order says: by physical address, where objects without one come last, then by size, the
  largest first, then by name.\<close>

definition sized :: "config \<Rightarrow> named_object \<Rightarrow> bool" where
  "sized cfg ob \<longleftrightarrow> is_ok (capdl_obj_physical_size_bits (no_object ob) cfg :: (capdl_error, u64) res)"

definition size_bits_of :: "config \<Rightarrow> named_object \<Rightarrow> u64" where
  "size_bits_of cfg ob = (case capdl_obj_physical_size_bits (no_object ob) cfg :: (capdl_error, u64) res of
      Inr z \<Rightarrow> z | Inl _ \<Rightarrow> 0)"

lemma sized_run: "sized cfg ob \<Longrightarrow>
   capdl_obj_physical_size_bits (no_object ob) cfg = (Inr (size_bits_of cfg ob) :: (capdl_error, u64) res)"
  by (auto simp: sized_def size_bits_of_def is_ok_iff)

definition paddr_key :: "named_object \<Rightarrow> nat" where
  "paddr_key ob = (case obj_paddr (no_object ob) of Some p \<Rightarrow> unat p | None \<Rightarrow> 2 ^ 64)"

lemma obj_before_iff:
  assumes "sized cfg a" "sized cfg b"
  shows "obj_before cfg a b \<longleftrightarrow> paddr_key a < paddr_key b
     \<or> paddr_key a = paddr_key b \<and> (size_bits_of cfg b < size_bits_of cfg a
         \<or> size_bits_of cfg a = size_bits_of cfg b \<and> no_name a < no_name b)"
  using assms u64_lt [of "the (obj_paddr (no_object a))"] u64_lt [of "the (obj_paddr (no_object b))"]
  by (cases "obj_paddr (no_object a)"; cases "obj_paddr (no_object b)")
    (auto simp: obj_before_def compare_objects_def sized_run Let_def paddr_key_def word_less_nat_alt u64_eq_iff)

lemma obj_before_trans: "transp_on {ob. sized cfg ob} (obj_before cfg)"
  by (rule transp_onI) (auto simp: obj_before_iff)

lemma compare_objects_sized:
  assumes "sized cfg a" "sized cfg b" "no_name a \<noteq> no_name b"
  shows "(obj_before cfg a b \<and> compare_objects cfg a b = Inr OrdLess)
     \<or> (obj_before cfg b a \<and> compare_objects cfg a b = Inr OrdGreater)"
  using assms u64_lt [of "the (obj_paddr (no_object a))"] u64_lt [of "the (obj_paddr (no_object b))"]
  by (cases "obj_paddr (no_object a)"; cases "obj_paddr (no_object b)")
    (auto simp: obj_before_def compare_objects_def sized_run Let_def)

lemma sort_objects:
  assumes "\<And>ob. ob \<in> set obs \<Longrightarrow> sized cfg ob" and "distinct (map no_name obs)"
  shows "\<exists>ys. sort_by (compare_objects cfg) obs = Inr ys \<and> sorted_wrt (obj_before cfg) ys \<and> mset ys = mset obs"
proof (rule sort_by_sorted [where A = "set obs"])
  show "compares (compare_objects cfg) (obj_before cfg) (set obs)"
    unfolding compares_def
    using compare_objects_sized assms by (metis distinct_map inj_on_eq_iff)
  show "transp_on (set obs) (obj_before cfg)"
    by (rule transp_on_subset [OF obj_before_trans]) (use assms(1) in auto)
qed (use assms(2) in \<open>auto simp: distinct_map\<close>)

section \<open>The renaming\<close>

lemma enumerate_snoc: "enumerate n (xs @ [x]) = enumerate n xs @ [(n + length xs, x)]"
  by (induction xs arbitrary: n) simp_all

lemma old_id_of_name:
  assumes "distinct (map no_name obs)" "i < length obs"
  shows "obj_name_to_old_id obs (no_name (obs ! i)) = Some i"
  using assms
proof (induction obs rule: rev_induct)
  case Nil
  then show ?case by simp
next
  case (snoc ob obs)
  show ?case
  proof (cases "i < length obs")
    case True
    then have "no_name (obs ! i) \<in> no_name ` set obs" by simp
    then have "no_name (obs ! i) \<noteq> no_name ob" using snoc.prems(1) by (auto simp del: image_eqI)
    with True snoc.IH snoc.prems show ?thesis
      by (simp add: obj_name_to_old_id_def enumerate_snoc nth_append)
  next
    case False
    with snoc.prems have "i = length obs" by simp
    then show ?thesis by (simp add: obj_name_to_old_id_def enumerate_snoc)
  qed
qed

lemma obj_old_id_to_new_id_run:
  assumes "\<And>ob. ob \<in> set ys \<Longrightarrow> names (no_name ob) = Some (f ob)" "inj_on f (set ys)" "distinct ys"
  shows "\<exists>m. obj_old_id_to_new_id names ys = Inr m
     \<and> (\<forall>j < length ys. m (f (ys ! j)) = Some j) \<and> dom m = f ` set ys"
  using assms
proof (induction ys rule: rev_induct)
  case Nil
  then show ?case by (simp add: obj_old_id_to_new_id_def)
next
  case (snoc y ys)
  then obtain m where m: "obj_old_id_to_new_id names ys = Inr m"
    "\<forall>j < length ys. m (f (ys ! j)) = Some j" "dom m = f ` set ys"
    by (auto simp: inj_on_Un)
  have "f (ys ! j) \<noteq> f y" if "j < length ys" for j
    using snoc.prems(2,3) that by (auto simp: inj_on_def dest: nth_mem)
  with m snoc.prems(1) [of y] show ?case
    by (auto simp: map_index_def obj_old_id_to_new_id_def enumerate_snoc foldM_append nth_append less_Suc_eq)
qed

text \<open>An object seen under a renaming of the objects it refers to, up to the order of its slots.\<close>

definition renamed_object :: "(nat \<Rightarrow> nat) \<Rightarrow> named_object \<Rightarrow> named_object \<Rightarrow> bool" where
  "renamed_object p ob ob' \<longleftrightarrow> no_name ob' = no_name ob
     \<and> set_slots [] (no_object ob') = set_slots [] (no_object ob)
     \<and> mset (the_slots (no_object ob'))
         = image_mset (\<lambda>(slot, c). (slot, cap_set_obj (p (cap_obj c)) c)) (mset (the_slots (no_object ob)))"

lemma mapM_total: "(\<And>x. x \<in> set xs \<Longrightarrow> f x = Inr (g x)) \<Longrightarrow> mapM f xs = Inr (map g xs)"
  by (induction xs) auto

lemma sort_cnode_simps [simp]:
  "no_name (sort_cnode ob) = no_name ob"
  "set_slots [] (no_object (sort_cnode ob)) = set_slots [] (no_object ob)"
  "mset (the_slots (no_object (sort_cnode ob))) = mset (the_slots (no_object ob))"
  "has_slots (no_object (sort_cnode ob)) = has_slots (no_object ob)"
  by (auto simp: sort_cnode_def the_slots_def split: capdl_object.split)

lemma rename_object_run:
  assumes "caps_below n (no_object ob)" "\<And>i. i < n \<Longrightarrow> m i = Some (p i)"
  shows "\<exists>ob'. rename_object m ob = Inr ob' \<and> renamed_object p ob (sort_cnode ob')"
proof (cases "has_slots (no_object ob)")
  case False
  then show ?thesis
    by (cases "no_object ob") (auto simp: rename_object_def renamed_object_def the_slots_def)
next
  case True
  then have sl: "the_slots (no_object ob) = obj_slots (no_object ob)" by (simp add: the_slots_def)
  have "mapM (rename_cte m) (obj_slots (no_object ob))
      = Inr (map (\<lambda>(slot, c). (slot, cap_set_obj (p (cap_obj c)) c)) (obj_slots (no_object ob)))"
    by (rule mapM_total)
      (use assms sl in \<open>force simp: caps_below_def rename_cte_def map_index_def split: option.split\<close>)
  with True show ?thesis by (auto simp: rename_object_def renamed_object_def sl)
qed

lemma size_set_slots:
  "capdl_obj_physical_size_bits (set_slots sl ob) cfg = capdl_obj_physical_size_bits ob cfg"
  by (cases ob) (simp_all add: capdl_obj_physical_size_bits_def)

lemma renamed_object_order:
  assumes "renamed_object p a a'" "renamed_object p b b'"
  shows "obj_before cfg a' b' = obj_before cfg a b"
proof -
  have same: "obj_paddr (no_object ob') = obj_paddr (no_object ob)
      \<and> (capdl_obj_physical_size_bits (no_object ob') cfg :: (capdl_error, u64) res)
          = capdl_obj_physical_size_bits (no_object ob) cfg"
    if "renamed_object p ob ob'" for ob ob'
    using that size_set_slots obj_paddr_set unfolding renamed_object_def by metis
  from assms have names: "no_name a' = no_name a" "no_name b' = no_name b"
    by (simp_all add: renamed_object_def)
  note eqs = same [OF assms(1), THEN conjunct1] same [OF assms(1), THEN conjunct2]
    same [OF assms(2), THEN conjunct1] same [OF assms(2), THEN conjunct2]
  show ?thesis
    unfolding obj_before_def compare_objects_def names eqs ..
qed

lemma index_perm:
  assumes "mset ys = mset xs" "distinct xs"
  obtains p where "bij_betw p {..<length xs} {..<length xs}" "\<And>i. i < length xs \<Longrightarrow> ys ! p i = xs ! i"
proof -
  have len: "length ys = length xs" and sets: "set ys = set xs"
    using assms(1) by (metis size_mset, metis set_mset_mset)
  have "\<exists>j < length xs. ys ! j = xs ! i" if "i < length xs" for i
    using that sets len nth_mem [of i xs] by (auto simp: in_set_conv_nth)
  then obtain p where p: "\<And>i. i < length xs \<Longrightarrow> p i < length xs \<and> ys ! p i = xs ! i" by metis
  have "inj_on p {..<length xs}"
  proof (rule inj_onI)
    fix i j
    assume ij: "i \<in> {..<length xs}" "j \<in> {..<length xs}" "p i = p j"
    then have "xs ! i = xs ! j" using p [of i] p [of j] by simp
    with ij assms(2) show "i = j" by (simp add: nth_eq_iff_index_eq)
  qed
  moreover have "p ` {..<length xs} \<subseteq> {..<length xs}" using p by auto
  ultimately have "bij_betw p {..<length xs} {..<length xs}"
    by (auto simp: bij_betw_def endo_inj_surj)
  with p show thesis by (intro that) auto
qed

definition cnode_slots_sorted :: "named_object \<Rightarrow> bool" where
  "cnode_slots_sorted ob = (case no_object ob of
      ObjCNode _ slots \<Rightarrow> sorted (map (\<lambda>cte. unat (fst cte)) slots) | _ \<Rightarrow> True)"

lemma sort_cnode_sorted: "cnode_slots_sorted (sort_cnode ob)"
  by (simp add: cnode_slots_sorted_def sort_cnode_def split: capdl_object.split)

lemma renamed_caps_below:
  assumes "renamed_object p ob ob'" "caps_below n (no_object ob)" "\<And>i. i < n \<Longrightarrow> p i < n"
  shows "caps_below n (no_object ob')"
proof -
  have "set (the_slots (no_object ob')) = (\<lambda>(slot, c). (slot, cap_set_obj (p (cap_obj c)) c)) ` set (the_slots (no_object ob))"
  proof -
    have "set_mset (mset (the_slots (no_object ob')))
        = set_mset (image_mset (\<lambda>(slot, c). (slot, cap_set_obj (p (cap_obj c)) c)) (mset (the_slots (no_object ob))))"
      using assms(1) by (simp only: renamed_object_def)
    then show ?thesis by simp
  qed
  with assms(2,3) show ?thesis by (fastforce simp: caps_below_def)
qed

lemma sort_root_objects_run:
  assumes "spec_wf s" and "distinct (map no_name (sc_objects s))"
    and "\<forall>ob \<in> set (sc_objects s). sized cfg ob"
  obtains ys p g where "bij_betw p {..<length (sc_objects s)} {..<length (sc_objects s)}"
    "\<And>i. i < length (sc_objects s) \<Longrightarrow> ys ! p i = sc_objects s ! i"
    "mset ys = mset (sc_objects s)" "sorted_wrt (obj_before cfg) ys"
    "\<And>ob. ob \<in> set ys \<Longrightarrow> renamed_object p ob (sort_cnode (g ob))"
    "sort_root_objects cfg s = Inr ((), s\<lparr>sc_objects := map sort_cnode (map g ys),
       sc_irqs := sort_key (\<lambda>(irq, _). unat irq) (map (\<lambda>(irq, handler). (irq, p handler)) (sc_irqs s))\<rparr>)"
proof -
  let ?obs = "sc_objects s" and ?n = "length (sc_objects s)"
  obtain ys where ys: "sort_by (compare_objects cfg) ?obs = Inr ys" "sorted_wrt (obj_before cfg) ys"
    "mset ys = mset ?obs"
    using sort_objects [of ?obs cfg] assms(2,3) by auto
  have dist: "distinct ?obs" using assms(2) by (simp add: distinct_map)
  obtain p where p: "bij_betw p {..<?n} {..<?n}" "\<And>i. i < ?n \<Longrightarrow> ys ! p i = ?obs ! i"
    by (rule index_perm [OF ys(3) dist]) (rule that)
  have plt: "p i < ?n" if "i < ?n" for i using bij_betwE [OF p(1)] that by auto
  have len: "length ys = ?n" using ys(3) by (metis size_mset)
  have dys: "distinct ys" using dist ys(3) by (metis mset_eq_imp_distinct_iff)
  define f where "f ob = (THE i. i < ?n \<and> ?obs ! i = ob)" for ob
  have f: "f (?obs ! i) = i" if "i < ?n" for i
    unfolding f_def using that dist by (intro the_equality) (auto simp: nth_eq_iff_index_eq)
  have sets: "set ys = set ?obs" using ys(3) by (metis set_mset_mset)
  have "\<exists>m. obj_old_id_to_new_id (obj_name_to_old_id ?obs) ys = Inr m
     \<and> (\<forall>j < length ys. m (f (ys ! j)) = Some j) \<and> dom m = f ` set ys"
  proof (rule obj_old_id_to_new_id_run)
    show "obj_name_to_old_id ?obs (no_name ob) = Some (f ob)" if "ob \<in> set ys" for ob
      using that sets old_id_of_name [OF assms(2)] f by (auto simp: in_set_conv_nth)
    show "inj_on f (set ys)"
      unfolding sets by (rule inj_onI) (use f in \<open>force simp: in_set_conv_nth\<close>)
  qed (rule dys)
  then obtain m where m: "obj_old_id_to_new_id (obj_name_to_old_id ?obs) ys = Inr m"
    "\<And>j. j < ?n \<Longrightarrow> m (f (ys ! j)) = Some j" using len by auto
  have mp: "m i = Some (p i)" if "i < ?n" for i
    using m(2) [OF plt [OF that]] p(2) [OF that] f [OF that] by simp
  have below: "caps_below ?n (no_object ob)" if "ob \<in> set ys" for ob
    using assms(1) that sets by (simp add: spec_wf_def)
  have "\<forall>ob \<in> set ys. \<exists>ob'. rename_object m ob = Inr ob' \<and> renamed_object p ob (sort_cnode ob')"
    using rename_object_run [OF below] mp by blast
  then obtain g where g: "\<And>ob. ob \<in> set ys \<Longrightarrow> rename_object m ob = Inr (g ob) \<and> renamed_object p ob (sort_cnode (g ob))"
    by metis
  have r1: "mapM (rename_object m) ys = Inr (map g ys)" by (rule mapM_total) (use g in blast)
  let ?irqs = "map (\<lambda>(irq, handler). (irq, p handler)) (sc_irqs s)"
  have r2: "mapM (\<lambda>(irq, handler). bindr (map_index m handler) (\<lambda>h. Inr (irq, h))) (sc_irqs s)
      = (Inr ?irqs :: (capdl_error, (u64 \<times> nat) list) res)"
    by (rule mapM_total) (use assms(1) mp in \<open>auto simp: spec_wf_def map_index_def\<close>)
  have "sort_root_objects cfg s = Inr ((), s\<lparr>sc_objects := map sort_cnode (map g ys),
       sc_irqs := sort_key (\<lambda>(irq, _). unat irq) ?irqs\<rparr>)"
    by (simp add: sort_root_objects_def Let_def ys(1) m(1) r1 r2)
  with p ys(2,3) g show thesis by (intro that [of p ys g]) auto
qed

text \<open>C12: if the names of the objects are distinct and their sizes are known, sorting succeeds and is a
  renaming: there is a permutation of the indices such that each object is found at its new index with
  the same contents, each of its capabilities naming the new index of the object it named, and the
  interrupt table likewise.  The objects are then ordered by physical address, size and name, the slots
  of capability nodes and the interrupts by number, and every capability still names an object.\<close>

theorem sort_root_objects_spec:
  assumes "spec_wf s" and "distinct (map no_name (sc_objects s))"
    and "\<forall>ob \<in> set (sc_objects s). sized cfg ob"
  shows "\<exists>s' p. sort_root_objects cfg s = Inr ((), s')
     \<and> bij_betw p {..<length (sc_objects s)} {..<length (sc_objects s)}
     \<and> length (sc_objects s') = length (sc_objects s)
     \<and> (\<forall>i < length (sc_objects s). renamed_object p (sc_objects s ! i) (sc_objects s' ! p i))
     \<and> mset (sc_irqs s') = image_mset (\<lambda>(irq, handler). (irq, p handler)) (mset (sc_irqs s))
     \<and> sorted_wrt (obj_before cfg) (sc_objects s') \<and> (\<forall>ob \<in> set (sc_objects s'). cnode_slots_sorted ob)
     \<and> sorted (map (\<lambda>(irq, _). unat irq) (sc_irqs s')) \<and> spec_wf s'"
proof -
  let ?obs = "sc_objects s" and ?n = "length (sc_objects s)"
  obtain ys p g where p: "bij_betw p {..<?n} {..<?n}" "\<And>i. i < ?n \<Longrightarrow> ys ! p i = ?obs ! i"
    and ys: "mset ys = mset ?obs" "sorted_wrt (obj_before cfg) ys"
    and g: "\<And>ob. ob \<in> set ys \<Longrightarrow> renamed_object p ob (sort_cnode (g ob))"
    and run: "sort_root_objects cfg s = Inr ((), s\<lparr>sc_objects := map sort_cnode (map g ys),
       sc_irqs := sort_key (\<lambda>(irq, _). unat irq) (map (\<lambda>(irq, handler). (irq, p handler)) (sc_irqs s))\<rparr>)"
    by (rule sort_root_objects_run [OF assms]) (rule that)
  define s' where "s' = s\<lparr>sc_objects := map sort_cnode (map g ys), sc_irqs := sort_key (\<lambda>(irq, _). unat irq) (map (\<lambda>(irq, handler). (irq, p handler)) (sc_irqs s))\<rparr>"
  have plt: "p i < ?n" if "i < ?n" for i using bij_betwE [OF p(1)] that by auto
  have len: "length ys = ?n" using ys(1) by (metis size_mset)
  have sets: "set ys = set ?obs" using ys(1) by (metis set_mset_mset)
  have below: "caps_below ?n (no_object ob)" if "ob \<in> set ys" for ob
    using assms(1) that sets by (simp add: spec_wf_def)
  have ren: "renamed_object p (?obs ! i) (sc_objects s' ! p i)" if "i < ?n" for i
  proof -
    have "?obs ! i \<in> set ys" using sets that by simp
    with g p(2) [OF that] plt [OF that] len show ?thesis by (simp add: s'_def)
  qed
  have "sorted_wrt (\<lambda>x y. obj_before cfg (sort_cnode (g x)) (sort_cnode (g y))) ys"
    by (rule sorted_wrt_mono_rel [OF _ ys(2)]) (use g renamed_object_order in blast)
  then have "sorted_wrt (obj_before cfg) (sc_objects s')" by (simp add: s'_def sorted_wrt_map)
  moreover have "spec_wf s'"
  proof -
    have "caps_below ?n (no_object (sort_cnode (g ob)))" if "ob \<in> set ys" for ob
      using renamed_caps_below [OF g [OF that] below [OF that]] plt by blast
    moreover have "\<forall>(_, h) \<in> set (sc_irqs s'). h < ?n"
      using assms(1) plt by (fastforce simp: s'_def spec_wf_def)
    ultimately show ?thesis
      using assms(1) len by (simp add: spec_wf_def range_ok_def s'_def)
  qed
  ultimately show ?thesis
    using run [folded s'_def] p(1) ren len sort_cnode_sorted
    by (intro exI [of _ s'] exI [of _ p]) (auto simp: s'_def)
qed

text \<open>A reply object and a capability node with a capability for it, in the order they are created.\<close>

definition example_unsorted :: spec_container where
  "example_unsorted = spec_new\<lparr>sc_objects :=
     [\<lparr>no_name = ''reply_a'', no_object = ObjReply\<rparr>,
      \<lparr>no_name = ''cnode_a'', no_object = ObjCNode 9 [(4, CapReply 0)]\<rparr>], sc_root_end := 2\<rparr>"

theorem sort_root_objects_spec_witness:
  "\<exists>s'. sort_root_objects example_riscv_config example_unsorted = Inr ((), s') \<and> spec_wf s'
     \<and> length (sc_objects s') = 2"
proof -
  have "spec_wf example_unsorted"
    by (simp add: example_unsorted_def spec_wf_def range_ok_def spec_new_def caps_below_def the_slots_def)
  moreover have "distinct (map no_name (sc_objects example_unsorted))" by (simp add: example_unsorted_def)
  moreover have "\<forall>ob \<in> set (sc_objects example_unsorted). sized example_riscv_config ob"
    by (simp add: example_unsorted_def sized_def capdl_obj_physical_size_bits_def fixed_size_bits_def
        example_riscv_config_def)
  ultimately show ?thesis
    using sort_root_objects_spec [of example_unsorted example_riscv_config] by (auto simp: example_unsorted_def)
qed

section \<open>Two objects with the same name\<close>

lemma old_id_last:
  "obj_name_to_old_id obs nm = Some l \<Longrightarrow>
     l < length obs \<and> no_name (obs ! l) = nm \<and> (\<forall>j. l < j \<and> j < length obs \<longrightarrow> no_name (obs ! j) \<noteq> nm)"
proof (induction obs rule: rev_induct)
  case Nil
  then show ?case by (simp add: obj_name_to_old_id_def)
next
  case (snoc ob obs)
  show ?case
  proof (cases "no_name ob = nm")
    case True
    with snoc.prems show ?thesis by (auto simp: obj_name_to_old_id_def enumerate_snoc)
  next
    case False
    with snoc.prems have "obj_name_to_old_id obs nm = Some l"
      by (simp add: obj_name_to_old_id_def enumerate_snoc split: if_splits)
    with snoc.IH False show ?thesis by (auto simp: nth_append less_Suc_eq)
  qed
qed

lemma new_ids_dom:
  "obj_old_id_to_new_id names ys = Inr m \<Longrightarrow> m i \<noteq> None \<Longrightarrow> \<exists>nm. names nm = Some i"
proof (induction ys arbitrary: m rule: rev_induct)
  case Nil
  then show ?case by (auto simp: obj_old_id_to_new_id_def)
next
  case (snoc y ys)
  then show ?case
    by (auto simp: obj_old_id_to_new_id_def enumerate_snoc foldM_append bindr_eq_Inr split: if_splits)
qed

lemma mapM_member: "mapM f xs = Inr ys \<Longrightarrow> x \<in> set xs \<Longrightarrow> \<exists>y. f x = Inr y"
  by (induction xs arbitrary: ys) (auto simp: bindr_eq_Inr)

text \<open>Sorting needs the names of the objects to be distinct, which nothing before it ensures: when two
  objects have the same name and some capability names the first of them, the tool does not produce a
  specification.  A domain \<open>a\<close> and a domain \<open>a_root\<close> in one system are enough, since the root node of
  the first and the node of the second are both called \<open>cnode_a_root\<close>.\<close>

theorem sort_root_objects_same_name:
  assumes "i < j" and "j < length (sc_objects s)"
    and "no_name (sc_objects s ! i) = no_name (sc_objects s ! j)"
    and "ob \<in> set (sc_objects s)" and "(slot, c) \<in> set (the_slots (no_object ob))" and "cap_obj c = i"
  shows "\<not> is_ok (sort_root_objects cfg s)"
proof
  assume "is_ok (sort_root_objects cfg s)"
  then obtain ys m renamed where r: "sort_by (compare_objects cfg) (sc_objects s) = Inr ys"
    "obj_old_id_to_new_id (obj_name_to_old_id (sc_objects s)) ys = Inr m" "mapM (rename_object m) ys = Inr renamed"
    by (auto simp: is_ok_iff sort_root_objects_def Let_def bindr_eq_Inr)
  have "obj_name_to_old_id (sc_objects s) nm \<noteq> Some i" for nm
    using old_id_last [of "sc_objects s" nm i] assms(1-3) by auto
  with new_ids_dom [OF r(2)] have none: "m i = None" by blast
  from sort_by_mset [OF r(1)] assms(4) have "ob \<in> set ys" by (metis set_mset_mset)
  from mapM_member [OF r(3) this] assms(5) obtain slots where
    "mapM (rename_cte m) (the_slots (no_object ob)) = Inr slots"
    by (auto simp: rename_object_def the_slots_def bindr_eq_Inr split: if_splits)
  from mapM_member [OF this assms(5)] none assms(6) show False
    by (auto simp: rename_cte_def bindr_eq_Inr)
qed

definition example_same_name :: spec_container where
  "example_same_name = spec_new\<lparr>sc_objects :=
     [\<lparr>no_name = ''cnode_a_root'', no_object = ObjCNode 6 []\<rparr>,
      \<lparr>no_name = ''tcb_a'', no_object = ObjTcb [(0, CapCNode 0 0 0)] \<lparr>te_ipc_buffer_addr = 0, te_affinity = 0,
         te_prio = 0, te_max_prio = 0, te_resume = True, te_fpu_disabled = False, te_ip = 0, te_sp = 0\<rparr>\<rparr>,
      \<lparr>no_name = ''cnode_a_root'', no_object = ObjCNode 9 []\<rparr>], sc_root_end := 3\<rparr>"

theorem sort_root_objects_same_name_witness:
  "\<not> is_ok (sort_root_objects example_riscv_config example_same_name)"
  by (rule sort_root_objects_same_name [of 0 2 _ "sc_objects example_same_name ! 1" 0 "CapCNode 0 0 0"])
    (simp_all add: example_same_name_def the_slots_def)

end
