(* ===== verification/Capdl_Build.thy ===== *)
theory Capdl_Build
  imports Capdl_Wiring Capdl_Sort
begin

unbundle bit_operations_syntax

text \<open>
  \<open>build_capdl_spec\<close> of \<open>tool/microkit/src/capdl/builder.rs\<close>: the specification of a whole system from
  the configuration of the kernel, the ELF files (those of the domains in order, then the monitor's)
  and the system description.
\<close>

section \<open>Definitions\<close>

definition build_pds ::
    "config \<Rightarrow> pd_env \<Rightarrow> elf_file list \<Rightarrow> protection_domain list \<Rightarrow> pd_shadows bld" where
  "build_pds cfg env elfs pds =
     bindB (foldB (build_pd cfg env elfs)
              \<lparr>pb_shadows = Map.empty, pb_vcpu_idx = 0, pb_stack_bottoms = []\<rparr> (enumerate 0 pds)) (\<lambda>pb.
       returnB (pb_shadows pb))"

text \<open>Steps 1 to 5.\<close>

definition build_objects :: "config \<Rightarrow> elf_file list \<Rightarrow> system_description \<Rightarrow> unit bld" where
  "build_objects cfg elfs sys =
     (let pds = sd_protection_domains sys; mon_elf_id = length elfs - 1
      in bindB (liftB (assertr (length elfs = length pds + 1))) (\<lambda>_.
         bindB (liftB (nthr elfs mon_elf_id)) (\<lambda>monitor_elf.
         bindB (build_monitor cfg mon_elf_id monitor_elf) (\<lambda>(mon_fault_ep, mon_cnode).
         bindB (build_memory_regions cfg (sd_memory_regions sys)) (\<lambda>mrs.
         bindB (create_arm_smc cfg pds) (\<lambda>arm_smc_obj.
         bindB (build_pds cfg \<lparr>pe_mrs = mrs, pe_fault_ep = mon_fault_ep, pe_mon_cnode = mon_cnode,
                  pe_arm_smc = arm_smc_obj, pe_channels = sd_channels sys\<rparr> elfs pds) (\<lambda>shadows.
         bindB (build_channels shadows (sd_channels sys)) (\<lambda>_.
           build_cap_maps cfg shadows pds))))))))"

definition build_capdl_spec ::
    "config \<Rightarrow> elf_file list \<Rightarrow> system_description \<Rightarrow> (capdl_error, spec_container) res" where
  "build_capdl_spec cfg elfs sys =
     bindr (bindB (build_objects cfg elfs sys) (\<lambda>_. sort_root_objects cfg) spec_new) (\<lambda>(_, s). Inr s)"

section \<open>The invariant\<close>

lemma builds_pds [built]:
  assumes "env_ids env \<subseteq> S"
  shows "builds n S (build_pds cfg env elfs pds) shadows_ids (\<lambda>_. True)"
proof -
  have loop: "builds n T (foldB (build_pd cfg env elfs)
              \<lparr>pb_shadows = Map.empty, pb_vcpu_idx = 0, pb_stack_bottoms = []\<rparr> xs)
              (\<lambda>pb. shadows_ids (pb_shadows pb)) (\<lambda>_. True)" if "env_ids env \<subseteq> T" for T xs
    by (intro builds_fold builds_pd that) (simp_all add: shadows_ids_def)
  show ?thesis
    unfolding build_pds_def by (intro loop [THEN builds_bind] built_end) (use assms in auto)
qed

lemma builds_objects [built]: "builds n S (build_objects cfg elfs sys) (\<lambda>_. {}) (\<lambda>_. True)"
  unfolding build_objects_def Let_def
  by (intro built [THEN builds_bind] built built_end) (auto simp: env_ids_def)

lemma new_ids_ran:
  "obj_old_id_to_new_id names ys = Inr m \<Longrightarrow> m i = Some j \<Longrightarrow> j < length ys"
proof (induction ys arbitrary: m rule: rev_induct)
  case Nil
  then show ?case by (auto simp: obj_old_id_to_new_id_def)
next
  case (snoc y ys)
  then obtain m' l where m': "obj_old_id_to_new_id names ys = Inr m'" "m = m'(l \<mapsto> length ys)"
    by (auto simp: obj_old_id_to_new_id_def enumerate_snoc foldM_append bindr_eq_Inr)
  with snoc show ?case by (fastforce split: if_splits)
qed

lemma mapM_output: "mapM f xs = Inr ys \<Longrightarrow> y \<in> set ys \<Longrightarrow> \<exists>x \<in> set xs. f x = Inr y"
  by (induction xs arbitrary: ys) (auto simp: bindr_eq_Inr)

lemma rename_object_below:
  assumes "rename_object m ob = Inr ob'" "\<And>i j. m i = Some j \<Longrightarrow> j < n"
  shows "caps_below n (no_object (sort_cnode ob'))"
proof -
  have "\<forall>(_, c) \<in> set (the_slots (no_object ob')). cap_obj c < n"
  proof (cases "has_slots (no_object ob)")
    case True
    with assms(1) obtain slots where sl: "mapM (rename_cte m) (obj_slots (no_object ob)) = Inr slots"
      "the_slots (no_object ob') = slots"
      by (auto simp: rename_object_def bindr_eq_Inr)
    have "cap_obj c < n" if "(k, c) \<in> set slots" for k c
      using sl(1) that assms(2)
      by (auto simp: mapM_eq_Inr list_all2_conv_all_nth in_set_conv_nth rename_cte_def bindr_eq_Inr split_def)
        (metis (no_types, lifting) cap_obj_set snd_conv)
    with sl(2) show ?thesis by auto
  next
    case False
    with assms(1) show ?thesis by (auto simp: rename_object_def the_slots_def)
  qed
  moreover have "set (the_slots (no_object (sort_cnode ob'))) = set (the_slots (no_object ob'))"
    using sort_cnode_simps(3) [of ob'] by (metis set_mset_mset)
  ultimately show ?thesis by (simp add: caps_below_def)
qed

lemma rename_objects_names: "mapM (rename_object m) obs = Inr renamed \<Longrightarrow> map no_name renamed = map no_name obs"
  by (induction obs arbitrary: renamed) (auto simp: bindr_eq_Inr rename_object_def split: if_splits)

lemma sort_root_objects_wf:
  assumes "sort_root_objects cfg s = Inr (u, s')" "spec_wf s"
  shows "spec_wf s' \<and> mset (map no_name (sc_objects s')) = mset (map no_name (sc_objects s))"
proof -
  from assms(1) obtain ys m renamed irqs where r: "sort_by (compare_objects cfg) (sc_objects s) = Inr ys"
    "obj_old_id_to_new_id (obj_name_to_old_id (sc_objects s)) ys = Inr m" "mapM (rename_object m) ys = Inr renamed"
    "mapM (\<lambda>(irq, handler). bindr (map_index m handler) (\<lambda>h. Inr (irq, h))) (sc_irqs s) = (Inr irqs :: (capdl_error, _) res)"
    "s' = s\<lparr>sc_objects := map sort_cnode renamed, sc_irqs := sort_key (\<lambda>(irq, _). unat irq) irqs\<rparr>"
    by (auto simp: sort_root_objects_def Let_def bindr_eq_Inr)
  let ?n = "length (sc_objects s)"
  have len: "length ys = ?n" "length renamed = ?n"
    using sort_by_mset [OF r(1)] mapM_length [OF r(3)] by (metis size_mset)+
  have lt: "j < ?n" if "m i = Some j" for i j using new_ids_ran [OF r(2) that] len by simp
  have "caps_below ?n (no_object (sort_cnode x))" if x: "x \<in> set renamed" for x
  proof -
    from mapM_output [OF r(3) x] obtain ob where "rename_object m ob = Inr x" by blast
    then show ?thesis by (rule rename_object_below) (rule lt)
  qed
  then have "caps_below ?n (no_object ob)" if "ob \<in> set (sc_objects s')" for ob
    using that r(5) by auto
  moreover have "\<forall>(_, h) \<in> set (sc_irqs s'). h < ?n"
    using r(4,5) lt
    by (fastforce simp: mapM_eq_Inr list_all2_conv_all_nth in_set_conv_nth bindr_eq_Inr split_def)
  moreover have "map no_name renamed = map no_name ys"
    using r(3) by (rule rename_objects_names)
  ultimately show ?thesis
    using assms(2) len sort_by_mset [OF r(1)] r(5)
    by (auto simp: spec_wf_def range_ok_def comp_def)
qed

text \<open>C7: a specification the tool builds is closed: every capability in it, in a capability node, a
  thread, a page table or an interrupt, names an object of the specification, and so does every entry
  of the interrupt table.\<close>

theorem build_capdl_spec_wf:
  assumes "build_capdl_spec cfg elfs sys = Inr s"
  shows "spec_wf s"
proof -
  from assms obtain t u where r: "build_objects cfg elfs sys spec_new = Inr ((), t)"
    "sort_root_objects cfg t = Inr (u, s)"
    by (auto simp: build_capdl_spec_def bindr_eq_Inr bld_simps)
  have "spec_wf t" using buildsD_extends [OF builds_objects r(1) spec_new_wf, of "{}"] by simp
  with sort_root_objects_wf [OF r(2)] show ?thesis by simp
qed

end
