(* ===== verification/Packaging.thy ===== *)
theory Packaging
  imports Initialiser Capdl_Build
begin

unbundle bit_operations_syntax

text \<open>
  How a specification is put into the initial task, \<open>tool/microkit/src/capdl/packaging.rs\<close>.  What the crate
  outside the repository does with it is a parameter, the record \<open>spec_codec\<close>: \<open>embed_fill\<close>, which asks a
  function of the tool for the bytes of every frame, \<open>cache_orig_cap_slots\<close>, \<open>set_log_level\<close> and \<open>to_bytes\<close>.  Of
  the specification that comes out of \<open>embed_fill\<close> the tool itself touches the names of the objects only.
\<close>

section \<open>Definitions\<close>

record 'o output_object =
  oo_name :: "string option"
  oo_object :: 'o

record ('o, 'r) output_spec =
  os_objects :: "'o output_object list"
  os_rest :: 'r

type_synonym fill_function = "fill_content \<Rightarrow> nat \<Rightarrow> (unit, u8 list) res"

record ('o, 'r) spec_codec =
  codec_embed_fill :: "u8 \<Rightarrow> bool \<Rightarrow> bool \<Rightarrow> fill_function \<Rightarrow> spec_container \<Rightarrow> (unit, ('o, 'r) output_spec \<times> u8 list list) res"
  codec_cache_orig_cap_slots :: "('o, 'r) output_spec \<Rightarrow> ('o, 'r) output_spec"
  codec_set_log_level :: "u8 \<Rightarrow> ('o, 'r) output_spec \<Rightarrow> ('o, 'r) output_spec"
  codec_to_bytes :: "('o, 'r) output_spec \<Rightarrow> u8 list option"

text \<open>The bytes of one piece of a frame, copied into a buffer of the given length.\<close>

definition fill_buffer :: "elf_file list \<Rightarrow> fill_content \<Rightarrow> nat \<Rightarrow> ('e, u8 list) res" where
  "fill_buffer system_elfs d buf_len =
     bindr (case d of
         ElfContent elf seg_idx st en \<Rightarrow>
           bindr (nthr system_elfs elf) (\<lambda>elf.
           bindr (nthr (segments elf) seg_idx) (\<lambda>seg.
           bindr (segment_data seg) (\<lambda>data. slice_at data st en)))
       | BytesContent bytes \<Rightarrow> Inr bytes) (\<lambda>src.
       if length src = buf_len then Inr src else Inl (Panic AssertFailed))"

definition strip_name :: "string \<Rightarrow> 'o output_object \<Rightarrow> ('e, 'o output_object) res" where
  "strip_name build_config named_obj =
     (if build_config = ''smp-debug'' \<or> build_config = ''debug'' then Inr named_obj
      else if build_config \<in> {''release'', ''benchmark'', ''smp-release'', ''smp-benchmark''}
      then Inr (named_obj\<lparr>oo_name := None\<rparr>)
      else Inl (Panic ExplicitPanic))"

definition pack_payload ::
    "('o, 'r) spec_codec \<Rightarrow> config \<Rightarrow> string \<Rightarrow> spec_container \<Rightarrow> elf_file list \<Rightarrow> log_level \<Rightarrow> ('e, u8 list \<times> u8 list) res" where
  "pack_payload codec cfg build_config spec_container system_elfs level =
     bindr (page_fixed_size_bits SmallPg cfg) (\<lambda>granule_bits.
     bindr (unwrap_res (codec_embed_fill codec (ucast granule_bits) True True (fill_buffer system_elfs) spec_container))
       (\<lambda>(output_spec, embedded_frame_data_list).
     bindr (mapM (strip_name build_config) (os_objects output_spec)) (\<lambda>objects.
     let output_spec = codec_set_log_level codec (log_level_u8 level)
           (codec_cache_orig_cap_slots codec (output_spec\<lparr>os_objects := objects\<rparr>))
     in bindr (unwrapr (codec_to_bytes codec output_spec)) (\<lambda>payload.
          Inr (payload, concat embedded_frame_data_list)))))"

definition pack_spec_into_initial_task ::
    "('o, 'r) spec_codec \<Rightarrow> config \<Rightarrow> string \<Rightarrow> spec_container \<Rightarrow> elf_file list \<Rightarrow> capdl_initialiser
      \<Rightarrow> ('e, capdl_initialiser) res" where
  "pack_spec_into_initial_task codec cfg build_config spec_container system_elfs ci =
     bindr (pack_payload codec cfg build_config spec_container system_elfs (ci_log_level ci))
       (\<lambda>(payload, frame_data). add_spec payload frame_data ci)"

end
