(* ===== verification/Sdf_Parse.thy ===== *)
theory Sdf_Parse
  imports Sdf_Data
begin

unbundle bit_operations_syntax

text \<open>
  The element parsers of \<open>tool/microkit/src/sdf.rs\<close>: each function takes an XML element and returns
  the data it describes or the first error the tool reports.  The order of the checks is the order
  of the code.  Attributes that the tool reads with \<open>.parse().unwrap()\<close> panic on malformed input.
\<close>

section \<open>Attributes and numbers\<close>

definition check_attributes :: "xml_node \<Rightarrow> string list \<Rightarrow> unit sdf_res" where
  "check_attributes node allowed =
     forM (\<lambda>(name, _). if name \<in> set allowed then Inr () else value_err node (VInvalidAttribute name))
       (attributes node)"

definition checked_lookup :: "xml_node \<Rightarrow> string \<Rightarrow> string sdf_res" where
  "checked_lookup node name = (case attribute node name of
      Some v \<Rightarrow> Inr v
    | None \<Rightarrow> Inl (Err (MissingAttribute name (tag_name node) (node_pos node))))"

definition sdf_parse_number :: "string \<Rightarrow> xml_node \<Rightarrow> u64 sdf_res" where
  "sdf_parse_number s node =
     (let to_parse = filter (\<lambda>c. c \<noteq> CHR ''_'') s;
          (final_str, base) = (case strip_prefix ''0x'' to_parse of
             Some stripped \<Rightarrow> (stripped, 16) | None \<Rightarrow> (to_parse, 10))
      in case u64_from_str_radix base final_str of
           Some v \<Rightarrow> Inr v
         | None \<Rightarrow> Inl (Err (BadInteger s (tag_name node))))"

definition number_attribute :: "xml_node \<Rightarrow> string \<Rightarrow> u64 \<Rightarrow> u64 sdf_res" where
  "number_attribute node name dflt = (case attribute node name of
      Some s \<Rightarrow> sdf_parse_number s node | None \<Rightarrow> Inr dflt)"

definition bool_attribute :: "xml_node \<Rightarrow> string \<Rightarrow> bool \<Rightarrow> bool sdf_res" where
  "bool_attribute node name dflt = (case attribute node name of
      Some s \<Rightarrow> (case str_to_bool s of Some v \<Rightarrow> Inr v | None \<Rightarrow> value_err node (VNotBool name))
    | None \<Rightarrow> Inr dflt)"

text \<open>\<open>.parse::<i64>().unwrap()\<close> and \<open>.parse::<u64>().unwrap()\<close>.\<close>

definition parse_i64 :: "string \<Rightarrow> int sdf_res" where
  "parse_i64 s = unwrapr (i64_from_str_radix 10 s)"

definition parse_u64 :: "string \<Rightarrow> u64 sdf_res" where
  "parse_u64 s = unwrapr (u64_from_str_radix 10 s)"

definition u64_of_i64 :: "int \<Rightarrow> u64" where
  "u64_of_i64 i = of_int i"

definition id_attribute :: "xml_node \<Rightarrow> int sdf_res" where
  "id_attribute node =
     bindr (bindr (checked_lookup node ''id'') parse_i64) (\<lambda>id.
     if id > int (unat PD_MAX_ID) then value_err node VIdTooHigh
     else if id < 0 then value_err node VIdNegative
     else Inr id)"

definition cpu_of_u64 :: "u64 \<Rightarrow> cpu_core sdf_res" where
  "cpu_of_u64 n = (if n < 256 then Inr (ucast n) else Inl (Panic UnwrapFailed))"

definition checked_add_setvar :: "sys_set_var list \<Rightarrow> sys_set_var \<Rightarrow> xml_node \<Rightarrow> sys_set_var list sdf_res" where
  "checked_add_setvar setvars setvar node =
     (if list_ex (\<lambda>other. sv_symbol setvar = sv_symbol other) setvars
      then value_err node (VSetvarExists (sv_symbol setvar))
      else Inr (setvars @ [setvar]))"

text \<open>An optional attribute that names a symbol to patch.\<close>

definition add_setvar_attribute ::
    "xml_node \<Rightarrow> string \<Rightarrow> sys_set_var_kind \<Rightarrow> sys_set_var list \<Rightarrow> sys_set_var list sdf_res" where
  "add_setvar_attribute node name kind setvars = (case attribute node name of
      Some symbol \<Rightarrow> checked_add_setvar setvars \<lparr>sv_symbol = symbol, sv_kind = kind\<rparr> node
    | None \<Rightarrow> Inr setvars)"

section \<open>Mappings\<close>

fun perms_from_str_loop :: "u8 \<Rightarrow> string \<Rightarrow> u8 option" where
  "perms_from_str_loop perms [] = Some perms"
| "perms_from_str_loop perms (c # cs) =
     (if c = CHR ''r'' then perms_from_str_loop (perms OR sys_map_perms_u8 PermRead) cs
      else if c = CHR ''w'' then perms_from_str_loop (perms OR sys_map_perms_u8 PermWrite) cs
      else if c = CHR ''x'' then perms_from_str_loop (perms OR sys_map_perms_u8 PermExecute) cs
      else None)"

definition perms_from_str :: "string \<Rightarrow> u8 option" where
  "perms_from_str s = perms_from_str_loop 0 s"

definition sys_map_from_xml :: "xml_node \<Rightarrow> bool \<Rightarrow> u64 \<Rightarrow> sys_map sdf_res" where
  "sys_map_from_xml node allow_setvar max_vaddr =
     (let attrs = [''mr'', ''vaddr'', ''perms'', ''cached'']
            @ (if allow_setvar then [''setvar_vaddr'', ''setvar_size'', ''setvar_prefill_size''] else [])
      in bindr (check_attributes node attrs) (\<lambda>_.
         bindr (checked_lookup node ''mr'') (\<lambda>mr.
         bindr (bindr (checked_lookup node ''vaddr'') (\<lambda>s. sdf_parse_number s node)) (\<lambda>vaddr.
         if vaddr \<ge> max_vaddr then value_err node (VVaddrTooHigh vaddr max_vaddr)
         else bindr (case attribute node ''perms'' of
                Some xml_perms \<Rightarrow>
                  (case perms_from_str xml_perms of
                     Some parsed \<Rightarrow> Inr parsed | None \<Rightarrow> value_err node VPermsSyntax)
              | None \<Rightarrow> Inr (sys_map_perms_u8 PermRead OR sys_map_perms_u8 PermWrite)) (\<lambda>perms.
         if perms = sys_map_perms_u8 PermWrite then value_err node VWriteOnly
         else bindr (bool_attribute node ''cached'' True) (\<lambda>cached.
           Inr \<lparr>sm_mr = mr, sm_vaddr = vaddr, sm_perms = perms, sm_cached = cached,
                sm_text_pos = Some (node_pos node)\<rparr>))))))"

section \<open>Capability maps\<close>

definition cap_map_from_xml :: "cap_map_type \<Rightarrow> xml_node \<Rightarrow> cap_map sdf_res" where
  "cap_map_from_xml cap_type node =
     bindr (check_attributes node [''slot'', ''pd'']) (\<lambda>_.
     bindr (checked_lookup node ''pd'') (\<lambda>name.
     bindr (bindr (checked_lookup node ''slot'') (\<lambda>s. sdf_parse_number s node)) (\<lambda>slot.
     if slot = 0 then value_err node VSlotZero
     else if slot \<ge> CAP_MAP_MAX_SLOT then value_err node VSlotTooHigh
     else Inr \<lparr>cm_cap_type = cap_type, cm_pd_name = name, cm_pd = None, cm_slot = slot,
               cm_text_pos = node_pos node\<rparr>)))"

definition cspace_child_from_xml :: "xml_node \<Rightarrow> cap_map sdf_res" where
  "cspace_child_from_xml child =
     (if tag_name child = ''cap_tcb'' then cap_map_from_xml CmTcb child
      else if tag_name child = ''cap_sc'' then cap_map_from_xml CmSc child
      else if tag_name child = ''cap_vspace'' then cap_map_from_xml CmVSpace child
      else if tag_name child = ''cap_cspace'' then cap_map_from_xml CmCSpace child
      else case strip_prefix ''cap_'' (tag_name child) of
             Some type_name \<Rightarrow> Inl (Err (UnsupportedCapType type_name (node_pos child)))
           | None \<Rightarrow> Inl (Err (UnsupportedCspaceElement (tag_name child) (node_pos child))))"

definition cspace_from_xml :: "xml_node \<Rightarrow> cap_map list sdf_res" where
  "cspace_from_xml node =
     bindr (check_attributes node []) (\<lambda>_.
       mapM cspace_child_from_xml (filter is_element (children node)))"

section \<open>Virtual machines\<close>

definition budget_and_period :: "xml_node \<Rightarrow> (u64 \<times> u64) sdf_res" where
  "budget_and_period node =
     bindr (number_attribute node ''budget'' BUDGET_DEFAULT) (\<lambda>budget.
     bindr (number_attribute node ''period'' budget) (\<lambda>period.
     if budget > period then value_err node (VBudgetExceedsPeriod budget period)
     else Inr (budget, period)))"

definition vcpu_from_xml :: "config \<Rightarrow> xml_node \<Rightarrow> string \<Rightarrow> virtual_cpu list \<Rightarrow> xml_node \<Rightarrow> virtual_cpu sdf_res" where
  "vcpu_from_xml cfg node name vcpus child =
     bindr (check_attributes child [''id'', ''setvar_id'', ''cpu'']) (\<lambda>_.
     bindr (bindr (checked_lookup child ''id'') parse_u64) (\<lambda>id.
     if id > VCPU_MAX_ID then value_err child VIdTooHigh
     else if list_ex (\<lambda>v. vc_id v = id) vcpus
     then Inl (Err (DuplicateVcpuId id name (node_pos child)))
     else
       let setvar_id = attribute node ''setvar_id''
       in bindr (case attribute child ''cpu'' of
            Some cpu \<Rightarrow>
              bindr (sdf_parse_number cpu node) (\<lambda>n.
              bindr (cpu_of_u64 n) (\<lambda>cpu_value.
              if cpu_value \<ge> num_cores cfg then value_err child (VCpuCore (num_cores cfg) cpu_value)
              else Inr (Some cpu_value)))
          | None \<Rightarrow> Inr None) (\<lambda>cpu.
            Inr \<lparr>vc_id = id, vc_setvar_id = setvar_id, vc_cpu = cpu\<rparr>)))"

definition vm_child_from_xml ::
    "config \<Rightarrow> xml_node \<Rightarrow> string \<Rightarrow> virtual_cpu list \<times> sys_map list \<Rightarrow> xml_node
      \<Rightarrow> (virtual_cpu list \<times> sys_map list) sdf_res" where
  "vm_child_from_xml cfg node name acc child =
     (let (vcpus, maps) = acc
      in if \<not> is_element child then Inr acc
         else if tag_name child = ''vcpu''
         then bindr (vcpu_from_xml cfg node name vcpus child) (\<lambda>v. Inr (vcpus @ [v], maps))
         else if tag_name child = ''map''
         then bindr (vm_map_max_vaddr cfg) (\<lambda>max_vaddr.
              bindr (sys_map_from_xml child False max_vaddr) (\<lambda>m. Inr (vcpus, maps @ [m])))
         else Inl (Err (InvalidElement (tag_name child) (node_pos node))))"

definition virtual_machine_from_xml :: "config \<Rightarrow> xml_node \<Rightarrow> virtual_machine sdf_res" where
  "virtual_machine_from_xml cfg node =
     bindr (check_attributes node [''name'', ''budget'', ''period'', ''priority'']) (\<lambda>_.
     bindr (checked_lookup node ''name'') (\<lambda>name.
     bindr (budget_and_period node) (\<lambda>(budget, period).
     bindr (number_attribute node ''priority'' 0) (\<lambda>priority.
     bindr (foldM (vm_child_from_xml cfg node name) ([], []) (children node)) (\<lambda>(vcpus, maps).
     if vcpus = [] then Inl (Err (MissingVcpu name))
     else Inr \<lparr>vm_vcpus = vcpus, vm_name = name, vm_maps = maps, vm_priority = ucast priority,
               vm_budget = budget, vm_period = period\<rparr>)))))"

section \<open>Interrupts\<close>

definition trigger_attribute :: "xml_node \<Rightarrow> 'a \<Rightarrow> 'a \<Rightarrow> 'a sdf_res" where
  "trigger_attribute node level edge = (case attribute node ''trigger'' of
      Some s \<Rightarrow> if s = ''level'' then Inr level else if s = ''edge'' then Inr edge
                else value_err node VTrigger
    | None \<Rightarrow> Inr level)"

definition polarity_attribute :: "xml_node \<Rightarrow> x86_ioapic_irq_polarity sdf_res" where
  "polarity_attribute node = (case attribute node ''polarity'' of
      Some s \<Rightarrow> if s = ''low'' then Inr LowTriggered else if s = ''high'' then Inr HighTriggered
                else value_err node VPolarity
    | None \<Rightarrow> Inr HighTriggered)"

definition vector_attribute :: "xml_node \<Rightarrow> int sdf_res" where
  "vector_attribute node =
     bindr (bindr (checked_lookup node ''vector'') parse_i64) (\<lambda>vector.
     if \<not> (0 \<le> vector \<and> vector \<le> X86_IRQ_VECTOR_MAX) then value_err node VVectorRange
     else Inr vector)"

definition conventional_irq_from_xml :: "config \<Rightarrow> xml_node \<Rightarrow> string \<Rightarrow> sys_irq_kind sdf_res" where
  "conventional_irq_from_xml cfg child irq_str =
     (if arch cfg = X86_64 then value_err child VIrqOnX86
      else bindr (check_attributes child [''irq'', ''id'', ''setvar_id'', ''trigger'']) (\<lambda>_.
           bindr (parse_u64 irq_str) (\<lambda>irq.
           bindr (trigger_attribute child ArLevel ArEdge) (\<lambda>trigger.
             Inr (Conventional irq trigger)))))"

definition ioapic_irq_from_xml :: "config \<Rightarrow> xml_node \<Rightarrow> string \<Rightarrow> sys_irq_kind sdf_res" where
  "ioapic_irq_from_xml cfg child pin_str =
     (if arch cfg \<noteq> X86_64 then value_err child VIoapicNotOnX86
      else bindr (check_attributes child [''id'', ''setvar_id'', ''ioapic'', ''pin'', ''trigger'',
                    ''polarity'', ''vector'']) (\<lambda>_.
           bindr (case attribute child ''ioapic'' of Some s \<Rightarrow> parse_i64 s | None \<Rightarrow> Inr 0) (\<lambda>ioapic.
           if ioapic < 0 then value_err child VIoapicNegative
           else bindr (parse_i64 pin_str) (\<lambda>pin.
           if pin < 0 then value_err child VPinNegative
           else bindr (trigger_attribute child IoLevel IoEdge) (\<lambda>trigger.
           bindr (polarity_attribute child) (\<lambda>polarity.
           bindr (vector_attribute child) (\<lambda>vector.
             Inr (IOAPIC (u64_of_i64 ioapic) (u64_of_i64 pin) trigger polarity (u64_of_i64 vector)))))))))"

definition pci_part :: "xml_node \<Rightarrow> string \<Rightarrow> int \<Rightarrow> value_error \<Rightarrow> sdf_error \<Rightarrow> int sdf_res" where
  "pci_part child s mx range_error parse_error = (case i64_from_str_radix 16 s of
      Some n \<Rightarrow> if \<not> (0 \<le> n \<and> n \<le> mx) then value_err child range_error else Inr n
    | None \<Rightarrow> Inl (Err parse_error))"

definition msi_irq_from_xml :: "config \<Rightarrow> xml_node \<Rightarrow> string \<Rightarrow> sys_irq_kind sdf_res" where
  "msi_irq_from_xml cfg child pcidev_str =
     (if arch cfg \<noteq> X86_64 then value_err child VMsiNotOnX86
      else bindr (check_attributes child [''id'', ''setvar_id'', ''pcidev'', ''handle'', ''vector'']) (\<lambda>_.
           let by_colon = map trim (split_on (CHR '':'') pcidev_str)
           in if length by_colon \<noteq> 2 then Inl (Err (BadPciAddress pcidev_str (tag_name child)))
              else let by_dot = map trim (split_on (CHR ''.'') (by_colon ! 1))
              in if length by_dot \<noteq> 2 then Inl (Err (BadPciAddress pcidev_str (tag_name child)))
                 else
                   bindr (pci_part child (by_colon ! 0) PCI_BUS_MAX VPciBusRange
                            (BadPciBus pcidev_str (tag_name child))) (\<lambda>pci_bus.
                   bindr (pci_part child (by_dot ! 0) PCI_DEV_MAX VPciDevRange
                            (BadPciDev pcidev_str (tag_name child))) (\<lambda>pci_dev.
                   bindr (pci_part child (by_dot ! 1) PCI_FUNC_MAX VPciFuncRange
                            (BadPciFunc pcidev_str (tag_name child))) (\<lambda>pci_func.
                   bindr (bindr (checked_lookup child ''handle'') parse_i64) (\<lambda>handle.
                   if handle < 0 then value_err child VHandleNegative
                   else bindr (vector_attribute child) (\<lambda>vector.
                     Inr (MSI (u64_of_i64 pci_bus) (u64_of_i64 pci_dev) (u64_of_i64 pci_func)
                            (u64_of_i64 handle) (u64_of_i64 vector)))))))))"

text \<open>The three kinds are told apart by the attribute that is present; with none of them the lookup
  of the missing attribute is the error.\<close>

definition irq_kind_from_xml :: "config \<Rightarrow> xml_node \<Rightarrow> sys_irq_kind option sdf_res" where
  "irq_kind_from_xml cfg child =
     (case attribute child ''irq'' of
        Some irq_str \<Rightarrow> bindr (conventional_irq_from_xml cfg child irq_str) (\<lambda>k. Inr (Some k))
      | None \<Rightarrow>
        (case attribute child ''pin'' of
           Some pin_str \<Rightarrow> bindr (ioapic_irq_from_xml cfg child pin_str) (\<lambda>k. Inr (Some k))
         | None \<Rightarrow>
           (case attribute child ''pcidev'' of
              Some pcidev_str \<Rightarrow> bindr (msi_irq_from_xml cfg child pcidev_str) (\<lambda>k. Inr (Some k))
            | None \<Rightarrow>
                if arch cfg = X86_64
                then bindr (checked_lookup child ''pin'') (\<lambda>_.
                     bindr (checked_lookup child ''pcidev'') (\<lambda>_. Inr None))
                else bindr (checked_lookup child ''irq'') (\<lambda>_. Inr None))))"

definition ioport_from_xml ::
    "config \<Rightarrow> xml_node \<Rightarrow> xml_node \<Rightarrow> sys_set_var list \<Rightarrow> (ioport \<times> sys_set_var list) sdf_res" where
  "ioport_from_xml cfg node child setvars =
     (if arch cfg = X86_64
      then bindr (check_attributes child [''id'', ''setvar_id'', ''setvar_addr'', ''addr'', ''size'']) (\<lambda>_.
           bindr (id_attribute child) (\<lambda>id.
           bindr (add_setvar_attribute child ''setvar_id'' (SvId (u64_of_i64 id)) setvars) (\<lambda>setvars.
           bindr (bindr (checked_lookup child ''addr'') (\<lambda>s. sdf_parse_number s child)) (\<lambda>addr.
           bindr (add_setvar_attribute child ''setvar_addr'' (SvX86IoPortAddr addr) setvars) (\<lambda>setvars.
           bindr (bindr (checked_lookup child ''size'') parse_i64) (\<lambda>sz.
           if sz \<le> 0 then value_err child VIoPortSize
           else Inr (\<lparr>iop_id = u64_of_i64 id, iop_addr = addr, iop_size = u64_of_i64 sz,
                      iop_text_pos = node_pos node\<rparr>, setvars)))))))
      else value_err node VIoPortNotOnX86)"

section \<open>Protection domains\<close>

definition smc_check :: "config \<Rightarrow> xml_node \<Rightarrow> bool \<Rightarrow> unit sdf_res" where
  "smc_check cfg node smc =
     (if smc
      then (case arm_smc cfg of
              Some smc_allowed \<Rightarrow> if \<not> smc_allowed then value_err node VSmcDisabled else Inr ()
            | None \<Rightarrow> Inl (Err SmcUnavailable))
      else Inr ())"

text \<open>The part of \<open>ProtectionDomain::from_xml\<close> before the loop over the child elements.\<close>

definition pd_header_from_xml :: "config \<Rightarrow> xml_node \<Rightarrow> bool \<Rightarrow> protection_domain sdf_res" where
  "pd_header_from_xml cfg node is_child =
     (let attrs = [''name'', ''priority'', ''budget'', ''period'', ''passive'', ''stack_size'', ''smc'',
                   ''cpu'', ''fpu''] @ (if is_child then [''id'', ''setvar_id''] else [])
      in bindr (check_attributes node attrs) (\<lambda>_.
         bindr (checked_lookup node ''name'') (\<lambda>name.
         bindr (if is_child
                then bindr (bindr (checked_lookup node ''id'') (\<lambda>s. sdf_parse_number s node)) (\<lambda>id.
                       Inr (Some id, attribute node ''setvar_id''))
                else Inr (None, None)) (\<lambda>(id, setvar_id).
         bindr (budget_and_period node) (\<lambda>(budget, period).
         bindr (bool_attribute node ''passive'' False) (\<lambda>passive.
         bindr (number_attribute node ''stack_size'' PD_DEFAULT_STACK_SIZE) (\<lambda>stack_size.
         bindr (bool_attribute node ''smc'' False) (\<lambda>smc.
         bindr (smc_check cfg node smc) (\<lambda>_.
         bindr (bindr (sdf_parse_number
                         (case attribute node ''cpu'' of Some s \<Rightarrow> s | None \<Rightarrow> ''0'') node)
                  cpu_of_u64) (\<lambda>cpu.
         if cpu \<ge> num_cores cfg then value_err node (VCpuCore (num_cores cfg) cpu)
         else if stack_size < PD_MIN_STACK_SIZE \<or> stack_size > PD_MAX_STACK_SIZE
         then value_err node VStackSizeRange
         else if \<not> is_multiple_of stack_size (fst (page_sizes cfg))
         then value_err node (VStackSizeAlign (fst (page_sizes cfg)))
         else bindr (number_attribute node ''priority'' 0) (\<lambda>priority.
         if priority > ucast PD_MAX_PRIORITY then value_err node VPriorityRange
         else bindr (bool_attribute node ''fpu'' True) (\<lambda>fpu_enabled.
           Inr \<lparr>pd_id = id, pd_name = name, pd_priority = ucast priority, pd_budget = budget,
                pd_period = period, pd_passive = passive, pd_stack_size = stack_size, pd_smc = smc,
                pd_cpu = cpu, pd_program_image = [], pd_program_image_for_symbols = None,
                pd_fpu = fpu_enabled, pd_maps = [], pd_irqs = [], pd_ioports = [], pd_setvars = [],
                pd_cap_maps = [], pd_virtual_machine = None, pd_has_children = False,
                pd_parent = None, pd_setvar_id = setvar_id,
                pd_text_pos = Some (node_pos node)\<rparr>))))))))))))"

text \<open>The variables the loop over the child elements updates.\<close>

record pd_acc =
  pa_maps :: "sys_map list"
  pa_irqs :: "sys_irq list"
  pa_ioports :: "ioport list"
  pa_setvars :: "sys_set_var list"
  pa_child_pds :: "pd_tree list"
  pa_program_image :: "string option"
  pa_program_image_for_symbols :: "string option"
  pa_virtual_machine :: "virtual_machine option"
  pa_cspace :: "cap_map list option"

definition pd_acc_init :: pd_acc where
  "pd_acc_init = \<lparr>pa_maps = [], pa_irqs = [], pa_ioports = [], pa_setvars = [], pa_child_pds = [],
     pa_program_image = None, pa_program_image_for_symbols = None, pa_virtual_machine = None,
     pa_cspace = None\<rparr>"

definition program_image_from_xml :: "xml_node \<Rightarrow> pd_acc \<Rightarrow> xml_node \<Rightarrow> pd_acc sdf_res" where
  "program_image_from_xml node acc child =
     bindr (check_attributes child [''path'', ''path_for_symbols'']) (\<lambda>_.
     if pa_program_image acc \<noteq> None then value_err node (VOnlyOnce ''program_image'')
     else bindr (checked_lookup child ''path'') (\<lambda>path.
       Inr (acc\<lparr>pa_program_image := Some path,
                pa_program_image_for_symbols := attribute child ''path_for_symbols''\<rparr>)))"

definition pd_map_from_xml :: "config \<Rightarrow> u64 \<Rightarrow> pd_acc \<Rightarrow> xml_node \<Rightarrow> pd_acc sdf_res" where
  "pd_map_from_xml cfg stack_size acc child =
     bindr (pd_map_max_vaddr cfg stack_size) (\<lambda>map_max_vaddr.
     bindr (sys_map_from_xml child True map_max_vaddr) (\<lambda>m.
     bindr (add_setvar_attribute child ''setvar_vaddr'' (SvVaddr (sm_vaddr m)) (pa_setvars acc)) (\<lambda>setvars.
     bindr (add_setvar_attribute child ''setvar_size'' (SvSize (sm_mr m)) setvars) (\<lambda>setvars.
     bindr (add_setvar_attribute child ''setvar_prefill_size'' (SvPrefillSize (sm_mr m)) setvars) (\<lambda>setvars.
       Inr (acc\<lparr>pa_setvars := setvars, pa_maps := pa_maps acc @ [m]\<rparr>))))))"

definition pd_irq_from_xml :: "config \<Rightarrow> pd_acc \<Rightarrow> xml_node \<Rightarrow> pd_acc sdf_res" where
  "pd_irq_from_xml cfg acc child =
     bindr (id_attribute child) (\<lambda>id.
     bindr (add_setvar_attribute child ''setvar_id'' (SvId (u64_of_i64 id)) (pa_setvars acc)) (\<lambda>setvars.
     bindr (irq_kind_from_xml cfg child) (\<lambda>kind_maybe.
       Inr (acc\<lparr>pa_setvars := setvars,
                pa_irqs := (case kind_maybe of
                   Some k \<Rightarrow> pa_irqs acc @ [\<lparr>irq_id = u64_of_i64 id, irq_kind = k\<rparr>]
                 | None \<Rightarrow> pa_irqs acc)\<rparr>))))"

definition pd_ioport_from_xml :: "config \<Rightarrow> xml_node \<Rightarrow> pd_acc \<Rightarrow> xml_node \<Rightarrow> pd_acc sdf_res" where
  "pd_ioport_from_xml cfg node acc child =
     bindr (ioport_from_xml cfg node child (pa_setvars acc)) (\<lambda>(port, setvars).
       Inr (acc\<lparr>pa_setvars := setvars, pa_ioports := pa_ioports acc @ [port]\<rparr>))"

definition pd_setvar_from_xml :: "pd_acc \<Rightarrow> xml_node \<Rightarrow> pd_acc sdf_res" where
  "pd_setvar_from_xml acc child =
     bindr (check_attributes child [''symbol'', ''region_paddr'']) (\<lambda>_.
     bindr (checked_lookup child ''symbol'') (\<lambda>symbol.
     bindr (checked_lookup child ''region_paddr'') (\<lambda>region.
     bindr (checked_add_setvar (pa_setvars acc) \<lparr>sv_symbol = symbol, sv_kind = SvPaddr region\<rparr> child) (\<lambda>setvars.
       Inr (acc\<lparr>pa_setvars := setvars\<rparr>)))))"

definition pd_add_child :: "pd_acc \<Rightarrow> xml_node \<Rightarrow> pd_tree \<Rightarrow> pd_acc sdf_res" where
  "pd_add_child acc child child_pd =
     bindr (case pd_setvar_id (tree_pd child_pd) of
              Some symbol \<Rightarrow>
                bindr (unwrapr (pd_id (tree_pd child_pd))) (\<lambda>id.
                  checked_add_setvar (pa_setvars acc) \<lparr>sv_symbol = symbol, sv_kind = SvId id\<rparr> child)
            | None \<Rightarrow> Inr (pa_setvars acc)) (\<lambda>setvars.
       Inr (acc\<lparr>pa_setvars := setvars, pa_child_pds := pa_child_pds acc @ [child_pd]\<rparr>))"

definition pd_vm_from_xml :: "config \<Rightarrow> xml_node \<Rightarrow> pd_acc \<Rightarrow> xml_node \<Rightarrow> pd_acc sdf_res" where
  "pd_vm_from_xml cfg node acc child =
     (if \<not> hypervisor cfg then value_err node VNoHypervisor
      else if pa_virtual_machine acc \<noteq> None then value_err node (VOnlyOnce ''virtual_machine'')
      else bindr (virtual_machine_from_xml cfg child) (\<lambda>vm.
           bindr (foldM (\<lambda>setvars vcpu.
                    case vc_setvar_id vcpu of
                      Some symbol \<Rightarrow>
                        checked_add_setvar setvars \<lparr>sv_symbol = symbol, sv_kind = SvId (vc_id vcpu)\<rparr> child
                    | None \<Rightarrow> Inr setvars)
                  (pa_setvars acc) (vm_vcpus vm)) (\<lambda>setvars.
             Inr (acc\<lparr>pa_setvars := setvars, pa_virtual_machine := Some vm\<rparr>))))"

definition pd_cspace_from_xml :: "xml_node \<Rightarrow> pd_acc \<Rightarrow> xml_node \<Rightarrow> pd_acc sdf_res" where
  "pd_cspace_from_xml node acc child =
     (if pa_cspace acc \<noteq> None then value_err node (VOnlyOnce ''cspace'')
      else bindr (cspace_from_xml child) (\<lambda>cap_maps. Inr (acc\<lparr>pa_cspace := Some cap_maps\<rparr>)))"

definition pd_finish :: "protection_domain \<Rightarrow> pd_acc \<Rightarrow> pd_tree sdf_res" where
  "pd_finish pd acc = (case pa_program_image acc of
      None \<Rightarrow> Inl (Err (MissingProgramImage (pd_name pd)))
    | Some img \<Rightarrow>
        Inr (PdTree (pd\<lparr>pd_program_image := img,
               pd_program_image_for_symbols := pa_program_image_for_symbols acc,
               pd_maps := pa_maps acc, pd_irqs := pa_irqs acc, pd_ioports := pa_ioports acc,
               pd_setvars := pa_setvars acc,
               pd_cap_maps := (case pa_cspace acc of Some cs \<Rightarrow> cs | None \<Rightarrow> []),
               pd_virtual_machine := pa_virtual_machine acc,
               pd_has_children := (pa_child_pds acc \<noteq> [])\<rparr>) (pa_child_pds acc)))"

lemma foldM_cong [fundef_cong]:
  "xs = ys \<Longrightarrow> s = t \<Longrightarrow> (\<And>a x. x \<in> set ys \<Longrightarrow> f a x = g a x) \<Longrightarrow> foldM f s xs = foldM g t ys"
proof (induction xs arbitrary: s t ys)
  case (Cons x xs)
  then show ?case by (cases ys) (auto intro!: bindr_cong)
qed simp

function protection_domain_from_xml :: "config \<Rightarrow> xml_node \<Rightarrow> bool \<Rightarrow> pd_tree sdf_res" where
  "protection_domain_from_xml cfg (XmlNode kind tag atts kids text_maybe tail_maybe pos) is_child =
     (let node = XmlNode kind tag atts kids text_maybe tail_maybe pos
      in bindr (pd_header_from_xml cfg node is_child) (\<lambda>pd.
     bindr (foldM (\<lambda>acc child.
         if \<not> is_element child then Inr acc
         else if tag_name child = ''program_image'' then program_image_from_xml node acc child
         else if tag_name child = ''map'' then pd_map_from_xml cfg (pd_stack_size pd) acc child
         else if tag_name child = ''irq'' then pd_irq_from_xml cfg acc child
         else if tag_name child = ''ioport'' then pd_ioport_from_xml cfg node acc child
         else if tag_name child = ''setvar'' then pd_setvar_from_xml acc child
         else if tag_name child = ''protection_domain''
         then bindr (protection_domain_from_xml cfg child True) (pd_add_child acc child)
         else if tag_name child = ''virtual_machine'' then pd_vm_from_xml cfg node acc child
         else if tag_name child = ''cspace'' then pd_cspace_from_xml node acc child
         else Inl (Err (InvalidElement (tag_name child) (node_pos child))))
       pd_acc_init kids) (\<lambda>acc.
     pd_finish pd acc)))"
  by pat_completeness auto

termination
proof (relation "measure (\<lambda>(cfg, node, is_child). size node)", goal_cases)
  case (2 cfg kind tag atts kids text_maybe tail_maybe pos is_child node pd acc child)
  then show ?case using size_child [of child node] by simp
qed simp

declare protection_domain_from_xml.simps [simp del]

section \<open>Memory regions\<close>

definition determine_size :: "xml_node \<Rightarrow> u8 list option \<Rightarrow> u64 \<Rightarrow> u64 sdf_res" where
  "determine_size node prefill_bytes_maybe pg_size =
     (case checked_lookup node ''size'' of
        Inr size_str \<Rightarrow>
          bindr (sdf_parse_number size_str node) (\<lambda>size_parsed.
          if \<not> is_multiple_of size_parsed pg_size then value_err node VSizeNotMultiple
          else (case prefill_bytes_maybe of
                  Some bytes \<Rightarrow>
                    if length bytes > unat size_parsed
                    then value_err node (VPrefillTooLarge (length bytes) size_parsed)
                    else Inr size_parsed
                | None \<Rightarrow> Inr size_parsed))
      | Inl _ \<Rightarrow>
          (case prefill_bytes_maybe of
             Some bytes \<Rightarrow> round_up (of_nat (length bytes)) pg_size
           | None \<Rightarrow> value_err node VSizeMissing))"

definition prefill_from_xml ::
    "(string \<Rightarrow> bool) \<Rightarrow> (string \<Rightarrow> u8 list option) \<Rightarrow> string list \<Rightarrow> xml_node \<Rightarrow> u8 list option sdf_res" where
  "prefill_from_xml path_exists fs_read search_paths node = (case attribute node ''prefill_path'' of
      None \<Rightarrow> Inr None
    | Some path_str \<Rightarrow>
        (case get_full_path path_exists path_str search_paths of
           None \<Rightarrow> value_err node (VPrefillNotFound path_str)
         | Some prefill_path \<Rightarrow>
             (case fs_read prefill_path of
                None \<Rightarrow> value_err node (VPrefillUnreadable path_str)
              | Some bytes \<Rightarrow>
                  if bytes = [] then value_err node (VPrefillEmpty path_str) else Inr (Some bytes))))"

definition sys_memory_region_from_xml ::
    "(string \<Rightarrow> bool) \<Rightarrow> (string \<Rightarrow> u8 list option) \<Rightarrow> config \<Rightarrow> string list \<Rightarrow> xml_node
      \<Rightarrow> sys_memory_region sdf_res" where
  "sys_memory_region_from_xml path_exists fs_read cfg search_paths node =
     bindr (check_attributes node [''name'', ''size'', ''page_size'', ''phys_addr'', ''prefill_path'']) (\<lambda>_.
     bindr (checked_lookup node ''name'') (\<lambda>name.
     bindr (number_attribute node ''page_size'' (fst (page_sizes cfg))) (\<lambda>pg_size.
     if pg_size \<noteq> fst (page_sizes cfg) \<and> pg_size \<noteq> snd (page_sizes cfg)
     then value_err node (VPageSizeUnsupported pg_size)
     else bindr (prefill_from_xml path_exists fs_read search_paths node) (\<lambda>prefill_bytes_maybe.
     bindr (determine_size node prefill_bytes_maybe pg_size) (\<lambda>sz.
     bindr (case attribute node ''phys_addr'' of
              Some s \<Rightarrow> bindr (sdf_parse_number s node) (\<lambda>p. Inr (Specified p))
            | None \<Rightarrow> Inr Unspecified) (\<lambda>phys_addr.
     if (case phys_addr of Specified p \<Rightarrow> \<not> is_multiple_of p pg_size | _ \<Rightarrow> False)
     then value_err node VPaddrUnaligned
     else if pg_size = 0 then Inl (Panic DivideByZero)
     else let page_count = sz div pg_size
     in bindr (page_size_from_u64 pg_size) (\<lambda>pg.
       Inr \<lparr>smr_name = name, smr_size = sz,
            smr_page_size_specified = (attribute node ''page_size'' \<noteq> None), smr_page_size = pg,
            smr_page_count = page_count, smr_phys_addr = phys_addr,
            smr_text_pos = Some (node_pos node), smr_kind = MrUser,
            smr_prefill_bytes = prefill_bytes_maybe\<rparr>)))))))"

section \<open>Channels\<close>

definition channel_end_from_xml :: "protection_domain list \<Rightarrow> xml_node \<Rightarrow> channel_end sdf_res" where
  "channel_end_from_xml pds node =
     (if tag_name node \<noteq> ''end'' then Inl (Err (InvalidElement (tag_name node) (node_pos node)))
      else bindr (check_attributes node [''pd'', ''id'', ''pp'', ''notify'', ''setvar_id'']) (\<lambda>_.
           bindr (checked_lookup node ''pd'') (\<lambda>end_pd.
           bindr (id_attribute node) (\<lambda>end_id.
           bindr (bool_attribute node ''notify'' True) (\<lambda>notify.
           bindr (bool_attribute node ''pp'' False) (\<lambda>pp.
           let idx = length (takeWhile (\<lambda>pd. pd_name pd \<noteq> end_pd) pds)
           in if idx < length pds
              then Inr \<lparr>ce_pd = idx, ce_id = u64_of_i64 end_id, ce_notify = notify, ce_pp = pp,
                        ce_setvar_id = attribute node ''setvar_id''\<rparr>
              else value_err node (VInvalidPdName end_pd)))))))"

definition channel_from_xml :: "protection_domain list \<Rightarrow> xml_node \<Rightarrow> channel sdf_res" where
  "channel_from_xml pds node =
     bindr (check_attributes node []) (\<lambda>_.
     bindr (mapM (channel_end_from_xml pds) (filter is_element (children node))) (\<lambda>ends.
       case ends of
         [a, b] \<Rightarrow> if ce_pp a \<and> ce_pp b then value_err node VBidirectionalPpc
                    else Inr \<lparr>end_a = a, end_b = b\<rparr>
       | _ \<Rightarrow> value_err node VNotTwoEnds))"

end
