(* ===== verification/Sdf_Flatten.thy ===== *)
theory Sdf_Flatten
  imports Sdf_Parse
begin

text \<open>
  The flattening of the protection domain tree, \<open>pd_tree_to_list\<close> and \<open>pd_flatten\<close> of
  \<open>tool/microkit/src/sdf.rs\<close>: a preorder list in which every child refers to its parent by its index.
\<close>

section \<open>Flattening\<close>

text \<open>The loop that looks for duplicate child identifiers; \<open>child_ids\<close> are those already seen.\<close>

fun check_child_ids :: "protection_domain \<Rightarrow> u64 list \<Rightarrow> pd_tree list \<Rightarrow> unit sdf_res" where
  "check_child_ids pd child_ids [] = Inr ()"
| "check_child_ids pd child_ids (child # rest) =
     bindr (unwrapr (pd_id (tree_pd child))) (\<lambda>child_id.
     if child_id \<in> set child_ids
     then bindr (unwrapr (pd_text_pos (tree_pd child))) (\<lambda>pos.
            Inl (Err (DuplicateChildId child_id (pd_name pd) pos)))
     else if (case pd_virtual_machine pd of
                Some vm \<Rightarrow> list_ex (\<lambda>vcpu. child_id = vc_id vcpu) (vm_vcpus vm)
              | None \<Rightarrow> False)
     then bindr (unwrapr (pd_text_pos (tree_pd child))) (\<lambda>pos.
            Inl (Err (ChildIdClashesVcpu child_id (pd_name pd) pos)))
     else check_child_ids pd (child_ids @ [child_id]) rest)"

fun with_parent :: "nat \<Rightarrow> pd_tree \<Rightarrow> pd_tree" where
  "with_parent idx (PdTree pd cs) = PdTree (pd\<lparr>pd_parent := Some idx\<rparr>) cs"

fun tree_size :: "pd_tree \<Rightarrow> nat" where
  "tree_size (PdTree pd cs) = Suc (sum_list (map tree_size cs))"

lemma tree_size_with_parent [simp]: "tree_size (with_parent i t) = tree_size t"
  by (cases t) simp

lemma tree_size_child: "c \<in> set cs \<Longrightarrow> tree_size c < tree_size (PdTree pd cs)"
  by (simp add: member_le_sum_list less_Suc_eq_le)

function pd_tree_to_list :: "pd_tree \<Rightarrow> nat \<Rightarrow> protection_domain list sdf_res" where
  "pd_tree_to_list (PdTree pd child_pds) idx =
     bindr (check_child_ids pd [] child_pds) (\<lambda>_.
     bindr (foldM (\<lambda>new_child_pds child_pd.
         bindr (pd_tree_to_list (with_parent idx child_pd) (idx + length new_child_pds + 1)) (\<lambda>l.
           Inr (new_child_pds @ l))) [] child_pds) (\<lambda>new_child_pds.
     Inr (pd # new_child_pds)))"
  by pat_completeness auto

termination
proof (relation "measure (\<lambda>(t, idx). tree_size t)", goal_cases)
  case 1
  show ?case by simp
next
  case (2 pd child_pds idx u acc c)
  then show ?case using tree_size_child [of c child_pds pd] by simp
qed

declare pd_tree_to_list.simps [simp del]

definition pd_flatten :: "pd_tree list \<Rightarrow> protection_domain list sdf_res" where
  "pd_flatten pds =
     foldM (\<lambda>all_pds t.
       bindr (assertr (pd_parent (tree_pd t) = None)) (\<lambda>_.
       bindr (pd_tree_to_list t (length all_pds)) (\<lambda>l. Inr (all_pds @ l)))) [] pds"

section \<open>The preorder\<close>

fun preorder :: "pd_tree \<Rightarrow> protection_domain list" where
  "preorder (PdTree pd cs) = pd # concat (map preorder cs)"

text \<open>A domain with the parent link the flattening fills in taken out.\<close>

definition unlinked :: "protection_domain \<Rightarrow> protection_domain" where
  "unlinked pd = pd\<lparr>pd_parent := None\<rparr>"

lemma preorder_with_parent [simp]:
  "map unlinked (preorder (with_parent i t)) = map unlinked (preorder t)"
  by (cases t) (simp add: unlinked_def)

lemma pd_tree_to_list_preorder:
  "pd_tree_to_list t idx = Inr l \<Longrightarrow> map unlinked l = map unlinked (preorder t)"
proof (induction t idx arbitrary: l rule: pd_tree_to_list.induct)
  case (1 pd child_pds idx)
  let ?f = "\<lambda>new_child_pds child_pd.
         bindr (pd_tree_to_list (with_parent idx child_pd) (idx + length new_child_pds + 1)) (\<lambda>l.
           Inr (new_child_pds @ l)) :: protection_domain list sdf_res"
  from "1.prems" obtain new where new: "check_child_ids pd [] child_pds = Inr ()"
    "foldM ?f [] child_pds = Inr new" "l = pd # new"
    by (auto simp: pd_tree_to_list.simps bindr_eq_Inr)
  have "map unlinked new = map unlinked (concat (map preorder child_pds))"
    using new(2)
  proof (rule foldM_inv_prefix [where I = "\<lambda>cs new. map unlinked new = map unlinked (concat (map preorder cs))"])
    fix ys x s t
    assume a: "map unlinked s = map unlinked (concat (map preorder ys))" "x \<in> set child_pds" "?f s x = Inr t"
    from a(3) obtain lx where lx: "pd_tree_to_list (with_parent idx x) (idx + length s + 1) = Inr lx" "t = s @ lx"
      by (auto simp: bindr_eq_Inr)
    from "1.IH" [OF new(1) a(2) lx(1)] have "map unlinked lx = map unlinked (preorder x)" by simp
    with a(1) lx(2) show "map unlinked t = map unlinked (concat (map preorder (ys @ [x])))" by simp
  qed simp
  with new(3) show ?case by simp
qed

lemma pd_flatten_preorder:
  assumes "pd_flatten ts = Inr pds"
  shows "map unlinked pds = map unlinked (concat (map preorder ts))"
  using assms unfolding pd_flatten_def
proof (rule foldM_inv_prefix [where I = "\<lambda>ts pds. map unlinked pds = map unlinked (concat (map preorder ts))"])
  fix ys x s t
  assume "map unlinked s = map unlinked (concat (map preorder ys))"
    "bindr (assertr (pd_parent (tree_pd x) = None)) (\<lambda>_.
       bindr (pd_tree_to_list x (length s)) (\<lambda>l. Inr (s @ l))) = Inr t"
  then show "map unlinked t = map unlinked (concat (map preorder (ys @ [x])))"
    by (auto simp: bindr_eq_Inr dest: pd_tree_to_list_preorder)
qed simp

section \<open>Parent links and child identifiers\<close>

text \<open>The links of a list of domains that starts at index \<open>b\<close> of the final list: from position
  \<open>k\<close> on every domain has an earlier domain as its parent, not before \<open>a\<close>, and two domains
  with the same parent have different identifiers.\<close>

definition links_ok :: "nat \<Rightarrow> nat \<Rightarrow> protection_domain list \<Rightarrow> bool" where
  "links_ok a b xs \<longleftrightarrow>
     (\<forall>k < length xs. \<exists>p. pd_parent (xs ! k) = Some p \<and> a \<le> p \<and> p < b + k)
     \<and> (\<forall>k < length xs. \<forall>l < length xs. k < l \<and> pd_parent (xs ! k) = pd_parent (xs ! l)
          \<longrightarrow> pd_id (xs ! k) \<noteq> pd_id (xs ! l))"

lemma check_child_ids_distinct:
  "check_child_ids pd seen cs = Inr () \<Longrightarrow>
     (\<exists>ids. map (\<lambda>c. pd_id (tree_pd c)) cs = map Some ids \<and> distinct ids \<and> set ids \<inter> set seen = {}
        \<and> (\<forall>vm. pd_virtual_machine pd = Some vm \<longrightarrow> set ids \<inter> set (map vc_id (vm_vcpus vm)) = {}))"
proof (induction cs arbitrary: seen)
  case (Cons c cs)
  from Cons.prems obtain i where i: "pd_id (tree_pd c) = Some i" "i \<notin> set seen"
    "\<forall>vm. pd_virtual_machine pd = Some vm \<longrightarrow> i \<notin> set (map vc_id (vm_vcpus vm))"
    "check_child_ids pd (seen @ [i]) cs = Inr ()"
    by (auto simp: bindr_eq_Inr unwrapr_eq_Inr list_ex_iff split: if_splits option.splits)
  from Cons.IH [OF i(4)] obtain ids where
    "map (\<lambda>c. pd_id (tree_pd c)) cs = map Some ids" "distinct ids" "set ids \<inter> set (seen @ [i]) = {}"
    "\<forall>vm. pd_virtual_machine pd = Some vm \<longrightarrow> set ids \<inter> set (map vc_id (vm_vcpus vm)) = {}" by blast
  with i show ?case by (intro exI [of _ "i # ids"]) auto
qed simp

lemma links_ok_append:
  assumes "links_ok a b xs" "links_ok a' (b + length xs) ys" "a \<le> a'"
    and "\<And>x y. x \<in> set xs \<Longrightarrow> y \<in> set ys \<Longrightarrow> pd_parent x = pd_parent y \<Longrightarrow> pd_id x \<noteq> pd_id y"
  shows "links_ok a b (xs @ ys)"
proof -
  have "\<exists>p. pd_parent ((xs @ ys) ! k) = Some p \<and> a \<le> p \<and> p < b + k" if "k < length (xs @ ys)" for k
  proof (cases "k < length xs")
    case True
    then show ?thesis using assms(1) by (simp add: links_ok_def nth_append)
  next
    case False
    then have "k - length xs < length ys" using that by simp
    with assms(2) obtain p where "pd_parent (ys ! (k - length xs)) = Some p" "a' \<le> p"
      "p < b + length xs + (k - length xs)" unfolding links_ok_def by blast
    with False assms(3) show ?thesis by (auto simp: nth_append)
  qed
  moreover have "pd_id ((xs @ ys) ! k) \<noteq> pd_id ((xs @ ys) ! l)"
    if kl: "k < l" "l < length (xs @ ys)" "pd_parent ((xs @ ys) ! k) = pd_parent ((xs @ ys) ! l)" for k l
  proof -
    consider "l < length xs" | "k < length xs" "length xs \<le> l" | "length xs \<le> k" using kl(1) by linarith
    then show ?thesis
    proof cases
      case 1
      then show ?thesis using kl assms(1) by (simp add: links_ok_def nth_append)
    next
      case 2
      then have "xs ! k \<in> set xs" "ys ! (l - length xs) \<in> set ys" using kl(2) by simp_all
      with 2 kl(3) show ?thesis using assms(4) by (simp add: nth_append)
    next
      case 3
      then have "k - length xs < l - length xs" "l - length xs < length ys" using kl by simp_all
      with 3 kl show ?thesis using assms(2) by (simp add: links_ok_def nth_append)
    qed
  qed
  ultimately show ?thesis unfolding links_ok_def by auto
qed

lemma tree_pd_with_parent [simp]:
  "tree_pd (with_parent i t) = (tree_pd t)\<lparr>pd_parent := Some i\<rparr>"
  by (cases t) simp

lemma links_ok_nth:
  "links_ok a b xs \<Longrightarrow> x \<in> set xs \<Longrightarrow> \<exists>p. pd_parent x = Some p \<and> a \<le> p \<and> p < b + length xs"
  unfolding links_ok_def in_set_conv_nth by fastforce

lemma distinct_map_Some: "distinct (map Some xs) \<longleftrightarrow> distinct xs"
  by (simp add: distinct_map)

lemma pd_tree_to_list_links:
  "pd_tree_to_list t idx = Inr l \<Longrightarrow> \<exists>new. l = tree_pd t # new \<and> links_ok idx (Suc idx) new"
proof (induction t idx arbitrary: l rule: pd_tree_to_list.induct)
  case (1 pd child_pds idx)
  let ?f = "\<lambda>new_child_pds child_pd.
         bindr (pd_tree_to_list (with_parent idx child_pd) (idx + length new_child_pds + 1)) (\<lambda>l.
           Inr (new_child_pds @ l)) :: protection_domain list sdf_res"
  let ?id = "\<lambda>c. pd_id (tree_pd c)"
  let ?I = "\<lambda>cs new. links_ok idx (Suc idx) new
      \<and> (\<forall>x \<in> set new. pd_parent x = Some idx \<longrightarrow> pd_id x \<in> set (map ?id cs))"
  from "1.prems" obtain new where new: "check_child_ids pd [] child_pds = Inr ()"
    "foldM ?f [] child_pds = Inr new" "l = pd # new"
    by (auto simp: pd_tree_to_list.simps bindr_eq_Inr)
  from check_child_ids_distinct [OF new(1)] obtain ids where
    "map ?id child_pds = map Some ids" "distinct ids" by blast
  then have dist: "distinct (map ?id child_pds)" by (simp only: distinct_map_Some)
  have "?I child_pds new"
    using new(2)
  proof (rule foldM_inv_split [where I = ?I])
    show "?I [] []" by (simp add: links_ok_def)
    fix ys x zs s t
    assume sp: "child_pds = ys @ x # zs" and I: "?I ys s" and f: "?f s x = Inr t"
    let ?b = "idx + length s + 1"
    from f obtain lx where lx: "pd_tree_to_list (with_parent idx x) ?b = Inr lx" "t = s @ lx"
      by (auto simp: bindr_eq_Inr)
    have "x \<in> set child_pds" using sp by simp
    from "1.IH" [OF new(1) this lx(1)] obtain nx where
      nx: "lx = (tree_pd x)\<lparr>pd_parent := Some idx\<rparr> # nx" "links_ok ?b (Suc ?b) nx" by auto
    let ?r = "(tree_pd x)\<lparr>pd_parent := Some idx\<rparr>"
    have above: "\<exists>p. pd_parent y = Some p \<and> ?b \<le> p" if "y \<in> set nx" for y
      using links_ok_nth [OF nx(2) that] by auto
    have other: "pd_parent y \<noteq> Some idx" if "y \<in> set nx" for y
      using above [OF that] by auto
    have root_ok: "links_ok idx ?b [?r]" by (simp add: links_ok_def)
    have "links_ok idx ?b ([?r] @ nx)"
      by (rule links_ok_append [OF root_ok, where a' = ?b])
        (use nx(2) other in \<open>auto dest!: sym [of "Some idx"]\<close>)
    then have lk: "links_ok idx (Suc idx + length s) lx" using nx(1) by simp
    have cross: "pd_id y \<noteq> pd_id z" if yz: "y \<in> set s" "z \<in> set lx" "pd_parent y = pd_parent z" for y z
    proof -
      from I have "links_ok idx (Suc idx) s" by simp
      from links_ok_nth [OF this yz(1)] obtain p where p: "pd_parent y = Some p" "p < ?b" by auto
      show ?thesis
      proof (cases "z = ?r")
        case True
        with yz(3) p have "pd_parent y = Some idx" by simp
        with I yz(1) have "pd_id y \<in> set (map ?id ys)" by blast
        moreover have "pd_id z = ?id x" using True by simp
        ultimately show ?thesis using dist sp by auto
      next
        case False
        with yz(2) nx(1) have "z \<in> set nx" by simp
        from above [OF this] p yz(3) show ?thesis by auto
      qed
    qed
    have "links_ok idx (Suc idx) t"
      unfolding lx(2) by (rule links_ok_append [OF _ lk order_refl]) (use I cross in auto)
    moreover have "\<forall>y \<in> set t. pd_parent y = Some idx \<longrightarrow> pd_id y \<in> set (map ?id (ys @ [x]))"
      using I above unfolding lx(2) nx(1) by fastforce
    ultimately show "?I (ys @ [x]) t" by blast
  qed
  with new(3) show ?case by auto
qed

text \<open>Links of a whole list: a domain with a parent comes after it, and two children of one parent
  have different identifiers.\<close>

definition parent_links_ok :: "protection_domain list \<Rightarrow> bool" where
  "parent_links_ok pds \<longleftrightarrow>
     (\<forall>k p. k < length pds \<and> pd_parent (pds ! k) = Some p \<longrightarrow> p < k)
     \<and> (\<forall>k l p. k < l \<and> l < length pds \<and> pd_parent (pds ! k) = Some p \<and> pd_parent (pds ! l) = Some p
          \<longrightarrow> pd_id (pds ! k) \<noteq> pd_id (pds ! l))"

lemma parent_links_append:
  assumes "parent_links_ok xs" "pd_parent r = None" "links_ok (length xs) (Suc (length xs)) new"
  shows "parent_links_ok (xs @ r # new)"
proof -
  let ?n = "length xs"
  have new: "\<exists>p. pd_parent ((xs @ r # new) ! k) = Some p \<and> ?n \<le> p \<and> p < k"
    if "?n < k" "k < length (xs @ r # new)" for k
  proof -
    from that have "k - Suc ?n < length new" by simp
    with assms(3) obtain p where "pd_parent (new ! (k - Suc ?n)) = Some p" "?n \<le> p"
      "p < Suc ?n + (k - Suc ?n)" unfolding links_ok_def by blast
    with that show ?thesis by (auto simp: nth_append nth_Cons')
  qed
  have root: "pd_parent ((xs @ r # new) ! ?n) = None" using assms(2) by (simp add: nth_append)
  have 1: "p < k" if "k < length (xs @ r # new)" "pd_parent ((xs @ r # new) ! k) = Some p" for k p
  proof -
    consider "k < ?n" | "k = ?n" | "?n < k" by linarith
    then show ?thesis
    proof cases
      case 1
      then show ?thesis using that assms(1) by (simp add: parent_links_ok_def nth_append)
    next
      case 2
      then show ?thesis using that root by simp
    next
      case 3
      from new [OF 3 that(1)] that(2) show ?thesis by simp
    qed
  qed
  have 2: "pd_id ((xs @ r # new) ! k) \<noteq> pd_id ((xs @ r # new) ! l)"
    if kl: "k < l" "l < length (xs @ r # new)" "pd_parent ((xs @ r # new) ! k) = Some p"
      "pd_parent ((xs @ r # new) ! l) = Some p" for k l p
  proof -
    consider "l < ?n" | "?n < l" "k < ?n" | "?n < k" using kl(1,3,4) root
      by (metis linorder_neqE_nat option.distinct(1))
    then show ?thesis
    proof cases
      case 1
      then show ?thesis using kl assms(1) by (simp add: parent_links_ok_def nth_append)
    next
      case 2
      from new [OF 2(1) kl(2)] kl(4) have "?n \<le> p" by simp
      moreover have "p < k" using 1 [of k p] kl 2 by simp
      ultimately show ?thesis using 2 by simp
    next
      case 3
      then have "k - Suc ?n < l - Suc ?n" "l - Suc ?n < length new" using kl by simp_all
      moreover have "pd_parent (new ! (k - Suc ?n)) = pd_parent (new ! (l - Suc ?n))"
        using 3 kl by (simp add: nth_append nth_Cons')
      ultimately have "pd_id (new ! (k - Suc ?n)) \<noteq> pd_id (new ! (l - Suc ?n))"
        using assms(3) unfolding links_ok_def by (metis less_trans)
      then show ?thesis using 3 kl by (simp add: nth_append nth_Cons')
    qed
  qed
  from 1 2 show ?thesis unfolding parent_links_ok_def by blast
qed

lemma pd_flatten_links:
  assumes "pd_flatten ts = Inr pds"
  shows "parent_links_ok pds"
  using assms unfolding pd_flatten_def
proof (rule foldM_inv [where I = parent_links_ok])
  show "parent_links_ok []" by (simp add: parent_links_ok_def)
  fix s x t
  assume a: "parent_links_ok s" "bindr (assertr (pd_parent (tree_pd x) = None)) (\<lambda>_.
       bindr (pd_tree_to_list x (length s)) (\<lambda>l. Inr (s @ l))) = Inr t"
  then obtain l where l: "pd_parent (tree_pd x) = None" "pd_tree_to_list x (length s) = Inr l" "t = s @ l"
    by (auto simp: bindr_eq_Inr assertr_eq_Inr)
  from pd_tree_to_list_links [OF l(2)] obtain new where
    "l = tree_pd x # new" "links_ok (length s) (Suc (length s)) new" by blast
  with parent_links_append [OF a(1) l(1)] l(3) show "parent_links_ok t" by simp
qed

text \<open>C30: flattening keeps the domains in preorder and only fills in the parent links; every link
  points to an earlier index of the final list, and two children of one parent have different
  identifiers.\<close>

theorem pd_flatten_spec:
  assumes "pd_flatten ts = Inr pds"
  shows "map unlinked pds = map unlinked (concat (map preorder ts)) \<and> parent_links_ok pds"
  using pd_flatten_preorder [OF assms] pd_flatten_links [OF assms] by blast

text \<open>A domain with only a name and an identifier, for the witnesses.\<close>

definition example_pd :: "string \<Rightarrow> u64 option \<Rightarrow> protection_domain" where
  "example_pd name i =
     \<lparr>pd_id = i, pd_name = name, pd_priority = 0, pd_budget = 1000, pd_period = 1000,
      pd_passive = False, pd_stack_size = 0x2000, pd_smc = False, pd_cpu = 0,
      pd_program_image = ''a.elf'', pd_program_image_for_symbols = None, pd_fpu = True, pd_maps = [],
      pd_irqs = [], pd_ioports = [], pd_setvars = [], pd_cap_maps = [], pd_virtual_machine = None,
      pd_has_children = False, pd_parent = None, pd_setvar_id = None, pd_text_pos = Some (1, 1)\<rparr>"

lemma example_pd_simps [simp]:
  "pd_id (example_pd n i) = i" "pd_parent (example_pd n i) = None" "pd_name (example_pd n i) = n"
  "pd_virtual_machine (example_pd n i) = None" "pd_priority (example_pd n i) = 0"
  "pd_irqs (example_pd n i) = []"
  by (simp_all add: example_pd_def)

definition example_pd_tree :: pd_tree where
  "example_pd_tree = PdTree (example_pd ''a'' None)
       [PdTree (example_pd ''b'' (Some 0)) [PdTree (example_pd ''d'' (Some 0)) []],
        PdTree (example_pd ''c'' (Some 1)) []]"

lemma example_flatten: "is_ok (pd_flatten [example_pd_tree])"
  by code_simp

theorem pd_flatten_spec_witness:
  "\<exists>pds. pd_flatten [example_pd_tree] = Inr pds \<and> parent_links_ok pds"
  using example_flatten pd_flatten_spec [of "[example_pd_tree]"] by (auto simp: is_ok_iff)

end
