(* ===== verification/Variable_Store.thy ===== *)
theory Variable_Store
  imports Prelude
begin

text \<open>
  The interface between the code that sets variables of a program and the file that holds the program: variables
  that have a place, an operation that writes one, and what is read at a place.  What it takes for a series of writes to
  be read back is proved once here; the laws are discharged for the symbols of an ELF file in \<open>Symbols\<close>.
\<close>

locale variable_store =
  fixes place :: "'s \<Rightarrow> string \<Rightarrow> (u64 \<times> u64) option"
    and content :: "'s \<Rightarrow> u64 \<Rightarrow> u64 \<Rightarrow> 'd"
    and made_of :: "u8 list \<Rightarrow> 'd"
    and put :: "string \<Rightarrow> u8 list \<Rightarrow> 's \<Rightarrow> ('e, 's) res"
  assumes put_place: "put n bs s = Inr s' \<Longrightarrow> place s' = place s"
    and put_fits: "put n bs s = Inr s' \<Longrightarrow> \<exists>v k. place s n = Some (v, k) \<and> (of_nat (length bs) :: u64) \<le> k"
    and put_content: "put n bs s = Inr s' \<Longrightarrow> place s n = Some (v, k) \<Longrightarrow> length bs = unat k \<Longrightarrow>
      content s' v k = made_of bs"
    and put_elsewhere: "put n bs s = Inr s' \<Longrightarrow> place s n = Some (w, m) \<Longrightarrow>
      unat v + unat k \<le> unat w \<or> unat w + length bs \<le> unat v \<Longrightarrow> content s' v k = content s v k"
begin

definition put_all :: "'s \<Rightarrow> (string \<times> u8 list) list \<Rightarrow> ('e, 's) res" where
  "put_all = foldM (\<lambda>s (n, bs). put n bs s)"

definition apart :: "'s \<Rightarrow> string \<Rightarrow> string \<Rightarrow> bool" where
  "apart s n n' \<longleftrightarrow> (\<forall>v k v' k'. place s n = Some (v, k) \<longrightarrow> place s n' = Some (v', k') \<longrightarrow>
     unat v + unat k \<le> unat v' \<or> unat v' + unat k' \<le> unat v)"

lemma put_all_simps [simp]:
  "put_all s [] = Inr s" "put_all s ((n, bs) # ws) = bindr (put n bs s) (\<lambda>s. put_all s ws)"
  by (simp_all add: put_all_def)

lemma put_all_append: "put_all s (ws @ ws') = bindr (put_all s ws) (\<lambda>s. put_all s ws')"
  by (simp add: put_all_def foldM_append)

lemma put_all_place: "put_all s ws = Inr s' \<Longrightarrow> place s' = place s"
  unfolding put_all_def
  by (erule foldM_inv [where I = "\<lambda>t. place t = place s"]) (auto dest: put_place)

text \<open>A write that fits keeps within its variable, so that it leaves those apart from it alone.\<close>

lemma put_keeps:
  assumes "put n' bs s = Inr s'" "place s n = Some (v, k)" "apart s n n'" "length bs < 2 ^ 64"
  shows "content s' v k = content s v k"
proof -
  from put_fits [OF assms(1)] obtain w m where w: "place s n' = Some (w, m)" "(of_nat (length bs) :: u64) \<le> m" by blast
  from w(2) assms(4) have "length bs \<le> unat m" by (simp add: word_le_nat_alt unat_of_nat_small)
  moreover have "unat v + unat k \<le> unat w \<or> unat w + unat m \<le> unat v"
    using assms(2,3) w(1) by (auto simp: apart_def)
  ultimately show ?thesis by (intro put_elsewhere [OF assms(1) w(1)]) linarith
qed

lemma put_all_keeps:
  assumes "put_all s ws = Inr s'" "place s n = Some (v, k)"
    "\<forall>(n', bs) \<in> set ws. apart s n n' \<and> length bs < 2 ^ 64"
  shows "content s' v k = content s v k"
  using assms
proof (induction ws arbitrary: s)
  case (Cons w ws)
  obtain n' bs where w: "w = (n', bs)" by (cases w)
  with Cons.prems(1) obtain t where t: "put n' bs s = Inr t" "put_all t ws = Inr s'" by (auto simp: bindr_eq_Inr)
  note same = put_place [OF t(1)]
  have "content s' v k = content t v k"
    by (rule Cons.IH [OF t(2)]) (use Cons.prems(2,3) in \<open>auto simp: same apart_def\<close>)
  also have "\<dots> = content s v k"
    by (rule put_keeps [OF t(1) Cons.prems(2)]) (use Cons.prems(3) w in auto)
  finally show ?case .
qed simp

text \<open>The last write of a variable is what is read of it, when no later one touches it.\<close>

lemma put_all_content:
  assumes "put_all s (pre @ (n, bs) # post) = Inr s'" "place s n = Some (v, k)" "length bs = unat k"
    "\<forall>(n', b) \<in> set post. apart s n n' \<and> length b < 2 ^ 64"
  shows "content s' v k = made_of bs"
proof -
  from assms(1) obtain t t' where t: "put_all s pre = Inr t" "put n bs t = Inr t'" "put_all t' post = Inr s'"
    by (auto simp: put_all_append bindr_eq_Inr)
  note same = put_all_place [OF t(1)] put_place [OF t(2)]
  have "content t' v k = made_of bs" by (rule put_content [OF t(2)]) (use assms(2,3) same in auto)
  moreover have "content s' v k = content t' v k"
    by (rule put_all_keeps [OF t(3)]) (use assms(2,4) same in \<open>auto simp: apart_def\<close>)
  ultimately show ?thesis by simp
qed

end

end
