(* ===== verification/Symbols.thy ===== *)
theory Symbols
  imports Elf Util Sdf_Flatten Variable_Store
begin

unbundle bit_operations_syntax

text \<open>
  The variables that the tool sets in the program images, \<open>tool/microkit/src/symbols.rs\<close>: the tables of names
  and stacks in the monitor, and in every protection domain its name, its bit sets of channels, interrupts and
  I/O ports, and the symbols the description asks for.
\<close>

section \<open>Definitions\<close>

definition MAX_VMS :: nat where "MAX_VMS = 63"
definition PD_MAX_NAME_LENGTH :: nat where "PD_MAX_NAME_LENGTH = 64"
definition VM_MAX_NAME_LENGTH :: nat where "VM_MAX_NAME_LENGTH = 64"

datatype symbols_error =
    SetvarNotWordSize string string u64 u64
  | SetvarNoSymbol string string string elf_error

text \<open>\<open>elf.write_symbol(name, bytes).unwrap()\<close>.\<close>

definition set_symbol :: "string \<Rightarrow> u8 list \<Rightarrow> elf_file \<Rightarrow> ('e, elf_file) res" where
  "set_symbol name bytes elf = unwrap_res (write_symbol name bytes elf)"

definition vm_names_of :: "system_description \<Rightarrow> string list" where
  "vm_names_of sys = concat (map (\<lambda>pd. case pd_virtual_machine pd of
      Some vm \<Rightarrow> replicate (length (vm_vcpus vm)) (vm_name vm) | None \<Rightarrow> []) (sd_protection_domains sys))"

definition patch_monitor :: "config \<Rightarrow> system_description \<Rightarrow> elf_file \<Rightarrow> ('e, elf_file) res" where
  "patch_monitor cfg sys monitor_elf =
     (let pds = sd_protection_domains sys; vm_names = vm_names_of sys
      in bindr (set_symbol ''pd_names_len'' (le_bytes 8 (of_nat (length pds) :: u64)) monitor_elf) (\<lambda>elf.
         bindr (monitor_serialise_names (map (string_bytes \<circ> pd_name) pds) MAX_PDS PD_MAX_NAME_LENGTH) (\<lambda>names.
         bindr (set_symbol ''pd_names'' names elf) (\<lambda>elf.
         let vm_names_len = (case arch cfg of X86_64 \<Rightarrow> 0 | _ \<Rightarrow> length vm_names)
         in bindr (set_symbol ''vm_names_len'' (le_bytes 8 (of_nat vm_names_len :: u64)) elf) (\<lambda>elf.
            bindr (monitor_serialise_names (map string_bytes vm_names) MAX_VMS VM_MAX_NAME_LENGTH) (\<lambda>names.
            bindr (set_symbol ''vm_names'' names elf) (\<lambda>elf.
            bindr (mapM (\<lambda>pd. pd_stack_bottom cfg (pd_stack_size pd)) pds) (\<lambda>pd_stack_bottoms.
            bindr (monitor_serialise_u64_vec pd_stack_bottoms) (\<lambda>stacks.
              set_symbol ''pd_stack_bottom_addrs'' stacks elf)))))))))"

text \<open>The bits of one domain in the channels: those it may notify and those it may call.\<close>

definition end_bits :: "nat \<Rightarrow> u64 \<times> u64 \<Rightarrow> channel_end \<Rightarrow> u64 \<times> u64" where
  "end_bits pd_global_idx = (\<lambda>(notification_bits, pp_bits) e.
     if ce_pd e = pd_global_idx
     then (if ce_notify e then notification_bits OR shl 1 (ce_id e) else notification_bits,
           if ce_pp e then pp_bits OR shl 1 (ce_id e) else pp_bits)
     else (notification_bits, pp_bits))"

definition channel_bits :: "nat \<Rightarrow> channel list \<Rightarrow> u64 \<times> u64" where
  "channel_bits pd_global_idx channels =
     foldl (\<lambda>bits ch. end_bits pd_global_idx (end_bits pd_global_idx bits (end_a ch)) (end_b ch)) (0, 0) channels"

text \<open>\<open>mr_name_to_desc\<close>, where a later region of the same name replaces an earlier one, and the value of one
  symbol to set.\<close>

definition mr_name_to_desc :: "system_description \<Rightarrow> string \<Rightarrow> sys_memory_region option" where
  "mr_name_to_desc sys = foldl (\<lambda>m mr. m(smr_name mr \<mapsto> mr)) Map.empty (sd_memory_regions sys)"

definition index_mr :: "(string \<Rightarrow> sys_memory_region option) \<Rightarrow> string \<Rightarrow> ('e, sys_memory_region) res" where
  "index_mr mrs name = (case mrs name of Some mr \<Rightarrow> Inr mr | None \<Rightarrow> Inl (Panic IndexOutOfBounds))"

fun setvar_data :: "(string \<Rightarrow> sys_memory_region option) \<Rightarrow> sys_set_var_kind \<Rightarrow> ('e, u64) res" where
  "setvar_data mrs (SvSize mr) = bindr (index_mr mrs mr) (\<lambda>mr. Inr (smr_size mr))"
| "setvar_data mrs (SvVaddr address) = Inr address"
| "setvar_data mrs (SvPaddr region) = bindr (index_mr mrs region) (\<lambda>mr.
     Inr (case smr_paddr mr of Some paddr \<Rightarrow> paddr | None \<Rightarrow> 0))"
| "setvar_data mrs (SvId i) = Inr i"
| "setvar_data mrs (SvX86IoPortAddr address) = Inr address"
| "setvar_data mrs (SvPrefillSize mr) = bindr (index_mr mrs mr) (\<lambda>mr.
     bindr (unwrapr (smr_prefill_bytes mr)) (\<lambda>bytes. Inr (of_nat (length bytes))))"

definition setvar_symbol ::
    "config \<Rightarrow> (string \<Rightarrow> sys_memory_region option) \<Rightarrow> protection_domain \<Rightarrow> elf_file \<Rightarrow> sys_set_var
     \<Rightarrow> (symbols_error, string \<times> u64) res" where
  "setvar_symbol cfg mrs pd elf setvar = (case find_symbol elf (sv_symbol setvar) of
      Inr (_, sym_size) \<Rightarrow>
        let expected_symbol_size = word_size cfg div 8
        in if sym_size \<noteq> expected_symbol_size
           then Inl (Err (SetvarNotWordSize (sv_symbol setvar) (pd_name pd) sym_size expected_symbol_size))
           else bindr (setvar_data mrs (sv_kind setvar)) (\<lambda>data. Inr (sv_symbol setvar, data))
    | Inl (Err err) \<Rightarrow> Inl (Err (SetvarNoSymbol (sv_symbol setvar) (pd_name pd) (pd_program_image pd) err))
    | Inl (Panic p) \<Rightarrow> Inl (Panic p))"

definition pd_fixed_symbols :: "system_description \<Rightarrow> nat \<Rightarrow> protection_domain \<Rightarrow> (string \<times> u8 list) list" where
  "pd_fixed_symbols sys pd_global_idx pd =
     (let name = string_bytes (pd_name pd);
          name_length = min (length name) PD_MAX_NAME_LENGTH;
          (notification_bits, pp_bits) = channel_bits pd_global_idx (sd_channels sys)
      in [(''microkit_name'', take name_length name), (''microkit_passive'', [of_bool (pd_passive pd)]),
          (''microkit_irqs'', le_bytes 8 (irq_bits pd)), (''microkit_notifications'', le_bytes 8 notification_bits),
          (''microkit_pps'', le_bytes 8 pp_bits), (''microkit_ioports'', le_bytes 8 (ioport_bits pd))])"

definition set_symbols :: "elf_file \<Rightarrow> (string \<times> u8 list) list \<Rightarrow> ('e, elf_file) res" where
  "set_symbols = foldM (\<lambda>elf (name, bytes). set_symbol name bytes elf)"

definition patch_pd :: "config \<Rightarrow> system_description \<Rightarrow> elf_file list \<Rightarrow> nat \<times> protection_domain
    \<Rightarrow> (symbols_error, elf_file list) res" where
  "patch_pd cfg sys elfs = (\<lambda>(pd_global_idx, pd).
     bindr (nthr elfs pd_global_idx) (\<lambda>elf_obj.
     bindr (set_symbols elf_obj (pd_fixed_symbols sys pd_global_idx pd)) (\<lambda>elf_obj.
     bindr (mapM (setvar_symbol cfg (mr_name_to_desc sys) pd elf_obj) (pd_setvars pd)) (\<lambda>symbols_to_write.
     bindr (set_symbols elf_obj (map (\<lambda>(sym_name, value). (sym_name, le_bytes 8 value)) symbols_to_write)) (\<lambda>elf_obj.
       Inr (elfs[pd_global_idx := elf_obj]))))))"

definition patch_symbols ::
    "config \<Rightarrow> elf_file list \<Rightarrow> system_description \<Rightarrow> (symbols_error, elf_file list) res" where
  "patch_symbols cfg pd_elf_files sys =
     bindr (if pd_elf_files = [] then Inl (Panic UnwrapFailed) else Inr (last pd_elf_files)) (\<lambda>monitor_elf.
     bindr (patch_monitor cfg sys monitor_elf) (\<lambda>monitor_elf.
       foldM (patch_pd cfg sys) (pd_elf_files[length pd_elf_files - 1 := monitor_elf])
         (enumerate 0 (sd_protection_domains sys))))"

section \<open>Setting symbols\<close>

text \<open>What a program finds in one of its variables.\<close>

definition symbol_reads :: "elf_file \<Rightarrow> string \<Rightarrow> u8 list \<Rightarrow> bool" where
  "symbol_reads elf name bytes \<longleftrightarrow> (\<exists>v s. find_symbol elf name = Inr (v, s) \<and>
     get_data elf v s = (Inr (Some bytes) :: (elf_error, u8 list option) res))"

definition symbol_apart :: "elf_file \<Rightarrow> string \<Rightarrow> string \<Rightarrow> bool" where
  "symbol_apart elf name name' \<longleftrightarrow> (\<forall>v s v' s'. find_symbol elf name = Inr (v, s) \<longrightarrow> find_symbol elf name' = Inr (v', s') \<longrightarrow>
     unat v + unat s \<le> unat v' \<or> unat v' + unat s' \<le> unat v)"

lemma find_symbol_same: "symbols elf' = symbols elf \<Longrightarrow> find_symbol elf' = find_symbol elf"
  by (simp add: find_symbol_def fun_eq_iff)

lemma set_symbols_symbols:
  "set_symbols elf ws = (Inr elf' :: ('e, elf_file) res) \<Longrightarrow> symbols elf' = symbols elf"
  unfolding set_symbols_def
  by (erule foldM_inv [where I = "\<lambda>e. symbols e = symbols elf"])
    (auto simp: set_symbol_def unwrap_res_eq_Inr dest!: write_symbol_symbols)

lemma set_symbols_append:
  "set_symbols elf (ws @ ws') = (Inr elf' :: ('e, elf_file) res) \<longleftrightarrow>
     (\<exists>e. set_symbols elf ws = (Inr e :: ('e, elf_file) res) \<and> set_symbols e ws' = (Inr elf' :: ('e, elf_file) res))"
  by (simp add: set_symbols_def foldM_append bindr_eq_Inr)

text \<open>A write that fits keeps within the symbol.\<close>

lemma write_symbol_fits:
  "write_symbol name bytes elf = Inr elf' \<Longrightarrow> find_symbol elf name = Inr (v, s) \<Longrightarrow>
     (of_nat (length bytes) :: u64) \<le> s"
  by (auto simp: write_symbol_def bindr_eq_Inr dest!: write_in_segments_shape)

text \<open>The symbols of an ELF file are variables that can be set.\<close>

definition symbol_place :: "elf_file \<Rightarrow> string \<Rightarrow> (u64 \<times> u64) option" where
  "symbol_place elf name = (case find_symbol elf name of Inr p \<Rightarrow> Some p | Inl _ \<Rightarrow> None)"

lemma symbol_place_eq_Some: "symbol_place elf name = Some p \<longleftrightarrow> find_symbol elf name = Inr p"
  by (simp add: symbol_place_def split: sum.splits)

lemma set_symbol_eq_Inr: "set_symbol name bytes elf = (Inr elf' :: ('e, elf_file) res) \<longleftrightarrow> write_symbol name bytes elf = Inr elf'"
  by (simp add: set_symbol_def unwrap_res_eq_Inr)

interpretation vars: variable_store symbol_place "\<lambda>elf v s. get_data elf v s :: (elf_error, u8 list option) res"
  "\<lambda>bytes. Inr (Some bytes)" set_symbol
proof unfold_locales
  fix name bytes elf elf'
  assume "set_symbol name bytes elf = (Inr elf' :: ('e, elf_file) res)"
  then have w: "write_symbol name bytes elf = Inr elf'" by (simp add: set_symbol_eq_Inr)
  show "symbol_place elf' = symbol_place elf"
    using find_symbol_same [OF write_symbol_symbols [OF w]] by (simp add: symbol_place_def fun_eq_iff)
  from w obtain v s where "find_symbol elf name = Inr (v, s)" by (auto simp: write_symbol_def bindr_eq_Inr)
  with write_symbol_fits [OF w this] show "\<exists>v k. symbol_place elf name = Some (v, k) \<and> (of_nat (length bytes) :: u64) \<le> k"
    by (auto simp: symbol_place_eq_Some)
  show "get_data elf' v k = (Inr (Some bytes) :: (elf_error, u8 list option) res)"
    if "symbol_place elf name = Some (v, k)" "length bytes = unat k" for v k
    using write_symbol_get [OF w] that by (simp add: symbol_place_eq_Some)
  show "get_data elf' v k = (get_data elf v k :: (elf_error, u8 list option) res)"
    if "symbol_place elf name = Some (u, m)" "unat v + unat k \<le> unat u \<or> unat u + length bytes \<le> unat v" for u m v k
    using write_symbol_frame [OF w] that by (simp add: symbol_place_eq_Some)
qed

lemma set_symbols_put_all: "set_symbols = vars.put_all"
  by (simp add: set_symbols_def vars.put_all_def fun_eq_iff)

lemma vars_apart: "vars.apart elf name name' \<longleftrightarrow> symbol_apart elf name name'"
  by (simp add: vars.apart_def symbol_apart_def symbol_place_eq_Some)

lemma set_symbols_read:
  assumes "set_symbols elf ws = (Inr elf' :: ('e, elf_file) res)" "ws = pre @ (name, bytes) # post"
    and "find_symbol elf name = Inr (v, s)" "length bytes = unat s"
    and "\<forall>(name', b) \<in> set post. symbol_apart elf name name' \<and> length b < 2 ^ 64"
  shows "symbol_reads elf' name bytes"
proof -
  have "get_data elf' v s = (Inr (Some bytes) :: (elf_error, u8 list option) res)"
    using vars.put_all_content [OF assms(1) [unfolded set_symbols_put_all assms(2)], of v s] assms(3-5)
    by (simp add: symbol_place_eq_Some vars_apart)
  moreover have "find_symbol elf' name = Inr (v, s)"
    using assms(3) find_symbol_same [OF set_symbols_symbols [OF assms(1)]] by simp
  ultimately show ?thesis by (auto simp: symbol_reads_def)
qed

section \<open>Bit sets\<close>

lemma bit_shl_1: "bit (shl 1 n :: u64) c \<longleftrightarrow> unat n mod 64 = c"
proof -
  have "n AND 63 = take_bit 6 n" by (simp add: take_bit_eq_mask mask_eq_exp_minus_1)
  then have "unat (n AND 63) = take_bit 6 (unat n)" by (simp only: unsigned_take_bit_eq)
  then have k: "unat (n AND 63) = unat n mod 64" by (simp only: take_bit_eq_mod) simp
  have "unat n mod 64 < 64" by simp
  then show ?thesis unfolding shl_def k bit_push_bit_iff bit_1_iff by auto
qed

lemma end_bits_bit:
  "bit (fst (end_bits i bits e)) c \<longleftrightarrow> bit (fst bits) c \<or> ce_pd e = i \<and> ce_notify e \<and> unat (ce_id e) mod 64 = c"
  "bit (snd (end_bits i bits e)) c \<longleftrightarrow> bit (snd bits) c \<or> ce_pd e = i \<and> ce_pp e \<and> unat (ce_id e) mod 64 = c"
  by (simp_all add: end_bits_def bit_or_iff bit_shl_1 split: prod.split)

lemma channel_bits_bit:
  "bit (fst (channel_bits i chs)) c \<longleftrightarrow>
     (\<exists>ch \<in> set chs. \<exists>e \<in> {end_a ch, end_b ch}. ce_pd e = i \<and> ce_notify e \<and> unat (ce_id e) mod 64 = c)"
  "bit (snd (channel_bits i chs)) c \<longleftrightarrow>
     (\<exists>ch \<in> set chs. \<exists>e \<in> {end_a ch, end_b ch}. ce_pd e = i \<and> ce_pp e \<and> unat (ce_id e) mod 64 = c)"
proof -
  have "bit (fst (foldl (\<lambda>bits ch. end_bits i (end_bits i bits (end_a ch)) (end_b ch)) b chs)) c \<longleftrightarrow>
      bit (fst b) c \<or>
      (\<exists>ch \<in> set chs. \<exists>e \<in> {end_a ch, end_b ch}. ce_pd e = i \<and> ce_notify e \<and> unat (ce_id e) mod 64 = c)" for b
    by (induction chs arbitrary: b) (auto simp: end_bits_bit)
  then show "bit (fst (channel_bits i chs)) c \<longleftrightarrow>
     (\<exists>ch \<in> set chs. \<exists>e \<in> {end_a ch, end_b ch}. ce_pd e = i \<and> ce_notify e \<and> unat (ce_id e) mod 64 = c)"
    by (simp add: channel_bits_def)
  have "bit (snd (foldl (\<lambda>bits ch. end_bits i (end_bits i bits (end_a ch)) (end_b ch)) b chs)) c \<longleftrightarrow>
      bit (snd b) c \<or>
      (\<exists>ch \<in> set chs. \<exists>e \<in> {end_a ch, end_b ch}. ce_pd e = i \<and> ce_pp e \<and> unat (ce_id e) mod 64 = c)" for b
    by (induction chs arbitrary: b) (auto simp: end_bits_bit)
  then show "bit (snd (channel_bits i chs)) c \<longleftrightarrow>
     (\<exists>ch \<in> set chs. \<exists>e \<in> {end_a ch, end_b ch}. ce_pd e = i \<and> ce_pp e \<and> unat (ce_id e) mod 64 = c)"
    by (simp add: channel_bits_def)
qed

lemma irq_bits_bit: "bit (irq_bits pd) c \<longleftrightarrow> (\<exists>irq \<in> set (pd_irqs pd). unat (irq_id irq) mod 64 = c)"
proof -
  have "bit (foldl (\<lambda>irqs irq. irqs OR shl 1 (irq_id irq)) b xs) c \<longleftrightarrow>
      bit b c \<or> (\<exists>irq \<in> set xs. unat (irq_id irq) mod 64 = c)" for b xs
    by (induction xs arbitrary: b) (auto simp: bit_or_iff bit_shl_1)
  from this [of 0] show ?thesis by (simp add: irq_bits_def)
qed

section \<open>One program\<close>

definition pd_patched :: "config \<Rightarrow> system_description \<Rightarrow> nat \<Rightarrow> protection_domain \<Rightarrow> elf_file \<Rightarrow> elf_file \<Rightarrow> bool" where
  "pd_patched cfg sys i pd elf elf' \<longleftrightarrow> (\<exists>e vals.
     mapM (setvar_symbol cfg (mr_name_to_desc sys) pd e) (pd_setvars pd) = Inr vals
     \<and> symbols e = symbols elf
     \<and> set_symbols elf (pd_fixed_symbols sys i pd @ map (\<lambda>(n, x). (n, le_bytes 8 x)) vals)
         = (Inr elf' :: (symbols_error, elf_file) res))"

lemma patch_pd_patched:
  assumes "patch_pd cfg sys elfs (i, pd) = Inr elfs'"
  shows "i < length elfs \<and> (\<exists>elf'. pd_patched cfg sys i pd (elfs ! i) elf' \<and> elfs' = elfs[i := elf'])"
proof -
  from assms obtain e vals elf' where "i < length elfs"
    "set_symbols (elfs ! i) (pd_fixed_symbols sys i pd) = (Inr e :: (symbols_error, elf_file) res)"
    "mapM (setvar_symbol cfg (mr_name_to_desc sys) pd e) (pd_setvars pd) = Inr vals"
    "set_symbols e (map (\<lambda>(n, x). (n, le_bytes 8 x)) vals) = (Inr elf' :: (symbols_error, elf_file) res)"
    "elfs' = elfs[i := elf']"
    by (auto simp: patch_pd_def bindr_eq_Inr nthr_eq_Inr)
  then show ?thesis
    by (auto simp: pd_patched_def set_symbols_append dest: set_symbols_symbols)
qed

lemma patch_pds_patched:
  assumes "foldM (patch_pd cfg sys) elfs (enumerate k pds) = Inr elfs'"
  shows "length elfs' = length elfs \<and> (\<forall>i < length pds. pd_patched cfg sys (k + i) (pds ! i) (elfs ! (k + i)) (elfs' ! (k + i)))
     \<and> (\<forall>i. i < k \<or> k + length pds \<le> i \<longrightarrow> i < length elfs \<longrightarrow> elfs' ! i = elfs ! i)"
  using assms
proof (induction pds arbitrary: k elfs)
  case Nil
  then show ?case by simp
next
  case (Cons pd pds)
  from Cons.prems obtain elfs1 where one: "patch_pd cfg sys elfs (k, pd) = Inr elfs1"
    "foldM (patch_pd cfg sys) elfs1 (enumerate (Suc k) pds) = Inr elfs'"
    by (auto simp: bindr_eq_Inr)
  from patch_pd_patched [OF one(1)] obtain elf' where e: "k < length elfs" "pd_patched cfg sys k pd (elfs ! k) elf'"
    "elfs1 = elfs[k := elf']" by blast
  note IH = Cons.IH [OF one(2)]
  have "elfs' ! k = elf'" using IH e(1,3) by simp
  moreover have "pd_patched cfg sys (k + i) ((pd # pds) ! i) (elfs ! (k + i)) (elfs' ! (k + i))"
    if "i < length (pd # pds)" for i
    using that IH e \<open>elfs' ! k = elf'\<close> by (cases i) auto
  ultimately show ?case using IH e(3) by auto
qed

text \<open>The symbols set in the program of a domain, of which no two share memory.\<close>

definition pd_symbols :: "protection_domain \<Rightarrow> string list" where
  "pd_symbols pd = [''microkit_name'', ''microkit_passive'', ''microkit_irqs'', ''microkit_notifications'',
     ''microkit_pps'', ''microkit_ioports''] @ map sv_symbol (pd_setvars pd)"

definition symbol_sizes :: "elf_file \<Rightarrow> bool" where
  "symbol_sizes elf \<longleftrightarrow> (\<forall>(name, n) \<in> {(''microkit_name'', 64), (''microkit_passive'', 1), (''microkit_irqs'', 8),
      (''microkit_notifications'', 8), (''microkit_pps'', 8), (''microkit_ioports'', 8)}.
      \<exists>v. find_symbol elf name = Inr (v, n))"

definition clear_symbols :: "elf_file \<Rightarrow> protection_domain \<Rightarrow> bool" where
  "clear_symbols elf pd \<longleftrightarrow> symbol_sizes elf \<and> sorted_wrt (symbol_apart elf) (pd_symbols pd)"

lemma setvar_symbol_Inr:
  assumes "setvar_symbol cfg mrs pd e sv = Inr (n, x)"
  shows "n = sv_symbol sv \<and> setvar_data mrs (sv_kind sv) = (Inr x :: (symbols_error, u64) res)
    \<and> (\<exists>v. find_symbol e n = Inr (v, word_size cfg div 8))"
  using assms
  by (auto simp: setvar_symbol_def Let_def bindr_eq_Inr split: sum.splits prod.splits failure.splits if_splits)

lemma pd_patched_writes:
  assumes "pd_patched cfg sys i pd elf elf'" "word_size cfg = 64"
  obtains vals where "map fst vals = map sv_symbol (pd_setvars pd)"
    "list_all2 (\<lambda>sv (n, x). setvar_data (mr_name_to_desc sys) (sv_kind sv) = (Inr x :: (symbols_error, u64) res)
       \<and> (\<exists>v. find_symbol elf n = Inr (v, 8))) (pd_setvars pd) vals"
    "set_symbols elf (pd_fixed_symbols sys i pd @ map (\<lambda>(n, x). (n, le_bytes 8 x)) vals)
       = (Inr elf' :: (symbols_error, elf_file) res)"
proof -
  from assms(1) obtain e vals where v: "mapM (setvar_symbol cfg (mr_name_to_desc sys) pd e) (pd_setvars pd) = Inr vals"
    "symbols e = symbols elf" "set_symbols elf (pd_fixed_symbols sys i pd @ map (\<lambda>(n, x). (n, le_bytes 8 x)) vals)
         = (Inr elf' :: (symbols_error, elf_file) res)" by (auto simp: pd_patched_def)
  have all: "list_all2 (\<lambda>sv nx. setvar_symbol cfg (mr_name_to_desc sys) pd e sv = Inr nx) (pd_setvars pd) vals"
    using v(1) by (simp add: mapM_eq_Inr)
  have "map fst vals = map sv_symbol (pd_setvars pd)"
    using all by (induction rule: list_all2_induct) (auto dest: setvar_symbol_Inr)
  moreover have "list_all2 (\<lambda>sv (n, x). setvar_data (mr_name_to_desc sys) (sv_kind sv) = (Inr x :: (symbols_error, u64) res)
       \<and> (\<exists>v. find_symbol elf n = Inr (v, 8))) (pd_setvars pd) vals"
    using all by (rule list_all2_mono)
      (auto dest!: setvar_symbol_Inr simp: assms(2) find_symbol_same [OF v(2)] split: prod.splits)
  ultimately show thesis using v(3) by (rule that)
qed

lemma set_symbols_read_nth:
  assumes "set_symbols elf ws = (Inr elf' :: ('e, elf_file) res)" "sorted_wrt (symbol_apart elf) (map fst ws)"
    and "(name, bytes) \<in> set ws" "\<forall>(n, b) \<in> set ws. length b < 2 ^ 64"
    and "find_symbol elf name = Inr (v, s)" "length bytes = unat s"
  shows "symbol_reads elf' name bytes"
proof -
  from assms(3) obtain pre post where ws: "ws = pre @ (name, bytes) # post" by (meson split_list)
  show ?thesis
    by (rule set_symbols_read [OF assms(1) ws assms(5,6)])
      (use assms(2,4) in \<open>auto simp: ws sorted_wrt_append\<close>)
qed

lemma pd_fixed_symbols_eq:
  "pd_fixed_symbols sys i pd = [(''microkit_name'', take (min (length (pd_name pd)) 64) (string_bytes (pd_name pd))),
     (''microkit_passive'', [of_bool (pd_passive pd)]), (''microkit_irqs'', le_bytes 8 (irq_bits pd)),
     (''microkit_notifications'', le_bytes 8 (fst (channel_bits i (sd_channels sys)))),
     (''microkit_pps'', le_bytes 8 (snd (channel_bits i (sd_channels sys)))),
     (''microkit_ioports'', le_bytes 8 (ioport_bits pd))]"
  by (simp add: pd_fixed_symbols_def PD_MAX_NAME_LENGTH_def case_prod_unfold string_bytes_def Let_def)

lemma pd_patched_reads:
  assumes patched: "pd_patched cfg sys i pd elf elf'" and "word_size cfg = 64" "clear_symbols elf pd"
  shows "(name, bytes) \<in> set (pd_fixed_symbols sys i pd) \<Longrightarrow> find_symbol elf name = Inr (v, s) \<Longrightarrow> length bytes = unat s \<Longrightarrow>
      symbol_reads elf' name bytes"
    and "sv \<in> set (pd_setvars pd) \<Longrightarrow> \<exists>x. setvar_data (mr_name_to_desc sys) (sv_kind sv) = (Inr x :: (symbols_error, u64) res)
       \<and> symbol_reads elf' (sv_symbol sv) (le_bytes 8 x)"
proof -
  from pd_patched_writes [OF assms(1,2)] obtain vals where vals: "map fst vals = map sv_symbol (pd_setvars pd)"
    "list_all2 (\<lambda>sv (n, x). setvar_data (mr_name_to_desc sys) (sv_kind sv) = (Inr x :: (symbols_error, u64) res)
       \<and> (\<exists>v. find_symbol elf n = Inr (v, 8))) (pd_setvars pd) vals"
    and set: "set_symbols elf (pd_fixed_symbols sys i pd @ map (\<lambda>(n, x). (n, le_bytes 8 x)) vals)
       = (Inr elf' :: (symbols_error, elf_file) res)" .
  let ?ws = "pd_fixed_symbols sys i pd @ map (\<lambda>(n, x). (n, le_bytes 8 x)) vals"
  have "map fst ?ws = pd_symbols pd"
    using vals(1) by (simp add: pd_fixed_symbols_eq pd_symbols_def comp_def case_prod_unfold)
  then have apart: "sorted_wrt (symbol_apart elf) (map fst ?ws)"
    using assms(3) by (simp add: clear_symbols_def)
  have small: "\<forall>(n, b) \<in> set ?ws. length b < 2 ^ 64" by (auto simp: pd_fixed_symbols_eq min_def)
  note read = set_symbols_read_nth [OF set apart _ small]
  show "(name, bytes) \<in> set (pd_fixed_symbols sys i pd) \<Longrightarrow> find_symbol elf name = Inr (v, s) \<Longrightarrow> length bytes = unat s \<Longrightarrow>
      symbol_reads elf' name bytes" by (rule read) auto
  assume "sv \<in> set (pd_setvars pd)"
  then obtain j where j: "j < length (pd_setvars pd)" "sv = pd_setvars pd ! j" by (auto simp: in_set_conv_nth)
  obtain n x where nx: "vals ! j = (n, x)" by (cases "vals ! j")
  have len: "length vals = length (pd_setvars pd)" using vals(2) by (simp add: list_all2_lengthD)
  have "n = sv_symbol sv" using arg_cong [OF vals(1), of "\<lambda>l. l ! j"] j len nx by simp
  moreover have "(n, x) \<in> set vals" using j(1) len nx by (metis nth_mem)
  then have "(n, le_bytes 8 x) \<in> set ?ws" by force
  moreover from list_all2_nthD [OF vals(2) j(1)] obtain v where
    "setvar_data (mr_name_to_desc sys) (sv_kind sv) = (Inr x :: (symbols_error, u64) res)"
    and "find_symbol elf n = Inr (v, 8)" by (auto simp: nx j(2))
  ultimately show "\<exists>x. setvar_data (mr_name_to_desc sys) (sv_kind sv) = (Inr x :: (symbols_error, u64) res)
       \<and> symbol_reads elf' (sv_symbol sv) (le_bytes 8 x)"
    using read [of n "le_bytes 8 x"] by auto
qed

text \<open>The ends of channels at a domain.\<close>

definition channel_ends_at :: "system_description \<Rightarrow> nat \<Rightarrow> channel_end set" where
  "channel_ends_at sys i = {e \<in> (\<Union>ch \<in> set (sd_channels sys). {end_a ch, end_b ch}). ce_pd e = i}"

text \<open>C27: After patching, a program reads from its variables what the description gives it: the set of channels
  on which it may notify, of those it may call, and of its interrupts, each bit of which stands for one of its ends;
  whether it is passive; and for every symbol to set the size, address or identifier asked for.  Its name fills
  the variable to the last byte, with no terminator, when it has 64 characters or more.\<close>

theorem patch_symbols_values:
  assumes "patch_symbols cfg elfs sys = Inr elfs'" "length elfs = Suc (length (sd_protection_domains sys))"
    "word_size cfg = 64" "i < length (sd_protection_domains sys)"
    "clear_symbols (elfs ! i) (sd_protection_domains sys ! i)"
  defines "pd \<equiv> sd_protection_domains sys ! i" and "elf' \<equiv> elfs' ! i"
  shows "(\<exists>notifications pps irqs. symbol_reads elf' ''microkit_notifications'' (le_bytes 8 notifications)
       \<and> symbol_reads elf' ''microkit_pps'' (le_bytes 8 pps) \<and> symbol_reads elf' ''microkit_irqs'' (le_bytes 8 irqs)
       \<and> (\<forall>c. bit (notifications :: u64) c \<longleftrightarrow> (\<exists>e \<in> channel_ends_at sys i. ce_notify e \<and> unat (ce_id e) mod 64 = c))
       \<and> (\<forall>c. bit (pps :: u64) c \<longleftrightarrow> (\<exists>e \<in> channel_ends_at sys i. ce_pp e \<and> unat (ce_id e) mod 64 = c))
       \<and> (\<forall>c. bit (irqs :: u64) c \<longleftrightarrow> (\<exists>irq \<in> set (pd_irqs pd). unat (irq_id irq) mod 64 = c)))
    \<and> symbol_reads elf' ''microkit_passive'' [of_bool (pd_passive pd)]
    \<and> (\<forall>sv \<in> set (pd_setvars pd). \<exists>x. setvar_data (mr_name_to_desc sys) (sv_kind sv) = (Inr x :: (symbols_error, u64) res)
       \<and> symbol_reads elf' (sv_symbol sv) (le_bytes 8 x))
    \<and> (64 \<le> length (pd_name pd) \<longrightarrow> symbol_reads elf' ''microkit_name'' (take 64 (string_bytes (pd_name pd))))"
proof -
  from assms(1) obtain monitor where
    "foldM (patch_pd cfg sys) (elfs[length elfs - 1 := monitor]) (enumerate 0 (sd_protection_domains sys)) = Inr elfs'"
    by (auto simp: patch_symbols_def bindr_eq_Inr split: if_splits)
  from patch_pds_patched [OF this] have patched: "pd_patched cfg sys i pd (elfs ! i) elf'"
    using assms(2,4) by (simp add: pd_def elf'_def)
  note read = pd_patched_reads [OF this assms(3) assms(5) [folded pd_def]]
  have sizes: "symbol_sizes (elfs ! i)" using assms(5) by (simp add: clear_symbols_def)
  have words: "symbol_reads elf' ''microkit_notifications'' (le_bytes 8 (fst (channel_bits i (sd_channels sys))))"
    "symbol_reads elf' ''microkit_pps'' (le_bytes 8 (snd (channel_bits i (sd_channels sys))))"
    "symbol_reads elf' ''microkit_irqs'' (le_bytes 8 (irq_bits pd))"
    "symbol_reads elf' ''microkit_passive'' [of_bool (pd_passive pd)]"
    using sizes by (auto simp: symbol_sizes_def pd_fixed_symbols_eq intro!: read(1))
  have ends: "(\<exists>ch \<in> set (sd_channels sys). \<exists>e \<in> {end_a ch, end_b ch}. ce_pd e = i \<and> P e) \<longleftrightarrow> (\<exists>e \<in> channel_ends_at sys i. P e)" for P
    by (auto simp: channel_ends_at_def)
  have "symbol_reads elf' ''microkit_name'' (take 64 (string_bytes (pd_name pd)))" if "64 \<le> length (pd_name pd)"
  proof -
    from sizes obtain v where "find_symbol (elfs ! i) ''microkit_name'' = Inr (v, 64)" by (auto simp: symbol_sizes_def)
    note name = this
    show ?thesis by (rule read(1) [OF _ name]) (use that in \<open>simp_all add: pd_fixed_symbols_eq min_absorb2 string_bytes_def\<close>)
  qed
  then show ?thesis using words read(2) channel_bits_bit [of i "sd_channels sys", unfolded ends] irq_bits_bit [of pd] by blast
qed

section \<open>An example\<close>

text \<open>A file of one segment, in which all symbols lie.\<close>

definition one_segment :: "u64 \<Rightarrow> nat \<Rightarrow> elf_file \<Rightarrow> bool" where
  "one_segment base n elf \<longleftrightarrow> unat base + n < 2 ^ 64 \<and>
     (\<exists>seg d. segments elf = [seg] \<and> seg_data seg = RealData d \<and> length d = n \<and> virt_addr seg = base)"

lemma set_symbol_total:
  assumes "one_segment base n elf" "find_symbol elf name = Inr (v, s)" "unat base \<le> unat v" "unat v + unat s \<le> unat base + n"
    "length bytes \<le> unat s"
  shows "\<exists>elf'. set_symbol name bytes elf = (Inr elf' :: ('e, elf_file) res) \<and> one_segment base n elf' \<and> symbols elf' = symbols elf"
proof -
  from assms(1) obtain seg d where seg: "segments elf = [seg]" "seg_data seg = RealData d" "length d = n" "virt_addr seg = base"
    and big: "unat base + n < 2 ^ 64" by (auto simp: one_segment_def)
  have "unat (v + s) = unat v + unat s" "unat (base + of_nat n) = unat base + n" "unat (v - base) = unat v - unat base"
    using assms(3,4) big by (simp_all add: unat_word_ariths unat_of_nat_small unat_sub word_le_nat_alt)
  then have holds: "seg_holds v s seg" using assms(3,4) seg
    by (simp add: seg_holds_def mem_size_def word_le_nat_alt)
  have fits: "(of_nat (length bytes) :: u64) \<le> s"
    using assms(4,5) big by (simp add: word_le_nat_alt unat_of_nat_small)
  have "unat (v - base) + length bytes \<le> length d"
    using assms(3-5) seg(3) \<open>unat (v - base) = unat v - unat base\<close> by linarith
  then obtain d' where d': "write_at d (unat (v - base)) bytes = (Inr d' :: (elf_error, u8 list) res)"
    by (auto simp: write_at_def)
  then have "write_symbol name bytes elf = Inr (elf\<lparr>segments := [seg\<lparr>seg_data := RealData d'\<rparr>]\<rparr>)"
    using assms(2) seg holds fits by (simp add: write_symbol_def segment_data_def)
  then show ?thesis
    using seg(3,4) big write_at_length [OF d'] by (simp add: set_symbol_def one_segment_def)
qed

lemma set_symbols_total:
  assumes "one_segment base n elf"
    "\<forall>(name, bytes) \<in> set ws. \<exists>v s. find_symbol elf name = Inr (v, s) \<and> unat base \<le> unat v \<and> unat v + unat s \<le> unat base + n
       \<and> length bytes \<le> unat s"
  shows "\<exists>elf'. set_symbols elf ws = (Inr elf' :: ('e, elf_file) res) \<and> one_segment base n elf' \<and> symbols elf' = symbols elf"
  unfolding set_symbols_def
proof (rule foldM_total)
  fix e and x :: "string \<times> u8 list"
  assume e: "one_segment base n e \<and> symbols e = symbols elf" and x: "x \<in> set ws"
  obtain name bytes where nb: "x = (name, bytes)" by (cases x)
  from x assms(2) obtain v s where v: "find_symbol elf name = Inr (v, s)" "unat base \<le> unat v"
    "unat v + unat s \<le> unat base + n" "length bytes \<le> unat s" unfolding nb by auto
  have "find_symbol e name = Inr (v, s)" using e v(1) find_symbol_same [of e elf] by simp
  from set_symbol_total [OF conjunct1 [OF e] this v(2-4), where 'e = 'e] e
  show "\<exists>elf'. (case x of (name, bytes) \<Rightarrow> set_symbol name bytes e) = (Inr elf' :: ('e, elf_file) res)
      \<and> one_segment base n elf' \<and> symbols elf' = symbols elf"
    by (auto simp: nb)
qed (use assms(1) in simp)

text \<open>A domain that may notify on its channel 3 and asks for the size of a region, and the monitor.\<close>

definition example_program :: "u64 \<Rightarrow> nat \<Rightarrow> (string \<times> u64 \<times> u64) list \<Rightarrow> elf_file" where
  "example_program base n syms = (elf_new ''a.elf'' 64 base 243)\<lparr>
     segments := [\<lparr>seg_data = RealData (replicate n 0), phys_addr = base, virt_addr = base, loadable = True, attrs = 6\<rparr>],
     symbols := map_of (map (\<lambda>(name, v, s). (name, (\<lparr>st_name = 0, st_info = 0, st_other = 0, st_shndx = 0,
       st_value = v, st_size = s\<rparr>, False))) syms)\<rparr>"

definition example_monitor_program :: elf_file where
  "example_monitor_program = example_program 0x300000 0x3000
     [(''pd_names_len'', 0x300000, 8), (''vm_names_len'', 0x300008, 8), (''pd_stack_bottom_addrs'', 0x300100, 512),
      (''pd_names'', 0x301000, 4096), (''vm_names'', 0x302000, 4096)]"

definition example_pd_program :: elf_file where
  "example_pd_program = example_program 0x200000 0x100
     [(''microkit_name'', 0x200000, 64), (''microkit_passive'', 0x200040, 1), (''microkit_irqs'', 0x200048, 8),
      (''microkit_notifications'', 0x200050, 8), (''microkit_pps'', 0x200058, 8), (''microkit_ioports'', 0x200060, 8),
      (''buffer_size'', 0x200068, 8)]"

definition example_patch_system :: system_description where
  "example_patch_system = \<lparr>sd_protection_domains =
       [(example_pd ''client'' None)\<lparr>pd_setvars := [\<lparr>sv_symbol = ''buffer_size'', sv_kind = SvSize ''buffer''\<rparr>]\<rparr>],
     sd_memory_regions = [\<lparr>smr_name = ''buffer'', smr_size = 0x4000, smr_page_size_specified = False, smr_page_size = SmallPg,
       smr_page_count = 4, smr_phys_addr = Unspecified, smr_text_pos = None, smr_kind = MrUser, smr_prefill_bytes = None\<rparr>],
     sd_channels = [\<lparr>end_a = \<lparr>ce_pd = 0, ce_id = 3, ce_notify = True, ce_pp = False, ce_setvar_id = None\<rparr>,
       end_b = \<lparr>ce_pd = 1, ce_id = 0, ce_notify = True, ce_pp = False, ce_setvar_id = None\<rparr>\<rparr>]\<rparr>"

lemma one_segment_example: "unat base + n < 2 ^ 64 \<Longrightarrow> one_segment base n (example_program base n syms)"
  by (simp add: one_segment_def example_program_def)

lemma find_example: "find_symbol (example_program base n syms) name
    = (case map_of syms name of Some vs \<Rightarrow> Inr vs | None \<Rightarrow> Inl (Err (NoSymbol name)))"
  by (induction syms) (auto simp: find_symbol_def example_program_def)

lemma example_monitor_patched:
  "\<exists>elf. patch_monitor example_riscv_config example_patch_system example_monitor_program = (Inr elf :: ('e, elf_file) res)"
proof -
  obtain names where names: "monitor_serialise_names [string_bytes ''client''] MAX_PDS PD_MAX_NAME_LENGTH = (Inr names :: ('e, u8 list) res)"
    "length names = 4096"
    by (simp add: monitor_serialise_names_layout PD_MAX_NAME_LENGTH_def MAX_PDS_def length_name_cell)
  obtain none where none: "monitor_serialise_names [] MAX_VMS VM_MAX_NAME_LENGTH = (Inr none :: ('e, u8 list) res)"
    "length none = 4096"
    by (simp add: monitor_serialise_names_layout VM_MAX_NAME_LENGTH_def MAX_VMS_def)
  obtain stack where stack: "pd_stack_bottom example_riscv_config 0x2000 = (Inr stack :: ('e, u64) res)"
    by (simp add: pd_stack_bottom_def pd_stack_top_def pd_ipc_buffer_def user_vspace_top_def example_riscv_config_def)
  have "\<exists>elf. set_symbols example_monitor_program [(''pd_names_len'', le_bytes 8 (1 :: u64)), (''pd_names'', names),
      (''vm_names_len'', le_bytes 8 (0 :: u64)), (''vm_names'', none),
      (''pd_stack_bottom_addrs'', le_bytes 8 stack @ replicate 8 0)] = (Inr elf :: ('e, elf_file) res)
      \<and> one_segment 0x300000 0x3000 elf \<and> symbols elf = symbols example_monitor_program"
    by (rule set_symbols_total)
      (simp_all add: example_monitor_program_def one_segment_example names none find_example)
  moreover have "bindr m Inr = m" for m :: "('e, elf_file) res" by (cases m) simp_all
  moreover have "arch example_riscv_config = Riscv64" by (simp add: example_riscv_config_def)
  ultimately show ?thesis
    using names(1) none(1) stack
    by (auto simp: patch_monitor_def Let_def example_patch_system_def vm_names_of_def example_pd_def set_symbols_def
        monitor_serialise_u64_vec_layout)
qed

theorem patch_symbols_values_witness:
  "\<exists>elfs' notifications. patch_symbols example_riscv_config [example_pd_program, example_monitor_program] example_patch_system
      = Inr elfs'
    \<and> symbol_reads (elfs' ! 0) ''microkit_notifications'' (le_bytes 8 (notifications :: u64)) \<and> bit notifications 3
    \<and> symbol_reads (elfs' ! 0) ''buffer_size'' (le_bytes 8 (0x4000 :: u64))"
proof -
  define pd where pd: "pd = sd_protection_domains example_patch_system ! 0"
  obtain monitor where monitor: "patch_monitor example_riscv_config example_patch_system example_monitor_program
      = (Inr monitor :: (symbols_error, elf_file) res)" using example_monitor_patched by blast
  have w: "word_size example_riscv_config = 64" by (simp add: example_riscv_config_def)
  have pds: "sd_protection_domains example_patch_system = [pd]" by (simp add: pd example_patch_system_def)
  have sv: "pd_setvars pd = [\<lparr>sv_symbol = ''buffer_size'', sv_kind = SvSize ''buffer''\<rparr>]"
    by (simp add: pd example_patch_system_def)
  have mr: "setvar_data (mr_name_to_desc example_patch_system) (SvSize ''buffer'') = (Inr 0x4000 :: (symbols_error, u64) res)"
    by (simp add: example_patch_system_def mr_name_to_desc_def index_mr_def)
  have clear: "clear_symbols example_pd_program pd"
    by (simp add: clear_symbols_def symbol_sizes_def pd_symbols_def sv symbol_apart_def example_pd_program_def find_example)
  obtain e where e: "set_symbols example_pd_program (pd_fixed_symbols example_patch_system 0 pd) = (Inr e :: (symbols_error, elf_file) res)"
    "one_segment 0x200000 0x100 e" "symbols e = symbols example_pd_program"
  proof -
    have "one_segment 0x200000 0x100 example_pd_program" by (simp add: example_pd_program_def one_segment_example)
    moreover have "\<forall>(name, bytes) \<in> set (pd_fixed_symbols example_patch_system 0 pd). \<exists>v s.
        find_symbol example_pd_program name = Inr (v, s) \<and> unat (0x200000 :: u64) \<le> unat v
        \<and> unat v + unat s \<le> unat (0x200000 :: u64) + 0x100 \<and> length bytes \<le> unat s"
      by (simp add: pd_fixed_symbols_eq example_pd_program_def find_example string_bytes_def pd example_patch_system_def)
    ultimately show thesis using set_symbols_total that by blast
  qed
  have val: "mapM (setvar_symbol example_riscv_config (mr_name_to_desc example_patch_system) pd e) (pd_setvars pd)
      = Inr [(''buffer_size'', 0x4000)]"
    using mr by (simp add: sv setvar_symbol_def find_symbol_same [OF e(3)] w example_pd_program_def find_example)
  obtain e' where e': "set_symbols e [(''buffer_size'', le_bytes 8 (0x4000 :: u64))] = (Inr e' :: (symbols_error, elf_file) res)"
  proof -
    have "\<forall>(name, bytes) \<in> set [(''buffer_size'', le_bytes 8 (0x4000 :: u64))]. \<exists>v s. find_symbol e name = Inr (v, s)
        \<and> unat (0x200000 :: u64) \<le> unat v \<and> unat v + unat s \<le> unat (0x200000 :: u64) + 0x100 \<and> length bytes \<le> unat s"
      unfolding find_symbol_same [OF e(3)] by (simp add: example_pd_program_def find_example)
    then show thesis using set_symbols_total [OF e(2)] that by blast
  qed
  have run: "patch_symbols example_riscv_config [example_pd_program, example_monitor_program] example_patch_system
      = Inr [e', monitor]"
    using monitor e(1) val e' by (simp add: patch_symbols_def pds patch_pd_def)
  have "0 < length (sd_protection_domains example_patch_system)"
    "length [example_pd_program, example_monitor_program] = Suc (length (sd_protection_domains example_patch_system))"
    using pds by simp_all
  from patch_symbols_values [OF run this(2) w this(1)] clear [unfolded pd] obtain notifications pps irqs where
    n: "symbol_reads e' ''microkit_notifications'' (le_bytes 8 notifications)"
      "\<forall>c. bit (notifications :: u64) c \<longleftrightarrow> (\<exists>e \<in> channel_ends_at example_patch_system 0. ce_notify e \<and> unat (ce_id e) mod 64 = c)"
    and b: "\<forall>sv \<in> set (pd_setvars pd). \<exists>x. setvar_data (mr_name_to_desc example_patch_system) (sv_kind sv) = (Inr x :: (symbols_error, u64) res)
       \<and> symbol_reads e' (sv_symbol sv) (le_bytes 8 x)" by (auto simp: pd)
  have "bit notifications 3" unfolding n(2) [rule_format]
    by (rule bexI [of _ "end_a (hd (sd_channels example_patch_system))"]) (simp_all add: channel_ends_at_def example_patch_system_def)
  moreover have "symbol_reads e' ''buffer_size'' (le_bytes 8 (0x4000 :: u64))" using b mr by (simp add: sv)
  ultimately show ?thesis using run n(1) by auto
qed

end
