(* ===== verification/Loader_Tables.thy ===== *)
theory Loader_Tables
  imports Elf Sel4_Config
begin

unbundle bit_operations_syntax

text \<open>
  What the page tables of the boot loader have in common on both architectures: a table as its 4096 bytes,
  how \<open>tool/microkit/src/loader.rs\<close> writes entries into it, and how an entry is read back.
\<close>

section \<open>Tables\<close>

definition PAGE_TABLE_SIZE :: nat where "PAGE_TABLE_SIZE = 4096"

definition empty_table :: "u8 list" where "empty_table = replicate PAGE_TABLE_SIZE 0"

text \<open>\<open>table[8 * idx..8 * (idx + 1)].copy_from_slice(&entry.to_le_bytes())\<close>.\<close>

definition set_entry :: "u8 list \<Rightarrow> nat \<Rightarrow> u64 \<Rightarrow> ('e, u8 list) res" where
  "set_entry pt idx entry = write_at pt (8 * idx) (le_bytes 8 entry)"

text \<open>The macro \<open>grab_symbol!\<close>.\<close>

definition grab_symbol :: "elf_file \<Rightarrow> string \<Rightarrow> ('e, u64 \<times> u64) res" where
  "grab_symbol elf name = unwrap_res (find_symbol elf name)"

section \<open>Entries of a table\<close>

definition entry_at :: "u8 list \<Rightarrow> nat \<Rightarrow> u64" where
  "entry_at pt i = u64_at (8 * i) pt"

lemma length_empty_table [simp]: "length empty_table = 4096"
  by (simp add: empty_table_def PAGE_TABLE_SIZE_def)

lemma of_le_bytes_zeros: "of_le_bytes (replicate k 0) = 0"
  by (induction k) simp_all

lemma entry_empty [simp]: "entry_at empty_table i = 0"
  by (simp add: entry_at_def u64_at_def empty_table_def of_le_bytes_zeros)

lemma entry_slice:
  "length pt = 4096 \<Longrightarrow> i < 512 \<Longrightarrow> slice_at pt (8 * i) (8 * i + 8) = (Inr bs :: ('e, u8 list) res) \<Longrightarrow>
     entry_at pt i = of_le_bytes bs"
  by (simp add: entry_at_def u64_at_def res_simps)

lemma set_entry_run:
  assumes "length pt = 4096" "i < 512"
  shows "\<exists>pt'. set_entry pt i e = (Inr pt' :: ('e, u8 list) res) \<and> length pt' = 4096
     \<and> (\<forall>j < 512. entry_at pt' j = (if j = i then e else entry_at pt j))"
proof -
  obtain pt' where pt': "write_at pt (8 * i) (le_bytes 8 e) = (Inr pt' :: ('e, u8 list) res)"
    using assms by (simp add: write_at_def)
  have len: "length pt' = 4096" using write_at_length [OF pt'] assms(1) by simp
  have "slice_at pt' (8 * i) (8 * i + 8) = (Inr (le_bytes 8 e) :: ('e, u8 list) res)"
    using slice_write_same [OF pt'] by simp
  from entry_slice [OF len assms(2) this] have same: "entry_at pt' i = e" by (simp add: of_le_bytes_le_bytes)
  have other: "entry_at pt' j = entry_at pt j" if "j < 512" "j \<noteq> i" for j
  proof -
    have "slice_at pt' (8 * j) (8 * j + 8) = (slice_at pt (8 * j) (8 * j + 8) :: ('e, u8 list) res)"
      by (rule slice_write_disjoint [OF pt']) (use that in auto)
    with len assms(1) that show ?thesis by (simp add: slice_at_def entry_at_def u64_at_def)
  qed
  from pt' len same other show ?thesis by (auto simp: set_entry_def)
qed

text \<open>A loop that enters one value per index.\<close>

lemma foldM_entries:
  assumes "length pt = 4096" "b \<le> 512" "\<And>pt i. a \<le> i \<Longrightarrow> i < b \<Longrightarrow> f pt i = set_entry pt i (v i)"
  shows "\<exists>pt'. foldM f pt [a..<b] = (Inr pt' :: ('e, u8 list) res) \<and> length pt' = 4096
     \<and> (\<forall>j < 512. entry_at pt' j = (if a \<le> j \<and> j < b then v j else entry_at pt j))"
  using assms(2,3)
proof (induction b)
  case 0
  with assms(1) show ?case by simp
next
  case (Suc b)
  show ?case
  proof (cases "a \<le> b")
    case False
    with assms(1) show ?thesis by auto
  next
    case True
    from Suc obtain pt1 where pt1: "foldM f pt [a..<b] = (Inr pt1 :: ('e, u8 list) res)" "length pt1 = 4096"
      "\<forall>j < 512. entry_at pt1 j = (if a \<le> j \<and> j < b then v j else entry_at pt j)" by auto
    obtain pt2 where pt2: "set_entry pt1 b (v b) = (Inr pt2 :: ('e, u8 list) res)" "length pt2 = 4096"
      "\<forall>j < 512. entry_at pt2 j = (if j = b then v b else entry_at pt1 j)"
      using set_entry_run [OF pt1(2)] Suc.prems(1) by (metis Suc_le_lessD)
    have "foldM f pt [a..<Suc b] = (Inr pt2 :: ('e, u8 list) res)"
      using True pt1(1) pt2(1) Suc.prems(2) by (simp add: foldM_append)
    then show ?thesis using pt1(3) pt2(2,3) True by (intro exI [of _ pt2]) auto
  qed
qed

lemma foldM_entries_Inr:
  assumes "foldM (\<lambda>pt i. bindr (d i) (set_entry pt i)) pt [a..<b] = (Inr pt' :: ('e, u8 list) res)"
    "length pt = 4096" "b \<le> 512"
  shows "length pt' = 4096 \<and> (\<forall>i. a \<le> i \<and> i < b \<longrightarrow> d i = Inr (entry_at pt' i))
     \<and> (\<forall>j < 512. \<not> (a \<le> j \<and> j < b) \<longrightarrow> entry_at pt' j = entry_at pt j)"
  using assms(1,3)
proof (induction b arbitrary: pt')
  case 0
  with assms(2) show ?case by simp
next
  case (Suc b)
  show ?case
  proof (cases "a \<le> b")
    case False
    with Suc.prems assms(2) show ?thesis by auto
  next
    case True
    with Suc.prems obtain pt1 e where pt1: "foldM (\<lambda>pt i. bindr (d i) (set_entry pt i)) pt [a..<b] = (Inr pt1 :: ('e, u8 list) res)"
      "d b = Inr e" "set_entry pt1 b e = (Inr pt' :: ('e, u8 list) res)"
      by (auto simp: foldM_append res_simps)
    note IH = Suc.IH [OF pt1(1)]
    have len: "length pt1 = 4096" using IH Suc.prems(2) by simp
    have "length pt' = 4096 \<and> (\<forall>j < 512. entry_at pt' j = (if j = b then e else entry_at pt1 j))"
      using set_entry_run [OF len, of b e, where 'e = 'e] Suc.prems(2) pt1(3) by auto
    with IH pt1(2) Suc.prems(2) True show ?thesis by (auto simp: less_Suc_eq)
  qed
qed

lemma set_entry_Inr:
  assumes "set_entry pt i e = (Inr pt' :: ('e, u8 list) res)" "length pt = 4096" "i < 512"
  shows "length pt' = 4096 \<and> entry_at pt' i = e \<and> (\<forall>j < 512. j \<noteq> i \<longrightarrow> entry_at pt' j = entry_at pt j)"
  using set_entry_run [OF assms(2,3), of e, where 'e = 'e] assms(1,3) by auto

lemma bindr_total:
  "\<exists>x. m = Inr x \<Longrightarrow> (\<And>x. m = Inr x \<Longrightarrow> \<exists>y. f x = Inr y) \<Longrightarrow> \<exists>y. bindr m f = Inr y"
  by auto

lemma set_entry_total: "length pt = 4096 \<Longrightarrow> i < 512 \<Longrightarrow> \<exists>pt'. set_entry pt i e = (Inr pt' :: ('e, u8 list) res)"
  using set_entry_run by blast

section \<open>Bits\<close>

lemma mask_u64_eq: "unat n < 64 \<Longrightarrow> mask_u64 n = mask (unat n)"
  by (simp add: mask_u64_def shl_small mask_eq_exp_minus_1 push_bit_of_1)

lemma unat_take_bit_less: "n < 64 \<Longrightarrow> unat (take_bit n (x :: u64)) < 2 ^ n"
  by (simp add: unsigned_take_bit_eq)

lemma push_or_take: "push_bit n x OR take_bit n y = push_bit n x + take_bit n (y :: u64)"
proof -
  have "push_bit n x AND take_bit n y = 0"
    by (rule bit_word_eqI) (simp add: bit_and_iff bit_push_bit_iff bit_take_bit_iff)
  then show ?thesis by (simp add: disjunctive_add_eq_or)
qed

lemma split_at: "a = push_bit n (drop_bit n a) + take_bit n (a :: u64)"
  by (simp add: bits_ident)

lemma take_push [simp]: "take_bit n (push_bit n x) = (0 :: u64)"
  by (rule bit_word_eqI) (simp add: bit_take_bit_iff bit_push_bit_iff)

lemma take_push_take: "take_bit n (push_bit n x + take_bit n y) = take_bit n (y :: u64)"
  unfolding push_or_take [symmetric] by simp

lemma drop_push_take: "drop_bit n (take_bit n y) = (0 :: u64)"
  by (rule bit_word_eqI) (simp add: bit_take_bit_iff bit_drop_bit_eq)

lemma add_push: "a + push_bit n b = push_bit n (drop_bit n a + b) + take_bit n (a :: u64)"
  by (subst (1) split_at [of a n]) (simp add: push_bit_eq_mult algebra_simps)

lemma take_push_add: "take_bit n (a + push_bit n b) = take_bit n (a :: u64)"
  unfolding add_push [of a n b] by (rule take_push_take)

lemma diff_of_sums: "(a :: u64) = x + y \<Longrightarrow> b = x' + y' \<Longrightarrow> b - a = (x' - x) + (y' - y)"
  by simp

text \<open>The index of an address into a table whose entries cover \<open>2 ^ sh\<close> bytes, and two addresses in one
  such table.\<close>

definition va_index :: "nat \<Rightarrow> u64 \<Rightarrow> nat" where
  "va_index sh a = unat (take_bit 9 (drop_bit sh a))"

lemma va_index_less [simp]: "va_index sh a < 512"
  using unat_take_bit_less [of 9] by (simp add: va_index_def)

lemma va_index_div: "va_index sh a = unat a div 2 ^ sh mod 512"
  by (simp only: va_index_def unsigned_take_bit_eq unat_drop_bit_eq take_bit_eq_mod [where 'a = nat]
      drop_bit_eq_div [where 'a = nat]) simp

lemma unat_drop: "unat (drop_bit k (x :: u64)) = unat x div 2 ^ k"
  by (simp only: unat_drop_bit_eq drop_bit_eq_div [where 'a = nat])

lemma va_index_diff:
  assumes "drop_bit (sh + 9) a = drop_bit (sh + 9) (b :: u64)" "a \<le> b"
  shows "va_index sh a \<le> va_index sh b"
    "b - a = push_bit sh (of_nat (va_index sh b - va_index sh a)) + (take_bit sh b - take_bit sh a)"
proof -
  have d: "drop_bit sh x = push_bit 9 (drop_bit (sh + 9) x) + take_bit 9 (drop_bit sh x)" for x :: u64
    using split_at [of "drop_bit sh x" 9] by (simp add: drop_bit_drop_bit add.commute)
  have "unat a div 2 ^ sh div 512 = unat b div 2 ^ sh div 512"
    using arg_cong [OF assms(1), of unat]
    by (simp add: unat_drop div_mult2_eq power_add)
  moreover have "unat a div 2 ^ sh \<le> unat b div 2 ^ sh"
    using assms(2) by (simp add: word_le_nat_alt div_le_mono)
  ultimately show ge: "va_index sh a \<le> va_index sh b"
    unfolding va_index_div by (metis div_mult_mod_eq nat_add_left_cancel_le)
  have k: "of_nat (va_index sh b - va_index sh a) = take_bit 9 (drop_bit sh b) - take_bit 9 (drop_bit sh a)"
    using ge by (simp add: va_index_def of_nat_diff)
  have "drop_bit sh b - drop_bit sh a = of_nat (va_index sh b - va_index sh a)"
    unfolding k using d [of a] d [of b] assms(1) by (metis add_diff_cancel_left)
  then have "push_bit sh (drop_bit sh b) - push_bit sh (drop_bit sh a)
      = push_bit sh (of_nat (va_index sh b - va_index sh a))"
    by (simp add: push_bit_eq_mult flip: left_diff_distrib)
  then show "b - a = push_bit sh (of_nat (va_index sh b - va_index sh a)) + (take_bit sh b - take_bit sh a)"
    using diff_of_sums [OF split_at [of a sh] split_at [of b sh]] by simp
qed

end
