(* ===== verification/Loader_Aarch64.thy ===== *)
theory Loader_Aarch64
  imports Loader_Tables
begin

unbundle bit_operations_syntax

text \<open>
  The page tables of the boot loader for AArch64, which the tool writes into its image:
  \<open>aarch64_setup_pagetables\<close> and the module \<open>aarch64\<close> of \<open>tool/microkit/src/loader.rs\<close>.  The main result
  is that the processor's walk through them translates as the boot code needs.
\<close>

section \<open>AArch64\<close>

definition LVL0_BITS :: u64 where "LVL0_BITS = 9"
definition LVL1_BITS :: u64 where "LVL1_BITS = 9"
definition LVL2_BITS :: u64 where "LVL2_BITS = 9"
definition BLOCK_BITS_1GB :: u64 where "BLOCK_BITS_1GB = 30"
definition BLOCK_BITS_2MB :: u64 where "BLOCK_BITS_2MB = 21"

definition lvl0_index :: "u64 \<Rightarrow> nat" where
  "lvl0_index addr = unat (shr addr (BLOCK_BITS_2MB + LVL2_BITS + LVL1_BITS) AND mask_u64 LVL0_BITS)"

definition lvl1_index :: "u64 \<Rightarrow> nat" where
  "lvl1_index addr = unat (shr addr (BLOCK_BITS_2MB + LVL2_BITS) AND mask_u64 LVL1_BITS)"

definition lvl2_index :: "u64 \<Rightarrow> nat" where
  "lvl2_index addr = unat (shr addr BLOCK_BITS_2MB AND mask_u64 LVL2_BITS)"

definition MT_DEVICE_nGnRnE :: u64 where "MT_DEVICE_nGnRnE = 0"
definition MT_DEVICE_nGnRE :: u64 where "MT_DEVICE_nGnRE = 1"
definition MT_DEVICE_GRE :: u64 where "MT_DEVICE_GRE = 2"
definition MT_NORMAL_NC :: u64 where "MT_NORMAL_NC = 3"
definition MT_NORMAL :: u64 where "MT_NORMAL = 4"

definition DESCRIPTOR_TABLE :: u64 where "DESCRIPTOR_TABLE = 3"
definition DESCRIPTOR_PAGE :: u64 where "DESCRIPTOR_PAGE = 3"
definition DESCRIPTOR_BLOCK :: u64 where "DESCRIPTOR_BLOCK = 1"
definition DESCRIPTOR_INVALID :: u64 where "DESCRIPTOR_INVALID = 0"

definition NON_SHAREABLE :: u64 where "NON_SHAREABLE = 0"
definition OUTER_SHAREABLE :: u64 where "OUTER_SHAREABLE = 2"
definition INNER_SHAREABLE :: u64 where "INNER_SHAREABLE = 3"

definition block_descriptor :: "nat \<Rightarrow> u64 \<Rightarrow> u64 \<Rightarrow> ('e, u64) res" where
  "block_descriptor level addr attr_index =
     bindr (assertr (level \<noteq> 3)) (\<lambda>_.
     let upper_attributes = 0;
         shareability = (if attr_index = MT_NORMAL then INNER_SHAREABLE else OUTER_SHAREABLE);
         AP_KERNEL_RW = 0;
         lower_attributes = shl 1 10 OR shl AP_KERNEL_RW 6 OR shl shareability 8 OR shl attr_index 2
     in bindr (if level = 1 then Inr BLOCK_BITS_1GB else if level = 2 then Inr BLOCK_BITS_2MB
               else Inl (Panic ExplicitPanic)) (\<lambda>bits.
        let output_address = addr AND NOT (mask_u64 bits)
        in bindr (assertr (addr AND mask_u64 48 = addr)) (\<lambda>_.
             Inr (upper_attributes OR output_address OR lower_attributes OR DESCRIPTOR_BLOCK))))"

definition page_descriptor :: "u64 \<Rightarrow> u64 \<Rightarrow> ('e, u64) res" where
  "page_descriptor addr attr_index =
     (let upper_attributes = 0;
          shareability = (if attr_index = MT_NORMAL then INNER_SHAREABLE else OUTER_SHAREABLE);
          AP_KERNEL_RW = 0;
          lower_attributes = shl 1 10 OR shl AP_KERNEL_RW 6 OR shl shareability 8 OR shl attr_index 2;
          output_address = addr AND NOT (mask_u64 12)
      in bindr (assertr (addr AND mask_u64 48 = addr)) (\<lambda>_.
           Inr (upper_attributes OR output_address OR lower_attributes OR DESCRIPTOR_PAGE)))"

definition table_descriptor :: "u64 \<Rightarrow> ('e, u64) res" where
  "table_descriptor addr =
     (let attributes = 0
      in bindr (assertr (addr AND mask_u64 12 = 0)) (\<lambda>_.
         bindr (assertr (addr AND mask_u64 48 = addr)) (\<lambda>_.
         let next_level_table_address = addr
         in Inr (attributes OR next_level_table_address OR DESCRIPTOR_TABLE))))"

text \<open>The level 1 table of the loader: the UART, if there is one, and then the level 2 table.\<close>

definition uart_block :: "elf_file \<Rightarrow> u8 list \<Rightarrow> ('e, u8 list) res" where
  "uart_block elf pt = (case find_symbol elf ''uart_addr'' of
      Inr (uart_addr, uart_addr_size) \<Rightarrow>
        bindr (get_data elf uart_addr uart_addr_size) (\<lambda>data.
        bindr (unwrapr data) (\<lambda>data.
        bindr (slice_at data 0 8) (\<lambda>bytes.
        let uart_base = of_le_bytes bytes
        in bindr (block_descriptor 1 uart_base MT_DEVICE_nGnRnE) (\<lambda>pt_entry.
             set_entry pt (lvl1_index uart_base) pt_entry))))
    | Inl _ \<Rightarrow> Inr pt)"

definition loader_blocks :: "u64 \<Rightarrow> u64 \<Rightarrow> u8 list \<Rightarrow> ('e, u8 list) res" where
  "loader_blocks loader_start_addr loader_end_addr pt =
     foldM (\<lambda>pt i.
       let entry_idx = shl (of_nat (i - lvl2_index loader_start_addr)) BLOCK_BITS_2MB
       in bindr (block_descriptor 2 (loader_start_addr + entry_idx) MT_DEVICE_nGnRnE) (\<lambda>pt_entry.
            set_entry pt i pt_entry)) pt
       [lvl2_index loader_start_addr..<Suc (lvl2_index loader_end_addr)]"

definition release_block :: "elf_file \<Rightarrow> u64 \<Rightarrow> u8 list \<Rightarrow> ('e, u8 list) res" where
  "release_block elf loader_start_addr pt = (case find_symbol elf ''cpus_release_addr'' of
      Inr _ \<Rightarrow>
        let lvl2_idx = lvl2_index 0
        in bindr (assertr (lvl2_index loader_start_addr \<noteq> lvl2_idx)) (\<lambda>_.
           bindr (assertr (lvl1_index loader_start_addr = lvl1_index 0)) (\<lambda>_.
           bindr (block_descriptor 2 (of_nat lvl2_idx) MT_DEVICE_nGnRnE) (\<lambda>pt_entry.
             set_entry pt lvl2_idx pt_entry)))
    | Inl _ \<Rightarrow> Inr pt)"

definition kernel_blocks :: "u64 \<Rightarrow> u64 \<Rightarrow> u8 list \<Rightarrow> ('e, u8 list) res" where
  "kernel_blocks first_vaddr first_paddr pt =
     foldM (\<lambda>pt i.
       let entry_idx = shl (of_nat (i - lvl2_index first_vaddr)) BLOCK_BITS_2MB
       in bindr (block_descriptor 2 (first_paddr + entry_idx) MT_NORMAL) (\<lambda>pt_entry.
            set_entry pt i pt_entry)) pt
       [lvl2_index first_vaddr..<512]"

definition aarch64_setup_pagetables :: "elf_file \<Rightarrow> u64 \<Rightarrow> u64 \<Rightarrow> ('e, (u64 \<times> u64 \<times> u8 list) list) res" where
  "aarch64_setup_pagetables elf first_vaddr first_paddr =
     bindr (grab_symbol elf ''boot_lvl1_lower'') (\<lambda>(boot_lvl1_lower_addr, boot_lvl1_lower_size).
     bindr (grab_symbol elf ''boot_lvl1_upper'') (\<lambda>(boot_lvl1_upper_addr, boot_lvl1_upper_size).
     bindr (grab_symbol elf ''boot_lvl2_upper'') (\<lambda>(boot_lvl2_upper_addr, boot_lvl2_upper_size).
     bindr (grab_symbol elf ''boot_lvl0_lower'') (\<lambda>(boot_lvl0_lower_addr, boot_lvl0_lower_size).
     bindr (grab_symbol elf ''boot_lvl0_upper'') (\<lambda>(boot_lvl0_upper_addr, boot_lvl0_upper_size).
     bindr (grab_symbol elf ''boot_lvl2_lower'') (\<lambda>(boot_lvl2_lower_addr, boot_lvl2_lower_size).
     bindr (grab_symbol elf ''_loader_start'') (\<lambda>(loader_start_addr, _).
     bindr (grab_symbol elf ''_loader_end'') (\<lambda>(loader_end_addr, _).
     bindr (if lvl1_index loader_start_addr \<noteq> lvl1_index loader_end_addr then Inl (Panic ExplicitPanic) else Inr ()) (\<lambda>_.
     bindr (table_descriptor boot_lvl1_lower_addr) (\<lambda>pt_entry.
     bindr (set_entry empty_table 0 pt_entry) (\<lambda>boot_lvl0_lower.
     bindr (uart_block elf empty_table) (\<lambda>boot_lvl1_lower.
     bindr (table_descriptor boot_lvl2_lower_addr) (\<lambda>pt_entry.
     bindr (set_entry boot_lvl1_lower (lvl1_index loader_start_addr) pt_entry) (\<lambda>boot_lvl1_lower.
     bindr (loader_blocks loader_start_addr loader_end_addr empty_table) (\<lambda>boot_lvl2_lower.
     bindr (release_block elf loader_start_addr boot_lvl2_lower) (\<lambda>boot_lvl2_lower.
     bindr (table_descriptor boot_lvl1_upper_addr) (\<lambda>pt_entry.
     bindr (set_entry boot_lvl0_lower (lvl0_index first_vaddr) pt_entry) (\<lambda>boot_lvl0_lower.
     bindr (set_entry empty_table (lvl0_index first_vaddr) pt_entry) (\<lambda>boot_lvl0_upper.
     bindr (table_descriptor boot_lvl2_upper_addr) (\<lambda>pt_entry.
     bindr (set_entry empty_table (lvl1_index first_vaddr) pt_entry) (\<lambda>boot_lvl1_upper.
     bindr (kernel_blocks first_vaddr first_paddr empty_table) (\<lambda>boot_lvl2_upper.
       Inr [(boot_lvl0_lower_addr, boot_lvl0_lower_size, boot_lvl0_lower),
            (boot_lvl1_lower_addr, boot_lvl1_lower_size, boot_lvl1_lower),
            (boot_lvl0_upper_addr, boot_lvl0_upper_size, boot_lvl0_upper),
            (boot_lvl1_upper_addr, boot_lvl1_upper_size, boot_lvl1_upper),
            (boot_lvl2_upper_addr, boot_lvl2_upper_size, boot_lvl2_upper),
            (boot_lvl2_lower_addr, boot_lvl2_lower_size, boot_lvl2_lower)]))))))))))))))))))))))"

text \<open>The indices, as fields of the address.\<close>

lemma lvl_indices:
  "lvl0_index = va_index 39" "lvl1_index = va_index 30" "lvl2_index = va_index 21"
  by (simp_all add: fun_eq_iff va_index_def lvl0_index_def lvl1_index_def lvl2_index_def LVL0_BITS_def LVL1_BITS_def
      LVL2_BITS_def BLOCK_BITS_2MB_def shr_small mask_u64_eq flip: take_bit_eq_mask)

lemma lvl_index_less: "lvl0_index a < 512" "lvl1_index a < 512" "lvl2_index a < 512"
  by (simp_all add: lvl_indices)

lemma lvl_index_0: "lvl1_index 0 = 0" "lvl2_index 0 = 0"
  by (simp_all add: lvl_indices va_index_def)

lemma lvl2_index_diff:
  assumes "drop_bit 30 a = drop_bit 30 (b :: u64)" "a \<le> b"
  shows "lvl2_index a \<le> lvl2_index b"
    "b - a = push_bit 21 (of_nat (lvl2_index b - lvl2_index a)) + (take_bit 21 b - take_bit 21 a)"
  using va_index_diff [of 21 a b] assms unfolding lvl_indices by simp_all

section \<open>The walk of an AArch64 processor\<close>

text \<open>The translation of an address by the tables in memory, for the 4 KiB granule and 48 bits of address:
  the shifts are those of levels 0, 1 and 2, and blocks are allowed below level 0.  Pages of level 3 do
  not occur here.\<close>

fun a64_walk :: "(u64 \<Rightarrow> u8 list option) \<Rightarrow> u64 \<Rightarrow> nat list \<Rightarrow> u64 \<Rightarrow> u64 option" where
  "a64_walk mem table [] va = None"
| "a64_walk mem table (sh # shs) va = (case mem table of
      None \<Rightarrow> None
    | Some pt \<Rightarrow>
        let e = entry_at pt (va_index sh va)
        in if take_bit 2 e = 3 then a64_walk mem (take_bit 48 e AND NOT (mask 12)) shs va
           else if take_bit 2 e = 1 \<and> sh \<noteq> 39
           then Some ((take_bit 48 e AND NOT (mask sh)) OR take_bit sh va)
           else None)"

abbreviation a64_translate :: "(u64 \<times> u64 \<times> u8 list) list \<Rightarrow> u64 \<Rightarrow> u64 \<Rightarrow> u64 option" where
  "a64_translate tables root va \<equiv> a64_walk (map_of (map (\<lambda>(a, _, pt). (a, pt)) tables)) root [39, 30, 21] va"

lemma table_descriptor_Inr:
  assumes "table_descriptor a = (Inr d :: ('e, u64) res)"
  shows "take_bit 2 d = 3 \<and> take_bit 48 d AND NOT (mask 12) = a"
proof -
  define c :: u64 where "c = mask 2"
  have a: "a AND mask 12 = 0" "a AND mask 48 = a" "d = a OR c"
    using assms by (auto simp: c_def table_descriptor_def Let_def res_simps mask_u64_eq DESCRIPTOR_TABLE_def mask_eq_exp_minus_1)
  have low: "12 \<le> n" if "bit a n" for n
    using arg_cong [OF a(1), of "\<lambda>w. bit w n"] that by (auto simp: bit_and_iff bit_mask_iff not_less)
  have high: "n < 48" if "bit a n" for n
    using arg_cong [OF a(2), of "\<lambda>w. bit w n"] that by (auto simp: bit_and_iff bit_mask_iff)
  have c: "bit c n \<longleftrightarrow> n < 2" for n by (auto simp: c_def bit_mask_iff)
  have "take_bit 2 d = c"
    unfolding a(3) by (rule bit_word_eqI) (auto simp: bit_take_bit_iff bit_or_iff c dest: low)
  moreover have "take_bit 48 d AND NOT (mask 12) = a"
    unfolding a(3) by (rule bit_word_eqI)
      (auto simp: bit_take_bit_iff bit_or_iff bit_and_iff bit_not_iff bit_mask_iff c dest: low high)
  ultimately show ?thesis by (simp add: c_def mask_eq_exp_minus_1)
qed

text \<open>A block of level 2 for memory or for a device.\<close>

lemma block_descriptor_Inr:
  assumes "block_descriptor 2 a attr = (Inr d :: ('e, u64) res)" "attr = MT_NORMAL \<or> attr = MT_DEVICE_nGnRnE"
  shows "take_bit 2 d = 1 \<and> take_bit 48 d AND NOT (mask 21) = push_bit 21 (drop_bit 21 a)"
proof -
  define c :: u64 where "c = (if attr = MT_NORMAL then 0x711 else 0x601)"
  have c: "c = 0x601 \<or> c = 0x711" and d: "a AND mask 48 = a" "d = (a AND NOT (mask 21)) OR c"
    using assms by (auto simp: c_def block_descriptor_def Let_def res_simps mask_u64_eq BLOCK_BITS_2MB_def MT_NORMAL_def
        MT_DEVICE_nGnRnE_def INNER_SHAREABLE_def OUTER_SHAREABLE_def DESCRIPTOR_BLOCK_def shl_small or.assoc)
  have high: "n < 48" if "bit a n" for n
    using arg_cong [OF d(1), of "\<lambda>w. bit w n"] that by (auto simp: bit_and_iff bit_mask_iff)
  have "take_bit 21 c = c" "take_bit 2 c = 1" using c by auto
  then have cb: "n < 21" if "bit c n" for n using that by (metis bit_take_bit_iff)
  have "take_bit 2 d = take_bit 2 c"
    unfolding d(2) by (rule bit_word_eqI) (auto simp: bit_take_bit_iff bit_or_iff bit_and_iff bit_not_iff bit_mask_iff)
  moreover have "take_bit 48 d AND NOT (mask 21) = push_bit 21 (drop_bit 21 a)"
    unfolding d(2) by (rule bit_word_eqI)
      (auto simp: bit_take_bit_iff bit_or_iff bit_and_iff bit_not_iff bit_mask_iff bit_push_bit_iff
         bit_drop_bit_eq dest: high cb)
  ultimately show ?thesis using \<open>take_bit 2 c = 1\<close> by simp
qed

text \<open>The walk, level by level.\<close>

lemma a64_step_table:
  assumes "mem table = Some pt" "entry_at pt (va_index sh va) = d"
    "table_descriptor a = (Inr d :: ('e, u64) res)"
  shows "a64_walk mem table (sh # shs) va = a64_walk mem a shs va"
  using table_descriptor_Inr [OF assms(3)] assms(1,2) by (simp add: Let_def)

lemma a64_step_block:
  assumes "mem table = Some pt" "entry_at pt (va_index 21 va) = d"
    "block_descriptor 2 a attr = (Inr d :: ('e, u64) res)" "attr = MT_NORMAL \<or> attr = MT_DEVICE_nGnRnE"
  shows "a64_walk mem table [21] va = Some (push_bit 21 (drop_bit 21 a) + take_bit 21 va)"
  using block_descriptor_Inr [OF assms(3,4)] assms(1,2) by (simp add: Let_def push_or_take)

text \<open>Large pages from a virtual address on, for the frames from a physical address on.\<close>

lemma large_pages:
  assumes "drop_bit 30 v0 = drop_bit 30 (va :: u64)" "v0 \<le> va" "take_bit 21 p0 = take_bit 21 v0"
  shows "push_bit 21 (drop_bit 21 (p0 + push_bit 21 (of_nat (lvl2_index va - lvl2_index v0)))) + take_bit 21 va
     = p0 + (va - v0)"
proof -
  let ?k = "push_bit 21 (of_nat (lvl2_index va - lvl2_index v0)) :: u64"
  have "p0 + ?k = push_bit 21 (drop_bit 21 (p0 + ?k)) + take_bit 21 v0"
    using split_at [of "p0 + ?k" 21] take_push_add [of 21 p0] assms(3) by simp
  then have X: "push_bit 21 (drop_bit 21 (p0 + ?k)) = p0 + ?k - take_bit 21 v0"
    by (metis add_diff_cancel_right')
  show ?thesis
    unfolding X lvl2_index_diff(2) [OF assms(1,2)] by simp
qed

lemma kernel_blocks_entry:
  assumes "kernel_blocks v0 p0 empty_table = (Inr pt :: ('e, u8 list) res)" "lvl2_index v0 \<le> i" "i < 512"
  shows "block_descriptor 2 (p0 + push_bit 21 (of_nat (i - lvl2_index v0))) MT_NORMAL = (Inr (entry_at pt i) :: ('e, u64) res)"
proof -
  have "unat BLOCK_BITS_2MB = 21" by (simp add: BLOCK_BITS_2MB_def)
  with foldM_entries_Inr [OF assms(1) [unfolded kernel_blocks_def Let_def], of] assms(2,3)
  show ?thesis by (simp add: shl_small)
qed

text \<open>The six tables, what each was built from, and where they lie.\<close>

lemma aarch64_setup_steps:
  assumes "aarch64_setup_pagetables elf v0 p0 = (Inr tables :: ('e, (u64 \<times> u64 \<times> u8 list) list) res)"
  shows "\<exists>a0l s0l t0l a1l s1l t1l a0u s0u t0u a1u s1u t1u a2u s2u t2u a2l s2l t2l d1l d2l d1u d2u ls le u r x y n m.
     tables = [(a0l, s0l, t0l), (a1l, s1l, t1l), (a0u, s0u, t0u), (a1u, s1u, t1u), (a2u, s2u, t2u), (a2l, s2l, t2l)]
     \<and> find_symbol elf ''boot_lvl0_lower'' = Inr (a0l, s0l) \<and> find_symbol elf ''boot_lvl0_upper'' = Inr (a0u, s0u)
     \<and> find_symbol elf ''_loader_start'' = Inr (ls, n) \<and> find_symbol elf ''_loader_end'' = Inr (le, m)
     \<and> lvl1_index ls = lvl1_index le
     \<and> table_descriptor a1l = (Inr d1l :: ('e, u64) res) \<and> table_descriptor a2l = (Inr d2l :: ('e, u64) res)
     \<and> table_descriptor a1u = (Inr d1u :: ('e, u64) res) \<and> table_descriptor a2u = (Inr d2u :: ('e, u64) res)
     \<and> set_entry empty_table 0 d1l = (Inr x :: ('e, u8 list) res)
     \<and> set_entry x (lvl0_index v0) d1u = (Inr t0l :: ('e, u8 list) res)
     \<and> uart_block elf empty_table = (Inr u :: ('e, u8 list) res)
     \<and> set_entry u (lvl1_index ls) d2l = (Inr t1l :: ('e, u8 list) res)
     \<and> loader_blocks ls le empty_table = (Inr y :: ('e, u8 list) res)
     \<and> release_block elf ls y = (Inr t2l :: ('e, u8 list) res)
     \<and> set_entry empty_table (lvl0_index v0) d1u = (Inr t0u :: ('e, u8 list) res)
     \<and> set_entry empty_table (lvl1_index v0) d2u = (Inr t1u :: ('e, u8 list) res)
     \<and> kernel_blocks v0 p0 empty_table = (Inr t2u :: ('e, u8 list) res)"
  using assms unfolding aarch64_setup_pagetables_def grab_symbol_def
  by (elim bindr_InrE) (auto simp: unwrap_res_eq_Inr split: prod.splits if_splits elim!: bindr_InrE)

lemma same_top_bits:
  assumes "drop_bit 30 a = drop_bit 30 (b :: u64)"
  shows "lvl0_index a = lvl0_index b" "lvl1_index a = lvl1_index b"
proof -
  have d: "drop_bit 39 a = drop_bit 9 (drop_bit 30 a)" "drop_bit 39 b = drop_bit 9 (drop_bit 30 b)"
    by (simp_all add: drop_bit_drop_bit)
  show "lvl0_index a = lvl0_index b" "lvl1_index a = lvl1_index b"
    by (simp_all only: lvl_indices va_index_def d assms)
qed

lemma kernel_window:
  assumes run: "aarch64_setup_pagetables elf v0 p0 = (Inr tables :: ('e, (u64 \<times> u64 \<times> u8 list) list) res)"
    and dist: "distinct (map fst tables)" and root: "find_symbol elf name = Inr (r, s)"
      "name = ''boot_lvl0_lower'' \<or> name = ''boot_lvl0_upper''"
    and va: "drop_bit 30 va = drop_bit 30 v0" "v0 \<le> va" "take_bit 21 p0 = take_bit 21 v0"
  shows "a64_translate tables r va = Some (p0 + (va - v0))"
proof -
  let ?mem = "map_of (map (\<lambda>(a, _, pt). (a, pt)) tables)"
  from aarch64_setup_steps [OF run] obtain a0l s0l t0l a1l s1l t1l a0u s0u t0u a1u s1u t1u a2u s2u t2u a2l s2l t2l d1u d2u x d1l
    where t: "tables = [(a0l, s0l, t0l), (a1l, s1l, t1l), (a0u, s0u, t0u), (a1u, s1u, t1u), (a2u, s2u, t2u), (a2l, s2l, t2l)]"
      "find_symbol elf ''boot_lvl0_lower'' = Inr (a0l, s0l)" "find_symbol elf ''boot_lvl0_upper'' = Inr (a0u, s0u)"
    and d: "table_descriptor a1u = (Inr d1u :: ('e, u64) res)" "table_descriptor a2u = (Inr d2u :: ('e, u64) res)"
    and e: "set_entry x (lvl0_index v0) d1u = (Inr t0l :: ('e, u8 list) res)"
      "set_entry empty_table (lvl0_index v0) d1u = (Inr t0u :: ('e, u8 list) res)"
      "set_entry empty_table (lvl1_index v0) d2u = (Inr t1u :: ('e, u8 list) res)"
    and x: "set_entry empty_table 0 d1l = (Inr x :: ('e, u8 list) res)"
    and k: "kernel_blocks v0 p0 empty_table = (Inr t2u :: ('e, u8 list) res)"
    by - ((erule exE | erule conjE)+, rule that)
  have mem: "?mem a0l = Some t0l" "?mem a0u = Some t0u" "?mem a1u = Some t1u" "?mem a2u = Some t2u"
    using dist t(1) by auto
  have r: "r = a0l \<or> r = a0u" using root t(2,3) by auto
  note idx = same_top_bits [OF va(1)]
  note ge = lvl2_index_diff(1) [OF va(1) [symmetric] va(2)]
  have "length x = 4096" using set_entry_Inr [OF x] by simp
  then have entries: "entry_at t0l (lvl0_index va) = d1u" "entry_at t0u (lvl0_index va) = d1u"
    "entry_at t1u (lvl1_index va) = d2u"
    unfolding idx using set_entry_Inr [OF e(1)] set_entry_Inr [OF e(2)] set_entry_Inr [OF e(3)] by (simp_all add: lvl_index_less)
  from r mem entries obtain pt where pt: "?mem r = Some pt" "entry_at pt (lvl0_index va) = d1u" by auto
  have "a64_translate tables r va = a64_walk ?mem a1u [30, 21] va"
    by (rule a64_step_table [where mem = ?mem, OF pt(1) _ d(1)]) (use pt(2) in \<open>simp add: lvl_indices\<close>)
  also have "\<dots> = a64_walk ?mem a2u [21] va"
    by (rule a64_step_table [where mem = ?mem, OF mem(3) _ d(2)]) (use entries(3) in \<open>simp add: lvl_indices\<close>)
  also have "\<dots> = Some (p0 + (va - v0))"
    using a64_step_block [where mem = ?mem, OF mem(4) _ kernel_blocks_entry [OF k ge lvl_index_less(3)], of va]
      large_pages [OF va(1) [symmetric] va(2,3)] by (simp add: lvl_indices)
  finally show ?thesis .
qed

lemma loader_blocks_entry:
  assumes "loader_blocks ls le empty_table = (Inr pt :: ('e, u8 list) res)" "lvl2_index ls \<le> i" "i \<le> lvl2_index le"
  shows "length pt = 4096
     \<and> block_descriptor 2 (ls + push_bit 21 (of_nat (i - lvl2_index ls))) MT_DEVICE_nGnRnE = (Inr (entry_at pt i) :: ('e, u64) res)"
proof -
  have "unat BLOCK_BITS_2MB = 21" by (simp add: BLOCK_BITS_2MB_def)
  with foldM_entries_Inr [OF assms(1) [unfolded loader_blocks_def Let_def]] assms(2,3) lvl_index_less(3) [of le]
  show ?thesis by (simp add: shl_small)
qed

lemma loader_blocks_length:
  assumes "loader_blocks ls le empty_table = (Inr pt :: ('e, u8 list) res)"
  shows "length pt = 4096"
  using foldM_entries_Inr [OF assms [unfolded loader_blocks_def Let_def]] lvl_index_less(3) [of le] by simp

lemma release_block_keeps:
  assumes "release_block elf ls pt = (Inr pt' :: ('e, u8 list) res)" "length pt = 4096" "lvl2_index ls \<le> j" "j < 512"
  shows "entry_at pt' j = entry_at pt j"
proof -
  note lvl_index_0(2)
  with assms(1,3) have "pt' = pt \<or> 0 < j \<and> (\<exists>e. set_entry pt 0 e = (Inr pt' :: ('e, u8 list) res))"
    by (auto simp: release_block_def Let_def res_simps split: sum.splits)
  with set_entry_Inr [of pt 0 _ pt', where 'e = 'e] assms(2,4) show ?thesis by fastforce
qed

lemma uart_block_length:
  assumes "uart_block elf empty_table = (Inr pt :: ('e, u8 list) res)"
  shows "length pt = 4096"
proof -
  from assms have "pt = empty_table \<or> (\<exists>i e. i < 512 \<and> set_entry empty_table i e = (Inr pt :: ('e, u8 list) res))"
    using lvl_index_less(2) by (auto simp: uart_block_def Let_def res_simps split: sum.splits)
  then show ?thesis using set_entry_Inr [of empty_table _ _ pt, where 'e = 'e] by auto
qed

text \<open>The loader lies in one gigabyte, among the first 512.\<close>

lemma loader_span:
  assumes "lvl1_index ls = lvl1_index le" "drop_bit 39 le = 0" "ls \<le> va" "va \<le> le"
  shows "drop_bit 30 ls = drop_bit 30 va" "drop_bit 30 va = drop_bit 30 le" "lvl0_index va = 0"
proof -
  note nat = unat_drop
  have idx: "lvl1_index x = unat x div 2 ^ 30 mod 512" for x by (simp only: lvl_indices va_index_div)
  have le39: "unat le < 2 ^ 39"
    using arg_cong [OF assms(2), of unat] unfolding nat by (simp add: div_eq_0_iff)
  have ord: "unat ls \<le> unat va" "unat va \<le> unat le" using assms(3,4) by (simp_all add: word_le_nat_alt)
  have small: "unat x div 2 ^ 30 < 512" if "unat x < 2 ^ 39" for x :: u64 using that by simp
  have "unat ls div 2 ^ 30 = unat le div 2 ^ 30"
    using assms(1) small [of ls] small [of le] le39 ord unfolding idx by simp
  moreover have "unat ls div 2 ^ 30 \<le> unat va div 2 ^ 30" "unat va div 2 ^ 30 \<le> unat le div 2 ^ 30"
    using ord by (simp_all add: div_le_mono)
  ultimately show "drop_bit 30 ls = drop_bit 30 va" "drop_bit 30 va = drop_bit 30 le"
    by (simp_all add: u64_eq_iff nat)
  have "unat va < 2 ^ 39" using ord le39 by simp
  then have "unat (drop_bit 39 va) = 0" unfolding nat by simp
  then have "drop_bit 39 va = 0" by (simp add: u64_eq_iff)
  then show "lvl0_index va = 0" by (simp add: lvl_indices va_index_def)
qed

lemma loader_window:
  assumes run: "aarch64_setup_pagetables elf v0 p0 = (Inr tables :: ('e, (u64 \<times> u64 \<times> u8 list) list) res)"
    and dist: "distinct (map fst tables)" and root: "find_symbol elf ''boot_lvl0_lower'' = Inr (r, s)"
    and ends: "find_symbol elf ''_loader_start'' = Inr (ls, n)" "find_symbol elf ''_loader_end'' = Inr (le, m)"
    and small: "drop_bit 39 le = 0" "lvl0_index v0 \<noteq> 0" and va: "ls \<le> va" "va \<le> le"
  shows "a64_translate tables r va = Some va"
proof -
  let ?mem = "map_of (map (\<lambda>(a, _, pt). (a, pt)) tables)"
  from aarch64_setup_steps [OF run] obtain a0l s0l t0l a1l s1l t1l a0u s0u t0u a1u s1u t1u a2u s2u t2u a2l s2l t2l d1l d2l d1u x u y ls' le' n' m'
    where t: "tables = [(a0l, s0l, t0l), (a1l, s1l, t1l), (a0u, s0u, t0u), (a1u, s1u, t1u), (a2u, s2u, t2u), (a2l, s2l, t2l)]"
      "find_symbol elf ''boot_lvl0_lower'' = Inr (a0l, s0l)" "find_symbol elf ''_loader_start'' = Inr (ls', n')"
      "find_symbol elf ''_loader_end'' = Inr (le', m')"
    and eq: "lvl1_index ls' = lvl1_index le'"
    and d: "table_descriptor a1l = (Inr d1l :: ('e, u64) res)" "table_descriptor a2l = (Inr d2l :: ('e, u64) res)"
    and e: "set_entry empty_table 0 d1l = (Inr x :: ('e, u8 list) res)"
      "set_entry x (lvl0_index v0) d1u = (Inr t0l :: ('e, u8 list) res)"
      "uart_block elf empty_table = (Inr u :: ('e, u8 list) res)"
      "set_entry u (lvl1_index ls') d2l = (Inr t1l :: ('e, u8 list) res)"
    and b: "loader_blocks ls' le' empty_table = (Inr y :: ('e, u8 list) res)"
      "release_block elf ls' y = (Inr t2l :: ('e, u8 list) res)"
    by - ((erule exE | erule conjE)+, rule that)
  have same: "ls' = ls" "le' = le" "a0l = r" using t(2-4) root ends by simp_all
  have mem: "?mem r = Some t0l" "?mem a1l = Some t1l" "?mem a2l = Some t2l" using dist t(1) same(3) by auto
  note up = loader_span [OF eq [unfolded same] small(1) va]
  note ge = lvl2_index_diff(1) [OF up(1) va(1)] lvl2_index_diff(1) [OF up(2) va(2)]
  have x: "length x = 4096" "entry_at x 0 = d1l" using set_entry_Inr [OF e(1)] by simp_all
  have e0: "entry_at t0l (lvl0_index va) = d1l"
    using set_entry_Inr [OF e(2) x(1) lvl_index_less(1)] x(2) up(3) small(2) by simp
  have e1: "entry_at t1l (lvl1_index va) = d2l"
    using set_entry_Inr [OF e(4) uart_block_length [OF e(3)] lvl_index_less(2)] same_top_bits(2) [OF up(1)] same(1) by simp
  note blk = loader_blocks_entry [OF b(1) [unfolded same] ge]
  have e2: "entry_at t2l (lvl2_index va) = entry_at y (lvl2_index va)"
    by (rule release_block_keeps [OF b(2)]) (use blk ge lvl_index_less(3) same in simp_all)
  have "a64_translate tables r va = a64_walk ?mem a1l [30, 21] va"
    by (rule a64_step_table [where mem = ?mem, OF mem(1) _ d(1)]) (use e0 in \<open>simp add: lvl_indices\<close>)
  also have "\<dots> = a64_walk ?mem a2l [21] va"
    by (rule a64_step_table [where mem = ?mem, OF mem(2) _ d(2)]) (use e1 in \<open>simp add: lvl_indices\<close>)
  also have "\<dots> = Some (push_bit 21 (drop_bit 21 (ls + push_bit 21 (of_nat (lvl2_index va - lvl2_index ls)))) + take_bit 21 va)"
    by (rule a64_step_block [where mem = ?mem, OF mem(3) _ conjunct2 [OF blk]]) (use e2 in \<open>simp_all add: lvl_indices\<close>)
  also have "\<dots> = Some va" using large_pages [OF up(1) va(1) refl] by simp
  finally show ?thesis .
qed

section \<open>Setting up the AArch64 tables\<close>

lemma below_48: "unat a < 2 ^ 48 \<Longrightarrow> a AND mask 48 = (a :: u64)"
  by (simp add: u64_eq_iff unsigned_take_bit_eq take_bit_nat_eq_self_iff flip: take_bit_eq_mask)

lemma block_descriptor_total:
  "unat a < 2 ^ 48 \<Longrightarrow> level = 1 \<or> level = 2 \<Longrightarrow> \<exists>d. block_descriptor level a attr = (Inr d :: ('e, u64) res)"
  by (auto simp: block_descriptor_def Let_def mask_u64_eq below_48)

lemma table_descriptor_total:
  "unat a < 2 ^ 48 \<Longrightarrow> take_bit 12 a = 0 \<Longrightarrow> \<exists>d. table_descriptor a = (Inr d :: ('e, u64) res)"
proof -
  have m: "mask_u64 12 = mask 12" "mask_u64 48 = mask 48" by (simp_all add: mask_u64_eq)
  assume "unat a < 2 ^ 48" "take_bit 12 a = 0"
  then have "a AND mask 12 = 0" "a AND mask 48 = a" by (simp_all only: below_48 take_bit_eq_mask)
  then show ?thesis unfolding table_descriptor_def Let_def m by simp
qed

lemma blocks_total:
  assumes "unat p + 2 ^ 30 \<le> 2 ^ 48" "b \<le> 512"
  shows "\<exists>pt. foldM (\<lambda>pt i. bindr (block_descriptor 2 (p + shl (of_nat (i - a)) BLOCK_BITS_2MB) attr) (set_entry pt i))
     empty_table [a..<b] = (Inr pt :: ('e, u8 list) res)"
proof -
  have "\<exists>d. block_descriptor 2 (p + shl (of_nat (i - a)) BLOCK_BITS_2MB) attr = (Inr d :: ('e, u64) res)" if "i < b" for i
  proof (rule block_descriptor_total)
    have k: "i - a < 512" using that assms(2) by simp
    have "unat (shl (of_nat (i - a)) BLOCK_BITS_2MB) = (i - a) * 2 ^ 21"
      using k by (simp add: BLOCK_BITS_2MB_def shl_small push_bit_eq_mult unat_word_ariths unat_of_nat_small)
    moreover have "(i - a) * 2 ^ 21 < 2 ^ 30" using k by simp
    ultimately show "unat (p + shl (of_nat (i - a)) BLOCK_BITS_2MB) < 2 ^ 48"
      using assms(1) by (subst unat_add_no_overflow) simp_all
  qed simp
  then obtain d where "\<And>i. i < b \<Longrightarrow> block_descriptor 2 (p + shl (of_nat (i - a)) BLOCK_BITS_2MB) attr = (Inr (d i) :: ('e, u64) res)"
    by metis
  note d = this
  have "\<exists>pt'. foldM (\<lambda>pt i. bindr (block_descriptor 2 (p + shl (of_nat (i - a)) BLOCK_BITS_2MB) attr) (set_entry pt i))
      empty_table [a..<b] = (Inr pt' :: ('e, u8 list) res) \<and> length pt' = 4096
      \<and> (\<forall>j < 512. entry_at pt' j = (if a \<le> j \<and> j < b then d j else entry_at empty_table j))"
    by (rule foldM_entries [OF length_empty_table assms(2)]) (simp only: d bindr_Inr)
  then show ?thesis by blast
qed

text \<open>What the loader's file must have: aligned tables at addresses of 48 bits, a loader in one gigabyte of
  the first 512, a UART address of 48 bits if there is one, and if there is the symbol of the
  Raspberry Pi, a loader that leaves the first large page free.\<close>

definition table_at :: "elf_file \<Rightarrow> string \<Rightarrow> u64 \<Rightarrow> bool" where
  "table_at elf name a \<longleftrightarrow> (\<exists>s. find_symbol elf name = Inr (a, s)) \<and> unat a < 2 ^ 48 \<and> take_bit 12 a = 0"

definition uart_ok :: "elf_file \<Rightarrow> bool" where
  "uart_ok elf \<longleftrightarrow> (case find_symbol elf ''uart_addr'' of
      Inl _ \<Rightarrow> True
    | Inr (a, s) \<Rightarrow> \<exists>d. get_data elf a s = (Inr (Some d) :: (string, u8 list option) res) \<and> 8 \<le> length d
        \<and> unat (of_le_bytes (take 8 d) :: u64) < 2 ^ 48)"

definition release_ok :: "elf_file \<Rightarrow> u64 \<Rightarrow> bool" where
  "release_ok elf ls \<longleftrightarrow> (case find_symbol elf ''cpus_release_addr'' of
      Inl _ \<Rightarrow> True | Inr _ \<Rightarrow> lvl2_index ls \<noteq> 0 \<and> lvl1_index ls = 0)"

definition a64_loader_ok :: "elf_file \<Rightarrow> u64 \<Rightarrow> u64 \<Rightarrow> bool" where
  "a64_loader_ok elf ls le \<longleftrightarrow>
     (\<exists>as. length as = 6 \<and> distinct as \<and> list_all2 (table_at elf)
        [''boot_lvl0_lower'', ''boot_lvl1_lower'', ''boot_lvl0_upper'', ''boot_lvl1_upper'', ''boot_lvl2_upper'',
         ''boot_lvl2_lower''] as)
     \<and> (\<exists>n. find_symbol elf ''_loader_start'' = Inr (ls, n)) \<and> (\<exists>n. find_symbol elf ''_loader_end'' = Inr (le, n))
     \<and> unat ls \<le> unat le \<and> unat le < 2 ^ 39 \<and> lvl1_index ls = lvl1_index le
     \<and> uart_ok elf \<and> release_ok elf ls"

lemma uart_block_total: "uart_ok elf \<Longrightarrow> \<exists>pt. uart_block elf empty_table = (Inr pt :: (string, u8 list) res)"
  unfolding uart_block_def uart_ok_def
  by (auto split: sum.splits simp: slice_at_def Let_def intro!: bindr_total block_descriptor_total set_entry_total lvl_index_less)

lemma release_block_total:
  "release_ok elf ls \<Longrightarrow> length pt = 4096 \<Longrightarrow> \<exists>pt'. release_block elf ls pt = (Inr pt' :: (string, u8 list) res)"
proof -
  assume a: "release_ok elf ls" "length pt = 4096"
  note z = lvl_index_0
  obtain d where "block_descriptor 2 (of_nat 0) MT_DEVICE_nGnRnE = (Inr d :: (string, u64) res)"
    using block_descriptor_total [of "of_nat 0" 2] by auto
  with a set_entry_total [OF a(2), of 0] show ?thesis
    by (auto simp: release_block_def release_ok_def z split: sum.splits)
qed

lemma aarch64_setup_total:
  assumes "a64_loader_ok elf ls le" "unat p0 + 2 ^ 30 \<le> 2 ^ 48"
  shows "\<exists>tables. aarch64_setup_pagetables elf v0 p0 = (Inr tables :: (string, (u64 \<times> u64 \<times> u8 list) list) res)
     \<and> distinct (map fst tables)"
proof -
  from assms(1) obtain as n m where as: "length as = 6" "distinct as" "list_all2 (table_at elf)
        [''boot_lvl0_lower'', ''boot_lvl1_lower'', ''boot_lvl0_upper'', ''boot_lvl1_upper'', ''boot_lvl2_upper'',
         ''boot_lvl2_lower''] as"
    and ends: "find_symbol elf ''_loader_start'' = Inr (ls, n)" "find_symbol elf ''_loader_end'' = Inr (le, m)"
    and ld: "unat ls \<le> unat le" "unat le < 2 ^ 39" "lvl1_index ls = lvl1_index le" "uart_ok elf" "release_ok elf ls"
    by (auto simp: a64_loader_ok_def)
  from as(3) obtain a0l a1l a0u a1u a2u a2l where aeq: "as = [a0l, a1l, a0u, a1u, a2u, a2l]"
    by (auto simp: list_all2_Cons1)
  from as(3) have t: "table_at elf ''boot_lvl0_lower'' a0l" "table_at elf ''boot_lvl1_lower'' a1l"
    "table_at elf ''boot_lvl0_upper'' a0u" "table_at elf ''boot_lvl1_upper'' a1u"
    "table_at elf ''boot_lvl2_upper'' a2u" "table_at elf ''boot_lvl2_lower'' a2l"
    unfolding aeq by simp_all
  then obtain s0l s1l s0u s1u s2u s2l where sy:
    "find_symbol elf ''boot_lvl0_lower'' = Inr (a0l, s0l)" "find_symbol elf ''boot_lvl1_lower'' = Inr (a1l, s1l)"
    "find_symbol elf ''boot_lvl0_upper'' = Inr (a0u, s0u)" "find_symbol elf ''boot_lvl1_upper'' = Inr (a1u, s1u)"
    "find_symbol elf ''boot_lvl2_upper'' = Inr (a2u, s2u)" "find_symbol elf ''boot_lvl2_lower'' = Inr (a2l, s2l)"
    unfolding table_at_def by blast
  have td: "\<exists>d. table_descriptor a = (Inr d :: (string, u64) res)" if "table_at elf nm a" for nm a
    using table_descriptor_total that by (auto simp: table_at_def)
  note totals = td [OF t(2)] td [OF t(4)] td [OF t(5)] td [OF t(6)]
  have sz: "unat ls + 2 ^ 30 \<le> 2 ^ 48" using ld(1,2) by simp
  have lb: "\<exists>pt. loader_blocks ls le empty_table = (Inr pt :: (string, u8 list) res)"
    unfolding loader_blocks_def Let_def by (rule blocks_total [OF sz]) (use lvl_index_less(3) [of le] in simp)
  have kb: "\<exists>pt. kernel_blocks v0 p0 empty_table = (Inr pt :: (string, u8 list) res)"
    unfolding kernel_blocks_def Let_def by (rule blocks_total [OF assms(2)]) simp
  have "\<exists>tables. aarch64_setup_pagetables elf v0 p0 = (Inr tables :: (string, (u64 \<times> u64 \<times> u8 list) list) res)"
    unfolding aarch64_setup_pagetables_def grab_symbol_def sy ends unwrap_res_simps bindr_Inr prod.case
    using ld(3) by (simp, intro bindr_total totals lb kb uart_block_total release_block_total set_entry_total ld(4,5))
      (auto simp: lvl_index_less dest: set_entry_Inr uart_block_length loader_blocks_length)
  moreover have "distinct (map fst tables)"
    if "aarch64_setup_pagetables elf v0 p0 = (Inr tables :: (string, (u64 \<times> u64 \<times> u8 list) list) res)" for tables
    using that as(2) unfolding aeq aarch64_setup_pagetables_def grab_symbol_def sy ends
    by (auto simp: unwrap_res_simps elim!: bindr_InrE split: if_splits)
  ultimately show ?thesis by blast
qed

text \<open>C25: The page tables that the tool writes for an AArch64 loader translate as the boot code needs, by the
  processor's own walk.  Through either root table, every address of the kernel window, from the kernel's
  first virtual address to the end of its gigabyte, goes to the physical address at the same offset from
  the kernel's first; and through the lower one every address of the loader goes to itself, unless the
  kernel window lies in the first 512 gigabytes.\<close>

theorem aarch64_tables_translate:
  assumes "a64_loader_ok elf ls le" "unat p0 + 2 ^ 30 \<le> 2 ^ 48" "take_bit 21 p0 = take_bit 21 v0"
    and "find_symbol elf ''boot_lvl0_lower'' = Inr (lower, s)" "find_symbol elf ''boot_lvl0_upper'' = Inr (upper, s')"
  shows "\<exists>tables. aarch64_setup_pagetables elf v0 p0 = (Inr tables :: (string, (u64 \<times> u64 \<times> u8 list) list) res)
     \<and> (\<forall>va. v0 \<le> va \<and> drop_bit 30 va = drop_bit 30 v0 \<longrightarrow>
          a64_translate tables lower va = Some (p0 + (va - v0)) \<and> a64_translate tables upper va = Some (p0 + (va - v0)))
     \<and> (drop_bit 39 v0 AND mask 9 \<noteq> 0 \<longrightarrow>
          (\<forall>va. ls \<le> va \<and> va \<le> le \<longrightarrow> a64_translate tables lower va = Some va))"
proof -
  obtain tables where t: "aarch64_setup_pagetables elf v0 p0 = (Inr tables :: (string, (u64 \<times> u64 \<times> u8 list) list) res)"
    "distinct (map fst tables)"
    using aarch64_setup_total [OF assms(1,2)] by blast
  from assms(1) obtain n m where ends: "find_symbol elf ''_loader_start'' = Inr (ls, n)"
    "find_symbol elf ''_loader_end'' = Inr (le, m)" and le: "unat le < 2 ^ 39"
    by (auto simp: a64_loader_ok_def)
  have "unat (drop_bit 39 le) = 0"
    using le by (simp only: unat_drop_bit_eq drop_bit_eq_div [where 'a = nat]) simp
  then have small: "drop_bit 39 le = 0" by (simp add: u64_eq_iff)
  have "lvl0_index v0 \<noteq> 0" if "drop_bit 39 v0 AND mask 9 \<noteq> 0"
    using that by (simp add: lvl_indices va_index_def take_bit_eq_mask u64_eq_iff)
  then show ?thesis
    using t kernel_window [OF t assms(4) _ _ _ assms(3)] kernel_window [OF t assms(5) _ _ _ assms(3)]
      loader_window [OF t assms(4) ends small]
    by blast
qed

text \<open>A loader at 1 GiB, with its tables before its code and without a UART, for the witness.\<close>

definition symbol_entry :: "u64 \<Rightarrow> u64 \<Rightarrow> elf_symbol64 \<times> bool" where
  "symbol_entry a n = (\<lparr>st_name = 0, st_info = 0, st_other = 0, st_shndx = 0, st_value = a, st_size = n\<rparr>, False)"

definition example_a64_loader :: elf_file where
  "example_a64_loader = (elf_new ''loader.elf'' 64 0x40000000 183)\<lparr>symbols := map_of
     [(''_loader_start'', symbol_entry 0x40000000 0), (''_loader_end'', symbol_entry 0x40020000 0),
      (''boot_lvl0_lower'', symbol_entry 0x40001000 0x1000), (''boot_lvl1_lower'', symbol_entry 0x40002000 0x1000),
      (''boot_lvl0_upper'', symbol_entry 0x40003000 0x1000), (''boot_lvl1_upper'', symbol_entry 0x40004000 0x1000),
      (''boot_lvl2_upper'', symbol_entry 0x40005000 0x1000), (''boot_lvl2_lower'', symbol_entry 0x40006000 0x1000)]\<rparr>"

theorem aarch64_tables_translate_witness:
  "\<exists>tables. aarch64_setup_pagetables example_a64_loader 0xffffff8040000000 0x60000000
       = (Inr tables :: (string, (u64 \<times> u64 \<times> u8 list) list) res)
     \<and> a64_translate tables 0x40003000 0xffffff8040212345 = Some 0x60212345
     \<and> a64_translate tables 0x40001000 0x40000008 = Some 0x40000008"
proof -
  have ok: "a64_loader_ok example_a64_loader 0x40000000 0x40020000"
    unfolding a64_loader_ok_def
    by (intro conjI exI [of _ "[0x40001000, 0x40002000, 0x40003000, 0x40004000, 0x40005000, 0x40006000]"])
      (simp_all add: example_a64_loader_def elf_new_def table_at_def find_symbol_def symbol_entry_def uart_ok_def
        release_ok_def lvl_indices va_index_div take_bit_eq_mod)
  have p: "unat (0x60000000 :: u64) + 2 ^ 30 \<le> 2 ^ 48" by simp
  have a: "take_bit 21 0x60000000 = take_bit 21 (0xffffff8040000000 :: u64)" by (simp add: take_bit_eq_mod)
  have f: "find_symbol example_a64_loader ''boot_lvl0_lower'' = Inr (0x40001000, 0x1000)"
    "find_symbol example_a64_loader ''boot_lvl0_upper'' = Inr (0x40003000, 0x1000)"
    by (simp_all add: example_a64_loader_def elf_new_def find_symbol_def symbol_entry_def)
  have n: "drop_bit 39 (0xffffff8040000000 :: u64) AND mask 9 \<noteq> 0" by (simp add: mask_eq_exp_minus_1)
  from aarch64_tables_translate [OF ok p a f] n obtain tables where
    "aarch64_setup_pagetables example_a64_loader 0xffffff8040000000 0x60000000
       = (Inr tables :: (string, (u64 \<times> u64 \<times> u8 list) list) res)"
    and up: "\<forall>va. 0xffffff8040000000 \<le> va \<and> drop_bit 30 va = drop_bit 30 0xffffff8040000000 \<longrightarrow>
          a64_translate tables 0x40003000 va = Some (0x60000000 + (va - 0xffffff8040000000))"
    and low: "\<forall>va. 0x40000000 \<le> va \<and> va \<le> 0x40020000 \<longrightarrow> a64_translate tables 0x40001000 va = Some va"
    by blast
  moreover have "a64_translate tables 0x40003000 0xffffff8040212345 = Some 0x60212345"
    using up [rule_format, of "0xffffff8040212345"] by (simp add: drop_bit_eq_div)
  moreover have "a64_translate tables 0x40001000 0x40000008 = Some 0x40000008"
    using low [rule_format, of "0x40000008"] by simp
  ultimately show ?thesis by blast
qed

end
