(* ===== verification/Loader_Riscv.thy ===== *)
theory Loader_Riscv
  imports Loader_Tables
begin

unbundle bit_operations_syntax

text \<open>
  The page tables of the boot loader for RISC-V, which the tool writes into its image:
  \<open>riscv64_setup_pagetables\<close> and the module \<open>riscv64\<close> of \<open>tool/microkit/src/loader.rs\<close>.  The main result
  is that the processor's walk through them translates as the boot code needs.
\<close>

section \<open>RISC-V\<close>

definition RV_BLOCK_BITS_2MB :: u64 where "RV_BLOCK_BITS_2MB = 21"
definition PAGE_BITS_4K :: u64 where "PAGE_BITS_4K = 12"
definition PAGE_TABLE_INDEX_BITS :: u64 where "PAGE_TABLE_INDEX_BITS = 9"
definition PAGE_SHIFT :: u64 where "PAGE_SHIFT = 12"
definition PTE_TYPE_BITS :: u64 where "PTE_TYPE_BITS = 0xCE"
definition PTE_TYPE_TABLE :: u64 where "PTE_TYPE_TABLE = 0"
definition PTE_TYPE_VALID :: u64 where "PTE_TYPE_VALID = 1"
definition PTE_PPN0_SHIFT :: u64 where "PTE_PPN0_SHIFT = 10"

definition rv_pt_index :: "nat \<Rightarrow> u64 \<Rightarrow> nat \<Rightarrow> nat" where
  "rv_pt_index pt_levels addr level =
     (let pt_index_bits = PAGE_TABLE_INDEX_BITS * of_nat (pt_levels - level)
      in unat (shr addr (pt_index_bits + PAGE_SHIFT) mod 512))"

definition pte_ppn :: "u64 \<Rightarrow> u64" where
  "pte_ppn addr = shl (shr addr PAGE_SHIFT) PTE_PPN0_SHIFT"

definition pte_next :: "u64 \<Rightarrow> u64" where
  "pte_next addr = pte_ppn addr OR PTE_TYPE_TABLE OR PTE_TYPE_VALID"

definition pte_leaf :: "u64 \<Rightarrow> u64" where
  "pte_leaf addr = pte_ppn addr OR PTE_TYPE_BITS OR PTE_TYPE_VALID"

text \<open>Leaves from an index to the end of a table: pages of \<open>2 ^ bits\<close> bytes from an address, which must be
  aligned where \<open>check\<close> says so.\<close>

definition rv_leaves :: "bool \<Rightarrow> u64 \<Rightarrow> u64 \<Rightarrow> nat \<Rightarrow> u8 list \<Rightarrow> ('e, u8 list) res" where
  "rv_leaves check base bits from_index pt =
     foldM (\<lambda>pt (page, i).
       let addr = base + shl (of_nat page) bits
       in bindr (assertr (\<not> check \<or> is_multiple_of addr (shl 1 bits))) (\<lambda>_.
            set_entry pt i (pte_leaf addr))) pt
       (enumerate 0 [from_index..<512])"

text \<open>The tables for the kernel: a level 3 table, and from the next entry on large pages in the level 2
  table.\<close>

definition rv_kernel_tables :: "nat \<Rightarrow> u64 \<Rightarrow> u64 \<Rightarrow> u64 \<Rightarrow> ('e, u8 list \<times> u8 list) res" where
  "rv_kernel_tables num_pt_levels boot_lvl3_pt_addr first_vaddr first_paddr =
     (let index_lvl2 = rv_pt_index num_pt_levels first_vaddr 2
      in bindr (if \<not> is_multiple_of first_vaddr (shl 1 RV_BLOCK_BITS_2MB)
                then let index_lvl3 = rv_pt_index num_pt_levels first_vaddr 3
                     in bindr (rv_leaves True first_paddr PAGE_BITS_4K index_lvl3 empty_table) (\<lambda>boot_lvl3_pt.
                        bindr (assertr (is_multiple_of boot_lvl3_pt_addr (shl 1 PAGE_BITS_4K))) (\<lambda>_.
                        bindr (set_entry empty_table index_lvl2 (pte_next boot_lvl3_pt_addr)) (\<lambda>boot_lvl2_pt.
                          Inr (boot_lvl3_pt, boot_lvl2_pt, index_lvl2 + 1))))
                else Inr (empty_table, empty_table, index_lvl2)) (\<lambda>(boot_lvl3_pt, boot_lvl2_pt, index_lvl2).
         bindr (round_up first_paddr (shl 1 RV_BLOCK_BITS_2MB)) (\<lambda>first_paddr_aligned.
         bindr (rv_leaves True first_paddr_aligned RV_BLOCK_BITS_2MB index_lvl2 boot_lvl2_pt) (\<lambda>boot_lvl2_pt.
           Inr (boot_lvl2_pt, boot_lvl3_pt)))))"

definition riscv64_setup_pagetables :: "config \<Rightarrow> elf_file \<Rightarrow> u64 \<Rightarrow> u64 \<Rightarrow> ('e, (u64 \<times> u64 \<times> u8 list) list) res" where
  "riscv64_setup_pagetables cfg elf first_vaddr first_paddr =
     bindr (grab_symbol elf ''_text'') (\<lambda>(text_addr, _).
     bindr (grab_symbol elf ''boot_lvl1_pt'') (\<lambda>(boot_lvl1_pt_addr, boot_lvl1_pt_size).
     bindr (grab_symbol elf ''boot_lvl2_pt'') (\<lambda>(boot_lvl2_pt_addr, boot_lvl2_pt_size).
     bindr (grab_symbol elf ''boot_lvl3_pt'') (\<lambda>(boot_lvl3_pt_addr, boot_lvl3_pt_size).
     bindr (grab_symbol elf ''boot_lvl2_pt_loader'') (\<lambda>(boot_lvl2_pt_loader_addr, boot_lvl2_pt_loader_size).
     bindr (assertr (is_multiple_of text_addr (shl 1 RV_BLOCK_BITS_2MB))) (\<lambda>_.
     bindr (unwrapr (riscv_pt_levels cfg)) (\<lambda>vm.
     let num_pt_levels = levels vm
     in bindr (set_entry empty_table (rv_pt_index num_pt_levels text_addr 1) (pte_next boot_lvl2_pt_loader_addr)) (\<lambda>boot_lvl1_pt.
        bindr (rv_leaves False text_addr RV_BLOCK_BITS_2MB (rv_pt_index num_pt_levels text_addr 2) empty_table)
          (\<lambda>boot_lvl2_pt_loader.
        bindr (set_entry boot_lvl1_pt (rv_pt_index num_pt_levels first_vaddr 1) (pte_next boot_lvl2_pt_addr)) (\<lambda>boot_lvl1_pt.
        bindr (rv_kernel_tables num_pt_levels boot_lvl3_pt_addr first_vaddr first_paddr) (\<lambda>(boot_lvl2_pt, boot_lvl3_pt).
          Inr [(boot_lvl1_pt_addr, boot_lvl1_pt_size, boot_lvl1_pt),
               (boot_lvl2_pt_addr, boot_lvl2_pt_size, boot_lvl2_pt),
               (boot_lvl3_pt_addr, boot_lvl3_pt_size, boot_lvl3_pt),
               (boot_lvl2_pt_loader_addr, boot_lvl2_pt_loader_size, boot_lvl2_pt_loader)])))))))))))"

section \<open>The walk of a RISC-V processor\<close>

text \<open>The translation of an address by the tables in memory under Sv39.  An entry is valid by its bit 0 and
  a leaf by any of its read, write and execute bits; a leaf of a large page must be aligned.\<close>

fun rv_walk :: "(u64 \<Rightarrow> u8 list option) \<Rightarrow> u64 \<Rightarrow> nat list \<Rightarrow> u64 \<Rightarrow> u64 option" where
  "rv_walk mem table [] va = None"
| "rv_walk mem table (sh # shs) va = (case mem table of
      None \<Rightarrow> None
    | Some pt \<Rightarrow>
        let e = entry_at pt (va_index sh va); pa = push_bit 12 (take_bit 44 (drop_bit 10 e))
        in if \<not> bit e 0 then None
           else if e AND 0xE = 0 then rv_walk mem pa shs va
           else if take_bit sh pa = 0 then Some (pa OR take_bit sh va) else None)"

abbreviation rv_translate :: "(u64 \<times> u64 \<times> u8 list) list \<Rightarrow> u64 \<Rightarrow> u64 \<Rightarrow> u64 option" where
  "rv_translate tables root va \<equiv> rv_walk (map_of (map (\<lambda>(a, _, pt). (a, pt)) tables)) root [30, 21, 12] va"

lemma pte_bits:
  assumes "unat a < 2 ^ 56" "take_bit 12 a = 0" "take_bit 10 c = (c :: u64)"
  shows "push_bit 12 (take_bit 44 (drop_bit 10 (pte_ppn a OR c))) = a" "take_bit 10 (pte_ppn a OR c) = c"
proof -
  have "a AND mask 56 = a"
    using assms(1) by (simp add: u64_eq_iff unsigned_take_bit_eq take_bit_nat_eq_self_iff flip: take_bit_eq_mask)
  then have high: "n < 56" if "bit a n" for n using that by (metis bit_take_bit_iff take_bit_eq_mask)
  have low: "12 \<le> n" if "bit a n" for n
    using arg_cong [OF assms(2), of "\<lambda>w. bit w n"] that by (auto simp: bit_take_bit_iff)
  have c: "n < 10" if "bit c n" for n using that assms(3) by (metis bit_take_bit_iff)
  have ppn: "pte_ppn a = push_bit 10 (drop_bit 12 a)"
    by (simp add: pte_ppn_def PAGE_SHIFT_def PTE_PPN0_SHIFT_def shl_small shr_small)
  show "push_bit 12 (take_bit 44 (drop_bit 10 (pte_ppn a OR c))) = a"
  proof (rule bit_word_eqI)
    fix n
    assume n: "n < LENGTH(64)"
    show "bit (push_bit 12 (take_bit 44 (drop_bit 10 (pte_ppn a OR c)))) n = bit a n"
    proof (cases "12 \<le> n")
      case True
      then obtain k where "n = 12 + k" by (auto simp: le_iff_add)
      with n show ?thesis
        unfolding ppn by (auto simp: bit_push_bit_iff bit_take_bit_iff bit_drop_bit_eq bit_or_iff dest: high c)
    qed (auto simp: bit_push_bit_iff bit_or_iff dest: low)
  qed
  show "take_bit 10 (pte_ppn a OR c) = c"
    unfolding ppn by (rule bit_word_eqI) (auto simp: bit_push_bit_iff bit_take_bit_iff bit_or_iff dest: c)
qed

text \<open>The flags of an entry are its low ten bits.\<close>

lemma entry_flags:
  assumes "take_bit 10 e = (c :: u64)"
  shows "bit e 0 \<longleftrightarrow> bit c 0" "e AND 0xE = c AND 0xE"
proof -
  have "bit e n = bit c n" if "n < 10" for n using assms that by (metis bit_take_bit_iff)
  then show "bit e 0 \<longleftrightarrow> bit c 0" by simp
  have "take_bit 10 (0xE :: u64) = 0xE" by simp
  then have "e AND 0xE = take_bit 10 e AND 0xE" by (metis take_bit_and and.assoc and.commute and.idem take_bit_eq_mask)
  then show "e AND 0xE = c AND 0xE" by (simp add: assms)
qed

lemma rv_step_next:
  assumes "mem table = Some pt" "entry_at pt (va_index sh va) = pte_next a" "unat a < 2 ^ 56" "take_bit 12 a = 0"
  shows "rv_walk mem table (sh # shs) va = rv_walk mem a shs va"
proof -
  have n: "pte_next a = pte_ppn a OR 1" by (simp add: pte_next_def PTE_TYPE_TABLE_def PTE_TYPE_VALID_def)
  note b = pte_bits [OF assms(3,4), of 1]
  have "bit (pte_next a) 0" "pte_next a AND 0xE = 0"
    using entry_flags [OF b(2)] n by simp_all
  with assms(1,2) b(1) n show ?thesis by (simp add: Let_def)
qed

lemma rv_step_leaf:
  assumes "mem table = Some pt" "entry_at pt (va_index sh va) = pte_leaf a" "unat a < 2 ^ 56" "take_bit sh a = 0" "12 \<le> sh"
  shows "rv_walk mem table (sh # shs) va = Some (a + take_bit sh va)"
proof -
  have n: "pte_leaf a = pte_ppn a OR 0xCF"
    by (simp add: pte_leaf_def PTE_TYPE_BITS_def PTE_TYPE_VALID_def or.assoc)
  have "take_bit 12 a = take_bit 12 (take_bit sh a)" using assms(5) by (simp add: min_absorb1)
  then have z: "take_bit 12 a = 0" by (simp add: assms(4))
  have c: "take_bit 10 (0xCF :: u64) = 0xCF" by simp
  note b = pte_bits [OF assms(3) z c]
  have f: "bit (pte_leaf a) 0" "pte_leaf a AND 0xE \<noteq> 0"
    using entry_flags [OF b(2)] n by simp_all
  have "a = push_bit sh (drop_bit sh a)" using split_at [of a sh] assms(4) by simp
  then have "a OR take_bit sh va = a + take_bit sh va" by (metis push_or_take)
  with assms(1,2,4) b(1) n f show ?thesis by (simp add: Let_def)
qed

declare rv_walk.simps [simp del]

section \<open>Filling the tables\<close>

lemma enumerate_upt: "enumerate 0 [a..<b] = map (\<lambda>i. (i - a, i)) [a..<b]"
  by (rule nth_equalityI) (simp_all add: nth_enumerate_eq)

lemma foldM_map: "foldM f s (map g xs) = foldM (\<lambda>s x. f s (g x)) s xs"
  by (induction xs arbitrary: s) simp_all

lemma is_multiple_of_shl: "unat bits < 64 \<Longrightarrow> is_multiple_of x (shl 1 bits) \<longleftrightarrow> take_bit (unat bits) x = 0"
proof -
  assume b: "unat bits < 64"
  then have "shl 1 bits = 2 ^ unat bits" by (simp add: shl_small)
  moreover have "(2 :: u64) ^ unat bits \<noteq> 0" using unat_exp_2 [OF b] by (metis power_not_zero unat_0 zero_neq_numeral)
  ultimately show ?thesis by (simp add: is_multiple_of_def take_bit_eq_mod)
qed

lemma rv_leaves_run:
  assumes "length pt = 4096" "unat bits < 64" "check \<longrightarrow> take_bit (unat bits) base = 0"
  shows "\<exists>pt'. rv_leaves check base bits from_index pt = (Inr pt' :: ('e, u8 list) res) \<and> length pt' = 4096
     \<and> (\<forall>j < 512. entry_at pt' j = (if from_index \<le> j
          then pte_leaf (base + push_bit (unat bits) (of_nat (j - from_index))) else entry_at pt j))"
proof -
  have mul: "(\<not> check \<or> is_multiple_of (base + push_bit (unat bits) k) (shl 1 bits)) = True" for k
    using assms(2,3) by (simp only: is_multiple_of_shl take_push_add) blast
  have "rv_leaves check base bits from_index pt = (foldM (\<lambda>pt i. set_entry pt i
      (pte_leaf (base + push_bit (unat bits) (of_nat (i - from_index))))) pt [from_index..<512] :: ('e, u8 list) res)"
    unfolding rv_leaves_def enumerate_upt foldM_map prod.case Let_def shl_small [OF assms(2), of "of_nat _"] mul
    by simp
  moreover have "\<exists>pt'. foldM (\<lambda>pt i. set_entry pt i (pte_leaf (base + push_bit (unat bits) (of_nat (i - from_index)))))
      pt [from_index..<512] = (Inr pt' :: ('e, u8 list) res) \<and> length pt' = 4096
      \<and> (\<forall>j < 512. entry_at pt' j = (if from_index \<le> j \<and> j < 512
           then pte_leaf (base + push_bit (unat bits) (of_nat (j - from_index))) else entry_at pt j))"
    by (rule foldM_entries [OF assms(1)]) simp_all
  ultimately show ?thesis by auto
qed

lemma rv_index: "level \<le> 3 \<Longrightarrow> rv_pt_index 3 addr level = va_index (9 * (3 - level) + 12) addr"
proof -
  assume "level \<le> 3"
  then have "unat (PAGE_TABLE_INDEX_BITS * of_nat (3 - level) + PAGE_SHIFT) = 9 * (3 - level) + 12"
    unfolding PAGE_TABLE_INDEX_BITS_def PAGE_SHIFT_def
    by (cases "level = 0 \<or> level = 1 \<or> level = 2 \<or> level = 3") auto
  then show ?thesis
    using \<open>level \<le> 3\<close> by (simp add: rv_pt_index_def Let_def shr_small va_index_def take_bit_eq_mod)
qed

lemma round_up_page_base:
  "round_up p (shl 1 RV_BLOCK_BITS_2MB) = (Inr (if take_bit 21 p = 0 then p else push_bit 21 (drop_bit 21 p) + push_bit 21 1)
     :: ('e, u64) res)"
proof -
  have s: "shl 1 RV_BLOCK_BITS_2MB = 2 ^ 21" "push_bit 21 (1 :: u64) = 2 ^ 21" by (simp_all add: RV_BLOCK_BITS_2MB_def shl_small)
  have "p + 2 ^ 21 - take_bit 21 p = push_bit 21 (drop_bit 21 p) + 2 ^ 21"
    by (subst (1) split_at [of p 21]) simp
  then show ?thesis
    unfolding round_up_def divmod_def s by (simp add: take_bit_eq_mod)
qed

lemma rv_kernel_tables_run:
  assumes "take_bit 12 a3 = 0" "take_bit 12 p0 = 0" "take_bit 21 p0 = take_bit 21 v0"
  defines "i2 \<equiv> va_index 21 v0" and "i3 \<equiv> va_index 12 v0"
  shows "\<exists>t2 t3. rv_kernel_tables 3 a3 v0 p0 = (Inr (t2, t3) :: ('e, u8 list \<times> u8 list) res)
     \<and> (\<forall>i < 512. i2 < i \<or> i = i2 \<and> take_bit 21 v0 = 0 \<longrightarrow>
          entry_at t2 i = pte_leaf (push_bit 21 (drop_bit 21 p0) + push_bit 21 (of_nat (i - i2))))
     \<and> (take_bit 21 v0 \<noteq> 0 \<longrightarrow> entry_at t2 i2 = pte_next a3
          \<and> (\<forall>j < 512. i3 \<le> j \<longrightarrow> entry_at t3 j = pte_leaf (p0 + push_bit 12 (of_nat (j - i3)))))"
proof -
  have b: "unat RV_BLOCK_BITS_2MB = 21" "unat PAGE_BITS_4K = 12" by (simp_all add: RV_BLOCK_BITS_2MB_def PAGE_BITS_4K_def)
  have idx: "rv_pt_index 3 v0 2 = i2" "rv_pt_index 3 v0 3 = i3" by (simp_all add: rv_index i2_def i3_def)
  have mul: "is_multiple_of x (shl 1 RV_BLOCK_BITS_2MB) \<longleftrightarrow> take_bit 21 x = 0"
    "is_multiple_of x (shl 1 PAGE_BITS_4K) \<longleftrightarrow> take_bit 12 x = 0" for x
    using is_multiple_of_shl [of RV_BLOCK_BITS_2MB x] is_multiple_of_shl [of PAGE_BITS_4K x] unfolding b by simp_all
  have i2: "i2 < 512" by (simp add: i2_def)
  show ?thesis
  proof (cases "take_bit 21 v0 = 0")
    case True
    then have p: "take_bit 21 p0 = 0" "push_bit 21 (drop_bit 21 p0) = p0"
      using assms(3) split_at [of p0 21] by simp_all
    obtain t2 where t2: "rv_leaves True p0 RV_BLOCK_BITS_2MB i2 empty_table = (Inr t2 :: ('e, u8 list) res)"
      "\<forall>j < 512. entry_at t2 j = (if i2 \<le> j then pte_leaf (p0 + push_bit 21 (of_nat (j - i2))) else 0)"
      using rv_leaves_run [of empty_table RV_BLOCK_BITS_2MB True p0 i2, where 'e = 'e] p(1) unfolding b by auto
    have "rv_kernel_tables 3 a3 v0 p0 = (Inr (t2, empty_table) :: ('e, u8 list \<times> u8 list) res)"
      unfolding rv_kernel_tables_def Let_def idx mul round_up_page_base using True p(1) t2(1) by simp
    with t2(2) True show ?thesis unfolding p(2) by auto
  next
    case False
    obtain t3 where t3: "rv_leaves True p0 PAGE_BITS_4K i3 empty_table = (Inr t3 :: ('e, u8 list) res)"
      "\<forall>j < 512. entry_at t3 j = (if i3 \<le> j then pte_leaf (p0 + push_bit 12 (of_nat (j - i3))) else 0)"
      using rv_leaves_run [of empty_table PAGE_BITS_4K True p0 i3, where 'e = 'e] assms(2) unfolding b by auto
    obtain s2 where s2: "set_entry empty_table i2 (pte_next a3) = (Inr s2 :: ('e, u8 list) res)" "length s2 = 4096"
      "\<forall>j < 512. entry_at s2 j = (if j = i2 then pte_next a3 else 0)"
      using set_entry_run [of empty_table i2 "pte_next a3", where 'e = 'e] i2 by auto
    let ?p = "push_bit 21 (drop_bit 21 p0) + push_bit 21 1"
    have up: "round_up p0 (shl 1 RV_BLOCK_BITS_2MB) = (Inr ?p :: ('e, u64) res)"
      using False assms(3) by (simp add: round_up_page_base)
    have "take_bit 21 ?p = 0" by (simp only: take_push_add take_push)
    then obtain t2 where t2: "rv_leaves True ?p RV_BLOCK_BITS_2MB (i2 + 1) s2 = (Inr t2 :: ('e, u8 list) res)"
      "\<forall>j < 512. entry_at t2 j = (if i2 + 1 \<le> j then pte_leaf (?p + push_bit 21 (of_nat (j - (i2 + 1)))) else entry_at s2 j)"
      using rv_leaves_run [OF s2(2), of RV_BLOCK_BITS_2MB True ?p "i2 + 1", where 'e = 'e] unfolding b by auto
    have run: "rv_kernel_tables 3 a3 v0 p0 = (Inr (t2, t3) :: ('e, u8 list \<times> u8 list) res)"
      unfolding rv_kernel_tables_def Let_def idx mul using False t3(1) s2(1) up t2(1) assms(1) by simp
    have e2: "entry_at t2 i = pte_leaf (push_bit 21 (drop_bit 21 p0) + push_bit 21 (of_nat (i - i2)))"
      if "i2 < i" "i < 512" for i
    proof -
      have "i - i2 = Suc (i - (i2 + 1))" using that by simp
      then have "?p + push_bit 21 (of_nat (i - (i2 + 1))) = push_bit 21 (drop_bit 21 p0) + push_bit 21 (of_nat (i - i2))"
        by (simp add: push_bit_eq_mult algebra_simps del: of_nat_diff)
      moreover have "i2 + 1 \<le> i" using that(1) by simp
      ultimately show ?thesis using t2(2) that(2) by metis
    qed
    have "entry_at t2 i2 = pte_next a3" using t2(2) s2(3) i2 by simp
    with run e2 t3(2) False show ?thesis by (intro exI [of _ t2] exI [of _ t3]) simp
  qed
qed

section \<open>Setting up the RISC-V tables\<close>

definition rv_table_at :: "elf_file \<Rightarrow> string \<Rightarrow> u64 \<Rightarrow> bool" where
  "rv_table_at elf name a \<longleftrightarrow> (\<exists>s. find_symbol elf name = Inr (a, s)) \<and> unat a < 2 ^ 56 \<and> take_bit 12 a = 0"

definition rv_loader_ok :: "elf_file \<Rightarrow> u64 \<Rightarrow> bool" where
  "rv_loader_ok elf text_addr \<longleftrightarrow>
     (\<exists>as. length as = 4 \<and> distinct as \<and> list_all2 (rv_table_at elf)
        [''boot_lvl1_pt'', ''boot_lvl2_pt'', ''boot_lvl3_pt'', ''boot_lvl2_pt_loader''] as)
     \<and> (\<exists>n. find_symbol elf ''_text'' = Inr (text_addr, n))
     \<and> take_bit 21 text_addr = 0 \<and> unat text_addr + 2 ^ 30 \<le> 2 ^ 56"

text \<open>The four tables and their entries.\<close>

lemma riscv64_setup_steps:
  assumes "rv_loader_ok elf tx" "riscv_pt_levels cfg = Some Sv39" "take_bit 12 p0 = 0" "take_bit 21 p0 = take_bit 21 v0"
    and "va_index 30 tx \<noteq> va_index 30 v0"
  shows "\<exists>a1 a2 a3 al s1 s2 s3 sl t1 t2 t3 tl.
     riscv64_setup_pagetables cfg elf v0 p0
       = (Inr [(a1, s1, t1), (a2, s2, t2), (a3, s3, t3), (al, sl, tl)] :: ('e, (u64 \<times> u64 \<times> u8 list) list) res)
     \<and> distinct [a1, a2, a3, al] \<and> find_symbol elf ''boot_lvl1_pt'' = Inr (a1, s1)
     \<and> (\<forall>a \<in> {a2, a3, al}. unat a < 2 ^ 56 \<and> take_bit 12 a = 0)
     \<and> entry_at t1 (va_index 30 tx) = pte_next al \<and> entry_at t1 (va_index 30 v0) = pte_next a2
     \<and> (\<forall>i < 512. va_index 21 tx \<le> i \<longrightarrow> entry_at tl i = pte_leaf (tx + push_bit 21 (of_nat (i - va_index 21 tx))))
     \<and> (\<forall>i < 512. va_index 21 v0 < i \<or> i = va_index 21 v0 \<and> take_bit 21 v0 = 0 \<longrightarrow>
          entry_at t2 i = pte_leaf (push_bit 21 (drop_bit 21 p0) + push_bit 21 (of_nat (i - va_index 21 v0))))
     \<and> (take_bit 21 v0 \<noteq> 0 \<longrightarrow> entry_at t2 (va_index 21 v0) = pte_next a3
          \<and> (\<forall>j < 512. va_index 12 v0 \<le> j \<longrightarrow> entry_at t3 j = pte_leaf (p0 + push_bit 12 (of_nat (j - va_index 12 v0)))))"
proof -
  from assms(1) obtain as n where as: "length as = 4" "distinct as" "list_all2 (rv_table_at elf)
        [''boot_lvl1_pt'', ''boot_lvl2_pt'', ''boot_lvl3_pt'', ''boot_lvl2_pt_loader''] as"
    and tx: "find_symbol elf ''_text'' = Inr (tx, n)" "take_bit 21 tx = 0"
    by (auto simp: rv_loader_ok_def)
  from as(3) obtain a1 a2 a3 al where aeq: "as = [a1, a2, a3, al]" by (auto simp: list_all2_Cons1)
  from as(3) obtain s1 s2 s3 sl where sy:
    "find_symbol elf ''boot_lvl1_pt'' = Inr (a1, s1)" "find_symbol elf ''boot_lvl2_pt'' = Inr (a2, s2)"
    "find_symbol elf ''boot_lvl3_pt'' = Inr (a3, s3)" "find_symbol elf ''boot_lvl2_pt_loader'' = Inr (al, sl)"
    and al: "\<forall>a \<in> {a2, a3, al}. unat a < 2 ^ 56 \<and> take_bit 12 a = 0"
    unfolding aeq by (auto simp: rv_table_at_def)
  have b: "unat RV_BLOCK_BITS_2MB = 21" by (simp add: RV_BLOCK_BITS_2MB_def)
  have idx: "rv_pt_index 3 x 1 = va_index 30 x" "rv_pt_index 3 x 2 = va_index 21 x" for x by (simp_all add: rv_index)
  have mul: "is_multiple_of tx (shl 1 RV_BLOCK_BITS_2MB)"
    using is_multiple_of_shl [of RV_BLOCK_BITS_2MB tx] tx(2) unfolding b by simp
  obtain x1 where x1: "set_entry empty_table (va_index 30 tx) (pte_next al) = (Inr x1 :: ('e, u8 list) res)" "length x1 = 4096"
    "entry_at x1 (va_index 30 tx) = pte_next al"
    using set_entry_run [of empty_table "va_index 30 tx" "pte_next al", where 'e = 'e] by auto
  obtain t1 where t1: "set_entry x1 (va_index 30 v0) (pte_next a2) = (Inr t1 :: ('e, u8 list) res)"
    "entry_at t1 (va_index 30 v0) = pte_next a2" "entry_at t1 (va_index 30 tx) = pte_next al"
    using set_entry_run [OF x1(2), of "va_index 30 v0" "pte_next a2", where 'e = 'e] x1(3) assms(5) by auto
  obtain tl where tl: "rv_leaves False tx RV_BLOCK_BITS_2MB (va_index 21 tx) empty_table = (Inr tl :: ('e, u8 list) res)"
    "\<forall>i < 512. va_index 21 tx \<le> i \<longrightarrow> entry_at tl i = pte_leaf (tx + push_bit 21 (of_nat (i - va_index 21 tx)))"
    using rv_leaves_run [of empty_table RV_BLOCK_BITS_2MB False tx "va_index 21 tx", where 'e = 'e] unfolding b by auto
  from rv_kernel_tables_run [OF _ assms(3,4), of a3, where 'e = 'e] al obtain t2 t3 where k:
    "rv_kernel_tables 3 a3 v0 p0 = (Inr (t2, t3) :: ('e, u8 list \<times> u8 list) res)"
    "(\<forall>i < 512. va_index 21 v0 < i \<or> i = va_index 21 v0 \<and> take_bit 21 v0 = 0 \<longrightarrow>
          entry_at t2 i = pte_leaf (push_bit 21 (drop_bit 21 p0) + push_bit 21 (of_nat (i - va_index 21 v0))))"
    "(take_bit 21 v0 \<noteq> 0 \<longrightarrow> entry_at t2 (va_index 21 v0) = pte_next a3
          \<and> (\<forall>j < 512. va_index 12 v0 \<le> j \<longrightarrow> entry_at t3 j = pte_leaf (p0 + push_bit 12 (of_nat (j - va_index 12 v0)))))"
    by auto
  have "riscv64_setup_pagetables cfg elf v0 p0
       = (Inr [(a1, s1, t1), (a2, s2, t2), (a3, s3, t3), (al, sl, tl)] :: ('e, (u64 \<times> u64 \<times> u8 list) list) res)"
    unfolding riscv64_setup_pagetables_def grab_symbol_def sy tx(1) unwrap_res_simps bindr_Inr prod.case
    using assms(2) mul x1(1) t1(1) tl(1) k(1) by (simp add: levels_def idx [simplified])
  with as(2) sy(1) al t1(2,3) tl(2) k(2,3) show ?thesis
    unfolding aeq by (intro exI conjI) assumption+
qed

lemma page_sum:
  fixes p :: u64
  assumes "k < 512" "sh = 12 \<or> sh = 21" "unat p + 2 ^ 30 \<le> 2 ^ 56" "take_bit sh p = 0"
  shows "unat (p + push_bit sh (of_nat k)) < 2 ^ 56" "take_bit sh (p + push_bit sh (of_nat k)) = 0"
proof -
  have "unat (push_bit sh (of_nat k :: u64)) = k * 2 ^ sh"
    using assms(1,2) by (auto simp: push_bit_eq_mult unat_word_ariths unat_of_nat_small)
  moreover have "k * 2 ^ sh < 2 ^ 30" using assms(1,2) by auto
  ultimately show "unat (p + push_bit sh (of_nat k)) < 2 ^ 56"
    using assms(3) by (subst unat_add_no_overflow) simp_all
  show "take_bit sh (p + push_bit sh (of_nat k)) = 0" unfolding take_push_add by (rule assms(4))
qed

lemma push_drop_le: "unat (push_bit n (drop_bit n x)) \<le> unat (x :: u64)"
proof -
  have "push_bit n (drop_bit n x) = x AND NOT (mask n)"
    by (rule bit_word_eqI) (auto simp: bit_push_bit_iff bit_drop_bit_eq bit_and_iff bit_not_iff bit_mask_iff)
  then show ?thesis by (simp add: word_and_le2 flip: word_le_nat_alt)
qed

lemma same_large_page:
  assumes "drop_bit 30 a = drop_bit 30 (b :: u64)" "va_index 21 a = va_index 21 b"
  shows "drop_bit 21 a = drop_bit 21 b"
proof -
  have "drop_bit 21 x = push_bit 9 (drop_bit 30 x) + take_bit 9 (drop_bit 21 x)" for x :: u64
    using split_at [of "drop_bit 21 x" 9] by (simp add: drop_bit_drop_bit)
  moreover have "take_bit 9 (drop_bit 21 a) = take_bit 9 (drop_bit 21 b)"
    using assms(2) by (simp add: va_index_def u64_eq_iff)
  ultimately show ?thesis using assms(1) by metis
qed

text \<open>Large pages and, below, small pages, for the same offset from a first address.\<close>

lemma rv_leaves_translate:
  assumes sh: "sh = 12 \<or> sh = 21" and mem: "mem table = Some pt"
    and va: "drop_bit (sh + 9) v0 = drop_bit (sh + 9) va" "v0 \<le> va"
    and p: "take_bit sh p = 0" "unat p + 2 ^ 30 \<le> 2 ^ 56"
    and e: "entry_at pt (va_index sh va) = pte_leaf (p + push_bit sh (of_nat (va_index sh va - va_index sh v0)))"
  shows "rv_walk mem table (sh # shs) va = Some (p + take_bit sh v0 + (va - v0))"
proof -
  have k: "va_index sh va - va_index sh v0 < 512" using va_index_less [of sh va] by linarith
  have "12 \<le> sh" using sh by auto
  from rv_step_leaf [where mem = mem, OF mem e page_sum [OF k sh p(2,1)] this]
  show ?thesis unfolding va_index_diff(2) [OF va] by (simp add: algebra_simps del: of_nat_diff)
qed

text \<open>C26: The page tables that the tool writes for a RISC-V loader translate as the boot code needs, by the
  processor's own walk under Sv39.  Every address of the kernel window, from the kernel's first virtual
  address to the end of its gigabyte, goes to the physical address at the same offset from the kernel's
  first, also where that starts inside a large page; and every address from the loader's text to the end
  of its gigabyte goes to itself.\<close>

theorem riscv64_tables_translate:
  assumes "rv_loader_ok elf tx" "riscv_pt_levels cfg = Some Sv39" "take_bit 12 p0 = 0" "take_bit 21 p0 = take_bit 21 v0"
    and "va_index 30 tx \<noteq> va_index 30 v0" "unat p0 + 2 ^ 30 \<le> 2 ^ 56" "find_symbol elf ''boot_lvl1_pt'' = Inr (root, s)"
  shows "\<exists>tables. riscv64_setup_pagetables cfg elf v0 p0 = (Inr tables :: (string, (u64 \<times> u64 \<times> u8 list) list) res)
     \<and> (\<forall>va. v0 \<le> va \<and> drop_bit 30 va = drop_bit 30 v0 \<longrightarrow> rv_translate tables root va = Some (p0 + (va - v0)))
     \<and> (\<forall>va. tx \<le> va \<and> drop_bit 30 va = drop_bit 30 tx \<longrightarrow> rv_translate tables root va = Some va)"
proof -
  from riscv64_setup_steps [OF assms(1-5), where 'e = string] obtain a1 a2 a3 al s1 s2 s3 sl t1 t2 t3 tl where
    run: "riscv64_setup_pagetables cfg elf v0 p0
       = (Inr [(a1, s1, t1), (a2, s2, t2), (a3, s3, t3), (al, sl, tl)] :: (string, (u64 \<times> u64 \<times> u8 list) list) res)"
    and dist: "distinct [a1, a2, a3, al]" and "find_symbol elf ''boot_lvl1_pt'' = Inr (a1, s1)"
    and ok: "\<forall>a \<in> {a2, a3, al}. unat a < 2 ^ 56 \<and> take_bit 12 a = 0"
    and e1: "entry_at t1 (va_index 30 tx) = pte_next al" "entry_at t1 (va_index 30 v0) = pte_next a2"
    and el: "\<forall>i < 512. va_index 21 tx \<le> i \<longrightarrow> entry_at tl i = pte_leaf (tx + push_bit 21 (of_nat (i - va_index 21 tx)))"
    and e2: "\<forall>i < 512. va_index 21 v0 < i \<or> i = va_index 21 v0 \<and> take_bit 21 v0 = 0 \<longrightarrow>
          entry_at t2 i = pte_leaf (push_bit 21 (drop_bit 21 p0) + push_bit 21 (of_nat (i - va_index 21 v0)))"
    and e3: "take_bit 21 v0 \<noteq> 0 \<longrightarrow> entry_at t2 (va_index 21 v0) = pte_next a3
          \<and> (\<forall>j < 512. va_index 12 v0 \<le> j \<longrightarrow> entry_at t3 j = pte_leaf (p0 + push_bit 12 (of_nat (j - va_index 12 v0))))"
    by - ((erule exE | erule conjE)+, rule that)
  then have a1: "a1 = root" using assms(7) by simp
  let ?tables = "[(a1, s1, t1), (a2, s2, t2), (a3, s3, t3), (al, sl, tl)]"
  let ?mem = "map_of (map (\<lambda>(a, _, pt). (a, pt)) ?tables)"
  have mem: "?mem a1 = Some t1" "?mem a2 = Some t2" "?mem a3 = Some t3" "?mem al = Some tl" using dist by auto
  have tx0: "take_bit 21 tx = 0" "unat tx + 2 ^ 30 \<le> 2 ^ 56" using assms(1) by (simp_all add: rv_loader_ok_def)
  have "rv_translate ?tables root va = Some va" if va: "tx \<le> va" "drop_bit 30 va = drop_bit 30 tx" for va
  proof -
    note ge = va_index_diff(1) [of 21 tx va, simplified, OF va(2) [symmetric] va(1)]
    have i: "va_index 30 va = va_index 30 tx" using va(2) by (simp add: va_index_def)
    have "rv_walk ?mem a1 [30, 21, 12] va = rv_walk ?mem al [21, 12] va"
      by (rule rv_step_next [where mem = ?mem, OF mem(1)]) (use i e1 ok in auto)
    also have "\<dots> = Some (tx + take_bit 21 tx + (va - tx))"
      by (rule rv_leaves_translate [where mem = ?mem, OF _ mem(4)])
        (use el ge va tx0 va_index_less [of 21 va] in auto)
    finally show ?thesis unfolding a1 using tx0(1) by simp
  qed
  moreover have "rv_translate ?tables root va = Some (p0 + (va - v0))"
    if va: "v0 \<le> va" "drop_bit 30 va = drop_bit 30 v0" for va
  proof -
    note ge = va_index_diff(1) [of 21 v0 va, simplified, OF va(2) [symmetric] va(1)]
    have i: "va_index 30 va = va_index 30 v0" using va(2) by (simp add: va_index_def)
    have "rv_walk ?mem a1 [30, 21, 12] va = rv_walk ?mem a2 [21, 12] va"
      by (rule rv_step_next [where mem = ?mem, OF mem(1)]) (use i e1 ok in auto)
    also have "\<dots> = Some (p0 + (va - v0))"
    proof (cases "va_index 21 v0 < va_index 21 va \<or> take_bit 21 v0 = 0")
      case True
      have e: "entry_at t2 (va_index 21 va)
          = pte_leaf (push_bit 21 (drop_bit 21 p0) + push_bit 21 (of_nat (va_index 21 va - va_index 21 v0)))"
        by (rule e2 [rule_format]) (use ge True in auto)
      have "rv_walk ?mem a2 [21, 12] va = Some (push_bit 21 (drop_bit 21 p0) + take_bit 21 v0 + (va - v0))"
        by (rule rv_leaves_translate [where mem = ?mem, OF _ mem(2)])
          (use e va assms(6) push_drop_le [of 21 p0] in auto)
      then show ?thesis using split_at [of p0 21] assms(4) by simp
    next
      case False
      then have same: "va_index 21 va = va_index 21 v0" and v0: "take_bit 21 v0 \<noteq> 0" using ge by auto
      note page = same_large_page [OF va(2) same]
      note ge12 = va_index_diff(1) [of 12 v0 va, simplified, OF page [symmetric] va(1)]
      have "rv_walk ?mem a2 [21, 12] va = rv_walk ?mem a3 [12] va"
        by (rule rv_step_next [where mem = ?mem, OF mem(2)]) (use same v0 e3 ok in auto)
      also have "\<dots> = Some (p0 + take_bit 12 v0 + (va - v0))"
        by (rule rv_leaves_translate [where mem = ?mem, OF _ mem(3)])
          (use e3 v0 ge12 page va assms(3,6) va_index_less [of 12 va] in auto)
      also have "take_bit 12 v0 = take_bit 12 (take_bit 21 v0)" by (simp add: min_absorb1)
      also have "\<dots> = take_bit 12 p0" unfolding assms(4) [symmetric] by (simp add: min_absorb1)
      finally show ?thesis unfolding assms(3) add_0_right .
    qed
    finally show ?thesis unfolding a1 .
  qed
  ultimately show ?thesis using run by blast
qed

text \<open>A loader at 2 GiB, whose kernel starts 2 MiB above and at a small page, for the witness.\<close>

definition example_rv_loader :: elf_file where
  "example_rv_loader = (elf_new ''loader.elf'' 64 0x80000000 243)\<lparr>symbols := map_of (map (\<lambda>(n, a).
     (n, (\<lparr>st_name = 0, st_info = 0, st_other = 0, st_shndx = 0, st_value = a, st_size = 0x1000\<rparr>, False)))
     [(''_text'', 0x80000000), (''boot_lvl1_pt'', 0x80001000), (''boot_lvl2_pt'', 0x80002000),
      (''boot_lvl3_pt'', 0x80003000), (''boot_lvl2_pt_loader'', 0x80004000)])\<rparr>"

theorem riscv64_tables_translate_witness:
  "\<exists>tables. riscv64_setup_pagetables example_riscv_config example_rv_loader 0xffffffff84001000 0x84001000
       = (Inr tables :: (string, (u64 \<times> u64 \<times> u8 list) list) res)
     \<and> rv_translate tables 0x80001000 0xffffffff84212345 = Some 0x84212345
     \<and> rv_translate tables 0x80001000 0x80000008 = Some 0x80000008"
proof -
  have ok: "rv_loader_ok example_rv_loader 0x80000000"
    unfolding rv_loader_ok_def
    by (intro conjI exI [of _ "[0x80001000, 0x80002000, 0x80003000, 0x80004000]"])
      (simp_all add: example_rv_loader_def elf_new_def rv_table_at_def find_symbol_def take_bit_eq_mod)
  have l: "riscv_pt_levels example_riscv_config = Some Sv39" by (simp add: example_riscv_config_def)
  have p: "take_bit 12 0x84001000 = (0 :: u64)" "take_bit 21 0x84001000 = take_bit 21 (0xffffffff84001000 :: u64)"
    "unat (0x84001000 :: u64) + 2 ^ 30 \<le> 2 ^ 56" by (simp_all add: take_bit_eq_mod)
  have i: "va_index 30 0x80000000 \<noteq> va_index 30 0xffffffff84001000" by (simp add: va_index_div)
  have f: "find_symbol example_rv_loader ''boot_lvl1_pt'' = Inr (0x80001000, 0x1000)"
    by (simp add: example_rv_loader_def elf_new_def find_symbol_def)
  from riscv64_tables_translate [OF ok l p(1,2) i p(3) f] obtain tables where
    "riscv64_setup_pagetables example_riscv_config example_rv_loader 0xffffffff84001000 0x84001000
       = (Inr tables :: (string, (u64 \<times> u64 \<times> u8 list) list) res)"
    and up: "\<forall>va. 0xffffffff84001000 \<le> va \<and> drop_bit 30 va = drop_bit 30 0xffffffff84001000 \<longrightarrow>
      rv_translate tables 0x80001000 va = Some (0x84001000 + (va - 0xffffffff84001000))"
    and low: "\<forall>va. 0x80000000 \<le> va \<and> drop_bit 30 va = drop_bit 30 0x80000000 \<longrightarrow>
      rv_translate tables 0x80001000 va = Some va"
    by blast
  moreover have "rv_translate tables 0x80001000 0xffffffff84212345 = Some 0x84212345"
    using up [rule_format, of "0xffffffff84212345"] by (simp add: drop_bit_eq_div)
  moreover have "rv_translate tables 0x80001000 0x80000008 = Some 0x80000008"
    using low [rule_format, of "0x80000008"] by (simp add: drop_bit_eq_div)
  ultimately show ?thesis by blast
qed

end
