(* ===== verification/Crc32.thy ===== *)
theory Crc32
  imports Rust_Std
begin

unbundle bit_operations_syntax

text \<open>
  \<open>tool/microkit/src/crc32.rs\<close>: the bitwise CRC-32 of the uImage header and payload, shown to be the checksum of the
  standard, a remainder of polynomials, and to detect a corrupted byte.
\<close>

section \<open>The checksum\<close>

definition crc_round :: "u32 \<Rightarrow> u32" where
  "crc_round crc =
     (if crc AND 1 \<noteq> 0 then drop_bit 1 crc XOR 0xEDB88320 else drop_bit 1 crc)"

definition crc_byte :: "u32 \<Rightarrow> u8 \<Rightarrow> u32" where
  "crc_byte crc byte = (crc_round ^^ 8) (crc XOR ucast byte)"

definition crc32 :: "u8 list \<Rightarrow> u32" where
  "crc32 bytes = NOT (foldl crc_byte 0xFFFFFFFF bytes)"

lemma ucast_u8_u32: "ucast (ucast byte :: u32) = (byte :: u8)"
  by (rule bit_word_eqI) (auto simp: bit_ucast_iff)

section \<open>Linearity of a round\<close>

lemma and_1_bit: "crc AND 1 \<noteq> 0 \<longleftrightarrow> bit (crc :: 'a::len word) 0"
  by (simp add: and_one_eq bit_0 mod_2_eq_odd)

lemma crc_round_eq:
  "crc_round crc = drop_bit 1 crc XOR (if bit crc 0 then 0xEDB88320 else 0)"
  by (simp add: crc_round_def and_1_bit)

lemma crc_round_xor: "crc_round (a XOR b) = crc_round a XOR crc_round b"
  by (simp add: crc_round_eq bit_xor_iff drop_bit_xor ac_simps)

lemma crc_rounds_xor: "(crc_round ^^ n) (a XOR b) = (crc_round ^^ n) a XOR (crc_round ^^ n) b"
  by (induction n) (simp_all add: crc_round_xor)

lemma crc_round_even: "\<not> bit c 0 \<Longrightarrow> crc_round c = drop_bit 1 c"
  by (simp add: crc_round_eq)

lemma crc_rounds_low_zero:
  "(\<And>i. i < n \<Longrightarrow> \<not> bit c i) \<Longrightarrow> (crc_round ^^ n) c = drop_bit n c"
proof (induction n)
  case 0
  then show ?case by simp
next
  case (Suc n)
  then have "(crc_round ^^ Suc n) c = crc_round (drop_bit n c)" by simp
  also have "\<dots> = drop_bit 1 (drop_bit n c)"
    by (rule crc_round_even) (use Suc.prems in \<open>simp add: bit_drop_bit_eq\<close>)
  finally show ?case by (simp add: drop_bit_drop_bit)
qed

section \<open>The standard\<close>

text \<open>The CRC-32 of IEEE 802.3, as a remainder of polynomials over the field of two elements.  A polynomial is the
  list of its coefficients, the highest power first; each byte of the message is taken from its lowest bit on.  The
  first 32 coefficients are complemented, the message is followed by 32 zeros, and the complement of the remainder
  by the generator polynomial is the checksum, the coefficient of the highest power in its lowest bit.\<close>

definition crc_generator_powers :: "nat set" where
  "crc_generator_powers = {32, 26, 23, 22, 16, 12, 11, 10, 8, 7, 5, 4, 2, 1, 0}"

definition crc_generator :: "bool list" where
  "crc_generator = map (\<lambda>power. power \<in> crc_generator_powers) (rev [0..<33])"

fun xor_prefix :: "bool list \<Rightarrow> bool list \<Rightarrow> bool list" where
  "xor_prefix (g # gs) (x # xs) = (g \<noteq> x) # xor_prefix gs xs"
| "xor_prefix [] xs = xs"
| "xor_prefix gs [] = []"

lemma xor_prefix_length [simp]: "length (xor_prefix gs xs) = length xs"
  by (induction gs xs rule: xor_prefix.induct) simp_all

text \<open>Long division: while the polynomial has more than 32 coefficients, the generator is subtracted if the first
  of them is set, and the first, which is then clear, is dropped.\<close>

fun poly_remainder :: "bool list \<Rightarrow> bool list" where
  "poly_remainder [] = []"
| "poly_remainder (b # bs) =
     (if length bs < 32 then b # bs
      else poly_remainder (tl (if b then xor_prefix crc_generator (b # bs) else b # bs)))"

declare poly_remainder.simps(2) [simp del]

definition message_bits :: "u8 list \<Rightarrow> bool list" where
  "message_bits bytes = concat (map (\<lambda>byte. map (bit byte) [0..<8]) bytes)"

definition crc32_standard :: "u8 list \<Rightarrow> u32" where
  "crc32_standard bytes =
     NOT (horner_sum of_bool 2
       (poly_remainder (xor_prefix (replicate 32 True) (message_bits bytes @ replicate 32 False))))"

section \<open>The division and the shift register\<close>

text \<open>The register holds the difference between what is left to divide and what is left of the message.\<close>

definition crc_bit :: "u32 \<Rightarrow> bool \<Rightarrow> u32" where
  "crc_bit crc b = crc_round (crc XOR of_bool b)"

definition overlay :: "u32 \<Rightarrow> bool list \<Rightarrow> bool list" where
  "overlay crc bs = xor_prefix (map (bit crc) [0..<32]) bs"

lemma xor_prefix_nth:
  "i < length bs \<Longrightarrow> xor_prefix gs bs ! i \<longleftrightarrow> (bs ! i \<noteq> (i < length gs \<and> gs ! i))"
  by (induction gs bs arbitrary: i rule: xor_prefix.induct) (auto simp: nth_Cons split: nat.split)

lemma overlay_length [simp]: "length (overlay crc bs) = length bs"
  by (simp add: overlay_def)

lemma overlay_nth: "i < length bs \<Longrightarrow> overlay crc bs ! i \<longleftrightarrow> (bs ! i \<noteq> bit crc i)"
  by (auto simp: overlay_def xor_prefix_nth dest: bit_imp_le_length)

text \<open>The polynomial of the code is the generator without its highest power, in the order of the register.\<close>

lemma crc_generator_reflected: "crc_generator = True # map (bit (0xEDB88320 :: u32)) [0..<32]"
  by (simp add: crc_generator_def crc_generator_powers_def upt_rec)

lemma crc_bit_nth:
  "bit (crc_bit crc b) i \<longleftrightarrow> (bit crc (Suc i) \<noteq> (bit crc 0 \<noteq> b \<and> bit (0xEDB88320 :: u32) i))"
proof -
  have "\<not> bit (of_bool b :: u32) (Suc i)" by (cases b) (simp_all add: bit_1_iff)
  moreover have "bit (of_bool b :: u32) 0 = b" by (cases b) simp_all
  ultimately show ?thesis
    by (simp add: crc_bit_def crc_round_eq bit_xor_iff bit_drop_bit_eq)
qed

lemma poly_remainder_step:
  assumes "32 \<le> length bs"
  shows "poly_remainder (overlay crc (b # bs)) = poly_remainder (overlay (crc_bit crc b) bs)"
proof -
  have first: "overlay crc (b # bs) = (b \<noteq> bit crc 0) # tl (overlay crc (b # bs))"
    using overlay_nth [of 0 "b # bs" crc] overlay_length [of crc "b # bs"]
    by (cases "overlay crc (b # bs)") auto
  let ?rest = "tl (overlay crc (b # bs))"
  let ?next = "tl (if b \<noteq> bit crc 0 then xor_prefix crc_generator (overlay crc (b # bs)) else overlay crc (b # bs))"
  have "?next = overlay (crc_bit crc b) bs"
  proof (rule nth_equalityI)
    show "length ?next = length (overlay (crc_bit crc b) bs)" by simp
    fix i
    assume "i < length ?next"
    then have i: "i < length bs" by (simp split: if_splits)
    then show "?next ! i = overlay (crc_bit crc b) bs ! i"
      by (auto simp: nth_tl xor_prefix_nth overlay_nth crc_bit_nth crc_generator_reflected
          dest: bit_imp_le_length)
  qed
  moreover have "poly_remainder (overlay crc (b # bs)) = poly_remainder ?next"
    using assms by (subst (1 2 3) first) (simp add: poly_remainder.simps(2) flip: first)
  ultimately show ?thesis by simp
qed

lemma poly_remainder_register:
  "poly_remainder (overlay crc (bs @ replicate 32 False)) = map (bit (foldl crc_bit crc bs)) [0..<32]"
proof (induction bs arbitrary: crc)
  case Nil
  have short: "poly_remainder xs = xs" if "length xs = 32" for xs
    using that by (cases xs) (simp_all add: poly_remainder.simps(2))
  have "overlay crc (replicate 32 False) = map (bit crc) [0..<32]"
    by (rule nth_equalityI) (simp_all add: overlay_nth)
  then show ?case by (simp add: short)
next
  case (Cons b bs)
  then show ?case by (simp add: poly_remainder_step)
qed

lemma crc_bits: "n \<le> 8 \<Longrightarrow> foldl crc_bit crc (map (bit byte) [0..<n]) = (crc_round ^^ n) (crc XOR take_bit n (ucast (byte :: u8)))"
proof (induction n)
  case 0
  then show ?case by simp
next
  case (Suc n)
  let ?top = "of_bool (bit byte n) * 2 ^ n :: u32"
  have split: "take_bit (Suc n) (ucast byte :: u32) = take_bit n (ucast byte) XOR ?top"
    by (rule bit_word_eqI) (auto simp: bit_take_bit_iff bit_xor_iff bit_ucast_iff bit_exp_iff less_Suc_eq split: if_splits)
  have "(crc_round ^^ n) ?top = drop_bit n ?top"
    by (rule crc_rounds_low_zero) (auto simp: bit_exp_iff)
  also have "\<dots> = of_bool (bit byte n)"
    using Suc.prems by (cases "bit byte n") (simp_all add: drop_bit_exp_eq)
  finally show ?case
    using Suc by (simp add: crc_bit_def split crc_rounds_xor flip: xor.assoc)
qed

lemma crc_byte_bits: "crc_byte crc byte = foldl crc_bit crc (map (bit byte) [0..<8])"
proof -
  have "take_bit 8 (ucast byte :: u32) = ucast byte"
    by (rule bit_word_eqI) (auto simp: bit_take_bit_iff bit_ucast_iff dest: bit_imp_le_length)
  then show ?thesis by (simp only: crc_bits [OF order_refl] crc_byte_def)
qed

lemma foldl_crc_bits: "foldl crc_bit crc (message_bits bytes) = foldl crc_byte crc bytes"
  by (induction bytes arbitrary: crc) (simp_all add: message_bits_def crc_byte_bits)

lemma crc32_standard_crc32: "crc32_standard bytes = crc32 bytes"
proof -
  have "overlay 0xFFFFFFFF bs = xor_prefix (replicate 32 True) bs" for bs
    by (simp add: overlay_def upt_rec numeral_eq_Suc)
  then have "poly_remainder (xor_prefix (replicate 32 True) (message_bits bytes @ replicate 32 False))
      = map (bit (foldl crc_byte 0xFFFFFFFF bytes)) [0..<32]"
    using poly_remainder_register [of "0xFFFFFFFF" "message_bits bytes"] by (simp only: foldl_crc_bits)
  then show ?thesis
    by (simp add: crc32_standard_def crc32_def horner_sum_bit_eq_take_bit take_bit_word_eq_self)
qed

text \<open>C39: the loop computes the CRC-32 of IEEE 802.3: the complement of the remainder, by the generator polynomial
  of the standard, of the message with its first 32 bits complemented and 32 zeros appended.\<close>

theorem crc32_is_standard: "crc32 bytes = crc32_standard bytes"
  by (simp only: crc32_standard_crc32)

section \<open>Error detection\<close>

lemma crc_round_inj: "crc_round a = crc_round b \<Longrightarrow> a = b"
proof -
  assume eq: "crc_round a = crc_round b"
  have top: "bit (crc_round c) 31 \<longleftrightarrow> bit c 0" for c
  proof -
    have "\<not> bit (drop_bit 1 c) 31" using bit_imp_le_length [of c 32] by (auto simp: bit_drop_bit_eq)
    moreover have "bit (0xEDB88320 :: u32) 31" by simp
    ultimately show ?thesis by (auto simp: crc_round_eq bit_xor_iff)
  qed
  from eq top have b0: "bit a 0 \<longleftrightarrow> bit b 0" by metis
  have "drop_bit 1 c = crc_round c XOR (if bit c 0 then 0xEDB88320 else 0)" for c
    by (cases "bit c 0") (simp_all add: crc_round_eq xor.assoc)
  with eq b0 have d: "drop_bit 1 a = drop_bit 1 b" by presburger
  show "a = b"
  proof (rule bit_word_eqI)
    fix n
    have "bit c (Suc m) = bit (drop_bit 1 c) m" for c :: u32 and m
      by (simp add: bit_drop_bit_eq)
    with b0 d show "bit a n = bit b n" by (cases n) auto
  qed
qed

lemma crc_rounds_inj: "(crc_round ^^ n) a = (crc_round ^^ n) b \<Longrightarrow> a = b"
  by (induction n) (auto dest: crc_round_inj)

lemma crc_byte_inj_state: "crc_byte a x = crc_byte b x \<Longrightarrow> a = b"
proof -
  assume "crc_byte a x = crc_byte b x"
  then have "a XOR ucast x = b XOR ucast x" unfolding crc_byte_def by (rule crc_rounds_inj)
  then have "(a XOR ucast x) XOR ucast x = (b XOR ucast x) XOR ucast x" by simp
  then show ?thesis by (simp add: xor.assoc)
qed

lemma crc_byte_inj_byte: "crc_byte c x = crc_byte c y \<Longrightarrow> x = y"
proof -
  assume "crc_byte c x = crc_byte c y"
  then have "c XOR ucast x = c XOR ucast y" unfolding crc_byte_def by (rule crc_rounds_inj)
  then have "c XOR (c XOR ucast x) = c XOR (c XOR ucast y)" by simp
  then have "(ucast x :: u32) = ucast y" by (simp flip: xor.assoc)
  then have "ucast (ucast x :: u32) = (ucast (ucast y :: u32) :: u8)" by simp
  then show ?thesis by (simp only: ucast_u8_u32)
qed

lemma foldl_crc_inj: "foldl crc_byte a bytes = foldl crc_byte b bytes \<Longrightarrow> a = b"
  by (induction bytes arbitrary: a b) (auto dest: crc_byte_inj_state)

text \<open>Changing any single byte of the payload changes the checksum.\<close>

theorem crc32_detects_byte_change:
  assumes "x \<noteq> y"
  shows "crc32 (before @ x # after) \<noteq> crc32 (before @ y # after)"
proof
  assume "crc32 (before @ x # after) = crc32 (before @ y # after)"
  then have "foldl crc_byte (crc_byte (foldl crc_byte 0xFFFFFFFF before) x) after
      = foldl crc_byte (crc_byte (foldl crc_byte 0xFFFFFFFF before) y) after"
    by (simp add: crc32_def)
  then have "x = y" by (blast dest: foldl_crc_inj crc_byte_inj_byte)
  with assms show False by contradiction
qed

theorem crc32_detects_byte_change_witness: "crc32 [7, 1, 9] \<noteq> crc32 [7, 2, 9]"
  using crc32_detects_byte_change [of 1 2 "[7]" "[9]"] by simp

text \<open>The published checksum of the one-character string \<open>a\<close>.\<close>

lemma crc32_known_answer: "crc32 [97] = 0xE8B7BE43"
  by code_simp

end
