(* ===== verification/Uimage.thy ===== *)
theory Uimage
  imports Crc32 Sel4_Config
begin

unbundle bit_operations_syntax

text \<open>
  \<open>tool/microkit/src/uimage.rs\<close>: the RISC-V loader wrapped as a Linux kernel image inside a U-Boot
  legacy image.  The result of the serialiser is the contents of the file (a failure to create the
  file is an error; later write failures panic and are not modelled).  What is shown is the layout of the file,
  byte by byte.
\<close>

section \<open>Headers\<close>

datatype uimage_error = UimageCannotCreate string

record linux_riscv_image_header =
  code0 :: u32
  code1 :: u32
  text_offset :: u64
  image_size :: u64
  lh_flags :: u64
  lh_version :: u32
  res1 :: u32
  res2 :: u64
  lh_magic :: u64
  lh_magic2 :: u32
  res3 :: u32

definition linux_header_bytes :: "linux_riscv_image_header \<Rightarrow> u8 list" where
  "linux_header_bytes h =
     le_bytes 4 (code0 h) @ le_bytes 4 (code1 h) @ le_bytes 8 (text_offset h)
     @ le_bytes 8 (image_size h) @ le_bytes 8 (lh_flags h) @ le_bytes 4 (lh_version h)
     @ le_bytes 4 (res1 h) @ le_bytes 8 (res2 h) @ le_bytes 8 (lh_magic h)
     @ le_bytes 4 (lh_magic2 h) @ le_bytes 4 (res3 h)"

record uboot_legacy_img_header =
  ih_magic :: u32
  ih_hcrc :: u32
  ih_time :: u32
  ih_size :: u32
  ih_load :: u32
  ih_ep :: u32
  ih_dcrc :: u32
  ih_os :: u8
  ih_arch :: u8
  ih_type :: u8
  ih_comp :: u8
  ih_name :: "u8 list"

definition uboot_header_bytes :: "uboot_legacy_img_header \<Rightarrow> u8 list" where
  "uboot_header_bytes h =
     le_bytes 4 (ih_magic h) @ le_bytes 4 (ih_hcrc h) @ le_bytes 4 (ih_time h)
     @ le_bytes 4 (ih_size h) @ le_bytes 4 (ih_load h) @ le_bytes 4 (ih_ep h)
     @ le_bytes 4 (ih_dcrc h) @ [ih_os h, ih_arch h, ih_type h, ih_comp h] @ ih_name h"

definition UIMAGE_NAME :: string where "UIMAGE_NAME = ''seL4 Microkit''"
definition IH_MAGIC :: u32 where "IH_MAGIC = 0x27051956"
definition IH_OS_LINUX :: u8 where "IH_OS_LINUX = 5"
definition IH_ARCH_RISCV :: u8 where "IH_ARCH_RISCV = 26"
definition IH_TYPE_KERNEL :: u8 where "IH_TYPE_KERNEL = 2"
definition IH_COMP_NONE :: u8 where "IH_COMP_NONE = 0"
definition IH_NMLEN :: nat where "IH_NMLEN = 32"

section \<open>Serialisation\<close>

definition linux_riscv_hdr :: "u8 list \<Rightarrow> linux_riscv_image_header" where
  "linux_riscv_hdr executable_payload =
     \<lparr>code0 = 0, code1 = 0, text_offset = 0, image_size = of_nat (length executable_payload),
      lh_flags = 0, lh_version = 2, res1 = 0, res2 = 0, lh_magic = 0x5643534952,
      lh_magic2 = 0x05435352, res3 = 0\<rparr>"

definition linux_image_payload :: "u8 list \<Rightarrow> u8 list" where
  "linux_image_payload executable_payload =
     linux_header_bytes (linux_riscv_hdr executable_payload) @ executable_payload"

definition uboot_hdr :: "u8 \<Rightarrow> u32 \<Rightarrow> u8 list \<Rightarrow> uboot_legacy_img_header" where
  "uboot_hdr ih_arch_le entry payload =
     \<lparr>ih_magic = swap_bytes32 IH_MAGIC, ih_hcrc = 0, ih_time = 0,
      ih_size = swap_bytes32 (of_nat (length payload)), ih_load = swap_bytes32 (entry - 64),
      ih_ep = swap_bytes32 entry, ih_dcrc = swap_bytes32 (crc32 payload), ih_os = IH_OS_LINUX,
      ih_arch = ih_arch_le, ih_type = IH_TYPE_KERNEL, ih_comp = IH_COMP_NONE,
      ih_name = string_bytes UIMAGE_NAME @ replicate (IH_NMLEN - length UIMAGE_NAME) 0\<rparr>"

definition uimage_serialise ::
    "arch \<Rightarrow> u32 \<Rightarrow> u8 list \<Rightarrow> string option \<Rightarrow> (uimage_error, u8 list) res" where
  "uimage_serialise target entry executable_payload create_error =
     bindr (case target of
              Riscv64 \<Rightarrow> Inr IH_ARCH_RISCV
            | _ \<Rightarrow> Inl (Panic UnreachableReached)) (\<lambda>ih_arch_le.
     let payload = linux_image_payload executable_payload;
         hdr = uboot_hdr ih_arch_le entry payload;
         hdr_chksum = crc32 (uboot_header_bytes hdr);
         hdr = hdr\<lparr>ih_hcrc := swap_bytes32 hdr_chksum\<rparr>
     in case create_error of
          Some e \<Rightarrow> Inl (Err (UimageCannotCreate e))
        | None \<Rightarrow> Inr (uboot_header_bytes hdr @ payload))"

section \<open>The written file\<close>

definition be32_at :: "nat \<Rightarrow> u8 list \<Rightarrow> u32" where
  "be32_at off bs = of_le_bytes (rev (take 4 (drop off bs)))"

lemma be_le_swap: "of_le_bytes (rev (le_bytes 4 (swap_bytes32 w))) = w"
  by (simp add: swap_bytes32_def le_bytes_of_le_bytes of_le_bytes_le_bytes)

lemma uboot_header_length:
  "length (ih_name h) = 32 \<Longrightarrow> length (uboot_header_bytes h) = 64"
  by (simp add: uboot_header_bytes_def)

lemma linux_header_length [simp]: "length (linux_header_bytes h) = 64"
  by (simp add: linux_header_bytes_def)

lemma uboot_hdr_name [simp]: "length (ih_name (uboot_hdr a e p)) = 32"
  by (simp add: uboot_hdr_def IH_NMLEN_def UIMAGE_NAME_def string_bytes_def)

text \<open>The header of the Linux image, byte by byte: the size at offset 16, version 2 at offset 32, and the two magic
  numbers, which read \<open>RISCV\<close> and \<open>RSC\<close>, at offsets 48 and 56.\<close>

lemma linux_riscv_hdr_bytes:
  "linux_header_bytes (linux_riscv_hdr p) =
     replicate 16 0 @ le_bytes 8 (of_nat (length p) :: u64) @ replicate 8 0 @ [2, 0, 0, 0] @ replicate 12 0
     @ [0x52, 0x49, 0x53, 0x43, 0x56, 0, 0, 0] @ [0x52, 0x53, 0x43, 5] @ replicate 4 0"
proof -
  have zero: "le_bytes n (0 :: 'a::len word) = replicate n 0" for n
    by (simp add: le_bytes_def map_replicate_const)
  have "le_bytes 8 (0x5643534952 :: u64) = [0x52, 0x49, 0x53, 0x43, 0x56, 0, 0, 0]"
    "le_bytes 4 (0x05435352 :: u32) = [0x52, 0x53, 0x43, 5]" "le_bytes 4 (2 :: u32) = [2, 0, 0, 0]"
    by (simp_all add: le_bytes_def upt_rec)
  then show ?thesis
    by (simp add: linux_header_bytes_def linux_riscv_hdr_def zero numeral_eq_Suc)
qed

text \<open>C36: the file written for a payload of less than 4 GiB, read back at the offsets of the two headers, all
  numbers of the first in big-endian order: the magic number, a checksum of the header with its own field clear, the
  size of what follows, the address to load that to, which puts the executable at its entry address, the entry
  address, a checksum of what follows, the codes for Linux, RISC-V, a kernel and no compression, and the name.  Then
  the header of a RISC-V Linux image with its size, version and magic numbers, and the executable.  The checksums
  are those of the standard.\<close>

theorem uimage_layout:
  assumes "length executable_payload + 64 < 2 ^ 32"
  shows "\<exists>img. uimage_serialise Riscv64 entry executable_payload None = Inr img
     \<and> be32_at 0 img = 0x27051956
     \<and> be32_at 4 img = crc32_standard (take 4 img @ [0, 0, 0, 0] @ take 56 (drop 8 img))
     \<and> be32_at 8 img = 0
     \<and> unat (be32_at 12 img) = length (drop 64 img)
     \<and> be32_at 16 img + 64 = entry \<and> be32_at 20 img = entry
     \<and> be32_at 24 img = crc32_standard (drop 64 img)
     \<and> take 4 (drop 28 img) = [5, 26, 2, 0]
     \<and> take 32 (drop 32 img) = string_bytes ''seL4 Microkit'' @ replicate 19 0
     \<and> drop 64 img = replicate 16 0 @ le_bytes 8 (of_nat (length executable_payload) :: u64) @ replicate 8 0
         @ [2, 0, 0, 0] @ replicate 12 0 @ [0x52, 0x49, 0x53, 0x43, 0x56, 0, 0, 0] @ [0x52, 0x53, 0x43, 5]
         @ replicate 4 0 @ executable_payload"
proof -
  define p where "p = linux_image_payload executable_payload"
  define h where "h = uboot_hdr IH_ARCH_RISCV entry p"
  define img where "img = uboot_header_bytes (h\<lparr>ih_hcrc := swap_bytes32 (crc32 (uboot_header_bytes h))\<rparr>) @ p"
  have name: "length (ih_name h) = 32" by (simp add: h_def)
  have tail: "drop 64 img = p" by (simp add: img_def uboot_header_length name)
  have size: "unat (of_nat (length p) :: u32) = length p"
    using assms by (intro unat_of_nat_small) (simp add: p_def linux_image_payload_def)
  have "of_le_bytes (rev (le_bytes 4 (0 :: u32))) = (0 :: u32)"
    by (simp add: le_bytes_def upt_rec)
  then have numbers: "be32_at 0 img = 0x27051956" "be32_at 4 img = crc32 (uboot_header_bytes h)" "be32_at 8 img = 0"
    "be32_at 12 img = of_nat (length p)" "be32_at 16 img = entry - 64" "be32_at 20 img = entry" "be32_at 24 img = crc32 p"
    by (simp_all add: img_def be32_at_def uboot_header_bytes_def h_def uboot_hdr_def be_le_swap IH_MAGIC_def)
  have codes: "take 4 (drop 28 img) = [5, 26, 2, 0]"
    by (simp add: img_def uboot_header_bytes_def h_def uboot_hdr_def IH_OS_LINUX_def IH_ARCH_RISCV_def
        IH_TYPE_KERNEL_def IH_COMP_NONE_def)
  have name_bytes: "take 32 (drop 32 img) = string_bytes ''seL4 Microkit'' @ replicate 19 0"
    by (simp add: img_def uboot_header_bytes_def h_def uboot_hdr_def IH_NMLEN_def UIMAGE_NAME_def string_bytes_def)
  have cleared: "take 4 img @ [0, 0, 0, 0] @ take 56 (drop 8 img) = uboot_header_bytes h"
    by (simp add: img_def uboot_header_bytes_def h_def uboot_hdr_def IH_NMLEN_def UIMAGE_NAME_def string_bytes_def
        le_bytes_def numeral_eq_Suc upt_rec)
  have run: "uimage_serialise Riscv64 entry executable_payload None = Inr img"
    by (simp add: uimage_serialise_def Let_def img_def h_def p_def)
  have payload: "p = replicate 16 0 @ le_bytes 8 (of_nat (length executable_payload) :: u64) @ replicate 8 0
      @ [2, 0, 0, 0] @ replicate 12 0 @ [0x52, 0x49, 0x53, 0x43, 0x56, 0, 0, 0] @ [0x52, 0x53, 0x43, 5]
      @ replicate 4 0 @ executable_payload"
    by (simp add: p_def linux_image_payload_def linux_riscv_hdr_bytes)
  show ?thesis
    by (intro exI [of _ img] conjI run, unfold tail cleared numbers)
      (simp_all only: codes name_bytes size crc32_standard_crc32 diff_add_cancel, rule payload)
qed

theorem uimage_layout_witness:
  "\<exists>img. uimage_serialise Riscv64 0x80200000 [1, 2, 3] None = Inr img
     \<and> be32_at 0 img = 0x27051956 \<and> take 4 (drop 28 img) = [5, 26, 2, 0]"
proof -
  have "length [1, 2, 3 :: u8] + 64 < 2 ^ 32" by simp
  from uimage_layout [OF this, of "0x80200000"] show ?thesis by blast
qed

end
