(* ===== verification/Loader.thy ===== *)
theory Loader
  imports Loader_Aarch64 Loader_Riscv Elf_Write Uimage
begin

unbundle bit_operations_syntax

text \<open>
  The image that boots the system: \<open>tool/microkit/src/loader.rs\<close>, from the boot loader, the kernel and the
  initial task to the bytes of the file, and the loop of \<open>loader/src/loader.c\<close> that takes it apart on the
  board.  An \<open>Err\<close> of \<open>loader_new\<close> stands for the error message and exit of the tool when the boot loader
  is not an ELF file it can read.
\<close>

section \<open>Definitions\<close>

type_synonym load_region = "u64 \<times> u8 list"

definition check_non_overlapping :: "load_region list \<Rightarrow> ('e, unit) res" where
  "check_non_overlapping rs =
     bindr (foldM (\<lambda>checked (base, data).
       let end_addr = base + of_nat (length data)
       in bindr (forM (\<lambda>(b, e). if \<not> (end_addr \<le> b \<or> base \<ge> e) then Inl (Panic ExplicitPanic) else Inr ()) checked)
            (\<lambda>_. Inr (checked @ [(base, end_addr)]))) [] rs) (\<lambda>_. Inr ())"

record loader_region64 =
  lr_load_addr :: u64
  lr_size :: u64
  lr_offset :: u64
  lr_type :: u64

record loader_header64 =
  lh_magic64 :: u64
  lh_size :: u64
  lh_kernel_entry :: u64
  lh_ui_p_reg_start :: u64
  lh_ui_p_reg_end :: u64
  lh_pv_offset :: u64
  lh_v_entry :: u64
  lh_num_regions :: u64

text \<open>\<open>struct_to_bytes\<close> of the two structures, whose fields are all \<open>u64\<close>.\<close>

definition loader_region_bytes :: "loader_region64 \<Rightarrow> u8 list" where
  "loader_region_bytes r =
     le_bytes 8 (lr_load_addr r) @ le_bytes 8 (lr_size r) @ le_bytes 8 (lr_offset r) @ le_bytes 8 (lr_type r)"

definition loader_header_bytes :: "loader_header64 \<Rightarrow> u8 list" where
  "loader_header_bytes h =
     le_bytes 8 (lh_magic64 h) @ le_bytes 8 (lh_size h) @ le_bytes 8 (lh_kernel_entry h)
     @ le_bytes 8 (lh_ui_p_reg_start h) @ le_bytes 8 (lh_ui_p_reg_end h) @ le_bytes 8 (lh_pv_offset h)
     @ le_bytes 8 (lh_v_entry h) @ le_bytes 8 (lh_num_regions h)"

record loader =
  ld_arch :: arch
  ld_image :: "u8 list"
  ld_header :: loader_header64
  ld_region_metadata :: "loader_region64 list"
  ld_regions :: "load_region list"
  ld_word_size :: nat
  ld_elf_machine :: u16
  ld_entry :: u64

definition loader_magic :: "nat \<Rightarrow> ('e, u64) res" where
  "loader_magic sz = (if sz = 32 then Inr 0x5e14dead
                      else if sz = 64 then Inr 0x5e14dead14de5ead
                      else Inl (Panic ExplicitPanic))"

text \<open>The scan of the kernel's segments.\<close>

record kernel_scan =
  kernel_first_vaddr :: "u64 option"
  kernel_last_vaddr :: "u64 option"
  kernel_first_paddr :: "u64 option"
  kernel_p_v_offset :: "u64 option"
  kernel_regions :: "load_region list"

definition scan_kernel_segment :: "kernel_scan \<Rightarrow> elf_segment \<Rightarrow> ('e, kernel_scan) res" where
  "scan_kernel_segment st segment =
     (if loadable segment then
        let first_vaddr = (case kernel_first_vaddr st of
              None \<Rightarrow> Some (virt_addr segment)
            | Some v \<Rightarrow> if virt_addr segment < v then Some (virt_addr segment) else Some v);
            vaddr_end = virt_addr segment + mem_size segment
        in bindr (if kernel_last_vaddr st = None \<or> vaddr_end > the (kernel_last_vaddr st)
                  then bindr (round_up vaddr_end (mb 2)) (\<lambda>v. Inr (Some v))
                  else Inr (kernel_last_vaddr st)) (\<lambda>last_vaddr.
           let first_paddr = (case kernel_first_paddr st of
                 None \<Rightarrow> Some (phys_addr segment)
               | Some p \<Rightarrow> if phys_addr segment < p then Some (phys_addr segment) else Some p)
           in bindr (case kernel_p_v_offset st of
                 Some p_v_offset \<Rightarrow>
                   if p_v_offset \<noteq> virt_addr segment - phys_addr segment then Inl (Panic ExplicitPanic)
                   else Inr (Some p_v_offset)
               | None \<Rightarrow> Inr (Some (virt_addr segment - phys_addr segment))) (\<lambda>p_v_offset.
              bindr (segment_data segment) (\<lambda>data.
                Inr \<lparr>kernel_first_vaddr = first_vaddr, kernel_last_vaddr = last_vaddr,
                     kernel_first_paddr = first_paddr, kernel_p_v_offset = p_v_offset,
                     kernel_regions = kernel_regions st @ [(phys_addr segment, data)]\<rparr>)))
      else Inr st)"

definition scan_kernel :: "elf_file \<Rightarrow> ('e, kernel_scan) res" where
  "scan_kernel kernel_elf =
     foldM scan_kernel_segment \<lparr>kernel_first_vaddr = None, kernel_last_vaddr = None, kernel_first_paddr = None,
       kernel_p_v_offset = None, kernel_regions = []\<rparr> (segments kernel_elf)"

text \<open>The segments of the initial task, placed from its physical base on.\<close>

definition initial_task_regions :: "elf_file \<Rightarrow> u64 \<Rightarrow> u64 \<Rightarrow> ('e, load_region list) res" where
  "initial_task_regions initial_task_elf phy_base vaddr_start =
     foldM (\<lambda>regions segment.
       if mem_size segment > 0
       then bindr (segment_data segment) (\<lambda>data.
              Inr (regions @ [(phy_base + (virt_addr segment - vaddr_start), data)]))
       else Inr regions) [] (loadable_segments initial_task_elf)"

text \<open>The tables are copied over the variables of the boot loader they are for.\<close>

definition patch_table :: "u64 \<Rightarrow> u8 list \<Rightarrow> u64 \<times> u64 \<times> u8 list \<Rightarrow> ('e, u8 list) res" where
  "patch_table image_vaddr loader_image = (\<lambda>(var_addr, var_size, var_data).
     let offset = var_addr - image_vaddr
     in bindr (assertr (var_size = of_nat (length var_data))) (\<lambda>_.
        bindr (assertr (offset > 0)) (\<lambda>_.
        bindr (assertr (offset \<le> of_nat (length loader_image))) (\<lambda>_.
        bindr (slice_at loader_image (unat offset) (unat (offset + var_size))) (\<lambda>dst.
          if length dst \<noteq> length var_data then Inl (Panic AssertFailed)
          else write_at loader_image (unat offset) var_data)))))"

definition loader_image_of :: "elf_file \<Rightarrow> (u64 \<times> u64 \<times> u8 list) list \<Rightarrow> ('e, u64 \<times> u8 list) res" where
  "loader_image_of loader_elf pagetable_vars =
     bindr (unwrapr (List.find loadable (segments loader_elf))) (\<lambda>image_segment.
     let image_vaddr = virt_addr image_segment
     in bindr (segment_data image_segment) (\<lambda>loader_image.
        if image_vaddr \<noteq> elf_entry loader_elf then Inl (Panic ExplicitPanic)
        else bindr (foldM (patch_table image_vaddr) loader_image pagetable_vars) (\<lambda>loader_image.
               Inr (image_vaddr, loader_image))))"

text \<open>The place of each region's data behind the metadata.\<close>

fun region_metadata_from :: "u64 \<Rightarrow> load_region list \<Rightarrow> loader_region64 list" where
  "region_metadata_from off [] = []"
| "region_metadata_from off ((addr, data) # rs) =
     \<lparr>lr_load_addr = addr, lr_size = of_nat (length data), lr_offset = off, lr_type = 1\<rparr>
     # region_metadata_from (off + of_nat (length data)) rs"

text \<open>\<open>Loader::new\<close>, from the point on where the boot loader has been read.\<close>

definition loader_from_elf ::
    "config \<Rightarrow> elf_file \<Rightarrow> elf_file \<Rightarrow> elf_file \<Rightarrow> u64 \<Rightarrow> u64 \<times> u64 \<Rightarrow> ('e, loader) res" where
  "loader_from_elf cfg loader_elf kernel_elf initial_task_elf initial_task_phy_base vaddr_range =
     bindr (loader_magic (elf_word_size loader_elf)) (\<lambda>magic.
     bindr (scan_kernel kernel_elf) (\<lambda>scan.
     bindr (initial_task_regions initial_task_elf initial_task_phy_base (fst vaddr_range)) (\<lambda>task_regions.
     let regions = kernel_regions scan @ task_regions
     in bindr (case kernel_first_vaddr scan of None \<Rightarrow> Inl (Panic ExplicitPanic) | Some v \<Rightarrow> Inr v) (\<lambda>first_vaddr.
        bindr (case kernel_first_paddr scan of None \<Rightarrow> Inl (Panic ExplicitPanic) | Some p \<Rightarrow> Inr p) (\<lambda>first_paddr.
        bindr (case arch cfg of
               Aarch64 \<Rightarrow> aarch64_setup_pagetables loader_elf first_vaddr first_paddr
             | Riscv64 \<Rightarrow> riscv64_setup_pagetables cfg loader_elf first_vaddr first_paddr
             | X86_64 \<Rightarrow> Inl (Panic UnreachableReached)) (\<lambda>pagetable_vars.
        bindr (loader_image_of loader_elf pagetable_vars) (\<lambda>(image_vaddr, loader_image).
        let pv_offset = initial_task_phy_base - fst vaddr_range;
            ui_p_reg_start = initial_task_phy_base;
            ui_p_reg_end = ui_p_reg_start + (snd vaddr_range - fst vaddr_range)
        in bindr (assertr (ui_p_reg_end > ui_p_reg_start)) (\<lambda>_.
           bindr (check_non_overlapping (regions @ [(image_vaddr, loader_image)])) (\<lambda>_.
           let region_metadata = region_metadata_from 0 regions;
               size = 64 + foldl (\<lambda>acc x. acc + lr_size x + 32) 0 region_metadata;
               header = \<lparr>lh_magic64 = magic, lh_size = size, lh_kernel_entry = elf_entry kernel_elf,
                         lh_ui_p_reg_start = ui_p_reg_start, lh_ui_p_reg_end = ui_p_reg_end, lh_pv_offset = pv_offset,
                         lh_v_entry = elf_entry initial_task_elf, lh_num_regions = of_nat (length regions)\<rparr>
           in Inr \<lparr>ld_arch = arch cfg, ld_image = loader_image, ld_header = header,
                   ld_region_metadata = region_metadata, ld_regions = regions,
                   ld_word_size = elf_word_size kernel_elf, ld_elf_machine = elf_machine kernel_elf,
                   ld_entry = elf_entry loader_elf\<rparr>)))))))))"

definition loader_new ::
    "config \<Rightarrow> string \<Rightarrow> string + u8 list \<Rightarrow> elf_file \<Rightarrow> elf_file \<Rightarrow> u64 \<Rightarrow> u64 \<times> u64 \<Rightarrow> (elf_error, loader) res" where
  "loader_new cfg loader_elf_path contents kernel_elf initial_task_elf initial_task_phy_base vaddr_range =
     (if arch cfg = X86_64 then Inl (Panic UnreachableReached)
      else bindr (elf_from_path loader_elf_path contents) (\<lambda>loader_elf.
             loader_from_elf cfg loader_elf kernel_elf initial_task_elf initial_task_phy_base vaddr_range))"

definition loader_to_bytes :: "loader \<Rightarrow> u8 list" where
  "loader_to_bytes ld =
     ld_image ld @ loader_header_bytes (ld_header ld)
     @ concat (map loader_region_bytes (ld_region_metadata ld)) @ concat (map snd (ld_regions ld))"

text \<open>The three ways to write it; the argument \<open>create_error\<close> is the error of creating the file, if any, and
  the result the contents of the file.\<close>

definition write_image :: "string option \<Rightarrow> loader \<Rightarrow> ('e, u8 list) res" where
  "write_image create_error ld = (case create_error of
      None \<Rightarrow> Inr (loader_to_bytes ld)
    | Some _ \<Rightarrow> Inl (Panic ExplicitPanic))"

definition convert_to_elf :: "string \<Rightarrow> loader \<Rightarrow> elf_file" where
  "convert_to_elf path ld =
     add_segment True True True (ld_entry ld) (RealData (loader_to_bytes ld)) None
       (elf_new path (ld_word_size ld) (ld_entry ld) (ld_elf_machine ld))"

text \<open>Every error becomes the same panic.\<close>

definition or_panic :: "('e, 'a) res \<Rightarrow> ('f, 'a) res" where
  "or_panic m = (case m of
      Inr x \<Rightarrow> Inr x | Inl (Err _) \<Rightarrow> Inl (Panic ExplicitPanic) | Inl (Panic p) \<Rightarrow> Inl (Panic p))"

definition write_elf :: "string \<Rightarrow> string option \<Rightarrow> loader \<Rightarrow> ('e, u8 list) res" where
  "write_elf path create_error ld = or_panic (reserialise create_error (convert_to_elf path ld))"

definition write_uimage :: "string option \<Rightarrow> loader \<Rightarrow> ('e, u8 list) res" where
  "write_uimage create_error ld =
     (let executable_payload = loader_to_bytes ld
      in if unat (ld_entry ld) < 2 ^ 32
         then or_panic (uimage_serialise (ld_arch ld) (ucast (ld_entry ld)) executable_payload create_error)
         else Inl (Panic ExplicitPanic))"

section \<open>Overlap\<close>

definition apart :: "load_region \<Rightarrow> load_region \<Rightarrow> bool" where
  "apart r r' \<longleftrightarrow> fst r' + of_nat (length (snd r')) \<le> fst r \<or> fst r' \<ge> fst r + of_nat (length (snd r))"

lemma check_non_overlapping_from:
  "foldM (\<lambda>checked (base, data).
       let end_addr = base + of_nat (length data)
       in bindr (forM (\<lambda>(b, e). if \<not> (end_addr \<le> b \<or> base \<ge> e) then Inl (Panic ExplicitPanic) else Inr ()) checked)
            (\<lambda>_. Inr (checked @ [(base, end_addr)])))
     (map (\<lambda>r. (fst r, fst r + of_nat (length (snd r)))) done_rs) rs = (Inr c :: ('e, (u64 \<times> u64) list) res) \<Longrightarrow>
   (\<forall>r \<in> set done_rs. \<forall>r' \<in> set rs. apart r r') \<and> sorted_wrt apart rs"
proof (induction rs arbitrary: done_rs)
  case Nil
  then show ?case by simp
next
  case (Cons r rs)
  obtain base data where r: "r = (base, data)" by (cases r)
  from Cons.prems have now: "\<forall>r' \<in> set done_rs. apart r' r"
    by (auto simp: r Let_def bindr_eq_Inr forM_eq_Inr apart_def split: if_splits)
  from Cons.prems have "foldM (\<lambda>checked (base, data).
       let end_addr = base + of_nat (length data)
       in bindr (forM (\<lambda>(b, e). if \<not> (end_addr \<le> b \<or> base \<ge> e) then Inl (Panic ExplicitPanic) else Inr ()) checked)
            (\<lambda>_. Inr (checked @ [(base, end_addr)])))
     (map (\<lambda>r. (fst r, fst r + of_nat (length (snd r)))) (done_rs @ [r])) rs = (Inr c :: ('e, (u64 \<times> u64) list) res)"
    by (auto simp: r Let_def bindr_eq_Inr)
  from Cons.IH [OF this] now show ?case by auto
qed

lemma check_non_overlapping_apart:
  "check_non_overlapping rs = (Inr () :: ('e, unit) res) \<Longrightarrow> sorted_wrt apart rs"
  using check_non_overlapping_from [of "[]" rs] by (auto simp: check_non_overlapping_def bindr_eq_Inr)

text \<open>Regions that do not reach the end of the address space are apart when their numbers are.\<close>

lemma apart_unat:
  assumes "apart r r'" "unat (fst r) + length (snd r) < 2 ^ 64" "unat (fst r') + length (snd r') < 2 ^ 64"
  shows "unat (fst r') + length (snd r') \<le> unat (fst r) \<or> unat (fst r) + length (snd r) \<le> unat (fst r')"
proof -
  have "unat (fst r + of_nat (length (snd r))) = unat (fst r) + length (snd r)"
    "unat (fst r' + of_nat (length (snd r'))) = unat (fst r') + length (snd r')"
    using assms(2,3) by (simp_all add: unat_word_ariths unat_of_nat)
  with assms(1) show ?thesis by (simp add: apart_def word_le_nat_alt)
qed

section \<open>The regions\<close>

lemma scan_kernel_regions:
  "scan_kernel elf = (Inr st :: ('e, kernel_scan) res) \<Longrightarrow>
     kernel_regions st = map (\<lambda>s. (phys_addr s, raw s)) (loadable_segments elf)"
proof -
  assume a: "scan_kernel elf = (Inr st :: ('e, kernel_scan) res)"
  have "kernel_regions st = map (\<lambda>s. (phys_addr s, raw s)) (filter loadable (segments elf))"
    by (rule foldM_inv_prefix [OF a [unfolded scan_kernel_def],
          where I = "\<lambda>ys st. kernel_regions st = map (\<lambda>s. (phys_addr s, raw s)) (filter loadable ys)"])
      (auto simp: scan_kernel_segment_def Let_def bindr_eq_Inr segment_data_def raw_def
        split: if_splits elf_segment_data.splits)
  then show ?thesis by (simp add: loadable_segments_def)
qed

lemma initial_task_regions_eq:
  "initial_task_regions elf base start = (Inr rs :: ('e, load_region list) res) \<Longrightarrow>
     rs = map (\<lambda>s. (base + (virt_addr s - start), raw s)) (filter (\<lambda>s. mem_size s > 0) (loadable_segments elf))"
  unfolding initial_task_regions_def
  by (erule foldM_inv_prefix)
    (auto simp: bindr_eq_Inr segment_data_def raw_def split: if_splits elf_segment_data.splits)

lemma length_region_metadata [simp]: "length (region_metadata_from off rs) = length rs"
  by (induction off rs rule: region_metadata_from.induct) simp_all

lemma region_metadata_nth:
  "i < length rs \<Longrightarrow> region_metadata_from off rs ! i =
     \<lparr>lr_load_addr = fst (rs ! i), lr_size = of_nat (length (snd (rs ! i))),
      lr_offset = off + of_nat (sum_list (map (length \<circ> snd) (take i rs))), lr_type = 1\<rparr>"
proof (induction off rs arbitrary: i rule: region_metadata_from.induct)
  case (2 off addr data rs)
  then show ?case by (cases i) (simp_all add: ac_simps)
qed simp

lemma loader_header_length [simp]: "length (loader_header_bytes h) = 64"
  by (simp add: loader_header_bytes_def)

lemma loader_region_length [simp]: "length (loader_region_bytes r) = 32"
  by (simp add: loader_region_bytes_def)

lemma size_of_regions:
  "foldl (\<lambda>acc x. acc + lr_size x + 32) a (region_metadata_from off rs) =
     a + of_nat (32 * length rs + length (concat (map snd rs)))"
  by (induction off rs arbitrary: a rule: region_metadata_from.induct) (simp_all add: ac_simps)

text \<open>What a loader is made of.\<close>

lemma loader_from_elf_fields:
  assumes "loader_from_elf cfg loader_elf kernel_elf task_elf base (lo, hi) = (Inr ld :: ('e, loader) res)"
  shows "ld_regions ld = map (\<lambda>s. (phys_addr s, raw s)) (loadable_segments kernel_elf)
       @ map (\<lambda>s. (base + (virt_addr s - lo), raw s)) (filter (\<lambda>s. mem_size s > 0) (loadable_segments task_elf))"
    and "ld_region_metadata ld = region_metadata_from 0 (ld_regions ld)"
    and "sorted_wrt apart (ld_regions ld @ [(ld_entry ld, ld_image ld)])"
    and "lh_num_regions (ld_header ld) = of_nat (length (ld_regions ld))"
    and "lh_size (ld_header ld) = 64 + of_nat (32 * length (ld_regions ld) + length (concat (map snd (ld_regions ld))))"
    and "lh_kernel_entry (ld_header ld) = elf_entry kernel_elf" "lh_v_entry (ld_header ld) = elf_entry task_elf"
    and "lh_ui_p_reg_start (ld_header ld) = base" "lh_ui_p_reg_end (ld_header ld) = base + (hi - lo)"
    and "lh_pv_offset (ld_header ld) = base - lo" "base < base + (hi - lo)"
    and "ld_entry ld = elf_entry loader_elf" "ld_arch ld = arch cfg" "ld_word_size ld = elf_word_size kernel_elf"
proof -
  from assms obtain magic scan task v p tables image where
    steps: "scan_kernel kernel_elf = (Inr scan :: ('e, kernel_scan) res)"
      "initial_task_regions task_elf base lo = (Inr task :: ('e, load_region list) res)"
      "loader_image_of loader_elf tables = (Inr (elf_entry loader_elf, image) :: ('e, u64 \<times> u8 list) res)"
      "base < base + (hi - lo)"
      "check_non_overlapping ((kernel_regions scan @ task) @ [(elf_entry loader_elf, image)]) = (Inr () :: ('e, unit) res)"
    and ld: "ld = \<lparr>ld_arch = arch cfg, ld_image = image, ld_header = \<lparr>lh_magic64 = magic,
         lh_size = 64 + foldl (\<lambda>acc x. acc + lr_size x + 32) 0 (region_metadata_from 0 (kernel_regions scan @ task)),
         lh_kernel_entry = elf_entry kernel_elf, lh_ui_p_reg_start = base, lh_ui_p_reg_end = base + (hi - lo),
         lh_pv_offset = base - lo, lh_v_entry = elf_entry task_elf,
         lh_num_regions = of_nat (length (kernel_regions scan @ task))\<rparr>,
       ld_region_metadata = region_metadata_from 0 (kernel_regions scan @ task),
       ld_regions = kernel_regions scan @ task, ld_word_size = elf_word_size kernel_elf,
       ld_elf_machine = elf_machine kernel_elf, ld_entry = elf_entry loader_elf\<rparr>"
    by (auto simp: loader_from_elf_def Let_def bindr_eq_Inr assertr_eq_Inr loader_image_of_def split: if_splits)
  note regions = scan_kernel_regions [OF steps(1)] initial_task_regions_eq [OF steps(2)]
  from check_non_overlapping_apart [OF steps(5)]
  show "sorted_wrt apart (ld_regions ld @ [(ld_entry ld, ld_image ld)])" by (simp add: ld)
  show "lh_size (ld_header ld) = 64 + of_nat (32 * length (ld_regions ld) + length (concat (map snd (ld_regions ld))))"
    by (simp add: ld size_of_regions)
  show "ld_regions ld = map (\<lambda>s. (phys_addr s, raw s)) (loadable_segments kernel_elf)
       @ map (\<lambda>s. (base + (virt_addr s - lo), raw s)) (filter (\<lambda>s. mem_size s > 0) (loadable_segments task_elf))"
    by (simp add: ld regions)
  show "ld_region_metadata ld = region_metadata_from 0 (ld_regions ld)"
    "lh_num_regions (ld_header ld) = of_nat (length (ld_regions ld))"
    "lh_kernel_entry (ld_header ld) = elf_entry kernel_elf" "lh_v_entry (ld_header ld) = elf_entry task_elf"
    "lh_ui_p_reg_start (ld_header ld) = base" "lh_ui_p_reg_end (ld_header ld) = base + (hi - lo)"
    "lh_pv_offset (ld_header ld) = base - lo" "base < base + (hi - lo)"
    "ld_entry ld = elf_entry loader_elf" "ld_arch ld = arch cfg" "ld_word_size ld = elf_word_size kernel_elf"
    using steps(4) by (simp_all add: ld)
qed

end
