(* ===== verification/Loader_Boot.thy ===== *)
theory Loader_Boot
  imports Loader
begin

unbundle bit_operations_syntax

text \<open>
  The image of \<open>Loader\<close> on the board: the memory it is put into, and \<open>copy_data\<close> of \<open>loader/src/loader.c\<close>,
  which copies every region from behind the header to the address it is for.
\<close>

section \<open>Memory\<close>

type_synonym memory = "u64 \<Rightarrow> u8"

definition holds_bytes :: "memory \<Rightarrow> u64 \<Rightarrow> u8 list \<Rightarrow> bool" where
  "holds_bytes m a bs \<longleftrightarrow> (\<forall>k < length bs. m (a + of_nat k) = bs ! k)"

definition within :: "u64 \<Rightarrow> nat \<Rightarrow> u64 \<Rightarrow> bool" where
  "within a n x \<longleftrightarrow> unat (x - a) < n"

definition mem_u64 :: "memory \<Rightarrow> u64 \<Rightarrow> u64" where
  "mem_u64 m a = of_le_bytes (map (\<lambda>k. m (a + of_nat k)) [0..<8])"

text \<open>\<open>memcpy\<close> of \<open>loader/src/cutil.c\<close>, byte by byte upwards.\<close>

definition memcpy :: "u64 \<Rightarrow> u64 \<Rightarrow> u64 \<Rightarrow> memory \<Rightarrow> memory" where
  "memcpy dst src n m = fold (\<lambda>k m. m(dst + of_nat k := m (src + of_nat k))) [0..<unat n] m"

text \<open>The loop of the boot loader over its regions; a header has 64 bytes and the description of a region
  32.  The count is read once: where what is copied leaves the header alone, which \<open>image_clear\<close> below says, reading it
  again before every region gives the same.\<close>

definition copy_region :: "u64 \<Rightarrow> u64 \<Rightarrow> nat \<Rightarrow> memory \<Rightarrow> memory" where
  "copy_region loader_data base i m =
     (let r = loader_data + 64 + 32 * of_nat i
      in memcpy (mem_u64 m r) (base + mem_u64 m (r + 16)) (mem_u64 m (r + 8)) m)"

definition copy_data :: "u64 \<Rightarrow> memory \<Rightarrow> memory" where
  "copy_data loader_data m =
     (let num_regions = mem_u64 m (loader_data + 56);
          base = loader_data + 64 + 32 * num_regions
      in fold (copy_region loader_data base) [0..<unat num_regions] m)"

lemma within_iff:
  "unat a + n \<le> 2 ^ 64 \<Longrightarrow> within a n x \<longleftrightarrow> unat a \<le> unat x \<and> unat x < unat a + n"
  using u64_lt [of x] u64_lt [of a] by (auto simp: within_def unat_sub_if')

lemma within_offset: "k < n \<Longrightarrow> n \<le> 2 ^ 64 \<Longrightarrow> within a n (a + of_nat k)"
  by (simp add: within_def unat_of_nat_small)

lemma holds_bytes_within:
  assumes len: "length bs \<le> 2 ^ 64"
  shows "holds_bytes m a bs \<longleftrightarrow> (\<forall>x. within a (length bs) x \<longrightarrow> m x = bs ! unat (x - a))"
proof (rule iffI; (intro allI impI)?)
  fix x assume "holds_bytes m a bs" "within a (length bs) x"
  then have "m (a + of_nat (unat (x - a))) = bs ! unat (x - a)"
    unfolding holds_bytes_def within_def by blast
  then show "m x = bs ! unat (x - a)" by simp
next
  assume all: "\<forall>x. within a (length bs) x \<longrightarrow> m x = bs ! unat (x - a)"
  show "holds_bytes m a bs" unfolding holds_bytes_def
  proof (intro allI impI)
    fix k assume k: "k < length bs"
    with all within_offset [OF k len] have "m (a + of_nat k) = bs ! unat (of_nat k :: u64)" by simp
    with k len show "m (a + of_nat k) = bs ! k" by (simp add: unat_of_nat_small)
  qed
qed

lemma all_less_add: "(\<forall>k < n + p. P k) \<longleftrightarrow> (\<forall>k < n. P k) \<and> (\<forall>k < (p :: nat). P (n + k))"
proof
  assume a: "(\<forall>k < n. P k) \<and> (\<forall>k < p. P (n + k))"
  show "\<forall>k < n + p. P k"
  proof (intro allI impI)
    fix k assume "k < n + p"
    with a show "P k" by (cases "k < n") (auto dest!: spec [of _ "k - n"])
  qed
qed simp

lemma holds_bytes_append:
  "holds_bytes m a (xs @ ys) \<longleftrightarrow> holds_bytes m a xs \<and> holds_bytes m (a + of_nat (length xs)) ys"
  by (simp add: holds_bytes_def all_less_add nth_append add.assoc)

lemma holds_bytes_u64: "holds_bytes m a (le_bytes 8 (w :: u64)) \<Longrightarrow> mem_u64 m a = w"
proof -
  assume a: "holds_bytes m a (le_bytes 8 w)"
  have "map (\<lambda>k. m (a + of_nat k)) [0..<8] = le_bytes 8 w"
    by (rule nth_equalityI) (use a in \<open>auto simp: holds_bytes_def\<close>)
  then show ?thesis by (simp add: mem_u64_def of_le_bytes_le_bytes)
qed

lemma holds_bytes_kept:
  "holds_bytes m a bs \<Longrightarrow> length bs \<le> 2 ^ 64 \<Longrightarrow> (\<And>x. within a (length bs) x \<Longrightarrow> m' x = m x) \<Longrightarrow> holds_bytes m' a bs"
  by (simp add: holds_bytes_within)

lemma memcpy_holds:
  assumes src: "holds_bytes m src bs" and len: "length bs < 2 ^ 64"
    and clear: "\<And>x. within src (length bs) x \<Longrightarrow> \<not> within dst (length bs) x"
  shows "holds_bytes (memcpy dst src (of_nat (length bs)) m) dst bs"
    and "\<not> within dst (length bs) x \<Longrightarrow> memcpy dst src (of_nat (length bs)) m x = m x"
proof -
  define M where "M k = fold (\<lambda>k m. m(dst + of_nat k := m (src + of_nat k))) [0..<k] m" for k
  have n: "memcpy dst src (of_nat (length bs)) m = M (length bs)"
    using len by (simp add: memcpy_def M_def unat_of_nat_small)
  have "k \<le> length bs \<Longrightarrow>
      (\<forall>x. M k x = (if within dst k x then bs ! unat (x - dst) else m x))" for k
  proof (induction k)
    case 0
    then show ?case by (simp add: M_def within_def)
  next
    case (Suc k)
    then have IH: "M k x = (if within dst k x then bs ! unat (x - dst) else m x)" for x by auto
    have k: "unat (of_nat k :: u64) = k" using Suc.prems len by (simp add: unat_of_nat_small)
    have "\<not> within dst (length bs) (src + of_nat k)"
      by (rule clear) (use Suc.prems len within_offset in auto)
    then have "\<not> within dst k (src + of_nat k)" using Suc.prems by (simp add: within_def)
    then have read: "M k (src + of_nat k) = bs ! k" using src Suc.prems by (simp add: IH holds_bytes_def)
    have here: "x = dst + of_nat k \<longleftrightarrow> unat (x - dst) = k" for x
    proof
      assume "unat (x - dst) = k"
      then have "of_nat (unat (x - dst)) = (of_nat k :: u64)" by simp
      then show "x = dst + of_nat k" by (simp add: algebra_simps)
    qed (simp add: k)
    have "M (Suc k) x = (if x = dst + of_nat k then bs ! k else M k x)" for x
      using read by (simp add: M_def)
    then show ?case by (auto simp: IH here within_def less_Suc_eq)
  qed
  then have all: "M (length bs) x = (if within dst (length bs) x then bs ! unat (x - dst) else m x)" for x by blast
  then show "\<not> within dst (length bs) x \<Longrightarrow> memcpy dst src (of_nat (length bs)) m x = m x" by (simp add: n)
  show "holds_bytes (memcpy dst src (of_nat (length bs)) m) dst bs"
    using len by (simp add: n all holds_bytes_within)
qed

text \<open>A range in the middle of a sequence of pieces.\<close>

lemma holds_bytes_nth:
  assumes "holds_bytes m a (concat xss)" "i < length xss"
  shows "holds_bytes m (a + of_nat (sum_list (map length (take i xss)))) (xss ! i)"
proof -
  have "concat xss = concat (take i xss) @ xss ! i @ concat (drop (Suc i) xss)"
    using assms(2) by (metis concat.simps(2) concat_append id_take_nth_drop)
  with assms(1) show ?thesis by (simp add: holds_bytes_append length_concat)
qed

section \<open>The payload\<close>

text \<open>What the boot loader reads: the image, the header, the descriptions and the data.\<close>

definition data_base :: "loader \<Rightarrow> u64" where
  "data_base ld = ld_entry ld + of_nat (length (ld_image ld)) + 64 + 32 * of_nat (length (ld_regions ld))"

lemma payload_read:
  assumes "holds_bytes m (ld_entry ld) (loader_to_bytes ld)"
    and "ld_region_metadata ld = region_metadata_from 0 (ld_regions ld)"
    and "lh_num_regions (ld_header ld) = of_nat (length (ld_regions ld))" and "i < length (ld_regions ld)"
  defines "r \<equiv> ld_entry ld + of_nat (length (ld_image ld)) + 64 + 32 * of_nat i"
  shows "mem_u64 m r = fst (ld_regions ld ! i)" and "mem_u64 m (r + 8) = of_nat (length (snd (ld_regions ld ! i)))"
    and "mem_u64 m (r + 16) = of_nat (sum_list (map (length \<circ> snd) (take i (ld_regions ld))))"
    and "holds_bytes m (data_base ld + mem_u64 m (r + 16)) (snd (ld_regions ld ! i))"
proof -
  let ?md = "map loader_region_bytes (ld_region_metadata ld)" and ?e = "ld_entry ld + of_nat (length (ld_image ld)) + 64"
  have len: "sum_list (map length (take k ?md)) = 32 * k" if "k \<le> length (ld_regions ld)" for k
    using that assms(2) by (simp add: take_map comp_def sum_list_triv)
  have parts: "holds_bytes m ?e (concat ?md)" "holds_bytes m (data_base ld) (concat (map snd (ld_regions ld)))"
    using assms(1) len [of "length (ld_regions ld)"] assms(2)
    by (simp_all add: loader_to_bytes_def holds_bytes_append data_base_def length_concat ac_simps)
  have "holds_bytes m r (loader_region_bytes (region_metadata_from 0 (ld_regions ld) ! i))"
    using holds_bytes_nth [OF parts(1), of i] len [of i] assms(2,4) by (simp add: r_def)
  then have fields: "mem_u64 m r = fst (ld_regions ld ! i)" "mem_u64 m (r + 8) = of_nat (length (snd (ld_regions ld ! i)))"
    "mem_u64 m (r + 16) = of_nat (sum_list (map (length \<circ> snd) (take i (ld_regions ld))))"
    using assms(4) by (auto simp: loader_region_bytes_def region_metadata_nth holds_bytes_append add.assoc
        dest!: holds_bytes_u64)
  then show "mem_u64 m r = fst (ld_regions ld ! i)" "mem_u64 m (r + 8) = of_nat (length (snd (ld_regions ld ! i)))"
    "mem_u64 m (r + 16) = of_nat (sum_list (map (length \<circ> snd) (take i (ld_regions ld))))"
    by blast+
  show "holds_bytes m (data_base ld + mem_u64 m (r + 16)) (snd (ld_regions ld ! i))"
    using holds_bytes_nth [OF parts(2), of i] assms(4) fields(3) by (simp add: take_map)
qed

section \<open>The loop\<close>

text \<open>The regions stay clear of the image, which here is all of the bytes that the boot loader is followed by,
  and of the end of the address space.\<close>

definition image_clear :: "loader \<Rightarrow> bool" where
  "image_clear ld \<longleftrightarrow> unat (ld_entry ld) + length (loader_to_bytes ld) \<le> 2 ^ 64
     \<and> (\<forall>(a, d) \<in> set (ld_regions ld). unat a + length d < 2 ^ 64
          \<and> (unat a + length d \<le> unat (ld_entry ld) \<or> unat (ld_entry ld) + length (loader_to_bytes ld) \<le> unat a))"

definition in_region :: "load_region \<Rightarrow> u64 \<Rightarrow> bool" where
  "in_region r x \<longleftrightarrow> within (fst r) (length (snd r)) x"

lemma regions_disjoint:
  assumes "image_clear ld" "sorted_wrt apart (ld_regions ld)" "j < i" "i < length (ld_regions ld)"
    "in_region (ld_regions ld ! i) x"
  shows "\<not> in_region (ld_regions ld ! j) x"
proof -
  let ?r = "ld_regions ld ! j" and ?r' = "ld_regions ld ! i"
  have "?r \<in> set (ld_regions ld)" "?r' \<in> set (ld_regions ld)" using assms(3,4) by auto
  with assms(1) have bounds: "unat (fst ?r) + length (snd ?r) < 2 ^ 64" "unat (fst ?r') + length (snd ?r') < 2 ^ 64"
    by (auto simp: image_clear_def case_prod_unfold)
  have "apart ?r ?r'" using assms(2-4) by (simp add: sorted_wrt_iff_nth_less)
  from apart_unat [OF this bounds] bounds assms(5) show ?thesis by (auto simp: in_region_def within_iff)
qed

lemma image_outside:
  assumes "image_clear ld" "r \<in> set (ld_regions ld)" "within (ld_entry ld) (length (loader_to_bytes ld)) x"
  shows "\<not> in_region r x"
  using assms by (cases r) (auto simp: image_clear_def in_region_def within_iff)

lemma within_sub:
  assumes "within (a + of_nat i) n x" "i + n \<le> l" "unat a + l \<le> 2 ^ 64"
  shows "within a l x"
proof -
  have "n \<noteq> 0" using assms(1) by (auto simp: within_def)
  then have "unat (a + of_nat i) = unat a + i"
    using assms(2,3) by (simp add: unat_word_ariths unat_of_nat_small)
  with assms show ?thesis by (simp add: within_iff)
qed

lemma payload_data_within:
  assumes "image_clear ld" and md: "ld_region_metadata ld = region_metadata_from 0 (ld_regions ld)"
      "lh_num_regions (ld_header ld) = of_nat (length (ld_regions ld))" "i < length (ld_regions ld)"
    and held: "holds_bytes m (ld_entry ld) (loader_to_bytes ld)"
    and x: "within (data_base ld + mem_u64 m (ld_entry ld + of_nat (length (ld_image ld)) + 64 + 32 * of_nat i + 16))
      (length (snd (ld_regions ld ! i))) x"
  shows "within (ld_entry ld) (length (loader_to_bytes ld)) x"
proof -
  let ?off = "length (ld_image ld) + 64 + 32 * length (ld_regions ld) + sum_list (map (length \<circ> snd) (take i (ld_regions ld)))"
  have "data_base ld + mem_u64 m (ld_entry ld + of_nat (length (ld_image ld)) + 64 + 32 * of_nat i + 16) = ld_entry ld + of_nat ?off"
    unfolding payload_read(3) [OF held md] data_base_def by simp
  with x have "within (ld_entry ld + of_nat ?off) (length (snd (ld_regions ld ! i))) x" by simp
  moreover have "ld_regions ld = take i (ld_regions ld) @ ld_regions ld ! i # drop (Suc i) (ld_regions ld)"
    using md(3) by (rule id_take_nth_drop)
  then have "length (concat (map snd (ld_regions ld))) = sum_list (map (length \<circ> snd) (take i (ld_regions ld)))
      + length (snd (ld_regions ld ! i)) + length (concat (map snd (drop (Suc i) (ld_regions ld))))"
    by (metis (no_types, lifting) concat.simps(2) concat_append length_append length_concat list.map(2) map_append
        map_map group_cancel.add1)
  then have "?off + length (snd (ld_regions ld ! i)) \<le> length (loader_to_bytes ld)"
    using md(1) by (simp add: loader_to_bytes_def length_concat comp_def sum_list_triv)
  ultimately show ?thesis using assms(1) by (elim within_sub) (auto simp: image_clear_def)
qed

lemma copy_data_loop:
  assumes clear: "image_clear ld" and disjoint: "sorted_wrt apart (ld_regions ld)"
    and held: "holds_bytes m (ld_entry ld) (loader_to_bytes ld)"
    and md: "ld_region_metadata ld = region_metadata_from 0 (ld_regions ld)"
      "lh_num_regions (ld_header ld) = of_nat (length (ld_regions ld))"
    and "k \<le> length (ld_regions ld)"
  defines "M \<equiv> \<lambda>k. fold (copy_region (ld_entry ld + of_nat (length (ld_image ld))) (data_base ld)) [0..<k] m"
  shows "(\<forall>x. (\<forall>j < k. \<not> in_region (ld_regions ld ! j) x) \<longrightarrow> M k x = m x)
    \<and> (\<forall>j < k. holds_bytes (M k) (fst (ld_regions ld ! j)) (snd (ld_regions ld ! j)))"
  using \<open>k \<le> length (ld_regions ld)\<close>
proof (induction k)
  case 0
  then show ?case by (simp add: M_def)
next
  case (Suc k)
  let ?r = "ld_regions ld ! k"
  from Suc have IH: "\<forall>x. (\<forall>j < k. \<not> in_region (ld_regions ld ! j) x) \<longrightarrow> M k x = m x"
    "\<forall>j < k. holds_bytes (M k) (fst (ld_regions ld ! j)) (snd (ld_regions ld ! j))" and k: "k < length (ld_regions ld)"
    by auto
  have "length (loader_to_bytes ld) \<le> 2 ^ 64" using clear by (auto simp: image_clear_def)
  then have held_k: "holds_bytes (M k) (ld_entry ld) (loader_to_bytes ld)"
    by (rule holds_bytes_kept [OF held]) (use IH(1) image_outside [OF clear] k in auto)
  note read = payload_read [OF held_k md k]
  have small: "length (snd (ld_regions ld ! j)) < 2 ^ 64" if "j < length (ld_regions ld)" for j
    using clear nth_mem [OF that] by (auto simp: image_clear_def case_prod_unfold)
  have data_clear: "\<not> within (fst ?r) (length (snd ?r)) x"
    if "within (data_base ld + mem_u64 (M k) (ld_entry ld + of_nat (length (ld_image ld)) + 64 + 32 * of_nat k + 16))
      (length (snd ?r)) x" for x
    using image_outside [OF clear nth_mem [OF k], OF payload_data_within [OF clear md k held_k that]]
    by (simp add: in_region_def)
  have step: "M (Suc k) = memcpy (fst ?r) (data_base ld + mem_u64 (M k)
      (ld_entry ld + of_nat (length (ld_image ld)) + 64 + 32 * of_nat k + 16)) (of_nat (length (snd ?r))) (M k)"
  proof -
    have "M (Suc k) = copy_region (ld_entry ld + of_nat (length (ld_image ld))) (data_base ld) k (M k)"
      by (simp add: M_def)
    then show ?thesis unfolding copy_region_def Let_def read(1,2) .
  qed
  note copied = memcpy_holds [OF read(4) small [OF k] data_clear]
  have other: "M (Suc k) x = M k x" if "\<not> in_region ?r x" for x
    using copied(2) [of x] that by (simp add: step in_region_def)
  have "holds_bytes (M (Suc k)) (fst (ld_regions ld ! j)) (snd (ld_regions ld ! j))" if "j < Suc k" for j
  proof (cases "j = k")
    case True
    then show ?thesis using copied(1) by (simp add: step)
  next
    case False
    with that have j: "j < k" by simp
    show ?thesis
      by (rule holds_bytes_kept [OF IH(2) [rule_format, OF j]])
        (use small [of j] j k other regions_disjoint [OF clear disjoint j k] in \<open>auto simp: in_region_def\<close>)
  qed
  then show ?case using other IH(1) by (auto simp: less_Suc_eq)
qed

lemma payload_count:
  assumes "holds_bytes m (ld_entry ld) (loader_to_bytes ld)"
  shows "mem_u64 m (ld_entry ld + of_nat (length (ld_image ld)) + 56) = lh_num_regions (ld_header ld)"
proof -
  have "holds_bytes m (ld_entry ld + of_nat (length (ld_image ld))) (loader_header_bytes (ld_header ld))"
    using assms by (simp add: loader_to_bytes_def holds_bytes_append)
  then show ?thesis
    by (auto simp: loader_header_bytes_def holds_bytes_append add.assoc dest!: holds_bytes_u64)
qed

text \<open>C15: The image that is built for the boot loader is unpacked as meant.  Put into memory at its entry point,
  and with no region in its way, the boot loader's loop leaves every loadable segment of the kernel at its physical
  address and every non-empty loadable segment of the initial task at the same distance from its physical base as
  from the start of its virtual range; nothing else changes.\<close>

theorem loader_image_unpacked:
  assumes built: "loader_from_elf cfg loader_elf kernel_elf task_elf base (lo, hi) = (Inr ld :: ('e, loader) res)"
    and clear: "image_clear ld" and held: "holds_bytes m (ld_entry ld) (loader_to_bytes ld)"
  defines "m' \<equiv> copy_data (ld_entry ld + of_nat (length (ld_image ld))) m"
  shows "(\<forall>s \<in> set (loadable_segments kernel_elf). holds_bytes m' (phys_addr s) (raw s))
    \<and> (\<forall>s \<in> set (loadable_segments task_elf). mem_size s > 0 \<longrightarrow> holds_bytes m' (base + (virt_addr s - lo)) (raw s))
    \<and> (\<forall>x. (\<forall>r \<in> set (ld_regions ld). \<not> in_region r x) \<longrightarrow> m' x = m x)"
proof -
  note fields = loader_from_elf_fields [OF built]
  have "64 + 32 * length (ld_regions ld) \<le> length (loader_to_bytes ld)"
    using fields(2) by (simp add: loader_to_bytes_def length_concat comp_def sum_list_triv)
  with clear have "unat (of_nat (length (ld_regions ld)) :: u64) = length (ld_regions ld)"
    by (intro unat_of_nat_small) (simp add: image_clear_def)
  then have m': "m' = fold (copy_region (ld_entry ld + of_nat (length (ld_image ld))) (data_base ld))
      [0..<length (ld_regions ld)] m"
    using payload_count [OF held] fields(4)
    by (simp add: m'_def copy_data_def Let_def data_base_def)
  have "sorted_wrt apart (ld_regions ld)" using fields(3) by (simp add: sorted_wrt_append)
  from copy_data_loop [OF clear this held fields(2,4) order_refl] have
    same: "\<forall>x. (\<forall>r \<in> set (ld_regions ld). \<not> in_region r x) \<longrightarrow> m' x = m x"
    and there: "\<forall>r \<in> set (ld_regions ld). holds_bytes m' (fst r) (snd r)"
    unfolding m' [symmetric] all_set_conv_all_nth by blast+
  have "holds_bytes m' (phys_addr s) (raw s)" if "s \<in> set (loadable_segments kernel_elf)" for s
    using that bspec [OF there, of "(phys_addr s, raw s)"] by (auto simp: fields(1))
  moreover have "holds_bytes m' (base + (virt_addr s - lo)) (raw s)"
    if "s \<in> set (loadable_segments task_elf)" "mem_size s > 0" for s
    using that bspec [OF there, of "(base + (virt_addr s - lo), raw s)"] by (auto simp: fields(1))
  ultimately show ?thesis using same by blast
qed

text \<open>A RISC-V system for the witness: the boot loader at 2 GiB, two bytes of kernel, and an initial task of
  one byte.\<close>

lemma set_entry_length: "set_entry pt i e = (Inr pt' :: ('e, u8 list) res) \<Longrightarrow> length pt' = length pt"
  by (auto simp: set_entry_def dest: write_at_length)

lemma rv_leaves_length: "rv_leaves check base bits i pt = (Inr pt' :: ('e, u8 list) res) \<Longrightarrow> length pt' = length pt"
  unfolding rv_leaves_def
  by (erule foldM_inv [where I = "\<lambda>p. length p = length pt"])
    (auto simp: Let_def bindr_eq_Inr assertr_def dest!: set_entry_length split: if_splits)

lemma riscv64_tables_shape:
  assumes "riscv64_setup_pagetables cfg elf v0 p0 = (Inr tables :: ('e, (u64 \<times> u64 \<times> u8 list) list) res)"
  shows "(a, n, t) \<in> set tables \<Longrightarrow> length t = 4096
     \<and> (\<exists>name \<in> {''boot_lvl1_pt'', ''boot_lvl2_pt'', ''boot_lvl3_pt'', ''boot_lvl2_pt_loader''}. find_symbol elf name = Inr (a, n))"
  using assms unfolding riscv64_setup_pagetables_def grab_symbol_def rv_kernel_tables_def
  by (elim bindr_InrE)
    (auto simp: unwrap_res_eq_Inr Let_def bindr_eq_Inr split: prod.splits if_splits
      dest!: set_entry_length rv_leaves_length)

lemma patch_table_total:
  assumes "length t = 4096" "unat v < unat a" "unat a + 4096 \<le> unat v + length img" "length img < 2 ^ 63"
  shows "\<exists>img'. patch_table v img (a, 0x1000, t) = (Inr img' :: ('e, u8 list) res) \<and> length img' = length img"
proof -
  have off: "unat (a - v) = unat a - unat v" using assms(2) by (simp add: unat_sub word_le_nat_alt)
  have "unat (a - v + 0x1000) = unat a - unat v + 4096"
    using assms by (simp add: unat_word_ariths off)
  then have "\<exists>k. unat (a - v) = k \<and> unat (a - v + 0x1000) = k + 4096 \<and> 0 < k \<and> k + 4096 \<le> length img"
    using assms(2,3) off by auto
  then show ?thesis
    using assms(1,4) unat_of_nat_small [of "length img", where 'a = 64]
    by (auto simp: patch_table_def Let_def assertr_def slice_at_def write_at_def word_less_nat_alt word_le_nat_alt)
qed

definition example_boot_loader :: elf_file where
  "example_boot_loader = example_rv_loader\<lparr>segments :=
     [\<lparr>seg_data = RealData (replicate 0x5000 0x13), phys_addr = 0x80000000, virt_addr = 0x80000000, loadable = True,
       attrs = 7\<rparr>]\<rparr>"

definition example_image :: "string \<Rightarrow> u8 list \<Rightarrow> u64 \<Rightarrow> u64 \<Rightarrow> elf_file" where
  "example_image path bytes p v = (elf_new path 64 v 243)\<lparr>segments :=
     [\<lparr>seg_data = RealData bytes, phys_addr = p, virt_addr = v, loadable = True, attrs = 7\<rparr>]\<rparr>"

abbreviation example_kernel_image :: elf_file where
  "example_kernel_image \<equiv> example_image ''sel4.elf'' [7, 8] 0x84001000 0xffffffff84001000"

abbreviation example_task_image :: elf_file where
  "example_task_image \<equiv> example_image ''initialiser.elf'' [9] 0x10000 0x10000"

lemma example_loader_built:
  "\<exists>ld. loader_from_elf example_riscv_config example_boot_loader example_kernel_image example_task_image
      0x90000000 (0x10000, 0x11000) = (Inr ld :: (string, loader) res) \<and> length (ld_image ld) = 0x5000"
proof -
  have ok: "rv_loader_ok example_boot_loader 0x80000000"
    unfolding rv_loader_ok_def
    by (intro conjI exI [of _ "[0x80001000, 0x80002000, 0x80003000, 0x80004000]"])
      (simp_all add: example_boot_loader_def example_rv_loader_def elf_new_def rv_table_at_def find_symbol_def take_bit_eq_mod)
  have l: "riscv_pt_levels example_riscv_config = Some Sv39" "arch example_riscv_config = Riscv64"
    by (simp_all add: example_riscv_config_def)
  have p: "take_bit 12 0x84001000 = (0 :: u64)" "take_bit 21 0x84001000 = take_bit 21 (0xffffffff84001000 :: u64)"
    by (simp_all add: take_bit_eq_mod)
  have i: "va_index 30 0x80000000 \<noteq> va_index 30 0xffffffff84001000" by (simp add: va_index_div)
  from riscv64_setup_steps [OF ok l(1) p i, where 'e = string] obtain tables where
    tables: "riscv64_setup_pagetables example_riscv_config example_boot_loader 0xffffffff84001000 0x84001000
      = (Inr tables :: (string, (u64 \<times> u64 \<times> u8 list) list) res)"
    by - ((erule exE | erule conjE)+, rule that)
  have shape: "n = 0x1000 \<and> length t = 4096 \<and> unat a \<in> {0x80001000, 0x80002000, 0x80003000, 0x80004000}"
    if "(a, n, t) \<in> set tables" for a n t
    using riscv64_tables_shape [OF tables that]
    by (auto simp: example_boot_loader_def example_rv_loader_def elf_new_def find_symbol_def)
  have "\<exists>img. foldM (patch_table 0x80000000) (replicate 0x5000 0x13) tables = (Inr img :: (string, u8 list) res)
      \<and> length img = 0x5000"
  proof (rule foldM_total)
    fix img :: "u8 list" and x assume img: "length img = 0x5000" and x: "x \<in> set tables"
    obtain a n t where xx: "x = (a, n, t)" by (cases x)
    show "\<exists>img'. patch_table 0x80000000 img x = (Inr img' :: (string, u8 list) res) \<and> length img' = 0x5000"
      using patch_table_total [of t "0x80000000" a img, where 'e = string] shape [of a n t] x img unfolding xx by auto
  qed simp
  then obtain img where img: "foldM (patch_table 0x80000000) (replicate 0x5000 0x13) tables = (Inr img :: (string, u8 list) res)"
    "length img = 0x5000" by blast
  have image: "loader_image_of example_boot_loader tables = (Inr (0x80000000, img) :: (string, u64 \<times> u8 list) res)"
    using img(1) by (simp add: loader_image_of_def example_boot_loader_def example_rv_loader_def elf_new_def segment_data_def)
  have scan: "scan_kernel example_kernel_image = (Inr \<lparr>kernel_first_vaddr = Some 0xffffffff84001000,
      kernel_last_vaddr = Some 0xffffffff84200000, kernel_first_paddr = Some 0x84001000,
      kernel_p_v_offset = Some 0xffffffff00000000, kernel_regions = [(0x84001000, [7, 8])]\<rparr> :: (string, kernel_scan) res)"
    by (simp add: scan_kernel_def scan_kernel_segment_def example_image_def elf_new_def mem_size_def segment_data_def
        round_up_def divmod_def mb_def Let_def)
  have task: "initial_task_regions example_task_image 0x90000000 0x10000 = (Inr [(0x90000000, [9])] :: (string, load_region list) res)"
    by (simp add: initial_task_regions_def example_image_def elf_new_def loadable_segments_def mem_size_def segment_data_def)
  have "check_non_overlapping [(0x84001000, [7, 8]), (0x90000000, [9]), (0x80000000, img)] = (Inr () :: (string, unit) res)"
    by (simp add: check_non_overlapping_def img(2))
  then show ?thesis
    unfolding loader_from_elf_def fst_conv snd_conv scan task
    using image tables img(2)
    by (simp add: l(2) loader_magic_def example_image_def elf_new_def example_boot_loader_def example_rv_loader_def)
qed

theorem loader_image_unpacked_witness:
  "\<exists>ld m. loader_from_elf example_riscv_config example_boot_loader example_kernel_image example_task_image
      0x90000000 (0x10000, 0x11000) = (Inr ld :: (string, loader) res)
    \<and> holds_bytes m 0x80000000 (loader_to_bytes ld)
    \<and> copy_data 0x80005000 m 0x84001001 = 8 \<and> copy_data 0x80005000 m 0x90000000 = 9"
proof -
  obtain ld where ld: "loader_from_elf example_riscv_config example_boot_loader example_kernel_image example_task_image
      0x90000000 (0x10000, 0x11000) = (Inr ld :: (string, loader) res)" "length (ld_image ld) = 0x5000"
    using example_loader_built by blast
  note fields = loader_from_elf_fields [OF ld(1)]
  have ex: "loadable_segments example_kernel_image = [\<lparr>seg_data = RealData [7, 8], phys_addr = 0x84001000,
        virt_addr = 0xffffffff84001000, loadable = True, attrs = 7\<rparr>]"
    "loadable_segments example_task_image = [\<lparr>seg_data = RealData [9], phys_addr = 0x10000, virt_addr = 0x10000,
        loadable = True, attrs = 7\<rparr>]"
    by (simp_all add: loadable_segments_def example_image_def elf_new_def)
  have regions: "ld_regions ld = [(0x84001000, [7, 8]), (0x90000000, [9])]"
    using fields(1) by (simp add: ex raw_def mem_size_def)
  have entry: "ld_entry ld = 0x80000000"
    using fields(12) by (simp add: example_boot_loader_def example_rv_loader_def elf_new_def)
  have len: "length (loader_to_bytes ld) = 0x5083"
    using ld(2) fields(2) by (simp add: loader_to_bytes_def regions)
  have clear: "image_clear ld" by (simp add: image_clear_def len entry regions)
  define m :: memory where "m = (\<lambda>x. loader_to_bytes ld ! unat (x - 0x80000000))"
  have held: "holds_bytes m (ld_entry ld) (loader_to_bytes ld)"
    by (simp add: holds_bytes_within entry m_def len)
  from loader_image_unpacked [OF ld(1) clear held] have
    "holds_bytes (copy_data 0x80005000 m) 0x84001000 [7, 8]" "holds_bytes (copy_data 0x80005000 m) 0x90000000 [9]"
    by (simp_all add: ex raw_def mem_size_def entry ld(2))
  then have "copy_data 0x80005000 m 0x84001001 = 8" "copy_data 0x80005000 m 0x90000000 = 9"
    by (auto simp: holds_bytes_def less_Suc_eq)
  with ld(1) held show ?thesis unfolding entry by blast
qed

end
