(* ===== verification/Kernel_Boot.thy ===== *)
theory Kernel_Boot
  imports Mem_Regions Elf
begin

unbundle bit_operations_syntax

text \<open>
  The emulation of the kernel boot in \<open>tool/microkit/src/sel4.rs\<close>: which physical memory the kernel
  keeps for its image, the initial task and the initial kernel objects, and which untyped objects,
  with which capability slots, it hands to the initial task.
\<close>

section \<open>Data\<close>

record kernel_partial_boot_info =
  kp_device_memory :: disjoint_memory_region
  kp_normal_memory :: disjoint_memory_region
  kp_boot_region :: memory_region

record boot_info =
  fixed_cap_count :: u64
  sched_control_cap :: u64
  paging_cap_count :: u64
  page_cap_count :: u64
  untyped_objects :: "untyped_object list"
  first_available_cap :: u64

section \<open>Partial boot\<close>

definition kernel_mem_upto :: "string \<Rightarrow> elf_file \<Rightarrow> ('e, memory_region) res" where
  "kernel_mem_upto end_symbol kernel_elf =
     bindr (nthr (loadable_segments kernel_elf) 0) (\<lambda>seg0.
     let base = phys_addr seg0
     in bindr (unwrap_res (find_symbol kernel_elf end_symbol)) (\<lambda>(end_v, _).
        let end_p = end_v - virt_addr seg0 + base
        in Inr \<lparr>mr_base = base, mr_end = end_p\<rparr>))"

definition kernel_self_mem :: "elf_file \<Rightarrow> ('e, memory_region) res" where
  "kernel_self_mem kernel_elf = kernel_mem_upto ''ki_end'' kernel_elf"

definition kernel_boot_mem :: "elf_file \<Rightarrow> ('e, memory_region) res" where
  "kernel_boot_mem kernel_elf = kernel_mem_upto ''ki_boot_end'' kernel_elf"

definition insert_regions ::
    "platform_config_region list \<Rightarrow> disjoint_memory_region \<Rightarrow> ('e, disjoint_memory_region) res" where
  "insert_regions rs d = foldM (\<lambda>d r. insert_region (pr_start r) (pr_end r) d) d rs"

definition kernel_partial_boot :: "config \<Rightarrow> elf_file \<Rightarrow> ('e, kernel_partial_boot_info) res" where
  "kernel_partial_boot cfg kernel_elf =
     bindr (unwrapr (device_regions cfg)) (\<lambda>devs.
     bindr (insert_regions devs dmr_default) (\<lambda>device_memory.
     bindr (unwrapr (normal_regions cfg)) (\<lambda>norms.
     bindr (insert_regions norms dmr_default) (\<lambda>normal_memory.
     bindr (kernel_self_mem kernel_elf) (\<lambda>self_mem.
     bindr (remove_region (mr_base self_mem) (mr_end self_mem) normal_memory) (\<lambda>normal_memory.
     bindr (kernel_boot_mem kernel_elf) (\<lambda>boot_region.
       Inr \<lparr>kp_device_memory = device_memory, kp_normal_memory = normal_memory,
            kp_boot_region = boot_region\<rparr>)))))))"

definition emulate_kernel_boot_partial ::
    "config \<Rightarrow> elf_file \<Rightarrow> ('e, disjoint_memory_region \<times> memory_region) res" where
  "emulate_kernel_boot_partial cfg kernel_elf =
     bindr (kernel_partial_boot cfg kernel_elf) (\<lambda>info.
       Inr (kp_normal_memory info, kp_boot_region info))"

section \<open>Sizes of the initial objects\<close>

definition get_n_paging :: "memory_region \<Rightarrow> u64 \<Rightarrow> ('e, u64) res" where
  "get_n_paging region bits =
     bindr (round_down (mr_base region) (shl 1 bits)) (\<lambda>start.
     bindr (round_up (mr_end region) (shl 1 bits)) (\<lambda>end.
     if shl 1 bits = 0 then Inl (Panic DivideByZero) else Inr ((end - start) div shl 1 bits)))"

definition get_arch_n_paging :: "config \<Rightarrow> memory_region \<Rightarrow> ('e, u64) res" where
  "get_arch_n_paging cfg region = (case arch cfg of
      Aarch64 \<Rightarrow>
        bindr (aarch64_vspace_s2_start_l1 cfg) (\<lambda>start_l1.
        if start_l1
        then bindr (get_n_paging region 30) (\<lambda>pud.
             bindr (get_n_paging region 21) (\<lambda>pd. Inr (pud + pd)))
        else bindr (get_n_paging region 39) (\<lambda>pgd.
             bindr (get_n_paging region 30) (\<lambda>pud.
             bindr (get_n_paging region 21) (\<lambda>pd. Inr (pgd + pud + pd)))))
    | Riscv64 \<Rightarrow>
        bindr (unwrapr (riscv_pt_levels cfg)) (\<lambda>m. case m of
          Sv39 \<Rightarrow> bindr (get_n_paging region 30) (\<lambda>l2.
                  bindr (get_n_paging region 21) (\<lambda>l1. Inr (l2 + l1))))
    | X86_64 \<Rightarrow> Inl (Panic UnreachableReached))"

definition calculate_rootserver_size :: "config \<Rightarrow> memory_region \<Rightarrow> ('e, u64) res" where
  "calculate_rootserver_size cfg region =
     (let slot_bits = 5;
          root_cnode_bits = init_cnode_bits cfg;
          asid_pool_bits = 12;
          min_sched_context_bits = 7
      in bindr (bindr (fixed_size_bits OtTcb cfg) unwrapr) (\<lambda>tcb_bits.
         bindr (bindr (fixed_size_bits OtSmallPage cfg) unwrapr) (\<lambda>page_bits.
         bindr (bindr (fixed_size_bits OtVSpace cfg) unwrapr) (\<lambda>vspace_bits.
         bindr (bindr (fixed_size_bits OtPageTable cfg) unwrapr) (\<lambda>page_table_bits.
         bindr (get_arch_n_paging cfg region) (\<lambda>n_paging.
           Inr (shl 1 (root_cnode_bits + slot_bits) + shl 1 tcb_bits + 2 * shl 1 page_bits
                + shl 1 asid_pool_bits + shl 1 vspace_bits + n_paging * shl 1 page_table_bits
                + shl 1 min_sched_context_bits)))))))"

definition rootserver_max_size_bits :: "config \<Rightarrow> ('e, u64) res" where
  "rootserver_max_size_bits cfg =
     (let slot_bits = 5;
          root_cnode_bits = init_cnode_bits cfg
      in bindr (bindr (fixed_size_bits OtVSpace cfg) unwrapr) (\<lambda>vspace_bits.
           let cnode_size_bits = root_cnode_bits + slot_bits
           in Inr (max cnode_size_bits vspace_bits)))"

section \<open>Boot\<close>

text \<open>The search, from the highest region down, for room for the initial objects.\<close>

fun find_objects_start :: "u64 \<Rightarrow> u64 \<Rightarrow> memory_region list \<Rightarrow> ('e, u64 option) res" where
  "find_objects_start sz align_bits [] = Inr None"
| "find_objects_start sz align_bits (region # rs) =
     bindr (round_down (mr_end region - sz) (shl 1 align_bits)) (\<lambda>start.
       if start \<ge> mr_base region then Inr (Some start) else find_objects_start sz align_bits rs)"

definition boot_max_bits :: "config \<Rightarrow> ('e, u64) res" where
  "boot_max_bits cfg = (case arch cfg of
      Aarch64 \<Rightarrow> Inr 47 | Riscv64 \<Rightarrow> Inr 38 | X86_64 \<Rightarrow> Inl (Panic UnreachableReached))"

definition make_untypeds :: "u64 \<Rightarrow> bool \<Rightarrow> memory_region list \<Rightarrow> untyped_object list" where
  "make_untypeds start_cap is_device rs =
     map (\<lambda>(i, r). \<lparr>ut_cap = of_nat i + start_cap, ut_region = r, ut_is_device = is_device\<rparr>)
       (enumerate 0 rs)"

definition emulate_kernel_boot ::
    "config \<Rightarrow> elf_file \<Rightarrow> memory_region \<Rightarrow> memory_region \<Rightarrow> ('e, boot_info) res" where
  "emulate_kernel_boot cfg kernel_elf initial_task_phys_region user_image_virt_region =
     bindr (assertr (mr_size initial_task_phys_region = mr_size user_image_virt_region)) (\<lambda>_.
     bindr (kernel_partial_boot cfg kernel_elf) (\<lambda>partial_info.
     bindr (remove_region (mr_base initial_task_phys_region) (mr_end initial_task_phys_region)
              (kp_normal_memory partial_info)) (\<lambda>normal_memory.
     let ipc_size = page_size_u64 SmallPg;
         bootinfo_size = page_size_u64 SmallPg;
         initial_task_virt_region = user_image_virt_region
           \<lparr>mr_end := mr_end user_image_virt_region + ipc_size + bootinfo_size\<rparr>
     in bindr (calculate_rootserver_size cfg initial_task_virt_region) (\<lambda>initial_objects_size.
        bindr (rootserver_max_size_bits cfg) (\<lambda>initial_objects_align.
        bindr (find_objects_start initial_objects_size initial_objects_align
                 (rev (regions normal_memory))) (\<lambda>region_to_remove.
        bindr (case region_to_remove of
                 Some start \<Rightarrow> remove_region start (start + initial_objects_size) normal_memory
               | None \<Rightarrow> Inl (Panic ExplicitPanic)) (\<lambda>normal_memory.
        bindr (get_arch_n_paging cfg initial_task_virt_region) (\<lambda>paging_cap_count.
        let fixed_cap_count = 0x10;
            sched_control_cap_count = 1
        in if minimum_page_size cfg = 0 then Inl (Panic DivideByZero)
        else let page_cap_count = mr_size initial_task_virt_region div minimum_page_size cfg;
            first_untyped_cap =
              fixed_cap_count + paging_cap_count + sched_control_cap_count + page_cap_count;
            sched_control_cap = fixed_cap_count + paging_cap_count
        in bindr (boot_max_bits cfg) (\<lambda>max_bits.
           bindr (dmr_aligned_power_of_two_regions cfg max_bits (kp_device_memory partial_info)) (\<lambda>device_regions.
           bindr (aligned_power_of_two_regions cfg max_bits (kp_boot_region partial_info)) (\<lambda>boot_regions.
           bindr (dmr_aligned_power_of_two_regions cfg max_bits normal_memory) (\<lambda>normal_parts.
           let normal_regions = boot_regions @ normal_parts;
               normal_regions_start_cap = first_untyped_cap + of_nat (length device_regions);
               untypeds = make_untypeds first_untyped_cap True device_regions
                          @ make_untypeds normal_regions_start_cap False normal_regions
           in Inr \<lparr>fixed_cap_count = fixed_cap_count, sched_control_cap = sched_control_cap,
                   paging_cap_count = paging_cap_count, page_cap_count = page_cap_count,
                   untyped_objects = untypeds,
                   first_available_cap = first_untyped_cap + of_nat (length device_regions)
                     + of_nat (length normal_regions)\<rparr>))))))))))))"

section \<open>Numbering of the untyped capabilities\<close>

lemma make_untypeds_nth:
  "i < length rs \<Longrightarrow> make_untypeds c dev rs ! i
     = \<lparr>ut_cap = of_nat i + c, ut_region = rs ! i, ut_is_device = dev\<rparr>"
  by (simp add: make_untypeds_def nth_enumerate_eq)

lemma length_make_untypeds [simp]: "length (make_untypeds c dev rs) = length rs"
  by (simp add: make_untypeds_def)

lemma make_untypeds_regions [simp]: "map ut_region (make_untypeds c dev rs) = rs"
  by (rule nth_equalityI) (simp_all add: make_untypeds_nth)

lemma make_untypeds_device: "ut \<in> set (make_untypeds c dev rs) \<Longrightarrow> ut_is_device ut = dev"
  by (auto simp: make_untypeds_def)

lemma caps_consecutive:
  assumes "uts = make_untypeds c True ds @ make_untypeds (c + of_nat (length ds)) False ns"
    "i < length uts"
  shows "ut_cap (uts ! i) = c + of_nat i"
proof (cases "i < length ds")
  case True
  then show ?thesis by (simp add: assms(1) nth_append make_untypeds_nth)
next
  case False
  then have "(of_nat i :: u64) = of_nat (i - length ds) + of_nat (length ds)"
    by (simp flip: of_nat_add)
  then show ?thesis using False assms by (simp add: nth_append make_untypeds_nth)
qed

text \<open>The untyped objects the emulated boot hands out occupy consecutive capability slots, right
  after the fixed, paging, scheduling-control and page capabilities, devices before normal memory,
  and the first available slot is the one after the last untyped.\<close>

theorem emulate_kernel_boot_caps:
  assumes "emulate_kernel_boot cfg kernel_elf task user = (Inr info :: ('e, boot_info) res)"
  shows "(\<forall>i < length (untyped_objects info).
            ut_cap (untyped_objects info ! i)
              = fixed_cap_count info + paging_cap_count info + 1 + page_cap_count info + of_nat i)
         \<and> first_available_cap info
              = fixed_cap_count info + paging_cap_count info + 1 + page_cap_count info
                + of_nat (length (untyped_objects info))
         \<and> sched_control_cap info = fixed_cap_count info + paging_cap_count info
         \<and> untyped_objects info
              = filter ut_is_device (untyped_objects info)
                @ filter (\<lambda>u. \<not> ut_is_device u) (untyped_objects info)"
proof -
  from assms obtain c ds ns where
    i: "untyped_objects info = make_untypeds c True ds @ make_untypeds (c + of_nat (length ds)) False ns"
      "first_available_cap info = c + of_nat (length ds) + of_nat (length ns)"
      "c = fixed_cap_count info + paging_cap_count info + 1 + page_cap_count info"
      "sched_control_cap info = fixed_cap_count info + paging_cap_count info"
    by (auto simp: emulate_kernel_boot_def Let_def bindr_eq_Inr split: if_splits)
  have f: "filter ut_is_device (make_untypeds a True rs) = make_untypeds a True rs"
    "filter ut_is_device (make_untypeds a False rs) = []"
    "filter (\<lambda>u. \<not> ut_is_device u) (make_untypeds a True rs) = []"
    "filter (\<lambda>u. \<not> ut_is_device u) (make_untypeds a False rs) = make_untypeds a False rs" for a rs
    by (auto simp: filter_empty_conv filter_id_conv dest: make_untypeds_device)
  show ?thesis
    using caps_consecutive [OF i(1)] i(2-4) by (simp add: i(1) f)
qed

section \<open>The memory handed out\<close>

definition region_span :: "platform_config_region list \<Rightarrow> u64 set" where
  "region_span rs = (\<Union>r \<in> set rs. {pr_start r..<pr_end r})"

lemma insert_regions_eq:
  "insert_regions rs d
     = (dmr.ins_all (map (\<lambda>r. (pr_start r, pr_end r)) rs) d :: ('e, disjoint_memory_region) res)"
  unfolding insert_regions_def dmr.ins_all_def
  by (induction rs arbitrary: d) simp_all

lemma region_span_eq: "dmr.span (map (\<lambda>r. (pr_start r, pr_end r)) rs) = region_span rs"
  by (auto simp: dmr.span_def region_span_def)

lemma dmr_default_facts [simp]: "dmr_inv dmr_default" "dmr_covered dmr_default = {}"
  by (simp_all add: dmr_default_def dmr_inv_def)

lemma insert_regions_ok:
  assumes "insert_regions rs dmr_default = (Inr d :: ('e, disjoint_memory_region) res)"
  shows "dmr_inv d" "dmr_covered d = region_span rs"
proof -
  from assms have "dmr.ins_all (map (\<lambda>r. (pr_start r, pr_end r)) rs) dmr_default
      = (Inr d :: ('e, disjoint_memory_region) res)"
    by (simp add: insert_regions_eq)
  from dmr.ins_all_ok [OF dmr_default_facts(1) this]
  show "dmr_inv d" "dmr_covered d = region_span rs" by (simp_all add: region_span_eq)
qed

lemma kernel_partial_boot_ok:
  assumes "kernel_partial_boot cfg elf = (Inr info :: ('e, kernel_partial_boot_info) res)"
    and "kernel_self_mem elf = (Inr self_mem :: ('e, memory_region) res)" "mr_base self_mem \<le> mr_end self_mem"
    and "device_regions cfg = Some devs" "normal_regions cfg = Some norms"
  shows "dmr_inv (kp_device_memory info)" "dmr_covered (kp_device_memory info) = region_span devs"
    "dmr_inv (kp_normal_memory info)"
    "dmr_covered (kp_normal_memory info) = region_span norms - {mr_base self_mem..<mr_end self_mem}"
    "kernel_boot_mem elf = (Inr (kp_boot_region info) :: ('e, memory_region) res)"
proof -
  from assms obtain dev norm norm' where
    i: "insert_regions devs dmr_default = (Inr dev :: ('e, disjoint_memory_region) res)"
      "insert_regions norms dmr_default = (Inr norm :: ('e, disjoint_memory_region) res)"
      "remove_region (mr_base self_mem) (mr_end self_mem) norm = (Inr norm' :: ('e, disjoint_memory_region) res)"
      "kp_device_memory info = dev" "kp_normal_memory info = norm'"
      "kernel_boot_mem elf = (Inr (kp_boot_region info) :: ('e, memory_region) res)"
    by (auto simp: kernel_partial_boot_def bindr_eq_Inr)
  note d = insert_regions_ok [OF i(1)] and n = insert_regions_ok [OF i(2)]
  show "dmr_inv (kp_device_memory info)" "dmr_covered (kp_device_memory info) = region_span devs"
    using d i(4) by simp_all
  show "dmr_inv (kp_normal_memory info)"
    using dmr.rem_inv [OF n(1) assms(3) i(3)] i(5) by simp
  show "dmr_covered (kp_normal_memory info) = region_span norms - {mr_base self_mem..<mr_end self_mem}"
    using dmr.rem_covers [OF n(1) assms(3) i(3)] n(2) i(5) by simp
  show "kernel_boot_mem elf = (Inr (kp_boot_region info) :: ('e, memory_region) res)" by (rule i(6))
qed

lemma find_objects_start_ok:
  assumes "find_objects_start sz al rs = (Inr (Some start) :: ('e, u64 option) res)"
  shows "\<exists>r \<in> set rs. mr_base r \<le> start \<and> start \<le> mr_end r - sz
           \<and> unat (shl 1 al) dvd unat start"
  using assms
proof (induction rs)
  case (Cons r rs)
  have nz: "shl 1 al \<noteq> 0"
  proof -
    have m: "al AND 63 = take_bit 6 al" by (simp add: take_bit_eq_mask mask_eq_exp_minus_1)
    have "unat (take_bit 6 al) < 2 ^ 6" unfolding unsigned_take_bit_eq by (rule take_bit_nat_less_exp)
    then have "unat (al AND 63) < 64" unfolding m by simp
    then have "unat (shl 1 al) = 2 ^ unat (al AND 63)" by (simp add: shl_def unat_exp_2)
    then show ?thesis by (metis power_not_zero unat_0 zero_neq_numeral)
  qed
  from round_down_nonzero [OF nz, of "mr_end r - sz", where ?'a = 'e] obtain v where
    v: "round_down (mr_end r - sz) (shl 1 al) = (Inr v :: ('e, u64) res)"
      "unat v = unat (mr_end r - sz) - unat (mr_end r - sz) mod unat (shl 1 al)" by blast
  have le: "v \<le> mr_end r - sz" using v(2) by (simp add: word_le_nat_alt)
  have dv: "unat (shl 1 al) dvd unat v" unfolding v(2) by (rule dvd_minus_mod)
  show ?case
  proof (cases "mr_base r \<le> v")
    case True
    with Cons.prems v(1) le dv show ?thesis by auto
  next
    case False
    with Cons.prems v(1) have "find_objects_start sz al rs = (Inr (Some start) :: ('e, u64 option) res)" by simp
    from Cons.IH [OF this] show ?thesis by auto
  qed
qed simp

text \<open>A block found at the top of a region that lies above address \<open>sz\<close> does not wrap.\<close>

lemma objects_no_wrap:
  assumes "mr_base r < mr_end r" "sz \<le> mr_base r" "start \<le> mr_end r - sz"
  shows "start \<le> start + sz"
proof -
  have "unat (mr_end r - sz) = unat (mr_end r) - unat sz"
    by (rule unat_sub) (use assms in auto)
  then have "unat start + unat sz \<le> unat (mr_end r)"
    using assms by (simp add: word_le_nat_alt word_less_nat_alt)
  then have "unat (start + sz) = unat start + unat sz"
    using u64_lt [of "mr_end r"] by (intro unat_add_no_overflow) simp
  then show ?thesis by (simp add: word_le_nat_alt)
qed

lemma covered_base: "r \<in> set rs \<Longrightarrow> mr_base r < mr_end r \<Longrightarrow> mr_base r \<in> covered rs"
  by (force simp: covered_def)

definition initial_task_virt :: "memory_region \<Rightarrow> memory_region" where
  "initial_task_virt user = user\<lparr>mr_end := mr_end user + page_size_u64 SmallPg + page_size_u64 SmallPg\<rparr>"

lemma emulate_kernel_boot_steps:
  assumes "emulate_kernel_boot cfg elf task user = (Inr info :: ('e, boot_info) res)"
  obtains pi n1 osz al start n2 vb mb ds bs ps c where
    "kernel_partial_boot cfg elf = (Inr pi :: ('e, _) res)"
    "remove_region (mr_base task) (mr_end task) (kp_normal_memory pi) = (Inr n1 :: ('e, _) res)"
    "calculate_rootserver_size cfg (initial_task_virt user) = (Inr osz :: ('e, _) res)"
    "find_objects_start osz al (rev (regions n1)) = (Inr (Some start) :: ('e, _) res)"
    "remove_region start (start + osz) n1 = (Inr n2 :: ('e, _) res)"
    "boot_max_bits cfg = (Inr mb :: ('e, _) res)"
    "dmr_aligned_power_of_two_regions cfg mb (kp_device_memory pi) = (Inr ds :: ('e, _) res)"
    "virtual_base cfg = (Inr vb :: ('e, _) res)"
    "aligned_power_of_two_regions cfg mb (kp_boot_region pi) = (Inr bs :: ('e, _) res)"
    "dmr_aligned_power_of_two_regions cfg mb n2 = (Inr ps :: ('e, _) res)"
    "untyped_objects info = make_untypeds c True ds @ make_untypeds (c + of_nat (length ds)) False (bs @ ps)"
  using assms
  by (auto simp: emulate_kernel_boot_def Let_def bindr_eq_Inr initial_task_virt_def
      aligned_power_of_two_regions_def paddr_to_kernel_vaddr_def split: if_splits option.splits)

lemma filter_untypeds:
  assumes "uts = make_untypeds c True ds @ make_untypeds c' False ns"
  shows "map ut_region (filter ut_is_device uts) = ds"
    "map ut_region (filter (\<lambda>u. \<not> ut_is_device u) uts) = ns" "map ut_region uts = ds @ ns"
proof -
  have "filter ut_is_device (make_untypeds a True rs) = make_untypeds a True rs"
    "filter ut_is_device (make_untypeds a False rs) = []"
    "filter (\<lambda>u. \<not> ut_is_device u) (make_untypeds a True rs) = []"
    "filter (\<lambda>u. \<not> ut_is_device u) (make_untypeds a False rs) = make_untypeds a False rs" for a rs
    by (auto simp: filter_empty_conv filter_id_conv dest: make_untypeds_device)
  then show "map ut_region (filter ut_is_device uts) = ds"
    "map ut_region (filter (\<lambda>u. \<not> ut_is_device u) uts) = ns" "map ut_region uts = ds @ ns"
    by (simp_all add: assms)
qed

definition regions_disjoint :: "memory_region \<Rightarrow> memory_region \<Rightarrow> bool" where
  "regions_disjoint a b \<longleftrightarrow> {mr_base a..<mr_end a} \<inter> {mr_base b..<mr_end b} = {}"

lemma regions_disjointI: "mr_end a \<le> mr_base b \<Longrightarrow> regions_disjoint a b"
  unfolding regions_disjoint_def
proof (rule equals0I)
  fix x assume "mr_end a \<le> mr_base b" "x \<in> {mr_base a..<mr_end a} \<inter> {mr_base b..<mr_end b}"
  then have "mr_end a \<le> x" "x < mr_end a" by (auto intro: order.trans)
  then show False by simp
qed

lemma sorted_disjoint: "sorted_wrt region_before rs \<Longrightarrow> sorted_wrt regions_disjoint rs"
  by (induction rs) (auto intro: regions_disjointI)

lemma region_subset_covered: "r \<in> set rs \<Longrightarrow> {mr_base r..<mr_end r} \<subseteq> covered rs"
  unfolding covered_def by blast

lemma append_disjoint:
  assumes "sorted_wrt regions_disjoint xs" "sorted_wrt regions_disjoint ys" "covered xs \<inter> covered ys = {}"
  shows "sorted_wrt regions_disjoint (xs @ ys)"
proof -
  have "regions_disjoint x y" if "x \<in> set xs" "y \<in> set ys" for x y
    using region_subset_covered [OF that(1)] region_subset_covered [OF that(2)] assms(3)
    unfolding regions_disjoint_def by blast
  with assms(1,2) show ?thesis by (simp add: sorted_wrt_append)
qed

lemma emulate_kernel_boot_regions:
  assumes emu: "emulate_kernel_boot cfg elf task user = (Inr info :: ('e, boot_info) res)"
    and self: "kernel_self_mem elf = (Inr self_mem :: ('e, memory_region) res)" "mr_base self_mem \<le> mr_end self_mem"
    and boot: "kernel_boot_mem elf = (Inr boot :: ('e, memory_region) res)" "mr_base boot \<le> mr_end boot"
    and within: "{mr_base boot..<mr_end boot} \<subseteq> {mr_base self_mem..<mr_end self_mem}"
    and regs: "device_regions cfg = Some devs" "normal_regions cfg = Some norms"
    and task: "mr_base task \<le> mr_end task"
    and osz: "calculate_rootserver_size cfg (initial_task_virt user) = (Inr osz :: ('e, u64) res)"
    and above: "\<forall>r \<in> set norms. osz \<le> pr_start r"
  obtains start vb mb ds ns c where
    "untyped_objects info = make_untypeds c True ds @ make_untypeds (c + of_nat (length ds)) False ns"
    "covered ds = region_span devs" "sorted_wrt regions_disjoint ds"
    "covered ns = {mr_base boot..<mr_end boot} \<union>
       (region_span norms - {mr_base self_mem..<mr_end self_mem} - {mr_base task..<mr_end task}
          - {start..<start + osz})"
    "sorted_wrt regions_disjoint ns"
    "{start..<start + osz} \<subseteq>
       region_span norms - {mr_base self_mem..<mr_end self_mem} - {mr_base task..<mr_end task}"
    "boot_max_bits cfg = (Inr mb :: ('e, u64) res)" "virtual_base cfg = (Inr vb :: ('e, u64) res)"
    "\<forall>r \<in> set (ds @ ns). untyped_region vb mb r"
proof -
  obtain pi n1 osz' al start n2 vb mb ds bs ps c where
    st: "kernel_partial_boot cfg elf = (Inr pi :: ('e, _) res)"
      "remove_region (mr_base task) (mr_end task) (kp_normal_memory pi) = (Inr n1 :: ('e, _) res)"
      "calculate_rootserver_size cfg (initial_task_virt user) = (Inr osz' :: ('e, _) res)"
      "find_objects_start osz' al (rev (regions n1)) = (Inr (Some start) :: ('e, _) res)"
      "remove_region start (start + osz') n1 = (Inr n2 :: ('e, _) res)"
      "boot_max_bits cfg = (Inr mb :: ('e, _) res)"
      "dmr_aligned_power_of_two_regions cfg mb (kp_device_memory pi) = (Inr ds :: ('e, _) res)"
      "virtual_base cfg = (Inr vb :: ('e, _) res)"
      "aligned_power_of_two_regions cfg mb (kp_boot_region pi) = (Inr bs :: ('e, _) res)"
      "dmr_aligned_power_of_two_regions cfg mb n2 = (Inr ps :: ('e, _) res)"
      "untyped_objects info = make_untypeds c True ds @ make_untypeds (c + of_nat (length ds)) False (bs @ ps)"
    by (rule emulate_kernel_boot_steps [OF emu]) (rule that)
  have oszeq: "osz' = osz" using st(3) osz by simp
  note pb = kernel_partial_boot_ok [OF st(1) self regs]
  have bt: "kp_boot_region pi = boot" using pb(5) boot(1) by simp
  let ?A = "region_span norms - {mr_base self_mem..<mr_end self_mem}"
  let ?B = "?A - {mr_base task..<mr_end task}"
  have n1: "dmr_inv n1" "dmr_covered n1 = ?B"
    using dmr.rem_inv [OF pb(3) task st(2)] dmr.rem_covers [OF pb(3) task st(2)] pb(4) by simp_all
  from find_objects_start_ok [OF st(4)] oszeq obtain r where
    r: "r \<in> set (regions n1)" "mr_base r \<le> start" "start \<le> mr_end r - osz" by auto
  have rlt: "mr_base r < mr_end r" using n1(1) r(1) by (simp add: dmr_inv_def)
  have "mr_base r \<in> region_span norms" using covered_base [OF r(1) rlt] n1(2) by auto
  then obtain q where "q \<in> set norms" "pr_start q \<le> mr_base r" by (auto simp: region_span_def)
  with above have "osz \<le> mr_base r" by (auto intro: order.trans)
  from objects_no_wrap [OF rlt this r(3)] have le: "start \<le> start + osz" .
  note st5 = st(5) [unfolded oszeq]
  have n2: "dmr_inv n2" "dmr_covered n2 = ?B - {start..<start + osz}" "{start..<start + osz} \<subseteq> ?B"
    using dmr.rem_inv [OF n1(1) le st5] dmr.rem_covers [OF n1(1) le st5] dmr.rem_within [OF n1(1) le st5]
      n1(2) by simp_all
  obtain ds' where "dmr_aligned_power_of_two_regions cfg mb (kp_device_memory pi) = (Inr ds' :: ('e, _) res)"
    and dsp: "dmr_inv \<lparr>regions = ds'\<rparr>" "covered ds' = dmr_covered (kp_device_memory pi)"
      "\<forall>p \<in> set ds'. untyped_region vb mb p"
    using dmr_aligned_partition [OF st(8) pb(1), of mb thesis] by blast
  with st(7) have ds: "ds' = ds" by simp
  obtain ps' where "dmr_aligned_power_of_two_regions cfg mb n2 = (Inr ps' :: ('e, _) res)"
    and psp: "dmr_inv \<lparr>regions = ps'\<rparr>" "covered ps' = dmr_covered n2"
      "\<forall>p \<in> set ps'. untyped_region vb mb p"
    using dmr_aligned_partition [OF st(8) n2(1), of mb thesis] by blast
  with st(10) have ps: "ps' = ps" by simp
  from aligned_power_of_two_regions_partition' [OF st(8) boot(2), of mb] st(9) bt
  have bs: "region_chain (mr_base boot) (mr_end boot) bs" "\<forall>p \<in> set bs. untyped_region vb mb p"
    by auto
  have dis: "covered bs \<inter> covered ps = {}"
    using region_chain_covered [OF bs(1)] psp(2) n2(2) within ps by auto
  have srt: "sorted_wrt regions_disjoint (bs @ ps)"
    using append_disjoint [OF sorted_disjoint [OF region_chain_sorted [OF bs(1)]] _ dis]
      sorted_disjoint psp(1) ps by (simp add: dmr_inv_def)
  show thesis
    by (rule that [OF st(11) _ _ _ srt n2(3) st(6) st(8)])
      (use dsp psp pb(2) n2(2) bs ds ps region_chain_covered [OF bs(1)] sorted_disjoint in
        \<open>auto simp: dmr_inv_def\<close>)
qed

text \<open>C1: when the kernel image, its boot part and the initial task are proper regions, the boot part
  lies in the image, and every normal region starts above the size of the initial objects, the
  untyped objects of a successful boot are exactly the device memory and, as normal memory, the boot
  part of the kernel plus all memory except the kernel image, the initial task and one block of the
  computed size for the initial objects, taken from what was left free.  No two normal untypeds
  overlap, no two device untypeds overlap, and each is an aligned power of two the kernel accepts.\<close>

theorem emulate_kernel_boot_memory:
  assumes "emulate_kernel_boot cfg elf task user = (Inr info :: ('e, boot_info) res)"
    and "kernel_self_mem elf = (Inr self_mem :: ('e, memory_region) res)" "mr_base self_mem \<le> mr_end self_mem"
    and "kernel_boot_mem elf = (Inr boot :: ('e, memory_region) res)" "mr_base boot \<le> mr_end boot"
    and "{mr_base boot..<mr_end boot} \<subseteq> {mr_base self_mem..<mr_end self_mem}"
    and "device_regions cfg = Some devs" "normal_regions cfg = Some norms"
    and "mr_base task \<le> mr_end task"
    and "calculate_rootserver_size cfg (initial_task_virt user) = (Inr osz :: ('e, u64) res)"
    and "\<forall>r \<in> set norms. osz \<le> pr_start r"
  shows "\<exists>start vb mb.
      boot_max_bits cfg = (Inr mb :: ('e, u64) res) \<and> virtual_base cfg = (Inr vb :: ('e, u64) res)
    \<and> (let devices = map ut_region (filter ut_is_device (untyped_objects info));
           normals = map ut_region (filter (\<lambda>u. \<not> ut_is_device u) (untyped_objects info));
           free = region_span norms - {mr_base self_mem..<mr_end self_mem} - {mr_base task..<mr_end task}
       in covered devices = region_span devs
        \<and> {start..<start + osz} \<subseteq> free
        \<and> covered normals = {mr_base boot..<mr_end boot} \<union> (free - {start..<start + osz})
        \<and> sorted_wrt regions_disjoint devices \<and> sorted_wrt regions_disjoint normals
        \<and> (\<forall>u \<in> set (untyped_objects info). untyped_region vb mb (ut_region u)))"
proof -
  obtain start vb mb ds ns c where
    r: "untyped_objects info = make_untypeds c True ds @ make_untypeds (c + of_nat (length ds)) False ns"
      "covered ds = region_span devs" "sorted_wrt regions_disjoint ds"
      "covered ns = {mr_base boot..<mr_end boot} \<union>
         (region_span norms - {mr_base self_mem..<mr_end self_mem} - {mr_base task..<mr_end task}
            - {start..<start + osz})"
      "sorted_wrt regions_disjoint ns"
      "{start..<start + osz} \<subseteq>
         region_span norms - {mr_base self_mem..<mr_end self_mem} - {mr_base task..<mr_end task}"
      "boot_max_bits cfg = (Inr mb :: ('e, u64) res)" "virtual_base cfg = (Inr vb :: ('e, u64) res)"
      "\<forall>r \<in> set (ds @ ns). untyped_region vb mb r"
    by (rule emulate_kernel_boot_regions [OF assms]) (rule that)
  note f = filter_untypeds [OF r(1)]
  have "\<forall>u \<in> set (untyped_objects info). untyped_region vb mb (ut_region u)"
    using r(9) unfolding f(3) [symmetric] by simp
  with r show ?thesis unfolding f Let_def by blast
qed

section \<open>A concrete boot\<close>

text \<open>A RISC-V kernel image at 0x80000000 in 4 MiB of memory, one device page, and an initial task of
  three pages.\<close>

definition example_kernel_elf :: elf_file where
  "example_kernel_elf = \<lparr>elf_path = ''sel4.elf'', elf_word_size = 64, elf_entry = 0xffffffff80000000,
     elf_machine = 243,
     segments = [\<lparr>seg_data = RealData [0], phys_addr = 0x80000000, virt_addr = 0xffffffff80000000,
                   loadable = True, attrs = 7\<rparr>],
     program_headers = [\<lparr>segment_idx = 0, phdr_type = 1\<rparr>],
     symbols = [''ki_end'' \<mapsto> (\<lparr>st_name = 0, st_info = 0, st_other = 0, st_shndx = 0,
                    st_value = 0xffffffff80010000, st_size = 0\<rparr>, False),
                ''ki_boot_end'' \<mapsto> (\<lparr>st_name = 0, st_info = 0, st_other = 0, st_shndx = 0,
                    st_value = 0xffffffff80002000, st_size = 0\<rparr>, False)]\<rparr>"

definition example_boot_config :: config where
  "example_boot_config = example_riscv_config
     \<lparr>device_regions := Some [\<lparr>pr_start = 0x1000, pr_end = 0x2000\<rparr>],
      normal_regions := Some [\<lparr>pr_start = 0x80000000, pr_end = 0x80400000\<rparr>]\<rparr>"

abbreviation example_task :: memory_region where
  "example_task \<equiv> \<lparr>mr_base = 0x80020000, mr_end = 0x80023000\<rparr>"

abbreviation example_user :: memory_region where
  "example_user \<equiv> \<lparr>mr_base = 0x200000, mr_end = 0x203000\<rparr>"

lemma example_boot_ok:
  "is_ok (emulate_kernel_boot example_boot_config example_kernel_elf example_task example_user
            :: (string, boot_info) res)"
  by code_simp

theorem emulate_kernel_boot_caps_witness:
  "\<exists>info. emulate_kernel_boot example_boot_config example_kernel_elf example_task example_user
            = (Inr info :: (string, boot_info) res)
     \<and> sched_control_cap info = fixed_cap_count info + paging_cap_count info"
proof -
  obtain info where "emulate_kernel_boot example_boot_config example_kernel_elf example_task example_user
      = (Inr info :: (string, boot_info) res)"
    using example_boot_ok by (auto simp: is_ok_iff)
  with emulate_kernel_boot_caps [OF this] show ?thesis by blast
qed

lemma example_kernel_mem:
  "kernel_self_mem example_kernel_elf = (Inr \<lparr>mr_base = 0x80000000, mr_end = 0x80010000\<rparr> :: (string, memory_region) res)"
  "kernel_boot_mem example_kernel_elf = (Inr \<lparr>mr_base = 0x80000000, mr_end = 0x80002000\<rparr> :: (string, memory_region) res)"
  by (code_simp)+

lemma example_rootserver_size:
  "calculate_rootserver_size example_boot_config (initial_task_virt example_user)
     = (Inr 0x46480 :: (string, u64) res)"
  by code_simp

theorem emulate_kernel_boot_memory_witness:
  "\<exists>info start. emulate_kernel_boot example_boot_config example_kernel_elf example_task example_user
            = (Inr info :: (string, boot_info) res)
     \<and> covered (map ut_region (filter ut_is_device (untyped_objects info))) = {0x1000..<0x2000}
     \<and> covered (map ut_region (filter (\<lambda>u. \<not> ut_is_device u) (untyped_objects info)))
         = {0x80000000..<0x80002000} \<union> ({0x80000000..<0x80400000} - {0x80000000..<0x80010000}
             - {0x80020000..<0x80023000} - {start..<start + 0x46480})"
proof -
  obtain info where i: "emulate_kernel_boot example_boot_config example_kernel_elf example_task example_user
      = (Inr info :: (string, boot_info) res)"
    using example_boot_ok by (auto simp: is_ok_iff)
  have "\<exists>start vb mb. boot_max_bits example_boot_config = (Inr mb :: (string, u64) res)
    \<and> virtual_base example_boot_config = (Inr vb :: (string, u64) res)
    \<and> (let devices = map ut_region (filter ut_is_device (untyped_objects info));
           normals = map ut_region (filter (\<lambda>u. \<not> ut_is_device u) (untyped_objects info));
           free = region_span [\<lparr>pr_start = 0x80000000, pr_end = 0x80400000\<rparr>]
             - {0x80000000..<0x80010000} - {0x80020000..<0x80023000}
       in covered devices = region_span [\<lparr>pr_start = 0x1000, pr_end = 0x2000\<rparr>]
        \<and> {start..<start + 0x46480} \<subseteq> free
        \<and> covered normals = {0x80000000..<0x80002000} \<union> (free - {start..<start + 0x46480})
        \<and> sorted_wrt regions_disjoint devices \<and> sorted_wrt regions_disjoint normals
        \<and> (\<forall>u \<in> set (untyped_objects info). untyped_region vb mb (ut_region u)))"
    using emulate_kernel_boot_memory [OF i example_kernel_mem(1) _ example_kernel_mem(2) _ _ _ _ _
        example_rootserver_size,
        of "[\<lparr>pr_start = 0x1000, pr_end = 0x2000\<rparr>]" "[\<lparr>pr_start = 0x80000000, pr_end = 0x80400000\<rparr>]"]
    by (simp add: example_boot_config_def)
  then show ?thesis using i by (auto simp: Let_def region_span_def)
qed

end
