(* ===== verification/Capdl_Alloc.thy ===== *)
theory Capdl_Alloc
  imports Capdl_Sort Kernel_Boot
begin

unbundle bit_operations_syntax

text \<open>
  The simulation of the initialiser's object allocation: \<open>tool/microkit/src/capdl/allocation.rs\<close>.
  Objects with a physical address are placed at it; all others are placed greedily, the largest that
  fits first, into the untypeds of main memory in the order of their addresses.  The messages it prints
  are not modelled; the level of error reporting is, since the tool returns early only when it prints.

  \<open>partition_point\<close> is given on lists that the predicate partitions, as its documentation asks: the
  objects are sorted with those that have an address first, and the untypeds by address.
\<close>

section \<open>Definitions\<close>

datatype alloc_error_level = Suppressed | PrintStderr

definition partition_point :: "('a \<Rightarrow> bool) \<Rightarrow> 'a list \<Rightarrow> nat" where
  "partition_point P xs = length (takeWhile P xs)"

definition has_paddr :: "named_object \<Rightarrow> bool" where
  "has_paddr ob \<longleftrightarrow> obj_paddr (no_object ob) \<noteq> None"

definition obj_bits :: "config \<Rightarrow> named_object \<Rightarrow> (capdl_error, u64) res" where
  "obj_bits cfg ob = capdl_obj_physical_size_bits (no_object ob) cfg"

text \<open>Step 2: for each size, the range of the objects of that size that are still to be placed.\<close>

type_synonym windows = "(nat \<times> nat) option list"

definition add_to_window :: "config \<Rightarrow> windows \<Rightarrow> nat \<times> named_object \<Rightarrow> (capdl_error, windows) res" where
  "add_to_window cfg ws = (\<lambda>(id, ob).
     bindr (obj_bits cfg ob) (\<lambda>bits.
     let phys_size_bit = unat bits
     in if phys_size_bit > 0
        then bindr (nthr ws phys_size_bit) (\<lambda>window_maybe.
               Inr (ws[phys_size_bit := Some (case window_maybe of
                        Some (st, en) \<Rightarrow> (st, en + 1)
                      | None \<Rightarrow> (id, id + 1))]))
        else Inr ws))"

definition object_windows :: "config \<Rightarrow> named_object list \<Rightarrow> nat \<Rightarrow> (capdl_error, windows) res" where
  "object_windows cfg obs first_without =
     foldM (add_to_window cfg) (replicate (unat (word_size cfg)) None)
       (enumerate first_without (drop first_without obs))"

text \<open>Step 3: whether an object with an address lies in one untyped.\<close>

definition paddr_allocatable :: "config \<Rightarrow> (nat \<times> untyped_object) list \<Rightarrow> named_object \<Rightarrow> (capdl_error, bool) res" where
  "paddr_allocatable cfg uts ob =
     bindr (unwrapr (obj_paddr (no_object ob))) (\<lambda>paddr_base.
     bindr (obj_bits cfg ob) (\<lambda>bits.
     let paddr_end = paddr_base + shl 1 bits;
         ut_after_candidate_idx = partition_point (\<lambda>(_, ut). ut_base ut \<le> paddr_base) uts
     in if ut_after_candidate_idx = 0 then Inr False
        else bindr (nthr uts (ut_after_candidate_idx - 1)) (\<lambda>(_, candidate_ut).
          Inr (ut_base candidate_ut \<le> paddr_base
               \<and> ut_base candidate_ut + shl 1 (ut_size_bits candidate_ut) \<ge> paddr_end))))"

text \<open>The largest size, of those given, that has an object still to be placed, and that object.\<close>

fun pick_window :: "windows \<Rightarrow> nat list \<Rightarrow> (capdl_error, (nat \<times> nat) option) res" where
  "pick_window ws [] = Inr None"
| "pick_window ws (b # bs) =
     bindr (nthr ws b) (\<lambda>w. case w of
        Some (st, en) \<Rightarrow> if st < en then Inr (Some (b, st)) else pick_window ws bs
      | None \<Rightarrow> pick_window ws bs)"

definition record_allocation :: "nat \<Rightarrow> expected_allocation \<Rightarrow> unit bld" where
  "record_allocation obj_id alloc = (\<lambda>s.
     bindr (assertr (sc_expected s obj_id = None)) (\<lambda>_.
       Inr ((), s\<lparr>sc_expected := (sc_expected s)(obj_id \<mapsto> alloc)\<rparr>)))"

text \<open>An iteration of the loop that fills an untyped up to \<open>target\<close>; the state is the windows and the
  watermark.\<close>

definition alloc_step ::
    "config \<Rightarrow> nat \<times> untyped_object \<Rightarrow> u64 \<Rightarrow> bool \<Rightarrow> windows \<times> u64 \<Rightarrow> (windows \<times> u64) bld" where
  "alloc_step cfg idx_ut target target_is_obj = (\<lambda>(ws, cur_paddr).
     let (ut_orig_idx, ut) = idx_ut;
         alignment_bits = (case checked_ilog2 (cur_paddr - ut_base ut) of
                             Some k \<Rightarrow> k | None \<Rightarrow> unat (word_size cfg))
     in bindB (liftB (unwrapr (checked_ilog2 (target - cur_paddr)))) (\<lambda>distance_bits.
        let max_size_bits = min alignment_bits distance_bits
        in bindB (liftB (if ut_is_device ut then Inr None else pick_window ws (rev [0..<max_size_bits + 1]))) (\<lambda>picked.
           case picked of
             Some (size_bits, obj_id) \<Rightarrow>
               bindB (record_allocation obj_id \<lparr>ea_ut_idx = ut_orig_idx, ea_paddr = cur_paddr\<rparr>) (\<lambda>_.
               bindB (root_object obj_id) (\<lambda>named_obj.
               bindB (liftB (obj_bits cfg named_obj)) (\<lambda>bits.
                 returnB (ws[size_bits := map_option (\<lambda>(st, en). (st + 1, en)) (ws ! size_bits)],
                          cur_paddr + shl 1 bits))))
           | None \<Rightarrow>
               returnB (ws, if target_is_obj then cur_paddr + shl 1 (of_nat max_size_bits) else target))))"

text \<open>Each iteration moves the watermark forward, so that as many iterations as there are addresses are
  enough.\<close>

definition ALLOC_FUEL :: nat where "ALLOC_FUEL = 2 ^ 64"

fun alloc_upto ::
    "nat \<Rightarrow> config \<Rightarrow> nat \<times> untyped_object \<Rightarrow> u64 \<Rightarrow> bool \<Rightarrow> windows \<times> u64 \<Rightarrow> (windows \<times> u64) bld" where
  "alloc_upto fuel cfg idx_ut target target_is_obj st =
     (if snd st < target
      then (case fuel of
              0 \<Rightarrow> liftB (Inl (Panic LoopFuelExhausted))
            | Suc n \<Rightarrow> bindB (alloc_step cfg idx_ut target target_is_obj st)
                          (alloc_upto n cfg idx_ut target target_is_obj))
      else returnB st)"

declare alloc_upto.simps [simp del]

text \<open>The object with an address that the watermark has reached.\<close>

definition place_paddr_obj :: "config \<Rightarrow> nat \<Rightarrow> nat \<Rightarrow> u64 \<Rightarrow> u64 bld" where
  "place_paddr_obj cfg ut_orig_idx obj_id cur_paddr =
     bindB (record_allocation obj_id \<lparr>ea_ut_idx = ut_orig_idx, ea_paddr = cur_paddr\<rparr>) (\<lambda>_.
     bindB (root_object obj_id) (\<lambda>named_obj.
     bindB (liftB (unwrapr (obj_paddr (no_object named_obj)))) (\<lambda>paddr.
     bindB (liftB (assertr (paddr = cur_paddr))) (\<lambda>_.
     bindB (liftB (obj_bits cfg named_obj)) (\<lambda>bits.
       returnB (cur_paddr + shl 1 bits))))))"

text \<open>The loop over one untyped.  Its list is the objects with an address that are still to be placed,
  \<open>next_obj_id_with_paddr\<close> the first of them; the result is what is left of it, and the windows.\<close>

fun alloc_untyped ::
    "config \<Rightarrow> nat \<times> untyped_object \<Rightarrow> nat list \<Rightarrow> windows \<times> u64 \<Rightarrow> (nat list \<times> windows) bld" where
  "alloc_untyped cfg idx_ut [] st =
     bindB (alloc_upto ALLOC_FUEL cfg idx_ut (ut_end (snd idx_ut)) False st) (\<lambda>(ws, _).
       returnB ([], ws))"
| "alloc_untyped cfg idx_ut (next_obj # later_objs) st =
     bindB getB (\<lambda>s.
     bindB (liftB (nthr (sc_objects s) next_obj)) (\<lambda>named_obj.
     bindB (liftB (unwrapr (obj_paddr (no_object named_obj)))) (\<lambda>paddr.
     let target = min (ut_end (snd idx_ut)) paddr;
         target_is_obj = target < ut_end (snd idx_ut)
     in bindB (alloc_upto ALLOC_FUEL cfg idx_ut target target_is_obj st) (\<lambda>(ws, cur_paddr).
        if target_is_obj
        then bindB (place_paddr_obj cfg (fst idx_ut) next_obj cur_paddr) (\<lambda>cur_paddr.
               alloc_untyped cfg idx_ut later_objs (ws, cur_paddr))
        else returnB (next_obj # later_objs, ws)))))"

definition simulate_capdl_object_alloc_algorithm :: "boot_info \<Rightarrow> config \<Rightarrow> alloc_error_level \<Rightarrow> bool bld" where
  "simulate_capdl_object_alloc_algorithm kernel_boot_info cfg level = bindB getB (\<lambda>s.
     let untypeds_by_paddr = sort_key (\<lambda>(_, ut). unat (ut_base ut)) (enumerate 0 (untyped_objects kernel_boot_info));
         first_obj_id_without_paddr = partition_point has_paddr (sc_objects s)
     in bindB (liftB (object_windows cfg (sc_objects s) first_obj_id_without_paddr)) (\<lambda>windows.
        bindB (liftB (mapM (paddr_allocatable cfg untypeds_by_paddr) (take first_obj_id_without_paddr (sc_objects s))))
          (\<lambda>phys_addrs_ok.
        if \<not> list_all (\<lambda>b. b) phys_addrs_ok \<and> level = PrintStderr then returnB False
        else
          bindB (foldB (\<lambda>(objs, ws) (ut_orig_idx, ut). alloc_untyped cfg (ut_orig_idx, ut) objs (ws, ut_base ut))
                   ([0..<first_obj_id_without_paddr], windows) untypeds_by_paddr) (\<lambda>(_, ws).
            returnB (list_all (\<lambda>w. case w of Some (st, en) \<Rightarrow> st = en | None \<Rightarrow> True) ws)))))"

section \<open>Placements\<close>

text \<open>The bytes an object occupies.\<close>

definition obj_bytes :: "config \<Rightarrow> named_object \<Rightarrow> nat" where
  "obj_bytes cfg ob = 2 ^ unat (size_bits_of cfg ob)"

lemma obj_bytes_pos [simp]: "0 < obj_bytes cfg ob"
  by (simp add: obj_bytes_def)

text \<open>An allocation of an object is valid when it lies in the untyped it names, and either at the
  object's address or in main memory.\<close>

definition placed_in :: "config \<Rightarrow> (nat \<times> untyped_object) set \<Rightarrow> named_object \<Rightarrow> expected_allocation \<Rightarrow> bool" where
  "placed_in cfg us ob a \<longleftrightarrow> (\<exists>ut. (ea_ut_idx a, ut) \<in> us
     \<and> unat (ut_base ut) \<le> unat (ea_paddr a)
     \<and> unat (ea_paddr a) + obj_bytes cfg ob \<le> unat (ut_end ut)
     \<and> (case obj_paddr (no_object ob) of Some p \<Rightarrow> ea_paddr a = p | None \<Rightarrow> \<not> ut_is_device ut))"

definition apart :: "config \<Rightarrow> named_object \<Rightarrow> expected_allocation \<Rightarrow> named_object \<Rightarrow> expected_allocation \<Rightarrow> bool" where
  "apart cfg ob a ob' a' \<longleftrightarrow>
     unat (ea_paddr a) + obj_bytes cfg ob \<le> unat (ea_paddr a')
     \<or> unat (ea_paddr a') + obj_bytes cfg ob' \<le> unat (ea_paddr a)"

definition placements_ok ::
    "config \<Rightarrow> (nat \<times> untyped_object) set \<Rightarrow> named_object list \<Rightarrow> (nat \<Rightarrow> expected_allocation option) \<Rightarrow> bool" where
  "placements_ok cfg us obs placed \<longleftrightarrow>
     (\<forall>i a. placed i = Some a \<longrightarrow> i < length obs \<and> placed_in cfg us (obs ! i) a)
     \<and> (\<forall>i j a b. i \<noteq> j \<longrightarrow> placed i = Some a \<longrightarrow> placed j = Some b \<longrightarrow> apart cfg (obs ! i) a (obs ! j) b)"

definition below :: "config \<Rightarrow> named_object list \<Rightarrow> (nat \<Rightarrow> expected_allocation option) \<Rightarrow> u64 \<Rightarrow> bool" where
  "below cfg obs placed cur \<longleftrightarrow>
     (\<forall>i a. placed i = Some a \<longrightarrow> unat (ea_paddr a) + obj_bytes cfg (obs ! i) \<le> unat cur)"

lemma below_mono: "below cfg obs placed cur \<Longrightarrow> unat cur \<le> unat cur' \<Longrightarrow> below cfg obs placed cur'"
  by (fastforce simp: below_def)

lemma placements_add:
  assumes "placements_ok cfg us obs placed" "below cfg obs placed cur" "i < length obs" "ea_paddr a = cur"
    "placed_in cfg us (obs ! i) a" "unat cur' = unat cur + obj_bytes cfg (obs ! i)"
  shows "placements_ok cfg us obs (placed(i \<mapsto> a)) \<and> below cfg obs (placed(i \<mapsto> a)) cur'"
proof -
  have "apart cfg (obs ! j) b (obs ! i) a" "apart cfg (obs ! i) a (obs ! j) b" if "placed j = Some b" for j b
    using assms(2,4) that by (auto simp: below_def apart_def)
  with assms(1,3,5) have "placements_ok cfg us obs (placed(i \<mapsto> a))"
    by (auto simp: placements_ok_def)
  moreover have "below cfg obs (placed(i \<mapsto> a)) cur'"
    using assms(2,4,6) by (fastforce simp: below_def)
  ultimately show ?thesis ..
qed

section \<open>The windows\<close>

text \<open>The windows of the objects from \<open>first\<close> up to \<open>upto\<close>: that of a size is the range of the objects of
  that size.\<close>

definition window_covers :: "config \<Rightarrow> named_object list \<Rightarrow> nat \<Rightarrow> nat \<Rightarrow> nat \<Rightarrow> (nat \<times> nat) option \<Rightarrow> bool" where
  "window_covers cfg obs first_wo hi b w = (case w of
      None \<Rightarrow> 0 < b \<longrightarrow> (\<forall>i. first_wo \<le> i \<longrightarrow> i < hi \<longrightarrow> unat (size_bits_of cfg (obs ! i)) \<noteq> b)
    | Some (st, en) \<Rightarrow> 0 < b \<and> st < en
        \<and> (\<forall>i. st \<le> i \<and> i < en \<longleftrightarrow> first_wo \<le> i \<and> i < hi \<and> unat (size_bits_of cfg (obs ! i)) = b))"

definition windows_cover :: "config \<Rightarrow> named_object list \<Rightarrow> nat \<Rightarrow> nat \<Rightarrow> windows \<Rightarrow> bool" where
  "windows_cover cfg obs first_wo hi ws \<longleftrightarrow>
     length ws = 64 \<and> (\<forall>b < 64. window_covers cfg obs first_wo hi b (ws ! b))"

lemma window_covers_skip:
  "window_covers cfg obs first_wo k b w \<Longrightarrow> b \<noteq> unat (size_bits_of cfg (obs ! k)) \<or> b = 0 \<Longrightarrow>
     window_covers cfg obs first_wo (Suc k) b w"
  by (auto simp: window_covers_def less_Suc_eq split: option.splits)

lemma window_covers_add:
  assumes w: "window_covers cfg obs first_wo k b w" and b: "unat (size_bits_of cfg (obs ! k)) = b" "0 < b"
    and k: "first_wo \<le> k"
    and desc: "\<And>i j. first_wo \<le> i \<Longrightarrow> i \<le> j \<Longrightarrow> j \<le> k \<Longrightarrow>
                 unat (size_bits_of cfg (obs ! j)) \<le> unat (size_bits_of cfg (obs ! i))"
  shows "window_covers cfg obs first_wo (Suc k) b
     (Some (case w of Some (st, en) \<Rightarrow> (st, en + 1) | None \<Rightarrow> (k, k + 1)))"
proof (cases w)
  case None
  with w b have "first_wo \<le> i \<Longrightarrow> i < k \<Longrightarrow> unat (size_bits_of cfg (obs ! i)) \<noteq> b" for i
    by (auto simp: window_covers_def)
  then show ?thesis using None k b by (auto simp: window_covers_def less_Suc_eq le_less)
next
  case (Some se)
  let ?sz = "\<lambda>i. unat (size_bits_of cfg (obs ! i))"
  obtain st en where se: "se = (st, en)" by (cases se)
  with w Some have win: "st < en" "\<And>i. st \<le> i \<and> i < en \<longleftrightarrow> first_wo \<le> i \<and> i < k \<and> ?sz i = b"
    by (auto simp: window_covers_def)
  from win(1) win(2) [of st] have st: "first_wo \<le> st" "st < k" "?sz st = b" by auto
  have "?sz (k - 1) = b"
    using desc [of st "k - 1"] desc [of "k - 1" k] st b(1) by (simp add: le_antisym)
  moreover have "first_wo \<le> k - 1" "k - 1 < k" using st by auto
  ultimately have "k - 1 < en" using win(2) [of "k - 1"] by blast
  moreover have "en \<le> k" using win(1) win(2) [of "en - 1"] by auto
  ultimately have "en = k" by simp
  have "st \<le> i \<and> i < Suc k \<longleftrightarrow> first_wo \<le> i \<and> i < Suc k \<and> ?sz i = b" for i
    using win(2) [of i] st b \<open>en = k\<close> by (cases "i = k") auto
  then show ?thesis using Some se win(1) b(2) \<open>en = k\<close> by (simp add: window_covers_def)
qed

lemma add_to_window_cover:
  assumes ws: "windows_cover cfg obs first_wo k ws" and k: "first_wo \<le> k"
    and sz: "sized cfg (obs ! k)" "unat (size_bits_of cfg (obs ! k)) < 64"
    and desc: "\<And>i j. first_wo \<le> i \<Longrightarrow> i \<le> j \<Longrightarrow> j \<le> k \<Longrightarrow>
                 unat (size_bits_of cfg (obs ! j)) \<le> unat (size_bits_of cfg (obs ! i))"
  shows "\<exists>ws'. add_to_window cfg ws (k, obs ! k) = Inr ws' \<and> windows_cover cfg obs first_wo (Suc k) ws'"
proof -
  let ?b = "unat (size_bits_of cfg (obs ! k))"
  let ?w = "Some (case ws ! ?b of Some (st, en) \<Rightarrow> (st, en + 1) | None \<Rightarrow> (k, k + 1))"
  have len: "length ws = 64" and cov: "\<And>b. b < 64 \<Longrightarrow> window_covers cfg obs first_wo k b (ws ! b)"
    using ws by (simp_all add: windows_cover_def)
  have run: "add_to_window cfg ws (k, obs ! k) = Inr (if 0 < ?b then ws[?b := ?w] else ws)"
    using sz(2) len by (simp add: add_to_window_def obj_bits_def sized_run [OF sz(1)] Let_def)
  have "windows_cover cfg obs first_wo (Suc k) (if 0 < ?b then ws[?b := ?w] else ws)"
    unfolding windows_cover_def
  proof (intro conjI allI impI)
    show "length (if 0 < ?b then ws[?b := ?w] else ws) = 64" using len by simp
    fix b :: nat
    assume b: "b < 64"
    show "window_covers cfg obs first_wo (Suc k) b ((if 0 < ?b then ws[?b := ?w] else ws) ! b)"
    proof (cases "b = ?b \<and> 0 < b")
      case True
      with window_covers_add [OF cov [OF b] _ _ k desc] len b show ?thesis by simp
    next
      case False
      with window_covers_skip [OF cov [OF b]] len b show ?thesis by (auto simp: nth_list_update)
    qed
  qed
  with run show ?thesis by blast
qed

lemma object_windows_run:
  assumes len: "word_size cfg = 64" "first_wo \<le> length obs"
    and sz: "\<And>ob. ob \<in> set obs \<Longrightarrow> sized cfg ob \<and> unat (size_bits_of cfg ob) < 64"
    and desc: "\<And>i j. first_wo \<le> i \<Longrightarrow> i \<le> j \<Longrightarrow> j < length obs \<Longrightarrow>
                 unat (size_bits_of cfg (obs ! j)) \<le> unat (size_bits_of cfg (obs ! i))"
  shows "\<exists>ws. object_windows cfg obs first_wo = Inr ws \<and> windows_cover cfg obs first_wo (length obs) ws"
proof -
  have "\<exists>ws. foldM (add_to_window cfg) (replicate 64 None) (enumerate first_wo (take k (drop first_wo obs))) = Inr ws
      \<and> windows_cover cfg obs first_wo (first_wo + k) ws" if "first_wo + k \<le> length obs" for k
    using that
  proof (induction k)
    case 0
    then show ?case by (auto simp: windows_cover_def window_covers_def)
  next
    case (Suc k)
    then obtain ws where ws: "foldM (add_to_window cfg) (replicate 64 None)
        (enumerate first_wo (take k (drop first_wo obs))) = Inr ws"
      "windows_cover cfg obs first_wo (first_wo + k) ws" by auto
    have "enumerate first_wo (take (Suc k) (drop first_wo obs))
        = enumerate first_wo (take k (drop first_wo obs)) @ [(first_wo + k, obs ! (first_wo + k))]"
      using Suc.prems by (simp add: take_Suc_conv_app_nth enumerate_append_eq)
    moreover obtain ws' where "add_to_window cfg ws (first_wo + k, obs ! (first_wo + k)) = Inr ws'"
      "windows_cover cfg obs first_wo (Suc (first_wo + k)) ws'"
      using add_to_window_cover [OF ws(2)] sz [of "obs ! (first_wo + k)"] desc Suc.prems by fastforce
    ultimately show ?case using ws(1) by (simp add: foldM_append)
  qed
  from this [of "length obs - first_wo"] len show ?thesis by (simp add: object_windows_def)
qed

section \<open>The invariant\<close>

text \<open>What does not change while the untypeds are filled: the objects, the size of each known, those
  with an address before \<open>first_wo\<close>, and the windows at the start.\<close>

definition alloc_ctx :: "config \<Rightarrow> named_object list \<Rightarrow> nat \<Rightarrow> windows \<Rightarrow> bool" where
  "alloc_ctx cfg obs first_wo ws0 \<longleftrightarrow>
     word_size cfg = 64 \<and> first_wo \<le> length obs
     \<and> (\<forall>ob \<in> set obs. sized cfg ob \<and> unat (size_bits_of cfg ob) < 64)
     \<and> (\<forall>i < length obs. has_paddr (obs ! i) \<longleftrightarrow> i < first_wo)
     \<and> windows_cover cfg obs first_wo (length obs) ws0"

text \<open>Windows shrink from below; \<open>taken\<close> are the objects that were placed.\<close>

definition window_left :: "(nat \<times> nat) option \<Rightarrow> (nat \<times> nat) option \<Rightarrow> bool" where
  "window_left w0 w = (case w0 of
      None \<Rightarrow> w = None
    | Some (st, en) \<Rightarrow> \<exists>m. w = Some (m, en) \<and> st \<le> m \<and> m \<le> en)"

definition taken :: "(nat \<times> nat) option \<Rightarrow> (nat \<times> nat) option \<Rightarrow> nat \<Rightarrow> bool" where
  "taken w0 w i = (case w0 of
      None \<Rightarrow> False
    | Some (st, _) \<Rightarrow> (case w of None \<Rightarrow> False | Some (m, _) \<Rightarrow> st \<le> i \<and> i < m))"

definition alloc_inv ::
    "config \<Rightarrow> named_object list \<Rightarrow> nat \<Rightarrow> windows \<Rightarrow> (nat \<times> untyped_object) set
       \<Rightarrow> nat list \<Rightarrow> windows \<Rightarrow> spec_container \<Rightarrow> u64 \<Rightarrow> bool" where
  "alloc_inv cfg obs first_wo ws0 us rest ws s cur \<longleftrightarrow>
     (sc_objects s = obs \<and> range_ok s)
     \<and> placements_ok cfg us obs (sc_expected s) \<and> below cfg obs (sc_expected s) cur
     \<and> length ws = 64 \<and> (\<forall>b < 64. window_left (ws0 ! b) (ws ! b))
     \<and> (\<forall>i. sc_expected s i \<noteq> None \<longleftrightarrow> i < first_wo \<and> i \<notin> set rest \<or> (\<exists>b < 64. taken (ws0 ! b) (ws ! b) i))"

lemma alloc_inv_mono:
  "alloc_inv cfg obs first_wo ws0 us rest ws s cur \<Longrightarrow> unat cur \<le> unat cur' \<Longrightarrow>
     alloc_inv cfg obs first_wo ws0 us rest ws s cur'"
  using below_mono by (auto simp: alloc_inv_def)

lemma windows_coverD:
  assumes "windows_cover cfg obs first_wo hi ws0" "b < 64" "ws0 ! b = Some (st, en)" "st \<le> i" "i < en"
  shows "first_wo \<le> i \<and> i < hi \<and> unat (size_bits_of cfg (obs ! i)) = b"
proof -
  from assms(1,2) have "window_covers cfg obs first_wo hi b (ws0 ! b)" by (simp add: windows_cover_def)
  with assms(3-5) show ?thesis by (auto simp: window_covers_def)
qed

lemma taken_size:
  assumes "windows_cover cfg obs first_wo (length obs) ws0" "b < 64" "window_left (ws0 ! b) w" "taken (ws0 ! b) w i"
  shows "first_wo \<le> i \<and> i < length obs \<and> unat (size_bits_of cfg (obs ! i)) = b"
proof -
  from assms(3,4) obtain st en m where w: "ws0 ! b = Some (st, en)" "m \<le> en" "st \<le> i" "i < m"
    by (auto simp: window_left_def taken_def split: option.splits)
  then have "i < en" by simp
  from windows_coverD [OF assms(1,2) w(1,3) this] show ?thesis .
qed

lemma pick_window_run:
  "(\<And>b. b \<in> set bs \<Longrightarrow> b < length ws) \<Longrightarrow>
     pick_window ws bs = Inr None
     \<or> (\<exists>b st en. pick_window ws bs = Inr (Some (b, st)) \<and> b \<in> set bs \<and> ws ! b = Some (st, en) \<and> st < en)"
proof (induction bs)
  case (Cons b bs)
  then have len: "b < length ws" and IH: "pick_window ws bs = Inr None
     \<or> (\<exists>b st en. pick_window ws bs = Inr (Some (b, st)) \<and> b \<in> set bs \<and> ws ! b = Some (st, en) \<and> st < en)"
    by auto
  show ?case
  proof (cases "\<exists>st en. ws ! b = Some (st, en) \<and> st < en")
    case True
    with len show ?thesis by auto
  next
    case False
    then have "pick_window ws (b # bs) = pick_window ws bs" using len by (auto split: option.splits)
    with IH show ?thesis by auto
  qed
qed simp

lemma checked_ilog2_pos:
  assumes "x \<noteq> 0"
  shows "\<exists>k. checked_ilog2 x = Some k \<and> k < 64 \<and> 2 ^ k \<le> unat x"
  using assms leading_zeros_bounds(1) [OF assms] leading_zeros_less [OF assms]
  by (simp add: checked_ilog2_def)

text \<open>Taking the first object of a window.\<close>

lemma alloc_inv_take:
  assumes ctx: "alloc_ctx cfg obs first_wo ws0" and inv: "alloc_inv cfg obs first_wo ws0 us rest ws s cur"
    and b: "b < 64" "ws ! b = Some (m, en)" "m < en"
    and ut: "(idx, ut) \<in> us" "\<not> ut_is_device ut" "unat (ut_base ut) \<le> unat cur" "unat cur + 2 ^ b \<le> unat (ut_end ut)"
    and cur': "unat cur' = unat cur + 2 ^ b"
  shows "sc_expected s m = None \<and> m < length obs \<and> unat (size_bits_of cfg (obs ! m)) = b
     \<and> alloc_inv cfg obs first_wo ws0 us rest (ws[b := Some (m + 1, en)])
         (s\<lparr>sc_expected := (sc_expected s)(m \<mapsto> \<lparr>ea_ut_idx = idx, ea_paddr = cur\<rparr>)\<rparr>) cur'"
proof -
  have cover: "windows_cover cfg obs first_wo (length obs) ws0"
    and pad: "\<And>i. i < length obs \<Longrightarrow> has_paddr (obs ! i) \<longleftrightarrow> i < first_wo"
    using ctx by (simp_all add: alloc_ctx_def)
  have len: "length ws = 64" and left: "\<And>b. b < 64 \<Longrightarrow> window_left (ws0 ! b) (ws ! b)"
    and dom: "\<And>i. sc_expected s i \<noteq> None \<longleftrightarrow> i < first_wo \<and> i \<notin> set rest \<or> (\<exists>b < 64. taken (ws0 ! b) (ws ! b) i)"
    using inv by (simp_all add: alloc_inv_def)
  from left [OF b(1)] b(2) obtain st where w0: "ws0 ! b = Some (st, en)" "st \<le> m"
    by (auto simp: window_left_def split: option.splits)
  from windows_coverD [OF cover b(1) w0(1,2) b(3)]
  have m: "first_wo \<le> m" "m < length obs" "unat (size_bits_of cfg (obs ! m)) = b" by simp_all
  have "\<not> taken (ws0 ! b') (ws ! b') m" if "b' < 64" for b'
  proof
    assume t: "taken (ws0 ! b') (ws ! b') m"
    from taken_size [OF cover that left [OF that] t] m(3) have "b' = b" by simp
    with t w0 b(2) show False by (simp add: taken_def)
  qed
  with dom [of m] m(1) have fresh: "sc_expected s m = None" by auto
  have bytes: "obj_bytes cfg (obs ! m) = 2 ^ b" by (simp add: obj_bytes_def m(3))
  have "obj_paddr (no_object (obs ! m)) = None" using pad [OF m(2)] m(1) by (simp add: has_paddr_def)
  with ut bytes have pl: "placed_in cfg us (obs ! m) \<lparr>ea_ut_idx = idx, ea_paddr = cur\<rparr>"
    by (auto simp: placed_in_def)
  have add: "placements_ok cfg us obs ((sc_expected s)(m \<mapsto> \<lparr>ea_ut_idx = idx, ea_paddr = cur\<rparr>))
    \<and> below cfg obs ((sc_expected s)(m \<mapsto> \<lparr>ea_ut_idx = idx, ea_paddr = cur\<rparr>)) cur'"
    by (rule placements_add [OF _ _ m(2) _ pl]) (use inv cur' bytes in \<open>simp_all add: alloc_inv_def\<close>)
  have left': "window_left (ws0 ! b') (ws[b := Some (m + 1, en)] ! b')" if "b' < 64" for b'
    using left [OF that] w0 b len by (cases "b' = b") (auto simp: window_left_def)
  have tk: "taken (ws0 ! b') (ws[b := Some (m + 1, en)] ! b') i \<longleftrightarrow> taken (ws0 ! b') (ws ! b') i \<or> b' = b \<and> i = m"
    if "b' < 64" for b' i
    using w0 b len that by (cases "b' = b") (auto simp: taken_def)
  have dom': "((sc_expected s)(m \<mapsto> a)) i \<noteq> None \<longleftrightarrow>
      i < first_wo \<and> i \<notin> set rest \<or> (\<exists>b' < 64. taken (ws0 ! b') (ws[b := Some (m + 1, en)] ! b') i)" for a i
    using dom [of i] tk b(1) by (cases "i = m") auto
  show ?thesis
    using fresh m add left' dom' inv len by (simp add: alloc_inv_def range_ok_def)
qed

section \<open>Filling an untyped\<close>

lemma unat_advance:
  assumes "unat bits < 64" "unat cur + 2 ^ unat bits \<le> unat (target :: u64)"
  shows "unat (cur + shl 1 bits) = unat cur + 2 ^ unat bits"
  using assms u64_lt [of target]
  by (subst unat_add_no_overflow) (simp_all add: shl_small unat_push_bit_1 del: push_bit_of_1)

lemma bindB_getB: "bindB getB f = (\<lambda>s. f s s)"
  by (simp add: fun_eq_iff bindB_def getB_def)

lemma bindB_liftB_Inr: "bindB (liftB (Inr x)) f = f x"
  by (simp add: fun_eq_iff bindB_def liftB_def)

lemma alloc_step_run:
  assumes ctx: "alloc_ctx cfg obs first_wo ws0" and inv: "alloc_inv cfg obs first_wo ws0 us rest ws s cur"
    and ut: "(idx, ut) \<in> us" "unat (ut_base ut) \<le> unat cur" "unat cur < unat target" "unat target \<le> unat (ut_end ut)"
  shows "\<exists>ws' s' cur'. alloc_step cfg (idx, ut) target is_obj (ws, cur) s = Inr ((ws', cur'), s')
     \<and> unat cur < unat cur' \<and> unat cur' \<le> unat target
     \<and> alloc_inv cfg obs first_wo ws0 us rest ws' s' cur'"
proof -
  let ?align = "case checked_ilog2 (cur - ut_base ut) of Some k \<Rightarrow> k | None \<Rightarrow> unat (word_size cfg)"
  have diff: "unat (target - cur) = unat target - unat cur" using ut(3) by (simp add: unat_sub word_le_nat_alt)
  then have "target - cur \<noteq> 0" using ut(3) by (metis unat_0 zero_less_diff less_irrefl)
  from checked_ilog2_pos [OF this] obtain k where k: "checked_ilog2 (target - cur) = Some k" "k < 64"
    "2 ^ k \<le> unat (target - cur)" by blast
  define m where "m = min ?align k"
  have m: "m < 64" "m \<le> k" using k(2) by (simp_all add: m_def)
  have fits: "unat cur + 2 ^ b \<le> unat target" if "b \<le> m" for b
  proof -
    have "(2 :: nat) ^ b \<le> 2 ^ k" by (rule power_increasing) (use m(2) that in auto)
    with k(3) diff ut(3) show ?thesis by linarith
  qed
  have len: "length ws = 64" and ob: "sc_objects s = obs" "range_ok s"
    using inv by (simp_all add: alloc_inv_def)
  let ?pick = "if ut_is_device ut then Inr None else pick_window ws (rev [0..<m + 1])"
  have step: "alloc_step cfg (idx, ut) target is_obj (ws, cur) =
      bindB (liftB ?pick) (\<lambda>picked. case picked of
             Some (size_bits, obj_id) \<Rightarrow>
               bindB (record_allocation obj_id \<lparr>ea_ut_idx = idx, ea_paddr = cur\<rparr>) (\<lambda>_.
               bindB (root_object obj_id) (\<lambda>named_obj.
               bindB (liftB (obj_bits cfg named_obj)) (\<lambda>bits.
                 returnB (ws[size_bits := map_option (\<lambda>(st, en). (st + 1, en)) (ws ! size_bits)],
                          cur + shl 1 bits))))
           | None \<Rightarrow> returnB (ws, if is_obj then cur + shl 1 (of_nat m) else target))"
    by (simp only: alloc_step_def Let_def prod.case k(1) unwrapr_simps bindB_liftB_Inr m_def)
  have "?pick = Inr None \<or> (\<exists>b st en. ?pick = Inr (Some (b, st)) \<and> b \<le> m \<and> ws ! b = Some (st, en) \<and> st < en
      \<and> \<not> ut_is_device ut)"
  proof (cases "ut_is_device ut")
    case False
    have "pick_window ws (rev [0..<m + 1]) = Inr None
      \<or> (\<exists>b st en. pick_window ws (rev [0..<m + 1]) = Inr (Some (b, st)) \<and> b \<in> set (rev [0..<m + 1])
          \<and> ws ! b = Some (st, en) \<and> st < en)"
      by (rule pick_window_run) (use m(1) len in auto)
    moreover have "b \<in> set (rev [0..<m + 1]) \<Longrightarrow> b \<le> m" for b by auto
    ultimately show ?thesis unfolding if_not_P [OF False] using False by blast
  qed simp
  then show ?thesis
  proof
    assume none: "?pick = Inr None"
    let ?cur' = "if is_obj then cur + shl 1 (of_nat m) else target"
    have bits: "unat (of_nat m :: u64) = m" using m(1) by (simp add: unat_of_nat_small)
    have adv: "unat (cur + shl 1 (of_nat m)) = unat cur + 2 ^ m"
      using unat_advance [of "of_nat m" cur target] m(1) fits [OF order_refl] unfolding bits by simp
    have "alloc_step cfg (idx, ut) target is_obj (ws, cur) s = Inr ((ws, ?cur'), s)"
      unfolding step none by (simp add: bindB_def liftB_def returnB_def)
    moreover have c: "unat cur < unat ?cur'" "unat ?cur' \<le> unat target"
      using adv fits [OF order_refl] ut(3) by simp_all
    moreover have "alloc_inv cfg obs first_wo ws0 us rest ws s ?cur'"
      using alloc_inv_mono [OF inv less_imp_le [OF c(1)]] .
    ultimately show ?thesis by blast
  next
    assume "\<exists>b st en. ?pick = Inr (Some (b, st)) \<and> b \<le> m \<and> ws ! b = Some (st, en) \<and> st < en \<and> \<not> ut_is_device ut"
    then obtain b st en where b: "?pick = Inr (Some (b, st))" "b \<le> m" "ws ! b = Some (st, en)" "st < en"
      and dev: "\<not> ut_is_device ut" by blast
    have b64: "b < 64" using b(2) m(1) by simp
    define a where "a = \<lparr>ea_ut_idx = idx, ea_paddr = cur\<rparr>"
    define cur' where "cur' = cur + shl 1 (size_bits_of cfg (obs ! st))"
    have up: "unat cur + 2 ^ b \<le> unat (ut_end ut)" using fits [OF b(2)] ut(4) by simp
    have cur_b: "unat (cur + shl 1 (of_nat b)) = unat cur + 2 ^ b"
      using unat_advance [of "of_nat b" cur target] fits [OF b(2)] b64 by (simp add: unat_of_nat_small)
    note take = alloc_inv_take [OF ctx inv b64 b(3,4) ut(1) dev ut(2) up cur_b, folded a_def]
    then have st: "sc_expected s st = None" "st < length obs" "unat (size_bits_of cfg (obs ! st)) = b" by simp_all
    have "sized cfg (obs ! st)" using ctx st(2) by (simp add: alloc_ctx_def)
    then have "alloc_step cfg (idx, ut) target is_obj (ws, cur) s =
        Inr ((ws[b := Some (st + 1, en)], cur'), s\<lparr>sc_expected := (sc_expected s)(st \<mapsto> a)\<rparr>)"
      unfolding step b(1) using st ob b(3)
      by (simp add: bindB_def liftB_def returnB_def record_allocation_def a_def root_object_def get_root_object_def
          range_ok_def obj_bits_def sized_run cur'_def)
    moreover have "size_bits_of cfg (obs ! st) = of_nat b"
      using st(3) b64 by (simp add: u64_eq_iff unat_of_nat_small)
    ultimately show ?thesis using take cur_b fits [OF b(2)] by (auto simp: cur'_def)
  qed
qed

lemma alloc_upto_run:
  assumes ctx: "alloc_ctx cfg obs first_wo ws0" and ut: "(idx, ut) \<in> us" "unat target \<le> unat (ut_end ut)"
  shows "alloc_inv cfg obs first_wo ws0 us rest ws s cur \<Longrightarrow> unat (ut_base ut) \<le> unat cur \<Longrightarrow>
     unat cur \<le> unat target \<Longrightarrow> unat target - unat cur \<le> fuel \<Longrightarrow>
     \<exists>ws' s'. alloc_upto fuel cfg (idx, ut) target is_obj (ws, cur) s = Inr ((ws', target), s')
       \<and> alloc_inv cfg obs first_wo ws0 us rest ws' s' target"
proof (induction fuel arbitrary: ws s cur)
  case 0
  then have "cur = target" by (simp add: u64_eq_iff)
  with 0 show ?case by (subst alloc_upto.simps) (simp add: returnB_def)
next
  case (Suc fuel)
  show ?case
  proof (cases "cur < target")
    case False
    with Suc.prems(3) have "cur = target" by (simp add: word_less_nat_alt u64_eq_iff)
    with Suc.prems show ?thesis by (subst alloc_upto.simps) (simp add: returnB_def)
  next
    case True
    then have "unat cur < unat target" by (simp add: word_less_nat_alt)
    from alloc_step_run [OF ctx Suc.prems(1) ut(1) Suc.prems(2) this ut(2)] obtain ws1 s1 cur1 where
      st: "alloc_step cfg (idx, ut) target is_obj (ws, cur) s = Inr ((ws1, cur1), s1)"
        "unat cur < unat cur1" "unat cur1 \<le> unat target" "alloc_inv cfg obs first_wo ws0 us rest ws1 s1 cur1" by blast
    have "\<exists>ws' s'. alloc_upto fuel cfg (idx, ut) target is_obj (ws1, cur1) s1 = Inr ((ws', target), s')
       \<and> alloc_inv cfg obs first_wo ws0 us rest ws' s' target"
      by (rule Suc.IH [OF st(4)]) (use st Suc.prems in auto)
    then show ?thesis using True st(1) by (subst alloc_upto.simps) (simp add: bindB_def)
  qed
qed

text \<open>The objects with an address are in the order of their addresses and do not overlap.\<close>

definition obj_addr :: "named_object \<Rightarrow> nat" where
  "obj_addr ob = (case obj_paddr (no_object ob) of Some p \<Rightarrow> unat p | None \<Rightarrow> 0)"

definition paddrs_apart :: "config \<Rightarrow> named_object list \<Rightarrow> bool" where
  "paddrs_apart cfg obs \<longleftrightarrow>
     (\<forall>ob \<in> set obs. obj_addr ob + obj_bytes cfg ob < 2 ^ 64)
     \<and> sorted_wrt (\<lambda>a b. obj_addr a + obj_bytes cfg a \<le> obj_addr b) obs"

lemma paddrs_apart_nth:
  assumes "paddrs_apart cfg obs" "i < j" "j < length obs"
  shows "obj_addr (obs ! i) + obj_bytes cfg (obs ! i) \<le> obj_addr (obs ! j)"
  using assms by (simp add: paddrs_apart_def sorted_wrt_iff_nth_less)

lemma place_paddr_obj_run:
  assumes ctx: "alloc_ctx cfg obs first_wo ws0"
    and inv: "alloc_inv cfg obs first_wo ws0 us [k..<first_wo] ws s cur"
    and k: "k < first_wo" "obj_addr (obs ! k) = unat cur" "unat cur + obj_bytes cfg (obs ! k) \<le> unat (ut_end ut)"
    and ut: "(idx, ut) \<in> us" "unat (ut_base ut) \<le> unat cur"
  shows "\<exists>cur' s'. place_paddr_obj cfg idx k cur s = Inr (cur', s')
     \<and> unat cur' = unat cur + obj_bytes cfg (obs ! k)
     \<and> alloc_inv cfg obs first_wo ws0 us [Suc k..<first_wo] ws s' cur'"
proof -
  let ?ob = "obs ! k" and ?a = "\<lparr>ea_ut_idx = idx, ea_paddr = cur\<rparr>"
  let ?cur' = "cur + shl 1 (size_bits_of cfg ?ob)"
  have len: "k < length obs" using ctx k(1) by (simp add: alloc_ctx_def)
  have sz: "sized cfg ?ob" "unat (size_bits_of cfg ?ob) < 64" using ctx len by (simp_all add: alloc_ctx_def)
  have "has_paddr ?ob" using ctx len k(1) by (simp add: alloc_ctx_def)
  with k(2) have addr: "obj_paddr (no_object ?ob) = Some cur"
    by (auto simp: has_paddr_def obj_addr_def u64_eq_iff)
  have cover: "windows_cover cfg obs first_wo (length obs) ws0" using ctx by (simp add: alloc_ctx_def)
  have ob: "sc_objects s = obs" "range_ok s" and wl: "length ws = 64"
    and left: "\<And>b. b < 64 \<Longrightarrow> window_left (ws0 ! b) (ws ! b)"
    and dom: "\<And>i. sc_expected s i \<noteq> None \<longleftrightarrow>
        i < first_wo \<and> i \<notin> set [k..<first_wo] \<or> (\<exists>b < 64. taken (ws0 ! b) (ws ! b) i)"
    using inv by (simp_all add: alloc_inv_def)
  have "\<not> taken (ws0 ! b) (ws ! b) k" if "b < 64" for b
    using taken_size [OF cover that left [OF that], of k] k(1) by auto
  with dom [of k] k(1) have fresh: "sc_expected s k = None" by auto
  have cur': "unat ?cur' = unat cur + obj_bytes cfg ?ob"
    using unat_advance [OF sz(2), of cur "ut_end ut"] k(3) by (simp add: obj_bytes_def)
  have run: "place_paddr_obj cfg idx k cur s = Inr (?cur', s\<lparr>sc_expected := (sc_expected s)(k \<mapsto> ?a)\<rparr>)"
    using ob len fresh sz(1) addr
    by (simp add: place_paddr_obj_def record_allocation_def bindB_def liftB_def returnB_def root_object_def
        get_root_object_def range_ok_def obj_bits_def sized_run)
  have pl: "placed_in cfg us ?ob ?a" using ut k(3) addr by (auto simp: placed_in_def)
  have add: "placements_ok cfg us obs ((sc_expected s)(k \<mapsto> ?a)) \<and> below cfg obs ((sc_expected s)(k \<mapsto> ?a)) ?cur'"
    by (rule placements_add [OF _ _ len _ pl cur']) (use inv in \<open>simp_all add: alloc_inv_def\<close>)
  have dom': "((sc_expected s)(k \<mapsto> ?a)) i \<noteq> None \<longleftrightarrow>
      i < first_wo \<and> i \<notin> set [Suc k..<first_wo] \<or> (\<exists>b < 64. taken (ws0 ! b) (ws ! b) i)" for i
    using dom [of i] k(1) by (cases "i = k") auto
  have "alloc_inv cfg obs first_wo ws0 us [Suc k..<first_wo] ws (s\<lparr>sc_expected := (sc_expected s)(k \<mapsto> ?a)\<rparr>) ?cur'"
    using add dom' ob wl left by (simp add: alloc_inv_def range_ok_def)
  with run cur' show ?thesis by blast
qed

lemma alloc_untyped_run:
  assumes ctx: "alloc_ctx cfg obs first_wo ws0" and ut: "(idx, ut) \<in> us"
    and apart: "paddrs_apart cfg (take first_wo obs)"
    and inside: "\<And>i. i < first_wo \<Longrightarrow> k0 \<le> i \<Longrightarrow> obj_addr (obs ! i) < unat (ut_end ut) \<Longrightarrow>
        obj_addr (obs ! i) + obj_bytes cfg (obs ! i) \<le> unat (ut_end ut)"
  shows "alloc_inv cfg obs first_wo ws0 us [k..<first_wo] ws s cur \<Longrightarrow> k0 \<le> k \<Longrightarrow> k \<le> first_wo \<Longrightarrow>
     unat (ut_base ut) \<le> unat cur \<Longrightarrow> unat cur \<le> unat (ut_end ut) \<Longrightarrow>
     (k < first_wo \<longrightarrow> unat cur \<le> obj_addr (obs ! k) \<or> unat (ut_end ut) \<le> obj_addr (obs ! k)) \<Longrightarrow>
     \<exists>k' ws' s'. alloc_untyped cfg (idx, ut) [k..<first_wo] (ws, cur) s = Inr (([k'..<first_wo], ws'), s')
       \<and> k \<le> k' \<and> k' \<le> first_wo \<and> (k' < first_wo \<longrightarrow> unat (ut_end ut) \<le> obj_addr (obs ! k'))
       \<and> alloc_inv cfg obs first_wo ws0 us [k'..<first_wo] ws' s' (ut_end ut)"
proof (induction "first_wo - k" arbitrary: k ws s cur)
  case 0
  then have k: "k = first_wo" by simp
  have fuel: "unat (ut_end ut) - unat cur \<le> ALLOC_FUEL"
    using u64_lt [of "ut_end ut"] by (simp add: ALLOC_FUEL_def)
  from alloc_upto_run [OF ctx ut order_refl 0(2,5,6) fuel] obtain ws' s' where
    "alloc_upto ALLOC_FUEL cfg (idx, ut) (ut_end ut) False (ws, cur) s = Inr ((ws', ut_end ut), s')"
    "alloc_inv cfg obs first_wo ws0 us [k..<first_wo] ws' s' (ut_end ut)" by blast
  with k show ?case
    by (intro exI [of _ first_wo] exI [of _ ws'] exI [of _ s']) (simp add: bindB_def returnB_def)
next
  case (Suc d)
  then have k: "k < first_wo" and up: "[k..<first_wo] = k # [Suc k..<first_wo]" by (simp_all add: upt_conv_Cons)
  have fuel: "unat x - unat cur \<le> ALLOC_FUEL" for x :: u64
    using u64_lt [of x] by (simp add: ALLOC_FUEL_def)
  have len: "k < length obs" "first_wo \<le> length obs" using ctx k by (simp_all add: alloc_ctx_def)
  then have "has_paddr (obs ! k)" using ctx k by (simp add: alloc_ctx_def)
  then obtain p where p: "obj_paddr (no_object (obs ! k)) = Some p" "obj_addr (obs ! k) = unat p"
    by (auto simp: has_paddr_def obj_addr_def)
  have obs: "sc_objects s = obs" using Suc.prems(1) by (simp add: alloc_inv_def)
  let ?target = "min (ut_end ut) p"
  have unfold: "alloc_untyped cfg (idx, ut) [k..<first_wo] (ws, cur) s =
      bindB (alloc_upto ALLOC_FUEL cfg (idx, ut) ?target (?target < ut_end ut) (ws, cur)) (\<lambda>(ws, cur_paddr).
        if ?target < ut_end ut
        then bindB (place_paddr_obj cfg (fst (idx, ut)) k cur_paddr) (\<lambda>cur_paddr.
               alloc_untyped cfg (idx, ut) [Suc k..<first_wo] (ws, cur_paddr))
        else returnB (k # [Suc k..<first_wo], ws)) s"
    unfolding up using len p obs by (simp add: bindB_def getB_def liftB_def Let_def)
  show ?case
  proof (cases "p < ut_end ut")
    case False
    then have t: "?target = ut_end ut" by simp
    from alloc_upto_run [OF ctx ut order_refl Suc.prems(1,4,5) fuel] obtain ws' s' where
      "alloc_upto ALLOC_FUEL cfg (idx, ut) (ut_end ut) False (ws, cur) s = Inr ((ws', ut_end ut), s')"
      "alloc_inv cfg obs first_wo ws0 us [k..<first_wo] ws' s' (ut_end ut)" by blast
    then show ?thesis using False k p(2) unfolding unfold t
      by (intro exI [of _ k] exI [of _ ws'] exI [of _ s']) (simp add: bindB_def returnB_def word_less_nat_alt up)
  next
    case True
    then have t: "?target = p" by (simp add: min_absorb2 less_imp_le)
    have p_end: "unat p < unat (ut_end ut)" using True by (simp add: word_less_nat_alt)
    have cur_p: "unat cur \<le> unat p" using Suc.prems(6) k p(2) p_end by auto
    from alloc_upto_run [OF ctx ut less_imp_le [OF p_end] Suc.prems(1,4) cur_p fuel] obtain ws1 s1 where
      up1: "alloc_upto ALLOC_FUEL cfg (idx, ut) p True (ws, cur) s = Inr ((ws1, p), s1)"
        "alloc_inv cfg obs first_wo ws0 us [k..<first_wo] ws1 s1 p" by blast
    have ins: "unat p + obj_bytes cfg (obs ! k) \<le> unat (ut_end ut)"
      using inside [OF k Suc.prems(2)] p(2) p_end by simp
    have base: "unat (ut_base ut) \<le> unat p" using Suc.prems(4) cur_p by simp
    from place_paddr_obj_run [OF ctx up1(2) k p(2) ins ut base] obtain cur' s2 where
      pl: "place_paddr_obj cfg idx k p s1 = Inr (cur', s2)" "unat cur' = unat p + obj_bytes cfg (obs ! k)"
        "alloc_inv cfg obs first_wo ws0 us [Suc k..<first_wo] ws1 s2 cur'" by blast
    have nxt: "unat cur' \<le> obj_addr (obs ! Suc k)" if "Suc k < first_wo"
      using paddrs_apart_nth [OF apart, of k "Suc k"] that len pl(2) p(2) by simp
    have "\<exists>k' ws' s'. alloc_untyped cfg (idx, ut) [Suc k..<first_wo] (ws1, cur') s2 = Inr (([k'..<first_wo], ws'), s')
       \<and> Suc k \<le> k' \<and> k' \<le> first_wo \<and> (k' < first_wo \<longrightarrow> unat (ut_end ut) \<le> obj_addr (obs ! k'))
       \<and> alloc_inv cfg obs first_wo ws0 us [k'..<first_wo] ws' s' (ut_end ut)"
      by (rule Suc.hyps(1) [OF _ pl(3)]) (use Suc.hyps(2) Suc.prems(2) k base ins pl(2) nxt in auto)
    then obtain k' ws' s' where r: "alloc_untyped cfg (idx, ut) [Suc k..<first_wo] (ws1, cur') s2 = Inr (([k'..<first_wo], ws'), s')"
       "Suc k \<le> k'" "k' \<le> first_wo" "k' < first_wo \<longrightarrow> unat (ut_end ut) \<le> obj_addr (obs ! k')"
       "alloc_inv cfg obs first_wo ws0 us [k'..<first_wo] ws' s' (ut_end ut)" by blast
    have "alloc_untyped cfg (idx, ut) [k..<first_wo] (ws, cur) s = Inr (([k'..<first_wo], ws'), s')"
      unfolding unfold using True up1(1) pl(1) r(1) t by (simp add: bindB_def)
    with r show ?thesis by (intro exI [of _ k'] exI [of _ ws'] exI [of _ s']) simp
  qed
qed

section \<open>The untypeds in the order of their addresses\<close>

definition ut_within :: "untyped_object \<Rightarrow> nat \<Rightarrow> nat \<Rightarrow> bool" where
  "ut_within ut lo hi \<longleftrightarrow> unat (ut_base ut) \<le> lo \<and> hi \<le> unat (ut_end ut)"

definition uts_ok :: "(nat \<times> untyped_object) set \<Rightarrow> bool" where
  "uts_ok us \<longleftrightarrow>
     (\<forall>(i, ut) \<in> us. ut_size_bits ut < 64 \<and> unat (ut_end ut) = unat (ut_base ut) + 2 ^ unat (ut_size_bits ut))
     \<and> (\<forall>x \<in> us. \<forall>y \<in> us. x \<noteq> y \<longrightarrow>
          unat (ut_end (snd x)) \<le> unat (ut_base (snd y)) \<or> unat (ut_end (snd y)) \<le> unat (ut_base (snd x)))"

definition uts_sorted :: "(nat \<times> untyped_object) list \<Rightarrow> bool" where
  "uts_sorted uts \<longleftrightarrow> uts_ok (set uts)
     \<and> sorted_wrt (\<lambda>a b. unat (ut_end (snd a)) \<le> unat (ut_base (snd b))) uts"

lemma uts_okD:
  assumes "uts_ok us" "(i, ut) \<in> us"
  shows "unat (ut_size_bits ut) < 64" "unat (ut_end ut) = unat (ut_base ut) + 2 ^ unat (ut_size_bits ut)"
    "unat (ut_base ut) < unat (ut_end ut)"
  using assms by (auto simp: uts_ok_def word_less_nat_alt)

lemma uts_sorted_sort_key:
  assumes "uts_ok (set xs)" "distinct xs"
  shows "uts_sorted (sort_key (\<lambda>(_, ut). unat (ut_base ut)) xs)"
proof -
  let ?ys = "sort_key (\<lambda>(_, ut). unat (ut_base ut)) xs"
  have "unat (ut_end (snd (?ys ! i))) \<le> unat (ut_base (snd (?ys ! j)))" if "i < j" "j < length ?ys" for i j
  proof -
    have mem: "?ys ! i \<in> set xs" "?ys ! j \<in> set xs"
      using that nth_mem [of i ?ys] nth_mem [of j ?ys] by simp_all
    have "distinct ?ys" using assms(2) by simp
    with that have ne: "?ys ! i \<noteq> ?ys ! j" by (simp add: nth_eq_iff_index_eq)
    have "map (\<lambda>(_, ut). unat (ut_base ut)) ?ys ! i \<le> map (\<lambda>(_, ut). unat (ut_base ut)) ?ys ! j"
      by (rule sorted_nth_mono [OF sorted_sort_key]) (use that in auto)
    then have "unat (ut_base (snd (?ys ! i))) \<le> unat (ut_base (snd (?ys ! j)))"
      using that by (simp add: case_prod_beta)
    moreover have "unat (ut_base (snd (?ys ! j))) < unat (ut_end (snd (?ys ! j)))"
      using uts_okD(3) [OF assms(1), of "fst (?ys ! j)"] mem(2) by simp
    moreover have "unat (ut_end (snd (?ys ! i))) \<le> unat (ut_base (snd (?ys ! j)))
        \<or> unat (ut_end (snd (?ys ! j))) \<le> unat (ut_base (snd (?ys ! i)))"
      using assms(1) mem ne unfolding uts_ok_def by blast
    ultimately show ?thesis by linarith
  qed
  with assms(1) show ?thesis by (simp add: uts_sorted_def sorted_wrt_iff_nth_less)
qed

lemma uts_sorted_Cons:
  "uts_sorted (x # xs) \<Longrightarrow> uts_sorted xs \<and> (\<forall>y \<in> set xs. unat (ut_end (snd x)) \<le> unat (ut_base (snd y)))"
  by (auto simp: uts_sorted_def uts_ok_def)

lemma unat_range_end:
  assumes "unat bits < 64" "unat b + 2 ^ unat bits < 2 ^ 64"
  shows "unat (b + shl 1 bits :: u64) = unat b + 2 ^ unat bits"
  using assms by (subst unat_add_no_overflow) (simp_all add: shl_small unat_push_bit_1 del: push_bit_of_1)

text \<open>The last untyped that starts at or below an address is the only one that can hold it.\<close>

lemma last_start:
  fixes p :: u64
  assumes "uts_sorted uts"
  defines "n \<equiv> length (takeWhile (\<lambda>(_, ut). ut_base ut \<le> p) uts)"
  assumes "(i, ut) \<in> set uts" "ut_within ut (unat p) hi" "unat p < hi"
  shows "0 < n \<and> uts ! (n - 1) = (i, ut)"
proof -
  let ?P = "\<lambda>(_, ut). ut_base ut \<le> p"
  obtain k where k: "k < length uts" "uts ! k = (i, ut)" using assms(3) by (auto simp: in_set_conv_nth)
  have srt: "unat (ut_end (snd (uts ! a))) \<le> unat (ut_base (snd (uts ! b)))" if "a < b" "b < length uts" for a b
    using assms(1) that by (simp add: uts_sorted_def sorted_wrt_iff_nth_less)
  have lt: "unat (ut_base (snd (uts ! a))) < unat (ut_end (snd (uts ! a)))" if "a < length uts" for a
    using assms(1) uts_okD(3) [of "set uts" "fst (uts ! a)" "snd (uts ! a)"] that by (simp add: uts_sorted_def)
  have "k < n"
  proof (rule ccontr)
    assume "\<not> k < n"
    then have n: "n \<le> k" "n < length uts" using k(1) by simp_all
    then have "\<not> ?P (uts ! n)" unfolding n_def by (rule_tac nth_length_takeWhile)
    then have "unat p < unat (ut_base (snd (uts ! n)))" by (simp add: case_prod_beta word_le_nat_alt not_le)
    moreover have "unat (ut_base (snd (uts ! n))) \<le> unat (ut_base (snd (uts ! k)))"
      using srt [of n k] lt [of n] n k(1) by (cases "n = k") simp_all
    ultimately show False using assms(4) k(2) by (simp add: ut_within_def)
  qed
  moreover have "\<not> k < n - 1"
  proof
    assume less: "k < n - 1"
    then have "uts ! (n - 1) \<in> set (takeWhile ?P uts)"
      unfolding n_def by (metis diff_less length_greater_0_conv less_nat_zero_code list.size(3) nth_mem takeWhile_nth
          zero_diff zero_less_one)
    then have "unat (ut_base (snd (uts ! (n - 1)))) \<le> unat p"
      by (auto dest!: set_takeWhileD simp: word_le_nat_alt)
    moreover have "unat (ut_end ut) \<le> unat (ut_base (snd (uts ! (n - 1))))"
      using srt [of k "n - 1"] less k(2) length_takeWhile_le [of ?P uts] by (simp add: n_def)
    ultimately show False using assms(4,5) by (simp add: ut_within_def)
  qed
  ultimately have "k = n - 1" by linarith
  with k(2) \<open>k < n\<close> show ?thesis by simp
qed

lemma paddr_allocatable_run:
  assumes "uts_sorted uts" "sized cfg ob" "unat (size_bits_of cfg ob) < 64"
    "obj_paddr (no_object ob) = Some p" "unat p + obj_bytes cfg ob < 2 ^ 64"
  shows "paddr_allocatable cfg uts ob =
     Inr (\<exists>(_, ut) \<in> set uts. ut_within ut (unat p) (unat p + obj_bytes cfg ob))"
proof -
  let ?P = "\<lambda>(_, ut). ut_base ut \<le> p"
  define n where "n = length (takeWhile ?P uts)"
  let ?in = "\<exists>(_, ut) \<in> set uts. ut_within ut (unat p) (unat p + obj_bytes cfg ob)"
  have last: "0 < n \<and> uts ! (n - 1) = (i, ut)"
    if "(i, ut) \<in> set uts" "ut_within ut (unat p) (unat p + obj_bytes cfg ob)" for i ut
    unfolding n_def by (rule last_start [OF assms(1) that]) simp
  have pend: "unat (p + shl 1 (size_bits_of cfg ob)) = unat p + obj_bytes cfg ob"
    using unat_range_end [OF assms(3)] assms(5) by (simp add: obj_bytes_def)
  show ?thesis
  proof (cases "n = 0")
    case True
    then have "\<not> ?in" using last by blast
    moreover have "paddr_allocatable cfg uts ob = Inr False"
      using True assms(2,4) by (simp add: paddr_allocatable_def obj_bits_def sized_run partition_point_def n_def)
    ultimately show ?thesis by simp
  next
    case False
    have nlen: "n - 1 < length uts"
      using length_takeWhile_le [of ?P uts, folded n_def] False by linarith
    obtain i ut where u: "uts ! (n - 1) = (i, ut)" by fastforce
    with nlen have mem: "(i, ut) \<in> set uts" by (metis nth_mem)
    have ok: "uts_ok (set uts)" using assms(1) by (simp add: uts_sorted_def)
    have uend: "unat (ut_base ut + shl 1 (ut_size_bits ut)) = unat (ut_end ut)"
      using unat_range_end [OF uts_okD(1) [OF ok mem]] uts_okD(2) [OF ok mem] u64_lt [of "ut_end ut"] by simp
    have run: "paddr_allocatable cfg uts ob = Inr (ut_base ut \<le> p
        \<and> p + shl 1 (size_bits_of cfg ob) \<le> ut_base ut + shl 1 (ut_size_bits ut))"
      using False assms(2,4) nlen u
      by (simp add: paddr_allocatable_def obj_bits_def sized_run partition_point_def n_def Let_def)
    also have "(ut_base ut \<le> p \<and> p + shl 1 (size_bits_of cfg ob) \<le> ut_base ut + shl 1 (ut_size_bits ut))
        \<longleftrightarrow> ut_within ut (unat p) (unat p + obj_bytes cfg ob)"
      unfolding word_le_nat_alt pend uend ut_within_def ..
    also have "\<dots> \<longleftrightarrow> ?in" using last u mem by fastforce
    finally show ?thesis .
  qed
qed

text \<open>All untypeds in turn: every object with an address is placed.\<close>

lemma alloc_untypeds_run:
  assumes ctx: "alloc_ctx cfg obs first_wo ws0" and apart: "paddrs_apart cfg (take first_wo obs)"
  defines "F \<equiv> \<lambda>(objs, ws) (ut_orig_idx, ut). alloc_untyped cfg (ut_orig_idx, ut) objs (ws, ut_base ut)"
  shows "uts_sorted uts \<Longrightarrow> set uts \<subseteq> us \<Longrightarrow> k \<le> first_wo \<Longrightarrow>
     (\<And>i. k \<le> i \<Longrightarrow> i < first_wo \<Longrightarrow>
        \<exists>(_, ut) \<in> set uts. ut_within ut (obj_addr (obs ! i)) (obj_addr (obs ! i) + obj_bytes cfg (obs ! i))) \<Longrightarrow>
     alloc_inv cfg obs first_wo ws0 us [k..<first_wo] ws s cur \<Longrightarrow>
     \<forall>(_, ut) \<in> set uts. unat cur \<le> unat (ut_base ut) \<Longrightarrow>
     \<exists>ws' s' cur'. foldB F ([k..<first_wo], ws) uts s = Inr (([], ws'), s')
       \<and> alloc_inv cfg obs first_wo ws0 us [] ws' s' cur'"
proof (induction uts arbitrary: k ws s cur)
  case Nil
  then have "k = first_wo" by (cases "k < first_wo") auto
  with Nil.prems(5) show ?case by (auto simp: returnB_def)
next
  case (Cons u uts)
  obtain idx ut where u: "u = (idx, ut)" by fastforce
  have us: "(idx, ut) \<in> us" using Cons.prems(2) u by simp
  have ok: "uts_ok (set (u # uts))" using Cons.prems(1) by (simp add: uts_sorted_def)
  have lt: "unat (ut_base ut) < unat (ut_end ut)" using uts_okD(3) [OF ok, of idx ut] u by simp
  have nxt: "uts_sorted uts" "\<And>j v. (j, v) \<in> set uts \<Longrightarrow> unat (ut_end ut) \<le> unat (ut_base v)"
    using uts_sorted_Cons [OF Cons.prems(1)] u by auto
  have len: "first_wo \<le> length obs" using ctx by (simp add: alloc_ctx_def)
  have home: "ut_within ut (obj_addr (obs ! i)) (obj_addr (obs ! i) + obj_bytes cfg (obs ! i))
      \<or> (\<exists>(_, v) \<in> set uts. ut_within v (obj_addr (obs ! i)) (obj_addr (obs ! i) + obj_bytes cfg (obs ! i)))"
    if "k \<le> i" "i < first_wo" for i
    using Cons.prems(4) [OF that] u by auto
  have later: "unat (ut_end ut) \<le> obj_addr (obs ! i)"
    if "ut_within v (obj_addr (obs ! i)) hi" "(j, v) \<in> set uts" for i j v hi
    using nxt(2) [OF that(2)] that(1) by (simp add: ut_within_def)
  have inside: "obj_addr (obs ! i) + obj_bytes cfg (obs ! i) \<le> unat (ut_end ut)"
    if "i < first_wo" "k \<le> i" "obj_addr (obs ! i) < unat (ut_end ut)" for i
    using home [OF that(2,1)] later that(3) by (fastforce simp: ut_within_def)
  have cur: "unat cur \<le> unat (ut_base ut)" using Cons.prems(6) u by simp
  have start: "k < first_wo \<longrightarrow> unat (ut_base ut) \<le> obj_addr (obs ! k) \<or> unat (ut_end ut) \<le> obj_addr (obs ! k)"
    using home [OF order_refl] later by (fastforce simp: ut_within_def)
  from alloc_untyped_run [OF ctx us apart inside alloc_inv_mono [OF Cons.prems(5) cur] order_refl Cons.prems(3)
      order_refl less_imp_le [OF lt] start]
  obtain k' ws1 s1 where r: "alloc_untyped cfg (idx, ut) [k..<first_wo] (ws, ut_base ut) s = Inr (([k'..<first_wo], ws1), s1)"
    "k \<le> k'" "k' \<le> first_wo" "k' < first_wo \<longrightarrow> unat (ut_end ut) \<le> obj_addr (obs ! k')"
    "alloc_inv cfg obs first_wo ws0 us [k'..<first_wo] ws1 s1 (ut_end ut)" by blast
  have rest: "\<exists>(_, v) \<in> set uts. ut_within v (obj_addr (obs ! i)) (obj_addr (obs ! i) + obj_bytes cfg (obs ! i))"
    if "k' \<le> i" "i < first_wo" for i
  proof -
    have "obj_addr (obs ! k') \<le> obj_addr (obs ! i)"
      using paddrs_apart_nth [OF apart, of k' i] that len by (cases "k' = i") auto
    with r(4) that have "unat (ut_end ut) \<le> obj_addr (obs ! i)" by simp
    then have "\<not> ut_within ut (obj_addr (obs ! i)) (obj_addr (obs ! i) + obj_bytes cfg (obs ! i))"
      using obj_bytes_pos [of cfg "obs ! i"] unfolding ut_within_def by linarith
    with home [of i] that r(2) show ?thesis by simp
  qed
  have "\<exists>ws' s' cur'. foldB F ([k'..<first_wo], ws1) uts s1 = Inr (([], ws'), s')
      \<and> alloc_inv cfg obs first_wo ws0 us [] ws' s' cur'"
    by (rule Cons.IH [OF nxt(1) _ r(3) rest r(5)]) (use Cons.prems(2) nxt(2) in auto)
  then show ?case using r(1) u by (simp add: bindB_def F_def)
qed

section \<open>The simulation\<close>

text \<open>In the order of the objects, those with an address come first, and of the others the largest.\<close>

lemma sorted_prefix:
  assumes "\<And>ob. ob \<in> set obs \<Longrightarrow> sized cfg ob" "sorted_wrt (obj_before cfg) obs" "i < length obs"
  shows "has_paddr (obs ! i) \<longleftrightarrow> i < partition_point has_paddr obs"
proof
  let ?n = "partition_point has_paddr obs"
  assume h: "has_paddr (obs ! i)"
  show "i < ?n"
  proof (rule ccontr)
    assume "\<not> i < ?n"
    then have n: "?n \<le> i" "?n < length obs" using assms(3) by simp_all
    then have no: "\<not> has_paddr (obs ! ?n)" using nth_length_takeWhile [of has_paddr obs] by (simp add: partition_point_def)
    with h n have "?n < i" by (metis le_neq_implies_less)
    with assms(2,3) have "obj_before cfg (obs ! ?n) (obs ! i)" by (simp add: sorted_wrt_iff_nth_less)
    then have "paddr_key (obs ! ?n) \<le> paddr_key (obs ! i)"
      using obj_before_iff [of cfg "obs ! ?n" "obs ! i"] assms(1) n(2) assms(3) nth_mem by fastforce
    moreover have "paddr_key (obs ! i) < 2 ^ 64" using h u64_lt by (auto simp: paddr_key_def has_paddr_def)
    ultimately show False using no by (simp add: paddr_key_def has_paddr_def)
  qed
next
  assume "i < partition_point has_paddr obs"
  then show "has_paddr (obs ! i)"
    unfolding partition_point_def by (metis nth_mem set_takeWhileD takeWhile_nth)
qed

lemma sorted_sizes:
  assumes sz: "\<And>ob. ob \<in> set obs \<Longrightarrow> sized cfg ob" and srt: "sorted_wrt (obj_before cfg) obs"
    and i: "partition_point has_paddr obs \<le> i" "i \<le> j" "j < length obs"
  shows "unat (size_bits_of cfg (obs ! j)) \<le> unat (size_bits_of cfg (obs ! i))"
proof (cases "i = j")
  case False
  with i srt have b: "obj_before cfg (obs ! i) (obs ! j)" by (simp add: sorted_wrt_iff_nth_less)
  have "\<not> has_paddr (obs ! i)" "\<not> has_paddr (obs ! j)" using sorted_prefix [OF sz srt] i by auto
  then have "paddr_key (obs ! i) = paddr_key (obs ! j)" by (simp add: has_paddr_def paddr_key_def)
  with b i sz show ?thesis by (auto simp: obj_before_iff word_less_nat_alt)
qed simp

lemma take_partition_point: "take (partition_point P xs) xs = takeWhile P xs"
  unfolding partition_point_def by (rule takeWhile_eq_take [symmetric])

lemma bex_enumerate: "(\<exists>(_, x) \<in> set (enumerate n xs). P x) \<longleftrightarrow> (\<exists>x \<in> set xs. P x)"
proof -
  have "set xs = snd ` set (enumerate n xs)" by (metis map_snd_enumerate set_map)
  then show ?thesis by force
qed

lemma mapM_Inr: "(\<And>x. x \<in> set xs \<Longrightarrow> f x = Inr (g x)) \<Longrightarrow> mapM f xs = Inr (map g xs)"
  by (induction xs) auto

text \<open>At the start nothing is taken; at the end the windows are empty exactly when every object has a
  place.\<close>

lemma window_covers_mem:
  assumes "window_covers cfg obs lo hi b w" "lo \<le> i" "i < hi" "unat (size_bits_of cfg (obs ! i)) = b" "0 < b"
  shows "\<exists>st en. w = Some (st, en) \<and> st \<le> i \<and> i < en"
proof (cases w)
  case None
  with assms show ?thesis by (auto simp: window_covers_def)
next
  case (Some v)
  obtain st en where v: "v = (st, en)" by fastforce
  from assms(1) have "\<forall>i. st \<le> i \<and> i < en \<longleftrightarrow> lo \<le> i \<and> i < hi \<and> unat (size_bits_of cfg (obs ! i)) = b"
    unfolding Some v window_covers_def by simp
  with assms(2-4) Some v show ?thesis by blast
qed

lemma alloc_inv_start:
  assumes "windows_cover cfg (sc_objects s) first_wo (length (sc_objects s)) ws" "range_ok s" "sc_expected s = (\<lambda>_. None)"
  shows "alloc_inv cfg (sc_objects s) first_wo ws us [0..<first_wo] ws s 0"
proof -
  have "window_left w w \<and> (\<forall>i. \<not> taken w w i)" if "window_covers cfg obs lo hi b w" for obs lo hi b w
  proof (cases w)
    case (Some v)
    obtain st en where v: "v = (st, en)" by fastforce
    from that have "st < en" unfolding Some v window_covers_def by simp
    with Some v show ?thesis by (simp add: window_left_def taken_def)
  qed (simp add: window_left_def taken_def)
  then have w: "window_left (ws ! b) (ws ! b)" "\<not> taken (ws ! b) (ws ! b) i" if "b < 64" for b i
    using assms(1) that unfolding windows_cover_def by blast+
  have "length ws = 64" using assms(1) by (simp add: windows_cover_def)
  moreover have "(\<exists>b < 64. taken (ws ! b) (ws ! b) i) \<longleftrightarrow> False" for i using w(2) by blast
  ultimately show ?thesis
    using w(1) assms(2,3) by (simp add: alloc_inv_def placements_ok_def below_def)
qed

lemma windows_done:
  assumes ctx: "alloc_ctx cfg obs first_wo ws0" and inv: "alloc_inv cfg obs first_wo ws0 us [] ws s cur"
  shows "list_all (\<lambda>w. case w of Some (st, en) \<Rightarrow> st = en | None \<Rightarrow> True) ws
     \<longleftrightarrow> (\<forall>i < length obs. has_paddr (obs ! i) \<or> 0 < size_bits_of cfg (obs ! i) \<longrightarrow> sc_expected s i \<noteq> None)"
    (is "?empty \<longleftrightarrow> ?all")
proof -
  have cov: "\<And>b. b < 64 \<Longrightarrow> window_covers cfg obs first_wo (length obs) b (ws0 ! b)"
    and sz: "\<And>i. i < length obs \<Longrightarrow> unat (size_bits_of cfg (obs ! i)) < 64"
    and pad: "\<And>i. i < length obs \<Longrightarrow> has_paddr (obs ! i) \<longleftrightarrow> i < first_wo"
    using ctx by (simp_all add: alloc_ctx_def windows_cover_def)
  have len: "length ws = 64" and left: "\<And>b. b < 64 \<Longrightarrow> window_left (ws0 ! b) (ws ! b)"
    and dom: "\<And>i. sc_expected s i \<noteq> None \<longleftrightarrow> i < first_wo \<or> (\<exists>b < 64. taken (ws0 ! b) (ws ! b) i)"
    using inv by (simp_all add: alloc_inv_def)
  have bits: "0 < size_bits_of cfg ob \<longleftrightarrow> 0 < unat (size_bits_of cfg ob)" for ob by (simp add: word_less_nat_alt)
  show ?thesis
  proof
    assume e: ?empty
    show ?all
    proof (intro allI impI)
      fix i
      assume i: "i < length obs" and h: "has_paddr (obs ! i) \<or> 0 < size_bits_of cfg (obs ! i)"
      let ?b = "unat (size_bits_of cfg (obs ! i))"
      show "sc_expected s i \<noteq> None"
      proof (cases "i < first_wo")
        case False
        then have b: "0 < ?b" using h pad [OF i] bits by simp
        from False obtain st en where w0: "ws0 ! ?b = Some (st, en)" "st \<le> i" "i < en"
          using window_covers_mem [OF cov [OF sz [OF i]] _ i refl b] by auto
        with left [OF sz [OF i]] obtain m where w: "ws ! ?b = Some (m, en)" by (auto simp: window_left_def)
        have "ws ! ?b \<in> set ws" using sz [OF i] len by simp
        with e w have "m = en" by (auto simp: list_all_iff)
        with w0 w have "taken (ws0 ! ?b) (ws ! ?b) i" by (simp add: taken_def)
        with sz [OF i] show ?thesis unfolding dom by blast
      next
        case True
        then show ?thesis unfolding dom by blast
      qed
    qed
  next
    assume a: ?all
    have "case w of Some (st, en) \<Rightarrow> st = en | None \<Rightarrow> True" if "w \<in> set ws" for w
    proof -
      from that len obtain b where b: "b < 64" "ws ! b = w" by (auto simp: in_set_conv_nth)
      show ?thesis
      proof (cases "ws0 ! b")
        case None
        with left [OF b(1)] b(2) show ?thesis by (simp add: window_left_def)
      next
        case (Some w0)
        then obtain st en where w0: "ws0 ! b = Some (st, en)" by (cases w0) simp
        with left [OF b(1)] b(2) obtain m where w: "w = Some (m, en)" "st \<le> m" "m \<le> en"
          by (auto simp: window_left_def)
        have "\<not> m < en"
        proof
          assume m: "m < en"
          have c: "first_wo \<le> m \<and> m < length obs \<and> unat (size_bits_of cfg (obs ! m)) = b" "0 < b"
            using cov [OF b(1)] w0 w(2) m by (auto simp: window_covers_def)
          then have "sc_expected s m \<noteq> None" using a bits by simp
          with dom [of m] c obtain b' where b': "b' < 64" "taken (ws0 ! b') (ws ! b') m" by auto
          have "windows_cover cfg obs first_wo (length obs) ws0" using ctx by (simp add: alloc_ctx_def)
          from taken_size [OF this b'(1) left [OF b'(1)] b'(2)] c have "b' = b" by simp
          with b'(2) w0 w(1) b(2) show False by (simp add: taken_def)
        qed
        with w show ?thesis by simp
      qed
    qed
    then show ?empty by (simp add: list_all_iff)
  qed
qed

text \<open>What the simulation is given: the objects sorted, no allocation yet, objects with an address that do
  not overlap, and untypeds that do not overlap.\<close>

definition sim_ready :: "config \<Rightarrow> boot_info \<Rightarrow> spec_container \<Rightarrow> bool" where
  "sim_ready cfg info s \<longleftrightarrow>
     word_size cfg = 64 \<and> range_ok s \<and> sc_expected s = (\<lambda>_. None)
     \<and> (\<forall>ob \<in> set (sc_objects s). sized cfg ob \<and> unat (size_bits_of cfg ob) < 64)
     \<and> sorted_wrt (obj_before cfg) (sc_objects s)
     \<and> paddrs_apart cfg (takeWhile has_paddr (sc_objects s))
     \<and> uts_ok (set (enumerate 0 (untyped_objects info)))"

lemma sim_ready_sorted:
  assumes "sim_ready cfg info s"
  shows "uts_sorted (sort_key (\<lambda>(_, ut). unat (ut_base ut)) (enumerate 0 (untyped_objects info)))"
proof (rule uts_sorted_sort_key)
  show "uts_ok (set (enumerate 0 (untyped_objects info)))" using assms by (simp add: sim_ready_def)
qed (rule distinct_enumerate)

lemma sim_windows:
  assumes "sim_ready cfg info s"
  obtains ws where
    "object_windows cfg (sc_objects s) (partition_point has_paddr (sc_objects s)) = Inr ws"
    "alloc_ctx cfg (sc_objects s) (partition_point has_paddr (sc_objects s)) ws"
proof -
  let ?obs = "sc_objects s" and ?n = "partition_point has_paddr (sc_objects s)"
  have n: "?n \<le> length ?obs" by (simp add: partition_point_def length_takeWhile_le)
  have "\<exists>ws. object_windows cfg ?obs ?n = Inr ws \<and> windows_cover cfg ?obs ?n (length ?obs) ws"
    by (rule object_windows_run) (use assms n sorted_sizes in \<open>auto simp: sim_ready_def\<close>)
  then obtain ws where ws: "object_windows cfg ?obs ?n = Inr ws" "windows_cover cfg ?obs ?n (length ?obs) ws" by blast
  have "alloc_ctx cfg ?obs ?n ws"
    using assms n ws(2) sorted_prefix [of ?obs cfg] by (auto simp: alloc_ctx_def sim_ready_def)
  with ws(1) show ?thesis by (rule that)
qed

lemma sim_paddrs:
  assumes "sim_ready cfg info s"
  defines "uts \<equiv> sort_key (\<lambda>(_, ut). unat (ut_base ut)) (enumerate 0 (untyped_objects info))"
  defines "obs \<equiv> takeWhile has_paddr (sc_objects s)"
  shows "mapM (paddr_allocatable cfg uts) obs = Inr (map (\<lambda>ob. \<exists>(_, ut) \<in> set uts.
     ut_within ut (obj_addr ob) (obj_addr ob + obj_bytes cfg ob)) obs)"
proof (rule mapM_Inr)
  fix ob
  assume ob: "ob \<in> set obs"
  then have h: "has_paddr ob" "ob \<in> set (sc_objects s)" by (auto simp: obs_def dest: set_takeWhileD)
  then obtain p where p: "obj_paddr (no_object ob) = Some p" "obj_addr ob = unat p"
    by (auto simp: has_paddr_def obj_addr_def)
  have "uts_sorted uts"
    unfolding uts_def by (rule sim_ready_sorted [OF assms(1)])
  from paddr_allocatable_run [OF this _ _ p(1)] p(2) assms(1) h(2) ob
  show "paddr_allocatable cfg uts ob = Inr (\<exists>(_, ut) \<in> set uts.
     ut_within ut (obj_addr ob) (obj_addr ob + obj_bytes cfg ob))"
    by (auto simp: sim_ready_def obs_def paddrs_apart_def)
qed

text \<open>The run of the simulation, once its windows and its check are known.\<close>

lemma simulate_run:
  assumes "object_windows cfg (sc_objects s) (partition_point has_paddr (sc_objects s)) = Inr ws"
    "mapM (paddr_allocatable cfg (sort_key (\<lambda>(_, ut). unat (ut_base ut)) (enumerate 0 (untyped_objects info))))
       (take (partition_point has_paddr (sc_objects s)) (sc_objects s)) = Inr bs"
  shows "simulate_capdl_object_alloc_algorithm info cfg level s =
     (if \<not> list_all (\<lambda>b. b) bs \<and> level = PrintStderr then Inr (False, s)
      else bindB (foldB (\<lambda>(objs, ws) (ut_orig_idx, ut). alloc_untyped cfg (ut_orig_idx, ut) objs (ws, ut_base ut))
             ([0..<partition_point has_paddr (sc_objects s)], ws)
             (sort_key (\<lambda>(_, ut). unat (ut_base ut)) (enumerate 0 (untyped_objects info)))) (\<lambda>(_, ws).
           returnB (list_all (\<lambda>w. case w of Some (st, en) \<Rightarrow> st = en | None \<Rightarrow> True) ws)) s)"
  unfolding simulate_capdl_object_alloc_algorithm_def bindB_getB Let_def assms bindB_liftB_Inr
  by (simp add: returnB_def)

section \<open>Properties\<close>

text \<open>C8: Given the objects in the tool's order, the simulation that reports errors returns, leaves the
  objects alone, and every place it records is sound: it lies within the untyped it names, at the
  object's own address if it has one and in main memory otherwise, and no two places overlap.  It
  answers that all can be allocated exactly when every object that has an address or takes memory has
  a place.  Every object with an address has one, unless the address of some object lies in no untyped,
  and then nothing is placed.\<close>

theorem simulate_alloc_spec:
  assumes "sim_ready cfg info s"
  shows "\<exists>r s'. simulate_capdl_object_alloc_algorithm info cfg PrintStderr s = Inr (r, s')
     \<and> sc_objects s' = sc_objects s
     \<and> placements_ok cfg (set (enumerate 0 (untyped_objects info))) (sc_objects s) (sc_expected s')
     \<and> (r \<longleftrightarrow> (\<forall>i < length (sc_objects s).
            has_paddr (sc_objects s ! i) \<or> 0 < size_bits_of cfg (sc_objects s ! i) \<longrightarrow> sc_expected s' i \<noteq> None))
     \<and> ((\<forall>i < length (sc_objects s). has_paddr (sc_objects s ! i) \<longrightarrow> sc_expected s' i \<noteq> None)
        \<or> s' = s \<and> (\<exists>ob \<in> set (sc_objects s). has_paddr ob \<and> \<not> (\<exists>ut \<in> set (untyped_objects info).
             ut_within ut (obj_addr ob) (obj_addr ob + obj_bytes cfg ob))))"
proof -
  let ?obs = "sc_objects s" and ?n = "partition_point has_paddr (sc_objects s)"
  let ?us = "set (enumerate 0 (untyped_objects info))"
  define uts where "uts = sort_key (\<lambda>(_, ut). unat (ut_base ut)) (enumerate 0 (untyped_objects info))"
  note pre = take_partition_point [of has_paddr ?obs]
  have srt: "uts_sorted uts" and sub: "set uts \<subseteq> ?us"
    unfolding uts_def using sim_ready_sorted [OF assms] by simp_all
  obtain ws where ws: "object_windows cfg ?obs ?n = Inr ws" and ctx: "alloc_ctx cfg ?obs ?n ws"
    by (rule sim_windows [OF assms])
  have n: "?n \<le> length ?obs" using ctx by (simp add: alloc_ctx_def)
  define home where "home ob = (\<exists>(_, ut) \<in> set uts. ut_within ut (obj_addr ob) (obj_addr ob + obj_bytes cfg ob))" for ob
  have pad: "mapM (paddr_allocatable cfg uts) (take ?n ?obs) = Inr (map home (take ?n ?obs))"
    using sim_paddrs [OF assms] unfolding pre home_def uts_def .
  show ?thesis
  proof (cases "\<forall>i < ?n. home (?obs ! i)")
    case False
    then obtain i where i: "i < ?n" "\<not> home (?obs ! i)" by blast
    have bad: "\<not> list_all (\<lambda>b. b) (map home (take ?n ?obs))"
      using i n by (auto simp: list_all_length)
    have run: "simulate_capdl_object_alloc_algorithm info cfg PrintStderr s = Inr (False, s)"
      using simulate_run [OF ws pad [unfolded uts_def]] bad by simp
    have "has_paddr (?obs ! i)" "i < length ?obs" using ctx i n by (auto simp: alloc_ctx_def)
    moreover have "\<not> (\<exists>ut \<in> set (untyped_objects info).
        ut_within ut (obj_addr (?obs ! i)) (obj_addr (?obs ! i) + obj_bytes cfg (?obs ! i)))"
      using i(2) unfolding home_def uts_def by (simp add: bex_enumerate)
    ultimately have bad_ob: "\<exists>ob \<in> set ?obs. has_paddr ob \<and> \<not> (\<exists>ut \<in> set (untyped_objects info).
             ut_within ut (obj_addr ob) (obj_addr ob + obj_bytes cfg ob))"
      and ex: "\<exists>i < length ?obs. has_paddr (?obs ! i)" by (metis nth_mem, metis)
    have none: "sc_expected s = (\<lambda>_. None)" using assms by (simp add: sim_ready_def)
    show ?thesis
      by (intro exI [of _ False] exI [of _ s])
        (use run none ex bad_ob in \<open>simp add: placements_ok_def, blast\<close>)
  next
    case True
    then have ok: "list_all (\<lambda>b. b) (map home (take ?n ?obs))" by (auto simp: list_all_length)
    have "\<exists>ws' s' cur'. foldB (\<lambda>(objs, ws) (ut_orig_idx, ut).
          alloc_untyped cfg (ut_orig_idx, ut) objs (ws, ut_base ut)) ([0..<?n], ws) uts s = Inr (([], ws'), s')
        \<and> alloc_inv cfg ?obs ?n ws ?us [] ws' s' cur'"
    proof (rule alloc_untypeds_run [OF ctx _ srt sub])
      show "paddrs_apart cfg (take ?n ?obs)" using assms unfolding pre by (simp add: sim_ready_def)
      show "alloc_inv cfg ?obs ?n ws ?us [0..<?n] ws s 0"
        by (rule alloc_inv_start) (use assms ctx in \<open>simp_all add: sim_ready_def alloc_ctx_def\<close>)
      show "\<exists>(_, ut) \<in> set uts. ut_within ut (obj_addr (?obs ! i)) (obj_addr (?obs ! i) + obj_bytes cfg (?obs ! i))"
        if "i < ?n" for i
        using True that unfolding home_def by blast
    qed auto
    then obtain ws' s' cur' where f: "foldB (\<lambda>(objs, ws) (ut_orig_idx, ut).
          alloc_untyped cfg (ut_orig_idx, ut) objs (ws, ut_base ut)) ([0..<?n], ws) uts s = Inr (([], ws'), s')"
      "alloc_inv cfg ?obs ?n ws ?us [] ws' s' cur'" by blast
    have "simulate_capdl_object_alloc_algorithm info cfg PrintStderr s =
        Inr (list_all (\<lambda>w. case w of Some (st, en) \<Rightarrow> st = en | None \<Rightarrow> True) ws', s')"
      using simulate_run [OF ws pad [unfolded uts_def]] ok f(1) unfolding uts_def [symmetric]
      by (simp add: bindB_def returnB_def)
    moreover have "sc_objects s' = ?obs" "placements_ok cfg ?us ?obs (sc_expected s')"
      using f(2) by (simp_all add: alloc_inv_def)
    moreover have "\<forall>i < length ?obs. has_paddr (?obs ! i) \<longrightarrow> sc_expected s' i \<noteq> None"
      using ctx f(2) unfolding alloc_ctx_def alloc_inv_def by (metis empty_iff list.set(1))
    ultimately show ?thesis using windows_done [OF ctx f(2)] by blast
  qed
qed

text \<open>A frame with an address and one without, and an untyped at a given address.\<close>

definition example_frames :: spec_container where
  "example_frames = spec_new\<lparr>sc_objects :=
     [\<lparr>no_name = ''fixed'', no_object = ObjFrame 12 (Some 0x1000) []\<rparr>,
      \<lparr>no_name = ''free'', no_object = ObjFrame 12 None []\<rparr>], sc_root_end := 2\<rparr>"

definition example_memory :: "u64 \<Rightarrow> boot_info" where
  "example_memory base = \<lparr>fixed_cap_count = 16, sched_control_cap = 16, paging_cap_count = 0, page_cap_count = 0,
     untyped_objects = [\<lparr>ut_cap = 16, ut_region = mk_region base (base + 0x4000), ut_is_device = False\<rparr>],
     first_available_cap = 17\<rparr>"

lemma example_sim_ready:
  assumes "base \<in> {0, 0x8000}"
  shows "sim_ready example_riscv_config (example_memory base) example_frames"
proof -
  have sz: "sized example_riscv_config \<lparr>no_name = n, no_object = ObjFrame 12 p f\<rparr>"
    "size_bits_of example_riscv_config \<lparr>no_name = n, no_object = ObjFrame 12 p f\<rparr> = 12" for n p f
    by (simp_all add: sized_def size_bits_of_def capdl_obj_physical_size_bits_def)
  have "trailing_zeros (0x4000 :: u64) = 14" by (rule trailing_zeros_exp) simp_all
  then have "uts_ok (set (enumerate 0 (untyped_objects (example_memory base))))"
    using assms by (auto simp: uts_ok_def example_memory_def ut_base_def ut_end_def ut_size_bits_def mr_size_def lsb_def)
  then show ?thesis
    by (simp add: sim_ready_def example_frames_def spec_new_def range_ok_def sz obj_before_iff paddr_key_def has_paddr_def
        paddrs_apart_def obj_addr_def obj_bytes_def) (simp add: example_riscv_config_def)
qed

theorem simulate_alloc_spec_witness:
  "\<exists>r s'. simulate_capdl_object_alloc_algorithm (example_memory 0) example_riscv_config PrintStderr example_frames
        = Inr (r, s')
     \<and> placements_ok example_riscv_config (set (enumerate 0 (untyped_objects (example_memory 0))))
          (sc_objects example_frames) (sc_expected s')"
  using simulate_alloc_spec [OF example_sim_ready, of 0] by auto

text \<open>C34: The quiet simulation of the later iterations does not answer that an address is out of reach: when
  the first object's address lies below every untyped, it stops with a failed assertion.\<close>

theorem simulate_suppressed_panics:
  assumes "sim_ready cfg info s" and "untyped_objects info \<noteq> []" "sc_objects s \<noteq> []" "has_paddr (hd (sc_objects s))"
    and "\<forall>ut \<in> set (untyped_objects info). obj_addr (hd (sc_objects s)) < unat (ut_base ut)"
  shows "simulate_capdl_object_alloc_algorithm info cfg Suppressed s = Inl (Panic AssertFailed)"
proof -
  let ?obs = "sc_objects s" and ?n = "partition_point has_paddr (sc_objects s)"
  define uts where "uts = sort_key (\<lambda>(_, ut). unat (ut_base ut)) (enumerate 0 (untyped_objects info))"
  obtain ws where ws: "object_windows cfg ?obs ?n = Inr ws" and ctx: "alloc_ctx cfg ?obs ?n ws"
    by (rule sim_windows [OF assms(1)])
  note pre = take_partition_point [of has_paddr ?obs]
  obtain bs where pad: "mapM (paddr_allocatable cfg uts) (take ?n ?obs) = Inr bs"
    using sim_paddrs [OF assms(1)] unfolding pre uts_def by blast
  obtain ob obs' where ob: "?obs = ob # obs'" using assms(3) by (cases ?obs) auto
  then obtain m where n: "?n = Suc m" using assms(4) by (simp add: partition_point_def)
  obtain p where p: "obj_paddr (no_object ob) = Some p" "obj_addr ob = unat p"
    using assms(4) ob by (auto simp: has_paddr_def obj_addr_def)
  have "uts \<noteq> []" using assms(2) unfolding uts_def by (metis length_0_conv length_enumerate length_sort)
  then obtain i ut uts' where u: "uts = (i, ut) # uts'" by (cases uts) auto
  have "(i, ut) \<in> set (enumerate 0 (untyped_objects info))" using u by (metis list.set_intros(1) set_sort uts_def)
  then have mem: "ut \<in> set (untyped_objects info)" and us: "(i, ut) \<in> set (enumerate 0 (untyped_objects info))"
    by (auto simp: in_set_enumerate_eq)
  have lt: "unat p < unat (ut_base ut)" using assms(5) mem ob p(2) by simp
  moreover have "unat (ut_base ut) < unat (ut_end ut)"
    by (rule uts_okD(3) [OF _ us]) (use assms(1) in \<open>simp add: sim_ready_def\<close>)
  ultimately have "p < ut_end ut" "\<not> ut_base ut < p" "p \<noteq> ut_base ut" by (auto simp: word_less_nat_alt)
  then have t: "min (ut_end ut) p = p" "p < ut_end ut" "\<not> ut_base ut < p" "p \<noteq> ut_base ut"
    by (simp_all add: min_absorb2 less_imp_le)
  have up: "alloc_upto ALLOC_FUEL cfg (i, ut) p True (ws, ut_base ut) s = Inr ((ws, ut_base ut), s)"
    using t(3) by (subst alloc_upto.simps) (simp add: returnB_def)
  have "place_paddr_obj cfg i 0 (ut_base ut) s = Inl (Panic AssertFailed)"
    using assms(1) ob p(1) t(4)
    by (simp add: place_paddr_obj_def record_allocation_def bindB_def liftB_def root_object_def get_root_object_def
        range_ok_def sim_ready_def)
  then have "alloc_untyped cfg (i, ut) [0..<Suc m] (ws, ut_base ut) s = Inl (Panic AssertFailed)"
    using ob p(1) t up unfolding upt_conv_Cons [OF zero_less_Suc]
    by (simp add: bindB_def getB_def liftB_def Let_def)
  then have "foldB (\<lambda>(objs, ws) (ut_orig_idx, ut). alloc_untyped cfg (ut_orig_idx, ut) objs (ws, ut_base ut))
      ([0..<?n], ws) uts s = Inl (Panic AssertFailed)"
    unfolding n u by (simp add: bindB_def)
  then show ?thesis
    using simulate_run [OF ws pad [unfolded uts_def]] unfolding uts_def [symmetric] by (simp add: bindB_def)
qed

theorem simulate_suppressed_panics_witness:
  "simulate_capdl_object_alloc_algorithm (example_memory 0x8000) example_riscv_config Suppressed example_frames
     = Inl (Panic AssertFailed)"
  by (rule simulate_suppressed_panics [OF example_sim_ready])
    (simp_all add: example_memory_def example_frames_def has_paddr_def obj_addr_def ut_base_def)

end
