(* ===== verification/Image_Build.thy ===== *)
theory Image_Build
  imports Packaging Symbols Loader_Boot Capdl_Alloc Kernel_Boot
begin

unbundle bit_operations_syntax

text \<open>
  The loop of \<open>tool/microkit/src/main.rs\<close> that builds the specification and the image: it patches the programs,
  builds and packs the specification, emulates the boot of the kernel, simulates the allocation of the objects,
  and picks addresses for the memory regions that need one, at most three times over.  Where the tool prints a
  message and exits, the outcome is an \<open>Err\<close>; it carries the data of the message.
\<close>

section \<open>One iteration\<close>

definition MAX_BUILD_ITERATION :: nat where "MAX_BUILD_ITERATION = 3"

datatype main_error =
    PatchFailed symbols_error
  | BuildFailed capdl_error
  | NoRoomForInitialiser u64
  | AllocationFailed
  | NoAddressFor string
  | WriteFailed elf_error
  | CopyFailed string

record build_env =
  be_config :: config
  be_build_config :: string
  be_kernel :: "elf_file option"
  be_available_memory :: "disjoint_memory_region option"
  be_boot_region :: "memory_region option"

record build_state =
  bs_elfs :: "elf_file list"
  bs_system :: system_description
  bs_initialiser :: capdl_initialiser

text \<open>Patching the programs, building the specification and packing it.\<close>

definition prepare_spec ::
    "('o, 'r) spec_codec \<Rightarrow> build_env \<Rightarrow> build_state \<Rightarrow> (main_error, build_state \<times> spec_container) res" where
  "prepare_spec codec env st =
     bindr (lift_err PatchFailed (patch_symbols (be_config env) (bs_elfs st) (bs_system st))) (\<lambda>elfs.
     bindr (lift_err BuildFailed (build_capdl_spec (be_config env) elfs (bs_system st))) (\<lambda>spec.
     bindr (pack_spec_into_initial_task codec (be_config env) (be_build_config env) spec elfs (bs_initialiser st)) (\<lambda>ci.
       Inr (st\<lparr>bs_elfs := elfs, bs_initialiser := ci\<rparr>, spec))))"

text \<open>The place of the initial task, and the boot of the kernel with it.\<close>

definition emulate_boot :: "build_env \<Rightarrow> capdl_initialiser \<Rightarrow> (main_error, capdl_initialiser \<times> boot_info) res" where
  "emulate_boot env ci =
     bindr (image_bound ci) (\<lambda>(image_start, image_end).
     let initial_task_size = image_end - image_start
     in bindr (unwrapr (be_available_memory env)) (\<lambda>available_memory.
        bindr (unwrapr (be_boot_region env)) (\<lambda>kernel_boot_region.
        bindr (dmr_allocate_from initial_task_size (mr_end kernel_boot_region) available_memory) (\<lambda>(phys_base, _).
        case phys_base of
          None \<Rightarrow> Inl (Err (NoRoomForInitialiser initial_task_size))
        | Some initial_task_phys_base \<Rightarrow>
            let ci = set_phys_base initial_task_phys_base ci
            in bindr (lowest_vaddr (ci_elf ci)) (\<lambda>lowest.
               bindr (unwrapr (be_kernel env)) (\<lambda>kernel_elf.
               bindr (emulate_kernel_boot (be_config env) kernel_elf
                        \<lparr>mr_base = initial_task_phys_base, mr_end = initial_task_phys_base + initial_task_size\<rparr>
                        \<lparr>mr_base = lowest, mr_end = image_end\<rparr>) (\<lambda>kernel_boot_info.
                 Inr (ci, kernel_boot_info))))))))"

text \<open>The simulation: the first must succeed; a later one that does not takes the addresses back.\<close>

definition forget_address :: "sys_memory_region \<Rightarrow> sys_memory_region" where
  "forget_address mr = (case smr_phys_addr mr of
      ToolAllocated _ \<Rightarrow> mr\<lparr>smr_phys_addr := ToolAllocated None\<rparr> | _ \<Rightarrow> mr)"

definition check_allocation ::
    "build_env \<Rightarrow> nat \<Rightarrow> boot_info \<Rightarrow> system_description \<times> spec_container
      \<Rightarrow> (main_error, system_description \<times> spec_container) res" where
  "check_allocation env iteration kernel_boot_info = (\<lambda>(sys, spec).
     if iteration = 0
     then bindr (unwrap_res (simulate_capdl_object_alloc_algorithm kernel_boot_info (be_config env) PrintStderr spec))
            (\<lambda>(ok, spec). if ok then Inr (sys, spec) else Inl (Err AllocationFailed))
     else bindr (unwrap_res (simulate_capdl_object_alloc_algorithm kernel_boot_info (be_config env) Suppressed spec))
            (\<lambda>(ok, spec). Inr (if ok then (sys, spec)
               else (sys\<lparr>sd_memory_regions := map forget_address (sd_memory_regions sys)\<rparr>, spec\<lparr>sc_expected := \<lambda>_. None\<rparr>))))"

text \<open>The memory that the initial task is left with, less the regions with an address of their own.\<close>

definition available_user_memory :: "config \<Rightarrow> boot_info \<Rightarrow> ('e, disjoint_memory_region) res" where
  "available_user_memory cfg kernel_boot_info =
     foldM (\<lambda>mem ut.
       bindr (round_up (ut_base ut) (minimum_page_size cfg)) (\<lambda>start.
       bindr (round_down (ut_end ut) (minimum_page_size cfg)) (\<lambda>end_addr.
         if end_addr > start then insert_region (ut_base ut) (ut_end ut) mem else Inr mem)))
       dmr_default (filter (\<lambda>ut. \<not> ut_is_device ut) (untyped_objects kernel_boot_info))"

definition take_specified :: "disjoint_memory_region \<Rightarrow> sys_memory_region \<Rightarrow> ('e, disjoint_memory_region) res" where
  "take_specified mem mr = (case smr_phys_addr mr of
      Specified sdf_paddr \<Rightarrow>
        let mr_end_addr = sdf_paddr + smr_size mr;
            is_normal_mem = list_ex (\<lambda>region. sdf_paddr \<ge> mr_base region \<and> sdf_paddr < mr_end region
                                        \<and> mr_end_addr \<le> mr_end region) (regions mem)
        in if is_normal_mem then remove_region sdf_paddr (sdf_paddr + smr_size mr) mem else Inr mem
    | _ \<Rightarrow> Inr mem)"

definition pick_address ::
    "disjoint_memory_region \<times> sys_memory_region list \<times> bool \<Rightarrow> sys_memory_region
      \<Rightarrow> (main_error, disjoint_memory_region \<times> sys_memory_region list \<times> bool) res" where
  "pick_address = (\<lambda>(mem, mrs, spec_need_refinement) mr.
     if smr_phys_addr mr = ToolAllocated None
     then bindr (dmr_allocate (smr_size mr) (smr_page_size mr) mem) (\<lambda>(target_paddr, mem).
          case target_paddr of
            None \<Rightarrow> Inl (Err (NoAddressFor (smr_name mr)))
          | Some p \<Rightarrow> Inr (mem, mrs @ [mr\<lparr>smr_phys_addr := ToolAllocated (Some p)\<rparr>], True))
     else Inr (mem, mrs @ [mr], spec_need_refinement))"

definition pick_addresses ::
    "config \<Rightarrow> boot_info \<Rightarrow> system_description \<Rightarrow> (main_error, system_description \<times> bool) res" where
  "pick_addresses cfg kernel_boot_info sys =
     bindr (available_user_memory cfg kernel_boot_info) (\<lambda>mem.
     bindr (foldM take_specified mem (sd_memory_regions sys)) (\<lambda>mem.
     bindr (foldM pick_address (mem, [], False) (sd_memory_regions sys)) (\<lambda>(_, mrs, spec_need_refinement).
       Inr (sys\<lparr>sd_memory_regions := mrs\<rparr>, spec_need_refinement))))"

text \<open>An iteration ends with the state for the next one, or with all that the image is written from.\<close>

datatype iteration_end =
    Refine build_state
  | Built build_state spec_container "boot_info option"

definition build_iteration ::
    "('o, 'r) spec_codec \<Rightarrow> build_env \<Rightarrow> nat \<Rightarrow> build_state \<Rightarrow> (main_error, iteration_end) res" where
  "build_iteration codec env iteration st =
     bindr (prepare_spec codec env st) (\<lambda>(st, spec).
     case arch (be_config env) of
       X86_64 \<Rightarrow> Inr (Built st spec None)
     | _ \<Rightarrow>
         bindr (emulate_boot env (bs_initialiser st)) (\<lambda>(ci, kernel_boot_info).
         bindr (check_allocation env iteration kernel_boot_info (bs_system st, spec)) (\<lambda>(sys, spec).
         bindr (pick_addresses (be_config env) kernel_boot_info sys) (\<lambda>(sys, spec_need_refinement).
         bindr (add_expected_untypeds (untyped_objects kernel_boot_info) ci) (\<lambda>ci.
         let st = st\<lparr>bs_system := sys, bs_initialiser := ci\<rparr>
         in Inr (if spec_need_refinement then Refine st else Built st spec (Some kernel_boot_info)))))))"

fun build_loop :: "('o, 'r) spec_codec \<Rightarrow> build_env \<Rightarrow> nat \<Rightarrow> build_state
    \<Rightarrow> (main_error, build_state \<times> spec_container \<times> boot_info option) res" where
  "build_loop codec env 0 st = Inl (Panic ExplicitPanic)"
| "build_loop codec env (Suc left) st =
     bindr (build_iteration codec env (MAX_BUILD_ITERATION - Suc left) st) (\<lambda>r. case r of
         Refine st' \<Rightarrow> build_loop codec env left st'
       | Built st' spec info \<Rightarrow> Inr (st', spec, info))"

definition build_system :: "('o, 'r) spec_codec \<Rightarrow> build_env \<Rightarrow> build_state
    \<Rightarrow> (main_error, build_state \<times> spec_container \<times> boot_info option) res" where
  "build_system codec env st = build_loop codec env MAX_BUILD_ITERATION st"

section \<open>Addresses that are picked\<close>

definition all_picked :: "system_description \<Rightarrow> bool" where
  "all_picked sys \<longleftrightarrow> ToolAllocated None \<notin> smr_phys_addr ` set (sd_memory_regions sys)"

definition tool_picked :: "sys_memory_region \<Rightarrow> bool" where
  "tool_picked mr \<longleftrightarrow> (\<exists>p. smr_phys_addr mr = ToolAllocated (Some p))"

lemma pick_address_fold:
  assumes "foldM pick_address (mem, [], False) mrs = Inr (mem', mrs', need)"
  shows "length mrs' = length mrs
    \<and> (\<forall>i < length mrs. if smr_phys_addr (mrs ! i) = ToolAllocated None
         then \<exists>p. mrs' ! i = (mrs ! i)\<lparr>smr_phys_addr := ToolAllocated (Some p)\<rparr> else mrs' ! i = mrs ! i)
    \<and> (need \<longleftrightarrow> ToolAllocated None \<in> smr_phys_addr ` set mrs)"
proof -
  let ?I = "\<lambda>ys (mem, ms, need). length ms = length ys
    \<and> (\<forall>i < length ys. if smr_phys_addr (ys ! i) = ToolAllocated None
         then \<exists>p. ms ! i = (ys ! i)\<lparr>smr_phys_addr := ToolAllocated (Some p)\<rparr> else ms ! i = ys ! i)
    \<and> (need \<longleftrightarrow> ToolAllocated None \<in> smr_phys_addr ` set ys)"
  have "?I mrs (mem', mrs', need)"
    by (rule foldM_inv_prefix [OF assms, where I = ?I])
      (auto simp: pick_address_def bindr_eq_Inr nth_append less_Suc_eq split: if_splits option.splits prod.splits)
  then show ?thesis by simp
qed

lemma pick_addresses_facts:
  assumes "pick_addresses cfg boot sys = Inr (sys', need)"
  shows "all_picked sys'" and "need \<longleftrightarrow> \<not> all_picked sys" and "all_picked sys \<Longrightarrow> sys' = sys"
    and "need \<Longrightarrow> \<exists>mr \<in> set (sd_memory_regions sys'). tool_picked mr"
    and "mr \<in> set (sd_memory_regions sys) \<Longrightarrow> tool_picked mr \<Longrightarrow> mr \<in> set (sd_memory_regions sys')"
proof -
  from assms obtain mem mem' mrs where f: "foldM pick_address (mem, [], False) (sd_memory_regions sys) = Inr (mem', mrs, need)"
    and sys': "sys' = sys\<lparr>sd_memory_regions := mrs\<rparr>" by (auto simp: pick_addresses_def bindr_eq_Inr)
  note fold = pick_address_fold [OF f]
  show "need \<longleftrightarrow> \<not> all_picked sys" using fold by (simp add: all_picked_def)
  have each: "smr_phys_addr (mrs ! i) \<noteq> ToolAllocated None" if "i < length mrs" for i
    using fold that by (metis (no_types, lifting) option.distinct(1) sys_memory_region.select_convs(6)
        sys_memory_region.surjective sys_memory_region.update_convs(6) sys_memory_region_paddr.inject(1))
  then have "\<forall>mr \<in> set mrs. smr_phys_addr mr \<noteq> ToolAllocated None" by (simp add: all_set_conv_all_nth)
  then show "all_picked sys'" by (force simp: all_picked_def sys')
  show "sys' = sys" if "all_picked sys"
  proof -
    have "mrs = sd_memory_regions sys"
    proof (rule nth_equalityI)
      fix i assume "i < length mrs"
      then have "sd_memory_regions sys ! i \<in> set (sd_memory_regions sys)" using fold by simp
      with that have "smr_phys_addr (sd_memory_regions sys ! i) \<noteq> ToolAllocated None"
        unfolding all_picked_def by (metis image_eqI)
      moreover note \<open>i < length mrs\<close>
      ultimately show "mrs ! i = sd_memory_regions sys ! i" using fold by auto
    qed (use fold in simp)
    then show ?thesis by (simp add: sys')
  qed
  show "\<exists>mr \<in> set (sd_memory_regions sys'). tool_picked mr" if need
  proof -
    from that fold obtain i where i: "i < length mrs" "smr_phys_addr (sd_memory_regions sys ! i) = ToolAllocated None"
      by (auto simp: in_set_conv_nth image_iff)
    with fold have "tool_picked (mrs ! i)" by (fastforce simp: tool_picked_def)
    with i(1) show ?thesis by (auto simp: sys')
  qed
  show "mr \<in> set (sd_memory_regions sys')" if "mr \<in> set (sd_memory_regions sys)" "tool_picked mr"
  proof -
    from that obtain i where i: "i < length (sd_memory_regions sys)" "mr = sd_memory_regions sys ! i"
      by (auto simp: in_set_conv_nth)
    have "smr_phys_addr mr \<noteq> ToolAllocated None" using that(2) by (auto simp: tool_picked_def)
    then have "mrs ! i = mr" using fold i by simp
    moreover have "i < length mrs" using fold i(1) by simp
    ultimately show ?thesis by (auto simp: sys' in_set_conv_nth)
  qed
qed

lemma forget_not_picked:
  "mr \<in> set (sd_memory_regions sys) \<Longrightarrow> tool_picked mr \<Longrightarrow>
     \<not> all_picked (sys\<lparr>sd_memory_regions := map forget_address (sd_memory_regions sys)\<rparr>)"
  by (force simp: all_picked_def tool_picked_def forget_address_def image_iff)

section \<open>The loop\<close>

inductive reached :: "('o, 'r) spec_codec \<Rightarrow> build_env \<Rightarrow> build_state \<Rightarrow> nat \<Rightarrow> build_state \<Rightarrow> bool"
  for codec env st where
  start: "reached codec env st 0 st"
| refine: "reached codec env st it s \<Longrightarrow> build_iteration codec env it s = Inr (Refine s') \<Longrightarrow> reached codec env st (Suc it) s'"

inductive_cases reached_SucE: "reached codec env st (Suc it) s'"

text \<open>The simulation of an iteration turns the addresses down.\<close>

definition rejects :: "('o, 'r) spec_codec \<Rightarrow> build_env \<Rightarrow> build_state \<Rightarrow> bool" where
  "rejects codec env s \<longleftrightarrow> (\<exists>s1 spec ci boot spec'. prepare_spec codec env s = Inr (s1, spec)
     \<and> emulate_boot env (bs_initialiser s1) = Inr (ci, boot)
     \<and> simulate_capdl_object_alloc_algorithm boot (be_config env) Suppressed spec = Inr (False, spec'))"

text \<open>What is written out belongs together: the programs are patched and the specification is built for the same
  description, in which every region has its address, and the objects of the specification are those that the
  simulation placed in the memory that the emulated boot leaves, with this initial task.\<close>

definition built_from ::
    "('o, 'r) spec_codec \<Rightarrow> build_env \<Rightarrow> build_state \<Rightarrow> build_state \<times> spec_container \<times> boot_info option \<Rightarrow> bool" where
  "built_from codec env s = (\<lambda>(s', spec, info).
     bs_system s' = bs_system s \<and> patch_symbols (be_config env) (bs_elfs s) (bs_system s) = Inr (bs_elfs s')
     \<and> (\<exists>spec0 ci0. build_capdl_spec (be_config env) (bs_elfs s') (bs_system s') = Inr spec0
         \<and> pack_spec_into_initial_task codec (be_config env) (be_build_config env) spec0 (bs_elfs s') (bs_initialiser s)
             = (Inr ci0 :: (main_error, capdl_initialiser) res)
         \<and> (if arch (be_config env) = X86_64 then spec = spec0 \<and> info = None \<and> bs_initialiser s' = ci0
            else all_picked (bs_system s') \<and> (\<exists>boot ci level. info = Some boot \<and> emulate_boot env ci0 = Inr (ci, boot)
               \<and> simulate_capdl_object_alloc_algorithm boot (be_config env) level spec0 = Inr (True, spec)
               \<and> add_expected_untypeds (untyped_objects boot) ci
                   = (Inr (bs_initialiser s') :: (main_error, capdl_initialiser) res)))))"

lemma prepare_spec_facts:
  "prepare_spec codec env s = Inr (s1, spec) \<Longrightarrow> bs_system s1 = bs_system s
     \<and> patch_symbols (be_config env) (bs_elfs s) (bs_system s) = Inr (bs_elfs s1)
     \<and> build_capdl_spec (be_config env) (bs_elfs s1) (bs_system s1) = Inr spec
     \<and> pack_spec_into_initial_task codec (be_config env) (be_build_config env) spec (bs_elfs s1) (bs_initialiser s)
         = (Inr (bs_initialiser s1) :: (main_error, capdl_initialiser) res)"
  by (auto simp: prepare_spec_def bindr_eq_Inr lift_err_eq_Inr)

lemma check_allocation_cases:
  assumes "check_allocation env it boot (sys, spec) = Inr (sys', spec')"
  shows "(sys' = sys \<and> (\<exists>level. simulate_capdl_object_alloc_algorithm boot (be_config env) level spec = Inr (True, spec')))
    \<or> (it \<noteq> 0 \<and> sys' = sys\<lparr>sd_memory_regions := map forget_address (sd_memory_regions sys)\<rparr>
       \<and> (\<exists>sp. simulate_capdl_object_alloc_algorithm boot (be_config env) Suppressed spec = Inr (False, sp)))"
  using assms
  by (auto simp: check_allocation_def bindr_eq_Inr unwrap_res_eq_Inr split: if_splits)

text \<open>Both ways in which an iteration returns.\<close>

lemma build_iteration_steps:
  assumes "build_iteration codec env it s = Inr r" "arch (be_config env) \<noteq> X86_64"
  obtains s1 spec ci boot sys spec' sys' need ci' where
    "prepare_spec codec env s = Inr (s1, spec)" "emulate_boot env (bs_initialiser s1) = Inr (ci, boot)"
    "check_allocation env it boot (bs_system s1, spec) = Inr (sys, spec')"
    "pick_addresses (be_config env) boot sys = Inr (sys', need)"
    "add_expected_untypeds (untyped_objects boot) ci = (Inr ci' :: (main_error, capdl_initialiser) res)"
    "r = (if need then Refine (s1\<lparr>bs_system := sys', bs_initialiser := ci'\<rparr>)
          else Built (s1\<lparr>bs_system := sys', bs_initialiser := ci'\<rparr>) spec' (Some boot))"
proof -
  have "(case arch (be_config env) of X86_64 \<Rightarrow> x | _ \<Rightarrow> y) = y" for x y :: "(main_error, iteration_end) res"
    using assms(2) by (cases "arch (be_config env)") simp_all
  with assms(1) that show thesis
    by (auto simp: build_iteration_def bindr_eq_Inr Let_def)
qed

lemma refine_facts:
  assumes "build_iteration codec env it s = Inr (Refine s')"
  shows "all_picked (bs_system s') \<and> (\<exists>mr \<in> set (sd_memory_regions (bs_system s')). tool_picked mr)
    \<and> (all_picked (bs_system s) \<longrightarrow> it \<noteq> 0 \<and> rejects codec env s)"
proof -
  have arch: "arch (be_config env) \<noteq> X86_64"
    using assms by (auto simp: build_iteration_def bindr_eq_Inr)
  from assms arch obtain s1 spec ci boot sys spec' sys' ci' where steps:
    "prepare_spec codec env s = Inr (s1, spec)" "emulate_boot env (bs_initialiser s1) = Inr (ci, boot)"
    "check_allocation env it boot (bs_system s1, spec) = Inr (sys, spec')"
    "pick_addresses (be_config env) boot sys = Inr (sys', True)" "s' = s1\<lparr>bs_system := sys', bs_initialiser := ci'\<rparr>"
    by (rule build_iteration_steps) (auto split: if_splits)
  note picked = pick_addresses_facts [OF steps(4)]
  from check_allocation_cases [OF steps(3)] picked(2) prepare_spec_facts [OF steps(1)]
  have "all_picked (bs_system s) \<longrightarrow> it \<noteq> 0 \<and> rejects codec env s"
    using steps(1,2) unfolding rejects_def by auto
  with picked(1,4) steps(5) show ?thesis by simp
qed

lemma built_facts:
  assumes "build_iteration codec env it s = Inr (Built s' spec info)"
    and "it = 0 \<or> (\<exists>mr \<in> set (sd_memory_regions (bs_system s)). tool_picked mr)"
  shows "built_from codec env s (s', spec, info)"
proof (cases "arch (be_config env) = X86_64")
  case True
  with assms(1) show ?thesis
    by (auto simp: build_iteration_def bindr_eq_Inr built_from_def dest!: prepare_spec_facts)
next
  case False
  from assms(1) False obtain s1 spec0 ci boot sys sys' ci' where steps:
    "prepare_spec codec env s = Inr (s1, spec0)" "emulate_boot env (bs_initialiser s1) = Inr (ci, boot)"
    "check_allocation env it boot (bs_system s1, spec0) = Inr (sys, spec)"
    "pick_addresses (be_config env) boot sys = Inr (sys', False)"
    "add_expected_untypeds (untyped_objects boot) ci = (Inr ci' :: (main_error, capdl_initialiser) res)"
    "s' = s1\<lparr>bs_system := sys', bs_initialiser := ci'\<rparr>" "info = Some boot"
    by (rule build_iteration_steps) (auto split: if_splits)
  note prep = prepare_spec_facts [OF steps(1)]
  note picked = pick_addresses_facts [OF steps(4)]
  have all: "all_picked sys" "sys' = sys" using picked(2,3) by simp_all
  have "sys = bs_system s \<and> (\<exists>level. simulate_capdl_object_alloc_algorithm boot (be_config env) level spec0 = Inr (True, spec))"
    using check_allocation_cases [OF steps(3)] assms(2) all(1) forget_not_picked prep by auto
  then show ?thesis
    using prep steps(2,5) all False by (auto simp: built_from_def steps(6,7))
qed

lemma reached_picked:
  "reached codec env st it s \<Longrightarrow> it = 0 \<and> s = st \<or> all_picked (bs_system s) \<and> (\<exists>mr \<in> set (sd_memory_regions (bs_system s)). tool_picked mr)"
  by (induction rule: reached.induct) (auto dest!: refine_facts)

lemma build_loop_outcome:
  assumes "reached codec env st it s" "it + left = MAX_BUILD_ITERATION"
  shows "case build_loop codec env left s of
      Inr out \<Rightarrow> \<exists>it s. reached codec env st it s \<and> it < MAX_BUILD_ITERATION \<and> built_from codec env s out
    | Inl e \<Rightarrow> (\<exists>it s. reached codec env st it s \<and> it < MAX_BUILD_ITERATION \<and> build_iteration codec env it s = Inl e)
        \<or> e = Panic ExplicitPanic \<and> (\<exists>s. reached codec env st MAX_BUILD_ITERATION s)"
  using assms
proof (induction left arbitrary: it s)
  case 0
  then show ?case by auto
next
  case (Suc left)
  then have it: "MAX_BUILD_ITERATION - Suc left = it" "it < MAX_BUILD_ITERATION" by simp_all
  show ?case
  proof (cases "build_iteration codec env it s")
    case (Inl e)
    with Suc.prems(1) it show ?thesis by auto
  next
    case (Inr r)
    show ?thesis
    proof (cases r)
      case (Refine s')
      from reached.refine [OF Suc.prems(1) Inr [unfolded Refine]] Suc.IH [of "Suc it" s'] Suc.prems(2)
      show ?thesis by (simp add: it(1) Inr Refine)
    next
      case (Built s' spec info)
      have "built_from codec env s (s', spec, info)"
        by (rule built_facts [OF Inr [unfolded Built]]) (use reached_picked [OF Suc.prems(1)] in auto)
      with Suc.prems(1) it show ?thesis by (auto simp: Inr Built)
    qed
  qed
qed

text \<open>C3: The build of a system ends after at most three iterations.  It ends with a system whose parts belong
  together: programs and specification are those of one description in which every region has its address, and the
  simulation has placed the objects in the memory left by the boot that was emulated with this very initial task.
  Otherwise an iteration has failed, or the simulations of the second and of the third have both turned down the
  addresses picked before.\<close>

theorem build_system_outcome:
  "case build_system codec env st of
      Inr out \<Rightarrow> \<exists>it s. reached codec env st it s \<and> it < 3 \<and> built_from codec env s out
    | Inl e \<Rightarrow> (\<exists>it s. reached codec env st it s \<and> it < 3 \<and> build_iteration codec env it s = Inl e)
        \<or> e = Panic ExplicitPanic \<and> (\<exists>s1 s2. reached codec env st 1 s1 \<and> reached codec env st 2 s2
            \<and> rejects codec env s1 \<and> rejects codec env s2)"
proof -
  have three: "MAX_BUILD_ITERATION = 3" by (simp add: MAX_BUILD_ITERATION_def)
  have "\<exists>s1 s2. reached codec env st 1 s1 \<and> reached codec env st 2 s2 \<and> rejects codec env s1 \<and> rejects codec env s2"
    if "reached codec env st 3 s" for s
  proof -
    from that obtain s2 where s2: "reached codec env st 2 s2" "build_iteration codec env 2 s2 = Inr (Refine s)"
      by (auto simp: numeral_3_eq_3 numeral_2_eq_2 elim: reached_SucE)
    then obtain s1 where s1: "reached codec env st 1 s1" "build_iteration codec env 1 s1 = Inr (Refine s2)"
      by (auto simp: numeral_2_eq_2 elim: reached_SucE)
    show ?thesis
      using s1 s2 refine_facts [OF s1(2)] refine_facts [OF s2(2)] reached_picked [OF s1(1)] reached_picked [OF s2(1)]
      by auto
  qed
  then show ?thesis
    using build_loop_outcome [OF reached.start, of MAX_BUILD_ITERATION codec env st]
    by (auto simp: build_system_def three split: sum.splits)
qed

end
