(* ===== verification/Sdk.thy ===== *)
theory Sdk
  imports Util "HOL-Library.Char_ord" "HOL-Library.List_Lexorder"
begin

text \<open>
  The boards and configurations of the SDK, \<open>tool/microkit/src/sdk.rs\<close>.  A path is a string; what the standard library
  does with one goes through its components, of which the root of an absolute path is the first.  Names are valid
  UTF-8.  The environment and the file system are the parameter \<open>sdk_env\<close>: what the calls of the standard library
  return.
\<close>

section \<open>Paths\<close>

fun split_slash :: "string \<Rightarrow> string \<Rightarrow> string list" where
  "split_slash acc [] = [acc]"
| "split_slash acc (c # cs) = (if c = CHR ''/'' then acc # split_slash [] cs else split_slash (acc @ [c]) cs)"

definition path_components :: "string \<Rightarrow> string list" where
  "path_components s =
     (let root = (if s \<noteq> [] \<and> hd s = CHR ''/'' then [''/''] else [])
      in root @ map snd (filter (\<lambda>(i, c). c \<noteq> [] \<and> (c \<noteq> ''.'' \<or> i = 0)) (enumerate 0 (split_slash [] s))))"

definition path_text :: "string list \<Rightarrow> string" where
  "path_text cs = foldl (\<lambda>p c. if p = [] then c else path_join p c) [] cs"

definition path_parent :: "string \<Rightarrow> string option" where
  "path_parent p =
     (let cs = path_components p in if cs = [] \<or> cs = [''/''] then None else Some (path_text (butlast cs)))"

definition path_file_name :: "string \<Rightarrow> string option" where
  "path_file_name p =
     (let cs = path_components p
      in if cs = [] \<or> last cs = ''/'' \<or> last cs = ''..'' \<or> last cs = ''.'' then None else Some (last cs))"

section \<open>Boards and configurations\<close>

record board_info =
  bi_name :: string
  bi_dir :: string

record available_config =
  ac_board_name :: string
  ac_board_dir :: string
  ac_config_name :: string
  ac_config_dir :: string

record sdk =
  sdk_exe_path :: string
  sdk_cwd :: string
  sdk_available_boards :: "board_info list"
  sdk_available_configs :: "available_config list"

datatype 'io var_error = VarNotPresent | VarOther 'io

datatype 'io sdk_error =
    CannotDetermineExePath 'io
  | CannotDetermineCwd 'io
  | CannotReadSdkVar 'io
  | CannotInferSdkDir string
  | CannotFindSdkDirectory string
  | CannotFindBoardsDirectory string
  | CannotFindDirectory string
  | CannotReadDirectory string 'io

record 'io sdk_env =
  env_current_exe :: "'io + string"
  env_current_dir :: "'io + string"
  env_sdk_var :: "'io var_error + string"
  env_exists :: "string \<Rightarrow> bool"
  env_is_dir :: "string \<Rightarrow> bool"
  env_read_dir :: "string \<Rightarrow> 'io + ('io + string) list"

text \<open>The message of an error, given the text of an error of the system.\<close>

fun sdk_error_display :: "('io \<Rightarrow> string) \<Rightarrow> 'io sdk_error \<Rightarrow> string" where
  "sdk_error_display io (CannotDetermineExePath source) = ''Could not determine the current executable path: '' @ io source"
| "sdk_error_display io (CannotDetermineCwd source) = ''Could not determine the current working directory: '' @ io source"
| "sdk_error_display io (CannotReadSdkVar source) =
     ''Could not read the MICROKIT_SDK environmental variable: '' @ io source"
| "sdk_error_display io (CannotFindSdkDirectory p) =
     ''The MICROKIT_SDK directory '' @ CHR 0x27 # p @ CHR 0x27 # '' does not exist''"
| "sdk_error_display io (CannotFindBoardsDirectory p) =
     ''The SDK directory does not have a '' @ CHR 0x27 # ''board'' @ CHR 0x27 # '' sub-directory at '' @ CHR 0x27 # p @ [CHR 0x27]"
| "sdk_error_display io (CannotInferSdkDir p) =
     ''No SDK directory specified and cannot infer SDK directory from executable path '' @ CHR 0x27 # p @ [CHR 0x27]"
| "sdk_error_display io (CannotFindDirectory p) = ''The directory '' @ CHR 0x27 # p @ CHR 0x27 # '' does not exist''"
| "sdk_error_display io (CannotReadDirectory p source) =
     ''The directory '' @ CHR 0x27 # p @ CHR 0x27 # '' could not be read: '' @ io source"

definition map_err :: "('io \<Rightarrow> 'e) \<Rightarrow> 'io + 'a \<Rightarrow> ('e, 'a) res" where
  "map_err g r = (case r of Inl io \<Rightarrow> Inl (Err (g io)) | Inr x \<Rightarrow> Inr x)"

definition read_dir :: "'io sdk_env \<Rightarrow> string \<Rightarrow> ('io sdk_error, ('io + string) list) res" where
  "read_dir env p = map_err (CannotReadDirectory p) (env_read_dir env p)"

definition read_dir_entry :: "string \<Rightarrow> 'io + string \<Rightarrow> ('io sdk_error, string) res" where
  "read_dir_entry p entry = map_err (CannotReadDirectory p) entry"

definition final_path_component :: "string \<Rightarrow> ('io sdk_error, string) res" where
  "final_path_component p = ok_or (path_file_name p) (CannotFindDirectory p)"

definition discover_sdk_dir :: "'io sdk_env \<Rightarrow> string \<Rightarrow> ('io sdk_error, string) res" where
  "discover_sdk_dir env default_path = (case env_sdk_var env of
      Inr val \<Rightarrow>
        let p = val
        in if env_exists env p \<and> env_is_dir env p then Inr p else Inl (Err (CannotFindSdkDirectory p))
    | Inl VarNotPresent \<Rightarrow>
        (case Option.bind (path_parent default_path) path_parent of
           Some gp \<Rightarrow> Inr gp
         | None \<Rightarrow> Inl (Err (CannotInferSdkDir default_path)))
    | Inl (VarOther source) \<Rightarrow> Inl (Err (CannotReadSdkVar source)))"

text \<open>The directories in a directory, with their names.\<close>

definition discover_step :: "'io sdk_env \<Rightarrow> string \<Rightarrow> (string \<Rightarrow> string \<Rightarrow> 'a) \<Rightarrow> 'a list \<Rightarrow> 'io + string \<Rightarrow> ('io sdk_error, 'a list) res" where
  "discover_step env dir found discovered entry =
     bindr (read_dir_entry dir entry) (\<lambda>p.
     if \<not> env_is_dir env p then Inr discovered
     else bindr (final_path_component p) (\<lambda>name. Inr (discovered @ [found name p])))"

definition discover_boards :: "'io sdk_env \<Rightarrow> string \<Rightarrow> ('io sdk_error, board_info list) res" where
  "discover_boards env dir =
     bindr (read_dir env dir) (\<lambda>entries.
       foldM (discover_step env dir (\<lambda>name p. \<lparr>bi_name = name, bi_dir = p\<rparr>)) [] entries)"

definition discover_available_configs_for :: "'io sdk_env \<Rightarrow> board_info \<Rightarrow> ('io sdk_error, available_config list) res" where
  "discover_available_configs_for env board =
     bindr (read_dir env (bi_dir board)) (\<lambda>entries.
       foldM (discover_step env (bi_dir board) (\<lambda>name p.
           \<lparr>ac_board_name = bi_name board, ac_board_dir = bi_dir board, ac_config_name = name, ac_config_dir = p\<rparr>))
         [] entries)"

definition sdk_discover :: "'io sdk_env \<Rightarrow> ('io sdk_error, sdk) res" where
  "sdk_discover env =
     bindr (map_err CannotDetermineExePath (env_current_exe env)) (\<lambda>exe_path.
     bindr (map_err CannotDetermineCwd (env_current_dir env)) (\<lambda>cwd.
     bindr (discover_sdk_dir env exe_path) (\<lambda>sdk_dir.
     let boards_dir = path_join sdk_dir ''board''
     in if \<not> env_exists env boards_dir \<or> \<not> env_is_dir env boards_dir
        then Inl (Err (CannotFindBoardsDirectory boards_dir))
        else bindr (discover_boards env boards_dir) (\<lambda>boards.
             let available_boards = sort_key bi_name boards
             in bindr (foldM (\<lambda>cs board. bindr (discover_available_configs_for env board) (\<lambda>more. Inr (cs @ more)))
                         [] available_boards) (\<lambda>available_configs.
                  Inr \<lparr>sdk_exe_path = exe_path, sdk_cwd = cwd, sdk_available_boards = available_boards,
                       sdk_available_configs = available_configs\<rparr>)))))"

section \<open>Queries\<close>

definition sdk_select :: "sdk \<Rightarrow> string \<Rightarrow> string \<Rightarrow> available_config option" where
  "sdk_select s board_name config_name =
     find (\<lambda>pair. ac_board_name pair = board_name \<and> ac_config_name pair = config_name) (sdk_available_configs s)"

definition available_boards_contains :: "sdk \<Rightarrow> string \<Rightarrow> bool" where
  "available_boards_contains s name = list_ex (\<lambda>b. bi_name b = name) (sdk_available_boards s)"

definition available_board_names :: "sdk \<Rightarrow> string list" where
  "available_board_names s = map bi_name (sdk_available_boards s)"

definition available_config_names_for :: "sdk \<Rightarrow> string \<Rightarrow> string list" where
  "available_config_names_for s board_name =
     map ac_config_name (filter (\<lambda>c. ac_board_name c = board_name) (sdk_available_configs s))"

section \<open>What is discovered\<close>

lemma discover_step_all:
  assumes "foldM (discover_step env dir found) [] entries = Inr xs" "\<And>name p. P (found name p)"
  shows "list_all P xs"
  by (rule foldM_inv [OF assms(1), where I = "list_all P"])
    (auto simp: discover_step_def bindr_eq_Inr assms(2) split: if_splits)

text \<open>Every configuration belongs to one of the boards, and the boards are sorted.\<close>

lemma sdk_discover_configs:
  assumes "sdk_discover env = Inr s" "sdk_select s board config = Some c"
  shows "available_boards_contains s board \<and> ac_board_name c = board \<and> ac_config_name c = config
    \<and> sorted (available_board_names s)"
proof -
  from assms(1) obtain boards where
    s: "sdk_available_boards s = sort_key bi_name boards"
    and f: "foldM (\<lambda>cs b. bindr (discover_available_configs_for env b) (\<lambda>more. Inr (cs @ more))) []
          (sort_key bi_name boards) = Inr (sdk_available_configs s)"
    by (auto simp: sdk_discover_def Let_def bindr_eq_Inr split: if_splits)
  have "list_all (\<lambda>c. \<exists>b \<in> set boards. bi_name b = ac_board_name c) (sdk_available_configs s)"
  proof (rule foldM_inv [OF f, where I = "list_all (\<lambda>c. \<exists>b \<in> set boards. bi_name b = ac_board_name c)"])
    fix cs b t
    assume cs: "list_all (\<lambda>c. \<exists>b \<in> set boards. bi_name b = ac_board_name c) cs" and b: "b \<in> set (sort_key bi_name boards)"
      and t: "bindr (discover_available_configs_for env b) (\<lambda>more. Inr (cs @ more)) = Inr t"
    then obtain more where m: "discover_available_configs_for env b = Inr more" "t = cs @ more" by (auto simp: bindr_eq_Inr)
    have "list_all (\<lambda>c. ac_board_name c = bi_name b) more"
      using m(1) unfolding discover_available_configs_for_def bindr_eq_Inr
      by (auto elim!: discover_step_all)
    with cs b m(2) show "list_all (\<lambda>c. \<exists>b \<in> set boards. bi_name b = ac_board_name c) t"
      by (auto simp: list_all_iff)
  qed simp
  moreover from assms(2) have "c \<in> set (sdk_available_configs s)" "ac_board_name c = board" "ac_config_name c = config"
    by (auto simp: sdk_select_def find_Some_iff)
  ultimately show ?thesis
    by (auto simp: s list_all_iff available_boards_contains_def list_ex_iff available_board_names_def)
qed

end
