(* ===== verification/Argparse.thy ===== *)
theory Argparse
  imports Sdk "HOL-Library.Multiset"
begin

text \<open>
  The command line, \<open>tool/microkit/src/argparse.rs\<close>.  The loop over the arguments is the recursion on the list that is
  left; the local variables of the function are the state.
\<close>

section \<open>Arguments\<close>

datatype requested_image_type = ReqBinary | ReqElf | ReqUimage | ReqUnspecified

definition requested_image_type_parse :: "string \<Rightarrow> requested_image_type option" where
  "requested_image_type_parse arg =
     (if arg = ''binary'' then Some ReqBinary else if arg = ''elf'' then Some ReqElf
      else if arg = ''uimage'' then Some ReqUimage else None)"

fun requested_image_type_display :: "requested_image_type \<Rightarrow> string" where
  "requested_image_type_display ReqBinary = ''binary''"
| "requested_image_type_display ReqElf = ''elf''"
| "requested_image_type_display ReqUimage = ''uimage''"
| "requested_image_type_display ReqUnspecified = ''unspecified''"

record args =
  ar_sdf_path :: string
  ar_board :: string
  ar_config :: string
  ar_report_path :: string
  ar_capdl_json_path :: "string option"
  ar_viper_output_dir :: "string option"
  ar_output_path :: string
  ar_search_paths :: "string list"
  ar_requested_image_type :: requested_image_type
  ar_override_kernel :: "string option"

datatype args_error =
    InvalidImageTypeParameter string
  | InvalidBoardParameter string
  | InvalidConfigParameter string "string list"
  | MissingParameter string
  | MissingRequiredArguments "string list"
  | UnrecognizedArgument string
  | HelpWanted

definition comma_list :: "string list \<Rightarrow> string" where
  "comma_list items = join_with '', '' items"

fun args_error_display :: "args_error \<Rightarrow> string" where
  "args_error_display (InvalidImageTypeParameter p) =
     ''argument --image-type: unknown parameter '' @ CHR 0x27 # p @ [CHR 0x27]"
| "args_error_display (InvalidBoardParameter p) =
     ''argument --board: unknown parameter '' @ CHR 0x27 # p @ [CHR 0x27]"
| "args_error_display (InvalidConfigParameter p choices) =
     ''argument --config: invalid choice '' @ CHR 0x27 # p @ CHR 0x27 # '' (choose from: '' @ comma_list choices @ '')''"
| "args_error_display (MissingParameter parent) = ''argument '' @ parent @ '': expected one parameter''"
| "args_error_display (MissingRequiredArguments missing) =
     ''the following arguments are required: '' @ comma_list missing"
| "args_error_display (UnrecognizedArgument arg) = ''unrecognized argument '' @ CHR 0x27 # arg @ [CHR 0x27]"
| "args_error_display HelpWanted = ''printing help text''"

text \<open>What is printed for \<open>--help\<close> and for a usage error.\<close>

definition usage_text :: string where
  "usage_text = ''usage: microkit [-h] [OPTIONS] --board BOARD --config CONFIG [--search-path SEARCH_PATH ...] system'' @ [CHR 0x0A]"

definition help_text :: "sdk \<Rightarrow> string" where
  "help_text s =
     (let nl = [CHR 0x0A];
          boards = join_with (nl @ ''          '') (available_board_names s)
      in usage_text @ nl @ ''positional arguments:'' @ nl @ ''  system'' @ nl @ nl @ ''options:'' @ nl
         @ ''  -h, --help, show this help message and exit'' @ nl
         @ ''  -o, --output OUTPUT'' @ nl @ ''  -r, --report REPORT'' @ nl
         @ ''  --image-type {binary,elf,uimage}'' @ nl
         @ ''  --override-kernel KERNEL (for debugging purposes)'' @ nl
         @ ''  --board '' @ boards @ nl @ ''  --config CONFIG'' @ nl
         @ ''  --capdl-json CAPDL_SPEC (JSON format)'' @ nl
         @ ''  --viper-output DIRECTORY_PATH'' @ nl
         @ ''  --search-path [SEARCH_PATH ...]'' @ nl)"

section \<open>The loop\<close>

definition consume_parameter :: "string list \<Rightarrow> string \<Rightarrow> (args_error, string \<times> string list) res" where
  "consume_parameter left argname = (case left of
      [] \<Rightarrow> Inl (Err (MissingParameter argname))
    | x # xs \<Rightarrow> Inr (x, xs))"

definition starts_dash :: "string \<Rightarrow> bool" where
  "starts_dash s \<longleftrightarrow> s \<noteq> [] \<and> hd s = CHR ''-''"

definition consume_parameters :: "string list \<Rightarrow> string list \<times> string list" where
  "consume_parameters left = (takeWhile (\<lambda>s. \<not> starts_dash s) left, dropWhile (\<lambda>s. \<not> starts_dash s) left)"

record args_state =
  as_output_path :: string
  as_report_path :: string
  as_capdl_json_path :: "string option"
  as_viper_output_dir :: "string option"
  as_search_paths :: "string list"
  as_sdf_path :: "string option"
  as_board :: "string option"
  as_config :: "string option"
  as_requested_image_type :: requested_image_type
  as_override_kernel :: "string option"

definition args_initial :: args_state where
  "args_initial = \<lparr>as_output_path = ''loader.img'', as_report_path = ''report.txt'', as_capdl_json_path = None,
     as_viper_output_dir = None, as_search_paths = [], as_sdf_path = None, as_board = None, as_config = None,
     as_requested_image_type = ReqUnspecified, as_override_kernel = None\<rparr>"

text \<open>One turn of the loop: what the argument \<open>arg\<close> does with the arguments after it.\<close>

definition parse_arg :: "sdk \<Rightarrow> args_state \<Rightarrow> string \<Rightarrow> string list \<Rightarrow> (args_error, args_state \<times> string list) res" where
  "parse_arg s st arg left =
     (if arg = ''-h'' \<or> arg = ''--help'' then Inl (Err HelpWanted)
      else if arg = ''-o'' \<or> arg = ''--output'' then
        bindr (consume_parameter left ''--output'') (\<lambda>(v, left). Inr (st\<lparr>as_output_path := v\<rparr>, left))
      else if arg = ''-r'' \<or> arg = ''--report'' then
        bindr (consume_parameter left ''--report'') (\<lambda>(v, left). Inr (st\<lparr>as_report_path := v\<rparr>, left))
      else if arg = ''--board'' then
        bindr (consume_parameter left ''--board'') (\<lambda>(board_param, left).
          if \<not> available_boards_contains s board_param then Inl (Err (InvalidBoardParameter board_param))
          else Inr (st\<lparr>as_board := Some board_param\<rparr>, left))
      else if arg = ''--config'' then
        bindr (consume_parameter left ''--config'') (\<lambda>(v, left). Inr (st\<lparr>as_config := Some v\<rparr>, left))
      else if arg = ''--capdl-json'' then
        bindr (consume_parameter left ''--capdl-json'') (\<lambda>(v, left). Inr (st\<lparr>as_capdl_json_path := Some v\<rparr>, left))
      else if arg = ''--search-path'' then
        (let (params, left) = consume_parameters left
         in Inr (st\<lparr>as_search_paths := as_search_paths st @ params\<rparr>, left))
      else if arg = ''--viper-output'' then
        bindr (consume_parameter left ''--viper-output'') (\<lambda>(v, left). Inr (st\<lparr>as_viper_output_dir := Some v\<rparr>, left))
      else if arg = ''--image-type'' then
        bindr (consume_parameter left ''--image-type'') (\<lambda>(v, left).
          case requested_image_type_parse v of
            Some image_type \<Rightarrow> Inr (st\<lparr>as_requested_image_type := image_type\<rparr>, left)
          | None \<Rightarrow> Inl (Err (InvalidImageTypeParameter v)))
      else if arg = ''--override-kernel'' then
        bindr (consume_parameter left ''--override-kernel'') (\<lambda>(v, left).
          Inr (st\<lparr>as_override_kernel := Some v\<rparr>, left))
      else if as_sdf_path st = None then Inr (st\<lparr>as_sdf_path := Some arg\<rparr>, left)
      else Inl (Err (UnrecognizedArgument arg)))"

lemma parse_arg_shorter: "parse_arg s st arg left = Inr (st', left') \<Longrightarrow> length left' \<le> length left"
  by (auto simp: parse_arg_def bindr_eq_Inr consume_parameter_def consume_parameters_def length_dropWhile_le
      split: if_splits list.splits option.splits)

function parse_loop :: "sdk \<Rightarrow> args_state \<Rightarrow> string list \<Rightarrow> (args_error, args_state) res" where
  "parse_loop s st [] = Inr st"
| "parse_loop s st (arg # left) =
     bindr (parse_arg s st arg left) (\<lambda>(st', left'). parse_loop s st' left')"
  by pat_completeness auto

termination
  by (relation "measure (\<lambda>(s, st, left). length left)") (auto dest: parse_arg_shorter)

definition missing_args :: "args_state \<Rightarrow> string list" where
  "missing_args st = (if as_board st = None then [''--board''] else []) @ (if as_config st = None then [''--config''] else [])
     @ (if as_sdf_path st = None then [''system''] else [])"

definition args_finish :: "sdk \<Rightarrow> args_state \<Rightarrow> (args_error, args) res" where
  "args_finish s st =
     (if missing_args st \<noteq> [] then Inl (Err (MissingRequiredArguments (missing_args st)))
      else bindr (unwrapr (as_board st)) (\<lambda>board.
           bindr (unwrapr (as_config st)) (\<lambda>config.
           bindr (unwrapr (as_sdf_path st)) (\<lambda>sdf_path.
           if sdk_select s board config = None
           then Inl (Err (InvalidConfigParameter config (available_config_names_for s board)))
           else Inr \<lparr>ar_sdf_path = sdf_path, ar_board = board, ar_config = config, ar_report_path = as_report_path st,
                    ar_capdl_json_path = as_capdl_json_path st, ar_viper_output_dir = as_viper_output_dir st,
                    ar_output_path = as_output_path st, ar_search_paths = as_search_paths st,
                    ar_requested_image_type = as_requested_image_type st,
                    ar_override_kernel = as_override_kernel st\<rparr>))))"

definition args_parse :: "string list \<Rightarrow> sdk \<Rightarrow> (args_error, args) res" where
  "args_parse argv s = bindr (parse_loop s args_initial (drop 1 argv)) (args_finish s)"

section \<open>Command lines\<close>

text \<open>The options of a command line: how each is written, and what it sets.\<close>

datatype cli_option =
    OptBoard string
  | OptConfig string
  | OptOutput string
  | OptReport string
  | OptCapdlJson string
  | OptViper string
  | OptSearch "string list"
  | OptImage requested_image_type
  | OptKernel string

fun written :: "cli_option \<Rightarrow> string list" where
  "written (OptBoard v) = [''--board'', v]"
| "written (OptConfig v) = [''--config'', v]"
| "written (OptOutput v) = [''--output'', v]"
| "written (OptReport v) = [''--report'', v]"
| "written (OptCapdlJson v) = [''--capdl-json'', v]"
| "written (OptViper v) = [''--viper-output'', v]"
| "written (OptSearch vs) = ''--search-path'' # vs"
| "written (OptImage t) = [''--image-type'', requested_image_type_display t]"
| "written (OptKernel v) = [''--override-kernel'', v]"

fun set_option :: "cli_option \<Rightarrow> args_state \<Rightarrow> args_state" where
  "set_option (OptBoard v) st = st\<lparr>as_board := Some v\<rparr>"
| "set_option (OptConfig v) st = st\<lparr>as_config := Some v\<rparr>"
| "set_option (OptOutput v) st = st\<lparr>as_output_path := v\<rparr>"
| "set_option (OptReport v) st = st\<lparr>as_report_path := v\<rparr>"
| "set_option (OptCapdlJson v) st = st\<lparr>as_capdl_json_path := Some v\<rparr>"
| "set_option (OptViper v) st = st\<lparr>as_viper_output_dir := Some v\<rparr>"
| "set_option (OptSearch vs) st = st\<lparr>as_search_paths := as_search_paths st @ vs\<rparr>"
| "set_option (OptImage t) st = st\<lparr>as_requested_image_type := t\<rparr>"
| "set_option (OptKernel v) st = st\<lparr>as_override_kernel := Some v\<rparr>"

text \<open>The options the parser can take: a known board, a known type of image, and search paths that do not look like
  an option.\<close>

fun can_take :: "sdk \<Rightarrow> cli_option \<Rightarrow> bool" where
  "can_take s (OptBoard v) \<longleftrightarrow> available_boards_contains s v"
| "can_take s (OptSearch vs) \<longleftrightarrow> list_all (\<lambda>v. \<not> starts_dash v) vs"
| "can_take s (OptImage t) \<longleftrightarrow> t \<noteq> ReqUnspecified"
| "can_take s _ \<longleftrightarrow> True"

definition no_parameter_first :: "string list \<Rightarrow> bool" where
  "no_parameter_first left \<longleftrightarrow> (case left of [] \<Rightarrow> True | x # _ \<Rightarrow> starts_dash x)"

lemma take_parameters:
  assumes "list_all (\<lambda>v. \<not> starts_dash v) vs" "no_parameter_first left"
  shows "consume_parameters (vs @ left) = (vs, left)"
  using assms by (induction vs) (auto simp: consume_parameters_def no_parameter_first_def split: list.splits)

lemma parse_written:
  assumes "can_take s opt" "no_parameter_first left"
  shows "parse_loop s st (written opt @ left) = parse_loop s (set_option opt st) left"
proof (cases opt)
  case (OptImage t)
  with assms show ?thesis
    by (cases t) (simp_all add: parse_arg_def consume_parameter_def requested_image_type_parse_def)
next
  case (OptSearch vs)
  with assms show ?thesis by (simp add: parse_arg_def take_parameters)
qed (use assms in \<open>simp_all add: parse_arg_def consume_parameter_def\<close>)

lemma written_first: "no_parameter_first (written opt @ left)"
  by (cases opt) (simp_all add: no_parameter_first_def starts_dash_def)

lemma parse_all_written:
  "list_all (can_take s) opts \<Longrightarrow> parse_loop s st (concat (map written opts)) = Inr (fold set_option opts st)"
proof (induction opts arbitrary: st)
  case (Cons opt opts)
  have "no_parameter_first (concat (map written opts))"
    using written_first by (cases opts) (simp_all add: no_parameter_first_def)
  with Cons show ?case by (simp add: parse_written)
qed simp

text \<open>The options that give the arguments \<open>a\<close>.\<close>

definition options_of :: "args \<Rightarrow> cli_option list" where
  "options_of a = [OptBoard (ar_board a), OptConfig (ar_config a), OptOutput (ar_output_path a), OptReport (ar_report_path a)]
     @ (case ar_capdl_json_path a of Some v \<Rightarrow> [OptCapdlJson v] | None \<Rightarrow> [])
     @ (case ar_viper_output_dir a of Some v \<Rightarrow> [OptViper v] | None \<Rightarrow> [])
     @ [OptSearch (ar_search_paths a)]
     @ (if ar_requested_image_type a = ReqUnspecified then [] else [OptImage (ar_requested_image_type a)])
     @ (case ar_override_kernel a of Some v \<Rightarrow> [OptKernel v] | None \<Rightarrow> [])"

lemma set_options_of:
  "fold set_option (options_of a) (args_initial\<lparr>as_sdf_path := Some (ar_sdf_path a)\<rparr>)
     = \<lparr>as_output_path = ar_output_path a, as_report_path = ar_report_path a, as_capdl_json_path = ar_capdl_json_path a,
        as_viper_output_dir = ar_viper_output_dir a, as_search_paths = ar_search_paths a, as_sdf_path = Some (ar_sdf_path a),
        as_board = Some (ar_board a), as_config = Some (ar_config a),
        as_requested_image_type = ar_requested_image_type a, as_override_kernel = ar_override_kernel a\<rparr>"
  by (simp add: options_of_def args_initial_def split: option.splits)

text \<open>Two options of one command line set different variables, so their order does not matter.\<close>

fun variable_of :: "cli_option \<Rightarrow> nat" where
  "variable_of (OptBoard _) = 0"
| "variable_of (OptConfig _) = 1"
| "variable_of (OptOutput _) = 2"
| "variable_of (OptReport _) = 3"
| "variable_of (OptCapdlJson _) = 4"
| "variable_of (OptViper _) = 5"
| "variable_of (OptSearch _) = 6"
| "variable_of (OptImage _) = 7"
| "variable_of (OptKernel _) = 8"

lemma set_option_other: "variable_of x \<noteq> variable_of y \<Longrightarrow> set_option x (set_option y st) = set_option y (set_option x st)"
  by (cases x; cases y; simp)

lemma variables_differ:
  assumes "x \<in> set (options_of a)" "y \<in> set (options_of a)" "variable_of x = variable_of y"
  shows "x = y"
proof -
  have "distinct (map variable_of (options_of a))" by (simp add: options_of_def split: option.splits)
  then have "inj_on variable_of (set (options_of a))" by (simp add: distinct_map)
  from inj_onD [OF this assms(3,1,2)] show ?thesis .
qed

lemma set_option_commute:
  assumes "x \<in> set (options_of a)" "y \<in> set (options_of a)"
  shows "set_option x \<circ> set_option y = set_option y \<circ> set_option x"
proof (cases "x = y")
  case False
  with variables_differ [OF assms] have "variable_of x \<noteq> variable_of y" by blast
  from set_option_other [OF this] show ?thesis by (simp add: fun_eq_iff)
qed simp

lemma set_options_permuted:
  assumes "mset opts = mset (options_of a)"
  shows "fold set_option opts st = fold set_option (options_of a) st"
proof -
  have "fold set_option opts = fold set_option (options_of a)"
    by (rule fold_multiset_equiv) (use assms set_option_commute mset_eq_setD [OF assms] in auto)
  then show ?thesis by simp
qed

definition positional :: "string \<Rightarrow> bool" where
  "positional v \<longleftrightarrow> \<not> starts_dash v"

lemma positional_no_option: "positional (CHR ''-'' # v) = False"
  by (simp add: positional_def starts_dash_def)

lemma parse_positional:
  assumes "positional v" "as_sdf_path st = None"
  shows "parse_loop s st (v # left) = parse_loop s (st\<lparr>as_sdf_path := Some v\<rparr>) left"
proof -
  have "v \<noteq> CHR ''-'' # w" for w using assms(1) positional_no_option by metis
  then have "parse_arg s st v left = Inr (st\<lparr>as_sdf_path := Some v\<rparr>, left)"
    using assms(2) by (simp add: parse_arg_def)
  then show ?thesis by simp
qed

lemma initial_no_path: "as_sdf_path args_initial = None"
  by (simp add: args_initial_def)

section \<open>Reading a command line back\<close>

text \<open>C38: A command line with the system description first and then, in any order, the options that write out some
  arguments is parsed to exactly these arguments, when the SDK has the board and the configuration.  In the order
  of the usage message, with the system description after the search paths, it is refused: the description is taken
  for one more search path.\<close>

theorem args_parse_written:
  assumes "mset opts = mset (options_of a)" and "positional (ar_sdf_path a)"
    and "available_boards_contains s (ar_board a)" and "sdk_select s (ar_board a) (ar_config a) \<noteq> None"
    and "list_all (\<lambda>v. \<not> starts_dash v) (ar_search_paths a)"
  shows "args_parse (exe # ar_sdf_path a # concat (map written opts)) s = Inr a
    \<and> args_parse (exe # [''--board'', ar_board a, ''--config'', ar_config a, ''--search-path'']
         @ ar_search_paths a @ [ar_sdf_path a]) s = Inl (Err (MissingRequiredArguments [''system'']))"
proof
  have "\<forall>x \<in> set (options_of a). can_take s x"
    using assms(3,5) by (auto simp: options_of_def split: option.splits)
  then have "list_all (can_take s) opts" using mset_eq_setD [OF assms(1)] by (simp add: list_all_iff)
  then show "args_parse (exe # ar_sdf_path a # concat (map written opts)) s = Inr a"
    using parse_positional [OF assms(2), of args_initial s "concat (map written opts)"] assms(4)
    by (simp add: args_parse_def initial_no_path parse_all_written set_options_permuted [OF assms(1)] set_options_of
        args_finish_def missing_args_def del: parse_loop.simps)
  let ?opts = "[OptBoard (ar_board a), OptConfig (ar_config a), OptSearch (ar_search_paths a @ [ar_sdf_path a])]"
  have "list_all (can_take s) ?opts" using assms(2,3,5) by (simp add: positional_def)
  from parse_all_written [OF this, of args_initial]
  show "args_parse (exe # [''--board'', ar_board a, ''--config'', ar_config a, ''--search-path'']
         @ ar_search_paths a @ [ar_sdf_path a]) s = Inl (Err (MissingRequiredArguments [''system'']))"
    by (simp add: args_parse_def args_finish_def missing_args_def args_initial_def)
qed

definition example_sdk :: sdk where
  "example_sdk = \<lparr>sdk_exe_path = ''/sdk/bin/microkit'', sdk_cwd = ''/home'',
     sdk_available_boards = [\<lparr>bi_name = ''odroidc4'', bi_dir = ''/sdk/board/odroidc4''\<rparr>],
     sdk_available_configs = [\<lparr>ac_board_name = ''odroidc4'', ac_board_dir = ''/sdk/board/odroidc4'',
       ac_config_name = ''debug'', ac_config_dir = ''/sdk/board/odroidc4/debug''\<rparr>]\<rparr>"

definition example_args :: args where
  "example_args = \<lparr>ar_sdf_path = ''hello.system'', ar_board = ''odroidc4'', ar_config = ''debug'',
     ar_report_path = ''report.txt'', ar_capdl_json_path = None, ar_viper_output_dir = None,
     ar_output_path = ''loader.img'', ar_search_paths = [''build''], ar_requested_image_type = ReqUimage,
     ar_override_kernel = None\<rparr>"

theorem args_parse_written_witness:
  "args_parse [''microkit'', ''hello.system'', ''--board'', ''odroidc4'', ''--config'', ''debug'', ''--output'', ''loader.img'',
     ''--report'', ''report.txt'', ''--search-path'', ''build'', ''--image-type'', ''uimage''] example_sdk = Inr example_args
   \<and> args_parse [''microkit'', ''--board'', ''odroidc4'', ''--config'', ''debug'', ''--search-path'', ''build'', ''hello.system'']
       example_sdk = Inl (Err (MissingRequiredArguments [''system'']))"
  using args_parse_written [of "options_of example_args" example_args example_sdk "''microkit''"]
  by (simp add: options_of_def example_args_def example_sdk_def positional_def starts_dash_def
      available_boards_contains_def sdk_select_def)

end
