(* ===== verification/Kernel_Settings.thy ===== *)
theory Kernel_Settings
  imports Argparse Sel4_Config
begin

text \<open>
  The settings that \<open>tool/microkit/src/main.rs\<close> works out before it reads the system: the type of the image and the
  configuration of the kernel, from the JSON files of the SDK.  The JSON library is the parameter \<open>json_api\<close>: the
  lookup of a field, and the conversions of a value.
\<close>

section \<open>The type of the image\<close>

datatype image_output_type = OutBinary | OutElf | OutUimage

definition default_from_arch_and_board :: "arch \<Rightarrow> string \<Rightarrow> image_output_type" where
  "default_from_arch_and_board a board_name =
     (if board_name \<in> {''ariane'', ''cheshire'', ''serengeti''} then OutElf
      else case a of Aarch64 \<Rightarrow> OutBinary | Riscv64 \<Rightarrow> OutUimage | X86_64 \<Rightarrow> OutElf)"

definition image_output_type_resolve :: "requested_image_type \<Rightarrow> arch \<Rightarrow> string \<Rightarrow> image_output_type option" where
  "image_output_type_resolve requested a board_name = (case requested of
      ReqBinary \<Rightarrow> (case a of X86_64 \<Rightarrow> None | _ \<Rightarrow> Some OutBinary)
    | ReqElf \<Rightarrow> Some OutElf
    | ReqUimage \<Rightarrow> (case a of Riscv64 \<Rightarrow> Some OutUimage | _ \<Rightarrow> None)
    | ReqUnspecified \<Rightarrow> Some (default_from_arch_and_board a board_name))"

section \<open>Fields of a JSON object\<close>

record 'j json_api =
  js_get :: "'j \<Rightarrow> string \<Rightarrow> 'j option"
  js_as_str :: "'j \<Rightarrow> string option"
  js_as_bool :: "'j \<Rightarrow> bool option"

text \<open>The error is the name of the field that does not exist.\<close>

definition json_str :: "'j json_api \<Rightarrow> 'j \<Rightarrow> string \<Rightarrow> (string, string) res" where
  "json_str api json field = (case js_get api json field of
      Some value \<Rightarrow> (case js_as_str api value of Some s \<Rightarrow> Inr s | None \<Rightarrow> Inl (Panic ExplicitPanic))
    | None \<Rightarrow> Inl (Err field))"

definition json_str_as_u64 :: "'j json_api \<Rightarrow> 'j \<Rightarrow> string \<Rightarrow> (string, u64) res" where
  "json_str_as_u64 api json field = (case js_get api json field of
      Some value \<Rightarrow> (case js_as_str api value of
          Some s \<Rightarrow> (case u64_from_str_radix 10 s of Some n \<Rightarrow> Inr n | None \<Rightarrow> Inl (Panic ExplicitPanic))
        | None \<Rightarrow> Inl (Panic ExplicitPanic))
    | None \<Rightarrow> Inl (Err field))"

definition json_str_as_bool :: "'j json_api \<Rightarrow> 'j \<Rightarrow> string \<Rightarrow> (string, bool) res" where
  "json_str_as_bool api json field = (case js_get api json field of
      Some value \<Rightarrow> (case js_as_bool api value of Some b \<Rightarrow> Inr b | None \<Rightarrow> Inl (Panic ExplicitPanic))
    | None \<Rightarrow> Inl (Err field))"

section \<open>The configuration of the kernel\<close>

definition config_arch :: "'j json_api \<Rightarrow> 'j \<Rightarrow> (string, arch) res" where
  "config_arch api json =
     bindr (json_str api json ''SEL4_ARCH'') (\<lambda>s.
       if s = ''aarch64'' then Inr Aarch64 else if s = ''riscv64'' then Inr Riscv64
       else if s = ''x86_64'' then Inr X86_64 else Inl (Panic ExplicitPanic))"

definition config_hypervisor :: "'j json_api \<Rightarrow> 'j \<Rightarrow> arch \<Rightarrow> (string, bool) res" where
  "config_hypervisor api json a = (case a of
      Aarch64 \<Rightarrow> json_str_as_bool api json ''ARM_HYPERVISOR_SUPPORT''
    | X86_64 \<Rightarrow> json_str_as_bool api json ''VTX''
    | _ \<Rightarrow> Inr False)"

definition config_arm_pa_size_bits :: "'j json_api \<Rightarrow> 'j \<Rightarrow> arch \<Rightarrow> (string, nat option) res" where
  "config_arm_pa_size_bits api json a = (case a of
      Aarch64 \<Rightarrow>
        bindr (json_str_as_bool api json ''ARM_PA_SIZE_BITS_40'') (\<lambda>b40.
        if b40 then Inr (Some 40)
        else bindr (json_str_as_bool api json ''ARM_PA_SIZE_BITS_44'') (\<lambda>b44.
             if b44 then Inr (Some 44) else Inl (Panic ExplicitPanic)))
    | _ \<Rightarrow> Inr None)"

definition config_arm_smc :: "'j json_api \<Rightarrow> 'j \<Rightarrow> arch \<Rightarrow> (string, bool option) res" where
  "config_arm_smc api json a = (case a of
      Aarch64 \<Rightarrow> bindr (json_str_as_bool api json ''ALLOW_SMC_CALLS'') (\<lambda>b. Inr (Some b))
    | _ \<Rightarrow> Inr None)"

definition config_kernel_frame_size :: "arch \<Rightarrow> u64" where
  "config_kernel_frame_size a = (case a of Aarch64 \<Rightarrow> shl 1 12 | Riscv64 \<Rightarrow> shl 1 21 | X86_64 \<Rightarrow> shl 1 12)"

definition config_num_cores :: "'j json_api \<Rightarrow> 'j \<Rightarrow> (string, u8) res" where
  "config_num_cores api json =
     bindr (json_str_as_bool api json ''ENABLE_SMP_SUPPORT'') (\<lambda>smp.
       if smp then bindr (json_str_as_u64 api json ''MAX_NUM_NODES'') (\<lambda>n.
            if n < 256 then Inr (ucast n) else Inl (Panic UnwrapFailed))
       else Inr 1)"

text \<open>The configuration, in the order in which the code looks the fields up; the sizes of the objects and the regions
  of memory come from files of their own.\<close>

definition kernel_config_from ::
    "'j json_api \<Rightarrow> 'j \<Rightarrow> string \<Rightarrow> arch
      \<Rightarrow> (platform_config_region list \<times> platform_config_region list) option \<Rightarrow> object_sizes option
      \<Rightarrow> (string, config) res" where
  "kernel_config_from api json config_name a platform sizes =
     bindr (config_hypervisor api json a) (\<lambda>hyp.
     bindr (config_arm_pa_size_bits api json a) (\<lambda>pa_bits.
     bindr (config_arm_smc api json a) (\<lambda>smc.
     bindr (json_str_as_u64 api json ''WORD_SIZE'') (\<lambda>word_sz.
     bindr (json_str_as_u64 api json ''PADDR_USER_DEVICE_TOP'') (\<lambda>device_top.
     bindr (json_str_as_u64 api json ''ROOT_CNODE_SIZE_BITS'') (\<lambda>cnode_bits.
     bindr (json_str_as_u64 api json ''RETYPE_FAN_OUT_LIMIT'') (\<lambda>fan_out.
     bindr (json_str_as_u64 api json ''MAX_NUM_BOOTINFO_UNTYPED_CAPS'') (\<lambda>max_untypeds.
     bindr (config_num_cores api json) (\<lambda>cores.
     bindr (json_str_as_bool api json ''HAVE_FPU'') (\<lambda>has_fpu.
       Inr \<lparr>arch = a, word_size = word_sz, minimum_page_size = 4096, paddr_user_device_top = device_top,
            kernel_frame_size = config_kernel_frame_size a, init_cnode_bits = cnode_bits, cap_address_bits = 64,
            fan_out_limit = fan_out, max_num_bootinfo_untypeds = max_untypeds, hypervisor = hyp,
            benchmark = (config_name = ''benchmark''), num_cores = cores, fpu = has_fpu, arm_pa_size_bits = pa_bits,
            arm_smc = smc, riscv_pt_levels = Some Sv39, object_sizes = sizes,
            device_regions = map_option fst platform, normal_regions = map_option snd platform\<rparr>))))))))))"

section \<open>What the configuration can be relied on for\<close>

lemma json_missing:
  "json_str api json field = Inl (Err e) \<Longrightarrow> js_get api json e = None"
  "json_str_as_u64 api json field = Inl (Err e) \<Longrightarrow> js_get api json e = None"
  "json_str_as_bool api json field = Inl (Err e) \<Longrightarrow> js_get api json e = None"
  by (auto simp: json_str_def json_str_as_u64_def json_str_as_bool_def split: option.splits)

lemma bindr_eq_Err: "bindr r f = Inl (Err e) \<longleftrightarrow> r = Inl (Err e) \<or> (\<exists>x. r = Inr x \<and> f x = Inl (Err e))"
  by (cases r) (auto simp: bindr_def)

lemma config_missing:
  "config_hypervisor api json a = Inl (Err e) \<Longrightarrow> js_get api json e = None"
  "config_arm_pa_size_bits api json a = Inl (Err e) \<Longrightarrow> js_get api json e = None"
  "config_arm_smc api json a = Inl (Err e) \<Longrightarrow> js_get api json e = None"
  "config_num_cores api json = Inl (Err e) \<Longrightarrow> js_get api json e = None"
  by (auto simp: config_hypervisor_def config_arm_pa_size_bits_def config_arm_smc_def config_num_cores_def bindr_eq_Err
      split: arch.splits if_splits dest: json_missing)

text \<open>C40: The configuration that the tool makes has what the code that reads it takes for granted: on ARM the number
  of address bits is one of the two that the layout of the address space knows and the setting for SMC calls is there,
  so that the top of the user space, the base of the kernel and the number of levels of the tables are values and never
  a panic; the pages are of 4 KiB; the regions of memory are there exactly if the platform file was read; and only the
  configuration called benchmark counts as one.  When no configuration is made for want of a field, that field is not
  in the file.\<close>

theorem kernel_config_ok:
  "case kernel_config_from api json config_name a platform sizes of
      Inr cfg \<Rightarrow> arch cfg = a \<and> minimum_page_size cfg = 4096
        \<and> (\<exists>utop. user_vspace_top cfg = (Inr utop :: ('e, u64) res))
        \<and> (\<exists>base. virtual_base cfg = (Inr base :: ('e, u64) res))
        \<and> num_page_table_levels cfg = (Inr (if a = Riscv64 then 3 else 4) :: ('e, nat) res)
        \<and> (if a = Aarch64
           then arm_pa_size_bits cfg \<in> {Some 40, Some 44} \<and> arm_smc cfg \<noteq> None
             \<and> aarch64_vspace_s2_start_l1 cfg = (Inr (hypervisor cfg \<and> arm_pa_size_bits cfg = Some 40) :: ('e, bool) res)
           else arm_pa_size_bits cfg = None \<and> arm_smc cfg = None)
        \<and> (normal_regions cfg \<noteq> None \<longleftrightarrow> platform \<noteq> None) \<and> (device_regions cfg \<noteq> None \<longleftrightarrow> platform \<noteq> None)
        \<and> (benchmark cfg \<longleftrightarrow> config_name = ''benchmark'')
    | Inl (Err field) \<Rightarrow> js_get api json field = None
    | Inl (Panic _) \<Rightarrow> True"
proof (cases "kernel_config_from api json config_name a platform sizes")
  case (Inl e)
  then show ?thesis
    by (cases e) (auto simp: kernel_config_from_def bindr_eq_Err dest: json_missing config_missing)
next
  case (Inr cfg)
  then obtain hyp pa_bits smc where c: "arch cfg = a" "hypervisor cfg = hyp" "arm_pa_size_bits cfg = pa_bits" "arm_smc cfg = smc"
    "minimum_page_size cfg = 4096" "riscv_pt_levels cfg = Some Sv39" "benchmark cfg = (config_name = ''benchmark'')"
    "device_regions cfg = map_option fst platform" "normal_regions cfg = map_option snd platform"
    and p: "config_arm_pa_size_bits api json a = Inr pa_bits" and s: "config_arm_smc api json a = Inr smc"
    unfolding kernel_config_from_def bindr_eq_Inr by (elim exE conjE) (simp only: sum.inject, auto)
  have "if a = Aarch64 then pa_bits \<in> {Some 40, Some 44} \<and> smc \<noteq> None else pa_bits = None \<and> smc = None"
    using p s by (cases a) (auto simp: config_arm_pa_size_bits_def config_arm_smc_def bindr_eq_Inr split: if_splits)
  with c show ?thesis
    unfolding Inr
    by (cases a) (simp add: user_vspace_top_def virtual_base_def num_page_table_levels_def levels_def
        aarch64_vspace_s2_start_l1_def; elim conjE disjE; simp)+
qed

end
