(* ===== verification/Sdf_Check.thy ===== *)
theory Sdf_Check
  imports Sdf_Flatten
begin

text \<open>
  \<open>parse\<close> of \<open>tool/microkit/src/sdf.rs\<close>: the walk over the system element, the channels, and the
  checks of the whole system, in the order of the code.  The XML document is given as the library
  parsed it (or its error), the file system by two functions.  Warnings are not modelled.
\<close>

section \<open>Text\<close>

function check_no_text :: "xml_node \<Rightarrow> unit sdf_res" where
  "check_no_text (XmlNode kind tag atts kids text_maybe tail_maybe pos) =
     (if (case text_maybe of Some text \<Rightarrow> trim text \<noteq> [] | None \<Rightarrow> False)
      then Inl (Err (UnexpectedText tag pos))
      else if tail_maybe \<noteq> None then Inl (Err (UnexpectedTail tag pos))
      else foldM (\<lambda>_ child. if \<not> is_comment child \<and> \<not> is_element child then check_no_text child else Inr ())
             () kids)"
  by pat_completeness auto

termination
proof (relation "measure size", goal_cases)
  case (2 kind tag atts kids text_maybe tail_maybe pos u child)
  then show ?case using size_child [of child "XmlNode kind tag atts kids text_maybe tail_maybe pos"] by simp
qed simp

declare check_no_text.simps [simp del]

section \<open>The system element\<close>

record system_nodes =
  sn_root_pds :: "pd_tree list"
  sn_mrs :: "sys_memory_region list"
  sn_channel_nodes :: "xml_node list"

definition parse_system_child ::
    "(string \<Rightarrow> bool) \<Rightarrow> (string \<Rightarrow> u8 list option) \<Rightarrow> config \<Rightarrow> string list \<Rightarrow> system_nodes \<Rightarrow> xml_node
      \<Rightarrow> system_nodes sdf_res" where
  "parse_system_child path_exists fs_read cfg search_paths acc child =
     (if \<not> is_element child then Inr acc
      else if tag_name child = ''protection_domain''
      then bindr (protection_domain_from_xml cfg child False) (\<lambda>t.
             Inr (acc\<lparr>sn_root_pds := sn_root_pds acc @ [t]\<rparr>))
      else if tag_name child = ''channel''
      then Inr (acc\<lparr>sn_channel_nodes := sn_channel_nodes acc @ [child]\<rparr>)
      else if tag_name child = ''memory_region''
      then bindr (sys_memory_region_from_xml path_exists fs_read cfg search_paths child) (\<lambda>mr.
             Inr (acc\<lparr>sn_mrs := sn_mrs acc @ [mr]\<rparr>))
      else if tag_name child = ''virtual_machine'' then Inl (Err (VmOutsidePd (node_pos child)))
      else Inl (Err (InvalidElement (tag_name child) (node_pos child))))"

section \<open>Channels and capability maps\<close>

definition add_end_setvar ::
    "channel_end \<Rightarrow> xml_node \<Rightarrow> protection_domain list \<Rightarrow> protection_domain list sdf_res" where
  "add_end_setvar e node pds = (case ce_setvar_id e of
      None \<Rightarrow> Inr pds
    | Some symbol \<Rightarrow>
        bindr (nthr pds (ce_pd e)) (\<lambda>pd.
        bindr (checked_add_setvar (pd_setvars pd) \<lparr>sv_symbol = symbol, sv_kind = SvId (ce_id e)\<rparr> node) (\<lambda>setvars.
          Inr (pds[ce_pd e := pd\<lparr>pd_setvars := setvars\<rparr>]))))"

definition parse_channel ::
    "protection_domain list \<times> channel list \<Rightarrow> xml_node \<Rightarrow> (protection_domain list \<times> channel list) sdf_res" where
  "parse_channel acc node =
     (let (pds, channels) = acc
      in bindr (channel_from_xml pds node) (\<lambda>ch.
         bindr (add_end_setvar (end_a ch) node pds) (\<lambda>pds.
         bindr (add_end_setvar (end_b ch) node pds) (\<lambda>pds.
           Inr (pds, channels @ [ch])))))"

text \<open>The map from names to indices: of two equal names the later one wins.\<close>

definition pd_names_to_id :: "protection_domain list \<Rightarrow> string \<Rightarrow> nat option" where
  "pd_names_to_id pds = map_of (rev (map (\<lambda>(i, pd). (pd_name pd, i)) (enumerate 0 pds)))"

definition fill_cap_map :: "(string \<Rightarrow> nat option) \<Rightarrow> cap_map \<Rightarrow> cap_map sdf_res" where
  "fill_cap_map names cm = (case names (cm_pd_name cm) of
      None \<Rightarrow> Inl (Err (UnknownCapPd (cm_pd_name cm) (cm_text_pos cm)))
    | Some i \<Rightarrow> Inr (cm\<lparr>cm_pd := Some i\<rparr>))"

definition fill_cap_maps :: "protection_domain list \<Rightarrow> protection_domain list sdf_res" where
  "fill_cap_maps pds =
     mapM (\<lambda>pd. bindr (mapM (fill_cap_map (pd_names_to_id pds)) (pd_cap_maps pd)) (\<lambda>cms.
             Inr (pd\<lparr>pd_cap_maps := cms\<rparr>))) pds"

section \<open>Names\<close>

definition check_pd_count :: "protection_domain list \<Rightarrow> unit sdf_res" where
  "check_pd_count pds =
     (if pds = [] then Inl (Err NoPds)
      else if length pds > MAX_PDS then Inl (Err (TooManyPds (length pds)))
      else Inr ())"

definition check_pd_names :: "protection_domain list \<Rightarrow> unit sdf_res" where
  "check_pd_names pds =
     forM (\<lambda>pd.
       if length (filter (\<lambda>x. pd_name pd = pd_name x) pds) > 1
       then Inl (Err (DuplicatePdName (pd_name pd)))
       else if pd_name pd = MONITOR_PD_NAME then Inl (Err ReservedPdName)
       else Inr ()) pds"

definition check_mr_names :: "sys_memory_region list \<Rightarrow> unit sdf_res" where
  "check_mr_names mrs =
     forM (\<lambda>mr.
       if length (filter (\<lambda>x. smr_name mr = smr_name x) mrs) > 1
       then Inl (Err (DuplicateMrName (smr_name mr)))
       else Inr ()) mrs"

text \<open>An error that reports the position of a protection domain.\<close>

definition pd_err :: "protection_domain \<Rightarrow> (text_pos \<Rightarrow> sdf_error) \<Rightarrow> 'a sdf_res" where
  "pd_err pd f = bindr (unwrapr (pd_text_pos pd)) (\<lambda>pos. Inl (Err (f pos)))"

definition check_vms :: "config \<Rightarrow> protection_domain list \<Rightarrow> string list sdf_res" where
  "check_vms cfg pds =
     foldM (\<lambda>vms pd.
       bindr (case pd_virtual_machine pd of
                Some vm \<Rightarrow>
                  if vm_name vm \<in> set vms then Inl (Err (DuplicateVmName (vm_name vm)))
                  else Inr (vms @ [vm_name vm])
              | None \<Rightarrow> Inr vms) (\<lambda>vms.
       if arch cfg = X86_64 \<and> pd_virtual_machine pd \<noteq> None \<and> pd_has_children pd
       then pd_err pd (VmWithChildrenX86 (pd_name pd))
       else Inr vms)) [] pds"

section \<open>Interrupts and channels\<close>

definition check_irqs :: "protection_domain list \<Rightarrow> u64 list sdf_res" where
  "check_irqs pds =
     foldM (\<lambda>all_irqs pd.
       foldM (\<lambda>all_irqs sysirq.
         if irq_num sysirq \<in> set all_irqs then pd_err pd (DuplicateIrq (irq_num sysirq) (pd_name pd))
         else Inr (all_irqs @ [irq_num sysirq])) all_irqs (pd_irqs pd)) [] pds"

definition push_at :: "nat \<Rightarrow> 'a \<Rightarrow> 'a list list \<Rightarrow> ('e, 'a list list) res" where
  "push_at i x xss = bindr (nthr xss i) (\<lambda>xs. Inr (xss[i := xs @ [x]]))"

definition check_irq_ids :: "protection_domain list \<Rightarrow> u64 list list sdf_res" where
  "check_irq_ids pds =
     foldM (\<lambda>ch_ids (pd_idx, pd).
       foldM (\<lambda>ch_ids sysirq.
         bindr (nthr ch_ids pd_idx) (\<lambda>ids.
         if irq_id sysirq \<in> set ids then pd_err pd (DuplicateChannelId (irq_id sysirq) (pd_name pd))
         else push_at pd_idx (irq_id sysirq) ch_ids)) ch_ids (pd_irqs pd))
       (replicate (length pds) []) (enumerate 0 pds)"

definition check_end_id ::
    "protection_domain list \<Rightarrow> u64 list list \<Rightarrow> channel_end \<Rightarrow> unit sdf_res" where
  "check_end_id pds ch_ids e =
     bindr (nthr ch_ids (ce_pd e)) (\<lambda>ids.
     if ce_id e \<in> set ids
     then bindr (nthr pds (ce_pd e)) (\<lambda>pd. pd_err pd (DuplicateChannelId (ce_id e) (pd_name pd)))
     else Inr ())"

definition check_ppc :: "config \<Rightarrow> channel \<Rightarrow> protection_domain \<Rightarrow> protection_domain \<Rightarrow> unit sdf_res" where
  "check_ppc cfg ch pd_a pd_b =
     bindr (if ce_pp (end_a ch) \<and> pd_priority pd_a \<ge> pd_priority pd_b
            then Inl (Err (PpcPriority (pd_name pd_a) (pd_priority pd_a) (pd_name pd_b) (pd_priority pd_b)))
            else if ce_pp (end_b ch) \<and> pd_priority pd_b \<ge> pd_priority pd_a
            then Inl (Err (PpcPriority (pd_name pd_b) (pd_priority pd_b) (pd_name pd_a) (pd_priority pd_a)))
            else Inr ()) (\<lambda>_.
     if arch cfg = X86_64
        \<and> ((ce_pp (end_a ch) \<and> pd_virtual_machine pd_b \<noteq> None)
           \<or> (ce_pp (end_b ch) \<and> pd_virtual_machine pd_a \<noteq> None))
     then pd_err pd_a (PpcToVmX86 (if ce_pp (end_a ch) then pd_name pd_b else pd_name pd_a)
                                  (if ce_pp (end_a ch) then pd_name pd_a else pd_name pd_b))
     else Inr ())"

definition check_channel ::
    "config \<Rightarrow> protection_domain list \<Rightarrow> u64 list list \<Rightarrow> channel \<Rightarrow> u64 list list sdf_res" where
  "check_channel cfg pds ch_ids ch =
     bindr (check_end_id pds ch_ids (end_a ch)) (\<lambda>_.
     bindr (check_end_id pds ch_ids (end_b ch)) (\<lambda>_.
     bindr (nthr pds (ce_pd (end_a ch))) (\<lambda>pd_a.
     bindr (nthr pds (ce_pd (end_b ch))) (\<lambda>pd_b.
     bindr (check_ppc cfg ch pd_a pd_b) (\<lambda>_.
     bindr (push_at (ce_pd (end_a ch)) (ce_id (end_a ch)) ch_ids) (\<lambda>ch_ids.
       push_at (ce_pd (end_b ch)) (ce_id (end_b ch)) ch_ids))))))"

section \<open>I/O ports\<close>

definition check_ioport_ids :: "protection_domain list \<Rightarrow> unit sdf_res" where
  "check_ioport_ids pds =
     forM (\<lambda>pd.
       bindr (foldM (\<lambda>seen port.
                if iop_id port \<in> set seen then pd_err pd (DuplicateIoPortId (iop_id port) (pd_name pd))
                else Inr (seen @ [iop_id port])) [] (pd_ioports pd)) (\<lambda>_. Inr ())) pds"

definition ioport_range :: "ioport \<Rightarrow> u64 \<times> u64" where
  "ioport_range port = (iop_addr port, iop_addr port + iop_size port)"

definition check_ioports :: "protection_domain list \<Rightarrow> (string \<times> ioport) list sdf_res" where
  "check_ioports pds =
     foldM (\<lambda>seen pd.
       foldM (\<lambda>seen this_port.
         case find (\<lambda>(_, seen_port). ranges_overlap (ioport_range this_port) (ioport_range seen_port)) seen of
           Some (seen_pd_name, seen_port) \<Rightarrow>
             Inl (Err (IoPortOverlap (iop_id this_port) (pd_name pd) (iop_id seen_port) seen_pd_name))
         | None \<Rightarrow> Inr (seen @ [(pd_name pd, this_port)])) seen (pd_ioports pd)) [] pds"

section \<open>Mappings\<close>

definition check_map ::
    "sys_memory_region list \<Rightarrow> string \<Rightarrow> string \<Rightarrow> (string \<times> u64 \<times> u64) list \<Rightarrow> sys_map
      \<Rightarrow> (string \<times> u64 \<times> u64) list sdf_res" where
  "check_map mrs kind name checked_maps m =
     bindr (unwrapr (sm_text_pos m)) (\<lambda>pos.
     case find (\<lambda>mr. smr_name mr = sm_mr m) mrs of
       None \<Rightarrow> Inl (Err (UnknownMapRegion (sm_mr m) pos))
     | Some mr \<Rightarrow>
         if \<not> is_multiple_of (sm_vaddr m) (page_size_bytes mr) then Inl (Err (MapMisaligned pos))
         else let map_start = sm_vaddr m;
                  map_end = sm_vaddr m + smr_size mr
              in case find (\<lambda>(_, start, end). \<not> (map_start \<ge> end \<or> map_end \<le> start)) checked_maps of
                   Some (other, start, end) \<Rightarrow>
                     Inl (Err (MapOverlap (sm_mr m) map_start map_end other start end kind name pos))
                 | None \<Rightarrow> Inr (checked_maps @ [(sm_mr m, map_start, map_end)]))"

definition check_maps ::
    "sys_memory_region list \<Rightarrow> string \<Rightarrow> string \<Rightarrow> sys_map list \<Rightarrow> unit sdf_res" where
  "check_maps mrs kind name maps =
     bindr (foldM (check_map mrs kind name) [] maps) (\<lambda>_. Inr ())"

definition check_pd_maps :: "sys_memory_region list \<Rightarrow> protection_domain \<Rightarrow> unit sdf_res" where
  "check_pd_maps mrs pd =
     bindr (check_maps mrs ''protection domain'' (pd_name pd) (pd_maps pd)) (\<lambda>_.
       case pd_virtual_machine pd of
         Some vm \<Rightarrow> check_maps mrs ''virtual machine'' (vm_name vm) (vm_maps vm)
       | None \<Rightarrow> Inr ())"

text \<open>Two capability maps into one slot; which of several such slots the message names depends on
  the order of a hash map, so only the domain is kept.\<close>

definition check_cap_slots :: "protection_domain \<Rightarrow> unit sdf_res" where
  "check_cap_slots pd =
     (if distinct (map cm_slot (pd_cap_maps pd)) then Inr ()
      else Inl (Err (OverlappingCapSlots (pd_name pd))))"

section \<open>Memory regions\<close>

definition check_mr_paddr ::
    "(string \<times> u64 \<times> u64) list \<Rightarrow> sys_memory_region \<Rightarrow> (string \<times> u64 \<times> u64) list sdf_res" where
  "check_mr_paddr checked_mrs mr = (case smr_phys_addr mr of
      Specified sdf_paddr \<Rightarrow>
        let mr_start = sdf_paddr;
            mr_end = sdf_paddr + smr_size mr
        in (case find (\<lambda>(_, start, end). \<not> (mr_start \<ge> end \<or> mr_end \<le> start)) checked_mrs of
              Some (other, start, end) \<Rightarrow>
                bindr (unwrapr (smr_text_pos mr)) (\<lambda>pos.
                  Inl (Err (MrPaddrOverlap (smr_name mr) mr_start mr_end other start end pos)))
            | None \<Rightarrow> Inr (checked_mrs @ [(smr_name mr, mr_start, mr_end)]))
    | _ \<Rightarrow> Inr checked_mrs)"

definition pd_all_maps :: "protection_domain \<Rightarrow> sys_map list" where
  "pd_all_maps pd = pd_maps pd @ (case pd_virtual_machine pd of Some vm \<Rightarrow> vm_maps vm | None \<Rightarrow> [])"

definition grow_page_size ::
    "u64 list \<Rightarrow> sys_memory_region \<Rightarrow> u64 \<Rightarrow> sys_memory_region sdf_res" where
  "grow_page_size addrs mr larger =
     (if list_ex (\<lambda>addr. \<not> is_multiple_of addr larger) addrs then Inr mr
      else bindr (page_size_from_u64 larger) (\<lambda>pg.
           if page_size_u64 pg = 0 then Inl (Panic DivideByZero)
           else Inr (mr\<lparr>smr_page_size := pg, smr_page_count := smr_size mr div page_size_u64 pg\<rparr>)))"

definition optimise_mr :: "config \<Rightarrow> sys_map list \<Rightarrow> sys_memory_region \<Rightarrow> sys_memory_region sdf_res" where
  "optimise_mr cfg all_maps mr =
     (if smr_page_size_specified mr then Inr mr
      else bindr (optimal_page_size cfg mr) (\<lambda>largest.
           if page_size_bytes mr = largest then Inr mr
           else let addrs = map sm_vaddr (filter (\<lambda>m. sm_mr m = smr_name mr) all_maps)
                              @ (case smr_phys_addr mr of Specified p \<Rightarrow> [p] | _ \<Rightarrow> []);
                    larger_page_sizes =
                      rev (filter (\<lambda>p. p > page_size_bytes mr) [fst (page_sizes cfg), snd (page_sizes cfg)])
                in foldM (grow_page_size addrs) mr larger_page_sizes))"

section \<open>Regions whose address a symbol needs\<close>

definition check_prefill_setvar ::
    "sys_memory_region list \<Rightarrow> sys_set_var \<Rightarrow> unit sdf_res" where
  "check_prefill_setvar mrs setvar = (case sv_kind setvar of
      SvPrefillSize mr \<Rightarrow>
        (case find (\<lambda>m. smr_name m = mr \<and> smr_prefill_bytes m = None) mrs of
           Some m \<Rightarrow> bindr (unwrapr (smr_text_pos m)) (\<lambda>pos.
                       Inl (Err (PrefillSizeWithoutPrefill (smr_name m) pos)))
         | None \<Rightarrow> Inr ())
    | _ \<Rightarrow> Inr ())"

definition paddr_setvar_names :: "protection_domain list \<Rightarrow> string list" where
  "paddr_setvar_names pds =
     concat (map (\<lambda>pd. concat (map (\<lambda>sv. case sv_kind sv of SvPaddr region \<Rightarrow> [region] | _ \<Rightarrow> [])
                                 (pd_setvars pd))) pds)"

definition mark_tool_allocated ::
    "config \<Rightarrow> string list \<Rightarrow> sys_memory_region \<Rightarrow> sys_memory_region sdf_res" where
  "mark_tool_allocated cfg names mr =
     (if smr_name mr \<in> set names \<and> smr_phys_addr mr = Unspecified
      then (case arch cfg of
              X86_64 \<Rightarrow> bindr (unwrapr (smr_text_pos mr)) (\<lambda>pos.
                          Inl (Err (SetvarPaddrX86 (smr_name mr) pos)))
            | _ \<Rightarrow> Inr (mr\<lparr>smr_phys_addr := ToolAllocated None\<rparr>))
      else Inr mr)"

section \<open>The whole parse\<close>

definition check_system ::
    "config \<Rightarrow> protection_domain list \<Rightarrow> sys_memory_region list \<Rightarrow> channel list \<Rightarrow> unit sdf_res" where
  "check_system cfg pds mrs channels =
     bindr (check_pd_count pds) (\<lambda>_.
     bindr (check_pd_names pds) (\<lambda>_.
     bindr (check_mr_names mrs) (\<lambda>_.
     bindr (check_vms cfg pds) (\<lambda>_.
     bindr (check_irqs pds) (\<lambda>_.
     bindr (check_irq_ids pds) (\<lambda>ch_ids.
     bindr (foldM (check_channel cfg pds) ch_ids channels) (\<lambda>_.
     bindr (check_ioport_ids pds) (\<lambda>_.
     bindr (check_ioports pds) (\<lambda>_.
     bindr (forM (check_pd_maps mrs) pds) (\<lambda>_.
     bindr (forM check_cap_slots pds) (\<lambda>_.
     bindr (foldM check_mr_paddr [] mrs) (\<lambda>_. Inr ()))))))))))))"

definition finish_mrs ::
    "config \<Rightarrow> protection_domain list \<Rightarrow> sys_memory_region list \<Rightarrow> sys_memory_region list sdf_res" where
  "finish_mrs cfg pds mrs =
     (let all_maps = concat (map pd_all_maps pds)
      in bindr (mapM (optimise_mr cfg all_maps) mrs) (\<lambda>mrs.
         bindr (forM (\<lambda>pd. forM (check_prefill_setvar mrs) (pd_setvars pd)) pds) (\<lambda>_.
           mapM (mark_tool_allocated cfg (paddr_setvar_names pds)) mrs)))"

definition sdf_parse ::
    "(string \<Rightarrow> bool) \<Rightarrow> (string \<Rightarrow> u8 list option) \<Rightarrow> string + xml_node list \<Rightarrow> config \<Rightarrow> string list
      \<Rightarrow> system_description sdf_res" where
  "sdf_parse path_exists fs_read doc cfg search_paths =
     (case doc of
        Inl err \<Rightarrow> Inl (Err (XmlParseFailed err))
      | Inr root_children \<Rightarrow>
          bindr (unwrapr (find (\<lambda>c. tag_name c = ''system'') root_children)) (\<lambda>system.
          bindr (check_no_text system) (\<lambda>_.
          bindr (foldM (parse_system_child path_exists fs_read cfg search_paths)
                   \<lparr>sn_root_pds = [], sn_mrs = [], sn_channel_nodes = []\<rparr> (children system)) (\<lambda>nodes.
          bindr (pd_flatten (sn_root_pds nodes)) (\<lambda>pds.
          bindr (foldM parse_channel (pds, []) (sn_channel_nodes nodes)) (\<lambda>(pds, channels).
          bindr (fill_cap_maps pds) (\<lambda>pds.
          bindr (check_system cfg pds (sn_mrs nodes) channels) (\<lambda>_.
          bindr (finish_mrs cfg pds (sn_mrs nodes)) (\<lambda>mrs.
            Inr \<lparr>sd_protection_domains = pds, sd_memory_regions = mrs, sd_channels = channels\<rparr>)))))))))"

end
