(* ===== verification/Sdf_Valid.thy ===== *)
theory Sdf_Valid
  imports Sdf_Check "HOL-Library.Code_Target_Nat"
begin

text \<open>
  What an accepted system description promises: the properties of the result of \<open>sdf_parse\<close> that
  follow from the checks of \<open>Sdf_Check\<close>.  The first part splits the parse into its stages and shows
  what each check establishes; the later parts are the properties.
\<close>

section \<open>Loops that collect\<close>

text \<open>A loop that compares each element with those already collected and then appends it.\<close>

lemma foldM_collect:
  assumes "foldM f s xs = Inr t" and "sorted_wrt R s"
    and step: "\<And>s x t. x \<in> set xs \<Longrightarrow> f s x = Inr t \<Longrightarrow> t = s @ [k x] \<and> (\<forall>y \<in> set s. R y (k x))"
  shows "t = s @ map k xs \<and> sorted_wrt R t"
  using assms(1)
proof (rule foldM_inv_prefix [where I = "\<lambda>xs t. t = s @ map k xs \<and> sorted_wrt R t"])
  show "s = s @ map k [] \<and> sorted_wrt R s" using assms(2) by simp
  fix ys x u t
  assume a: "u = s @ map k ys \<and> sorted_wrt R u" "x \<in> set xs" "f u x = Inr t"
  from step [OF a(2,3)] a(1) show "t = s @ map k (ys @ [x]) \<and> sorted_wrt R t"
    by (auto simp: sorted_wrt_append)
qed

lemma sorted_wrt_neq_iff: "sorted_wrt (\<noteq>) xs \<longleftrightarrow> distinct xs"
  by (induction xs) auto

lemma foldM_collect_distinct:
  assumes "foldM f s xs = Inr t" and "distinct s"
    and "\<And>s x t. x \<in> set xs \<Longrightarrow> f s x = Inr t \<Longrightarrow> t = s @ [k x] \<and> k x \<notin> set s"
  shows "t = s @ map k xs \<and> distinct t"
  using foldM_collect [of f s xs t "(\<noteq>)" k] assms by (metis sorted_wrt_neq_iff)

lemma pd_err_not_Inr [simp]: "pd_err pd f \<noteq> Inr x"
  by (auto simp: pd_err_def bindr_eq_Inr)

lemma filter_count_distinct:
  "(\<forall>x \<in> set xs. \<not> length (filter (\<lambda>y. k x = k y) xs) > 1) \<longleftrightarrow> distinct (map k xs)"
proof (induction xs)
  case (Cons a xs)
  have "length (filter (\<lambda>y. k a = k y) (a # xs)) > 1 \<longleftrightarrow> k a \<in> k ` set xs"
    by (auto simp: filter_empty_conv)
  moreover have "k a \<notin> k ` set xs \<Longrightarrow> x \<in> set xs \<Longrightarrow>
      filter (\<lambda>y. k x = k y) (a # xs) = filter (\<lambda>y. k x = k y) xs" for x
    by (simp add: image_iff) metis
  ultimately show ?case using Cons.IH by auto
qed simp

section \<open>Stages of the parse\<close>

lemma sdf_parse_stages:
  assumes "sdf_parse path_exists fs_read doc cfg search_paths = Inr sys"
  obtains nodes pds0 pds1 where
    "pd_flatten (sn_root_pds nodes) = Inr pds0"
    "foldM parse_channel (pds0, []) (sn_channel_nodes nodes) = Inr (pds1, sd_channels sys)"
    "fill_cap_maps pds1 = Inr (sd_protection_domains sys)"
    "check_system cfg (sd_protection_domains sys) (sn_mrs nodes) (sd_channels sys) = Inr ()"
    "finish_mrs cfg (sd_protection_domains sys) (sn_mrs nodes) = Inr (sd_memory_regions sys)"
    "\<exists>system. foldM (parse_system_child path_exists fs_read cfg search_paths)
        \<lparr>sn_root_pds = [], sn_mrs = [], sn_channel_nodes = []\<rparr> (children system) = Inr nodes"
proof (cases doc)
  case (Inr roots)
  with assms obtain system nodes pds0 pds1 chs pds mrs where s:
    "foldM (parse_system_child path_exists fs_read cfg search_paths)
        \<lparr>sn_root_pds = [], sn_mrs = [], sn_channel_nodes = []\<rparr> (children system) = Inr nodes"
    "pd_flatten (sn_root_pds nodes) = Inr pds0"
    "foldM parse_channel (pds0, []) (sn_channel_nodes nodes) = Inr (pds1, chs)"
    "fill_cap_maps pds1 = Inr pds" "check_system cfg pds (sn_mrs nodes) chs = Inr ()"
    "finish_mrs cfg pds (sn_mrs nodes) = Inr mrs"
    "sys = \<lparr>sd_protection_domains = pds, sd_memory_regions = mrs, sd_channels = chs\<rparr>"
    by (auto simp: sdf_parse_def bindr_eq_Inr)
  show thesis
    by (rule that [of nodes pds0 pds1]) (use s in auto)
qed (use assms in \<open>simp add: sdf_parse_def\<close>)

lemma check_system_facts:
  assumes "check_system cfg pds mrs channels = Inr ()"
  obtains irqs ch_ids ch_ids' vms seen checked where
    "check_pd_count pds = Inr ()" "check_pd_names pds = Inr ()" "check_mr_names mrs = Inr ()"
    "check_vms cfg pds = Inr vms" "check_irqs pds = Inr irqs" "check_irq_ids pds = Inr ch_ids"
    "foldM (check_channel cfg pds) ch_ids channels = Inr ch_ids'" "check_ioport_ids pds = Inr ()"
    "check_ioports pds = Inr seen" "\<And>pd. pd \<in> set pds \<Longrightarrow> check_pd_maps mrs pd = Inr ()"
    "\<And>pd. pd \<in> set pds \<Longrightarrow> check_cap_slots pd = Inr ()" "foldM check_mr_paddr [] mrs = Inr checked"
  using assms that by (auto simp: check_system_def bindr_eq_Inr forM_eq_Inr)

section \<open>Names\<close>

lemma check_pd_names_iff:
  "check_pd_names pds = Inr () \<longleftrightarrow>
     distinct (map pd_name pds) \<and> MONITOR_PD_NAME \<notin> set (map pd_name pds)"
  unfolding check_pd_names_def forM_eq_Inr filter_count_distinct [symmetric]
  by (auto simp: image_iff)

lemma check_mr_names_iff: "check_mr_names mrs = Inr () \<longleftrightarrow> distinct (map smr_name mrs)"
  unfolding check_mr_names_def forM_eq_Inr filter_count_distinct [symmetric] by auto

text \<open>A domain without what the parse fills in after the flattening.\<close>

definition settled :: "protection_domain \<Rightarrow> protection_domain" where
  "settled pd = pd\<lparr>pd_setvars := [], pd_cap_maps := []\<rparr>"

lemma settled_simps [simp]:
  "settled (pd\<lparr>pd_setvars := s\<rparr>) = settled pd" "settled (pd\<lparr>pd_cap_maps := c\<rparr>) = settled pd"
  "pd_parent (settled pd) = pd_parent pd" "pd_id (settled pd) = pd_id pd"
  by (simp_all add: settled_def)

lemma add_end_setvar_settled:
  "add_end_setvar e node ps = Inr qs \<Longrightarrow> map settled qs = map settled ps"
  by (auto simp: add_end_setvar_def res_simps map_update split: option.splits)
    (metis list_update_id nth_map)

lemma parse_channels_settled:
  assumes "foldM parse_channel (pds0, chs) nodes = Inr (pds1, chs')"
  shows "map settled pds1 = map settled pds0"
proof -
  have "map settled (fst (pds1, chs')) = map settled pds0"
    using assms
  proof (rule foldM_inv [where I = "\<lambda>st. map settled (fst st) = map settled pds0"])
    fix s x t
    assume "map settled (fst s) = map settled pds0" "parse_channel s x = Inr t"
    then show "map settled (fst t) = map settled pds0"
      by (auto simp: parse_channel_def bindr_eq_Inr split: prod.splits dest!: add_end_setvar_settled)
  qed simp
  then show ?thesis by simp
qed

lemma fill_cap_maps_settled: "fill_cap_maps pds = Inr pds' \<Longrightarrow> map settled pds' = map settled pds"
  unfolding fill_cap_maps_def mapM_eq_Inr
  by (rule sym, induction rule: list_all2_induct) (auto simp: bindr_eq_Inr)

lemma sdf_parse_flatten:
  assumes "sdf_parse path_exists fs_read doc cfg search_paths = Inr sys"
  obtains ts pds0 where "pd_flatten ts = Inr pds0"
    "map settled (sd_protection_domains sys) = map settled pds0"
proof -
  from assms obtain nodes :: system_nodes and pds0 pds1 where s: "pd_flatten (sn_root_pds nodes) = Inr pds0"
    "foldM parse_channel (pds0, []) (sn_channel_nodes nodes) = Inr (pds1, sd_channels sys)"
    "fill_cap_maps pds1 = Inr (sd_protection_domains sys)"
    by (rule sdf_parse_stages) (rule that)
  show thesis
    by (rule that [OF s(1)])
      (simp add: parse_channels_settled [OF s(2)] fill_cap_maps_settled [OF s(3)])
qed

lemma parent_links_ok_settled:
  assumes "map settled xs = map settled ys" "parent_links_ok ys"
  shows "parent_links_ok xs"
proof -
  have len: "length xs = length ys" using assms(1) by (rule map_eq_imp_length_eq)
  have st: "settled (xs ! k) = settled (ys ! k)" if "k < length ys" for k
    using assms(1) that len by (metis nth_map)
  have eq: "pd_parent (xs ! k) = pd_parent (ys ! k)" "pd_id (xs ! k) = pd_id (ys ! k)"
    if "k < length ys" for k
    using arg_cong [OF st [OF that], of pd_parent] arg_cong [OF st [OF that], of pd_id] by simp_all
  have "p < k" if "k < length xs" "pd_parent (xs ! k) = Some p" for k p
    using assms(2) that eq(1) [of k] len by (simp add: parent_links_ok_def)
  moreover have "pd_id (xs ! k) \<noteq> pd_id (xs ! l)"
    if "k < l" "l < length xs" "pd_parent (xs ! k) = Some p" "pd_parent (xs ! l) = Some p" for k l p
  proof -
    have "k < length ys" "l < length ys" using that len by simp_all
    with that assms(2) eq show ?thesis by (simp add: parent_links_ok_def)
  qed
  ultimately show ?thesis unfolding parent_links_ok_def by blast
qed

text \<open>C20: an accepted system has between 1 and 63 protection domains with pairwise distinct names,
  none of them the name of the monitor; every parent link points to an earlier domain, and two
  children of one parent have different identifiers.\<close>

theorem sdf_parse_domains:
  assumes "sdf_parse path_exists fs_read doc cfg search_paths = Inr sys"
  shows "1 \<le> length (sd_protection_domains sys) \<and> length (sd_protection_domains sys) \<le> 63
     \<and> distinct (map pd_name (sd_protection_domains sys))
     \<and> ''monitor'' \<notin> set (map pd_name (sd_protection_domains sys))
     \<and> parent_links_ok (sd_protection_domains sys)"
proof -
  from assms obtain mrs where cs: "check_system cfg (sd_protection_domains sys) mrs (sd_channels sys) = Inr ()"
    by (rule sdf_parse_stages) (rule that)
  from assms obtain ts pds0 where fl: "pd_flatten ts = Inr pds0"
    "map settled (sd_protection_domains sys) = map settled pds0" by (rule sdf_parse_flatten)
  from cs have "check_pd_count (sd_protection_domains sys) = Inr ()"
    "check_pd_names (sd_protection_domains sys) = Inr ()" by (auto elim: check_system_facts)
  then show ?thesis
    using parent_links_ok_settled [OF fl(2) pd_flatten_links [OF fl(1)]]
    unfolding check_pd_names_iff
    by (auto simp: check_pd_count_def MAX_PDS_def MONITOR_PD_NAME_def Suc_le_eq split: if_splits)
qed

section \<open>An example system\<close>

definition elem :: "string \<Rightarrow> (string \<times> string) list \<Rightarrow> xml_node list \<Rightarrow> xml_node" where
  "elem tag atts kids = XmlNode ElementNode tag atts kids None None (1, 1)"

definition example_doc :: "xml_node list" where
  "example_doc = [elem ''system'' []
     [elem ''memory_region'' [(''name'', ''buf''), (''size'', ''0x200_000''), (''phys_addr'', ''0x600000'')] [],
      elem ''memory_region'' [(''name'', ''regs''), (''size'', ''0x1000'')] [],
      elem ''protection_domain'' [(''name'', ''client''), (''priority'', ''1'')]
        [elem ''program_image'' [(''path'', ''client.elf'')] [],
         elem ''map'' [(''mr'', ''buf''), (''vaddr'', ''0x4000000''), (''perms'', ''rw'')] [],
         elem ''map'' [(''mr'', ''regs''), (''vaddr'', ''0x5000000'')] [],
         elem ''irq'' [(''irq'', ''33''), (''id'', ''0'')] [],
         elem ''cspace'' [] [elem ''cap_tcb'' [(''slot'', ''3''), (''pd'', ''server'')] []]],
      elem ''protection_domain'' [(''name'', ''server''), (''priority'', ''2'')]
        [elem ''program_image'' [(''path'', ''server.elf'')] [],
         elem ''map'' [(''mr'', ''buf''), (''vaddr'', ''0x8000000''), (''perms'', ''r'')] [],
         elem ''protection_domain'' [(''name'', ''worker''), (''priority'', ''1''), (''id'', ''5'')]
           [elem ''program_image'' [(''path'', ''worker.elf'')] []]],
      elem ''channel'' []
        [elem ''end'' [(''pd'', ''client''), (''id'', ''1''), (''pp'', ''true'')] [],
         elem ''end'' [(''pd'', ''server''), (''id'', ''7'')] []]]]"

definition example_parse :: "system_description sdf_res" where
  "example_parse = sdf_parse (\<lambda>_. False) (\<lambda>_. None) (Inr example_doc) example_riscv_config []"

definition example_shape :: "system_description \<Rightarrow> bool" where
  "example_shape sys \<longleftrightarrow>
     map pd_name (sd_protection_domains sys) = [''client'', ''server'', ''worker'']
     \<and> map pd_parent (sd_protection_domains sys) = [None, None, Some 1]
     \<and> map (\<lambda>ch. (ce_pp (end_a ch), ce_pd (end_a ch), ce_pd (end_b ch))) (sd_channels sys) = [(True, 0, 1)]
     \<and> map (\<lambda>pd. map (\<lambda>m. (sm_mr m, sm_vaddr m)) (pd_maps pd)) (sd_protection_domains sys)
         = [[(''buf'', 0x4000000), (''regs'', 0x5000000)], [(''buf'', 0x8000000)], []]
     \<and> map (\<lambda>pd. map cm_pd (pd_cap_maps pd)) (sd_protection_domains sys) = [[Some 1], [], []]
     \<and> map (\<lambda>mr. (smr_name mr, smr_size mr, smr_page_size mr)) (sd_memory_regions sys)
         = [(''buf'', 0x200000, LargePg), (''regs'', 0x1000, SmallPg)]"

definition example_parse_shape :: bool where
  "example_parse_shape = (case example_parse of Inr sys \<Rightarrow> example_shape sys | Inl _ \<Rightarrow> False)"

lemma example_parse_ok: "example_parse_shape"
  by code_simp

lemma example_parse_obtain:
  obtains sys where "sdf_parse (\<lambda>_. False) (\<lambda>_. None) (Inr example_doc) example_riscv_config [] = Inr sys"
    "example_shape sys"
  using example_parse_ok by (auto simp: example_parse_shape_def example_parse_def split: sum.splits)

theorem sdf_parse_domains_witness:
  "\<exists>sys. sdf_parse (\<lambda>_. False) (\<lambda>_. None) (Inr example_doc) example_riscv_config [] = Inr sys
     \<and> distinct (map pd_name (sd_protection_domains sys)) \<and> parent_links_ok (sd_protection_domains sys)"
  using sdf_parse_domains by (rule_tac example_parse_obtain) blast

section \<open>Interrupts and channel identifiers\<close>

lemma check_irqs_inner:
  assumes "foldM (\<lambda>all_irqs sysirq.
         if irq_num sysirq \<in> set all_irqs then pd_err pd (DuplicateIrq (irq_num sysirq) (pd_name pd))
         else Inr (all_irqs @ [irq_num sysirq])) s irqs = Inr t" and "distinct s"
  shows "t = s @ map irq_num irqs \<and> distinct t"
  using assms by (rule foldM_collect_distinct) (auto split: if_splits)

lemma check_irqs_distinct:
  assumes "check_irqs pds = Inr irqs"
  shows "distinct (concat (map (\<lambda>pd. map irq_num (pd_irqs pd)) pds))"
proof -
  have "irqs = concat (map (\<lambda>pd. map irq_num (pd_irqs pd)) pds) \<and> distinct irqs"
    using assms unfolding check_irqs_def
    by (rule foldM_inv_prefix [where I = "\<lambda>pds irqs. irqs = concat (map (\<lambda>pd. map irq_num (pd_irqs pd)) pds)
            \<and> distinct irqs"])
      (use check_irqs_inner in \<open>fastforce+\<close>)
  then show ?thesis by metis
qed

text \<open>The identifiers a domain uses: of its interrupts and of the channel ends at it, in the order of
  the checks.\<close>

definition ends_at :: "nat \<Rightarrow> channel \<Rightarrow> u64 list" where
  "ends_at i ch = (if ce_pd (end_a ch) = i then [ce_id (end_a ch)] else [])
                    @ (if ce_pd (end_b ch) = i then [ce_id (end_b ch)] else [])"

definition ids_at :: "protection_domain list \<Rightarrow> channel list \<Rightarrow> nat \<Rightarrow> u64 list" where
  "ids_at pds chs i = map irq_id (pd_irqs (pds ! i)) @ concat (map (ends_at i) chs)"

text \<open>A channel whose two ends are the same identifier of the same domain.\<close>

definition self_duplicate :: "channel \<Rightarrow> bool" where
  "self_duplicate ch \<longleftrightarrow> ce_pd (end_a ch) = ce_pd (end_b ch) \<and> ce_id (end_a ch) = ce_id (end_b ch)"

lemma push_at_Inr:
  "push_at i x xss = Inr yss \<longleftrightarrow> i < length xss \<and> yss = xss[i := xss ! i @ [x]]"
  by (auto simp: push_at_def bindr_eq_Inr nthr_eq_Inr)

lemma check_irq_ids_inner:
  assumes "foldM (\<lambda>ch_ids sysirq.
         bindr (nthr ch_ids i) (\<lambda>ids.
         if irq_id sysirq \<in> set ids then pd_err pd (DuplicateChannelId (irq_id sysirq) (pd_name pd))
         else push_at i (irq_id sysirq) ch_ids)) s irqs = Inr t"
    and "i < length s" "distinct (s ! i)"
  shows "t = s[i := s ! i @ map irq_id irqs] \<and> distinct (s ! i @ map irq_id irqs)"
  using assms(1)
proof (rule foldM_inv_prefix
    [where I = "\<lambda>irqs t. t = s[i := s ! i @ map irq_id irqs] \<and> distinct (s ! i @ map irq_id irqs)"])
  show "s = s[i := s ! i @ map irq_id []] \<and> distinct (s ! i @ map irq_id [])" using assms(3) by simp
qed (use assms(2) in \<open>auto simp: bindr_eq_Inr nthr_eq_Inr push_at_Inr split: if_splits\<close>)

lemma check_irq_ids_spec:
  assumes "check_irq_ids pds = Inr ch_ids"
  shows "length ch_ids = length pds \<and> (\<forall>i < length pds. ch_ids ! i = ids_at pds [] i \<and> distinct (ids_at pds [] i))"
proof -
  let ?I = "\<lambda>ips ids. length ids = length pds
      \<and> (\<forall>i < length pds. ids ! i = (if i < length ips then ids_at pds [] i else [])
           \<and> (i < length ips \<longrightarrow> distinct (ids_at pds [] i)))"
  have "?I (enumerate 0 pds) ch_ids"
    using assms unfolding check_irq_ids_def
  proof (rule foldM_inv_split [where I = ?I])
    show "?I [] (replicate (length pds) [])" by simp
    fix ys x zs s t
    assume sp: "enumerate 0 pds = ys @ x # zs" and I: "?I ys s"
      and f: "(case x of (pd_idx, pd) \<Rightarrow> foldM (\<lambda>ch_ids sysirq.
         bindr (nthr ch_ids pd_idx) (\<lambda>ids.
         if irq_id sysirq \<in> set ids then pd_err pd (DuplicateChannelId (irq_id sysirq) (pd_name pd))
         else push_at pd_idx (irq_id sysirq) ch_ids)) s (pd_irqs pd)) = Inr t"
    let ?n = "length ys"
    have n: "?n < length pds" using arg_cong [OF sp, of length] by simp
    have "x = enumerate 0 pds ! ?n" using sp by simp
    then have x: "x = (?n, pds ! ?n)" using n by (simp add: nth_enumerate_eq)
    have "s ! ?n = []" "?n < length s" using I n by simp_all
    with check_irq_ids_inner [OF f [unfolded x, simplified]]
    have t: "t = s[?n := map irq_id (pd_irqs (pds ! ?n))]" and d: "distinct (map irq_id (pd_irqs (pds ! ?n)))"
      by simp_all
    show "?I (ys @ [x]) t"
      using I t n d by (auto simp: nth_list_update ids_at_def less_Suc_eq)
  qed
  then show ?thesis by simp
qed

lemma ids_at_snoc: "ids_at pds (chs @ [ch]) i = ids_at pds chs i @ ends_at i ch"
  by (simp add: ids_at_def)

lemma check_channel_facts:
  assumes "check_channel cfg pds ch_ids ch = Inr t"
  obtains "ce_pd (end_a ch) < length pds" "ce_pd (end_b ch) < length pds"
    "ce_id (end_a ch) \<notin> set (ch_ids ! ce_pd (end_a ch))"
    "ce_id (end_b ch) \<notin> set (ch_ids ! ce_pd (end_b ch))"
    "check_ppc cfg ch (pds ! ce_pd (end_a ch)) (pds ! ce_pd (end_b ch)) = Inr ()"
    "length t = length ch_ids" "\<And>i. i < length ch_ids \<Longrightarrow> t ! i = ch_ids ! i @ ends_at i ch"
proof -
  from assms have "ce_pd (end_a ch) < length pds" "ce_pd (end_b ch) < length pds"
    "ce_id (end_a ch) \<notin> set (ch_ids ! ce_pd (end_a ch))"
    "ce_id (end_b ch) \<notin> set (ch_ids ! ce_pd (end_b ch))"
    "check_ppc cfg ch (pds ! ce_pd (end_a ch)) (pds ! ce_pd (end_b ch)) = Inr ()"
    and t: "push_at (ce_pd (end_b ch)) (ce_id (end_b ch))
          (ch_ids[ce_pd (end_a ch) := ch_ids ! ce_pd (end_a ch) @ [ce_id (end_a ch)]]) = Inr t"
    by (auto simp: check_channel_def check_end_id_def bindr_eq_Inr nthr_eq_Inr push_at_Inr split: if_splits)
  moreover from t have "length t = length ch_ids" by (auto simp: push_at_Inr)
  moreover from t have "t ! i = ch_ids ! i @ ends_at i ch" if "i < length ch_ids" for i
    using that by (auto simp: push_at_Inr ends_at_def nth_list_update)
  ultimately show thesis by (intro that) auto
qed

lemma distinct_ends_at: "distinct (ends_at i ch) \<longleftrightarrow> \<not> (self_duplicate ch \<and> ce_pd (end_a ch) = i)"
  by (auto simp: ends_at_def self_duplicate_def)

lemma check_channels_spec:
  assumes "foldM (check_channel cfg pds) ch_ids channels = Inr ch_ids'"
    and "check_irq_ids pds = Inr ch_ids"
  shows "\<forall>i < length pds. distinct (ids_at pds channels i)
            \<longleftrightarrow> (\<forall>ch \<in> set channels. \<not> (self_duplicate ch \<and> ce_pd (end_a ch) = i))"
    and "\<forall>ch \<in> set channels. ce_pd (end_a ch) < length pds \<and> ce_pd (end_b ch) < length pds
            \<and> check_ppc cfg ch (pds ! ce_pd (end_a ch)) (pds ! ce_pd (end_b ch)) = Inr ()"
proof -
  let ?I = "\<lambda>chs ids. length ids = length pds
      \<and> (\<forall>i < length pds. ids ! i = ids_at pds chs i
           \<and> (distinct (ids_at pds chs i) \<longleftrightarrow> (\<forall>ch \<in> set chs. \<not> (self_duplicate ch \<and> ce_pd (end_a ch) = i))))
      \<and> (\<forall>ch \<in> set chs. ce_pd (end_a ch) < length pds \<and> ce_pd (end_b ch) < length pds
            \<and> check_ppc cfg ch (pds ! ce_pd (end_a ch)) (pds ! ce_pd (end_b ch)) = Inr ())"
  have "?I channels ch_ids'"
    using assms(1)
  proof (rule foldM_inv_prefix [where I = ?I])
    show "?I [] ch_ids" using check_irq_ids_spec [OF assms(2)] by simp
    fix ys x s t
    assume I: "?I ys s" and f: "check_channel cfg pds s x = Inr t"
    from f show "?I (ys @ [x]) t"
    proof (rule check_channel_facts)
      assume c: "ce_pd (end_a x) < length pds" "ce_pd (end_b x) < length pds"
        "ce_id (end_a x) \<notin> set (s ! ce_pd (end_a x))" "ce_id (end_b x) \<notin> set (s ! ce_pd (end_b x))"
        "check_ppc cfg x (pds ! ce_pd (end_a x)) (pds ! ce_pd (end_b x)) = Inr ()"
        "length t = length s" "\<And>i. i < length s \<Longrightarrow> t ! i = s ! i @ ends_at i x"
      have "distinct (ids_at pds (ys @ [x]) i) \<longleftrightarrow> (\<forall>ch \<in> set (ys @ [x]). \<not> (self_duplicate ch \<and> ce_pd (end_a ch) = i))"
        if "i < length pds" for i
      proof -
        have "s ! i = ids_at pds ys i" using I that by simp
        moreover have "set (s ! i) \<inter> set (ends_at i x) = {}" using c(3,4) by (auto simp: ends_at_def)
        ultimately show ?thesis using I that distinct_ends_at [of i x] by (auto simp: ids_at_snoc)
      qed
      with I c(1,2,5,6,7) show "?I (ys @ [x]) t" by (auto simp: ids_at_snoc)
    qed
  qed
  then show "\<forall>i < length pds. distinct (ids_at pds channels i)
            \<longleftrightarrow> (\<forall>ch \<in> set channels. \<not> (self_duplicate ch \<and> ce_pd (end_a ch) = i))"
    and "\<forall>ch \<in> set channels. ce_pd (end_a ch) < length pds \<and> ce_pd (end_b ch) < length pds
            \<and> check_ppc cfg ch (pds ! ce_pd (end_a ch)) (pds ! ce_pd (end_b ch)) = Inr ()"
    by simp_all
qed

text \<open>C23: in an accepted system no two interrupts have the same number, and the identifiers a
  domain uses for its interrupts and channel ends are pairwise distinct exactly when none of its
  channels joins an identifier to itself: the checks look for duplicates among earlier
  identifiers before either end of a channel is recorded.\<close>

theorem sdf_parse_identifiers:
  assumes "sdf_parse path_exists fs_read doc cfg search_paths = Inr sys"
  shows "distinct (concat (map (\<lambda>pd. map irq_num (pd_irqs pd)) (sd_protection_domains sys)))
     \<and> (\<forall>i < length (sd_protection_domains sys).
          distinct (ids_at (sd_protection_domains sys) (sd_channels sys) i)
          \<longleftrightarrow> (\<forall>ch \<in> set (sd_channels sys). \<not> (self_duplicate ch \<and> ce_pd (end_a ch) = i)))"
proof -
  from assms obtain mrs where cs: "check_system cfg (sd_protection_domains sys) mrs (sd_channels sys) = Inr ()"
    by (rule sdf_parse_stages) (rule that)
  then obtain irqs ids ids' where "check_irqs (sd_protection_domains sys) = Inr irqs"
    "check_irq_ids (sd_protection_domains sys) = Inr ids"
    "foldM (check_channel cfg (sd_protection_domains sys)) ids (sd_channels sys) = Inr ids'"
    by (rule check_system_facts) (rule that)
  with check_irqs_distinct check_channels_spec(1) show ?thesis by blast
qed

theorem sdf_parse_identifiers_witness:
  "\<exists>sys. sdf_parse (\<lambda>_. False) (\<lambda>_. None) (Inr example_doc) example_riscv_config [] = Inr sys
     \<and> distinct (concat (map (\<lambda>pd. map irq_num (pd_irqs pd)) (sd_protection_domains sys)))"
  using sdf_parse_identifiers by (rule_tac example_parse_obtain) blast

text \<open>C24: a protected call always goes to a domain of strictly higher priority: in an accepted system,
  an end with \<open>pp\<close> set is at a domain whose priority is below that of the other end's, so no channel
  joins a domain to itself for calls; both ends name domains of the system.\<close>

theorem sdf_parse_ppc_priorities:
  assumes "sdf_parse path_exists fs_read doc cfg search_paths = Inr sys"
    and "ch \<in> set (sd_channels sys)"
  shows "ce_pd (end_a ch) < length (sd_protection_domains sys)
     \<and> ce_pd (end_b ch) < length (sd_protection_domains sys)
     \<and> (ce_pp (end_a ch) \<longrightarrow> pd_priority (sd_protection_domains sys ! ce_pd (end_a ch))
                              < pd_priority (sd_protection_domains sys ! ce_pd (end_b ch)))
     \<and> (ce_pp (end_b ch) \<longrightarrow> pd_priority (sd_protection_domains sys ! ce_pd (end_b ch))
                              < pd_priority (sd_protection_domains sys ! ce_pd (end_a ch)))"
proof -
  from assms(1) obtain mrs where cs: "check_system cfg (sd_protection_domains sys) mrs (sd_channels sys) = Inr ()"
    by (rule sdf_parse_stages) (rule that)
  then obtain ids ids' where "check_irq_ids (sd_protection_domains sys) = Inr ids"
    "foldM (check_channel cfg (sd_protection_domains sys)) ids (sd_channels sys) = Inr ids'"
    by (rule check_system_facts) (rule that)
  from check_channels_spec(2) [OF this(2,1)] assms(2) have
    "ce_pd (end_a ch) < length (sd_protection_domains sys)" "ce_pd (end_b ch) < length (sd_protection_domains sys)"
    "check_ppc cfg ch (sd_protection_domains sys ! ce_pd (end_a ch)) (sd_protection_domains sys ! ce_pd (end_b ch)) = Inr ()"
    by blast+
  then show ?thesis by (auto simp: check_ppc_def bindr_eq_Inr not_le split: if_splits)
qed

theorem sdf_parse_ppc_priorities_witness:
  "\<exists>sys. sdf_parse (\<lambda>_. False) (\<lambda>_. None) (Inr example_doc) example_riscv_config [] = Inr sys
     \<and> pd_priority (sd_protection_domains sys ! 0) < pd_priority (sd_protection_domains sys ! 1)"
proof (rule example_parse_obtain)
  fix sys
  assume s: "sdf_parse (\<lambda>_. False) (\<lambda>_. None) (Inr example_doc) example_riscv_config [] = Inr sys"
    "example_shape sys"
  from s(2) obtain ch where "ch \<in> set (sd_channels sys)" "ce_pp (end_a ch)" "ce_pd (end_a ch) = 0"
    "ce_pd (end_b ch) = 1" by (auto simp: example_shape_def)
  with sdf_parse_ppc_priorities [OF s(1)] s(1) show ?thesis by metis
qed

end
