(* ===== verification/Viper.thy ===== *)
theory Viper
  imports Capdl_Wiring Sdf_Valid
begin

unbundle bit_operations_syntax

text \<open>
  What the tool exports for the verification of the programs, \<open>tool/microkit/src/viper.rs\<close>: for each protection
  domain the capabilities of its capability node, its channels and interrupts, and its memory, as definitions in
  the language of the Viper verifier.
\<close>

section \<open>Sets\<close>

definition nl :: string where "nl = [CHR 0x0A]"

definition export_define_set :: "string \<Rightarrow> u64 list \<Rightarrow> string \<Rightarrow> string" where
  "export_define_set name vector target =
     (if vector = []
      then target @ ''define '' @ name @ ''(x) (false)'' @ nl
             @ ''define f_'' @ name @ ''(heap,gv,x) ('' @ name @ ''(x))'' @ nl
      else let items = join_with '','' (map (\<lambda>v. dec_string (unat v)) vector)
           in target @ ''define '' @ name @ ''(x) (x in Set('' @ items @ ''))'' @ nl
                @ ''define f_'' @ name @ ''(heap,gv,x) ('' @ name @ ''(x))'' @ nl)"

section \<open>The capabilities of a domain\<close>

record cap_view =
  cv_occupied_slots :: "u64 list"
  cv_endpoint_caps :: "u64 list"
  cv_notification_caps :: "u64 list"
  cv_reply_caps :: "u64 list"
  cv_page_table_caps :: "u64 list"
  cv_irq_handler_caps :: "u64 list"
  cv_tcb_caps :: "u64 list"
  cv_vcpu_caps :: "u64 list"
  cv_ioport_caps :: "u64 list"
  cv_arm_smc_caps :: "u64 list"

definition cap_view_default :: cap_view where
  "cap_view_default = \<lparr>cv_occupied_slots = [], cv_endpoint_caps = [], cv_notification_caps = [], cv_reply_caps = [],
     cv_page_table_caps = [], cv_irq_handler_caps = [], cv_tcb_caps = [], cv_vcpu_caps = [], cv_ioport_caps = [],
     cv_arm_smc_caps = []\<rparr>"

definition cap_view_export :: "cap_view \<Rightarrow> string \<Rightarrow> string" where
  "cap_view_export v target =
     (let target = export_define_set ''pansel4_has_cap'' (cv_occupied_slots v) target;
          target = export_define_set ''pansel4_has_endpoint_cap'' (cv_endpoint_caps v) target;
          target = export_define_set ''pansel4_has_notification_cap'' (cv_notification_caps v) target;
          target = export_define_set ''pansel4_has_reply_cap'' (cv_reply_caps v) target;
          target = export_define_set ''pansel4_has_page_table_cap'' (cv_page_table_caps v) target;
          target = export_define_set ''pansel4_has_irq_handler_cap'' (cv_irq_handler_caps v) target;
          target = export_define_set ''pansel4_has_tcb_cap'' (cv_tcb_caps v) target;
          target = export_define_set ''pansel4_has_vcpu_cap'' (cv_vcpu_caps v) target;
          target = export_define_set ''pansel4_has_ioport_cap'' (cv_ioport_caps v) target
      in export_define_set ''pansel4_has_arm_smc_cap'' (cv_arm_smc_caps v) target)"

text \<open>\<open>dedup\<close> keeps the first of equal neighbours.\<close>

definition dedup_sorted :: "u64 list \<Rightarrow> u64 list" where
  "dedup_sorted v = remdups_adj (sort v)"

definition sort_and_dedup :: "cap_view \<Rightarrow> cap_view" where
  "sort_and_dedup v = \<lparr>cv_occupied_slots = dedup_sorted (cv_occupied_slots v),
     cv_endpoint_caps = dedup_sorted (cv_endpoint_caps v), cv_notification_caps = dedup_sorted (cv_notification_caps v),
     cv_reply_caps = dedup_sorted (cv_reply_caps v), cv_page_table_caps = dedup_sorted (cv_page_table_caps v),
     cv_irq_handler_caps = dedup_sorted (cv_irq_handler_caps v), cv_tcb_caps = dedup_sorted (cv_tcb_caps v),
     cv_vcpu_caps = dedup_sorted (cv_vcpu_caps v), cv_ioport_caps = dedup_sorted (cv_ioport_caps v),
     cv_arm_smc_caps = dedup_sorted (cv_arm_smc_caps v)\<rparr>"

definition view_cap :: "cap_view \<Rightarrow> cte \<Rightarrow> cap_view" where
  "view_cap view = (\<lambda>(k, c).
     let slot = ucast k;
         view = view\<lparr>cv_occupied_slots := cv_occupied_slots view @ [slot]\<rparr>
     in case c of
          CapEndpoint _ _ _ \<Rightarrow> view\<lparr>cv_endpoint_caps := cv_endpoint_caps view @ [slot]\<rparr>
        | CapNotification _ _ _ \<Rightarrow> view\<lparr>cv_notification_caps := cv_notification_caps view @ [slot]\<rparr>
        | CapReply _ \<Rightarrow> view\<lparr>cv_reply_caps := cv_reply_caps view @ [slot]\<rparr>
        | CapPageTable _ \<Rightarrow> view\<lparr>cv_page_table_caps := cv_page_table_caps view @ [slot]\<rparr>
        | CapArmIrqHandler _ \<Rightarrow> view\<lparr>cv_irq_handler_caps := cv_irq_handler_caps view @ [slot]\<rparr>
        | CapRiscvIrqHandler _ \<Rightarrow> view\<lparr>cv_irq_handler_caps := cv_irq_handler_caps view @ [slot]\<rparr>
        | CapIrqIOApicHandler _ \<Rightarrow> view\<lparr>cv_irq_handler_caps := cv_irq_handler_caps view @ [slot]\<rparr>
        | CapIrqMsiHandler _ \<Rightarrow> view\<lparr>cv_irq_handler_caps := cv_irq_handler_caps view @ [slot]\<rparr>
        | CapTcb _ \<Rightarrow> view\<lparr>cv_tcb_caps := cv_tcb_caps view @ [slot]\<rparr>
        | CapVCpu _ \<Rightarrow> view\<lparr>cv_vcpu_caps := cv_vcpu_caps view @ [slot]\<rparr>
        | CapIOPorts _ \<Rightarrow> view\<lparr>cv_ioport_caps := cv_ioport_caps view @ [slot]\<rparr>
        | CapArmSmc _ \<Rightarrow> view\<lparr>cv_arm_smc_caps := cv_arm_smc_caps view @ [slot]\<rparr>
        | _ \<Rightarrow> view)"

definition get_cap_view :: "spec_container \<Rightarrow> system_description \<Rightarrow> nat \<Rightarrow> cap_view option" where
  "get_cap_view capdl_spec sys current_pd =
     (if current_pd < length (sd_protection_domains sys)
      then let cnode_name = ''cnode_'' @ pd_name (sd_protection_domains sys ! current_pd)
           in case find (\<lambda>ob. no_name ob = cnode_name) (sc_objects capdl_spec) of
                None \<Rightarrow> None
              | Some named_obj \<Rightarrow> (case no_object named_obj of
                    ObjCNode _ slots \<Rightarrow> Some (sort_and_dedup (foldl view_cap cap_view_default slots))
                  | _ \<Rightarrow> None)
      else None)"

section \<open>The channels of a domain\<close>

record sdf_view =
  sv_channel_ends :: "u64 list"
  sv_protected_sources :: "u64 list"
  sv_ppcall_targets :: "u64 list"
  sv_notified_sources :: "u64 list"
  sv_notify_targets :: "u64 list"
  sv_irqs :: "u64 list"
  sv_children :: "u64 list"

definition sdf_view_default :: sdf_view where
  "sdf_view_default = \<lparr>sv_channel_ends = [], sv_protected_sources = [], sv_ppcall_targets = [],
     sv_notified_sources = [], sv_notify_targets = [], sv_irqs = [], sv_children = []\<rparr>"

definition sdf_view_export :: "sdf_view \<Rightarrow> string \<Rightarrow> string" where
  "sdf_view_export v target =
     (let target = export_define_set ''mk_is_protected_source'' (sv_protected_sources v) target;
          target = export_define_set ''mk_is_ppcall_target'' (sv_ppcall_targets v) target;
          target = export_define_set ''mk_is_notified_source'' (sv_notified_sources v) target;
          target = export_define_set ''mk_is_notify_target'' (sv_notify_targets v) target;
          target = export_define_set ''mk_is_irq_channel'' (sv_irqs v) target
      in export_define_set ''mk_is_child'' (sv_children v) target)"

text \<open>The two ends of a channel as the domain sees them, if one of them is its own.\<close>

definition local_remote :: "nat \<Rightarrow> channel \<Rightarrow> (channel_end \<times> channel_end) option" where
  "local_remote current_pd ch =
     (if ce_pd (end_a ch) = current_pd then Some (end_a ch, end_b ch)
      else if ce_pd (end_b ch) = current_pd then Some (end_b ch, end_a ch)
      else None)"

definition view_channel ::
    "protection_domain list \<Rightarrow> u8 \<Rightarrow> nat \<Rightarrow> sdf_view \<Rightarrow> channel \<Rightarrow> ('e, sdf_view) res" where
  "view_channel pds local_prio current_pd view ch = (case local_remote current_pd ch of
      None \<Rightarrow> Inr view
    | Some (loc, rmt) \<Rightarrow>
        let view = view\<lparr>sv_channel_ends := sv_channel_ends view @ [ce_id loc]\<rparr>
        in bindr (nthr pds (ce_pd rmt)) (\<lambda>rmt_pd.
           let remote_prio = pd_priority rmt_pd;
               view = (if ce_pp loc \<and> local_prio < remote_prio
                       then view\<lparr>sv_ppcall_targets := sv_ppcall_targets view @ [ce_id loc]\<rparr> else view);
               view = (if ce_pp rmt \<and> remote_prio < local_prio
                       then view\<lparr>sv_protected_sources := sv_protected_sources view @ [ce_id loc]\<rparr> else view);
               view = (if ce_notify rmt
                       then view\<lparr>sv_notified_sources := sv_notified_sources view @ [ce_id loc]\<rparr> else view);
               view = (if ce_notify loc
                       then view\<lparr>sv_notify_targets := sv_notify_targets view @ [ce_id loc]\<rparr> else view)
           in Inr view))"

definition child_ids :: "protection_domain list \<Rightarrow> nat \<Rightarrow> u64 list" where
  "child_ids pds current_pd = concat (map (\<lambda>pd.
     if pd_parent pd = Some current_pd then (case pd_id pd of Some i \<Rightarrow> [i] | None \<Rightarrow> []) else []) pds)"

definition get_sdf_view :: "system_description \<Rightarrow> nat \<Rightarrow> ('e, sdf_view option) res" where
  "get_sdf_view sys current_pd =
     (let pds = sd_protection_domains sys
      in if current_pd < length pds
         then let current = pds ! current_pd;
                  view = sdf_view_default\<lparr>sv_notified_sources := map irq_id (pd_irqs current),
                                          sv_irqs := map irq_id (pd_irqs current)\<rparr>
              in bindr (foldM (view_channel pds (pd_priority current) current_pd) view (sd_channels sys)) (\<lambda>view.
                   Inr (Some (view\<lparr>sv_children := sv_children view @ child_ids pds current_pd\<rparr>)))
         else Inr None)"

section \<open>The memory of a domain\<close>

record mem =
  mem_name :: string
  mem_start :: u64
  mem_end :: u64

definition mem_export :: "mem \<Rightarrow> string \<Rightarrow> string" where
  "mem_export m target = target @ ''define mem_'' @ mem_name m @ ''_contains(x) ('' @ dec_string (unat (mem_start m))
     @ '' <= x && x < '' @ dec_string (unat (mem_end m)) @ '')'' @ nl"

definition export_define_mem_set :: "string \<Rightarrow> mem list \<Rightarrow> string \<Rightarrow> string" where
  "export_define_mem_set perm vector target =
     (if vector = []
      then target @ ''define mem_'' @ perm @ ''(x) (false)'' @ nl
             @ ''define f_mem_'' @ perm @ ''(heap,gv,x) (mem_'' @ perm @ ''(x))'' @ nl
      else let items = join_with '' || '' (map (\<lambda>x. ''mem_'' @ mem_name x @ ''_contains(x)'') vector)
           in target @ ''define mem_'' @ perm @ ''(x) ('' @ items @ '')'' @ nl
                @ ''define f_mem_'' @ perm @ ''(heap,gv,x) (mem_'' @ perm @ ''(x))'' @ nl)"

record mem_view =
  mv_read :: "mem list"
  mv_readwrite :: "mem list"

definition mem_view_export :: "mem_view \<Rightarrow> string \<Rightarrow> string" where
  "mem_view_export v target =
     (let target = foldl (\<lambda>target mr. mem_export mr target) target (mv_read v);
          target = export_define_mem_set ''readable'' (mv_read v) target
      in export_define_mem_set ''writeable'' (mv_readwrite v) target)"

definition view_mmap :: "sys_memory_region \<Rightarrow> mem_view \<Rightarrow> sys_map \<Rightarrow> mem_view" where
  "view_mmap mr view mmap =
     (let start = sm_vaddr mmap; end_addr = start + smr_size mr
      in if end_addr < start then view
         else let m = \<lparr>mem_name = smr_name mr, mem_start = start, mem_end = end_addr\<rparr>;
                  view = view\<lparr>mv_read := mv_read view @ [m]\<rparr>
              in if sm_perms mmap AND sys_map_perms_u8 PermWrite \<noteq> 0
                 then view\<lparr>mv_readwrite := mv_readwrite view @ [m]\<rparr> else view)"

definition get_mem_view :: "system_description \<Rightarrow> nat \<Rightarrow> mem_view option" where
  "get_mem_view sys current_pd =
     (if current_pd < length (sd_protection_domains sys)
      then let current = sd_protection_domains sys ! current_pd
           in Some (foldl (\<lambda>view mr. foldl (view_mmap mr) view (filter (\<lambda>mp. sm_mr mp = smr_name mr) (pd_maps current)))
                      \<lparr>mv_read = [], mv_readwrite = []\<rparr> (sd_memory_regions sys))
      else None)"

section \<open>All of it\<close>

record combined_view =
  cb_pd_name :: string
  cb_sdf :: sdf_view
  cb_cap :: cap_view
  cb_mem :: mem_view

definition combined_view_export :: "combined_view \<Rightarrow> string \<Rightarrow> string" where
  "combined_view_export v target =
     mem_view_export (cb_mem v) (cap_view_export (cb_cap v) (sdf_view_export (cb_sdf v) target))"

definition combined_view :: "spec_container \<Rightarrow> system_description \<Rightarrow> nat \<times> protection_domain \<Rightarrow> ('e, combined_view option) res" where
  "combined_view capdl_spec sys = (\<lambda>(current_pd, pd).
     bindr (get_sdf_view sys current_pd) (\<lambda>sdf.
       Inr (case (sdf, get_cap_view capdl_spec sys current_pd, get_mem_view sys current_pd) of
           (Some sdf, Some cap, Some mem) \<Rightarrow>
             Some \<lparr>cb_pd_name = pd_name pd, cb_sdf = sdf, cb_cap = cap, cb_mem = mem\<rparr>
         | _ \<Rightarrow> None)))"

definition get_combined_views :: "spec_container \<Rightarrow> system_description \<Rightarrow> ('e, combined_view list) res" where
  "get_combined_views capdl_spec sys =
     bindr (mapM (combined_view capdl_spec sys) (enumerate 0 (sd_protection_domains sys))) (\<lambda>views.
       Inr (concat (map (\<lambda>v. case v of Some x \<Rightarrow> [x] | None \<Rightarrow> []) views)))"

end
