(* ===== verification/Viper_Views.thy ===== *)
theory Viper_Views
  imports Viper Capdl_Elf
begin

unbundle bit_operations_syntax

text \<open>
  The views of a domain that are exported for its verification agree: the channels it may use according to its
  description are those it has a capability for.
\<close>

section \<open>The view of the capabilities\<close>

lemma set_dedup_sorted [simp]: "set (dedup_sorted v) = set v"
  by (simp add: dedup_sorted_def)

definition is_ntfn_cap :: "cap \<Rightarrow> bool" where
  "is_ntfn_cap c = (case c of CapNotification _ _ _ \<Rightarrow> True | _ \<Rightarrow> False)"

definition is_ep_cap :: "cap \<Rightarrow> bool" where
  "is_ep_cap c = (case c of CapEndpoint _ _ _ \<Rightarrow> True | _ \<Rightarrow> False)"

definition slots_where :: "(cap \<Rightarrow> bool) \<Rightarrow> cte set \<Rightarrow> u64 set" where
  "slots_where P ctes = {ucast k |k c. (k, c) \<in> ctes \<and> P c}"

lemma view_cap_step:
  "set (cv_notification_caps (view_cap v (k, c))) = set (cv_notification_caps v) \<union> (if is_ntfn_cap c then {ucast k} else {})"
  "set (cv_endpoint_caps (view_cap v (k, c))) = set (cv_endpoint_caps v) \<union> (if is_ep_cap c then {ucast k} else {})"
  by (cases c; simp add: view_cap_def is_ntfn_cap_def is_ep_cap_def Let_def)+

lemma view_cap_fold:
  "set (cv_notification_caps (foldl view_cap v slots)) = set (cv_notification_caps v) \<union> slots_where is_ntfn_cap (set slots)
   \<and> set (cv_endpoint_caps (foldl view_cap v slots)) = set (cv_endpoint_caps v) \<union> slots_where is_ep_cap (set slots)"
proof (induction slots arbitrary: v)
  case Nil
  then show ?case by (simp add: slots_where_def)
next
  case (Cons cte slots)
  obtain k c where cte: "cte = (k, c)" by (cases cte)
  show ?case
    unfolding cte foldl.simps conjunct1 [OF Cons.IH] conjunct2 [OF Cons.IH] view_cap_step
    by (auto simp: slots_where_def)
qed

lemma get_cap_view_node:
  assumes "i < length (sd_protection_domains sys)" "n < length (sc_objects s)"
    and "no_name (sc_objects s ! n) = ''cnode_'' @ pd_name (sd_protection_domains sys ! i)"
    and "\<forall>j < n. no_name (sc_objects s ! j) \<noteq> ''cnode_'' @ pd_name (sd_protection_domains sys ! i)"
    and "no_object (sc_objects s ! n) = ObjCNode bits slots"
  shows "\<exists>cv. get_cap_view s sys i = Some cv
     \<and> set (cv_notification_caps cv) = slots_where is_ntfn_cap (set slots)
     \<and> set (cv_endpoint_caps cv) = slots_where is_ep_cap (set slots)"
proof -
  have "find (\<lambda>ob. no_name ob = ''cnode_'' @ pd_name (sd_protection_domains sys ! i)) (sc_objects s) = Some (sc_objects s ! n)"
    unfolding find_Some_iff by (rule exI [of _ n]) (use assms(2,3,4) in blast)
  then have "get_cap_view s sys i = Some (sort_and_dedup (foldl view_cap cap_view_default slots))"
    using assms(1,5) by (simp add: get_cap_view_def Let_def)
  then show ?thesis
    using view_cap_fold [of cap_view_default slots] by (simp add: sort_and_dedup_def cap_view_default_def)
qed

section \<open>The view of the channels\<close>

definition ends_where :: "nat \<Rightarrow> (channel_end \<Rightarrow> bool) \<Rightarrow> channel set \<Rightarrow> u64 set" where
  "ends_where i P chs = {ce_id l |ch l r. ch \<in> chs \<and> local_remote i ch = Some (l, r) \<and> P l}"

lemma ends_where_insert:
  "ends_where i P (chs \<union> {ch})
     = ends_where i P chs \<union> (case local_remote i ch of Some (l, r) \<Rightarrow> if P l then {ce_id l} else {} | None \<Rightarrow> {})"
  by (auto simp: ends_where_def split: option.splits)

lemma local_remote_ends:
  "local_remote i ch = Some (l, r) \<Longrightarrow> ce_pd l = i \<and> (l = end_a ch \<and> r = end_b ch \<or> l = end_b ch \<and> r = end_a ch)"
  by (auto simp: local_remote_def split: if_splits)

text \<open>A channel whose ends name domains, and whose calls go up.\<close>

definition channel_ok :: "protection_domain list \<Rightarrow> channel \<Rightarrow> bool" where
  "channel_ok pds ch \<longleftrightarrow> ce_pd (end_a ch) < length pds \<and> ce_pd (end_b ch) < length pds
     \<and> (ce_pp (end_a ch) \<longrightarrow> pd_priority (pds ! ce_pd (end_a ch)) < pd_priority (pds ! ce_pd (end_b ch)))
     \<and> (ce_pp (end_b ch) \<longrightarrow> pd_priority (pds ! ce_pd (end_b ch)) < pd_priority (pds ! ce_pd (end_a ch)))"

lemma view_channel_step:
  assumes "channel_ok pds ch"
  shows "\<exists>w. view_channel pds (pd_priority (pds ! i)) i v ch = (Inr w :: ('e, _) res)
     \<and> set (sv_notify_targets w) = set (sv_notify_targets v)
         \<union> (case local_remote i ch of Some (l, r) \<Rightarrow> if ce_notify l then {ce_id l} else {} | None \<Rightarrow> {})
     \<and> set (sv_ppcall_targets w) = set (sv_ppcall_targets v)
         \<union> (case local_remote i ch of Some (l, r) \<Rightarrow> if ce_pp l then {ce_id l} else {} | None \<Rightarrow> {})"
proof (cases "local_remote i ch")
  case None
  then show ?thesis by (simp add: view_channel_def)
next
  case (Some lr)
  obtain l r where lr: "lr = (l, r)" by (cases lr)
  note ends = local_remote_ends [OF Some [unfolded lr]]
  have r: "ce_pd r < length pds" and up: "ce_pp l \<longrightarrow> pd_priority (pds ! i) < pd_priority (pds ! ce_pd r)"
    using ends assms by (auto simp: channel_ok_def)
  then show ?thesis using Some by (simp add: view_channel_def lr Let_def)
qed

lemma get_sdf_view_ends:
  assumes i: "i < length (sd_protection_domains sys)"
    and ok: "\<forall>ch \<in> set (sd_channels sys). channel_ok (sd_protection_domains sys) ch"
  shows "\<exists>sv. get_sdf_view sys i = (Inr (Some sv) :: ('e, _) res)
     \<and> set (sv_notify_targets sv) = ends_where i ce_notify (set (sd_channels sys))
     \<and> set (sv_ppcall_targets sv) = ends_where i ce_pp (set (sd_channels sys))"
proof -
  let ?pds = "sd_protection_domains sys"
  let ?view = "sdf_view_default\<lparr>sv_notified_sources := map irq_id (pd_irqs (?pds ! i)), sv_irqs := map irq_id (pd_irqs (?pds ! i))\<rparr>"
  let ?step = "view_channel ?pds (pd_priority (?pds ! i)) i :: _ \<Rightarrow> _ \<Rightarrow> ('e, _) res"
  have step: "\<exists>w. ?step v ch = Inr w \<and> True" if "ch \<in> set (sd_channels sys)" for v ch
    using view_channel_step [of ?pds ch i v, where ?'e = 'e] ok that by auto
  obtain w where w: "foldM ?step ?view (sd_channels sys) = Inr w"
    using foldM_total [where I = "\<lambda>_. True" and f = ?step and s = ?view and xs = "sd_channels sys"] step by auto
  have "set (sv_notify_targets w) = ends_where i ce_notify (set (sd_channels sys))
      \<and> set (sv_ppcall_targets w) = ends_where i ce_pp (set (sd_channels sys))"
  proof (rule foldM_inv_prefix [OF w, where I = "\<lambda>chs v. set (sv_notify_targets v) = ends_where i ce_notify (set chs)
      \<and> set (sv_ppcall_targets v) = ends_where i ce_pp (set chs)"])
    fix chs ch v t
    assume I: "set (sv_notify_targets v) = ends_where i ce_notify (set chs)
        \<and> set (sv_ppcall_targets v) = ends_where i ce_pp (set chs)"
      and ch: "ch \<in> set (sd_channels sys)" and t: "?step v ch = Inr t"
    show "set (sv_notify_targets t) = ends_where i ce_notify (set (chs @ [ch]))
        \<and> set (sv_ppcall_targets t) = ends_where i ce_pp (set (chs @ [ch]))"
      using view_channel_step [of ?pds ch i v, where ?'e = 'e] ok ch t I
      by (simp add: ends_where_insert [where chs = "set chs", simplified])
  qed (simp add: ends_where_def sdf_view_default_def)
  with w i show ?thesis by (simp add: get_sdf_view_def Let_def)
qed

section \<open>Accepted systems\<close>

lemma channel_end_id:
  assumes "channel_end_from_xml pds node = Inr e"
  shows "ce_id e \<le> 61"
proof -
  from assms obtain i where "id_attribute node = Inr i" "ce_id e = u64_of_i64 i"
    by (auto simp: channel_end_from_xml_def bindr_eq_Inr value_err_def Let_def split: if_splits)
  then have "0 \<le> i" "i \<le> 61" "ce_id e = of_int i"
    by (auto simp: id_attribute_def bindr_eq_Inr value_err_def u64_of_i64_def PD_MAX_ID_def split: if_splits)
  then show ?thesis by (simp add: word_le_def unsigned_of_int take_bit_int_eq_self)
qed

lemma channel_ids:
  assumes "channel_from_xml pds node = Inr ch"
  shows "ce_id (end_a ch) \<le> 61 \<and> ce_id (end_b ch) \<le> 61"
proof -
  from assms obtain ends where ends: "mapM (channel_end_from_xml pds) (filter is_element (children node)) = Inr ends"
    and ch: "(case ends of [a, b] \<Rightarrow> if ce_pp a \<and> ce_pp b then value_err node VBidirectionalPpc
                    else Inr \<lparr>end_a = a, end_b = b\<rparr> | _ \<Rightarrow> value_err node VNotTwoEnds) = Inr ch"
    unfolding channel_from_xml_def bindr_eq_Inr by blast
  from ch obtain a b where "ends = [a, b]" "ch = \<lparr>end_a = a, end_b = b\<rparr>"
    by (auto simp: value_err_def split: list.split_asm if_split_asm)
  with ends show ?thesis by (auto simp: bindr_eq_Inr mapM_eq_Inr list_all2_Cons2 dest!: channel_end_id)
qed

lemma parse_channel_ids:
  assumes "foldM parse_channel (pds0, []) nodes = Inr (pds1, chs)" "ch \<in> set chs"
  shows "ce_id (end_a ch) \<le> 61 \<and> ce_id (end_b ch) \<le> 61"
proof -
  have "\<forall>ch \<in> set (snd (pds1, chs)). ce_id (end_a ch) \<le> 61 \<and> ce_id (end_b ch) \<le> 61"
    using assms(1)
  proof (rule foldM_inv [where I = "\<lambda>st. \<forall>ch \<in> set (snd st). ce_id (end_a ch) \<le> 61 \<and> ce_id (end_b ch) \<le> 61"])
    fix s node t
    assume I: "\<forall>ch \<in> set (snd s). ce_id (end_a ch) \<le> 61 \<and> ce_id (end_b ch) \<le> 61" and t: "parse_channel s node = Inr t"
    then show "\<forall>ch \<in> set (snd t). ce_id (end_a ch) \<le> 61 \<and> ce_id (end_b ch) \<le> 61"
      by (auto simp: parse_channel_def bindr_eq_Inr split: prod.splits dest!: channel_ids)
  qed simp
  with assms(2) show ?thesis by simp
qed

lemma accepted_channels:
  assumes "sdf_parse path_exists fs_read doc cfg search_paths = Inr sys" "ch \<in> set (sd_channels sys)"
  shows "channel_ok (sd_protection_domains sys) ch" "ce_id (end_a ch) \<le> 61" "ce_id (end_b ch) \<le> 61"
proof -
  from assms(1) obtain nodes pds0 pds1 where
    p: "foldM parse_channel (pds0, []) nodes = Inr (pds1, sd_channels sys)"
    by (rule sdf_parse_stages) (rule that)
  from assms(1) obtain mrs where cs: "check_system cfg (sd_protection_domains sys) mrs (sd_channels sys) = Inr ()"
    by (rule sdf_parse_stages) (rule that)
  from parse_channel_ids [OF p assms(2)] show "ce_id (end_a ch) \<le> 61" "ce_id (end_b ch) \<le> 61" by simp_all
  from cs obtain ids ids' where "check_irq_ids (sd_protection_domains sys) = Inr ids"
    "foldM (check_channel cfg (sd_protection_domains sys)) ids (sd_channels sys) = Inr ids'"
    by (rule check_system_facts) (rule that)
  from check_channels_spec(2) [OF this(2,1)] assms(2) have
    "ce_pd (end_a ch) < length (sd_protection_domains sys)" "ce_pd (end_b ch) < length (sd_protection_domains sys)"
    "check_ppc cfg ch (sd_protection_domains sys ! ce_pd (end_a ch)) (sd_protection_domains sys ! ce_pd (end_b ch)) = Inr ()"
    by blast+
  then show "channel_ok (sd_protection_domains sys) ch"
    by (auto simp: channel_ok_def check_ppc_def bindr_eq_Inr not_le split: if_splits)
qed

section \<open>The node of a domain after its channels are built\<close>

lemma grown_cnode: "grown_object (ObjCNode bits slots) ob \<Longrightarrow> \<exists>slots'. ob = ObjCNode bits slots'"
  by (auto simp: grown_object_def)

lemma channels_node:
  assumes run: "build_channels shadows channels s = Inr (u, s')" and wf: "spec_wf s"
    and ids: "shadows_ids shadows \<subseteq> {..<length (sc_objects s)}"
    and n: "n < length (sc_objects s)" "no_object (sc_objects s ! n) = ObjCNode bits slots"
  obtains slots' where "no_object (sc_objects s' ! n) = ObjCNode bits slots'"
    "set slots' = set slots \<union> (\<Union>ch \<in> set channels. end_caps shadows (end_a ch) (end_b ch) n \<union> end_caps shadows (end_b ch) (end_a ch) n)"
    "\<forall>j < length (sc_objects s). no_name (sc_objects s' ! j) = no_name (sc_objects s ! j)"
    "n < length (sc_objects s')"
proof -
  have e: "extends s s'" using buildsD_extends [OF builds_channels [OF order_refl] run wf ids] by blast
  with n grown_cnode obtain slots' where o': "no_object (sc_objects s' ! n) = ObjCNode bits slots'"
    by (fastforce simp: grows_def)
  from build_channels_adds [OF run] wf
  have "set (slots_of s' n) = set (slots_of s n)
      \<union> (\<Union>ch \<in> set channels. end_caps shadows (end_a ch) (end_b ch) n \<union> end_caps shadows (end_b ch) (end_a ch) n)"
    using n(1) by (simp add: adds_caps_def)
  with o' n(2) have "set slots' = set slots
      \<union> (\<Union>ch \<in> set channels. end_caps shadows (end_a ch) (end_b ch) n \<union> end_caps shadows (end_b ch) (end_a ch) n)"
    by (simp add: slots_of_def the_slots_def)
  then show thesis by (rule that [OF o']) (use e n(1) in \<open>auto simp: grows_def\<close>)
qed

text \<open>The slots of the two kinds, for a domain whose node is \<open>n\<close> and no other domain's.\<close>

definition own_node :: "pd_shadows \<Rightarrow> nat \<Rightarrow> nat \<Rightarrow> bool" where
  "own_node shadows i n \<longleftrightarrow> (\<exists>sh. shadows i = Some sh \<and> sh_microkit_cnode sh = n)
     \<and> (\<forall>j sh. shadows j = Some sh \<and> sh_microkit_cnode sh = n \<longrightarrow> j = i)"

lemma slots_where_simps [simp]:
  "slots_where P {} = {}"
  "slots_where P (insert (k, c) A) = (if P c then {ucast k} else {}) \<union> slots_where P A"
  "slots_where P (A \<union> B) = slots_where P A \<union> slots_where P B"
  "slots_where P (\<Union>x \<in> X. F x) = (\<Union>x \<in> X. slots_where P (F x))"
  by (auto simp: slots_where_def)

lemma end_caps_own:
  assumes "own_node shadows i n" "shadows (ce_pd r) = Some other"
  shows "end_caps shadows l r n = (if ce_pd l = i
     then (if ce_notify l then {(ucast (10 + ce_id l), CapNotification (sh_notification other) (shl 1 (ce_id r)) rw_rights)} else {})
       \<union> (case sh_endpoint other of None \<Rightarrow> {} | Some ep \<Rightarrow>
            if ce_pp l then {(ucast (74 + ce_id l), CapEndpoint ep (0x8000000000000000 OR ce_id r) rwg_rights)} else {})
     else {})"
  using assms by (auto simp: end_caps_def own_node_def split: option.splits)

lemma end_caps_slots:
  assumes "own_node shadows i n" "shadows (ce_pd r) = Some other" "ce_pp l \<longrightarrow> sh_endpoint other \<noteq> None"
  shows "slots_where is_ntfn_cap (end_caps shadows l r n)
      = (if ce_pd l = i \<and> ce_notify l then {ucast (ucast (10 + ce_id l) :: u32)} else {})"
    and "slots_where is_ep_cap (end_caps shadows l r n)
      = (if ce_pd l = i \<and> ce_pp l then {ucast (ucast (74 + ce_id l) :: u32)} else {})"
  unfolding end_caps_own [OF assms(1,2)]
  using assms(3) by (auto simp: is_ntfn_cap_def is_ep_cap_def split: option.splits)

section \<open>Agreement\<close>

lemma ends_where_union:
  "ends_where i P chs \<union> {ce_id (end_b ch) |ch. ch \<in> chs \<and> ce_pd (end_a ch) = i \<and> ce_pd (end_b ch) = i \<and> P (end_b ch)}
     = (\<Union>ch \<in> chs. (if ce_pd (end_a ch) = i \<and> P (end_a ch) then {ce_id (end_a ch)} else {})
          \<union> (if ce_pd (end_b ch) = i \<and> P (end_b ch) then {ce_id (end_b ch)} else {}))"
proof -
  have "ends_where i P chs
      = (\<Union>ch \<in> chs. case local_remote i ch of Some (l, r) \<Rightarrow> if P l then {ce_id l} else {} | None \<Rightarrow> {})"
    by (auto simp: ends_where_def split: option.splits if_splits) force
  moreover have "{ce_id (end_b ch) |ch. ch \<in> chs \<and> ce_pd (end_a ch) = i \<and> ce_pd (end_b ch) = i \<and> P (end_b ch)}
      = (\<Union>ch \<in> chs. if ce_pd (end_a ch) = i \<and> ce_pd (end_b ch) = i \<and> P (end_b ch) then {ce_id (end_b ch)} else {})"
    by (auto split: if_splits)
  ultimately show ?thesis
    unfolding UN_Un_distrib [symmetric]
    by (simp only: UN_Un_distrib [symmetric]) (rule SUP_cong; auto simp: local_remote_def)
qed

lemma slot_add:
  assumes "c \<in> {10, 74 :: u64}" "unat j < 64"
  shows "unat (c + j) = unat c + unat j"
  using assms by (intro unat_add_no_overflow) auto

lemma small_slot:
  assumes "c \<in> {10, 74 :: u64}" "j \<le> 61"
  shows "ucast (ucast (c + j) :: u32) = c + j"
proof -
  from assms(2) have j: "unat j < 64" by (simp add: word_le_nat_alt)
  then have "unat (c + j) < 2 ^ 32" using slot_add [OF assms(1)] assms(1) by auto
  then have "take_bit 32 (unat (c + j)) = unat (c + j)" by (rule take_bit_nat_eq_self)
  then show ?thesis by (simp add: word_unat_eq_iff unsigned_ucast_eq flip: unsigned_take_bit_eq)
qed

lemma slot_in_range:
  assumes free: "\<forall>(k, c) \<in> ctes. \<not> (10 \<le> k \<and> k < (138 :: u32))" and c: "c \<in> {10, 74}" "j < (64 :: u64)"
  shows "c + j \<notin> slots_where P ctes"
proof
  assume "c + j \<in> slots_where P ctes"
  then obtain k d where k: "c + j = ucast k" "(k, d) \<in> ctes" by (auto simp: slots_where_def)
  have j: "unat j < 64" using c(2) by (simp add: word_less_nat_alt)
  have "unat k < 2 ^ LENGTH(32)" by (rule unsigned_less)
  then have "unat k < 2 ^ 64" by simp
  then have "take_bit 64 (unat k) = unat k" by (rule take_bit_nat_eq_self)
  then have "unat (ucast k :: u64) = unat k" by (simp add: unsigned_ucast_eq flip: unsigned_take_bit_eq)
  then have "unat k = unat c + unat j" using slot_add [OF c(1) j] k(1) by simp
  then have "10 \<le> k \<and> k < 138" using c(1) j by (auto simp: word_le_nat_alt word_less_nat_alt)
  with free k(2) show False by blast
qed

definition joined :: "pd_shadows \<Rightarrow> channel \<Rightarrow> bool" where
  "joined shadows ch \<longleftrightarrow> (\<exists>a b. shadows (ce_pd (end_a ch)) = Some a \<and> shadows (ce_pd (end_b ch)) = Some b
     \<and> (ce_pp (end_a ch) \<longrightarrow> sh_endpoint b \<noteq> None) \<and> (ce_pp (end_b ch) \<longrightarrow> sh_endpoint a \<noteq> None))"

lemma build_channels_joined:
  assumes "build_channels shadows channels s = Inr (u, s')"
  shows "\<forall>ch \<in> set channels. joined shadows ch"
  using assms unfolding build_channels_def
proof (rule foldB_inv [where I = "\<lambda>chs _ _. \<forall>ch \<in> set chs. joined shadows ch"])
  fix chs ch a t b w
  assume "\<forall>ch \<in> set chs. joined shadows ch" "build_channel shadows ch t = Inr (b, w)"
  then show "\<forall>ch \<in> set (chs @ [ch]). joined shadows ch"
    by (auto simp: joined_def build_channel_def bld_simps map_index_def unwrapr_eq_Inr connect_pp_def
        split: if_splits option.splits)
qed simp

lemma joined_slots:
  assumes "joined shadows ch" "own_node shadows i n" "ce_id (end_a ch) \<le> 61" "ce_id (end_b ch) \<le> 61"
  defines "ctes \<equiv> end_caps shadows (end_a ch) (end_b ch) n \<union> end_caps shadows (end_b ch) (end_a ch) n"
  shows "slots_where is_ntfn_cap ctes = (+) 10 ` ((if ce_pd (end_a ch) = i \<and> ce_notify (end_a ch) then {ce_id (end_a ch)} else {})
      \<union> (if ce_pd (end_b ch) = i \<and> ce_notify (end_b ch) then {ce_id (end_b ch)} else {}))"
    and "slots_where is_ep_cap ctes = (+) 74 ` ((if ce_pd (end_a ch) = i \<and> ce_pp (end_a ch) then {ce_id (end_a ch)} else {})
      \<union> (if ce_pd (end_b ch) = i \<and> ce_pp (end_b ch) then {ce_id (end_b ch)} else {}))"
proof -
  from assms(1) obtain a b where j: "shadows (ce_pd (end_a ch)) = Some a" "shadows (ce_pd (end_b ch)) = Some b"
    "ce_pp (end_a ch) \<longrightarrow> sh_endpoint b \<noteq> None" "ce_pp (end_b ch) \<longrightarrow> sh_endpoint a \<noteq> None"
    by (auto simp: joined_def)
  note slots = end_caps_slots [OF assms(2) j(2,3)] end_caps_slots [OF assms(2) j(1,4)]
  show "slots_where is_ntfn_cap ctes = (+) 10 ` ((if ce_pd (end_a ch) = i \<and> ce_notify (end_a ch) then {ce_id (end_a ch)} else {})
      \<union> (if ce_pd (end_b ch) = i \<and> ce_notify (end_b ch) then {ce_id (end_b ch)} else {}))"
    unfolding ctes_def slots_where_simps slots
    using small_slot [of 10, OF _ assms(3)] small_slot [of 10, OF _ assms(4)] by auto
  show "slots_where is_ep_cap ctes = (+) 74 ` ((if ce_pd (end_a ch) = i \<and> ce_pp (end_a ch) then {ce_id (end_a ch)} else {})
      \<union> (if ce_pd (end_b ch) = i \<and> ce_pp (end_b ch) then {ce_id (end_b ch)} else {}))"
    unfolding ctes_def slots_where_simps slots
    using small_slot [of 74, OF _ assms(3)] small_slot [of 74, OF _ assms(4)] by auto
qed

text \<open>All the identifiers that an own end of a channel has.\<close>

definition own_ids :: "nat \<Rightarrow> (channel_end \<Rightarrow> bool) \<Rightarrow> channel set \<Rightarrow> u64 set" where
  "own_ids i P chs = (\<Union>ch \<in> chs. (if ce_pd (end_a ch) = i \<and> P (end_a ch) then {ce_id (end_a ch)} else {})
          \<union> (if ce_pd (end_b ch) = i \<and> P (end_b ch) then {ce_id (end_b ch)} else {}))"

lemma in_range_iff:
  assumes c: "c \<in> {10, 74}" and old: "\<forall>j < 64. c + j \<notin> old" and small: "ids \<subseteq> {..61}"
  shows "{j. j < 64 \<and> c + j \<in> old \<union> (+) c ` ids} = (ids :: u64 set)"
proof -
  have "j < 64" if "j \<in> ids" for j
    using small that by (auto simp: word_le_nat_alt word_less_nat_alt subset_iff)
  with old show ?thesis by auto
qed

lemma joined_slots_all:
  assumes "\<forall>ch \<in> chs. joined shadows ch \<and> ce_id (end_a ch) \<le> 61 \<and> ce_id (end_b ch) \<le> 61" "own_node shadows i n"
  defines "ctes \<equiv> \<Union>ch \<in> chs. end_caps shadows (end_a ch) (end_b ch) n \<union> end_caps shadows (end_b ch) (end_a ch) n"
  shows "slots_where is_ntfn_cap ctes = (+) 10 ` own_ids i ce_notify chs"
    and "slots_where is_ep_cap ctes = (+) 74 ` own_ids i ce_pp chs"
proof -
  note each = joined_slots [OF _ assms(2)]
  show "slots_where is_ntfn_cap ctes = (+) 10 ` own_ids i ce_notify chs"
    unfolding ctes_def own_ids_def slots_where_simps(4) image_UN by (rule SUP_cong [OF refl], rule each(1)) (use assms(1) in auto)
  show "slots_where is_ep_cap ctes = (+) 74 ` own_ids i ce_pp chs"
    unfolding ctes_def own_ids_def slots_where_simps(4) image_UN by (rule SUP_cong [OF refl], rule each(2)) (use assms(1) in auto)
qed

text \<open>C33: The two views of a domain that are exported for its verification agree: the identifiers to which it may
  send a notification, or make a call, according to its description are those at whose slots its capability node
  has a notification, or an endpoint, once the channels of an accepted system are built.  The description leaves out
  one case: of a channel from the domain to itself it has the first end only.\<close>

theorem viper_views_agree:
  assumes parse: "sdf_parse path_exists fs_read doc cfg search_paths = Inr sys"
    and run: "build_channels shadows (sd_channels sys) s = Inr (u, s')"
    and wf: "spec_wf s" and ids: "shadows_ids shadows \<subseteq> {..<length (sc_objects s)}"
    and i: "i < length (sd_protection_domains sys)" and own: "own_node shadows i n"
    and n: "n < length (sc_objects s)" "no_object (sc_objects s ! n) = ObjCNode bits slots"
    and name: "no_name (sc_objects s ! n) = ''cnode_'' @ pd_name (sd_protection_domains sys ! i)"
      "\<forall>j < n. no_name (sc_objects s ! j) \<noteq> ''cnode_'' @ pd_name (sd_protection_domains sys ! i)"
    and free: "\<forall>(k, c) \<in> set slots. \<not> (10 \<le> k \<and> k < 138)"
  shows "\<exists>sv cv. get_sdf_view sys i = (Inr (Some sv) :: ('e, sdf_view option) res) \<and> get_cap_view s' sys i = Some cv
    \<and> set (sv_notify_targets sv) \<union> {ce_id (end_b ch) |ch. ch \<in> set (sd_channels sys)
          \<and> ce_pd (end_a ch) = i \<and> ce_pd (end_b ch) = i \<and> ce_notify (end_b ch)}
        = {j. j < 64 \<and> 10 + j \<in> set (cv_notification_caps cv)}
    \<and> set (sv_ppcall_targets sv) = {j. j < 64 \<and> 74 + j \<in> set (cv_endpoint_caps cv)}"
proof -
  let ?chs = "set (sd_channels sys)"
  have chs: "\<forall>ch \<in> ?chs. channel_ok (sd_protection_domains sys) ch"
    and joined: "\<forall>ch \<in> ?chs. joined shadows ch \<and> ce_id (end_a ch) \<le> 61 \<and> ce_id (end_b ch) \<le> 61"
    using accepted_channels [OF parse] build_channels_joined [OF run] by blast+
  obtain sv where sv: "get_sdf_view sys i = (Inr (Some sv) :: ('e, sdf_view option) res)"
    "set (sv_notify_targets sv) = ends_where i ce_notify ?chs" "set (sv_ppcall_targets sv) = ends_where i ce_pp ?chs"
    using get_sdf_view_ends [OF i chs, where ?'e = 'e] by blast
  obtain slots' where s': "no_object (sc_objects s' ! n) = ObjCNode bits slots'"
    "set slots' = set slots \<union> (\<Union>ch \<in> ?chs. end_caps shadows (end_a ch) (end_b ch) n \<union> end_caps shadows (end_b ch) (end_a ch) n)"
    "\<forall>j < length (sc_objects s). no_name (sc_objects s' ! j) = no_name (sc_objects s ! j)" "n < length (sc_objects s')"
    by (rule channels_node [OF run wf ids n])
  have name': "no_name (sc_objects s' ! n) = ''cnode_'' @ pd_name (sd_protection_domains sys ! i)"
    "\<forall>j < n. no_name (sc_objects s' ! j) \<noteq> ''cnode_'' @ pd_name (sd_protection_domains sys ! i)"
    using name n(1) s'(3) by simp_all
  obtain cv where cv: "get_cap_view s' sys i = Some cv"
    "set (cv_notification_caps cv) = slots_where is_ntfn_cap (set slots')"
    "set (cv_endpoint_caps cv) = slots_where is_ep_cap (set slots')"
    using get_cap_view_node [OF i s'(4) name' s'(1)] by blast
  have caps: "set (cv_notification_caps cv) = slots_where is_ntfn_cap (set slots) \<union> (+) 10 ` own_ids i ce_notify ?chs"
    "set (cv_endpoint_caps cv) = slots_where is_ep_cap (set slots) \<union> (+) 74 ` own_ids i ce_pp ?chs"
    unfolding cv s'(2) slots_where_simps(3) joined_slots_all [OF joined own] by simp_all
  have small: "own_ids i P ?chs \<subseteq> {..61}" for P using joined by (auto simp: own_ids_def split: if_splits)
  have "ce_pp (end_b ch) \<Longrightarrow> \<not> (ce_pd (end_a ch) = i \<and> ce_pd (end_b ch) = i)" if "ch \<in> ?chs" for ch
    using chs that by (auto simp: channel_ok_def)
  then have own_pp: "{ce_id (end_b ch) |ch. ch \<in> ?chs \<and> ce_pd (end_a ch) = i \<and> ce_pd (end_b ch) = i \<and> ce_pp (end_b ch)} = {}"
    by blast
  have pp: "ends_where i ce_pp ?chs = own_ids i ce_pp ?chs"
    using ends_where_union [of i ce_pp ?chs] unfolding own_pp own_ids_def by simp
  note notify = ends_where_union [of i ce_notify ?chs, folded own_ids_def]
  have fresh: "\<forall>j < 64. 10 + j \<notin> slots_where is_ntfn_cap (set slots)"
    "\<forall>j < 64. 74 + j \<notin> slots_where is_ep_cap (set slots)"
    using slot_in_range [OF free] by auto
  have "{j. j < 64 \<and> 10 + j \<in> set (cv_notification_caps cv)} = own_ids i ce_notify ?chs"
    unfolding caps by (rule in_range_iff [OF _ fresh(1) small]) simp
  moreover have "{j. j < 64 \<and> 74 + j \<in> set (cv_endpoint_caps cv)} = own_ids i ce_pp ?chs"
    unfolding caps by (rule in_range_iff [OF _ fresh(2) small]) simp
  ultimately show ?thesis
    by (intro exI [of _ sv] exI [of _ cv] conjI sv(1) cv(1)) (simp_all only: sv(2,3) pp notify)
qed

definition example_views_spec :: spec_container where
  "example_views_spec = spec_new\<lparr>sc_objects :=
     [\<lparr>no_name = ''cnode_client'', no_object = ObjCNode 9 []\<rparr>, \<lparr>no_name = ''cnode_server'', no_object = ObjCNode 9 []\<rparr>,
      \<lparr>no_name = ''notification_server'', no_object = ObjNotification\<rparr>, \<lparr>no_name = ''ep_server'', no_object = ObjEndpoint\<rparr>],
     sc_root_end := 4\<rparr>"

definition example_views_channel :: channel where
  "example_views_channel = \<lparr>end_a = \<lparr>ce_pd = 0, ce_id = 1, ce_notify = True, ce_pp = True, ce_setvar_id = None\<rparr>,
     end_b = \<lparr>ce_pd = 1, ce_id = 7, ce_notify = True, ce_pp = False, ce_setvar_id = None\<rparr>\<rparr>"

definition example_views_shape :: bool where
  "example_views_shape = (case example_parse of Inl _ \<Rightarrow> False
     | Inr sys \<Rightarrow> sd_channels sys = [example_views_channel]
         \<and> map pd_name (sd_protection_domains sys) = [''client'', ''server'', ''worker''])"

lemma example_views_ok: "example_views_shape"
  by code_simp

lemma example_views_built:
  "\<exists>s'. build_channels [0 \<mapsto> example_shadow 0, 1 \<mapsto> example_shadow 1] [example_views_channel] example_views_spec = Inr ((), s')"
  by (simp add: build_channels_def build_channel_def connect_notify_def connect_pp_def map_index_def bindB_def
      liftB_def returnB_def example_shadow_def example_views_channel_def example_views_spec_def spec_new_def
      capdl_util_insert_cap_into_cspace_def update_root_object_def get_root_object_def PD_CAP_SIZE_def cap_idx_defs)

theorem viper_views_agree_witness:
  "\<exists>sys s' sv cv. sdf_parse (\<lambda>_. False) (\<lambda>_. None) (Inr example_doc) example_riscv_config [] = Inr sys
     \<and> get_sdf_view sys 0 = (Inr (Some sv) :: (string, sdf_view option) res) \<and> get_cap_view s' sys 0 = Some cv
     \<and> set (sv_ppcall_targets sv) = {j. j < 64 \<and> 74 + j \<in> set (cv_endpoint_caps cv)}"
proof -
  let ?shadows = "[0 \<mapsto> example_shadow 0, 1 \<mapsto> example_shadow 1]"
  obtain sys where parse: "sdf_parse (\<lambda>_. False) (\<lambda>_. None) (Inr example_doc) example_riscv_config [] = Inr sys"
    and chs: "sd_channels sys = [example_views_channel]"
    and names: "map pd_name (sd_protection_domains sys) = [''client'', ''server'', ''worker'']"
    using example_views_ok by (auto simp: example_views_shape_def example_parse_def split: sum.splits)
  obtain s' where run: "build_channels ?shadows (sd_channels sys) example_views_spec = Inr ((), s')"
    using example_views_built chs by auto
  from names have len: "0 < length (sd_protection_domains sys)" by (cases "sd_protection_domains sys") simp_all
  have name: "pd_name (sd_protection_domains sys ! 0) = ''client''"
    using arg_cong [OF names, where f = "\<lambda>xs. xs ! 0"] len by simp
  have wf: "spec_wf example_views_spec"
    by (simp add: spec_wf_def range_ok_def caps_below_def the_slots_def example_views_spec_def spec_new_def)
  have ids: "shadows_ids ?shadows \<subseteq> {..<length (sc_objects example_views_spec)}"
    by (auto simp: shadows_ids_def shadow_ids_def example_shadow_def example_views_spec_def ran_def split: if_splits)
  have own: "own_node ?shadows 0 0" by (auto simp: own_node_def example_shadow_def split: if_splits)
  have node: "0 < length (sc_objects example_views_spec)" "no_object (sc_objects example_views_spec ! 0) = ObjCNode 9 []"
    by (simp_all add: example_views_spec_def)
  have named: "no_name (sc_objects example_views_spec ! 0) = ''cnode_'' @ pd_name (sd_protection_domains sys ! 0)"
    "\<forall>j < 0. no_name (sc_objects example_views_spec ! j) \<noteq> ''cnode_'' @ pd_name (sd_protection_domains sys ! 0)"
    by (simp_all add: example_views_spec_def name)
  from viper_views_agree [OF parse run wf ids len own node named, where ?'e = string] parse
  show ?thesis by auto
qed

end
