(* ===== verification/Report.thy ===== *)
theory Report
  imports Capdl_Elf Viper
begin

unbundle bit_operations_syntax

text \<open>
  The text of the report, \<open>tool/microkit/src/report.rs\<close>.  The file it is written to is left out: each definition
  gives what is appended, and an object that is missing or of the wrong kind is the panic of the code.
\<close>

section \<open>Lines\<close>

definition tab :: string where "tab = [CHR 0x09]"

definition quoted :: "string \<Rightarrow> string" where
  "quoted s = CHR 0x27 # s @ [CHR 0x27]"

definition hex0x :: "u64 \<Rightarrow> string" where
  "hex0x w = ''0x'' @ hex_string (unat w)"

definition field_line :: "string \<Rightarrow> string \<Rightarrow> string" where
  "field_line key val = tab @ tab @ ''* '' @ key @ '': '' @ val @ nl"

definition dec_field :: "string \<Rightarrow> u64 \<Rightarrow> string" where
  "dec_field key val = field_line key (dec_string (unat val))"

definition root_or_panic :: "nat \<Rightarrow> spec_container \<Rightarrow> (capdl_error, named_object) res" where
  "root_or_panic i s = bindr (get_root_object i s) unwrapr"

section \<open>Interrupts\<close>

definition irq_fields :: "u64 \<Rightarrow> capdl_object \<Rightarrow> (capdl_error, string) res" where
  "irq_fields irq_number ob = (case ob of
      ObjArmIrq _ trigger target \<Rightarrow>
        bindr (arm_riscv_irq_trigger_from trigger) (\<lambda>t.
          Inr (dec_field ''Number'' irq_number @ field_line ''Trigger'' (arm_riscv_irq_trigger_name t)
                 @ dec_field ''CPU'' target))
    | ObjRiscvIrq _ trigger \<Rightarrow>
        bindr (arm_riscv_irq_trigger_from trigger) (\<lambda>t.
          Inr (dec_field ''Number'' irq_number @ field_line ''Trigger'' (arm_riscv_irq_trigger_name t)))
    | ObjIrqMsi _ handle bus dev func \<Rightarrow>
        Inr (dec_field ''Vector'' irq_number @ dec_field ''PCI Bus'' bus @ dec_field ''PCI Device'' dev
               @ dec_field ''PCI Function'' func @ dec_field ''Handle'' handle)
    | ObjIrqIOApic _ ioapic pin level polarity \<Rightarrow>
        bindr (x86_ioapic_irq_trigger_from level) (\<lambda>t.
        bindr (x86_ioapic_irq_polarity_from polarity) (\<lambda>p.
          Inr (dec_field ''Vector'' irq_number @ dec_field ''IOAPIC'' ioapic @ dec_field ''Pin'' pin
                 @ field_line ''Trigger'' (x86_ioapic_irq_trigger_name t)
                 @ field_line ''Polarity'' (x86_ioapic_irq_polarity_name p))))
    | _ \<Rightarrow> Inl (Panic UnreachableReached))"

definition report_irq :: "spec_container \<Rightarrow> u64 \<times> nat \<Rightarrow> (capdl_error, string) res" where
  "report_irq s = (\<lambda>(irq_number, handler).
     bindr (root_or_panic handler s) (\<lambda>handler.
     bindr (irq_fields irq_number (no_object handler)) (\<lambda>fields.
       Inr (tab @ ''- IRQ: '' @ quoted (no_name handler) @ nl @ fields @ nl))))"

section \<open>Threads\<close>

definition tcb_bound_slot_from :: "u32 \<Rightarrow> ('e, tcb_bound_slot) res" where
  "tcb_bound_slot_from v =
     (if v = 0 then Inr TbCSpace else if v = 1 then Inr TbVSpace else if v = 4 then Inr TbIpcBuffer
      else if v = 5 then Inr TbFaultEp else if v = 6 then Inr TbSchedContext
      else if v = 8 then Inr TbBoundNotification else if v = 9 then Inr TbVCpu
      else if v = 10 then Inr TbX86Eptpml4 else Inl (Panic UnreachableReached))"

fun slot_prefix :: "tcb_bound_slot \<Rightarrow> string" where
  "slot_prefix TbCSpace = ''CSpace''"
| "slot_prefix TbVSpace = ''VSpace''"
| "slot_prefix TbIpcBuffer = ''IPC Buffer''"
| "slot_prefix TbFaultEp = ''Fault Endpoint''"
| "slot_prefix TbSchedContext = ''Scheduling Context''"
| "slot_prefix TbBoundNotification = ''Notification''"
| "slot_prefix TbVCpu = ''VCpu''"
| "slot_prefix TbX86Eptpml4 = ''x86 EPT PML4''"

definition report_bound :: "spec_container \<Rightarrow> cte \<Rightarrow> (capdl_error, string) res" where
  "report_bound s = (\<lambda>(slot, c).
     bindr (tcb_bound_slot_from slot) (\<lambda>slot_enum.
     bindr (root_or_panic (cap_obj c) s) (\<lambda>ob.
       Inr (tab @ tab @ tab @ ''-> '' @ slot_prefix slot_enum @ '': '' @ quoted (no_name ob) @ nl))))"

definition is_tcb :: "capdl_object \<Rightarrow> bool" where
  "is_tcb ob = (case ob of ObjTcb _ _ \<Rightarrow> True | _ \<Rightarrow> False)"

definition report_tcb :: "spec_container \<Rightarrow> named_object \<Rightarrow> (capdl_error, string) res" where
  "report_tcb s named = (case no_object named of
      ObjTcb slots extra \<Rightarrow>
        bindr (mapM (report_bound s) slots) (\<lambda>bound.
          Inr (tab @ ''- TCB: '' @ quoted (no_name named) @ nl
            @ field_line ''IP'' (hex0x (te_ip extra)) @ field_line ''SP'' (hex0x (te_sp extra))
            @ field_line ''IPC Buffer'' (hex0x (te_ipc_buffer_addr extra))
            @ field_line ''Priority'' (dec_string (unat (te_prio extra)))
            @ dec_field ''CPU Affinity'' (te_affinity extra)
            @ tab @ tab @ ''* Bound Objects:'' @ nl @ concat bound @ nl))
    | _ \<Rightarrow> Inl (Panic UnreachableReached))"

section \<open>Capability nodes\<close>

definition is_cnode :: "capdl_object \<Rightarrow> bool" where
  "is_cnode ob = (case ob of ObjCNode _ _ \<Rightarrow> True | _ \<Rightarrow> False)"

definition report_cte :: "spec_container \<Rightarrow> cte \<Rightarrow> (capdl_error, string) res" where
  "report_cte s = (\<lambda>(slot, c).
     bindr (root_or_panic (cap_obj c) s) (\<lambda>to_object.
       Inr (field_line ''Slot'' (dec_string (unat slot))
         @ tab @ tab @ tab @ ''-> Object: '' @ quoted (no_name to_object) @ nl
         @ (case capdl_cap_rights c of None \<Rightarrow> []
            | Some r \<Rightarrow> tab @ tab @ tab @ ''-> Rights: '' @ capdl_rights_to_human_repr r @ nl)
         @ (case capdl_cap_badge c of None \<Rightarrow> []
            | Some b \<Rightarrow> tab @ tab @ tab @ ''-> Badge: '' @ hex0x b @ nl))))"

definition report_cnode :: "spec_container \<Rightarrow> named_object \<Rightarrow> (capdl_error, string) res" where
  "report_cnode s named =
     bindr (mapM (report_cte s) (the_slots (no_object named))) (\<lambda>ctes.
       Inr (tab @ ''- CNode: '' @ quoted (no_name named) @ nl @ concat ctes @ nl))"

section \<open>The architecture, and all objects\<close>

definition is_ioports :: "capdl_object \<Rightarrow> bool" where
  "is_ioports ob = (case ob of ObjIOPorts _ _ \<Rightarrow> True | _ \<Rightarrow> False)"

definition report_ioports :: "config \<Rightarrow> named_object \<Rightarrow> (capdl_error, string) res" where
  "report_ioports cfg named = (case no_object named of
      ObjIOPorts start_p end_p \<Rightarrow>
        bindr (capdl_obj_human_name (no_object named) cfg) (\<lambda>human.
          Inr (tab @ ''- '' @ human @ '': '' @ quoted (no_name named) @ nl
            @ field_line ''Start Port'' (hex0x start_p) @ field_line ''End Port'' (hex0x end_p)))
    | _ \<Rightarrow> Inl (Panic UnreachableReached))"

definition report_arch :: "config \<Rightarrow> spec_container \<Rightarrow> (capdl_error, string) res" where
  "report_arch cfg s = (case arch cfg of
      Aarch64 \<Rightarrow>
        Inr (if filter (\<lambda>ob. no_object ob = ObjArmSmc) (sc_objects s) \<noteq> []
             then ''ARM SMC access is granted to userspace.'' @ nl else [])
    | X86_64 \<Rightarrow>
        bindr (mapM (report_ioports cfg) (filter (\<lambda>ob. is_ioports (no_object ob)) (sc_objects s))) (\<lambda>ls. Inr (concat ls))
    | Riscv64 \<Rightarrow> Inr [])"

definition report_object :: "config \<Rightarrow> spec_container \<Rightarrow> nat \<times> named_object \<Rightarrow> (capdl_error, string) res" where
  "report_object cfg s = (\<lambda>(i, named).
     bindr (capdl_obj_physical_size_bits (no_object named) cfg) (\<lambda>bits.
     if bits > 0
     then bindr (capdl_obj_human_name (no_object named) cfg) (\<lambda>human.
          let line = tab @ dec_string i @ '' - '' @ human @ '': '' @ quoted (no_name named)
          in Inr (if arch cfg = X86_64 then line @ nl
                  else case sc_expected s i of
                      Some details \<Rightarrow> line @ '' @ 0x'' @ pad0 12 (hex_string (unat (ea_paddr details))) @ nl
                    | None \<Rightarrow> line @ '' @ <Cannot be allocated/Previous fatal error>'' @ nl))
     else Inr []))"

definition report_text :: "spec_container \<Rightarrow> config \<Rightarrow> (capdl_error, string) res" where
  "report_text s cfg =
     bindr (mapM (report_irq s) (sc_irqs s)) (\<lambda>irqs.
     bindr (mapM (report_tcb s) (filter (\<lambda>ob. is_tcb (no_object ob)) (sc_objects s))) (\<lambda>tcbs.
     bindr (mapM (report_cnode s) (filter (\<lambda>ob. is_cnode (no_object ob)) (sc_objects s))) (\<lambda>cnodes.
     bindr (report_arch cfg s) (\<lambda>arch_details.
     bindr (mapM (report_object cfg s) (enumerate 0 (sc_objects s))) (\<lambda>objects.
       Inr (''# Initial Task (CapDL Initialiser) Details'' @ nl @ nl @ ''# IRQ Details'' @ nl @ concat irqs
         @ nl @ ''# TCB Details'' @ nl @ concat tcbs @ nl @ ''# CNode Details'' @ nl @ concat cnodes
         @ nl @ ''# Architecture Specific Details'' @ nl @ arch_details
         @ nl @ (if arch cfg \<noteq> X86_64 then ''# Kernel Objects Details: ID, Type, Name, Physical Address''
                 else ''# Kernel Objects Details: ID, Type, Name'') @ nl @ concat objects))))))"

end
