(* ===== verification/Tool_Main.thy ===== *)
theory Tool_Main
  imports Image_Build Kernel_Settings Viper_Views Report Sdf_Check Uimage
begin

text \<open>
  The tool from its command line to the files it writes: the rest of \<open>tool/microkit/src/main.rs\<close>.  The world around
  it is the parameter \<open>tool_env\<close>: the arguments, what the file system answers, and the libraries for XML and JSON.
  The outcome is what was printed and the files that were written, in order; where the tool prints a message and
  exits, it is an \<open>Err\<close> with the data of the message.
\<close>

section \<open>The world\<close>

record ('io, 'j, 'o, 'r) tool_env =
  te_sdk :: "'io sdk_env"
  te_argv :: "string list"
  te_read :: "string \<Rightarrow> string + u8 list"
  te_create_error :: "string \<Rightarrow> string option"
  te_copy :: "string \<Rightarrow> string \<Rightarrow> string + u8 list"
  te_create_dir_error :: "string \<Rightarrow> string option"
  te_xml :: "string \<Rightarrow> string + xml_node list"
  te_json :: "string \<Rightarrow> 'j option"
  te_json_api :: "'j json_api"
  te_platform :: "string \<Rightarrow> (platform_config_region list \<times> platform_config_region list) option"
  te_object_sizes :: "string \<Rightarrow> object_sizes option option"
  te_spec_json :: "spec_container \<Rightarrow> string option"
  te_quotient :: "u64 \<Rightarrow> u64 \<Rightarrow> string"
  te_codec :: "('o, 'r) spec_codec"

datatype 'io tool_error =
    SdkFailed "'io sdk_error"
  | HelpPrinted string
  | ArgsFailed bool args_error
  | DoesNotExist string string
  | FieldMissing string
  | ImageTypeUnsupported requested_image_type arch
  | LoaderMissing string
  | SdfRejected sdf_error
  | ElfUnreadable string elf_error
  | ProgramMissing string
  | SymbolsMissing string
  | BuildStopped main_error
  | ViperFailed string string

text \<open>The status that the process ends with.\<close>

definition exit_status :: "('io tool_error, 'a) res \<Rightarrow> nat" where
  "exit_status r = (case r of
      Inr _ \<Rightarrow> 0 | Inl (Err (HelpPrinted _)) \<Rightarrow> 0 | Inl (Err _) \<Rightarrow> 1 | Inl (Panic _) \<Rightarrow> 101)"

definition bail_if_not_exists :: "('io, 'j, 'o, 'r) tool_env \<Rightarrow> string \<Rightarrow> string \<Rightarrow> ('io tool_error, unit) res" where
  "bail_if_not_exists env description p =
     (if env_exists (te_sdk env) p then Inr () else Inl (Err (DoesNotExist description p)))"

text \<open>\<open>fs::read_to_string(..).unwrap()\<close>.\<close>

definition read_to_string :: "('io, 'j, 'o, 'r) tool_env \<Rightarrow> string \<Rightarrow> ('e, string) res" where
  "read_to_string env p = (case te_read env p of
      Inr bytes \<Rightarrow> if is_utf8 bytes then Inr (bytes_string bytes) else Inl (Panic UnwrapFailed)
    | Inl _ \<Rightarrow> Inl (Panic UnwrapFailed))"

definition read_elf :: "('io, 'j, 'o, 'r) tool_env \<Rightarrow> string \<Rightarrow> ('io tool_error, elf_file) res" where
  "read_elf env p = lift_err (ElfUnreadable p) (elf_from_path p (te_read env p))"

section \<open>Arguments and paths\<close>

definition tool_arguments :: "('io, 'j, 'o, 'r) tool_env \<Rightarrow> ('io tool_error, available_config \<times> args) res" where
  "tool_arguments env =
     bindr (lift_err SdkFailed (sdk_discover (te_sdk env))) (\<lambda>sdk.
     bindr (case args_parse (te_argv env) sdk of
         Inr parsed_arguments \<Rightarrow> Inr parsed_arguments
       | Inl (Err HelpWanted) \<Rightarrow> Inl (Err (HelpPrinted (help_text sdk)))
       | Inl (Err (UnrecognizedArgument arg)) \<Rightarrow> Inl (Err (ArgsFailed True (UnrecognizedArgument arg)))
       | Inl (Err (MissingRequiredArguments missing)) \<Rightarrow> Inl (Err (ArgsFailed True (MissingRequiredArguments missing)))
       | Inl (Err err) \<Rightarrow> Inl (Err (ArgsFailed False err))
       | Inl (Panic p) \<Rightarrow> Inl (Panic p)) (\<lambda>args.
     bindr (unwrapr (sdk_select sdk (ar_board args) (ar_config args))) (\<lambda>current_config.
       Inr (current_config, args\<lparr>ar_search_paths := ar_search_paths args @ [sdk_cwd sdk]\<rparr>))))"

record tool_paths =
  tp_config_dir :: string
  tp_elf :: string
  tp_loader :: string
  tp_kernel :: string
  tp_monitor :: string
  tp_initialiser :: string
  tp_kernel_config :: string
  tp_invocations :: string

definition tool_paths_of :: "available_config \<Rightarrow> args \<Rightarrow> tool_paths" where
  "tool_paths_of current_config args =
     (let dir = ac_config_dir current_config; elf = path_join dir ''elf''
      in \<lparr>tp_config_dir = dir, tp_elf = elf, tp_loader = path_join elf ''loader.elf'',
          tp_kernel = (case ar_override_kernel args of Some p \<Rightarrow> p | None \<Rightarrow> path_join elf ''sel4.elf''),
          tp_monitor = path_join elf ''monitor.elf'', tp_initialiser = path_join elf ''initialiser.elf'',
          tp_kernel_config = path_join dir ''include/kernel/gen_config.json'',
          tp_invocations = path_join dir ''invocations_all.json''\<rparr>)"

definition check_paths :: "('io, 'j, 'o, 'r) tool_env \<Rightarrow> tool_paths \<Rightarrow> string \<Rightarrow> ('io tool_error, unit) res" where
  "check_paths env paths system_path =
     forM (\<lambda>(description, p). bail_if_not_exists env description p)
       [(''board ELF directory'', tp_elf paths), (''kernel ELF'', tp_kernel paths), (''monitor ELF'', tp_monitor paths),
        (''CapDL initialiser ELF'', tp_initialiser paths), (''kernel configuration file'', tp_kernel_config paths),
        (''invocations JSON file'', tp_invocations paths), (''system description file'', system_path)]"

section \<open>Settings\<close>

definition load_platform ::
    "('io, 'j, 'o, 'r) tool_env \<Rightarrow> arch \<Rightarrow> string
      \<Rightarrow> ('io tool_error, (platform_config_region list \<times> platform_config_region list) option) res" where
  "load_platform env a config_dir = (case a of
      X86_64 \<Rightarrow> Inr None
    | _ \<Rightarrow>
        (let platform_gen_path = path_join config_dir ''platform_gen.json''
         in bindr (bail_if_not_exists env ''kernel platform configuration file'' platform_gen_path) (\<lambda>_.
            bindr (read_to_string env platform_gen_path) (\<lambda>text.
            bindr (unwrapr (te_platform env text)) (\<lambda>platform. Inr (Some platform))))))"

definition load_object_sizes :: "('io, 'j, 'o, 'r) tool_env \<Rightarrow> string \<Rightarrow> ('io tool_error, object_sizes option) res" where
  "load_object_sizes env config_dir =
     (let object_sizes_path = path_join config_dir ''object_sizes.json''
      in bindr (bail_if_not_exists env ''kernel object sizes file'' object_sizes_path) (\<lambda>_.
         bindr (read_to_string env object_sizes_path) (\<lambda>text. unwrapr (te_object_sizes env text))))"

definition tool_settings ::
    "('io, 'j, 'o, 'r) tool_env \<Rightarrow> args \<Rightarrow> tool_paths \<Rightarrow> ('io tool_error, string \<times> config \<times> image_output_type) res" where
  "tool_settings env args paths =
     bindr (read_to_string env (ar_sdf_path args)) (\<lambda>xml.
     bindr (read_to_string env (tp_kernel_config paths)) (\<lambda>text.
     bindr (unwrapr (te_json env text)) (\<lambda>json.
     bindr (read_to_string env (tp_invocations paths)) (\<lambda>text.
     bindr (unwrapr (te_json env text)) (\<lambda>_.
     bindr (lift_err FieldMissing (config_arch (te_json_api env) json)) (\<lambda>a.
     case image_output_type_resolve (ar_requested_image_type args) a (ar_board args) of
       None \<Rightarrow> Inl (Err (ImageTypeUnsupported (ar_requested_image_type args) a))
     | Some image_output_type \<Rightarrow>
         bindr (load_platform env a (tp_config_dir paths)) (\<lambda>platform.
         bindr (load_object_sizes env (tp_config_dir paths)) (\<lambda>sizes.
         bindr (lift_err FieldMissing
                  (kernel_config_from (te_json_api env) json (ar_config args) a platform sizes)) (\<lambda>cfg.
           Inr (xml, cfg, image_output_type))))))))))"

section \<open>Programs and system\<close>

definition load_program ::
    "('io, 'j, 'o, 'r) tool_env \<Rightarrow> string list \<Rightarrow> protection_domain \<Rightarrow> ('io tool_error, elf_file) res" where
  "load_program env search_paths pd =
     (case get_full_path (env_exists (te_sdk env)) (pd_program_image pd) search_paths of
        None \<Rightarrow> Inl (Err (ProgramMissing (pd_program_image pd)))
      | Some p \<Rightarrow>
          bindr (case pd_program_image_for_symbols pd of
              None \<Rightarrow> Inr None
            | Some path_suffix \<Rightarrow>
                (case get_full_path (env_exists (te_sdk env)) path_suffix search_paths of
                   Some q \<Rightarrow> Inr (Some q) | None \<Rightarrow> Inl (Err (SymbolsMissing path_suffix)))) (\<lambda>path_for_symbols.
            lift_err (ElfUnreadable p)
              (elf_from_split_paths p (te_read env p) (map_option (te_read env) path_for_symbols))))"

text \<open>On ARM and RISC-V the kernel is read, and its boot emulated as far as it does not depend on the initial task.\<close>

definition load_kernel ::
    "('io, 'j, 'o, 'r) tool_env \<Rightarrow> config \<Rightarrow> string
      \<Rightarrow> ('io tool_error, elf_file option \<times> disjoint_memory_region option \<times> memory_region option) res" where
  "load_kernel env cfg kernel_elf_path = (case arch cfg of
      X86_64 \<Rightarrow> Inr (None, None, None)
    | _ \<Rightarrow>
        bindr (read_elf env kernel_elf_path) (\<lambda>kernel_elf.
        bindr (emulate_kernel_boot_partial cfg kernel_elf) (\<lambda>(available_memory, kernel_boot_region).
          Inr (Some kernel_elf, Some available_memory, Some kernel_boot_region))))"

definition fs_contents :: "('io, 'j, 'o, 'r) tool_env \<Rightarrow> string \<Rightarrow> u8 list option" where
  "fs_contents env p = (case te_read env p of Inr bytes \<Rightarrow> Some bytes | Inl _ \<Rightarrow> None)"

definition load_system ::
    "('io, 'j, 'o, 'r) tool_env \<Rightarrow> args \<Rightarrow> tool_paths \<Rightarrow> string \<Rightarrow> config \<Rightarrow> ('io tool_error, build_env \<times> build_state) res" where
  "load_system env args paths xml cfg =
     (if arch cfg \<noteq> X86_64 \<and> \<not> env_exists (te_sdk env) (tp_loader paths)
      then Inl (Err (LoaderMissing (tp_loader paths)))
      else bindr (assertr (word_size cfg = 64)) (\<lambda>_.
           bindr (lift_err SdfRejected (sdf_parse (env_exists (te_sdk env)) (fs_contents env) (te_xml env xml) cfg
                    (ar_search_paths args))) (\<lambda>system.
           bindr (read_elf env (tp_initialiser paths)) (\<lambda>initialiser_elf.
           bindr (load_kernel env cfg (tp_kernel paths)) (\<lambda>(kernel_elf_maybe, available_memory_maybe, boot_region_maybe).
           bindr (read_elf env (tp_monitor paths)) (\<lambda>monitor_elf.
           bindr (mapM (load_program env (ar_search_paths args)) (sd_protection_domains system)) (\<lambda>pd_elfs.
             Inr (\<lparr>be_config = cfg, be_build_config = ar_config args, be_kernel = kernel_elf_maybe,
                   be_available_memory = available_memory_maybe, be_boot_region = boot_region_maybe\<rparr>,
                  \<lparr>bs_elfs = pd_elfs @ [monitor_elf], bs_system = system,
                   bs_initialiser = initialiser_new initialiser_elf\<rparr>))))))))"

section \<open>What is written\<close>

record tool_output =
  to_console :: "string list"
  to_files :: "(string \<times> u8 list) list"

definition KERNEL_COPY_FILENAME :: string where "KERNEL_COPY_FILENAME = ''sel4.elf''"
definition KERNEL32_COPY_FILENAME :: string where "KERNEL32_COPY_FILENAME = ''sel4_32.elf''"

definition copy_file ::
    "('io, 'j, 'o, 'r) tool_env \<Rightarrow> string \<Rightarrow> string \<Rightarrow> ('io tool_error, string \<times> u8 list) res" where
  "copy_file env src dst = (case te_copy env src dst of
      Inr bytes \<Rightarrow> Inr (dst, bytes) | Inl copy_err \<Rightarrow> Inl (Err (BuildStopped (CopyFailed copy_err))))"

definition write_boot_module ::
    "('io, 'j, 'o, 'r) tool_env \<Rightarrow> string \<Rightarrow> string \<Rightarrow> elf_file \<Rightarrow> ('io tool_error, tool_output) res" where
  "write_boot_module env kernel_elf_path image_out_path elf =
     bindr (lift_err (\<lambda>e. BuildStopped (WriteFailed e)) (reserialise (te_create_error env image_out_path) elf)) (\<lambda>bytes.
     bindr (unwrapr (path_parent image_out_path)) (\<lambda>dir.
     bindr (copy_file env kernel_elf_path (path_join dir KERNEL_COPY_FILENAME)) (\<lambda>kernel.
     bindr (unwrapr (path_parent kernel_elf_path)) (\<lambda>kernel_dir.
     bindr (copy_file env (path_join kernel_dir KERNEL32_COPY_FILENAME) (path_join dir KERNEL32_COPY_FILENAME)) (\<lambda>kernel32.
     bindr (human_size_strict (te_quotient env) (of_nat (length bytes))) (\<lambda>human.
       Inr \<lparr>to_console = [''MICROKIT|BOOT MODULE: image file size = '' @ human],
            to_files = [(image_out_path, bytes), kernel, kernel32]\<rparr>))))))"

definition write_loader ::
    "('io, 'j, 'o, 'r) tool_env \<Rightarrow> image_output_type \<Rightarrow> string \<Rightarrow> loader \<Rightarrow> ('e, u8 list) res" where
  "write_loader env image_output_type image_out_path ld =
     (let create_error = te_create_error env image_out_path
      in case image_output_type of
           OutBinary \<Rightarrow> write_image create_error ld
         | OutElf \<Rightarrow> write_elf image_out_path create_error ld
         | OutUimage \<Rightarrow> write_uimage create_error ld)"

definition write_loader_image ::
    "('io, 'j, 'o, 'r) tool_env \<Rightarrow> build_env \<Rightarrow> string \<Rightarrow> image_output_type \<Rightarrow> string \<Rightarrow> u64 \<times> u64 \<Rightarrow> capdl_initialiser
      \<Rightarrow> ('io tool_error, tool_output) res" where
  "write_loader_image env benv loader_elf_path image_output_type image_out_path vaddr_range ci =
     bindr (unwrapr (be_kernel benv)) (\<lambda>kernel_elf.
     bindr (unwrapr (ci_phys_base ci)) (\<lambda>phys_base.
     bindr (lift_err (ElfUnreadable loader_elf_path) (loader_new (be_config benv) loader_elf_path
              (te_read env loader_elf_path) kernel_elf (ci_elf ci) phys_base vaddr_range)) (\<lambda>ld.
     bindr (write_loader env image_output_type image_out_path ld) (\<lambda>bytes.
     bindr (human_size_strict (te_quotient env) (of_nat (length bytes))) (\<lambda>human.
       Inr \<lparr>to_console = [''MICROKIT|LOADER: image file size = '' @ human], to_files = [(image_out_path, bytes)]\<rparr>)))))"

definition spec_summary ::
    "('io, 'j, 'o, 'r) tool_env \<Rightarrow> spec_container \<Rightarrow> capdl_initialiser \<Rightarrow> ('e, string) res" where
  "spec_summary env spec ci =
     bindr (unwrapr (ci_spec_metadata ci)) (\<lambda>spec_metadata.
     bindr (human_size_strict (te_quotient env) (spec_bytes_size spec_metadata)) (\<lambda>human.
       Inr (''MICROKIT|CAPDL SPEC: number of root objects = '' @ dec_string (length (sc_objects spec))
            @ '', spec footprint = '' @ human)))"

definition write_text :: "('io, 'j, 'o, 'r) tool_env \<Rightarrow> string \<Rightarrow> string \<Rightarrow> ('e, string \<times> u8 list) res" where
  "write_text env p text = (case te_create_error env p of
      None \<Rightarrow> Inr (p, string_bytes text) | Some _ \<Rightarrow> Inl (Panic UnwrapFailed))"

definition write_spec_json ::
    "('io, 'j, 'o, 'r) tool_env \<Rightarrow> args \<Rightarrow> spec_container \<Rightarrow> ('e, (string \<times> u8 list) list) res" where
  "write_spec_json env args spec = (case ar_capdl_json_path args of
      None \<Rightarrow> Inr []
    | Some capdl_json \<Rightarrow>
        bindr (unwrapr (te_spec_json env spec)) (\<lambda>serialised.
        bindr (write_text env capdl_json serialised) (\<lambda>f. Inr [f])))"

definition write_view ::
    "('io, 'j, 'o, 'r) tool_env \<Rightarrow> args \<Rightarrow> string \<Rightarrow> combined_view \<Rightarrow> ('io tool_error, string \<times> u8 list) res" where
  "write_view env args viper_output_dir view =
     (let output = combined_view_export view
            (''// exported invariants for PD '' @ cb_pd_name view @ '' in '' @ ar_sdf_path args @ nl);
          p = path_join viper_output_dir (cb_pd_name view @ ''.vpr'')
      in case te_create_error env p of
           None \<Rightarrow> Inr (p, string_bytes output)
         | Some source \<Rightarrow> Inl (Err (ViperFailed p source)))"

definition write_viper ::
    "('io, 'j, 'o, 'r) tool_env \<Rightarrow> args \<Rightarrow> spec_container \<Rightarrow> system_description
      \<Rightarrow> ('io tool_error, (string \<times> u8 list) list) res" where
  "write_viper env args spec system = (case ar_viper_output_dir args of
      None \<Rightarrow> Inr []
    | Some viper_output_dir \<Rightarrow>
        (case te_create_dir_error env viper_output_dir of
           Some source \<Rightarrow> Inl (Err (ViperFailed viper_output_dir source))
         | None \<Rightarrow>
             bindr (get_combined_views spec system) (mapM (write_view env args viper_output_dir))))"

definition write_report ::
    "('io, 'j, 'o, 'r) tool_env \<Rightarrow> spec_container \<Rightarrow> config \<Rightarrow> string \<Rightarrow> ('e, string \<times> u8 list) res" where
  "write_report env spec cfg output_path = (case te_create_error env output_path of
      Some _ \<Rightarrow> Inl (Panic UnwrapFailed)
    | None \<Rightarrow> bindr (unwrap_res (report_text spec cfg)) (\<lambda>text. Inr (output_path, string_bytes text)))"

definition write_out ::
    "('io, 'j, 'o, 'r) tool_env \<Rightarrow> args \<Rightarrow> tool_paths \<Rightarrow> image_output_type \<Rightarrow> build_env \<Rightarrow> build_state \<Rightarrow> spec_container
      \<Rightarrow> ('io tool_error, tool_output) res" where
  "write_out env args paths image_output_type benv st spec =
     (let ci = bs_initialiser st
      in bindr (spec_summary env spec ci) (\<lambda>summary.
         bindr (image_bound ci) (\<lambda>(image_start, image_end).
         bindr (human_size_strict (te_quotient env) (image_end - image_start)) (\<lambda>task_size.
         bindr (case arch (be_config benv) of
             X86_64 \<Rightarrow> write_boot_module env (tp_kernel paths) (ar_output_path args) (ci_elf ci)
           | _ \<Rightarrow> write_loader_image env benv (tp_loader paths) image_output_type (ar_output_path args)
                    (image_start, image_end) ci) (\<lambda>image.
         bindr (write_spec_json env args spec) (\<lambda>json_files.
         bindr (write_viper env args spec (bs_system st)) (\<lambda>viper_files.
         bindr (write_report env spec (be_config benv) (ar_report_path args)) (\<lambda>report_file.
           Inr \<lparr>to_console = [summary, ''MICROKIT|INITIAL TASK: memory size = '' @ task_size] @ to_console image,
                to_files = to_files image @ json_files @ viper_files @ [report_file]\<rparr>))))))))"

definition tool_main :: "('io, 'j, 'o, 'r) tool_env \<Rightarrow> ('io tool_error, tool_output) res" where
  "tool_main env =
     bindr (tool_arguments env) (\<lambda>(current_config, args).
     let paths = tool_paths_of current_config args
     in bindr (check_paths env paths (ar_sdf_path args)) (\<lambda>_.
        bindr (tool_settings env args paths) (\<lambda>(xml, cfg, image_output_type).
        bindr (load_system env args paths xml cfg) (\<lambda>(benv, st).
        bindr (lift_err BuildStopped (build_system (te_codec env) benv st)) (\<lambda>(st, spec, _).
          write_out env args paths image_output_type benv st spec)))))"

end
