(* ===== verification/Tool_Image.thy ===== *)
theory Tool_Image
  imports Tool_Main Loader_Boot
begin

text \<open>
  What a run of the tool that ends well has written: the image boots the way the tool has emulated it.
\<close>

section \<open>The extent of the initial task\<close>

lemma write_at_real_extent:
  "seg_data seg = RealData old \<Longrightarrow> write_at old off bytes = (Inr new :: ('e, u8 list) res)
    \<Longrightarrow> same_extent seg (seg\<lparr>seg_data := RealData new\<rparr>)"
  by (auto simp: same_extent_def mem_size_def file_size_def dest: write_at_length)

lemma write_symbol_same_extent:
  assumes "write_symbol name bytes elf = Inr elf'"
  shows "list_all2 same_extent (segments elf) (segments elf')"
proof -
  from assms obtain v n segs where w: "write_in_segments name v n bytes (segments elf) = Inr segs"
    and elf': "elf' = elf\<lparr>segments := segs\<rparr>" by (auto simp: write_symbol_def bindr_eq_Inr)
  from write_in_segments_shape [OF w] obtain pre seg post old new where
    "segments elf = pre @ seg # post" "segs = pre @ seg\<lparr>seg_data := RealData new\<rparr> # post"
    "seg_data seg = RealData old"
    "write_at old (unat (v - virt_addr seg)) bytes = (Inr new :: (elf_error, u8 list) res)" by blast
  with write_at_real_extent show ?thesis
    by (auto simp: elf' list_all2_refl intro!: list_all2_appendI)
qed

lemma add_expected_untypeds_extent:
  assumes "add_expected_untypeds uts ci = (Inr ci' :: ('e, capdl_initialiser) res)"
  shows "list_all2 same_extent (segments (ci_elf ci)) (segments (ci_elf ci')) \<and> ci_phys_base ci' = ci_phys_base ci"
proof (cases "find_symbol (ci_elf ci) ''sel4_capdl_initializer_expected_untypeds_list_num_entries''")
  case (Inl e)
  with assms show ?thesis by (simp add: add_expected_untypeds_def list_all2_refl)
next
  case (Inr r)
  with assms obtain e1 e2 where "write_symbol ''sel4_capdl_initializer_expected_untypeds_list_num_entries''
      (le_bytes 8 (of_nat (length uts) :: u64)) (ci_elf ci) = Inr e1"
    "write_symbol ''sel4_capdl_initializer_expected_untypeds_list'' (concat (map serialise_ut uts)) e1 = Inr e2"
    "ci' = ci\<lparr>ci_elf := e2\<rparr>"
    by (auto simp: add_expected_untypeds_def Let_def bindr_eq_Inr unwrap_res_eq_Inr)
  with list_all2_trans [OF same_extent_trans write_symbol_same_extent write_symbol_same_extent] show ?thesis by auto
qed

lemma lowest_vaddr_eq:
  "list_all2 same_extent (segments elf) (segments elf') \<Longrightarrow> lowest_vaddr elf = (Inr lo :: ('e, u64) res)
    \<Longrightarrow> lowest_vaddr elf' = (Inr lo :: ('f, u64) res)"
  "list_all2 same_extent (segments elf) (segments elf') \<Longrightarrow> highest_vaddr elf = (Inr hi :: ('e, u64) res)
    \<Longrightarrow> highest_vaddr elf' = (Inr hi :: ('f, u64) res)"
proof -
  assume ext: "list_all2 same_extent (segments elf) (segments elf')"
  have v: "map virt_addr (filter loadable xs) = map virt_addr (filter loadable ys)
      \<and> map (\<lambda>s. virt_addr s + mem_size s) (filter loadable xs) = map (\<lambda>s. virt_addr s + mem_size s) (filter loadable ys)"
    if "list_all2 same_extent xs ys" for xs ys
    using that by (induction rule: list_all2_induct) (auto simp: same_extent_def)
  note eq = v [OF ext, folded loadable_segments_def]
  show "lowest_vaddr elf' = (Inr lo :: ('f, u64) res)" if "lowest_vaddr elf = (Inr lo :: ('e, u64) res)"
    using that eq by (auto simp: lowest_vaddr_def split: list.splits)
  show "highest_vaddr elf' = (Inr hi :: ('f, u64) res)" if "highest_vaddr elf = (Inr hi :: ('e, u64) res)"
    using that eq by (auto simp: highest_vaddr_def split: list.splits)
qed

lemma image_bound_eq:
  assumes "list_all2 same_extent (segments (ci_elf ci)) (segments (ci_elf ci'))"
    and "image_bound ci = (Inr (lo, hi) :: ('e, u64 \<times> u64) res)"
  shows "image_bound ci' = (Inr (lo, hi) :: ('f, u64 \<times> u64) res) \<and> lowest_vaddr (ci_elf ci') = (Inr lo :: ('f, u64) res)"
proof -
  have up: "round_up n x = (Inr r :: ('f, u64) res)" if "round_up n x = (Inr r :: ('e, u64) res)" for n x r
    using that by (auto simp: round_up_def bindr_eq_Inr divmod_def split: if_splits)
  from assms(2) obtain h where "lowest_vaddr (ci_elf ci) = (Inr lo :: ('e, u64) res)"
    "highest_vaddr (ci_elf ci) = (Inr h :: ('e, u64) res)" "round_up h (page_size_u64 INITIALISER_GRANULE_SIZE) = (Inr hi :: ('e, u64) res)"
    by (auto simp: image_bound_def bindr_eq_Inr)
  then show ?thesis
    using lowest_vaddr_eq [OF assms(1), where 'e = 'e and 'f = 'f] up by (auto simp: image_bound_def)
qed

section \<open>The boot that was emulated\<close>

text \<open>The kernel is handed the numbers in the header of the image: it places the initial task from
  \<open>lh_ui_p_reg_start\<close> to \<open>lh_ui_p_reg_end\<close>, finds its addresses by subtracting \<open>lh_pv_offset\<close>, and enters it at
  \<open>lh_v_entry\<close>.  The boot with these numbers is the one that was emulated.\<close>

definition boots_as_emulated :: "config \<Rightarrow> elf_file \<Rightarrow> elf_file \<Rightarrow> loader_header64 \<Rightarrow> boot_info \<Rightarrow> bool" where
  "boots_as_emulated cfg ker task h boot \<longleftrightarrow>
     lh_ui_p_reg_start h < lh_ui_p_reg_end h \<and> lh_kernel_entry h = elf_entry ker \<and> lh_v_entry h = elf_entry task
     \<and> lowest_vaddr task = (Inr (lh_ui_p_reg_start h - lh_pv_offset h) :: (main_error, u64) res)
     \<and> emulate_kernel_boot cfg ker
          \<lparr>mr_base = lh_ui_p_reg_start h, mr_end = lh_ui_p_reg_end h\<rparr>
          \<lparr>mr_base = lh_ui_p_reg_start h - lh_pv_offset h, mr_end = lh_ui_p_reg_end h - lh_pv_offset h\<rparr>
        = (Inr boot :: (main_error, boot_info) res)"

lemma loader_new_header:
  assumes "loader_new cfg p c ker task base (lo, hi) = Inr ld"
  shows "lh_ui_p_reg_start (ld_header ld) = base \<and> lh_ui_p_reg_end (ld_header ld) = base + (hi - lo)
    \<and> lh_pv_offset (ld_header ld) = base - lo \<and> base < base + (hi - lo)
    \<and> lh_kernel_entry (ld_header ld) = elf_entry ker \<and> lh_v_entry (ld_header ld) = elf_entry task"
  using assms unfolding loader_new_def loader_from_elf_def Let_def
  by (auto simp: bindr_eq_Inr assertr_eq_Inr split: if_splits)

lemma emulate_boot_facts:
  assumes "emulate_boot env ci = Inr (ci', boot)"
  obtains lo hi p ker where "image_bound ci = (Inr (lo, hi) :: (main_error, u64 \<times> u64) res)"
    "be_kernel env = Some ker" "ci' = set_phys_base p ci"
    "emulate_kernel_boot (be_config env) ker \<lparr>mr_base = p, mr_end = p + (hi - lo)\<rparr> \<lparr>mr_base = lo, mr_end = hi\<rparr>
       = (Inr boot :: (main_error, boot_info) res)"
proof -
  from assms obtain lo hi mem reg p mem' low ker where s:
    "image_bound ci = (Inr (lo, hi) :: (main_error, u64 \<times> u64) res)" "ci' = set_phys_base p ci"
    "lowest_vaddr (ci_elf ci) = (Inr low :: (main_error, u64) res)" "be_kernel env = Some ker"
    "emulate_kernel_boot (be_config env) ker \<lparr>mr_base = p, mr_end = p + (hi - lo)\<rparr> \<lparr>mr_base = low, mr_end = hi\<rparr>
       = (Inr boot :: (main_error, boot_info) res)"
    unfolding emulate_boot_def Let_def
    by (auto simp: bindr_eq_Inr unwrapr_def set_phys_base_def split: option.splits prod.splits)
  have "low = lo" using s(1,3) by (auto simp: image_bound_def bindr_eq_Inr)
  with s that show thesis by blast
qed

lemma written_loader_boots:
  assumes built: "built_from codec benv s (st, spec, Some boot)" "arch (be_config benv) \<noteq> X86_64"
    and bound: "image_bound (bs_initialiser st) = (Inr (lo, hi) :: ('e, u64 \<times> u64) res)"
    and ld: "loader_new (be_config benv) p c ker (ci_elf (bs_initialiser st)) base (lo, hi) = Inr ld"
    and pieces: "be_kernel benv = Some ker" "ci_phys_base (bs_initialiser st) = Some base"
  shows "boots_as_emulated (be_config benv) ker (ci_elf (bs_initialiser st)) (ld_header ld) boot"
proof -
  from built obtain ci0 ci where e: "emulate_boot benv ci0 = Inr (ci, boot)"
    "add_expected_untypeds (untyped_objects boot) ci = (Inr (bs_initialiser st) :: (main_error, capdl_initialiser) res)"
    by (auto simp: built_from_def)
  from emulate_boot_facts [OF e(1)] pieces(1) obtain lo0 hi0 q where
    b: "image_bound ci0 = (Inr (lo0, hi0) :: (main_error, u64 \<times> u64) res)" "ci = set_phys_base q ci0"
    "emulate_kernel_boot (be_config benv) ker \<lparr>mr_base = q, mr_end = q + (hi0 - lo0)\<rparr> \<lparr>mr_base = lo0, mr_end = hi0\<rparr>
       = (Inr boot :: (main_error, boot_info) res)"
    by (metis option.inject)
  note ext = add_expected_untypeds_extent [OF e(2)]
  then have "list_all2 same_extent (segments (ci_elf ci0)) (segments (ci_elf (bs_initialiser st)))"
    and q: "q = base" using b(2) pieces(2) by (simp_all add: set_phys_base_def)
  from image_bound_eq [OF this(1) b(1)] bound
  have "lo0 = lo" "hi0 = hi" "lowest_vaddr (ci_elf (bs_initialiser st)) = (Inr lo :: (main_error, u64) res)"
    by (metis (no_types, lifting) Pair_inject sum.inject(2))+
  with loader_new_header [OF ld] b(3) q show ?thesis by (simp add: boots_as_emulated_def)
qed

section \<open>A run of the tool\<close>

lemma load_system_facts:
  assumes "load_system env args paths xml cfg = Inr (benv, st)"
  shows "be_config benv = cfg \<and> word_size cfg = 64
    \<and> sdf_parse (env_exists (te_sdk env)) (fs_contents env) (te_xml env xml) cfg (ar_search_paths args) = Inr (bs_system st)"
  using assms unfolding load_system_def
  by (auto simp: bindr_eq_Inr assertr_eq_Inr lift_err_eq_Inr split: if_splits)

lemma write_report_facts:
  "write_report env spec cfg p = (Inr f :: ('e, string \<times> u8 list) res) \<Longrightarrow>
     \<exists>body. report_text spec cfg = Inr body \<and> f = (p, string_bytes body)"
  by (auto simp: write_report_def bindr_eq_Inr unwrap_res_eq_Inr split: option.splits)

lemma write_boot_module_facts:
  assumes "write_boot_module env kernel_path p elf = Inr img"
  shows "\<exists>bytes files. to_files img = (p, bytes) # files \<and> reserialise None elf = Inr bytes"
  using assms
  by (cases "te_create_error env p") (auto simp: write_boot_module_def bindr_eq_Inr lift_err_eq_Inr reserialise_def)

lemma write_loader_image_facts:
  fixes env :: "('io, 'j, 'o, 'r) tool_env"
  assumes "write_loader_image env benv lp ity p rg ci = Inr img"
  shows "\<exists>ker base ld bytes. be_kernel benv = Some ker \<and> ci_phys_base ci = Some base
    \<and> loader_new (be_config benv) lp (te_read env lp) ker (ci_elf ci) base rg = Inr ld
    \<and> write_loader env ity p ld = (Inr bytes :: ('io tool_error, u8 list) res) \<and> to_files img = [(p, bytes)]"
  using assms unfolding write_loader_image_def
  by (auto simp: bindr_eq_Inr lift_err_eq_Inr unwrapr_def split: option.splits)

lemma write_out_facts:
  fixes env :: "('io, 'j, 'o, 'r) tool_env"
  assumes "write_out env args paths ity benv st spec = Inr out"
  obtains lo hi img files body where
    "image_bound (bs_initialiser st) = (Inr (lo, hi) :: ('io tool_error, u64 \<times> u64) res)"
    "to_files out = to_files img @ files @ [(ar_report_path args, string_bytes body)]"
    "report_text spec (be_config benv) = Inr body"
    "(if arch (be_config benv) = X86_64
      then write_boot_module env (tp_kernel paths) (ar_output_path args) (ci_elf (bs_initialiser st))
      else write_loader_image env benv (tp_loader paths) ity (ar_output_path args) (lo, hi) (bs_initialiser st)) = Inr img"
proof -
  have arch: "(case arch (be_config benv) of X86_64 \<Rightarrow> x | _ \<Rightarrow> y) = (if arch (be_config benv) = X86_64 then x else y)"
    for x y :: "('io tool_error, tool_output) res" by (cases "arch (be_config benv)") simp_all
  from assms obtain lo hi img json_files viper_files report_file where
    "image_bound (bs_initialiser st) = (Inr (lo, hi) :: ('io tool_error, u64 \<times> u64) res)"
    "to_files out = to_files img @ json_files @ viper_files @ [report_file]"
    "write_report env spec (be_config benv) (ar_report_path args) = (Inr report_file :: ('io tool_error, _) res)"
    "(if arch (be_config benv) = X86_64
      then write_boot_module env (tp_kernel paths) (ar_output_path args) (ci_elf (bs_initialiser st))
      else write_loader_image env benv (tp_loader paths) ity (ar_output_path args) (lo, hi) (bs_initialiser st)) = Inr img"
    unfolding write_out_def Let_def arch bindr_eq_Inr by (elim exE conjE) (auto simp: bindr_eq_Inr)
  with write_report_facts that [of lo hi img "json_files @ viper_files"] show thesis by fastforce
qed

text \<open>C2: A run of the tool that ends well has read a description that it accepts, on a machine of 64 bits, and has
  built a system from it whose programs, specification and addresses belong together.  The first file it writes is
  the image, of the type that was asked for, and the last is the report.  On ARM and RISC-V the header of the image
  hands the kernel the place of the initial task with which the boot was emulated, so that the memory in which the
  simulation placed all objects of the specification is the memory that the kernel leaves; on x86 the image is the
  initial task with the specification in it.\<close>

theorem tool_main_image:
  fixes env :: "('io, 'j, 'o, 'r) tool_env"
  shows "case tool_main env of
      Inl e \<Rightarrow> (exit_status (tool_main env) = 0) = (\<exists>help. e = Err (HelpPrinted help))
    | Inr out \<Rightarrow> \<exists>current_config args paths xml cfg image_type benv st0 s st spec info image_file files body.
        tool_arguments env = Inr (current_config, args) \<and> paths = tool_paths_of current_config args
        \<and> tool_settings env args paths = Inr (xml, cfg, image_type)
        \<and> word_size cfg = 64 \<and> be_config benv = cfg
        \<and> sdf_parse (env_exists (te_sdk env)) (fs_contents env) (te_xml env xml) cfg (ar_search_paths args)
            = Inr (bs_system st0)
        \<and> (\<exists>it < 3. reached (te_codec env) benv st0 it s) \<and> built_from (te_codec env) benv s (st, spec, info)
        \<and> to_files out = (ar_output_path args, image_file) # files @ [(ar_report_path args, string_bytes body)]
        \<and> report_text spec cfg = Inr body
        \<and> (if arch cfg = X86_64
           then reserialise None (ci_elf (bs_initialiser st)) = Inr image_file
           else \<exists>boot ker rg base ld. info = Some boot \<and> be_kernel benv = Some ker
             \<and> loader_new cfg (tp_loader paths) (te_read env (tp_loader paths)) ker (ci_elf (bs_initialiser st)) base rg
                 = Inr ld
             \<and> write_loader env image_type (ar_output_path args) ld = (Inr image_file :: ('io tool_error, u8 list) res)
             \<and> boots_as_emulated cfg ker (ci_elf (bs_initialiser st)) (ld_header ld) boot)"
proof (cases "tool_main env")
  case (Inl e)
  then show ?thesis by (auto simp: exit_status_def split: failure.splits tool_error.splits)
next
  case (Inr out)
  then obtain current_config args paths xml cfg image_type benv st0 st spec info where
    a: "tool_arguments env = Inr (current_config, args)" and p: "paths = tool_paths_of current_config args"
    and c: "tool_settings env args paths = Inr (xml, cfg, image_type)"
    and l: "load_system env args paths xml cfg = Inr (benv, st0)"
    and b: "build_system (te_codec env) benv st0 = Inr (st, spec, info)"
    and w: "write_out env args paths image_type benv st spec = Inr out"
    unfolding tool_main_def Let_def by (auto simp: bindr_eq_Inr lift_err_eq_Inr)
  note sys = load_system_facts [OF l]
  then have cfg: "be_config benv = cfg" by simp
  from b build_loop_outcome [OF reached.start, of MAX_BUILD_ITERATION "te_codec env" benv st0] obtain it s where
    r: "reached (te_codec env) benv st0 it s" "it < 3" and f: "built_from (te_codec env) benv s (st, spec, info)"
    by (auto simp: build_system_def MAX_BUILD_ITERATION_def)
  from write_out_facts [OF w] obtain lo hi img files body where
    o: "image_bound (bs_initialiser st) = (Inr (lo, hi) :: ('io tool_error, u64 \<times> u64) res)"
      "to_files out = to_files img @ files @ [(ar_report_path args, string_bytes body)]"
      "report_text spec (be_config benv) = Inr body"
      "(if arch (be_config benv) = X86_64
        then write_boot_module env (tp_kernel paths) (ar_output_path args) (ci_elf (bs_initialiser st))
        else write_loader_image env benv (tp_loader paths) image_type (ar_output_path args) (lo, hi) (bs_initialiser st))
        = Inr img" .
  have "\<exists>image_file more. to_files img = (ar_output_path args, image_file) # more
      \<and> (if arch cfg = X86_64
         then reserialise None (ci_elf (bs_initialiser st)) = Inr image_file
         else \<exists>boot ker rg base ld. info = Some boot \<and> be_kernel benv = Some ker
           \<and> loader_new cfg (tp_loader paths) (te_read env (tp_loader paths)) ker (ci_elf (bs_initialiser st)) base rg
               = Inr ld
           \<and> write_loader env image_type (ar_output_path args) ld = (Inr image_file :: ('io tool_error, u8 list) res)
           \<and> boots_as_emulated cfg ker (ci_elf (bs_initialiser st)) (ld_header ld) boot)"
  proof (cases "arch cfg = X86_64")
    case True
    with o(4) cfg write_boot_module_facts show ?thesis by fastforce
  next
    case False
    with o(4) cfg write_loader_image_facts obtain ker base ld bytes where
      k: "be_kernel benv = Some ker" "ci_phys_base (bs_initialiser st) = Some base"
        "loader_new cfg (tp_loader paths) (te_read env (tp_loader paths)) ker (ci_elf (bs_initialiser st)) base (lo, hi)
           = Inr ld" "write_loader env image_type (ar_output_path args) ld = (Inr bytes :: ('io tool_error, u8 list) res)"
        "to_files img = [(ar_output_path args, bytes)]" by fastforce
    from f False cfg obtain boot where boot: "info = Some boot" by (auto simp: built_from_def)
    have "boots_as_emulated cfg ker (ci_elf (bs_initialiser st)) (ld_header ld) boot"
      using written_loader_boots [OF f [unfolded boot] _ o(1), unfolded cfg, OF False k(3,1,2)] .
    with k boot False show ?thesis by auto
  qed
  then obtain image_file more where "to_files img = (ar_output_path args, image_file) # more" and
    i: "if arch cfg = X86_64 then reserialise None (ci_elf (bs_initialiser st)) = Inr image_file
         else \<exists>boot ker rg base ld. info = Some boot \<and> be_kernel benv = Some ker
           \<and> loader_new cfg (tp_loader paths) (te_read env (tp_loader paths)) ker (ci_elf (bs_initialiser st)) base rg
               = Inr ld
           \<and> write_loader env image_type (ar_output_path args) ld = (Inr image_file :: ('io tool_error, u8 list) res)
           \<and> boots_as_emulated cfg ker (ci_elf (bs_initialiser st)) (ld_header ld) boot" by blast
  with o(2) have "to_files out = (ar_output_path args, image_file) # (more @ files) @ [(ar_report_path args, string_bytes body)]"
    by simp
  moreover have "word_size cfg = 64"
    "sdf_parse (env_exists (te_sdk env)) (fs_contents env) (te_xml env xml) cfg (ar_search_paths args) = Inr (bs_system st0)"
    using sys by simp_all
  ultimately show ?thesis using a p c cfg r f o(3) [unfolded cfg] i unfolding Inr sum.case
    by (intro exI conjI)
qed

end
