(* ===== verification/Image_Paddrs.thy ===== *)
theory Image_Paddrs
  imports Image_Build
begin

unbundle bit_operations_syntax

text \<open>
  The addresses that the build picks for the memory regions of a system, \<open>main.rs\<close>: where they lie, and what
  they keep clear of.
\<close>

section \<open>Where the addresses come from\<close>

definition normal_memory :: "boot_info \<Rightarrow> u64 set" where
  "normal_memory boot = (\<Union>ut \<in> set (filter (\<lambda>ut. \<not> ut_is_device ut) (untyped_objects boot)). {ut_base ut..<ut_end ut})"

definition below_top :: "u64 set" where
  "below_top = {x. unat x + 0x200000 < 2 ^ 64}"

abbreviation block :: "u64 \<Rightarrow> u64 \<Rightarrow> u64 set" where
  "block p sz \<equiv> {p..<p + sz}"

lemma available_user_memory_facts:
  assumes "available_user_memory cfg boot = Inr mem"
  shows "dmr_inv mem \<and> dmr_covered mem \<subseteq> normal_memory boot"
  using assms unfolding available_user_memory_def
proof (rule foldM_inv [where I = "\<lambda>mem. dmr_inv mem \<and> dmr_covered mem \<subseteq> normal_memory boot"])
  show "dmr_inv dmr_default \<and> dmr_covered dmr_default \<subseteq> normal_memory boot" by simp
next
  fix s ut t
  assume s: "dmr_inv s \<and> dmr_covered s \<subseteq> normal_memory boot"
    and ut: "ut \<in> set (filter (\<lambda>ut. \<not> ut_is_device ut) (untyped_objects boot))"
    and t: "bindr (round_up (ut_base ut) (minimum_page_size cfg)) (\<lambda>start.
       bindr (round_down (ut_end ut) (minimum_page_size cfg)) (\<lambda>end_addr.
         if end_addr > start then insert_region (ut_base ut) (ut_end ut) s else Inr s)) = Inr t"
  have "{ut_base ut..<ut_end ut} \<subseteq> normal_memory boot" using ut unfolding normal_memory_def by blast
  with s t show "dmr_inv t \<and> dmr_covered t \<subseteq> normal_memory boot"
    by (auto simp: bindr_eq_Inr insert_region_ok subset_iff split: if_splits)
qed

lemma region_below_top:
  assumes "dmr_inv d" "dmr_covered d \<subseteq> below_top" "r \<in> set (regions d)"
  shows "unat (mr_end r) + 0x200000 \<le> 2 ^ 64"
proof -
  from assms(1,3) have lt: "mr_base r < mr_end r" by (simp add: dmr_inv_def)
  then have "mr_end r \<noteq> 0" by auto
  then have u: "unat (mr_end r - 1) = unat (mr_end r) - 1" and pos: "0 < unat (mr_end r)"
    by (simp_all add: unat_minus_one unat_gt_0)
  have "mr_end r - 1 \<in> {mr_base r..<mr_end r}"
    using lt u pos by (auto simp: word_le_nat_alt word_less_nat_alt)
  then have "mr_end r - 1 \<in> dmr_covered d" unfolding covered_def by (rule UN_I [OF assms(3)])
  with assms(2) have "mr_end r - 1 \<in> below_top" by (rule subsetD)
  with u pos show ?thesis by (simp add: below_top_def)
qed

text \<open>An allocation takes an aligned block.\<close>

lemma allocated_block:
  assumes inv: "dmr_inv d" and top: "dmr_covered d \<subseteq> below_top"
    and al: "dmr_allocate sz pg d = (Inr (Some b, d') :: ('e, _) res)"
  shows "dmr_inv d'" "dmr_covered d' = dmr_covered d - block b sz" "block b sz \<subseteq> dmr_covered d"
    "unat (page_size_u64 pg) dvd unat b" "unat b + unat sz < 2 ^ 64"
proof -
  have ends: "\<forall>r \<in> set (regions d). unat (mr_end r) + unat (page_size_u64 pg) \<le> 2 ^ 64"
    using region_below_top [OF inv top] by (cases pg) fastforce+
  have wf: "\<forall>r \<in> set (regions d). mr_base r < mr_end r" using inv by (simp add: dmr_inv_def)
  obtain r where found: "find (\<lambda>r. \<exists>b. block_fits sz (page_size_u64 pg) r b) (regions d) = Some r"
    using al find_alloc_eq [of "regions d" "page_size_u64 pg" sz, where ?'e = 'e] wf ends
    by (cases "find (\<lambda>r. \<exists>b. block_fits sz (page_size_u64 pg) r b) (regions d)") (simp_all add: dmr_allocate_def)
  from dmr_allocate_some [OF inv ends found, where ?'e = 'e] al
  have f: "dmr_inv d'" "dmr_covered d' = dmr_covered d - block b sz" "block_fits sz (page_size_u64 pg) r b" by auto
  from found have r: "r \<in> set (regions d)" by (auto dest: find_first)
  show "dmr_inv d'" "dmr_covered d' = dmr_covered d - block b sz" "unat (page_size_u64 pg) dvd unat b"
    using f by (simp_all add: block_fits_def)
  show lt: "unat b + unat sz < 2 ^ 64" using f(3) u64_lt [of "mr_end r"] by (simp add: block_fits_def)
  then have "unat (b + sz) = unat b + unat sz" by (simp only: unat_add_no_overflow len64_eq)
  with f(3) r show "block b sz \<subseteq> dmr_covered d"
    by (force simp: block_fits_def covered_def word_le_nat_alt word_less_nat_alt)
qed

section \<open>Memory in one piece\<close>

text \<open>Untypeds in ascending order: each lies above those before it.\<close>

definition ascending :: "untyped_object list \<Rightarrow> bool" where
  "ascending uts \<longleftrightarrow> sorted_wrt (\<lambda>u v. ut_end u \<le> ut_base v) uts"

text \<open>No region ends where another begins.\<close>

definition merged :: "disjoint_memory_region \<Rightarrow> bool" where
  "merged d \<longleftrightarrow> (\<forall>r \<in> set (regions d). \<forall>r' \<in> set (regions d). mr_end r \<noteq> mr_base r')"

lemma insert_region_above:
  assumes ins: "insert_region b e d = (Inr d' :: ('e, _) res)" and inv: "dmr_inv d" "merged d"
    and above: "\<forall>r \<in> set (regions d). mr_end r \<le> b"
  shows "merged d' \<and> (\<forall>r \<in> set (regions d'). mr_end r \<le> e)"
proof (cases "regions d = []")
  case True
  with ins show ?thesis by (auto simp: insert_region_def merged_def bindr_eq_Inr assertr_def split: if_splits)
next
  case False
  then obtain rs l where rs: "regions d = rs @ [l]" by (metis append_butlast_last_id)
  from ins have be: "b < e" by (auto simp: insert_region_def bindr_eq_Inr assertr_def split: if_splits)
  from inv(1) have wf: "\<forall>r \<in> set (regions d). mr_base r < mr_end r" by (simp add: dmr_inv_def)
  from wf above be have low: "mr_base r < e" "mr_end r \<le> b" "mr_base r < b" "mr_end r \<le> e" if "r \<in> set (regions d)" for r
    using that by force+
  from low(1) have idx: "insert_index e (regions d) = length (regions d)"
    unfolding insert_index_def by (subst takeWhile_eq_all_conv [THEN iffD2]) (auto simp: not_le)
  have new: "regions d' = (if mr_end l = b then rs @ [l\<lparr>mr_end := e\<rparr>] else rs @ [l, mk_region b e])"
    using ins False idx by (auto simp: insert_region_def Let_def bindr_eq_Inr insert_raw_def rs)
  have before: "mr_end r < b" if "r \<in> set rs" for r
  proof -
    from inv(1) that have "mr_end r \<le> mr_base l" by (auto simp: dmr_inv_def rs sorted_wrt_append)
    with low(3) [of l] show ?thesis by (simp add: rs)
  qed
  have "merged d'"
    using inv(2) before low be unfolding merged_def new rs by (auto simp: less_le_not_le)
  moreover have "\<forall>r \<in> set (regions d'). mr_end r \<le> e"
    using low(4) unfolding new rs by auto
  ultimately show ?thesis by simp
qed

lemma available_merged:
  assumes "available_user_memory cfg boot = (Inr mem :: ('e, _) res)"
    and asc: "ascending (filter (\<lambda>ut. \<not> ut_is_device ut) (untyped_objects boot))"
  shows "merged mem"
proof -
  let ?uts = "filter (\<lambda>ut. \<not> ut_is_device ut) (untyped_objects boot)"
  let ?I = "\<lambda>ys m. dmr_inv m \<and> merged m \<and> (\<forall>r \<in> set (regions m). \<exists>ut \<in> set ys. mr_end r \<le> ut_end ut)"
  have "?I ?uts mem"
  proof (rule foldM_inv_split [OF assms(1) [unfolded available_user_memory_def], where I = ?I])
    show "?I [] dmr_default" by (simp add: merged_def dmr_default_def dmr_inv_def)
  next
    fix ys ut zs m t
    assume sp: "?uts = ys @ ut # zs" and I: "?I ys m"
      and t: "bindr (round_up (ut_base ut) (minimum_page_size cfg)) (\<lambda>start.
         bindr (round_down (ut_end ut) (minimum_page_size cfg)) (\<lambda>end_addr.
           if end_addr > start then insert_region (ut_base ut) (ut_end ut) m else Inr m)) = (Inr t :: ('e, _) res)"
    from asc sp have "\<forall>u \<in> set ys. ut_end u \<le> ut_base ut"
      by (simp add: ascending_def sorted_wrt_append)
    with I have above: "\<forall>r \<in> set (regions m). mr_end r \<le> ut_base ut" by (meson order.trans)
    from t consider "t = m" | "insert_region (ut_base ut) (ut_end ut) m = (Inr t :: ('e, _) res)"
      by (auto simp: bindr_eq_Inr split: if_splits)
    then show "?I (ys @ [ut]) t"
    proof cases
      case 1
      with I show ?thesis by auto
    next
      case 2
      from I have m: "dmr_inv m" "merged m" by simp_all
      from insert_region_above [OF 2 m above] insert_region_ok(1) [OF m(1) 2] show ?thesis by auto
    qed
  qed
  then show ?thesis by simp
qed

lemma sorted_wrt_related:
  "sorted_wrt R xs \<Longrightarrow> x \<in> set xs \<Longrightarrow> y \<in> set xs \<Longrightarrow> x = y \<or> R x y \<or> R y x"
  by (induction xs) auto

text \<open>What lies in such memory lies in one region of it.\<close>

lemma merged_contains:
  assumes inv: "dmr_inv d" "merged d" and lt: "a < c" and sub: "{a..<c} \<subseteq> dmr_covered d"
  shows "\<exists>r \<in> set (regions d). region_contains a c r"
proof -
  from lt sub have "a \<in> dmr_covered d" by auto
  then obtain r where r: "r \<in> set (regions d)" "mr_base r \<le> a" "a < mr_end r" by (auto simp: covered_def)
  show ?thesis
  proof (cases "c \<le> mr_end r")
    case True
    with r show ?thesis by (auto simp: region_contains_def)
  next
    case False
    with r(3) have "mr_end r \<in> {a..<c}" by auto
    with sub have "mr_end r \<in> dmr_covered d" by blast
    then obtain r' where r': "r' \<in> set (regions d)" "mr_base r' \<le> mr_end r" "mr_end r < mr_end r'"
      by (auto simp: covered_def)
    from inv(2) r(1) r'(1) have "mr_end r \<noteq> mr_base r'" by (simp add: merged_def)
    with r'(2) have "mr_base r' < mr_end r" by simp
    moreover have "r = r' \<or> mr_end r \<le> mr_base r' \<or> mr_end r' \<le> mr_base r"
      using sorted_wrt_related [OF _ r(1) r'(1)] inv(1) by (auto simp: dmr_inv_def)
    moreover have "mr_base r < mr_end r" using inv(1) r(1) by (simp add: dmr_inv_def)
    ultimately show ?thesis using r'(3) by (auto simp: not_le)
  qed
qed

section \<open>Specified regions\<close>

text \<open>A removal beside an interval leaves that interval in one region.\<close>

lemma remove_region_beside:
  assumes rem: "remove_region b e d = (Inr d' :: ('e, _) res)" and le: "b \<le> e"
    and r: "r \<in> set (regions d)" "region_contains a c r" and lt: "a < c" and beside: "e \<le> a \<or> c \<le> b"
  shows "\<exists>r \<in> set (regions d'). region_contains a c r"
proof -
  note ex = remove_region_contained [OF rem]
  note f = takeWhile_first [OF ex]
  let ?i = "length (takeWhile (\<lambda>r. \<not> region_contains b e r) (regions d))"
  let ?r = "regions d ! ?i"
  from rem f(1) have "regions d' = remove_raw b e ?i (regions d)"
    by (auto simp: remove_region_def Let_def bindr_eq_Inr)
  with remove_raw_split [OF f(3), of ?i b e] f(1) have new: "regions d' = take ?i (regions d)
      @ (if mr_base ?r = b \<and> mr_end ?r = e then []
           else if mr_base ?r = b then [mk_region e (mr_end ?r)]
           else if mr_end ?r = e then [mk_region (mr_base ?r) b]
           else [mk_region (mr_base ?r) b, mk_region e (mr_end ?r)]) @ drop (Suc ?i) (regions d)"
    by simp
  from r(1) f(3) consider "r = ?r" | "r \<in> set (take ?i (regions d)) \<union> set (drop (Suc ?i) (regions d))"
    by (metis UnI1 UnI2 list.set_cases set_ConsD set_append Un_iff)
  then show ?thesis
  proof cases
    case 1
    with r(2) lt beside le show ?thesis unfolding new by (auto simp: region_contains_def)
  next
    case 2
    with r(2) show ?thesis unfolding new by auto
  qed
qed

text \<open>The addresses of an interval kept clear of by every other region with an address of its own are free to be
  removed, whatever was removed before.\<close>

definition keeps_clear :: "u64 \<Rightarrow> u64 \<Rightarrow> sys_memory_region \<Rightarrow> bool" where
  "keeps_clear a c mr = (case smr_phys_addr mr of
      Specified p \<Rightarrow> p \<le> p + smr_size mr \<and> (p + smr_size mr \<le> a \<or> c \<le> p) | _ \<Rightarrow> True)"

lemma take_specified_ok:
  assumes "dmr_inv mem" "take_specified mem mr = Inr mem'"
    and "case smr_phys_addr mr of Specified p \<Rightarrow> p \<le> p + smr_size mr | _ \<Rightarrow> True"
  shows "dmr_inv mem' \<and> dmr_covered mem' \<subseteq> dmr_covered mem"
  using assms
  by (auto simp: take_specified_def Let_def remove_region_ok(1,2) split: sys_memory_region_paddr.splits if_splits)

lemma take_specified_beside:
  assumes "take_specified mem mr = Inr mem'" "keeps_clear a c mr" "a < c"
    and "\<exists>r \<in> set (regions mem). region_contains a c r"
  shows "\<exists>r \<in> set (regions mem'). region_contains a c r"
  using assms
  by (auto simp: take_specified_def keeps_clear_def Let_def split: sys_memory_region_paddr.splits if_splits
      intro: remove_region_beside)

lemma take_all_specified:
  assumes "foldM take_specified mem mrs = Inr mem'" "dmr_inv mem"
    and wf: "\<forall>mr \<in> set mrs. case smr_phys_addr mr of Specified p \<Rightarrow> p \<le> p + smr_size mr | _ \<Rightarrow> True"
  shows "dmr_inv mem' \<and> dmr_covered mem' \<subseteq> dmr_covered mem"
  by (rule foldM_inv [OF assms(1)]) (use assms(2) wf take_specified_ok in blast)+

lemma take_specified_contained:
  assumes "take_specified mem mr = (Inr mem' :: ('e, _) res)" "dmr_inv mem" "smr_phys_addr mr = Specified a" "a < a + smr_size mr"
    and "\<exists>r \<in> set (regions mem). region_contains a (a + smr_size mr) r"
  shows "dmr_covered mem' \<inter> block a (smr_size mr) = {}"
proof -
  from assms(4,5) have "list_ex (\<lambda>region. a \<ge> mr_base region \<and> a < mr_end region
      \<and> a + smr_size mr \<le> mr_end region) (regions mem)"
    by (auto simp: list_ex_iff region_contains_def)
  with assms(1,3) have "remove_region a (a + smr_size mr) mem = (Inr mem' :: ('e, _) res)"
    by (simp add: take_specified_def Let_def)
  from remove_region_ok(2) [OF assms(2) less_imp_le [OF assms(4)] this] show ?thesis by auto
qed

lemma take_all_clear:
  assumes fold: "foldM take_specified mem mrs = Inr mem'" and inv: "dmr_inv mem"
    and wf: "\<forall>mr \<in> set mrs. case smr_phys_addr mr of Specified p \<Rightarrow> p \<le> p + smr_size mr | _ \<Rightarrow> True"
    and k: "k < length mrs" "smr_phys_addr (mrs ! k) = Specified a" "a < a + smr_size (mrs ! k)"
    and r: "\<exists>r \<in> set (regions mem). region_contains a (a + smr_size (mrs ! k)) r"
    and clear: "\<forall>j < length mrs. j \<noteq> k \<longrightarrow> keeps_clear a (a + smr_size (mrs ! k)) (mrs ! j)"
  shows "dmr_covered mem' \<inter> block a (smr_size (mrs ! k)) = {}"
proof -
  let ?I = "\<lambda>ys m. dmr_inv m
    \<and> (length ys \<le> k \<longrightarrow> (\<exists>r \<in> set (regions m). region_contains a (a + smr_size (mrs ! k)) r))
    \<and> (k < length ys \<longrightarrow> dmr_covered m \<inter> block a (smr_size (mrs ! k)) = {})"
  have "?I mrs mem'"
  proof (rule foldM_inv_split [OF fold, where I = ?I])
    show "?I [] mem" using inv r by simp
  next
    fix ys mr zs m t
    assume sp: "mrs = ys @ mr # zs" and I: "?I ys m" and t: "take_specified m mr = Inr t"
    from sp wf have wf': "case smr_phys_addr mr of Specified p \<Rightarrow> p \<le> p + smr_size mr | _ \<Rightarrow> True" by auto
    note ok = take_specified_ok [OF conjunct1 [OF I] t wf']
    from sp have at: "mrs ! length ys = mr" "length ys < length mrs" by simp_all
    consider "length ys < k" | "length ys = k" | "k < length ys" by linarith
    then show "?I (ys @ [mr]) t"
    proof cases
      case 1
      with clear at have "keeps_clear a (a + smr_size (mrs ! k)) mr" by (metis nat_neq_iff)
      with take_specified_beside [OF t this k(3)] I 1 ok show ?thesis by simp
    next
      case 2
      with at have "mr = mrs ! k" by simp
      with take_specified_contained [OF t] I 2 k ok show ?thesis by simp
    next
      case 3
      with I ok show ?thesis by auto
    qed
  qed
  with k(1) show ?thesis by simp
qed

section \<open>The addresses picked\<close>

text \<open>Region \<open>i\<close> of the system is one of those that had no address and now have the address \<open>p\<close>.\<close>

definition picked :: "sys_memory_region list \<Rightarrow> sys_memory_region list \<Rightarrow> nat \<Rightarrow> u64 \<Rightarrow> bool" where
  "picked old new i p \<longleftrightarrow> i < length old \<and> smr_phys_addr (old ! i) = ToolAllocated None
     \<and> smr_phys_addr (new ! i) = ToolAllocated (Some p)"

text \<open>The address is aligned, and the region at it lies in the given memory.\<close>

definition addresses :: "sys_memory_region \<Rightarrow> u64 \<Rightarrow> u64 set" where
  "addresses mr p = {p..<p + smr_size mr}"

definition placed_at :: "u64 set \<Rightarrow> sys_memory_region \<Rightarrow> u64 \<Rightarrow> bool" where
  "placed_at A mr p \<longleftrightarrow> unat (page_size_u64 (smr_page_size mr)) dvd unat p \<and> unat p + unat (smr_size mr) < 2 ^ 64
     \<and> addresses mr p \<subseteq> A"

lemma picked_snoc:
  assumes "length new = length old"
  shows "picked (old @ [mr]) (new @ [mr']) i p \<longleftrightarrow> picked old new i p
    \<or> i = length old \<and> smr_phys_addr mr = ToolAllocated None \<and> smr_phys_addr mr' = ToolAllocated (Some p)"
  using assms by (auto simp: picked_def nth_append less_Suc_eq)

lemma picked_less: "picked old new i p \<Longrightarrow> i < length old"
  by (simp add: picked_def)

lemma pick_fold_blocks:
  assumes fold: "foldM pick_address (mem, [], False) mrs = Inr (mem', mrs', need)"
    and inv: "dmr_inv mem" and top: "dmr_covered mem \<subseteq> below_top"
  shows "(\<forall>i p. picked mrs mrs' i p \<longrightarrow> placed_at (dmr_covered mem) (mrs ! i) p)
    \<and> (\<forall>i j p q. i < j \<and> picked mrs mrs' i p \<and> picked mrs mrs' j q \<longrightarrow>
          addresses (mrs ! i) p \<inter> addresses (mrs ! j) q = {})"
proof -
  let ?I = "\<lambda>ys (m, ms, need :: bool). length ms = length ys \<and> dmr_inv m \<and> dmr_covered m \<subseteq> dmr_covered mem
    \<and> (\<forall>i p. picked ys ms i p \<longrightarrow> placed_at (dmr_covered mem) (ys ! i) p \<and> addresses (ys ! i) p \<inter> dmr_covered m = {})
    \<and> (\<forall>i j p q. i < j \<and> picked ys ms i p \<and> picked ys ms j q \<longrightarrow>
          addresses (ys ! i) p \<inter> addresses (ys ! j) q = {})"
  have "?I mrs (mem', mrs', need)"
  proof (rule foldM_inv_prefix [OF fold, where I = ?I])
    show "?I [] (mem, [], False)" using inv by (simp add: picked_def)
  next
    fix ys mr s t
    assume I: "?I ys s" and t: "pick_address s mr = Inr t"
    obtain m ms need where s: "s = (m, ms, need)" by (cases s)
    with I have len: "length ms = length ys" and m: "dmr_inv m" "dmr_covered m \<subseteq> dmr_covered mem" by simp_all
    show "?I (ys @ [mr]) t"
    proof (cases "smr_phys_addr mr = ToolAllocated None")
      case False
      with t s have t': "t = (m, ms @ [mr], need)" by (simp add: pick_address_def)
      show ?thesis
        using I False unfolding s t' prod.case picked_snoc [OF len]
        by (intro conjI allI impI; elim conjE; simp add: nth_append_left [OF picked_less])
    next
      case True
      with t s obtain q m' where al: "dmr_allocate (smr_size mr) (smr_page_size mr) m = (Inr (Some q, m') :: (main_error, _) res)"
        and t': "t = (m', ms @ [mr\<lparr>smr_phys_addr := ToolAllocated (Some q)\<rparr>], True)"
        by (auto simp: pick_address_def bindr_eq_Inr split: option.splits)
      note b = allocated_block [OF m(1) order.trans [OF m(2) top] al]
      have new: "placed_at (dmr_covered mem) mr q" "addresses mr q \<subseteq> dmr_covered m" "addresses mr q \<inter> dmr_covered m' = {}"
        and sub: "dmr_covered m' \<subseteq> dmr_covered m"
        using b m(2) unfolding placed_at_def addresses_def by auto
      let ?ms = "ms @ [mr\<lparr>smr_phys_addr := ToolAllocated (Some q)\<rparr>]"
      have before: "placed_at (dmr_covered mem) (ys ! i) p" "addresses (ys ! i) p \<inter> dmr_covered m = {}"
        if "picked ys ms i p" for i p using I s that by auto
      have "placed_at (dmr_covered mem) ((ys @ [mr]) ! i) p \<and> addresses ((ys @ [mr]) ! i) p \<inter> dmr_covered m' = {}"
        if "picked (ys @ [mr]) ?ms i p" for i p
        using that new sub before [of i p] unfolding picked_snoc [OF len]
        by (elim disjE) (simp_all add: nth_append_left [OF picked_less], blast)
      moreover have "addresses ((ys @ [mr]) ! i) p \<inter> addresses ((ys @ [mr]) ! j) r = {}"
        if "i < j \<and> picked (ys @ [mr]) ?ms i p \<and> picked (ys @ [mr]) ?ms j r" for i j p r
      proof -
        from that have i: "picked ys ms i p" "(ys @ [mr]) ! i = ys ! i"
          unfolding picked_snoc [OF len] by (auto simp: nth_append dest: picked_less)
        from that consider "picked ys ms j r" "j < length ys" | "(ys @ [mr]) ! j = mr" "r = q"
          unfolding picked_snoc [OF len] by (auto dest: picked_less)
        then show ?thesis
        proof cases
          case 1
          with I s i that show ?thesis by (simp add: nth_append_left)
        next
          case 2
          with before(2) [OF i(1)] i(2) new(2) show ?thesis by auto
        qed
      qed
      ultimately show ?thesis using len b(1) sub m(2) unfolding t' by auto
    qed
  qed
  then show ?thesis by auto
qed

text \<open>Region \<open>k\<close> has an address of its own, and every other region with an address of its own keeps clear of it, as the
  parser of the description checks.\<close>

definition specified_at :: "sys_memory_region list \<Rightarrow> nat \<Rightarrow> u64 \<Rightarrow> bool" where
  "specified_at mrs k a \<longleftrightarrow> k < length mrs \<and> smr_phys_addr (mrs ! k) = Specified a
     \<and> (\<forall>j < length mrs. j \<noteq> k \<longrightarrow> keeps_clear a (a + smr_size (mrs ! k)) (mrs ! j))"

text \<open>C17: The addresses that the build picks: each is aligned to the page size of its region, the region at that
  address lies in memory that the emulated boot leaves as normal untypeds, and no two regions overlap.  When that
  boot lists the normal untypeds in ascending order, none overlaps a region with an address of its own either, where
  that region lies in the memory that the addresses are picked from, in however many untypeds, or outside it.\<close>

theorem picked_addresses:
  assumes "pick_addresses cfg boot sys = Inr (sys', need)"
    and "available_user_memory cfg boot = (Inr mem :: (main_error, disjoint_memory_region) res)"
    and "normal_memory boot \<subseteq> below_top"
    and "\<forall>mr \<in> set (sd_memory_regions sys). case smr_phys_addr mr of Specified p \<Rightarrow> p \<le> p + smr_size mr | _ \<Rightarrow> True"
  shows "(\<forall>i p. picked (sd_memory_regions sys) (sd_memory_regions sys') i p
            \<longrightarrow> placed_at (normal_memory boot) (sd_memory_regions sys ! i) p)
    \<and> (\<forall>i j p q. i < j \<and> picked (sd_memory_regions sys) (sd_memory_regions sys') i p
            \<and> picked (sd_memory_regions sys) (sd_memory_regions sys') j q
            \<longrightarrow> addresses (sd_memory_regions sys ! i) p \<inter> addresses (sd_memory_regions sys ! j) q = {})
    \<and> (\<forall>i k p a. ascending (filter (\<lambda>ut. \<not> ut_is_device ut) (untyped_objects boot))
            \<and> picked (sd_memory_regions sys) (sd_memory_regions sys') i p
            \<and> specified_at (sd_memory_regions sys) k a
            \<and> (addresses (sd_memory_regions sys ! k) a \<subseteq> dmr_covered mem
               \<or> addresses (sd_memory_regions sys ! k) a \<inter> dmr_covered mem = {})
            \<longrightarrow> addresses (sd_memory_regions sys ! i) p \<inter> addresses (sd_memory_regions sys ! k) a = {})"
proof -
  let ?mrs = "sd_memory_regions sys"
  from assms(1,2) obtain mem1 mem2 mrs where taken: "foldM take_specified mem ?mrs = (Inr mem1 :: (main_error, _) res)"
    and pick: "foldM pick_address (mem1, [], False) ?mrs = Inr (mem2, mrs, need)"
    and sys': "sys' = sys\<lparr>sd_memory_regions := mrs\<rparr>" by (auto simp: pick_addresses_def bindr_eq_Inr)
  note avail = available_user_memory_facts [OF assms(2)]
  note mem1 = take_all_specified [OF taken conjunct1 [OF avail] assms(4)]
  have below: "dmr_covered mem1 \<subseteq> normal_memory boot" "dmr_covered mem1 \<subseteq> below_top"
    using mem1 avail assms(3) by blast+
  note blocks = pick_fold_blocks [OF pick conjunct1 [OF mem1] below(2)]
  have in_mem: "placed_at (dmr_covered mem1) (?mrs ! i) p" if "picked ?mrs mrs i p" for i p using blocks that by blast
  have one: "placed_at (normal_memory boot) (?mrs ! i) p" if "picked ?mrs mrs i p" for i p
    using in_mem [OF that] below(1) unfolding placed_at_def by blast
  have "addresses (?mrs ! i) p \<inter> addresses (?mrs ! k) a = {}"
    if asc: "ascending (filter (\<lambda>ut. \<not> ut_is_device ut) (untyped_objects boot))" and p: "picked ?mrs mrs i p"
      and a: "specified_at ?mrs k a"
      and place: "addresses (?mrs ! k) a \<subseteq> dmr_covered mem \<or> addresses (?mrs ! k) a \<inter> dmr_covered mem = {}"
    for i k p a
  proof -
    have picks: "addresses (?mrs ! i) p \<subseteq> dmr_covered mem1" using in_mem [OF p] by (simp add: placed_at_def)
    show ?thesis
    proof (cases "addresses (?mrs ! k) a \<inter> dmr_covered mem = {}")
      case True
      with picks mem1 show ?thesis by blast
    next
      case False
      with place have sub: "addresses (?mrs ! k) a \<subseteq> dmr_covered mem" and "addresses (?mrs ! k) a \<noteq> {}" by auto
      then have lt: "a < a + smr_size (?mrs ! k)" by (auto simp: addresses_def)
      from sub have "\<exists>r \<in> set (regions mem). region_contains a (a + smr_size (?mrs ! k)) r"
        unfolding addresses_def
        by (rule merged_contains [OF conjunct1 [OF avail] available_merged [OF assms(2) asc] lt])
      with a lt have "dmr_covered mem1 \<inter> addresses (?mrs ! k) a = {}"
        unfolding specified_at_def addresses_def
        by (intro take_all_clear [OF taken conjunct1 [OF avail] assms(4)]) blast+
      with picks show ?thesis by blast
    qed
  qed
  with one blocks show ?thesis unfolding sys' by simp
qed

text \<open>A system with a region at 0x80005000 and two regions without an address, in two untypeds of 8 KiB.\<close>

definition example_boot_info :: boot_info where
  "example_boot_info = \<lparr>fixed_cap_count = 0, sched_control_cap = 0, paging_cap_count = 0, page_cap_count = 0,
     untyped_objects =
       [\<lparr>ut_cap = 0, ut_region = mk_region 0x10000000 0x10001000, ut_is_device = True\<rparr>,
        \<lparr>ut_cap = 1, ut_region = mk_region 0x80004000 0x80006000, ut_is_device = False\<rparr>,
        \<lparr>ut_cap = 2, ut_region = mk_region 0x80006000 0x80008000, ut_is_device = False\<rparr>],
     first_available_cap = 0\<rparr>"

definition example_region :: "string \<Rightarrow> sys_memory_region_paddr \<Rightarrow> sys_memory_region" where
  "example_region name paddr = \<lparr>smr_name = name, smr_size = 0x1000, smr_page_size_specified = False,
     smr_page_size = SmallPg, smr_page_count = 1, smr_phys_addr = paddr, smr_text_pos = None, smr_kind = MrUser,
     smr_prefill_bytes = None\<rparr>"

definition example_regions :: "sys_memory_region list" where
  "example_regions = [example_region ''a'' (ToolAllocated None), example_region ''b'' (Specified 0x80005000),
     example_region ''c'' (ToolAllocated None)]"

lemma example_picks:
  "available_user_memory example_riscv_config example_boot_info
     = (Inr \<lparr>regions = [mk_region 0x80004000 0x80008000]\<rparr> :: (main_error, _) res)"
  "pick_addresses example_riscv_config example_boot_info
      \<lparr>sd_protection_domains = [], sd_memory_regions = example_regions, sd_channels = []\<rparr>
     = Inr (\<lparr>sd_protection_domains = [], sd_memory_regions =
         [example_region ''a'' (ToolAllocated (Some 0x80004000)), example_region ''b'' (Specified 0x80005000),
          example_region ''c'' (ToolAllocated (Some 0x80006000))], sd_channels = []\<rparr>, True)"
  by code_simp+

text \<open>With the boot region of the kernel above other memory the untypeds are not in ascending order, and the pieces of
  that memory are not merged: a region with an address of its own that spans two of them is not taken out, and an
  address is picked that overlaps it.\<close>

definition example_boot_above :: boot_info where
  "example_boot_above = example_boot_info\<lparr>untyped_objects :=
     [\<lparr>ut_cap = 0, ut_region = mk_region 0x80008000 0x80009000, ut_is_device = False\<rparr>,
      \<lparr>ut_cap = 1, ut_region = mk_region 0x80004000 0x80006000, ut_is_device = False\<rparr>,
      \<lparr>ut_cap = 2, ut_region = mk_region 0x80006000 0x80007000, ut_is_device = False\<rparr>]\<rparr>"

definition example_pages :: "string \<Rightarrow> sys_memory_region_paddr \<Rightarrow> sys_memory_region" where
  "example_pages name paddr = (example_region name paddr)\<lparr>smr_size := 0x2000, smr_page_count := 2\<rparr>"

lemma picked_over_specified:
  "pick_addresses example_riscv_config example_boot_above
      \<lparr>sd_protection_domains = [], sd_memory_regions =
         [example_pages ''a'' (ToolAllocated None), example_pages ''b'' (Specified 0x80005000)], sd_channels = []\<rparr>
     = Inr (\<lparr>sd_protection_domains = [], sd_memory_regions =
         [example_pages ''a'' (ToolAllocated (Some 0x80004000)), example_pages ''b'' (Specified 0x80005000)],
         sd_channels = []\<rparr>, True)"
  by code_simp

theorem picked_addresses_witness:
  "placed_at (normal_memory example_boot_info) (example_regions ! 0) 0x80004000
   \<and> addresses (example_regions ! 0) 0x80004000 \<inter> addresses (example_regions ! 2) 0x80006000 = {}
   \<and> addresses (example_regions ! 2) 0x80006000 \<inter> addresses (example_regions ! 1) 0x80005000 = {}"
proof -
  have below: "normal_memory example_boot_info \<subseteq> below_top"
    by (auto simp: normal_memory_def below_top_def example_boot_info_def ut_base_def ut_end_def word_less_nat_alt)
  have asc: "ascending (filter (\<lambda>ut. \<not> ut_is_device ut) (untyped_objects example_boot_info))"
    by (simp add: ascending_def example_boot_info_def ut_base_def ut_end_def)
  have at: "specified_at example_regions 1 0x80005000"
    by (auto simp: specified_at_def example_regions_def example_region_def keeps_clear_def less_Suc_eq)
  have inside: "addresses (example_regions ! 1) 0x80005000 \<subseteq> dmr_covered \<lparr>regions = [mk_region 0x80004000 0x80008000]\<rparr>"
    by (auto simp: addresses_def example_regions_def example_region_def word_le_nat_alt word_less_nat_alt)
  let ?new = "[example_region ''a'' (ToolAllocated (Some 0x80004000)), example_region ''b'' (Specified 0x80005000),
      example_region ''c'' (ToolAllocated (Some 0x80006000))]"
  have wf: "\<forall>mr \<in> set example_regions. case smr_phys_addr mr of Specified p \<Rightarrow> p \<le> p + smr_size mr | _ \<Rightarrow> True"
    by (simp add: example_regions_def example_region_def)
  note picks = picked_addresses [OF example_picks(2,1) below, simplified system_description.select_convs, OF wf]
  have p0: "picked example_regions ?new 0 0x80004000" and p2: "picked example_regions ?new 2 0x80006000"
    by (simp_all add: picked_def example_regions_def example_region_def)
  from picks p0 have "placed_at (normal_memory example_boot_info) (example_regions ! 0) 0x80004000" by blast
  moreover have "(0::nat) < 2" by simp
  with picks p0 p2 have "addresses (example_regions ! 0) 0x80004000 \<inter> addresses (example_regions ! 2) 0x80006000 = {}"
    by blast
  moreover from picks asc p2 at inside
  have "addresses (example_regions ! 2) 0x80006000 \<inter> addresses (example_regions ! 1) 0x80005000 = {}" by blast
  ultimately show ?thesis by blast
qed

end
