(* ===== verification/Object_Contract.thy ===== *)
theory Object_Contract
  imports Capdl_Build
begin

text \<open>
  The interface between the builder of a specification (\<open>tool/microkit/src/capdl/builder.rs\<close>) and a condition on
  the objects it creates.  A condition that says something of filled frames only is kept by every step that does
  not create one; \<open>object_contract\<close> proves this once for all steps.  \<open>build_contract\<close> adds the laws for the two
  places where filled frames come from, the pages of an ELF file and those of a memory region, and proves the
  condition for all objects of a specification.
\<close>

section \<open>Conditions on objects\<close>

definition is_frame :: "capdl_object \<Rightarrow> bool" where
  "is_frame ob = (case ob of ObjFrame _ _ _ \<Rightarrow> True | _ \<Rightarrow> False)"

lemma is_frame_simps [simp]:
  "is_frame (ObjFrame b p fl)" "\<not> is_frame (ObjCNode z sl)" "\<not> is_frame (ObjTcb sl e)"
  "\<not> is_frame (ObjPageTable x r l sl)" "\<not> is_frame ObjEndpoint" "\<not> is_frame ObjNotification"
  "\<not> is_frame ObjReply" "\<not> is_frame ObjVCpu" "\<not> is_frame (ObjSchedContext z pe q a)"
  "\<not> is_frame (ObjIOPorts lo hi)" "\<not> is_frame ObjArmSmc" "\<not> is_frame (ObjArmIrq sl t c)"
  "\<not> is_frame (ObjRiscvIrq sl t)" "\<not> is_frame (ObjIrqMsi sl h bu d f)" "\<not> is_frame (ObjIrqIOApic sl ap pin lv po)"
  by (simp_all add: is_frame_def)

lemma has_slots_no_frame: "has_slots ob \<Longrightarrow> \<not> is_frame ob"
  by (cases ob) simp_all

lemma bindB_assoc: "bindB (bindB m f) g = bindB m (\<lambda>x. bindB (f x) g)"
  by (rule ext) (auto simp: bindB_def bindr_assoc intro!: arg_cong2 [where f = bindr] ext split: prod.split)

lemma bindB_return: "bindB (returnB x) f = f x"
  by (simp add: bindB_def returnB_def)

named_theorems keeps \<open>rules for steps that keep a condition on the objects\<close>

locale object_contract =
  fixes P :: "capdl_object \<Rightarrow> bool"
  assumes no_frame: "\<not> is_frame ob \<Longrightarrow> P ob"
    and empty_frame: "P (ObjFrame bits paddr [])"
begin

definition all_objects :: "spec_container \<Rightarrow> bool" where
  "all_objects s \<longleftrightarrow> (\<forall>ob \<in> set (sc_objects s). P (no_object ob))"

definition keeps :: "'a bld \<Rightarrow> bool" where
  "keeps m \<longleftrightarrow> (\<forall>s x s'. m s = Inr (x, s') \<longrightarrow> all_objects s \<longrightarrow> all_objects s')"

lemma keepsD: "keeps m \<Longrightarrow> m s = Inr (x, s') \<Longrightarrow> all_objects s \<Longrightarrow> all_objects s'"
  by (auto simp: keeps_def)

lemma no_frames [simp]: "\<not> is_frame ob \<Longrightarrow> P ob" "P (ObjFrame bits paddr [])"
  by (fact no_frame empty_frame)+

lemma keeps_return [keeps]: "keeps (returnB x)"
  by (auto simp: keeps_def returnB_def)

lemma keeps_lift [keeps]: "keeps (liftB r)"
  by (auto simp: keeps_def liftB_def bindr_eq_Inr)

lemma keeps_bind [keeps]: "keeps m \<Longrightarrow> (\<And>x. keeps (f x)) \<Longrightarrow> keeps (bindB m f)"
  unfolding keeps_def bindB_def by (auto simp: bindr_eq_Inr)

text \<open>Where the continuation depends on what was lifted.\<close>

lemma keeps_bind_lift: "(\<And>x. r = Inr x \<Longrightarrow> keeps (f x)) \<Longrightarrow> keeps (bindB (liftB r) f)"
  by (cases r) (auto simp: keeps_def bindB_def liftB_def)

lemma keeps_unwrap [keeps]: "keeps m \<Longrightarrow> keeps (unwrapB m)"
  by (auto simp: keeps_def bld_simps)

lemma keeps_map_err [keeps]: "keeps m \<Longrightarrow> keeps (map_errB g m)"
  by (auto simp: keeps_def map_errB_def lift_err_eq_Inr)

lemma keeps_fold [keeps]: "(\<And>acc x. x \<in> set xs \<Longrightarrow> keeps (f acc x)) \<Longrightarrow> keeps (foldB f acc xs)"
  by (induction xs arbitrary: acc) (auto intro: keeps)

lemma keeps_read [keeps]:
  "keeps (root_object i)" "keeps (capdl_util_get_vspace_id_from_tcb_id i)"
  "keeps (\<lambda>s. bindr (get_root_object i s) (\<lambda>ob. Inr (ob, s)))" "keeps (push_irq irq i)"
  by (auto simp: keeps_def root_object_def capdl_util_get_vspace_id_from_tcb_id_def push_irq_def all_objects_def
      bindr_eq_Inr split: option.split_asm capdl_object.split_asm)

lemma keeps_add [keeps]: "P (no_object ob) \<Longrightarrow> keeps (add_root_object ob)"
  by (auto simp: keeps_def add_root_object_def all_objects_def bindr_eq_Inr Let_def)

lemma keeps_update [keeps]:
  assumes "\<And>ob ob'. f ob = Inr ob' \<Longrightarrow> P ob'"
  shows "keeps (update_root_object i f)"
  unfolding keeps_def
proof (intro allI impI)
  fix s x s'
  assume "update_root_object i f s = Inr (x, s')" and s: "all_objects s"
  then obtain ob ob' where "f (no_object ob) = Inr ob'" "s' = s\<lparr>sc_objects := (sc_objects s)[i := ob\<lparr>no_object := ob'\<rparr>]\<rparr>"
    by (auto simp: update_root_object_def bindr_eq_Inr)
  with s assms show "all_objects s'"
    using set_update_subset_insert [of "sc_objects s" i "ob\<lparr>no_object := ob'\<rparr>"] by (auto simp: all_objects_def)
qed

section \<open>The steps that fill no frame\<close>

lemma keeps_make [keeps]:
  "P (ObjFrame b p fl) \<Longrightarrow> keeps (capdl_util_make_frame_obj fl name p b)"
  "keeps (capdl_util_make_endpoint_obj owner is_fault)" "keeps (capdl_util_make_ntfn_obj owner)"
  "keeps (capdl_util_make_reply_obj owner)" "keeps (capdl_util_make_sc_obj owner z pe bu ba)"
  "keeps (capdl_util_make_ioport_obj owner a sz)" "keeps (capdl_util_make_vcpu_obj name)"
  "keeps (capdl_util_make_cnode_obj owner z' sl)"
  by (simp_all add: util_obj_defs keeps_add)

lemma keeps_edit [keeps]:
  "keeps (capdl_util_insert_cap_into_cspace i k c)" "keeps (update_tcb i f g)"
  "keeps (insert_cap_into_page_table_level i level idx c)" "keeps (bind_irq_to_ntfn i c)"
  unfolding capdl_util_insert_cap_into_cspace_def update_tcb_def insert_cap_into_page_table_level_def
    bind_irq_to_ntfn_def
  by (auto intro!: keeps split: capdl_object.splits option.splits)

lemma keeps_small_frame_bits [keeps]: "keeps (small_frame_bits cfg)"
  unfolding small_frame_bits_def by (intro keeps)

lemma keeps_intermediary [keeps]: "keeps (map_intermediary_level_helper cfg owner prefix vspace i level idx a)"
  unfolding map_intermediary_level_helper_def
  by (auto intro!: keeps split: capdl_object.split option.split)

lemma keeps_map_recursive [keeps]: "keeps (map_recursive cfg owner vspace i level c z a)"
proof (induction "5 - level" arbitrary: level i rule: less_induct)
  case less
  have IH: "keeps (map_recursive cfg owner vspace j (Suc level) c z a)"
    if "num_page_table_levels cfg = (Inr lvls :: (capdl_error, nat) res)" "\<not> lvls \<le> level" for j lvls
    by (rule less.hyps) (use that num_levels_le [OF that(1)] in auto)
  show ?case
    by (subst map_recursive_bld, rule keeps_bind_lift) (auto intro!: keeps intro: IH)
qed

lemma keeps_map_page [keeps]:
  "keeps (map_page cfg owner vspace c z a)" "keeps (create_vspace cfg owner)" "keeps (create_vspace_ept cfg owner)"
  unfolding map_page_def create_vspace_def create_vspace_ept_def by (auto intro!: keeps)

lemma keeps_own_frame [keeps]: "keeps (map_own_frame cfg owner name vspace a)" "keeps (map_ipc_buffer cfg owner vspace)"
  unfolding map_own_frame_def map_ipc_buffer_def Let_def by (auto intro!: keeps)

lemma keeps_irq [keeps]: "keeps (create_irq_handler_cap cfg owner cpu ntfn d)"
proof -
  have "keeps (create_irq_obj cfg owner cpu d)"
    unfolding create_irq_obj_def
    by (rule keeps_bind_lift) (auto intro!: keeps split: sys_irq_kind.splits arch.splits)
  then show ?thesis unfolding create_irq_handler_cap_def by (intro keeps)
qed

lemma keeps_region [keeps]:
  "keeps (map_memory_region cfg owner mp z vspace frames)" "keeps (frames_page_size frames)"
  unfolding map_memory_region_def frames_page_size_def capdl_util_get_frame_size_bits_def
  by (auto intro!: keeps split: capdl_object.split list.split prod.split)

lemma keeps_pd_steps [keeps]:
  "keeps (map_pd_region cfg mrs owner vspace elf mp)" "keeps (map_pd_stack cfg owner vspace z)"
  "keeps (build_fault_ep_cap ep shadows k pd tcb)" "keeps (build_input pd k chs)"
  "keeps (build_pd_irqs cfg pd ntfn)" "keeps (build_pd_ioports pd)" "keeps (map_vm_region cfg mrs owner vspace mp)"
  "keeps (build_cspace cfg owner sl)" "keeps (bind_pd_tcb cfg pd tcb sl)"
  "keeps (bind_to_monitor cn k pd tcb sc ntfn)" "keeps (create_arm_smc cfg pds)"
  unfolding map_pd_region_def map_pd_stack_def build_fault_ep_cap_def build_input_def build_pd_irqs_def
    build_pd_ioports_def map_vm_region_def build_cspace_def bind_pd_tcb_def bind_to_monitor_def create_arm_smc_def Let_def
  by (auto intro!: keeps split: option.split)

lemma keeps_vm [keeps]: "keeps (build_pd_vm cfg mrs pd ep cn idx)"
proof -
  have "keeps (build_vcpu cfg pd vm ep cn c acc x)" for vm c acc x
    unfolding build_vcpu_def Let_def by (auto intro!: keeps split: prod.split)
  moreover have "keeps (build_x86_vcpu vm c)" for vm c
    unfolding build_x86_vcpu_def Let_def by (intro keeps)
  ultimately show ?thesis
    unfolding build_pd_vm_def build_vm_def Let_def by (auto intro!: keeps split: option.split prod.split)
qed

lemma keeps_wiring [keeps]: "keeps (build_channels shadows chs)" "keeps (build_cap_maps cfg shadows pds)"
proof -
  have "keeps (connect_notify e1 e2 a b)" "keeps (connect_pp e1 e2 a b)" for e1 e2 a b
    unfolding connect_notify_def connect_pp_def by (auto intro!: keeps)
  then show "keeps (build_channels shadows chs)"
    unfolding build_channels_def build_channel_def by (auto intro!: keeps)
  have "keeps (cap_map_cap cfg sh ty)" for sh ty
    unfolding cap_map_cap_def Let_def
    by (auto intro!: keeps split: cap_map_type.split option.split capdl_object.split)
  then show "keeps (build_cap_maps cfg shadows pds)"
    unfolding build_cap_maps_def build_cap_map_def by (auto intro!: keeps split: prod.split)
qed

text \<open>Sorting changes the capabilities of objects, which frames do not have.\<close>

lemma keeps_sort [keeps]: "keeps (sort_root_objects cfg)"
  unfolding keeps_def
proof (intro allI impI)
  fix s u s'
  assume run: "sort_root_objects cfg s = Inr (u, s')" and s: "all_objects s"
  then obtain ys m renamed where r: "sort_by (compare_objects cfg) (sc_objects s) = Inr ys"
    "mapM (rename_object m) ys = Inr renamed" "sc_objects s' = map sort_cnode renamed"
    by (auto simp: sort_root_objects_def Let_def bindr_eq_Inr)
  have "P (no_object (sort_cnode x))" if x: "x \<in> set renamed" for x
  proof (cases "is_frame (no_object (sort_cnode x))")
    case True
    then have same: "sort_cnode x = x" by (auto simp: sort_cnode_def split: capdl_object.splits)
    from mapM_output [OF r(2) x] obtain ob where ob: "ob \<in> set ys" "rename_object m ob = Inr x" by blast
    have "x = ob"
      using ob(2) True has_slots_no_frame [of "no_object ob"] same
      by (auto simp: rename_object_def bindr_eq_Inr is_frame_def split: if_splits capdl_object.splits)
    moreover have "set ys = set (sc_objects s)" using sort_by_mset [OF r(1)] by (metis set_mset_mset)
    ultimately show ?thesis using ob(1) s same by (simp add: all_objects_def)
  qed simp
  then show "all_objects s'" by (auto simp: all_objects_def r(3))
qed

end

section \<open>Conditions on filled frames\<close>

definition seg_below_top :: "elf_segment \<Rightarrow> bool" where
  "seg_below_top seg \<longleftrightarrow> unat (virt_addr seg) + unat (mem_size seg) \<le> 2 ^ 64 - 4096"

locale build_contract = object_contract P for P :: "capdl_object \<Rightarrow> bool" +
  fixes cfg :: config and elfs :: "elf_file list"
  assumes elf_page:
      "i < length elfs \<Longrightarrow> k < length (loadable_segments (elfs ! i)) \<Longrightarrow> seg = loadable_segments (elfs ! i) ! k \<Longrightarrow>
       segment_data seg = (Inr data :: (capdl_error, u8 list) res) \<Longrightarrow> seg_below_top seg \<Longrightarrow>
       unat (virt_addr seg) < unat cur + 4096 \<Longrightarrow> unat cur < unat (virt_addr seg) + unat (mem_size seg) \<Longrightarrow>
       page_fixed_size_bits SmallPg cfg = (Inr bits :: (capdl_error, u64) res) \<Longrightarrow>
       P (ObjFrame (ucast bits) None (elf_page_fill i k (virt_addr seg) (mem_size seg) cur))"
    and mr_page:
      "mr_frame_fill mr n = Inr fill \<Longrightarrow>
       page_fixed_size_bits (smr_page_size mr) cfg = (Inr bits :: (capdl_error, u64) res) \<Longrightarrow>
       P (ObjFrame (ucast bits) p fill)"
begin

lemma keeps_elf_page:
  assumes "i < length elfs" "k < length (loadable_segments (elfs ! i))" "seg = loadable_segments (elfs ! i) ! k"
    "segment_data seg = (Inr data :: (capdl_error, u8 list) res)" "seg_below_top seg"
    "unat (virt_addr seg) < unat cur + 4096" "unat cur < unat (virt_addr seg) + unat (mem_size seg)"
  shows "keeps (map_elf_page cfg owner vspace i k seg cur sq)"
  unfolding map_elf_page_def small_frame_bits_def bindB_assoc bindB_return
  by (rule keeps_bind_lift) (intro keeps elf_page [OF assms])

lemma keeps_elf_pages:
  assumes "i < length elfs" "k < length (loadable_segments (elfs ! i))" "seg = loadable_segments (elfs ! i) ! k"
    "segment_data seg = (Inr data :: (capdl_error, u8 list) res)" "seg_below_top seg"
    "unat (virt_addr seg) < unat cur + 4096"
  shows "keeps (map_elf_pages fuel cfg owner vspace i k seg cur sq)"
  using assms(6)
proof (induction fuel arbitrary: cur sq)
  case (Suc fuel)
  note b = assms(5) [unfolded seg_below_top_def]
  show ?case
  proof (cases "cur < virt_addr seg + mem_size seg")
    case True
    then have cur: "unat cur < unat (virt_addr seg) + unat (mem_size seg)"
      by (simp add: word_less_nat_alt seg_end [OF b])
    have "unat (cur + page_size_u64 SmallPg) = unat cur + 4096"
      by (subst unat_add_no_overflow) (use cur b in simp_all)
    with Suc.prems have "keeps (map_elf_pages fuel cfg owner vspace i k seg (cur + page_size_u64 SmallPg) sq')" for sq'
      by (intro Suc.IH) simp
    then show ?thesis
      by (subst map_elf_pages.simps) (auto intro!: keeps keeps_elf_page [OF assms(1-5) Suc.prems cur])
  next
    case False
    then show ?thesis by (subst map_elf_pages.simps) (simp add: keeps)
  qed
qed (subst map_elf_pages.simps, simp add: keeps)

lemma keeps_elf:
  assumes "nthr elfs i = (Inr elf :: (capdl_error, elf_file) res)"
    and "\<forall>elf \<in> set elfs. list_all seg_below_top (loadable_segments elf)"
  shows "keeps (add_elf_to_spec cfg owner cpu i elf)"
proof -
  from assms(1) have i: "i < length elfs" "elf = elfs ! i" by (auto simp: nthr_eq_Inr)
  have "keeps (map_elf_segment cfg owner vspace i sq x)"
    if x: "x \<in> set (enumerate 0 (loadable_segments elf))" for vspace sq x
  proof -
    obtain k seg where xp: "x = (k, seg)" by (cases x)
    from x have k: "k < length (loadable_segments (elfs ! i))" "seg = loadable_segments (elfs ! i) ! k"
      by (auto simp: xp i(2) in_set_enumerate_eq)
    have "seg \<in> set (loadable_segments elf)" using k i(2) by simp
    with assms(2) i have b: "seg_below_top seg" by (auto simp: list_all_iff)
    have "keeps (map_elf_pages LOOP_FUEL cfg owner vspace i k seg cur sq)"
      if "segment_data seg = (Inr data :: (capdl_error, u8 list) res)"
        "round_down (virt_addr seg) (page_size_u64 SmallPg) = (Inr cur :: (capdl_error, u64) res)" for data cur
      by (rule keeps_elf_pages [OF i(1) k that(1) b]) (use round_down_page [OF that(2)] in simp)
    then show ?thesis
      unfolding xp map_elf_segment_def prod.case
      by (intro keeps_bind_lift) (auto intro!: keeps keeps_bind_lift)
  qed
  then show ?thesis unfolding add_elf_to_spec_def by (intro keeps) simp_all
qed

lemma keeps_memory_regions [keeps]: "keeps (build_memory_regions cfg mrs)"
proof -
  have "keeps (build_mr_frame (ucast bits) mr ids i)"
    if "page_fixed_size_bits (smr_page_size mr) cfg = (Inr bits :: (capdl_error, u64) res)" for bits mr ids i
    unfolding build_mr_frame_def by (rule keeps_bind_lift) (intro keeps mr_page [OF _ that])
  then have "keeps (build_mr_frames cfg mr)" for mr
    unfolding build_mr_frames_def by (intro keeps_bind_lift keeps_fold)
  then show ?thesis unfolding build_memory_regions_def by (auto intro!: keeps)
qed

lemma keeps_objects:
  assumes "\<forall>elf \<in> set elfs. list_all seg_below_top (loadable_segments elf)"
  shows "keeps (build_objects cfg elfs sys)"
proof -
  note elf = keeps_elf [OF _ assms]
  have "keeps (build_pd cfg env elfs pb x)" for env pb x
    unfolding build_pd_def build_pd_parts_def
    by (auto intro!: keeps elf keeps_bind_lift [of "nthr elfs i" for i] split: prod.split)
  then have "keeps (build_pds cfg env elfs pds)" for env pds
    unfolding build_pds_def by (intro keeps)
  moreover have "keeps (build_monitor cfg i elf)" if "nthr elfs i = (Inr elf :: (capdl_error, elf_file) res)" for i elf
    unfolding build_monitor_def Let_def by (intro keeps elf that)
  ultimately show ?thesis
    unfolding build_objects_def Let_def
    by (auto intro!: keeps keeps_bind_lift [of "nthr elfs i" for i] split: prod.split)
qed

lemma built_objects:
  assumes "\<forall>elf \<in> set elfs. list_all seg_below_top (loadable_segments elf)"
    and "build_capdl_spec cfg elfs sys = Inr s" and "ob \<in> set (sc_objects s)"
  shows "P (no_object ob)"
proof -
  from assms(2) obtain u where r: "bindB (build_objects cfg elfs sys) (\<lambda>_. sort_root_objects cfg) spec_new = Inr (u, s)"
    by (auto simp: build_capdl_spec_def bindr_eq_Inr)
  have "all_objects s"
    by (rule keepsD [OF keeps_bind [OF keeps_objects [OF assms(1)] keeps_sort] r])
      (simp add: all_objects_def spec_new_def)
  with assms(3) show ?thesis by (simp add: all_objects_def)
qed

end

end
