(* ===== verification/Capdl_Threads.thy ===== *)
theory Capdl_Threads
  imports Capdl_Build
begin

unbundle bit_operations_syntax

text \<open>
  What the built system gives each protection domain: its thread, with its parameters and the
  capabilities bound to it, its fault handler, its capability space and its IPC buffer.
\<close>

section \<open>What is right about a thread\<close>

text \<open>The fault handler: the parent's endpoint with a badge that marks a fault and carries the child's
  identifier, or the monitor's with the index of the domain plus one.\<close>

definition fault_cap_ok :: "nat \<Rightarrow> pd_shadows \<Rightarrow> nat \<Rightarrow> protection_domain \<Rightarrow> cap \<Rightarrow> bool" where
  "fault_cap_ok mon_ep shadows i pd c = (case pd_parent pd of
      None \<Rightarrow> c = CapEndpoint mon_ep (of_nat i + 1) rwg_rights
    | Some parent \<Rightarrow> \<exists>child_id sh ep. parent < i \<and> pd_id pd = Some child_id \<and> shadows parent = Some sh
        \<and> sh_endpoint sh = Some ep \<and> c = CapEndpoint ep (0x4000000000000000 OR child_id) rwg_rights)"

definition input_cap :: "pd_shadow \<Rightarrow> cap" where
  "input_cap sh = (case sh_endpoint sh of
      Some ep \<Rightarrow> CapEndpoint ep 0 rwg_rights
    | None \<Rightarrow> CapNotification (sh_notification sh) 0 rw_rights)"

definition pd_info :: "protection_domain \<Rightarrow> elf_file \<Rightarrow> u64 \<Rightarrow> u64 \<Rightarrow> tcb_extra" where
  "pd_info pd elf buf top_addr =
     \<lparr>te_ipc_buffer_addr = buf, te_affinity = ucast (pd_cpu pd), te_prio = pd_priority pd,
      te_max_prio = pd_priority pd, te_resume = True, te_fpu_disabled = (\<not> pd_fpu pd),
      te_ip = elf_entry elf, te_sp = top_addr\<rparr>"

text \<open>The thread of a domain, given what the builder recorded about the domain: what is bound to it
  (\<open>slots\<close>), where its IPC buffer and its stack are, the frame of the buffer and its fault handler.\<close>

definition thread_facts ::
    "config \<Rightarrow> nat \<Rightarrow> nat \<Rightarrow> nat \<Rightarrow> pd_shadows \<Rightarrow> elf_file \<Rightarrow> nat \<Rightarrow> protection_domain \<Rightarrow> pd_shadow
       \<Rightarrow> spec_container \<Rightarrow> cte list \<Rightarrow> u64 \<Rightarrow> u64 \<Rightarrow> cap \<Rightarrow> cap \<Rightarrow> bool" where
  "thread_facts cfg lvls topmost mon_ep shadows elf i pd sh s slots buf top_addr ipcbuf fault \<longleftrightarrow>
     (pd_ipc_buffer cfg = (Inr buf :: (capdl_error, u64) res)
      \<and> pd_stack_top cfg = (Inr top_addr :: (capdl_error, u64) res)
      \<and> sorted (map (\<lambda>cte. unat (fst cte)) slots)
      \<and> {(0, CapCNode (sh_cspace sh) 0 0), (1, CapPageTable (sh_vspace sh)), (4, ipcbuf), (5, fault),
         (6, CapSchedContext (sh_sched_context sh)), (8, CapNotification (sh_notification sh) 0 rw_rights)}
          \<subseteq> set slots
      \<and> fault_cap_ok mon_ep shadows i pd fault)
     \<and> (sh_tcb sh < length (sc_objects s) \<and> sh_sched_context sh < length (sc_objects s)
        \<and> sh_cspace sh < length (sc_objects s) \<and> sh_microkit_cnode sh < length (sc_objects s))
     \<and> no_object (sc_objects s ! sh_tcb sh) = ObjTcb slots (pd_info pd elf buf top_addr)
     \<and> no_object (sc_objects s ! sh_sched_context sh)
          = ObjSchedContext 8 (pd_period pd) (pd_budget pd) (0x100 + of_nat i)
     \<and> lookup_page lvls topmost s (sh_vspace sh) SmallPg buf = Some ipcbuf
     \<and> (0, CapCNode (sh_microkit_cnode sh) 0 (ucast (cap_address_bits cfg - 15))) \<in> set (slots_of s (sh_cspace sh))
     \<and> {(1, input_cap sh), (2, fault), (3, CapPageTable (sh_vspace sh))} \<subseteq> set (slots_of s (sh_microkit_cnode sh))"

definition thread_ok ::
    "config \<Rightarrow> nat \<Rightarrow> nat \<Rightarrow> nat \<Rightarrow> pd_shadows \<Rightarrow> elf_file \<Rightarrow> nat \<Rightarrow> protection_domain \<Rightarrow> pd_shadow
       \<Rightarrow> spec_container \<Rightarrow> bool" where
  "thread_ok cfg lvls topmost mon_ep shadows elf i pd sh s \<longleftrightarrow>
     (\<exists>slots buf top_addr ipcbuf fault.
        thread_facts cfg lvls topmost mon_ep shadows elf i pd sh s slots buf top_addr ipcbuf fault)"

section \<open>Later steps keep it\<close>

lemma extends_slots:
  "extends s s' \<Longrightarrow> i < length (sc_objects s) \<Longrightarrow> set (slots_of s i) \<subseteq> set (slots_of s' i)"
  unfolding slots_of_def by (rule grown_object_slots) (simp add: grows_def)

lemma fault_cap_ok_mono:
  "fault_cap_ok mon_ep shadows i pd c \<Longrightarrow> (\<And>j. j < i \<Longrightarrow> shadows' j = shadows j) \<Longrightarrow> fault_cap_ok mon_ep shadows' i pd c"
  by (auto simp: fault_cap_ok_def split: option.splits)

lemma thread_ok_shadows:
  assumes "thread_ok cfg lvls topmost mon_ep shadows elf i pd sh s" "\<And>j. j < i \<Longrightarrow> shadows' j = shadows j"
  shows "thread_ok cfg lvls topmost mon_ep shadows' elf i pd sh s"
proof -
  from assms(1) obtain slots buf top_addr ipcbuf fault where
    f: "thread_facts cfg lvls topmost mon_ep shadows elf i pd sh s slots buf top_addr ipcbuf fault"
    unfolding thread_ok_def by blast
  then have "fault_cap_ok mon_ep shadows i pd fault" by (simp add: thread_facts_def)
  from fault_cap_ok_mono [OF this assms(2)] f
  have "thread_facts cfg lvls topmost mon_ep shadows' elf i pd sh s slots buf top_addr ipcbuf fault"
    by (simp add: thread_facts_def)
  then show ?thesis unfolding thread_ok_def by blast
qed

lemma thread_facts_extends:
  assumes f: "thread_facts cfg lvls topmost mon_ep shadows elf i pd sh s slots buf top_addr ipcbuf fault"
    and e: "extends s s'"
  shows "thread_facts cfg lvls topmost mon_ep shadows elf i pd sh s' slots buf top_addr ipcbuf fault"
proof -
  have b: "sh_tcb sh < length (sc_objects s)" "sh_sched_context sh < length (sc_objects s)"
    "sh_cspace sh < length (sc_objects s)" "sh_microkit_cnode sh < length (sc_objects s)"
    and ob: "no_object (sc_objects s ! sh_tcb sh) = ObjTcb slots (pd_info pd elf buf top_addr)"
      "no_object (sc_objects s ! sh_sched_context sh) = ObjSchedContext 8 (pd_period pd) (pd_budget pd) (0x100 + of_nat i)"
    and look: "lookup_page lvls topmost s (sh_vspace sh) SmallPg buf = Some ipcbuf"
    using f unfolding thread_facts_def by blast+
  have "no_object (sc_objects s' ! sh_tcb sh) = ObjTcb slots (pd_info pd elf buf top_addr)"
    "no_object (sc_objects s' ! sh_sched_context sh) = ObjSchedContext 8 (pd_period pd) (pd_budget pd) (0x100 + of_nat i)"
    using extends_object(2) [OF e b(1)] extends_object(2) [OF e b(2)] ob by (simp_all add: growable_def)
  with f b grows_length [OF e] extends_lookup [OF e look] extends_slots [OF e b(3)] extends_slots [OF e b(4)]
  show ?thesis unfolding thread_facts_def by (meson order_less_le_trans subset_trans subsetD)
qed

lemma thread_ok_extends:
  "thread_ok cfg lvls topmost mon_ep shadows elf i pd sh s \<Longrightarrow> extends s s' \<Longrightarrow>
     thread_ok cfg lvls topmost mon_ep shadows elf i pd sh s'"
proof -
  assume ok: "thread_ok cfg lvls topmost mon_ep shadows elf i pd sh s" and e: "extends s s'"
  from ok obtain slots buf top_addr ipcbuf fault where
    "thread_facts cfg lvls topmost mon_ep shadows elf i pd sh s slots buf top_addr ipcbuf fault"
    unfolding thread_ok_def by blast
  from thread_facts_extends [OF this e] show ?thesis unfolding thread_ok_def by blast
qed

section \<open>The steps of a domain\<close>

text \<open>Running the first step of a sequence.\<close>

lemma bindB_step:
  assumes "bindB m f s = Inr (y, u)" "spec_wf s" "builds (length (sc_objects s)) S m ids Q"
    "S \<subseteq> {..<length (sc_objects s)}"
  obtains x t where "m s = Inr (x, t)" "f x t = Inr (y, u)" "spec_wf t" "extends s t"
    "ids x \<subseteq> {..<length (sc_objects t)}" "Q x"
proof -
  from assms(1) obtain x t where r: "m s = Inr (x, t)" "f x t = Inr (y, u)" by (auto simp: bld_simps)
  with buildsD_extends [OF assms(3) r(1) assms(2,4)] show thesis by (intro that) auto
qed

lemma add_elf_tcb:
  assumes "add_elf_to_spec cfg owner cpu elf_idx elf s = Inr (tcb, s')" "spec_wf s"
  obtains v where "tcb < length (sc_objects s')" "is_pt s' v" "no_object (sc_objects s' ! tcb) = elf_tcb elf cpu v"
proof -
  from assms(1) obtain v s1 r s2 where
    v: "create_vspace cfg owner s = Inr (v, s1)"
    and f: "foldB (map_elf_segment cfg owner v elf_idx) 0 (enumerate 0 (loadable_segments elf)) s1 = Inr (r, s2)"
    and a: "add_root_object \<lparr>no_name = ''tcb_'' @ owner, no_object = elf_tcb elf cpu v\<rparr> s2 = Inr (tcb, s')"
    by (auto simp: add_elf_to_spec_def bld_simps elf_tcb_def capdl_util_make_cte_def capdl_util_make_page_table_cap_def)
  from create_vspace_run [OF v assms(2)] have s1: "is_pt s1 v" "spec_wf s1" by blast+
  have s2: "spec_wf s2" "extends s1 s2"
    using buildsD_extends [OF builds_map_elf_segments f s1(2), of "{}"] by simp_all
  have r2: "range_ok s2" using s2(1) by simp
  from a have "tcb = length (sc_objects s2)"
    "s' = s2\<lparr>sc_objects := sc_objects s2 @ [\<lparr>no_name = ''tcb_'' @ owner, no_object = elf_tcb elf cpu v\<rparr>],
       sc_root_end := sc_root_end s2 + 1\<rparr>"
    by (simp_all add: add_root_object_Inr [OF r2])
  moreover from this have "extends s2 s'" by (simp add: grows_append)
  ultimately show thesis
    using extends_is_pt [OF _ extends_is_pt [OF s2(2) s1(1)]] by (intro that) auto
qed

lemma get_vspace_elf_tcb:
  assumes "no_object (sc_objects s ! tcb) = elf_tcb elf cpu v" "tcb < length (sc_objects s)" "range_ok s"
  shows "capdl_util_get_vspace_id_from_tcb_id tcb s = Inr (v, s)"
  using assms by (simp add: capdl_util_get_vspace_id_from_tcb_id_def get_root_object_run elf_tcb_def)

lemma map_ipc_buffer_run:
  assumes "map_ipc_buffer cfg owner v s = Inr (c, s')" "spec_wf s" "is_pt s v" "paging cfg lvls topmost"
  obtains buf where "pd_ipc_buffer cfg = (Inr buf :: (capdl_error, u64) res)"
    "lookup_page lvls topmost s' v SmallPg buf = Some c"
proof -
  from assms(1) obtain buf bits f s1 where
    buf: "pd_ipc_buffer cfg = (Inr buf :: (capdl_error, u64) res)"
    and f: "capdl_util_make_frame_obj [] (''ipcbuf_'' @ owner) None bits s = Inr (f, s1)"
    and m: "map_page cfg owner v c (page_size_u64 SmallPg) buf s1 = Inr ((), s')"
    by (auto simp: map_ipc_buffer_def map_own_frame_def bld_simps small_frame_bits_def Let_def)
  have s1: "spec_wf s1" "extends s s1"
    using buildsD_extends [OF builds_make_obj(1) f assms(2), of "{}"] by simp_all
  from map_page_entered(2) [OF assms(4) spec_wf_range [OF s1(1)] extends_is_pt [OF s1(2) assms(3)] m]
  have "lookup_page lvls topmost s' v SmallPg buf = Some c" by (simp add: entered_def lookup_page_def)
  with buf show thesis by (rule that)
qed

lemma build_fault_ep_cap_run:
  "build_fault_ep_cap mon_ep shadows i pd tcb s = Inr (c, s') \<Longrightarrow> fault_cap_ok mon_ep shadows i pd c"
  by (auto simp: build_fault_ep_cap_def fault_cap_ok_def bld_simps unwrapr_eq_Inr assertr_eq_Inr FAULT_BADGE_def
      capdl_util_make_endpoint_cap_def rwg_rights_def split: option.splits)

lemma build_input_run:
  "build_input pd i channels s = Inr ((ntfn, ep, c), s') \<Longrightarrow>
     (ep \<noteq> None \<longleftrightarrow> needs_ep pd i channels)
     \<and> c = (case ep of Some e \<Rightarrow> CapEndpoint e 0 rwg_rights | None \<Rightarrow> CapNotification ntfn 0 rw_rights)"
  by (auto simp: build_input_def bld_simps capdl_util_make_endpoint_cap_def rwg_rights_def
      capdl_util_make_ntfn_cap_def rw_rights_def split: if_splits)

section \<open>The parts of a domain\<close>

text \<open>What the first twelve steps of a domain leave for its capability space and its thread.\<close>

definition parts_facts ::
    "config \<Rightarrow> nat \<Rightarrow> nat \<Rightarrow> nat \<Rightarrow> pd_shadows \<Rightarrow> channel list \<Rightarrow> elf_file \<Rightarrow> nat \<Rightarrow> protection_domain
       \<Rightarrow> pd_parts \<Rightarrow> spec_container \<Rightarrow> u64 \<Rightarrow> cap \<Rightarrow> bool" where
  "parts_facts cfg lvls topmost mon_ep shadows channels elf i pd parts s buf ipcbuf \<longleftrightarrow>
     pd_ipc_buffer cfg = (Inr buf :: (capdl_error, u64) res)
     \<and> lookup_page lvls topmost s (pp_vspace parts) SmallPg buf = Some ipcbuf
     \<and> pp_tcb parts < length (sc_objects s)
     \<and> no_object (sc_objects s ! pp_tcb parts) = elf_tcb elf (pd_cpu pd) (pp_vspace parts)
     \<and> pp_sc parts < length (sc_objects s)
     \<and> no_object (sc_objects s ! pp_sc parts) = ObjSchedContext 8 (pd_period pd) (pd_budget pd) (0x100 + of_nat i)
     \<and> fault_cap_ok mon_ep shadows i pd (pp_fault_cap parts)
     \<and> (pp_ep parts \<noteq> None \<longleftrightarrow> needs_ep pd i channels)
     \<and> {(4, ipcbuf), (5, pp_fault_cap parts), (6, CapSchedContext (pp_sc parts)),
        (8, CapNotification (pp_ntfn parts) 0 rw_rights)} \<subseteq> set (pp_to_tcb parts)
     \<and> {(1, case pp_ep parts of Some e \<Rightarrow> CapEndpoint e 0 rwg_rights
              | None \<Rightarrow> CapNotification (pp_ntfn parts) 0 rw_rights),
        (2, pp_fault_cap parts), (3, CapPageTable (pp_vspace parts))} \<subseteq> set (pp_to_cspace parts)"

lemma bindB_step_ids:
  assumes "bindB m f s = Inr (y, u)" "spec_wf s" "S \<subseteq> {..<length (sc_objects s)}"
    "builds (length (sc_objects s)) S m ids Q"
  obtains x t where "m s = Inr (x, t)" "f x t = Inr (y, u)" "spec_wf t" "extends s t"
    "S \<union> ids x \<subseteq> {..<length (sc_objects t)}" "Q x"
proof (rule bindB_step [OF assms(1,2,4,3)])
  fix x t
  assume "m s = Inr (x, t)" "f x t = Inr (y, u)" "spec_wf t" "extends s t"
    "ids x \<subseteq> {..<length (sc_objects t)}" "Q x"
  moreover from this(4) assms(3) have "S \<subseteq> {..<length (sc_objects t)}" using grows_length by fastforce
  ultimately show thesis using that by blast
qed

lemma build_pd_parts_steps:
  assumes "build_pd_parts cfg env elfs pb i pd s = Inr (parts, u)"
  obtains elf tcb s1 v s2 s3 ipcbuf s4 bottom s5 sc s6 fault s7 ntfn ep input s8 reply s9 irqs s10 ports s11 vt vc k smc
  where "nthr elfs i = (Inr elf :: (capdl_error, elf_file) res)"
    "add_elf_to_spec cfg (pd_name pd) (pd_cpu pd) i elf s = Inr (tcb, s1)"
    "capdl_util_get_vspace_id_from_tcb_id tcb s1 = Inr (v, s2)"
    "foldB (\<lambda>_ mp. map_pd_region cfg (pe_mrs env) (pd_name pd) v elf mp) () (pd_maps pd) s2 = Inr ((), s3)"
    "map_ipc_buffer cfg (pd_name pd) v s3 = Inr (ipcbuf, s4)"
    "map_pd_stack cfg (pd_name pd) v (pd_stack_size pd) s4 = Inr (bottom, s5)"
    "capdl_util_make_sc_obj (pd_name pd) (ucast PD_SCHEDCONTEXT_EXTRA_SIZE_BITS) (pd_period pd)
              (pd_budget pd) (0x100 + of_nat i) s5 = Inr (sc, s6)"
    "build_fault_ep_cap (pe_fault_ep env) (pb_shadows pb) i pd tcb s6 = Inr (fault, s7)"
    "build_input pd i (pe_channels env) s7 = Inr ((ntfn, ep, input), s8)"
    "capdl_util_make_reply_obj (pd_name pd) s8 = Inr (reply, s9)"
    "build_pd_irqs cfg pd ntfn s9 = Inr (irqs, s10)"
    "build_pd_ioports pd s10 = Inr (ports, s11)"
    "build_pd_vm cfg (pe_mrs env) pd ep (pe_mon_cnode env) (pb_vcpu_idx pb) s11 = Inr ((vt, vc, k), u)"
    "pp_tcb parts = tcb" "pp_vspace parts = v" "pp_sc parts = sc" "pp_fault_cap parts = fault" "pp_ntfn parts = ntfn"
    "pp_ep parts = ep"
    "{(1, input), (2, fault), (3, CapPageTable v)} \<subseteq> set (pp_to_cspace parts)"
    "{(4, ipcbuf), (5, fault), (6, CapSchedContext sc), (8, CapNotification ntfn 0 rw_rights)} \<subseteq> set (pp_to_tcb parts)"
  using assms
  by (auto simp: build_pd_parts_def bld_simps own_ctes_def capdl_util_make_cte_def cap_idx_defs
      capdl_util_make_page_table_cap_def capdl_util_make_sc_cap_def capdl_util_make_ntfn_cap_def
      rw_rights_def)

lemma build_pd_parts_facts:
  assumes run: "build_pd_parts cfg env elfs pb i pd s = Inr (parts, u)" and wf: "spec_wf s"
    and ids: "env_ids env \<union> shadows_ids (pb_shadows pb) \<subseteq> {..<length (sc_objects s)}"
    and pg: "paging cfg lvls topmost"
  obtains elf buf ipcbuf where "nthr elfs i = (Inr elf :: (capdl_error, elf_file) res)"
    "parts_facts cfg lvls topmost (pe_fault_ep env) (pb_shadows pb) (pe_channels env) elf i pd parts u buf ipcbuf"
proof -
  let ?below = "\<lambda>t. env_ids env \<union> shadows_ids (pb_shadows pb) \<subseteq> {..<length (sc_objects t)}"
  have below: "?below t'" if "extends t t'" "?below t" for t t'
    using that grows_length by fastforce
  have env: "mr_ids (pe_mrs env) \<subseteq> {..<length (sc_objects t)}" "pe_fault_ep env < length (sc_objects t)"
    "shadows_ids (pb_shadows pb) \<subseteq> {..<length (sc_objects t)}" if "?below t" for t
    using that by (auto simp: env_ids_def)
  from run show thesis
  proof (rule build_pd_parts_steps)
    fix elf tcb s1 v s2 s3 ipcbuf s4 bottom s5 sc s6 fault s7 ntfn ep input s8 reply s9 irqs s10 ports s11 vt vc k
    assume elf: "nthr elfs i = (Inr elf :: (capdl_error, elf_file) res)"
      and r1: "add_elf_to_spec cfg (pd_name pd) (pd_cpu pd) i elf s = Inr (tcb, s1)"
      and r2: "capdl_util_get_vspace_id_from_tcb_id tcb s1 = Inr (v, s2)"
      and r3: "foldB (\<lambda>_ mp. map_pd_region cfg (pe_mrs env) (pd_name pd) v elf mp) () (pd_maps pd) s2 = Inr ((), s3)"
      and r4: "map_ipc_buffer cfg (pd_name pd) v s3 = Inr (ipcbuf, s4)"
      and r5: "map_pd_stack cfg (pd_name pd) v (pd_stack_size pd) s4 = Inr (bottom, s5)"
      and r6: "capdl_util_make_sc_obj (pd_name pd) (ucast PD_SCHEDCONTEXT_EXTRA_SIZE_BITS) (pd_period pd)
              (pd_budget pd) (0x100 + of_nat i) s5 = Inr (sc, s6)"
      and r7: "build_fault_ep_cap (pe_fault_ep env) (pb_shadows pb) i pd tcb s6 = Inr (fault, s7)"
      and r8: "build_input pd i (pe_channels env) s7 = Inr ((ntfn, ep, input), s8)"
      and r9: "capdl_util_make_reply_obj (pd_name pd) s8 = Inr (reply, s9)"
      and r10: "build_pd_irqs cfg pd ntfn s9 = Inr (irqs, s10)"
      and r11: "build_pd_ioports pd s10 = Inr (ports, s11)"
      and r12: "build_pd_vm cfg (pe_mrs env) pd ep (pe_mon_cnode env) (pb_vcpu_idx pb) s11 = Inr ((vt, vc, k), u)"
      and parts: "pp_tcb parts = tcb" "pp_vspace parts = v" "pp_sc parts = sc" "pp_fault_cap parts = fault"
        "pp_ntfn parts = ntfn" "pp_ep parts = ep"
        "{(1, input), (2, fault), (3, CapPageTable v)} \<subseteq> set (pp_to_cspace parts)"
        "{(4, ipcbuf), (5, fault), (6, CapSchedContext sc), (8, CapNotification ntfn 0 rw_rights)} \<subseteq> set (pp_to_tcb parts)"
    obtain v' where tcb: "tcb < length (sc_objects s1)" "is_pt s1 v'" "no_object (sc_objects s1 ! tcb) = elf_tcb elf (pd_cpu pd) v'"
      using add_elf_tcb [OF r1 wf] by blast
    have e1: "spec_wf s1" "extends s s1"
      using buildsD_extends [OF builds_add_elf r1 wf, of "{}"] by simp_all
    have v: "v = v'" "s2 = s1"
      using get_vspace_elf_tcb [OF tcb(3,1)] spec_wf_range [OF e1(1)] r2 by simp_all
    have b1: "?below s1" using below [OF e1(2) ids] .
    have e3: "spec_wf s3" "extends s1 s3"
      using buildsD_extends [OF builds_each [OF builds_map_pd_region [OF order_refl]] r3 _ env(1)] e1(1) b1 v(2) by simp_all
    obtain buf where buf: "pd_ipc_buffer cfg = (Inr buf :: (capdl_error, u64) res)"
      "lookup_page lvls topmost s4 v SmallPg buf = Some ipcbuf"
      using map_ipc_buffer_run [OF r4 e3(1) _ pg] extends_is_pt [OF e3(2) tcb(2)] v(1) by blast
    have e4: "spec_wf s4" "extends s3 s4"
      using buildsD_extends [OF builds_map_ipc_buffer r4 e3(1), of "{}"] by simp_all
    have e5: "spec_wf s5" "extends s4 s5"
      using buildsD_extends [OF builds_map_pd_stack r5 e4(1), of "{}"] by simp_all
    have e6: "spec_wf s6" "extends s5 s6"
      using buildsD_extends [OF builds_make_obj(5) r6 e5(1), of "{}"] by simp_all
    have sc: "sc < length (sc_objects s6)"
      "no_object (sc_objects s6 ! sc) = ObjSchedContext 8 (pd_period pd) (pd_budget pd) (0x100 + of_nat i)"
      using r6 e5(1) by (auto simp: util_obj_defs add_root_object_Inr PD_SCHEDCONTEXT_EXTRA_SIZE_BITS_def)
    have t6: "extends s1 s6" "extends s4 s6"
      using extends_trans [OF e3(2) extends_trans [OF e4(2) extends_trans [OF e5(2) e6(2)]]]
        extends_trans [OF e5(2) e6(2)] by simp_all
    have s6: "?below s6" using below [OF t6(1) b1] .
    have e7: "spec_wf s7 \<and> extends s6 s7"
    proof -
      have "builds (length (sc_objects s6)) {..<length (sc_objects s6)}
          (build_fault_ep_cap (pe_fault_ep env) (pb_shadows pb) i pd tcb) (\<lambda>c. {cap_obj c}) (\<lambda>_. True)"
        by (rule builds_fault_ep_cap) (use env(2,3) [OF s6] tcb(1) grows_length [OF t6(1)] in auto)
      from buildsD_extends [OF this r7 e6(1) order_refl] show ?thesis by simp
    qed
    have e8: "spec_wf s8 \<and> extends s7 s8 \<and> {ntfn} \<union> set_option ep \<subseteq> {..<length (sc_objects s8)}"
      using buildsD_extends [OF builds_input r8, of "{}"] e7 by simp
    have e9: "spec_wf s9 \<and> extends s8 s9"
      using buildsD_extends [OF builds_make_obj(4) r9, of "{}"] e8 by simp
    have io: "{ntfn} \<union> set_option ep \<subseteq> {..<length (sc_objects s9)}"
      using e8 grows_length [OF conjunct2 [OF e9]] by fastforce
    have e10: "spec_wf s10 \<and> extends s9 s10"
      using buildsD_extends [OF builds_pd_irqs r10, of "{ntfn}"] e9 io by simp
    have e11: "spec_wf s11 \<and> extends s10 s11"
      using buildsD_extends [OF builds_pd_ioports r11, of "{}"] e10 by simp
    have t11: "extends s6 s11" "extends s9 s11"
      using e7 e8 e9 e10 e11 by (meson extends_trans)+
    have "builds (length (sc_objects s11)) {..<length (sc_objects s11)}
        (build_pd_vm cfg (pe_mrs env) pd ep (pe_mon_cnode env) (pb_vcpu_idx pb))
        (\<lambda>(a, b, _). cte_ids a \<union> cte_ids b) (\<lambda>_. True)"
      by (rule builds_pd_vm)
        (use env(1) [OF below [OF t11(1) s6]] io grows_length [OF t11(2)] in fastforce)+
    from buildsD_extends [OF this r12 _ order_refl] e11 have "extends s11 u" by simp
    with t6 t11(1) have u: "extends s1 u" "extends s4 u" "extends s6 u" by (meson extends_trans)+
    have "parts_facts cfg lvls topmost (pe_fault_ep env) (pb_shadows pb) (pe_channels env) elf i pd parts u buf ipcbuf"
      using parts buf(1) extends_lookup [OF u(2) buf(2)] extends_object [OF u(1) tcb(1)] tcb(3) v(1)
        extends_object [OF u(3) sc(1)] sc(2) build_fault_ep_cap_run [OF r7] build_input_run [OF r8]
      by (cases ep) (simp_all add: parts_facts_def growable_def elf_tcb_def)
    with elf show thesis by (rule that)
  qed
qed

section \<open>A domain\<close>

lemma build_cspace_run:
  assumes "build_cspace cfg owner ctes s = Inr ((root, node), s')" "range_ok s"
  shows "root < length (sc_objects s') \<and> node < length (sc_objects s')
     \<and> slots_of s' node = ctes
     \<and> growable (no_object (sc_objects s' ! root)) \<and> growable (no_object (sc_objects s' ! node))
     \<and> slots_of s' root = [(0, CapCNode node 0 (ucast (cap_address_bits cfg - 15)))]"
  using assms
  by (auto simp: build_cspace_def bld_simps util_obj_defs add_root_object_Inr Let_def
      capdl_util_insert_cap_into_cspace_def root_object_def update_root_object_Inr range_ok_def slots_of_def the_slots_def
      capdl_util_make_cte_def capdl_util_make_cnode_cap_def cap_idx_defs PD_CAP_BITS_def PD_ROOT_CAP_BITS_def nth_append growable_def)

lemma bind_pd_tcb_run:
  assumes "bind_pd_tcb cfg pd tcb ctes s = Inr (u, s')" "range_ok s"
    "no_object (sc_objects s ! tcb) = ObjTcb slots info"
  obtains buf top_addr where "pd_ipc_buffer cfg = (Inr buf :: (capdl_error, u64) res)"
    "pd_stack_top cfg = (Inr top_addr :: (capdl_error, u64) res)"
    "no_object (sc_objects s' ! tcb) = ObjTcb (sort_key (\<lambda>cte. unat (fst cte)) (slots @ ctes))
       (info\<lparr>te_ipc_buffer_addr := buf, te_sp := top_addr, te_prio := pd_priority pd,
          te_max_prio := pd_priority pd, te_fpu_disabled := \<not> pd_fpu pd, te_resume := True\<rparr>)"
    "\<And>j. j \<noteq> tcb \<Longrightarrow> sc_objects s' ! j = sc_objects s ! j"
    "length (sc_objects s') = length (sc_objects s)" "range_ok s'"
  using assms
  by (auto simp: bind_pd_tcb_def bld_simps update_tcb_def update_root_object_Inr range_ok_def)

lemma same_pts_lookup:
  assumes "\<And>j. j \<noteq> tcb \<Longrightarrow> sc_objects s' ! j = sc_objects s ! j" "length (sc_objects s') = length (sc_objects s)"
    and "no_object (sc_objects s ! tcb) = ObjTcb slots info"
    and "lookup_page lvls topmost s v pg a = Some c"
  shows "lookup_page lvls topmost s' v pg a = Some c"
proof -
  have "pt_entry s' i idx = Some d" if "pt_entry s i idx = Some d" for i idx d
    using that assms(1-3) by (cases "i = tcb") (auto simp: pt_entry_def split: if_splits)
  then have "entries_kept s s'" by (simp add: entries_kept_def)
  from walk_kept [OF this] assms(4) show ?thesis by (simp add: lookup_page_def)
qed

lemma build_pd_thread:
  assumes run: "build_pd cfg env elfs pb (i, pd) s = Inr (pb', u)" and wf: "spec_wf s"
    and ids: "env_ids env \<union> shadows_ids (pb_shadows pb) \<subseteq> {..<length (sc_objects s)}"
    and pg: "paging cfg lvls topmost"
  shows "\<exists>elf sh. nthr elfs i = (Inr elf :: (capdl_error, elf_file) res)
     \<and> pb_shadows pb' = (pb_shadows pb)(i \<mapsto> sh)
     \<and> (sh_endpoint sh \<noteq> None \<longleftrightarrow> needs_ep pd i (pe_channels env))
     \<and> thread_ok cfg lvls topmost (pe_fault_ep env) (pb_shadows pb) elf i pd sh u"
proof -
  let ?S = "{..<length (sc_objects s)}"
  have parts_builds: "builds (length (sc_objects s)) ?S (build_pd_parts cfg env elfs pb i pd) parts_ids (\<lambda>_. True)"
    by (rule builds_weaken [OF builds_pd_parts [where S = ?S]]) (use ids in auto)
  from run obtain parts t root node t1 t2 where r1: "build_pd_parts cfg env elfs pb i pd s = Inr (parts, t)"
    and r2: "build_cspace cfg (pd_name pd) (pp_to_cspace parts) t = Inr ((root, node), t1)"
    and r3: "bind_pd_tcb cfg pd (pp_tcb parts) (pp_to_tcb parts @ [(0, CapCNode root 0 0)]) t1 = Inr ((), t2)"
    and r4: "bind_to_monitor (pe_mon_cnode env) i pd (pp_tcb parts) (pp_sc parts) (pp_ntfn parts) t2 = Inr ((), u)"
    and sh: "pb_shadows pb' = (pb_shadows pb)(i \<mapsto>
          \<lparr>sh_cspace = root, sh_microkit_cnode = node, sh_notification = pp_ntfn parts, sh_endpoint = pp_ep parts,
           sh_sched_context = pp_sc parts, sh_tcb = pp_tcb parts, sh_vspace = pp_vspace parts\<rparr>)" (is "_ = _(i \<mapsto> ?sh)")
    by (auto simp: build_pd_def bld_simps capdl_util_make_cte_def capdl_util_make_cnode_cap_def)
  obtain elf buf ipcbuf where elf: "nthr elfs i = (Inr elf :: (capdl_error, elf_file) res)"
    and f: "parts_facts cfg lvls topmost (pe_fault_ep env) (pb_shadows pb) (pe_channels env) elf i pd parts t buf ipcbuf"
    by (rule build_pd_parts_facts [OF r1 wf ids pg])
  have t: "spec_wf t" "extends s t" "parts_ids parts \<subseteq> {..<length (sc_objects t)}"
    using buildsD_extends [OF parts_builds r1 wf order_refl] by simp_all
  have to_cspace: "cte_ids (pp_to_cspace parts) \<subseteq> {..<length (sc_objects t)}"
    and to_tcb: "cte_ids (pp_to_tcb parts) \<subseteq> {..<length (sc_objects t)}"
    and ids': "{pp_tcb parts, pp_sc parts, pp_ntfn parts} \<subseteq> {..<length (sc_objects t)}"
    using t(3) by (auto simp: parts_ids_def)
  have t1: "spec_wf t1" "extends t t1"
    using buildsD_extends [OF builds_cspace r2 t(1) to_cspace] by simp_all
  note cs = build_cspace_run [OF r2 spec_wf_range [OF t(1)]]
  have tcb: "pp_tcb parts < length (sc_objects t)"
    "no_object (sc_objects t ! pp_tcb parts) = elf_tcb elf (pd_cpu pd) (pp_vspace parts)"
    and sc: "pp_sc parts < length (sc_objects t)"
      "no_object (sc_objects t ! pp_sc parts) = ObjSchedContext 8 (pd_period pd) (pd_budget pd) (0x100 + of_nat i)"
    and look: "lookup_page lvls topmost t (pp_vspace parts) SmallPg buf = Some ipcbuf"
    and buf: "pd_ipc_buffer cfg = (Inr buf :: (capdl_error, u64) res)"
    using f by (simp_all add: parts_facts_def)
  have tcb1: "pp_tcb parts < length (sc_objects t1)"
    "no_object (sc_objects t1 ! pp_tcb parts) = ObjTcb [(1, CapPageTable (pp_vspace parts))]
       \<lparr>te_ipc_buffer_addr = 0, te_affinity = ucast (pd_cpu pd), te_prio = 0, te_max_prio = 0,
        te_resume = False, te_fpu_disabled = False, te_ip = elf_entry elf, te_sp = 0\<rparr>"
    using extends_object [OF t1(2) tcb(1)] tcb(2) by (simp_all add: elf_tcb_def growable_def)
  have sc1: "pp_sc parts < length (sc_objects t1)"
    "no_object (sc_objects t1 ! pp_sc parts) = ObjSchedContext 8 (pd_period pd) (pd_budget pd) (0x100 + of_nat i)"
    using extends_object [OF t1(2) sc(1)] sc(2) by (simp_all add: growable_def)
  have other: "root \<noteq> pp_tcb parts" "node \<noteq> pp_tcb parts" "pp_sc parts \<noteq> pp_tcb parts"
    using cs tcb1(2) sc1(2) by (auto simp: growable_def)
  define slots where "slots = sort_key (\<lambda>cte. unat (fst cte))
    ([(1, CapPageTable (pp_vspace parts))] @ pp_to_tcb parts @ [(0, CapCNode root 0 0)])"
  have slots: "sorted (map (\<lambda>cte. unat (fst cte)) slots)"
    "set slots = {(1, CapPageTable (pp_vspace parts)), (0, CapCNode root 0 0)} \<union> set (pp_to_tcb parts)"
    unfolding slots_def set_sort by (rule sorted_sort_key) auto
  obtain buf' top_addr where buf': "pd_ipc_buffer cfg = (Inr buf' :: (capdl_error, u64) res)"
    and top_addr: "pd_stack_top cfg = (Inr top_addr :: (capdl_error, u64) res)"
    and tcb2: "no_object (sc_objects t2 ! pp_tcb parts) = ObjTcb
       slots (pd_info pd elf buf' top_addr)"
    and same: "\<And>j. j \<noteq> pp_tcb parts \<Longrightarrow> sc_objects t2 ! j = sc_objects t1 ! j"
    and len: "length (sc_objects t2) = length (sc_objects t1)"
    by (rule bind_pd_tcb_run [OF r3 spec_wf_range [OF t1(1)] tcb1(2)]) (auto simp: pd_info_def slots_def)
  have "cte_ids (pp_to_tcb parts @ [(0, CapCNode root 0 0)]) \<subseteq> {..<length (sc_objects t1)}"
    using to_tcb grows_length [OF t1(2)] cs by auto
  from buildsD(1) [OF builds_bind_pd_tcb [OF this le0] r3 t1(1)] have t2: "spec_wf t2" by simp
  have "{pp_tcb parts, pp_sc parts, pp_ntfn parts} \<subseteq> {..<length (sc_objects t2)}"
    using ids' grows_length [OF t1(2)] len by auto
  from buildsD_extends [OF builds_bind_to_monitor [OF this] r4 t2 order_refl] have e: "extends t2 u" by simp
  have look2: "lookup_page lvls topmost t2 (pp_vspace parts) SmallPg buf = Some ipcbuf"
    by (rule same_pts_lookup [OF same len tcb1(2) extends_lookup [OF t1(2) look]])
  have "slots_of t2 root = slots_of t1 root" "slots_of t2 node = slots_of t1 node"
    "no_object (sc_objects t2 ! pp_sc parts) = no_object (sc_objects t1 ! pp_sc parts)"
    using same other by (simp_all add: slots_of_def)
  then have "thread_facts cfg lvls topmost (pe_fault_ep env) (pb_shadows pb) elf i pd ?sh t2
      slots buf top_addr ipcbuf (pp_fault_cap parts)"
    using f buf buf' top_addr tcb1(1) tcb2 sc1 cs len look2 slots
    by (cases "pp_ep parts") (simp_all add: thread_facts_def parts_facts_def input_cap_def)
  from thread_facts_extends [OF this e]
  have "thread_ok cfg lvls topmost (pe_fault_ep env) (pb_shadows pb) elf i pd ?sh u"
    unfolding thread_ok_def by blast
  moreover have "sh_endpoint ?sh \<noteq> None \<longleftrightarrow> needs_ep pd i (pe_channels env)"
    using f by (simp add: parts_facts_def)
  ultimately show ?thesis using elf sh by blast
qed

section \<open>All domains\<close>

definition threads_ok ::
    "config \<Rightarrow> nat \<Rightarrow> nat \<Rightarrow> nat \<Rightarrow> channel list \<Rightarrow> elf_file list \<Rightarrow> pd_shadows \<Rightarrow> protection_domain list
       \<Rightarrow> spec_container \<Rightarrow> bool" where
  "threads_ok cfg lvls topmost mon_ep channels elfs shadows pds s \<longleftrightarrow>
     (\<forall>i < length pds. \<exists>sh. i < length elfs \<and> shadows i = Some sh
        \<and> (sh_endpoint sh \<noteq> None \<longleftrightarrow> needs_ep (pds ! i) i channels)
        \<and> thread_ok cfg lvls topmost mon_ep shadows (elfs ! i) i (pds ! i) sh s)"

lemma threads_ok_extends:
  "threads_ok cfg lvls topmost mon_ep channels elfs shadows pds s \<Longrightarrow> extends s s' \<Longrightarrow>
     threads_ok cfg lvls topmost mon_ep channels elfs shadows pds s'"
  unfolding threads_ok_def using thread_ok_extends by blast

lemma threads_ok_snoc:
  assumes "threads_ok cfg lvls topmost mon_ep channels elfs shadows pds s" "length pds < length elfs"
    and "sh_endpoint sh \<noteq> None \<longleftrightarrow> needs_ep pd (length pds) channels"
    and "thread_ok cfg lvls topmost mon_ep shadows (elfs ! length pds) (length pds) pd sh s"
  shows "threads_ok cfg lvls topmost mon_ep channels elfs (shadows(length pds \<mapsto> sh)) (pds @ [pd]) s"
  unfolding threads_ok_def
proof (intro allI impI)
  fix i
  assume i: "i < length (pds @ [pd])"
  have sh: "(shadows(length pds \<mapsto> sh)) j = shadows j" if "j < i" for j using that i by simp
  consider "i < length pds" | "i = length pds" using i by fastforce
  then show "\<exists>sh'. i < length elfs \<and> (shadows(length pds \<mapsto> sh)) i = Some sh'
      \<and> (sh_endpoint sh' \<noteq> None \<longleftrightarrow> needs_ep ((pds @ [pd]) ! i) i channels)
      \<and> thread_ok cfg lvls topmost mon_ep (shadows(length pds \<mapsto> sh)) (elfs ! i) i ((pds @ [pd]) ! i) sh' s"
  proof cases
    case 1
    with assms(1) obtain sh' where old: "i < length elfs" "shadows i = Some sh'"
      "sh_endpoint sh' \<noteq> None \<longleftrightarrow> needs_ep (pds ! i) i channels"
      "thread_ok cfg lvls topmost mon_ep shadows (elfs ! i) i (pds ! i) sh' s"
      unfolding threads_ok_def by blast
    from thread_ok_shadows [OF old(4) sh] old(1-3) 1 show ?thesis
      by (intro exI [where x = sh']) (simp add: nth_append fun_upd_def)
  next
    case 2
    from assms(4) have "thread_ok cfg lvls topmost mon_ep shadows (elfs ! i) i pd sh s" by (simp add: 2)
    from thread_ok_shadows [OF this sh] assms(2,3) show ?thesis
      by (simp add: 2 fun_upd_def)
  qed
qed

lemma build_pds_threads:
  assumes "foldB (build_pd cfg env elfs) \<lparr>pb_shadows = Map.empty, pb_vcpu_idx = 0, pb_stack_bottoms = []\<rparr>
      (enumerate 0 pds) s = Inr (pb, u)" "spec_wf s" "env_ids env \<subseteq> {..<length (sc_objects s)}"
    "paging cfg lvls topmost"
  shows "spec_wf u \<and> extends s u \<and> shadows_ids (pb_shadows pb) \<subseteq> {..<length (sc_objects u)}
    \<and> threads_ok cfg lvls topmost (pe_fault_ep env) (pe_channels env) elfs (pb_shadows pb) pds u"
  using assms(1)
proof (induction pds arbitrary: pb u rule: rev_induct)
  case Nil
  then show ?case using assms(2) by (auto simp: bld_simps shadows_ids_def threads_ok_def grows_def)
next
  case (snoc pd pds)
  let ?i = "length pds"
  from snoc.prems obtain pb1 t where r1: "foldB (build_pd cfg env elfs)
       \<lparr>pb_shadows = Map.empty, pb_vcpu_idx = 0, pb_stack_bottoms = []\<rparr> (enumerate 0 pds) s = Inr (pb1, t)"
    and r2: "build_pd cfg env elfs pb1 (?i, pd) t = Inr (pb, u)"
    by (auto simp: enumerate_append_eq foldB_append bld_simps)
  from snoc.IH [OF r1] have t: "spec_wf t" "extends s t" "shadows_ids (pb_shadows pb1) \<subseteq> {..<length (sc_objects t)}"
    "threads_ok cfg lvls topmost (pe_fault_ep env) (pe_channels env) elfs (pb_shadows pb1) pds t" by simp_all
  have below: "env_ids env \<union> shadows_ids (pb_shadows pb1) \<subseteq> {..<length (sc_objects t)}"
    using assms(3) grows_length [OF t(2)] t(3) by fastforce
  from buildsD_extends [OF builds_pd [OF order_refl] r2 t(1) below]
  have u: "spec_wf u" "extends t u" "shadows_ids (pb_shadows pb) \<subseteq> {..<length (sc_objects u)}" by simp_all
  from build_pd_thread [OF r2 t(1) below assms(4)] obtain elf sh where
    sh: "nthr elfs ?i = (Inr elf :: (capdl_error, elf_file) res)" "pb_shadows pb = (pb_shadows pb1)(?i \<mapsto> sh)"
      "sh_endpoint sh \<noteq> None \<longleftrightarrow> needs_ep pd ?i (pe_channels env)"
      "thread_ok cfg lvls topmost (pe_fault_ep env) (pb_shadows pb1) elf ?i pd sh u" by blast
  then have "?i < length elfs" "elf = elfs ! ?i" by (auto simp: nthr_def split: if_splits)
  then have "threads_ok cfg lvls topmost (pe_fault_ep env) (pe_channels env) elfs (pb_shadows pb) (pds @ [pd]) u"
    unfolding sh(2) by (intro threads_ok_snoc threads_ok_extends [OF t(4) u(2)]) (use sh(3,4) in auto)
  with u extends_trans [OF t(2) u(2)] show ?case by blast
qed

text \<open>C9: every protection domain of a built system gets its thread: the thread has the domain's
  priority (also as its ceiling), core, floating point setting and entry point, it starts running on the
  top of its stack, and it is bound to the root of the domain's capability space, to the root of its page
  tables, to the frame mapped at its IPC buffer address, to its notification, to a scheduling context with
  the domain's budget and period, and to its fault handler: its parent's endpoint, badged with the
  identifier of the child under the fault bit, or the monitor's, badged with the domain's index.  The
  capability space has the domain's input at the slot the runtime library expects: the endpoint exactly
  if some other domain may call it, and the notification otherwise.\<close>

theorem build_objects_threads:
  assumes "build_objects cfg elfs sys spec_new = Inr ((), s)" "paging cfg lvls topmost"
  shows "\<exists>mon_ep shadows. threads_ok cfg lvls topmost mon_ep (sd_channels sys) elfs shadows
     (sd_protection_domains sys) s"
proof -
  let ?pds = "sd_protection_domains sys"
  from assms(1) obtain monitor_elf mon_ep mon_cnode s1 mrs s2 smc s3 pb s4 s5 where
    r1: "build_monitor cfg (length elfs - 1) monitor_elf spec_new = Inr ((mon_ep, mon_cnode), s1)"
    and r2: "build_memory_regions cfg (sd_memory_regions sys) s1 = Inr (mrs, s2)"
    and r3: "create_arm_smc cfg ?pds s2 = Inr (smc, s3)"
    and r4: "foldB (build_pd cfg \<lparr>pe_mrs = mrs, pe_fault_ep = mon_ep, pe_mon_cnode = mon_cnode,
                  pe_arm_smc = smc, pe_channels = sd_channels sys\<rparr> elfs)
        \<lparr>pb_shadows = Map.empty, pb_vcpu_idx = 0, pb_stack_bottoms = []\<rparr> (enumerate 0 ?pds) s3 = Inr (pb, s4)"
      (is "foldB (build_pd cfg ?env elfs) _ _ _ = _")
    and r5: "build_channels (pb_shadows pb) (sd_channels sys) s4 = Inr ((), s5)"
    and r6: "build_cap_maps cfg (pb_shadows pb) ?pds s5 = Inr ((), s)"
    by (auto simp: build_objects_def build_pds_def bld_simps Let_def)
  have s1: "spec_wf s1" "{mon_ep, mon_cnode} \<subseteq> {..<length (sc_objects s1)}"
    using buildsD_extends [OF builds_monitor r1 spec_new_wf, of "{}"] by simp_all
  have s2: "spec_wf s2" "extends s1 s2" "mr_ids mrs \<subseteq> {..<length (sc_objects s2)}"
    using buildsD_extends [OF builds_memory_regions r2 s1(1), of "{}"] by simp_all
  have s3: "spec_wf s3" "extends s2 s3" "set_option smc \<subseteq> {..<length (sc_objects s3)}"
    using buildsD_extends [OF builds_arm_smc r3 s2(1), of "{}"] by simp_all
  have "env_ids ?env \<subseteq> {..<length (sc_objects s3)}"
    using s1(2) s2(3) s3(3) grows_length [OF s2(2)] grows_length [OF s3(2)] by (fastforce simp: env_ids_def)
  from build_pds_threads [OF r4 s3(1) this assms(2)]
  have s4: "spec_wf s4" "shadows_ids (pb_shadows pb) \<subseteq> {..<length (sc_objects s4)}"
    "threads_ok cfg lvls topmost mon_ep (sd_channels sys) elfs (pb_shadows pb) ?pds s4" by simp_all
  have s5: "spec_wf s5" "extends s4 s5"
    using buildsD_extends [OF builds_channels [OF order_refl] r5 s4(1,2)] by simp_all
  have "extends s5 s"
    using buildsD_extends [OF builds_cap_maps [OF order_refl] r6 s5(1)] s4(2) grows_length [OF s5(2)] by fastforce
  with s4(3) s5(2) have "threads_ok cfg lvls topmost mon_ep (sd_channels sys) elfs (pb_shadows pb) ?pds s"
    by (meson threads_ok_extends)
  then show ?thesis by blast
qed

end
