(* ===== verification/Capdl_Run.thy ===== *)
theory Capdl_Run
  imports Capdl_Threads
begin

unbundle bit_operations_syntax

text \<open>
  Running the builder on concrete systems.  The equations here evaluate a step only once the state it
  starts from is known, so that the simplifier runs a whole build; the example is a system of two
  protection domains, a region mapped into both, and a channel between them.
\<close>

section \<open>Evaluation\<close>

lemma step_runs:
  "bindB m f s = bindr (m s) (\<lambda>(x, s'). f x s')" "liftB r s = bindr r (\<lambda>x. Inr (x, s))"
  "returnB x s = Inr (x, s)" "unwrapB m s = unwrap_res (m s)" "map_errB g m s = lift_err g (m s)"
  by (simp_all add: bindB_def liftB_def returnB_def unwrapB_def map_errB_def)

lemmas object_runs = add_root_object_def root_object_def update_root_object_def get_root_object_def

lemma step_congs:
  "bindB m f = bindB m f" "r = r' \<Longrightarrow> bindr r g = bindr r' g"
  "acc = acc' \<Longrightarrow> xs = xs' \<Longrightarrow> foldB h acc xs = foldB h acc' xs'"
  by simp_all

lemma map_page_run:
  "map_page cfg owner vspace_id frame_cap frame_bytes vaddr s =
     bindB (liftB (top_pt_level_number cfg)) (\<lambda>topmost.
       map_recursive cfg owner vspace_id vspace_id topmost frame_cap frame_bytes vaddr) s"
  by (simp add: map_page_def)

lemmas page_runs =
  map_page_run map_recursive.simps top_pt_level_number_def num_page_table_levels_def get_pt_level_index_def
  index_bits_def get_pt_level_to_insert_def get_pt_level_name_def map_intermediary_level_helper_def
  get_pt_level_coverage_def insert_cap_into_page_table_level_def find_slot_def shl_def shr_def
  aarch64_vspace_s2_start_l1_def example_riscv_config_def spec_new_def hex_string_def
  digits_string.simps digit_char_def capdl_util_make_cte_def Let_def upt_rec

lemmas elf_runs =
  add_elf_to_spec_def create_vspace_def map_elf_segment_def map_elf_pages.simps map_elf_page_def
  small_frame_bits_def page_fixed_size_bits_def fixed_size_bits_def elf_page_fill_def segment_data_def
  round_down_def divmod_def example_elf_segments LOOP_FUEL_pos mem_size_def pad0_def dec_string_def

lemmas monitor_runs =
  build_monitor_def map_ipc_buffer_def map_own_frame_def update_tcb_def
  capdl_util_get_vspace_id_from_tcb_id_def pd_stack_bottom_def pd_stack_top_def pd_ipc_buffer_def
  user_vspace_top_def MON_STACK_SIZE_def MONITOR_PD_NAME_def build_memory_regions_def create_arm_smc_def
  build_mr_frames_def build_mr_frame_def mr_frame_fill_def mr_frame_paddr_def page_size_bytes_def smr_paddr_def

lemmas pd_runs =
  build_pds_def build_pd_def build_pd_parts_def map_pd_region_def frames_page_size_def capdl_util_get_frame_size_bits_def
  check_elf_overlap_def round_up_def ranges_overlap_def map_memory_region_def map_pd_stack_def
  build_fault_ep_cap_def build_input_def needs_ep_def build_pd_irqs_def build_pd_ioports_def build_pd_vm_def
  smc_ctes_def own_ctes_def passive_ctes_def build_cspace_def bind_pd_tcb_def bind_to_monitor_def
  capdl_util_insert_cap_into_cspace_def PD_CAP_SIZE_def cap_idx_defs map_index_def
  build_channels_def build_channel_def connect_notify_def connect_pp_def build_cap_maps_def build_cap_map_def
  cap_map_cap_def

lemmas build_runs =
  step_runs object_runs page_runs elf_runs monitor_runs pd_runs util_obj_defs util_cap_defs build_objects_def

section \<open>A system\<close>

definition example_pd :: "string \<Rightarrow> u8 \<Rightarrow> protection_domain" where
  "example_pd name prio = \<lparr>pd_id = None, pd_name = name, pd_priority = prio, pd_budget = 1000, pd_period = 1000,
     pd_passive = False, pd_stack_size = 0x1000, pd_smc = False, pd_cpu = 0, pd_program_image = ''a.elf'',
     pd_program_image_for_symbols = None, pd_fpu = True,
     pd_maps = [\<lparr>sm_mr = ''m'', sm_vaddr = 0x200000, sm_perms = 3, sm_cached = True, sm_text_pos = None\<rparr>],
     pd_irqs = [], pd_ioports = [], pd_setvars = [], pd_cap_maps = [], pd_virtual_machine = None,
     pd_has_children = False, pd_parent = None, pd_setvar_id = None, pd_text_pos = None\<rparr>"

definition example_system :: system_description where
  "example_system = \<lparr>sd_protection_domains = [example_pd ''a'' 1, example_pd ''b'' 2],
     sd_memory_regions = [\<lparr>smr_name = ''m'', smr_size = 0x1000, smr_page_size_specified = False,
        smr_page_size = SmallPg, smr_page_count = 1, smr_phys_addr = Unspecified, smr_text_pos = None,
        smr_kind = MrUser, smr_prefill_bytes = None\<rparr>],
     sd_channels = [\<lparr>end_a = \<lparr>ce_pd = 0, ce_id = 5, ce_notify = True, ce_pp = True, ce_setvar_id = None\<rparr>,
        end_b = \<lparr>ce_pd = 1, ce_id = 7, ce_notify = True, ce_pp = False, ce_setvar_id = None\<rparr>\<rparr>]\<rparr>"

lemma example_objects:
  "\<exists>s. build_objects example_riscv_config [example_elf, example_elf, example_elf] example_system spec_new = Inr ((), s)
     \<and> distinct (map no_name (sc_objects s)) \<and> sc_objects s \<noteq> []
     \<and> (\<forall>ob \<in> set (sc_objects s). case no_object ob of ObjVCpu \<Rightarrow> False | _ \<Rightarrow> True)"
  by (simp add: build_runs example_system_def example_pd_def cong: step_congs)

lemma example_riscv_sized:
  "(case no_object ob of ObjVCpu \<Rightarrow> False | _ \<Rightarrow> True) \<Longrightarrow> sized example_riscv_config ob"
  by (auto simp: sized_def capdl_obj_physical_size_bits_def fixed_size_bits_def example_riscv_config_def
      split: capdl_object.splits)

lemma example_spec_built:
  "\<exists>s. build_capdl_spec example_riscv_config [example_elf, example_elf, example_elf] example_system = Inr s
     \<and> sc_objects s \<noteq> []"
proof -
  let ?cfg = example_riscv_config and ?elfs = "[example_elf, example_elf, example_elf]"
  obtain t where t: "build_objects ?cfg ?elfs example_system spec_new = Inr ((), t)"
    "distinct (map no_name (sc_objects t))" "\<forall>ob \<in> set (sc_objects t). sized ?cfg ob" "sc_objects t \<noteq> []"
    using example_objects example_riscv_sized by blast
  have "spec_wf t" using buildsD_extends [OF builds_objects t(1) spec_new_wf, of "{}"] by simp
  then obtain s where "sort_root_objects ?cfg t = Inr ((), s)" "sc_objects s \<noteq> []"
    by (rule sort_root_objects_run [OF _ t(2,3)]) (use t(4) in force)
  with t show ?thesis by (auto simp: build_capdl_spec_def bindB_def)
qed

theorem build_capdl_spec_wf_witness:
  "\<exists>s. build_capdl_spec example_riscv_config [example_elf, example_elf, example_elf] example_system = Inr s
     \<and> spec_wf s"
  using example_spec_built build_capdl_spec_wf by blast

theorem build_objects_threads_witness:
  "\<exists>s. build_objects example_riscv_config [example_elf, example_elf, example_elf] example_system spec_new = Inr ((), s)
     \<and> (\<exists>mon_ep shadows. threads_ok example_riscv_config 3 0 mon_ep (sd_channels example_system)
          [example_elf, example_elf, example_elf] shadows (sd_protection_domains example_system) s)"
proof -
  have "paging example_riscv_config 3 0"
    by (simp add: paging_def num_page_table_levels_def top_pt_level_number_def example_riscv_config_def)
  then show ?thesis using example_objects build_objects_threads by blast
qed

end
