(* ===== verification/Capdl_Fills.thy ===== *)
theory Capdl_Fills
  imports Object_Contract Packaging Capdl_Run
begin

text \<open>
  The filled frames of a specification and the packing that copies their contents
  (\<open>tool/microkit/src/capdl/builder.rs\<close>, \<open>packaging.rs\<close>): every piece lies in its frame, and the slices taken
  to fill it are in bounds and of the length of the piece.
\<close>

section \<open>Fills that can be packed\<close>

definition fill_fits :: "elf_file list \<Rightarrow> u8 \<Rightarrow> fill_entry \<Rightarrow> bool" where
  "fill_fits elfs bits e \<longleftrightarrow> unat (fe_start e) \<le> unat (fe_end e) \<and> unat (fe_end e) \<le> 2 ^ unat bits
     \<and> is_ok (fill_buffer elfs (fe_content e) (unat (fe_end e) - unat (fe_start e)) :: (unit, u8 list) res)"

definition frame_fits :: "elf_file list \<Rightarrow> capdl_object \<Rightarrow> bool" where
  "frame_fits elfs ob = (case ob of ObjFrame bits _ fill \<Rightarrow> list_all (fill_fits elfs bits) fill | _ \<Rightarrow> True)"

text \<open>The pages are of the sizes that the rest of the tool takes them to have, and the ELF files hold nothing
  but segments to load, as those that the tool has read do.\<close>

definition fills_ready :: "config \<Rightarrow> elf_file list \<Rightarrow> bool" where
  "fills_ready cfg elfs \<longleftrightarrow>
     page_fixed_size_bits SmallPg cfg = (Inr 12 :: (capdl_error, u64) res)
     \<and> page_fixed_size_bits LargePg cfg = (Inr 21 :: (capdl_error, u64) res)
     \<and> list_all (\<lambda>elf. list_all loadable (segments elf)) elfs"

lemma loadable_all: "list_all loadable (segments elf) \<Longrightarrow> loadable_segments elf = segments elf"
  by (simp add: loadable_segments_def list_all_iff filter_True)

lemma elf_page_fits:
  assumes ready: "fills_ready cfg elfs" and i: "i < length elfs"
    and k: "k < length (loadable_segments (elfs ! i))" and seg: "seg = loadable_segments (elfs ! i) ! k"
    and data: "segment_data seg = (Inr data :: (capdl_error, u8 list) res)"
    and top: "seg_below_top seg" and cur: "unat (virt_addr seg) < unat cur + 4096"
      "unat cur < unat (virt_addr seg) + unat (mem_size seg)"
  shows "list_all (fill_fits elfs 12) (elf_page_fill i k (virt_addr seg) (mem_size seg) cur)"
proof (cases "mem_size seg = 0")
  case True
  then show ?thesis by (simp add: elf_page_fill_def Let_def)
next
  case False
  then have pos: "0 < unat (mem_size seg)" by (simp add: unat_gt_0)
  obtain dest len sect where fill: "elf_page_fill i k (virt_addr seg) (mem_size seg) cur =
      [\<lparr>fe_start = dest, fe_end = dest + len, fe_content = ElfContent i k (unat sect) (unat (sect + len))\<rparr>]"
    and n: "unat dest = unat (virt_addr seg) - unat cur" "unat sect < unat (mem_size seg)"
      "unat len = min (4096 - unat dest) (unat (mem_size seg) - unat sect)"
      "unat (dest + len) = unat dest + unat len" "unat (sect + len) = unat sect + unat len"
    by (rule elf_page_fill_parts [OF cur pos top [unfolded seg_below_top_def], of i k]) (rule that)
  have segs: "loadable_segments (elfs ! i) = segments (elfs ! i)"
    using ready i by (intro loadable_all) (simp add: fills_ready_def list_all_length)
  from data have sd: "seg_data seg = RealData data" by (simp add: segment_data_def split: elf_segment_data.splits)
  have "unat (mem_size seg) \<le> length data"
    by (simp add: mem_size_def sd unat_of_nat)
  moreover have "unat dest < 4096" using n(1) cur(1) by linarith
  ultimately have "unat dest + unat len \<le> 4096" "unat sect + unat len \<le> length data"
    using n(2,3) by linarith+
  moreover have "k < length (segments (elfs ! i))" "segments (elfs ! i) ! k = seg" using k seg segs by simp_all
  ultimately show ?thesis
    using i n(4,5)
    by (simp add: fill fill_fits_def fill_buffer_def nthr_def segment_data_def sd slice_at_def)
qed

lemma mr_page_fits:
  assumes "mr_frame_fill mr k = Inr fill" "2 ^ unat bits = unat (page_size_bytes mr)"
  shows "list_all (fill_fits elfs bits) fill"
proof (cases "smr_prefill_bytes mr")
  case None
  with assms(1) show ?thesis by (simp add: mr_frame_fill_def)
next
  case (Some bytes)
  let ?start = "k * page_size_bytes mr" and ?n = "min (page_size_bytes mr) (of_nat (length bytes) - k * page_size_bytes mr)"
  from assms(1) Some have from_to: "unat ?start \<le> unat (?start + ?n)" "unat (?start + ?n) \<le> length bytes"
    and fill: "fill = [\<lparr>fe_start = 0, fe_end = ?n,
      fe_content = BytesContent (take (unat (?start + ?n) - unat ?start) (drop (unat ?start) bytes))\<rparr>]"
    by (auto simp: mr_frame_fill_def Let_def bindr_eq_Inr slice_at_eq_Inr)
  have "unat (?start + ?n) = unat ?start + unat ?n"
    by (rule unat_plus_simple [THEN iffD1]) (use from_to(1) in \<open>simp only: word_le_nat_alt\<close>)
  moreover have "unat ?n \<le> unat (page_size_bytes mr)" by (simp add: word_le_nat_alt [symmetric])
  ultimately show ?thesis
    using from_to(2) by (simp add: fill fill_fits_def fill_buffer_def assms(2))
qed

definition packable :: "config \<Rightarrow> elf_file list \<Rightarrow> capdl_object \<Rightarrow> bool" where
  "packable cfg elfs ob \<longleftrightarrow> (fills_ready cfg elfs \<longrightarrow> frame_fits elfs ob)"

interpretation fills: build_contract "packable cfg elfs" cfg elfs for cfg elfs
proof (unfold_locales, goal_cases)
  case (1 ob)
  then show ?case by (auto simp: packable_def frame_fits_def split: capdl_object.split)
next
  case (2 bits paddr)
  then show ?case by (simp add: packable_def frame_fits_def)
next
  case (3 i k seg data cur bits)
  then show ?case
    using elf_page_fits [OF _ 3(1-7)] by (auto simp: packable_def frame_fits_def fills_ready_def)
next
  case (4 mr n fill bits p)
  then show ?case
    using mr_page_fits [OF 4(1), of "ucast bits" elfs]
    by (cases "smr_page_size mr") (auto simp: packable_def frame_fits_def fills_ready_def page_size_bytes_def)
qed

text \<open>What the tool reads from a file satisfies the condition on the segments.\<close>

lemma read_segments_loadable:
  assumes "reader_segments rd = Inr segs"
  shows "list_all loadable segs"
  using assms
  by (auto simp: reader_segments_def Let_def bindr_eq_Inr split: if_splits
      elim!: foldM_inv [where I = "list_all loadable"])

text \<open>C19: packing never goes out of bounds on a specification that was built: every piece of the contents of a
  frame lies in the frame, and the function that copies it finds the slice of the ELF file, or of the prefill of a
  memory region, that the piece names, with exactly the length of the piece.  The hypotheses are that the pages
  are of 4 KiB and 2 MiB, that the files hold segments to load only, and that no segment ends in the last page of
  the address space.\<close>

theorem build_capdl_spec_fills:
  assumes "build_capdl_spec cfg elfs sys = Inr spec" and "fills_ready cfg elfs"
    and "\<forall>elf \<in> set elfs. list_all seg_below_top (loadable_segments elf)"
  shows "\<forall>ob \<in> set (sc_objects spec). frame_fits elfs (no_object ob)"
  using fills.built_objects [OF assms(3,1)] assms(2) by (simp add: packable_def)

theorem build_capdl_spec_fills_witness:
  "\<exists>spec. build_capdl_spec example_riscv_config [example_elf, example_elf, example_elf] example_system = Inr spec
     \<and> sc_objects spec \<noteq> []
     \<and> (\<forall>ob \<in> set (sc_objects spec). frame_fits [example_elf, example_elf, example_elf] (no_object ob))"
proof -
  let ?elfs = "[example_elf, example_elf, example_elf]"
  obtain spec where spec: "build_capdl_spec example_riscv_config ?elfs example_system = Inr spec" "sc_objects spec \<noteq> []"
    using example_spec_built by blast
  have segs: "list_all loadable (segments example_elf)" by (simp add: example_elf_def)
  have "fills_ready example_riscv_config ?elfs"
    using segs by (simp add: fills_ready_def page_fixed_size_bits_def fixed_size_bits_def example_riscv_config_def)
  moreover have "\<forall>elf \<in> set ?elfs. list_all seg_below_top (loadable_segments elf)"
    by (simp add: example_elf_segments seg_below_top_def mem_size_def)
  ultimately show ?thesis using build_capdl_spec_fills [OF spec(1)] spec by blast
qed

end
