(* ===== verification/Capdl_Regions.thy ===== *)
theory Capdl_Regions
  imports Capdl_Monitor
begin

text \<open>
  What the builder makes of a memory region: its frames, their physical addresses and their contents.
\<close>

section \<open>The contents of a page\<close>

text \<open>The frame at a position of a region: the bytes of the prefill that belong to it, from its start.\<close>

definition mr_page_fill :: "sys_memory_region \<Rightarrow> nat \<Rightarrow> frame_fill" where
  "mr_page_fill mr k = (case smr_prefill_bytes mr of
      None \<Rightarrow> []
    | Some bytes \<Rightarrow>
        let page = take (unat (page_size_bytes mr)) (drop (k * unat (page_size_bytes mr)) bytes)
        in [\<lparr>fe_start = 0, fe_end = of_nat (length page), fe_content = BytesContent page\<rparr>])"

definition mr_page :: "u8 \<Rightarrow> sys_memory_region \<Rightarrow> nat \<Rightarrow> named_object" where
  "mr_page bits mr k =
     \<lparr>no_name = ''frame_mr_'' @ smr_name mr @ ''_'' @ pad0 9 (dec_string k),
      no_object = ObjFrame bits (map_option (\<lambda>base. base + of_nat (k * unat (page_size_bytes mr))) (smr_paddr mr))
        (mr_page_fill mr k)\<rparr>"

definition page_filled :: "sys_memory_region \<Rightarrow> nat \<Rightarrow> bool" where
  "page_filled mr k = (case smr_prefill_bytes mr of
      None \<Rightarrow> True | Some bytes \<Rightarrow> k * unat (page_size_bytes mr) \<le> length bytes)"

definition prefill_small :: "sys_memory_region \<Rightarrow> bool" where
  "prefill_small mr = (case smr_prefill_bytes mr of None \<Rightarrow> True | Some bytes \<Rightarrow> length bytes < 2 ^ 64)"

lemma mr_frame_fill_run:
  assumes k: "k < unat (smr_page_count mr)" and pc: "unat (smr_page_count mr) * unat (page_size_bytes mr) < 2 ^ 64"
    and small: "prefill_small mr"
  shows "mr_frame_fill mr (of_nat k) =
     (if page_filled mr k then Inr (mr_page_fill mr k) else Inl (Panic IndexOutOfBounds))"
proof (cases "smr_prefill_bytes mr")
  case None
  then show ?thesis by (simp add: mr_frame_fill_def page_filled_def mr_page_fill_def)
next
  case (Some bytes)
  let ?z = "unat (page_size_bytes mr)" and ?start = "of_nat k * page_size_bytes mr :: u64"
  have kz: "k * ?z < 2 ^ 64"
    using mult_le_mono1 [OF less_imp_le [OF k], of ?z] pc by linarith
  have start: "unat ?start = k * ?z"
    using kz by (simp add: unat_word_ariths unat_of_nat mod_mult_left_eq)
  have len: "length bytes < 2 ^ 64" using small Some by (simp add: prefill_small_def)
  show ?thesis
  proof (cases "k * ?z \<le> length bytes")
    case True
    let ?page = "take ?z (drop (k * ?z) bytes)"
    have rem: "unat (of_nat (length bytes) - ?start :: u64) = length bytes - k * ?z"
      using True len start by (simp add: unat_sub word_le_nat_alt unat_of_nat_small)
    have num: "unat (min (page_size_bytes mr) (of_nat (length bytes) - ?start)) = length ?page"
      by (simp add: min_def word_le_nat_alt rem)
    have upto: "unat (?start + min (page_size_bytes mr) (of_nat (length bytes) - ?start)) = k * ?z + length ?page"
      using len True by (subst unat_add_no_overflow) (simp_all only: start num len64_eq, simp)
    have "min (page_size_bytes mr) (of_nat (length bytes) - ?start) = of_nat (length ?page)"
      unfolding num [symmetric] by simp
    with upto True show ?thesis
      by (auto simp: mr_frame_fill_def mr_page_fill_def page_filled_def Some Let_def start slice_at_def min_def)
  next
    case False
    then show ?thesis
      by (simp add: mr_frame_fill_def page_filled_def Some Let_def start slice_at_def)
  qed
qed

section \<open>The frames of a region\<close>

text \<open>The frames that are in place after the first \<open>n\<close> iterations.\<close>

lemma build_mr_frames_loop:
  assumes "range_ok s" and pc: "unat (smr_page_count mr) * unat (page_size_bytes mr) < 2 ^ 64"
    and small: "prefill_small mr" and n: "n \<le> unat (smr_page_count mr)"
  shows "foldB (build_mr_frame bits mr) [] [0..<n] s =
     (if \<forall>k < n. page_filled mr k
      then Inr ([length (sc_objects s)..<length (sc_objects s) + n],
             s\<lparr>sc_objects := sc_objects s @ map (mr_page bits mr) [0..<n], sc_root_end := sc_root_end s + n\<rparr>)
      else Inl (Panic IndexOutOfBounds))"
  using n
proof (induction n)
  case 0
  then show ?case by (simp add: returnB_def)
next
  case (Suc n)
  let ?t = "s\<lparr>sc_objects := sc_objects s @ map (mr_page bits mr) [0..<n], sc_root_end := sc_root_end s + n\<rparr>"
  have fill: "mr_frame_fill mr (of_nat n) =
      (if page_filled mr n then Inr (mr_page_fill mr n) else Inl (Panic IndexOutOfBounds :: capdl_error failure))"
    by (rule mr_frame_fill_run) (use Suc.prems pc small in auto)
  have paddr: "mr_frame_paddr mr (of_nat n) =
      map_option (\<lambda>base. base + of_nat (n * unat (page_size_bytes mr))) (smr_paddr mr)"
    by (simp add: mr_frame_paddr_def)
  have "range_ok ?t" using assms(1) by (simp add: range_ok_def)
  then have step: "build_mr_frame bits mr ids n ?t =
      (if page_filled mr n
       then Inr (ids @ [length (sc_objects s) + n],
              s\<lparr>sc_objects := sc_objects s @ map (mr_page bits mr) [0..<Suc n], sc_root_end := sc_root_end s + Suc n\<rparr>)
       else Inl (Panic IndexOutOfBounds))" for ids
    by (simp add: build_mr_frame_def bindB_def liftB_def returnB_def fill paddr capdl_util_make_frame_obj_def
        add_root_object_run mr_page_def)
  have all: "(\<forall>k < Suc n. page_filled mr k) \<longleftrightarrow> (\<forall>k < n. page_filled mr k) \<and> page_filled mr n"
    by (auto simp: less_Suc_eq)
  show ?case
    using Suc.prems unfolding all upt_Suc_append [OF le0] foldB_append
    by (simp add: bindB_def Suc.IH step) (simp add: returnB_def)
qed

text \<open>C28: a memory region becomes one frame for each of its pages, in order: each of the size of the
  pages, at its offset from the physical address of the region if it has one, and filled from its start
  with the bytes of the prefill that belong to it.  The tool panics exactly when the region is so much
  larger than its prefill that a page begins after the end of it.\<close>

theorem build_mr_frames_spec:
  assumes "range_ok s" and "unat (smr_page_count mr) * unat (page_size_bytes mr) < 2 ^ 64"
    and "prefill_small mr" and "page_fixed_size_bits (smr_page_size mr) cfg = (Inr bits :: (capdl_error, u64) res)"
  shows "build_mr_frames cfg mr s =
     (let n = unat (smr_page_count mr)
      in if \<forall>k < n. page_filled mr k
         then Inr ([length (sc_objects s)..<length (sc_objects s) + n],
                s\<lparr>sc_objects := sc_objects s @ map (mr_page (ucast bits) mr) [0..<n],
                  sc_root_end := sc_root_end s + n\<rparr>)
         else Inl (Panic IndexOutOfBounds))"
  using build_mr_frames_loop [OF assms(1-3) order_refl, of "ucast bits"] assms(4)
  by (simp add: build_mr_frames_def bindB_def liftB_def Let_def)

definition example_prefilled :: "u64 \<Rightarrow> sys_memory_region" where
  "example_prefilled pages = \<lparr>smr_name = ''m'', smr_size = pages * 0x1000, smr_page_size_specified = False,
     smr_page_size = SmallPg, smr_page_count = pages, smr_phys_addr = Specified 0x80000000, smr_text_pos = None,
     smr_kind = MrUser, smr_prefill_bytes = Some [1, 2, 3]\<rparr>"

theorem build_mr_frames_spec_witness:
  "build_mr_frames example_riscv_config (example_prefilled 1) spec_new
     = Inr ([0], spec_new\<lparr>sc_objects := [mr_page 12 (example_prefilled 1) 0], sc_root_end := 1\<rparr>)
   \<and> build_mr_frames example_riscv_config (example_prefilled 2) spec_new = Inl (Panic IndexOutOfBounds)"
proof -
  have bits: "page_fixed_size_bits (smr_page_size (example_prefilled n)) example_riscv_config
      = (Inr 12 :: (capdl_error, u64) res)" for n
    by (simp add: page_fixed_size_bits_def fixed_size_bits_def example_riscv_config_def example_prefilled_def)
  have r: "range_ok spec_new" by (simp add: range_ok_def spec_new_def)
  have s: "prefill_small (example_prefilled n)" for n by (simp add: prefill_small_def example_prefilled_def)
  have z: "page_size_bytes (example_prefilled n) = 0x1000" "smr_page_count (example_prefilled n) = n" for n
    by (simp_all add: page_size_bytes_def example_prefilled_def)
  have f: "page_filled (example_prefilled n) k \<longleftrightarrow> k * 0x1000 \<le> 3" for n k
    by (simp add: page_filled_def page_size_bytes_def example_prefilled_def numeral_3_eq_3)
  have "\<not> (\<forall>k < (2 :: nat). page_filled (example_prefilled 2) k)"
    by (auto simp: f intro!: exI [of _ 1])
  then show ?thesis
    using build_mr_frames_spec [OF r _ s bits, of 1] build_mr_frames_spec [OF r _ s bits, of 2]
    by (simp add: z f Let_def) (simp add: spec_new_def)
qed

end
