(* ===== verification/Capdl_Elf_Ends.thy ===== *)
theory Capdl_Elf_Ends
  imports Capdl_Elf
begin

unbundle bit_operations_syntax

text \<open>
  Termination of \<open>add_elf_to_spec\<close> (\<open>tool/microkit/src/capdl/builder.rs\<close>): the loop over the pages of a
  segment, whose addresses may wrap, never uses up its fuel.
\<close>

section \<open>Steps that never run out of fuel\<close>

definition no_fuel_panic :: "('e, 'a) res \<Rightarrow> bool" where
  "no_fuel_panic r \<longleftrightarrow> r \<noteq> Inl (Panic LoopFuelExhausted)"

definition ends :: "'a bld \<Rightarrow> bool" where
  "ends m \<longleftrightarrow> (\<forall>s. no_fuel_panic (m s))"

named_theorems ends \<open>rules for steps whose loops end\<close>

lemma no_fuel_panic_simps [simp]:
  "no_fuel_panic (Inr x)" "no_fuel_panic (Inl e) \<longleftrightarrow> e \<noteq> Panic LoopFuelExhausted"
  by (simp_all add: no_fuel_panic_def)

lemma no_fuel_bindr:
  "no_fuel_panic m \<Longrightarrow> (\<And>x. m = Inr x \<Longrightarrow> no_fuel_panic (f x)) \<Longrightarrow> no_fuel_panic (bindr m f)"
  by (cases m) (auto simp: no_fuel_panic_def)

lemma no_fuel_prims [simp]:
  "no_fuel_panic (assertr b)" "no_fuel_panic (unwrapr v)" "no_fuel_panic (nthr xs i)"
  by (simp_all add: no_fuel_panic_def assertr_def unwrapr_def nthr_def split: option.splits)

lemma ends_bind [ends]: "ends m \<Longrightarrow> (\<And>x. ends (f x)) \<Longrightarrow> ends (bindB m f)"
  by (auto simp: ends_def bindB_def intro!: no_fuel_bindr)

lemma ends_basic [ends]:
  "ends (returnB x)" "no_fuel_panic r \<Longrightarrow> ends (liftB r)"
  by (auto simp: ends_def returnB_def liftB_def intro!: no_fuel_bindr)

lemma ends_root [ends]: "ends (root_object i)" "ends (add_root_object ob)"
  by (auto simp: ends_def root_object_def get_root_object_def add_root_object_def Let_def intro!: no_fuel_bindr)

lemma ends_update [ends]: "(\<And>ob. no_fuel_panic (f ob)) \<Longrightarrow> ends (update_root_object i f)"
  by (auto simp: ends_def update_root_object_def get_root_object_def intro!: no_fuel_bindr)

lemma ends_map_err [ends]: "ends m \<Longrightarrow> ends (map_errB g m)"
  by (auto simp: ends_def map_errB_def no_fuel_panic_def lift_err_def split: sum.splits failure.splits)

lemma ends_unwrap [ends]: "ends m \<Longrightarrow> ends (unwrapB m)"
  by (auto simp: ends_def unwrapB_def no_fuel_panic_def unwrap_res_def split: sum.splits failure.splits)

lemma ends_fold: "(\<And>acc x. x \<in> set xs \<Longrightarrow> ends (f acc x)) \<Longrightarrow> ends (foldB f acc xs)"
  by (induction xs arbitrary: acc) (auto intro: ends)

text \<open>The arithmetic of the page tables does not loop.\<close>

lemma no_fuel_levels [simp]:
  "no_fuel_panic (num_page_table_levels cfg)" "no_fuel_panic (aarch64_vspace_s2_start_l1 cfg)"
  by (auto simp: num_page_table_levels_def aarch64_vspace_s2_start_l1_def split: arch.split intro!: no_fuel_bindr)

lemma no_fuel_top [simp]: "no_fuel_panic (top_pt_level_number cfg)"
  by (auto simp: top_pt_level_number_def intro!: no_fuel_bindr)

lemma no_fuel_index_bits [simp]: "no_fuel_panic (index_bits cfg l)"
  by (auto simp: index_bits_def intro!: no_fuel_bindr)

lemma no_fuel_mapM: "(\<And>x. no_fuel_panic (f x)) \<Longrightarrow> no_fuel_panic (mapM f xs)"
  by (induction xs) (auto intro!: no_fuel_bindr)

lemma no_fuel_paging [simp]:
  "no_fuel_panic (get_pt_level_name cfg level)" "no_fuel_panic (get_pt_level_index cfg level a)"
  "no_fuel_panic (get_pt_level_coverage cfg level a)" "no_fuel_panic (get_pt_level_to_insert cfg z)"
  "no_fuel_panic (page_fixed_size_bits SmallPg cfg)"
  by (auto simp: get_pt_level_name_def get_pt_level_index_def get_pt_level_coverage_def
      get_pt_level_to_insert_def page_fixed_size_bits_def fixed_size_bits_def Let_def
      split: arch.split intro!: no_fuel_bindr no_fuel_mapM)

lemma ends_insert_pt [ends]: "ends (insert_cap_into_page_table_level i level idx c)"
  unfolding insert_cap_into_page_table_level_def
  by (rule ends) (auto split: capdl_object.split option.split)

lemma ends_intermediary [ends]: "ends (map_intermediary_level_helper cfg owner prefix vspace i level idx a)"
  unfolding map_intermediary_level_helper_def
  by (auto intro!: ends split: capdl_object.split option.split)

lemma ends_bind_lift: "no_fuel_panic r \<Longrightarrow> (\<And>x. r = Inr x \<Longrightarrow> ends (f x)) \<Longrightarrow> ends (bindB (liftB r) f)"
  by (cases r) (auto simp: ends_def bindB_def liftB_def)

lemma ends_map_recursive [ends]: "ends (map_recursive cfg owner vspace i level c z a)"
proof (induction "5 - level" arbitrary: level i rule: less_induct)
  case less
  have IH: "ends (map_recursive cfg owner vspace j (Suc level) c z a)"
    if "num_page_table_levels cfg = (Inr lvls :: (capdl_error, nat) res)" "\<not> lvls \<le> level" for j lvls
    by (rule less.hyps) (use that num_levels_le [OF that(1)] in auto)
  show ?case
    by (subst map_recursive_bld, rule ends_bind_lift) (auto intro!: ends intro: IH)
qed

lemma ends_map_page [ends]: "ends (map_page cfg owner vspace c z a)"
  unfolding map_page_def by (auto intro!: ends)

lemma ends_map_elf_page [ends]: "ends (map_elf_page cfg owner vspace elf_idx seg_idx seg cur sq)"
  unfolding map_elf_page_def small_frame_bits_def capdl_util_make_frame_obj_def
  by (auto intro!: ends)

text \<open>The addresses repeat with a period of half the address space as far as the tables can tell.\<close>

lemma pt_index_half:
  assumes "lvls \<le> 4"
  shows "pt_index lvls topmost level (a + of_nat (2 ^ 51) * 0x1000) = pt_index lvls topmost level a"
proof -
  have n: "level_shift lvls level + level_bits topmost level \<le> 63"
  proof -
    have "lvls - 1 - level \<le> 3" using assms by simp
    moreover have "level_bits topmost level \<le> 10" by (simp add: level_bits_def)
    ultimately show ?thesis unfolding level_shift_def by linarith
  qed
  have "take_bit (level_bits topmost level) (drop_bit (level_shift lvls level) (w :: u64))
      = drop_bit (level_shift lvls level) (take_bit (level_shift lvls level + level_bits topmost level) w)" for w
    by (simp add: take_bit_drop_bit add.commute)
  moreover have "take_bit m (a + of_nat (2 ^ 51) * 0x1000) = take_bit m a" if "m \<le> 63" for m
  proof -
    have d: "(2 :: nat) ^ m dvd 2 ^ 63" "(2 :: nat) ^ m dvd 2 ^ 64" using that
      by (intro le_imp_power_dvd; linarith)+
    have u: "unat (a + of_nat (2 ^ 51) * 0x1000) = (unat a + 2 ^ 63) mod 2 ^ 64"
      by (simp add: unat_word_ariths)
    have "unat (take_bit m (a + of_nat (2 ^ 51) * 0x1000)) = (unat a + 2 ^ 63) mod 2 ^ 64 mod 2 ^ m"
      by (subst unsigned_take_bit_eq, subst u) (rule take_bit_eq_mod)
    also have "\<dots> = (unat a + 2 ^ 63) mod 2 ^ m" by (rule mod_mod_cancel [OF d(2)])
    also have "\<dots> = unat a mod 2 ^ m" using d(1) by (metis add.right_neutral dvd_imp_mod_0 mod_add_right_eq)
    also have "\<dots> = unat (take_bit m a)" by (subst unsigned_take_bit_eq) (rule take_bit_eq_mod [symmetric])
    finally show ?thesis by (simp only: word_unat_eq_iff)
  qed
  ultimately show ?thesis using n by (simp add: pt_index_def)
qed

lemma walk_not_free: "walk lvls topmost s i level n a = Some c \<Longrightarrow> \<not> free_path lvls topmost s i level n a"
  by (induction n arbitrary: i level) (auto split: option.splits)

lemma map_elf_page_steps:
  assumes "spec_wf s" "is_pt s vspace"
    and "map_elf_page cfg owner vspace elf_idx seg_idx seg cur sq s = Inr (u, t)"
  obtains c s1 where "spec_wf s1" "is_pt s1 vspace" "extends s s1"
    "map_page cfg owner vspace c (page_size_u64 SmallPg) cur s1 = Inr (u, t)"
proof -
  from assms(3) obtain bits f s1 where
    f: "capdl_util_make_frame_obj (elf_page_fill elf_idx seg_idx (virt_addr seg) (mem_size seg) cur)
          (''elf_'' @ owner @ ''_'' @ pad0 9 (dec_string sq)) None bits s = Inr (f, s1)"
    and m: "map_page cfg owner vspace (capdl_util_make_frame_cap f (is_readable seg) (is_writable seg)
             (is_executable seg) True) (page_size_u64 SmallPg) cur s1 = Inr (u, t)"
    by (auto simp: map_elf_page_def bld_simps small_frame_bits_def map_errB_def lift_err_eq_Inr)
  have "spec_wf s1" "extends s s1"
    using buildsD_extends [OF builds_make_obj(1) f assms(1), of "{}"] by simp_all
  with m extends_is_pt [OF this(2) assms(2)] show thesis by (intro that) assumption+
qed

lemma lookup_half:
  assumes "paging cfg lvls topmost"
  shows "lookup_page lvls topmost s v pg (a + of_nat (2 ^ 51) * 0x1000) = lookup_page lvls topmost s v pg a"
proof -
  have "lvls \<le> 4" using paging_cases [OF assms] by auto
  then have "walk lvls topmost s i level n (a + of_nat (2 ^ 51) * 0x1000) = walk lvls topmost s i level n a" for i level n
    by (induction n arbitrary: i level) (simp_all only: walk.simps pt_index_half)
  then show ?thesis by (simp only: lookup_page_def)
qed

lemma map_elf_pages_ends:
  assumes "paging cfg lvls topmost" "spec_wf s" "is_pt s vspace"
    and "cur = start + of_nat k * 0x1000" "k \<le> 2 ^ 51" "2 ^ 51 < fuel + k"
    and "0 < k \<Longrightarrow> lookup_page lvls topmost s vspace SmallPg start \<noteq> None"
  shows "no_fuel_panic (map_elf_pages fuel cfg owner vspace elf_idx seg_idx seg cur sq s)"
  using assms(2-7)
proof (induction fuel arbitrary: cur k sq s)
  case 0
  then show ?case by simp
next
  case (Suc fuel)
  have page: "no_fuel_panic (map_elf_page cfg owner vspace elf_idx seg_idx seg cur sq s)"
    using ends_map_elf_page by (simp add: ends_def)
  have next_page: "no_fuel_panic (map_elf_pages fuel cfg owner vspace elf_idx seg_idx seg (cur + 0x1000) (sq + 1) t)"
    if t: "map_elf_page cfg owner vspace elf_idx seg_idx seg cur sq s = Inr (u, t)" for u t
  proof -
    obtain c s1 where s1: "spec_wf s1" "is_pt s1 vspace" "extends s s1"
      and m: "map_page cfg owner vspace c (page_size_u64 SmallPg) cur s1 = Inr (u, t)"
      by (rule map_elf_page_steps [OF Suc.prems(1,2) t]) (rule that)
    have kept: "0 < k \<Longrightarrow> lookup_page lvls topmost s1 vspace SmallPg start \<noteq> None"
      using Suc.prems(6) extends_lookup [OF s1(3)] by fastforce
    have "page_free lvls topmost s1 vspace SmallPg cur"
      by (rule iffD1 [OF map_page_entered(1) [OF assms(1) spec_wf_range [OF s1(1)] s1(2), where owner = owner and c = c]])
        (unfold m, simp)
    then have "k \<noteq> 2 ^ 51"
      using kept lookup_half [OF assms(1)] walk_not_free Suc.prems(3)
      by (fastforce simp: page_free_def lookup_page_def)
    moreover have "lookup_page lvls topmost t vspace SmallPg cur \<noteq> None"
      using map_page_entered(2) [OF assms(1) spec_wf_range [OF s1(1)] s1(2) m]
      by (simp add: entered_def lookup_page_def)
    moreover have st: "spec_wf t" "extends s t"
      using buildsD_extends [OF builds_map_elf_page t Suc.prems(1), of "{}"] by simp_all
    ultimately show ?thesis
      using Suc.prems(3-6) extends_lookup [OF st(2)]
      by (intro Suc.IH [of t _ "k + 1"] st(1) extends_is_pt [OF st(2) Suc.prems(2)])
        (auto simp: algebra_simps, fastforce)
  qed
  show ?case
    by (subst map_elf_pages.simps)
      (auto simp: bindB_def returnB_def next_page [simplified] intro!: no_fuel_bindr page)
qed

lemma map_elf_segment_ends:
  assumes "paging cfg lvls topmost" "spec_wf s" "is_pt s vspace"
  shows "no_fuel_panic (map_elf_segment cfg owner vspace elf_idx sq x s)"
proof -
  obtain seg_idx seg where x: "x = (seg_idx, seg)" by (cases x)
  have "no_fuel_panic (map_elf_pages LOOP_FUEL cfg owner vspace elf_idx seg_idx seg cur sq s)" for cur
    by (rule map_elf_pages_ends [OF assms, of _ cur 0]) (simp_all add: LOOP_FUEL_def)
  then show ?thesis
    by (auto simp: x map_elf_segment_def bindB_def liftB_def returnB_def segment_data_def round_down_def
        divmod_def split: elf_segment_data.split intro!: no_fuel_bindr)
qed

text \<open>C31: loading an ELF file always ends: whatever the addresses and sizes of the segments, wrapping ones
  included, the loop over the pages of a segment never uses up its fuel of one step for each page of a
  64-bit address space.  After half of them the addresses repeat as far as the page tables can tell, and
  the mapping fails on the page that is there already.\<close>

theorem add_elf_to_spec_ends:
  assumes "paging cfg lvls topmost" and "spec_wf s"
  shows "add_elf_to_spec cfg owner cpu elf_idx elf s \<noteq> Inl (Panic LoopFuelExhausted)"
proof -
  have fold: "no_fuel_panic (foldB (map_elf_segment cfg owner v elf_idx) sq xs t)"
    if "spec_wf t" "is_pt t v" for v sq xs t
    using that
  proof (induction xs arbitrary: sq t)
    case Nil
    then show ?case by (simp add: returnB_def)
  next
    case (Cons x xs)
    have "no_fuel_panic (foldB (map_elf_segment cfg owner v elf_idx) sq' xs u)"
      if "map_elf_segment cfg owner v elf_idx sq x t = Inr (sq', u)" for sq' u
      using buildsD_extends [OF builds_map_elf_segment that Cons.prems(1), of "{}"] extends_is_pt Cons.prems(2)
      by (intro Cons.IH) auto
    then show ?case
      by (auto simp: bindB_def intro!: no_fuel_bindr map_elf_segment_ends [OF assms(1) Cons.prems])
  qed
  have vsp: "ends (create_vspace cfg owner)"
    unfolding create_vspace_def by (auto intro!: ends)
  have "no_fuel_panic (add_elf_to_spec cfg owner cpu elf_idx elf s)"
    unfolding add_elf_to_spec_def bindB_def
    using vsp create_vspace_run [OF _ assms(2)] ends_root(2)
    by (auto simp: ends_def intro!: no_fuel_bindr fold)
  then show ?thesis by (simp add: no_fuel_panic_def)
qed

theorem add_elf_to_spec_ends_witness:
  "add_elf_to_spec example_riscv_config ''a'' 0 0 (example_elf\<lparr>segments := [\<lparr>seg_data = RealData [1],
      phys_addr = 0, virt_addr = 0xffffffffffffffff, loadable = True, attrs = 5\<rparr>]\<rparr>) spec_new
     \<noteq> Inl (Panic LoopFuelExhausted)"
  by (rule add_elf_to_spec_ends [OF example_paging spec_new_wf])

end
