(* ===== verification/Sdf_Maps.thy ===== *)
theory Sdf_Maps
  imports Sdf_Valid
begin

text \<open>
  Memory regions and mappings of an accepted system: what the element parser guarantees of a region,
  which page size the optimisation chooses, and what the checks of the mappings establish for the
  page sizes the system ends up with.
\<close>

section \<open>Multiples of a page size\<close>

lemma page_size_dvd_exp: "unat (page_size_u64 pg) dvd 2 ^ 64"
proof (cases pg)
  case SmallPg
  have "(2 :: nat) ^ 12 dvd 2 ^ 64" by (rule le_imp_power_dvd) simp
  with SmallPg show ?thesis by simp
next
  case LargePg
  have "(2 :: nat) ^ 21 dvd 2 ^ 64" by (rule le_imp_power_dvd) simp
  with LargePg show ?thesis by simp
qed

lemma page_size_pos: "0 < unat (page_size_u64 pg)"
  by (cases pg) simp_all

lemma round_up_page:
  assumes "round_up n (page_size_u64 pg) = (Inr r :: ('e, u64) res)"
  shows "is_multiple_of r (page_size_u64 pg)"
proof -
  let ?x = "page_size_u64 pg"
  have r: "r = (if n mod ?x = 0 then n else n + ?x - n mod ?x)"
    using assms by (simp add: round_up_def divmod_def split: if_splits)
  show ?thesis
  proof (cases "n mod ?x = 0")
    case True
    then show ?thesis by (simp add: r is_multiple_of_def)
  next
    case False
    have "unat (n - n mod ?x) = unat n - unat n mod unat ?x"
      by (simp add: unat_sub word_le_nat_alt unat_mod)
    then have d: "unat ?x dvd unat (n - n mod ?x)" by (simp add: minus_mod_eq_mult_div)
    have "r = (n - n mod ?x) + ?x" using False by (simp add: r)
    then have "unat r = (unat (n - n mod ?x) + unat ?x) mod 2 ^ 64" by (simp add: unat_word_ariths)
    then have "unat ?x dvd unat r" using d page_size_dvd_exp [of pg] by (simp add: dvd_mod)
    then show ?thesis by (simp add: is_multiple_of_dvd)
  qed
qed

lemma round_up_page_ge:
  assumes "round_up n (page_size_u64 pg) = (Inr r :: ('e, u64) res)" "unat n < 2 ^ 63"
  shows "unat n \<le> unat r"
proof -
  have "unat n + unat (page_size_u64 pg) \<le> 2 ^ 64" using assms(2) by (cases pg) simp_all
  from round_up_nonzero [OF page_size_u64_pos this, where ?'a = 'e] assms(1)
  have "unat r = (unat n + unat (page_size_u64 pg) - 1) div unat (page_size_u64 pg) * unat (page_size_u64 pg)"
    by auto
  then show ?thesis by (cases pg) simp_all
qed

section \<open>Regions as the element parser returns them\<close>

definition mr_wf :: "sys_memory_region \<Rightarrow> bool" where
  "mr_wf mr \<longleftrightarrow>
     is_multiple_of (smr_size mr) (page_size_bytes mr)
     \<and> smr_page_count mr = smr_size mr div page_size_bytes mr
     \<and> (case smr_phys_addr mr of Specified p \<Rightarrow> is_multiple_of p (page_size_bytes mr)
        | ToolAllocated a \<Rightarrow> a = None | Unspecified \<Rightarrow> True)
     \<and> (\<forall>bytes. smr_prefill_bytes mr = Some bytes \<and> length bytes < 2 ^ 63 \<longrightarrow>
          bytes \<noteq> [] \<and> length bytes \<le> unat (smr_size mr))"

lemma page_size_from_Inr: "page_size_from_u64 n = Inr pg \<longleftrightarrow> n = page_size_u64 pg"
  by (cases pg) (auto simp: page_size_from_u64_def)

lemma determine_size_spec:
  assumes "determine_size node prefill (page_size_u64 pg) = Inr sz"
  shows "is_multiple_of sz (page_size_u64 pg)
     \<and> (\<forall>bytes. prefill = Some bytes \<and> length bytes < 2 ^ 63 \<longrightarrow> length bytes \<le> unat sz)"
proof (cases "checked_lookup node ''size''")
  case (Inr s)
  with assms show ?thesis
    by (auto simp: determine_size_def bindr_eq_Inr split: if_splits option.splits)
next
  case (Inl e)
  with assms obtain bytes where b: "prefill = Some bytes"
    "round_up (of_nat (length bytes)) (page_size_u64 pg) = (Inr sz :: u64 sdf_res)"
    by (auto simp: determine_size_def split: option.splits)
  have "length bytes \<le> unat sz" if l: "length bytes < 2 ^ 63"
  proof -
    have "unat (of_nat (length bytes) :: u64) = length bytes" using l by (intro unat_of_nat_small) simp
    with round_up_page_ge [OF b(2)] l show ?thesis by simp
  qed
  with b round_up_page [OF b(2)] show ?thesis by auto
qed

text \<open>C37: a memory region element that is accepted gives a region whose size is a whole number of its
  pages, whose page count is that number, whose fixed physical address is page aligned, and whose
  initial contents are not empty and fit.\<close>

theorem sys_memory_region_from_xml_wf:
  assumes "sys_memory_region_from_xml path_exists fs_read cfg search_paths node = Inr mr"
  shows "mr_wf mr"
proof -
  from assms obtain name pg_size prefill sz pa pg where s:
    "prefill_from_xml path_exists fs_read search_paths node = Inr prefill"
    "determine_size node prefill pg_size = Inr sz"
    "(case attribute node ''phys_addr'' of
              Some s \<Rightarrow> bindr (sdf_parse_number s node) (\<lambda>p. Inr (Specified p))
            | None \<Rightarrow> Inr Unspecified) = (Inr pa :: sys_memory_region_paddr sdf_res)"
    "\<not> (case pa of Specified p \<Rightarrow> \<not> is_multiple_of p pg_size | _ \<Rightarrow> False)"
    "page_size_from_u64 pg_size = (Inr pg :: page_size sdf_res)"
    "mr = \<lparr>smr_name = name, smr_size = sz,
            smr_page_size_specified = (attribute node ''page_size'' \<noteq> None), smr_page_size = pg,
            smr_page_count = sz div pg_size, smr_phys_addr = pa,
            smr_text_pos = Some (node_pos node), smr_kind = MrUser,
            smr_prefill_bytes = prefill\<rparr>"
    by (auto simp: sys_memory_region_from_xml_def bindr_eq_Inr Let_def split: if_splits)
  from s(5) have pg: "pg_size = page_size_u64 pg" by (simp add: page_size_from_Inr)
  from s(1) have ne: "bytes \<noteq> []" if "prefill = Some bytes" for bytes
    using that by (auto simp: prefill_from_xml_def split: option.splits if_splits)
  from s(3) have pa: "pa = Unspecified \<or> (\<exists>p. pa = Specified p)"
    by (auto simp: bindr_eq_Inr split: option.splits)
  from determine_size_spec [OF s(2) [unfolded pg]] s(4) ne pa show ?thesis
    by (auto simp: mr_wf_def page_size_bytes_def s(6) pg)
qed

theorem sys_memory_region_from_xml_wf_witness:
  "\<exists>mr. sys_memory_region_from_xml (\<lambda>_. False) (\<lambda>_. None) example_riscv_config []
          (elem ''memory_region'' [(''name'', ''a''), (''size'', ''0x2000''), (''phys_addr'', ''0x9000'')] []) = Inr mr
     \<and> mr_wf mr"
proof -
  have "is_ok (sys_memory_region_from_xml (\<lambda>_. False) (\<lambda>_. None) example_riscv_config []
          (elem ''memory_region'' [(''name'', ''a''), (''size'', ''0x2000''), (''phys_addr'', ''0x9000'')] []))"
    by code_simp
  with sys_memory_region_from_xml_wf show ?thesis unfolding is_ok_iff by blast
qed

section \<open>The choice of page sizes\<close>

text \<open>The addresses at which a region is mapped, and its physical address when it is fixed.\<close>

definition mr_addrs :: "sys_map list \<Rightarrow> sys_memory_region \<Rightarrow> u64 list" where
  "mr_addrs maps mr = map sm_vaddr (filter (\<lambda>m. sm_mr m = smr_name mr) maps)
                        @ (case smr_phys_addr mr of Specified p \<Rightarrow> [p] | _ \<Rightarrow> [])"

definition large_fits :: "sys_map list \<Rightarrow> sys_memory_region \<Rightarrow> bool" where
  "large_fits maps mr \<longleftrightarrow> is_multiple_of (smr_size mr) 0x200000
     \<and> (\<forall>a \<in> set (mr_addrs maps mr). is_multiple_of a 0x200000)"

text \<open>The optimisation gives a region the large page size exactly when its size and every address
  at which it is mapped or placed allow it and the user did not fix a page size; nothing else of the
  region changes but the page count that goes with the page size.  It never fails on a region whose
  size is a multiple of the small page size.\<close>

theorem optimise_mr_spec:
  assumes "is_multiple_of (smr_size mr) 0x1000"
  shows "optimise_mr cfg maps mr =
     Inr (if \<not> smr_page_size_specified mr \<and> smr_page_size mr = SmallPg \<and> large_fits maps mr
          then mr\<lparr>smr_page_size := LargePg, smr_page_count := smr_size mr div 0x200000\<rparr>
          else mr)"
proof -
  have opt: "optimal_page_size cfg mr =
      (Inr (if is_multiple_of (smr_size mr) 0x200000 then 0x200000 else 0x1000) :: u64 sdf_res)"
    using assms by (simp add: optimal_page_size_def page_sizes_def)
  show ?thesis
    by (cases "smr_page_size mr")
      (auto simp: optimise_mr_def opt page_size_bytes_def page_sizes_def grow_page_size_def large_fits_def
          mr_addrs_def page_size_from_u64_def list_ex_iff Let_def split: sys_memory_region_paddr.splits)
qed

theorem optimise_mr_spec_witness:
  "let mr = \<lparr>smr_name = ''a'', smr_size = 0x400000, smr_page_size_specified = False,
             smr_page_size = SmallPg, smr_page_count = 0x400, smr_phys_addr = Unspecified,
             smr_text_pos = None, smr_kind = MrUser, smr_prefill_bytes = None\<rparr>
   in optimise_mr example_riscv_config [] mr
        = Inr (mr\<lparr>smr_page_size := LargePg, smr_page_count := 2\<rparr>)"
  unfolding Let_def
  by (subst optimise_mr_spec) (simp_all add: is_multiple_of_def large_fits_def mr_addrs_def)

section \<open>Regions of the parsed system\<close>

lemma parsed_mrs_wf:
  assumes "foldM (parse_system_child path_exists fs_read cfg search_paths)
        \<lparr>sn_root_pds = [], sn_mrs = [], sn_channel_nodes = []\<rparr> kids = Inr nodes"
  shows "\<forall>mr \<in> set (sn_mrs nodes). mr_wf mr"
  using assms
proof (rule foldM_inv [where I = "\<lambda>acc. \<forall>mr \<in> set (sn_mrs acc). mr_wf mr"])
  fix s x t
  assume "\<forall>mr \<in> set (sn_mrs s). mr_wf mr" "parse_system_child path_exists fs_read cfg search_paths s x = Inr t"
  then show "\<forall>mr \<in> set (sn_mrs t). mr_wf mr"
    by (auto simp: parse_system_child_def bindr_eq_Inr dest: sys_memory_region_from_xml_wf split: if_splits)
qed simp

text \<open>What the last stage of the parse does to a region: its page size is the old one, or a larger one
  of which every address at which the region is mapped is a multiple.\<close>

definition mr_settled :: "sys_map list \<Rightarrow> sys_memory_region \<Rightarrow> sys_memory_region \<Rightarrow> bool" where
  "mr_settled maps mr mr' \<longleftrightarrow> smr_name mr' = smr_name mr \<and> smr_size mr' = smr_size mr \<and> mr_wf mr'
     \<and> (page_size_bytes mr' = page_size_bytes mr
        \<or> (\<forall>m \<in> set maps. sm_mr m = smr_name mr \<longrightarrow> is_multiple_of (sm_vaddr m) (page_size_bytes mr')))"

lemma mr_wf_small: "mr_wf mr \<Longrightarrow> is_multiple_of (smr_size mr) 0x1000"
  by (cases "smr_page_size mr")
    (auto simp: mr_wf_def page_size_bytes_def is_multiple_of_dvd elim: dvd_trans [rotated])

lemma optimise_mr_settled:
  assumes "optimise_mr cfg maps mr = Inr mr'" "mr_wf mr"
  shows "mr_settled maps mr mr'"
  using assms(1) assms(2)
  unfolding optimise_mr_spec [OF mr_wf_small [OF assms(2)]] mr_settled_def mr_wf_def
  by (auto simp: page_size_bytes_def large_fits_def mr_addrs_def
      split: if_splits sys_memory_region_paddr.splits)

lemma mark_tool_allocated_settled:
  assumes "mark_tool_allocated cfg names mr = Inr mr'" "mr_wf mr"
  shows "smr_name mr' = smr_name mr \<and> smr_size mr' = smr_size mr \<and> mr_wf mr'
     \<and> page_size_bytes mr' = page_size_bytes mr"
  using assms
  by (auto simp: mark_tool_allocated_def mr_wf_def page_size_bytes_def bindr_eq_Inr
      split: if_splits arch.splits)

lemma finish_mrs_settled:
  assumes "finish_mrs cfg pds mrs = Inr mrs'" "\<forall>mr \<in> set mrs. mr_wf mr"
  shows "list_all2 (mr_settled (concat (map pd_all_maps pds))) mrs mrs'"
proof -
  let ?maps = "concat (map pd_all_maps pds)"
  from assms(1) obtain ms where ms: "mapM (optimise_mr cfg ?maps) mrs = Inr ms"
    "mapM (mark_tool_allocated cfg (paddr_setvar_names pds)) ms = Inr mrs'"
    by (auto simp: finish_mrs_def bindr_eq_Inr)
  show ?thesis
    unfolding list_all2_conv_all_nth
  proof (intro conjI allI impI)
    show "length mrs = length mrs'" using mapM_length [OF ms(1)] mapM_length [OF ms(2)] by simp
    fix i assume i: "i < length mrs"
    with ms have o: "optimise_mr cfg ?maps (mrs ! i) = Inr (ms ! i)"
      and k: "mark_tool_allocated cfg (paddr_setvar_names pds) (ms ! i) = Inr (mrs' ! i)"
      by (auto simp: mapM_eq_Inr list_all2_conv_all_nth)
    from assms(2) i have "mr_wf (mrs ! i)" by simp
    from optimise_mr_settled [OF o this] have st: "mr_settled ?maps (mrs ! i) (ms ! i)" .
    then have "mr_wf (ms ! i)" by (simp add: mr_settled_def)
    from mark_tool_allocated_settled [OF k this] st
    show "mr_settled ?maps (mrs ! i) (mrs' ! i)" by (simp add: mr_settled_def)
  qed
qed

lemma sdf_parse_mrs:
  assumes "sdf_parse path_exists fs_read doc cfg search_paths = Inr sys"
  obtains mrs where "check_system cfg (sd_protection_domains sys) mrs (sd_channels sys) = Inr ()"
    "list_all2 (mr_settled (concat (map pd_all_maps (sd_protection_domains sys)))) mrs (sd_memory_regions sys)"
proof -
  from assms obtain nodes system where n:
    "check_system cfg (sd_protection_domains sys) (sn_mrs nodes) (sd_channels sys) = Inr ()"
    "finish_mrs cfg (sd_protection_domains sys) (sn_mrs nodes) = Inr (sd_memory_regions sys)"
    "foldM (parse_system_child path_exists fs_read cfg search_paths)
        \<lparr>sn_root_pds = [], sn_mrs = [], sn_channel_nodes = []\<rparr> (children system) = Inr nodes"
    by (rule sdf_parse_stages) blast
  from finish_mrs_settled [OF n(2) parsed_mrs_wf [OF n(3)]] n(1) that show thesis by blast
qed

section \<open>Mappings of the parsed system\<close>

definition region_named :: "sys_memory_region list \<Rightarrow> string \<Rightarrow> sys_memory_region option" where
  "region_named mrs name = find (\<lambda>mr. smr_name mr = name) mrs"

lemma region_named_Some: "region_named mrs n = Some mr \<Longrightarrow> mr \<in> set mrs \<and> smr_name mr = n"
  by (auto simp: region_named_def find_Some_iff)

text \<open>The range of addresses the check gives to a mapping.\<close>

definition map_range :: "sys_memory_region list \<Rightarrow> sys_map \<Rightarrow> string \<times> u64 \<times> u64" where
  "map_range mrs m = (sm_mr m, sm_vaddr m,
     sm_vaddr m + (case region_named mrs (sm_mr m) of Some mr \<Rightarrow> smr_size mr | None \<Rightarrow> 0))"

definition apart :: "string \<times> u64 \<times> u64 \<Rightarrow> string \<times> u64 \<times> u64 \<Rightarrow> bool" where
  "apart = (\<lambda>(_, s, e) (_, s', e'). s' \<ge> e \<or> e' \<le> s)"

lemma check_map_Inr:
  assumes "check_map mrs kind name s m = Inr t"
  obtains mr where "region_named mrs (sm_mr m) = Some mr" "is_multiple_of (sm_vaddr m) (page_size_bytes mr)"
    "find (\<lambda>(_, start, end). \<not> (sm_vaddr m \<ge> end \<or> sm_vaddr m + smr_size mr \<le> start)) s = None"
    "t = s @ [(sm_mr m, sm_vaddr m, sm_vaddr m + smr_size mr)]"
proof (cases "region_named mrs (sm_mr m)")
  case None
  with assms show thesis by (simp add: check_map_def region_named_def bindr_eq_Inr)
next
  case (Some mr)
  let ?hit = "find (\<lambda>(_, start, end). \<not> (sm_vaddr m \<ge> end \<or> sm_vaddr m + smr_size mr \<le> start)) s"
  from assms Some have mult: "is_multiple_of (sm_vaddr m) (page_size_bytes mr)"
    by (auto simp: check_map_def region_named_def bindr_eq_Inr split: if_splits)
  show thesis
  proof (cases ?hit)
    case None
    with assms Some mult that show thesis
      by (auto simp: check_map_def region_named_def bindr_eq_Inr Let_def)
  next
    case (Some h)
    with assms \<open>region_named mrs (sm_mr m) = Some mr\<close> mult show thesis
      by (cases h) (simp add: check_map_def region_named_def bindr_eq_Inr Let_def)
  qed
qed

lemma check_map_step:
  assumes "check_map mrs kind name s m = Inr t"
  shows "t = s @ [map_range mrs m] \<and> (\<forall>y \<in> set s. apart y (map_range mrs m))"
    and "\<exists>mr. region_named mrs (sm_mr m) = Some mr \<and> is_multiple_of (sm_vaddr m) (page_size_bytes mr)"
proof -
  from assms obtain mr where mr: "region_named mrs (sm_mr m) = Some mr"
    "is_multiple_of (sm_vaddr m) (page_size_bytes mr)"
    "find (\<lambda>(_, start, end). \<not> (sm_vaddr m \<ge> end \<or> sm_vaddr m + smr_size mr \<le> start)) s = None"
    "t = s @ [(sm_mr m, sm_vaddr m, sm_vaddr m + smr_size mr)]" by (rule check_map_Inr)
  have r: "map_range mrs m = (sm_mr m, sm_vaddr m, sm_vaddr m + smr_size mr)"
    using mr(1) by (simp add: map_range_def)
  from mr(3) have "\<forall>y \<in> set s. apart y (map_range mrs m)"
    by (auto simp: find_None_iff r apart_def)
  with mr(4) r show "t = s @ [map_range mrs m] \<and> (\<forall>y \<in> set s. apart y (map_range mrs m))" by simp
  from mr(1,2) show "\<exists>mr. region_named mrs (sm_mr m) = Some mr
      \<and> is_multiple_of (sm_vaddr m) (page_size_bytes mr)" by blast
qed

lemma foldM_each:
  "foldM f s xs = Inr t \<Longrightarrow> x \<in> set xs \<Longrightarrow> \<exists>s' t'. f s' x = Inr t'"
  by (induction xs arbitrary: s) (auto simp: bindr_eq_Inr)

lemma check_maps_spec:
  assumes "check_maps mrs kind name maps = Inr ()"
  shows "sorted_wrt apart (map (map_range mrs) maps)"
    and "\<And>m. m \<in> set maps \<Longrightarrow> \<exists>mr. region_named mrs (sm_mr m) = Some mr
            \<and> is_multiple_of (sm_vaddr m) (page_size_bytes mr)"
proof -
  from assms obtain t where t: "foldM (check_map mrs kind name) [] maps = Inr t"
    by (auto simp: check_maps_def bindr_eq_Inr)
  then have "t = [] @ map (map_range mrs) maps \<and> sorted_wrt apart t"
    by (rule foldM_collect) (use check_map_step(1) in auto)
  then show "sorted_wrt apart (map (map_range mrs) maps)" by (metis append_Nil)
  show "\<exists>mr. region_named mrs (sm_mr m) = Some mr \<and> is_multiple_of (sm_vaddr m) (page_size_bytes mr)"
    if "m \<in> set maps" for m
    using foldM_each [OF t that] check_map_step(2) by blast
qed

text \<open>The two lists of mappings of a domain: its own and those of its virtual machine.\<close>

definition map_lists :: "protection_domain \<Rightarrow> sys_map list list" where
  "map_lists pd = pd_maps pd # (case pd_virtual_machine pd of Some vm \<Rightarrow> [vm_maps vm] | None \<Rightarrow> [])"

lemma pd_all_maps_lists: "set (pd_all_maps pd) = (\<Union>ms \<in> set (map_lists pd). set ms)"
  by (auto simp: pd_all_maps_def map_lists_def split: option.splits)

lemma check_pd_maps_lists:
  "check_pd_maps mrs pd = Inr () \<Longrightarrow> ms \<in> set (map_lists pd) \<Longrightarrow> \<exists>kind name. check_maps mrs kind name ms = Inr ()"
  by (auto simp: check_pd_maps_def bindr_eq_Inr map_lists_def split: option.splits)

lemma region_named_settled:
  "list_all2 (mr_settled maps) mrs mrs' \<Longrightarrow> region_named mrs n = Some mr \<Longrightarrow>
     \<exists>mr'. region_named mrs' n = Some mr' \<and> mr_settled maps mr mr'"
  by (induction rule: list_all2_induct) (auto simp: region_named_def mr_settled_def split: if_splits)

text \<open>C21: every mapping of an accepted system, of a protection domain or of its virtual machine, names
  a region of the system, starts at a multiple of the page size that region ends up with after the
  optimisation of page sizes, and that region is a whole number of pages of that size.\<close>

theorem sdf_parse_mappings_aligned:
  assumes "sdf_parse path_exists fs_read doc cfg search_paths = Inr sys"
    and "pd \<in> set (sd_protection_domains sys)" and "m \<in> set (pd_all_maps pd)"
  shows "\<exists>mr \<in> set (sd_memory_regions sys). smr_name mr = sm_mr m
           \<and> unat (page_size_bytes mr) dvd unat (sm_vaddr m)
           \<and> unat (smr_size mr) = unat (smr_page_count mr) * unat (page_size_bytes mr)"
proof -
  let ?maps = "concat (map pd_all_maps (sd_protection_domains sys))"
  from assms(1) obtain mrs where mrs:
    "check_system cfg (sd_protection_domains sys) mrs (sd_channels sys) = Inr ()"
    "list_all2 (mr_settled ?maps) mrs (sd_memory_regions sys)" by (rule sdf_parse_mrs)
  from mrs(1) assms(2) have "check_pd_maps mrs pd = Inr ()" by (auto elim: check_system_facts)
  with assms(3) obtain ms kind name where "m \<in> set ms" "check_maps mrs kind name ms = Inr ()"
    using check_pd_maps_lists unfolding pd_all_maps_lists by blast
  from check_maps_spec(2) [OF this(2,1)] obtain mr where
    mr: "region_named mrs (sm_mr m) = Some mr" "is_multiple_of (sm_vaddr m) (page_size_bytes mr)" by blast
  from region_named_settled [OF mrs(2) mr(1)] obtain mr' where
    mr': "region_named (sd_memory_regions sys) (sm_mr m) = Some mr'" "mr_settled ?maps mr mr'" by blast
  have "m \<in> set ?maps" using assms(2,3) by auto
  with mr'(2) mr(2) region_named_Some [OF mr(1)]
  have "is_multiple_of (sm_vaddr m) (page_size_bytes mr')" unfolding mr_settled_def by metis
  moreover have "unat (smr_size mr') = unat (smr_page_count mr') * unat (page_size_bytes mr')"
    using mr'(2) unfolding mr_settled_def mr_wf_def is_multiple_of_dvd by (metis unat_div dvd_div_mult_self)
  ultimately show ?thesis
    using region_named_Some [OF mr'(1)] by (auto simp: is_multiple_of_dvd)
qed

lemma example_shape_client:
  assumes "example_shape sys"
  shows "\<exists>pd pds m n. sd_protection_domains sys = pd # pds \<and> pd_maps pd = [m, n] \<and> sm_mr m = ''buf''
     \<and> sm_vaddr m = 0x4000000 \<and> sm_mr n = ''regs'' \<and> sm_vaddr n = 0x5000000"
  using assms by (auto simp: example_shape_def)

lemma example_shape_regions:
  assumes "example_shape sys"
  shows "\<exists>ra rb. sd_memory_regions sys = [ra, rb] \<and> smr_name ra = ''buf'' \<and> smr_size ra = 0x200000
     \<and> smr_name rb = ''regs'' \<and> smr_size rb = 0x1000"
  using assms by (auto simp: example_shape_def)

theorem sdf_parse_mappings_aligned_witness:
  "\<exists>sys (m :: sys_map) mr. sdf_parse (\<lambda>_. False) (\<lambda>_. None) (Inr example_doc) example_riscv_config [] = Inr sys
     \<and> sm_vaddr m = 0x4000000 \<and> mr \<in> set (sd_memory_regions sys) \<and> smr_name mr = sm_mr m
     \<and> unat (page_size_bytes mr) dvd unat (sm_vaddr m)"
proof (rule example_parse_obtain)
  fix sys
  assume s: "sdf_parse (\<lambda>_. False) (\<lambda>_. None) (Inr example_doc) example_riscv_config [] = Inr sys"
    "example_shape sys"
  from example_shape_client [OF s(2)] obtain pd pds m n where
    "sd_protection_domains sys = pd # pds" "pd_maps pd = [m, n]" and v: "sm_vaddr m = 0x4000000" by blast
  then have "pd \<in> set (sd_protection_domains sys)" "m \<in> set (pd_all_maps pd)"
    by (simp_all add: pd_all_maps_def)
  from sdf_parse_mappings_aligned [OF s(1) this] obtain mr where
    "mr \<in> set (sd_memory_regions sys)" "smr_name mr = sm_mr m"
    "unat (page_size_bytes mr) dvd unat (sm_vaddr m)" by blast
  with s(1) v show ?thesis by blast
qed

text \<open>The addresses a region covers when it is mapped at an address, as natural numbers.\<close>

definition extent :: "u64 \<Rightarrow> sys_memory_region \<Rightarrow> nat set" where
  "extent vaddr mr = {unat vaddr ..< unat vaddr + unat (smr_size mr)}"

definition no_wrap :: "u64 \<Rightarrow> sys_memory_region \<Rightarrow> bool" where
  "no_wrap vaddr mr \<longleftrightarrow> unat vaddr + unat (smr_size mr) < 2 ^ 64"

lemma apart_extents:
  assumes "apart (a, v, v + smr_size mr) (b, w, w + smr_size mr')" "no_wrap v mr" "no_wrap w mr'"
  shows "extent v mr \<inter> extent w mr' = {}"
proof -
  have "unat (v + smr_size mr) = unat v + unat (smr_size mr)"
    "unat (w + smr_size mr') = unat w + unat (smr_size mr')"
    using assms(2,3) by (simp_all add: no_wrap_def unat_add_no_overflow)
  with assms(1) show ?thesis by (auto simp: apart_def extent_def word_le_nat_alt)
qed

text \<open>C22: two mappings of one address space never overlap: for two mappings of a domain (or of its
  virtual machine) at different positions, the ranges of the regions they name are disjoint, provided
  neither range wraps around the end of the address space (the tool adds sizes in 64 bits and checks
  only where a mapping starts).\<close>

theorem sdf_parse_mappings_disjoint:
  assumes "sdf_parse path_exists fs_read doc cfg search_paths = Inr sys"
    and "pd \<in> set (sd_protection_domains sys)" and "ms \<in> set (map_lists pd)"
    and "i < j" and "j < length ms"
    and "region_named (sd_memory_regions sys) (sm_mr (ms ! i)) = Some ra"
    and "region_named (sd_memory_regions sys) (sm_mr (ms ! j)) = Some rb"
    and "no_wrap (sm_vaddr (ms ! i)) ra" and "no_wrap (sm_vaddr (ms ! j)) rb"
  shows "extent (sm_vaddr (ms ! i)) ra \<inter> extent (sm_vaddr (ms ! j)) rb = {}"
proof -
  let ?maps = "concat (map pd_all_maps (sd_protection_domains sys))"
  from assms(1) obtain mrs where mrs:
    "check_system cfg (sd_protection_domains sys) mrs (sd_channels sys) = Inr ()"
    "list_all2 (mr_settled ?maps) mrs (sd_memory_regions sys)" by (rule sdf_parse_mrs)
  from mrs(1) assms(2) have "check_pd_maps mrs pd = Inr ()" by (auto elim: check_system_facts)
  with assms(3) obtain kind name where c: "check_maps mrs kind name ms = Inr ()"
    using check_pd_maps_lists by blast
  have same: "map_range mrs (ms ! k) = (sm_mr (ms ! k), sm_vaddr (ms ! k), sm_vaddr (ms ! k) + smr_size r)"
    if "k < length ms" "region_named (sd_memory_regions sys) (sm_mr (ms ! k)) = Some r" for k r
  proof -
    from that(1) check_maps_spec(2) [OF c, of "ms ! k"] obtain mr where
      mr: "region_named mrs (sm_mr (ms ! k)) = Some mr" by auto
    from region_named_settled [OF mrs(2) mr] that(2) have "smr_size r = smr_size mr"
      by (auto simp: mr_settled_def)
    with mr show ?thesis by (simp add: map_range_def)
  qed
  have "apart (map_range mrs (ms ! i)) (map_range mrs (ms ! j))"
    using check_maps_spec(1) [OF c] assms(4,5) by (simp add: sorted_wrt_iff_nth_less)
  moreover have "i < length ms" using assms(4,5) by simp
  ultimately have "apart (sm_mr (ms ! i), sm_vaddr (ms ! i), sm_vaddr (ms ! i) + smr_size ra)
      (sm_mr (ms ! j), sm_vaddr (ms ! j), sm_vaddr (ms ! j) + smr_size rb)"
    using same [OF _ assms(6)] same [OF assms(5,7)] by simp
  from apart_extents [OF this assms(8,9)] show ?thesis .
qed

theorem sdf_parse_mappings_disjoint_witness:
  "\<exists>sys ra rb. sdf_parse (\<lambda>_. False) (\<lambda>_. None) (Inr example_doc) example_riscv_config [] = Inr sys
     \<and> region_named (sd_memory_regions sys) ''buf'' = Some ra
     \<and> region_named (sd_memory_regions sys) ''regs'' = Some rb
     \<and> extent 0x4000000 ra \<inter> extent 0x5000000 rb = {}"
proof (rule example_parse_obtain)
  fix sys
  assume s: "sdf_parse (\<lambda>_. False) (\<lambda>_. None) (Inr example_doc) example_riscv_config [] = Inr sys"
    "example_shape sys"
  from example_shape_regions [OF s(2)] obtain ra rb where r: "sd_memory_regions sys = [ra, rb]"
    "smr_name ra = ''buf''" "smr_size ra = 0x200000" "smr_name rb = ''regs''" "smr_size rb = 0x1000" by blast
  from example_shape_client [OF s(2)] obtain pd pds m n where
    m: "sd_protection_domains sys = pd # pds" "pd_maps pd = [m, n]"
    "sm_mr m = ''buf''" "sm_vaddr m = 0x4000000" "sm_mr n = ''regs''" "sm_vaddr n = 0x5000000" by blast
  have "extent (sm_vaddr ([m, n] ! 0)) ra \<inter> extent (sm_vaddr ([m, n] ! 1)) rb = {}"
    using m r by (intro sdf_parse_mappings_disjoint [OF s(1), of pd])
      (simp_all add: map_lists_def region_named_def no_wrap_def)
  with m r s(1) show ?thesis by (simp add: region_named_def)
qed

end
