(* ===== verification/Spec2Isabelle.thy ===== *)
theory Spec2Isabelle
  imports Tool_Image Image_Paddrs Capdl_Fills Capdl_Regions Capdl_Elf_Ends Sdf_Maps
begin

text \<open>
  \<^bold>\<open>The Microkit tool.\<close>  The tool (\<open>tool/microkit/\<close>) turns a system description, an XML file, and the ELF files of
  its programs into one bootable image.  It reads the description, patches what the programs need to know of it
  into them, builds a CapDL specification, that is, all kernel objects and capabilities of the system, packs it into
  the initial task that creates these objects at boot, emulates the boot of the kernel to know the memory that is
  left, simulates the allocation of the objects in it, picks the addresses that were left open, and writes the image.

  \<^bold>\<open>Parts and theories.\<close>  The theories follow the files under \<open>tool/microkit/src\<close>; a definition has the name of the
  function it models, or a suffix where that name is one of HOL.
    \<^item> \<open>Prelude\<close>, \<open>Rust_Std\<close>, \<open>Region_Store\<close>: the result type of a step (a value, an error, a panic) with its
      combinators and their laws; what the tool uses of Rust's library (bit counting, reading and printing numbers,
      slices, paths); and the locale \<open>region_store\<close>, the interface between the boot emulation and the set of
      free memory, which \<open>Mem_Regions\<close> interprets.
    \<^item> \<open>Byte_Table\<close>, \<open>Variable_Store\<close>: the locales \<open>fixed_codec\<close>, of records written as a fixed number of bytes, which
      \<open>Elf_Write\<close> interprets for the headers of ELF files, and \<open>variable_store\<close>, of variables that are written to
      and read from a program, which \<open>Symbols\<close> interprets for the symbols of an ELF file.
    \<^item> \<open>Util\<close>, \<open>Crc32\<close>, \<open>Uimage\<close>, \<open>Sel4_Config\<close>: \<open>util.rs\<close>, \<open>crc32.rs\<close>, \<open>uimage.rs\<close>, and of \<open>sel4.rs\<close>
      the configuration of the kernel.
    \<^item> \<open>Mem_Regions\<close> (\<open>lib.rs\<close>), \<open>Kernel_Boot\<close> (\<open>sel4.rs\<close>): sorted disjoint regions of memory with insertion, removal
      and first fit allocation, and the boot of the kernel emulated with them.
    \<^item> \<open>Elf\<close>, \<open>Elf_Write\<close> (\<open>elf.rs\<close>): reading, patching, extending and writing ELF files.
    \<^item> \<open>Sdf_Data\<close>, \<open>Sdf_Parse\<close>, \<open>Sdf_Flatten\<close>, \<open>Sdf_Check\<close> (\<open>sdf.rs\<close>): the data of a description, the parsers of its
      elements, the flattening of the tree of protection domains, and \<open>sdf_parse\<close> with its checks.  \<open>Sdf_Valid\<close> and
      \<open>Sdf_Maps\<close> show what an accepted description satisfies.
    \<^item> \<open>Symbols\<close> (\<open>symbols.rs\<close>): the variables that are set in the programs.
    \<^item> \<open>Capdl_Spec\<close>, \<open>Capdl_Util\<close>, \<open>Page_Tables\<close>, \<open>Address_Spaces\<close>, \<open>Capdl_Irq\<close> (\<open>capdl/spec.rs\<close>, \<open>util.rs\<close>,
      \<open>memory.rs\<close>, \<open>irq.rs\<close>): objects, capabilities and the container they are built in.  A step that edits the
      container takes it and returns it; the combinators \<open>bindB\<close> and \<open>foldB\<close> thread it.
    \<^item> \<open>Capdl_Frame\<close>, \<open>Capdl_Elf\<close>, \<open>Capdl_Elf_Ends\<close>, \<open>Capdl_Monitor\<close>, \<open>Capdl_Pd\<close>, \<open>Capdl_Regions\<close>, \<open>Capdl_Wiring\<close>,
      \<open>Capdl_Sort\<close>, \<open>Capdl_Build\<close>, \<open>Capdl_Threads\<close>, \<open>Capdl_Run\<close> (\<open>capdl/builder.rs\<close>): the steps of
      \<open>build_capdl_spec\<close>, from the monitor and the memory regions over the domains and their channels to the order
      of the objects, with what every step keeps of the objects that are there (\<open>builds\<close>).
    \<^item> \<open>Capdl_Alloc\<close> (\<open>capdl/allocation.rs\<close>): the simulation of the allocation of the objects.
    \<^item> \<open>Initialiser\<close>, \<open>Packaging\<close> (\<open>capdl/initialiser.rs\<close>, \<open>capdl/packaging.rs\<close>): the specification in the initial task.
      \<open>Object_Contract\<close> has the locales \<open>object_contract\<close> and \<open>build_contract\<close>, of a condition on objects that the
      steps of the builder keep; \<open>Capdl_Fills\<close> interprets them for the frames that the packing can fill.
    \<^item> \<open>Loader_Tables\<close>, \<open>Loader_Aarch64\<close>, \<open>Loader_Riscv\<close>, \<open>Loader\<close>, \<open>Loader_Boot\<close> (\<open>loader.rs\<close>, and of
      \<open>loader/src/\<close> what unpacks the image): the boot loader's page tables, its image, and the unpacking of it.
    \<^item> \<open>Sdk\<close>, \<open>Argparse\<close>, \<open>Kernel_Settings\<close> (\<open>sdk.rs\<close>, \<open>argparse.rs\<close>, the settings in \<open>main.rs\<close>): the boards, the
      command line, the configuration read from JSON.
    \<^item> \<open>Image_Build\<close>, \<open>Image_Paddrs\<close>, \<open>Tool_Main\<close>, \<open>Tool_Image\<close> (\<open>main.rs\<close>): the loop that builds the system, the
      addresses it picks, and the whole tool from its arguments to the files it writes.
    \<^item> \<open>Viper\<close>, \<open>Viper_Views\<close>, \<open>Report\<close> (\<open>viper.rs\<close>, \<open>report.rs\<close>): what is exported for a verifier, and the report.
\<close>

text \<open>
  \<^bold>\<open>What the lemmas show.\<close>  For each part: the invariant of its data and that the operations keep it (regions
  sorted and disjoint, page tables that lose no mapping, a specification whose capabilities name objects of it), what
  an operation returns on every branch, its errors and panics included, and an independent description that it
  implements: the walk of the architecture through the page tables of the boot loader, the layout of an image for
  U-Boot, the boot loader that unpacks it, the CRC-32 of the standard as a remainder of polynomials, reading back an
  ELF file that was written, the command line read back from its options.  Across the parts: the programs, the
  specification and the addresses that the build loop ends with are those of one description (\<open>build_system_outcome\<close>); the packing finds the contents of every
  frame of a specification in bounds (\<open>build_capdl_spec_fills\<close>); the memory that the simulation has used is
  what the kernel will leave, since the header of the image that is written hands it the place of the initial task
  that the emulation was given (\<open>tool_main_image\<close>); and what is exported of a domain for its verification agrees
  with its capabilities (\<open>viper_views_agree\<close>).

  \<^bold>\<open>Integers and panics.\<close>  Machine integers are words of their width and wrap around, as they do in the release build
  that is shipped; \<open>usize\<close> is \<open>nat\<close> where it counts or indexes a list.  Failed assertions, indices out of bounds,
  \<open>unwrap\<close> of nothing and division by zero are the outcome \<open>Panic\<close>.

  \<^bold>\<open>Loops.\<close>  Loops over data are structural.  The parser of the command line recurs on the arguments left.  The
  splitting of a region into aligned powers of two is shown to end.  Two loops carry fuel, whose exhaustion is a
  panic of its own: the pages of an ELF segment (\<open>LOOP_FUEL\<close>, \<open>2 ^ 52\<close>: a page is at least \<open>2 ^ 12\<close> bytes, so a
  64-bit address passes every value with fewer steps; \<open>add_elf_to_spec_ends\<close> excludes the exhaustion) and the blocks
  skipped by the allocation (\<open>ALLOC_FUEL\<close>, \<open>2 ^ 64\<close>, more than the bytes there are).  The build loop runs at most
  three times, as in the code.

  \<^bold>\<open>Parameters.\<close>  What is not in the repository is an argument of the definitions that use it: the crate that
  serialises a specification (\<open>spec_codec\<close>), the JSON and XML libraries (\<open>json_api\<close>, the fields \<open>te_json\<close> and \<open>te_xml\<close>
  of \<open>tool_env\<close>; a parsed XML document is a tree of nodes), the file system, the environment and the arguments
  (\<open>sdk_env\<close>, \<open>tool_env\<close>), and the floating point quotient in a printed size.  Nothing is assumed of them.

  \<^bold>\<open>Not modelled.\<close>  The text of most error messages, which are values that carry the data of the message; when
  there is no room for the initial task or a region, printing a size of at most one byte would panic before the tool
  exits.  The console output before an error, and files that were written before one.  The JSON labels of the invocations, which nothing
  reads.  Of the boot loader, only the copying of the regions; its assembly, the monitor and \<open>libmicrokit\<close> are C and
  assembly that the image contains.  The initial task is in a crate of its own whose allocator is outside the
  repository: the simulation is shown to place the objects soundly, not to agree with that allocator.
\<close>

end
